(* ===== verification/Store_Prelude.thy ===== *)
theory Store_Prelude
  imports
    Main
    "HOL-Library.List_Lexorder"
    "HOL-Library.Char_ord"
    "HOL-Library.Product_Lexorder"
    "HOL-Library.Sublist"
begin

text \<open>
  Shared vocabulary of the development: a calculus of store operations with exceptions and
  transactions, tables as lists of rows addressed by a key, and the part of Python's and
  SQLite's string library that the modelled code calls.

  Every store of the program runs one short SQLite transaction per call.  An operation is a
  function from the database to the database and either an exception (\<open>Inl\<close>) or a result
  (\<open>Inr\<close>).  The state is returned on both outcomes, because some operations of the code commit
  a write and raise afterwards; rolling back is the explicit combinator \<open>atomic\<close>.
\<close>

section \<open>Store operations\<close>

type_synonym ('s, 'e, 'a) op = "'s \<Rightarrow> 's \<times> ('e + 'a)"

type_synonym instant = int

text \<open>Instants are aware UTC datetimes, counted in microseconds.\<close>

definition seconds :: "int \<Rightarrow> instant" where
  "seconds n = n * 1000000"

named_theorems op_defs \<open>definitions of the combinators\<close>
named_theorems op_ok \<open>what a successful run of a combinator means\<close>
named_theorems op_err \<open>what a failing run of a combinator means\<close>

definition ret :: "'a \<Rightarrow> ('s, 'e, 'a) op" where
  [op_defs]: "ret x = (\<lambda>s. (s, Inr x))"

definition raise :: "'e \<Rightarrow> ('s, 'e, 'a) op" where
  [op_defs]: "raise e = (\<lambda>s. (s, Inl e))"

definition bind :: "('s, 'e, 'a) op \<Rightarrow> ('a \<Rightarrow> ('s, 'e, 'b) op) \<Rightarrow> ('s, 'e, 'b) op" where
  [op_defs]: "bind m f =
     (\<lambda>s. case m s of (s', r) \<Rightarrow> (case r of Inl e \<Rightarrow> (s', Inl e) | Inr x \<Rightarrow> f x s'))"

definition reads :: "('s \<Rightarrow> 'a) \<Rightarrow> ('s, 'e, 'a) op" where
  [op_defs]: "reads f = (\<lambda>s. (s, Inr (f s)))"

definition writes :: "('s \<Rightarrow> 's) \<Rightarrow> ('s, 'e, unit) op" where
  [op_defs]: "writes f = (\<lambda>s. (f s, Inr ()))"

definition unless :: "bool \<Rightarrow> 'e \<Rightarrow> ('s, 'e, unit) op" where
  [op_defs]: "unless ok e = (if ok then ret () else raise e)"

definition lift :: "'e + 'a \<Rightarrow> ('s, 'e, 'a) op" where
  [op_defs]: "lift r = (\<lambda>s. (s, r))"

definition some_or :: "'e \<Rightarrow> 'a option \<Rightarrow> ('s, 'e, 'a) op" where
  [op_defs]: "some_or e r = (\<lambda>s. (s, case r of None \<Rightarrow> Inl e | Some x \<Rightarrow> Inr x))"

definition atomic :: "('s, 'e, 'a) op \<Rightarrow> ('s, 'e, 'a) op" where
  [op_defs]: "atomic m =
     (\<lambda>s. case m s of (s', r) \<Rightarrow> (case r of Inl e \<Rightarrow> (s, Inl e) | Inr x \<Rightarrow> (s', Inr x)))"

primrec each :: "('a \<Rightarrow> ('s, 'e, 'b) op) \<Rightarrow> 'a list \<Rightarrow> ('s, 'e, 'b list) op" where
  "each f [] = ret []"
| "each f (x # xs) = bind (f x) (\<lambda>y. bind (each f xs) (\<lambda>ys. ret (y # ys)))"

text \<open>Sequencing of pure checks, where no state is involved.\<close>

definition andthen :: "'e + 'a \<Rightarrow> ('a \<Rightarrow> 'e + 'b) \<Rightarrow> 'e + 'b" where
  "andthen r f = (case r of Inl e \<Rightarrow> Inl e | Inr x \<Rightarrow> f x)"

lemma andthen_simps [simp]:
  "andthen (Inl e) f = Inl e"
  "andthen (Inr x) f = f x"
  by (simp_all add: andthen_def)

lemma andthen_Inr: "andthen r f = Inr y \<longleftrightarrow> (\<exists>x. r = Inr x \<and> f x = Inr y)"
  by (cases r) auto

subsection \<open>Successful and failing runs\<close>

text \<open>
  A successful run passes every check on the way, so a hypothesis \<open>m s = (s', Inr x)\<close> unfolds
  into a conjunction without case distinctions.  A failing run of a transaction leaves the
  database as it was.
\<close>

lemma ret_ok [op_ok]: "ret x s = (s', Inr y) \<longleftrightarrow> s' = s \<and> y = x"
  by (auto simp: op_defs)

lemma raise_ok [op_ok]: "raise e s = (s', Inr y) \<longleftrightarrow> False"
  by (simp add: op_defs)

lemma bind_ok [op_ok]:
  "bind m f s = (s', Inr y) \<longleftrightarrow> (\<exists>t x. m s = (t, Inr x) \<and> f x t = (s', Inr y))"
  by (auto simp: op_defs split: prod.splits sum.splits)

lemma reads_ok [op_ok]: "reads f s = (s', Inr y) \<longleftrightarrow> s' = s \<and> y = f s"
  by (auto simp: op_defs)

lemma writes_ok [op_ok]: "writes f s = (s', Inr y) \<longleftrightarrow> s' = f s"
  by (auto simp: op_defs)

lemma unless_ok [op_ok]: "unless b e s = (s', Inr y) \<longleftrightarrow> b \<and> s' = s"
  by (auto simp: op_defs)

lemma lift_ok [op_ok]: "lift r s = (s', Inr y) \<longleftrightarrow> s' = s \<and> r = Inr y"
  by (auto simp: op_defs)

lemma some_or_ok [op_ok]: "some_or e r s = (s', Inr y) \<longleftrightarrow> s' = s \<and> r = Some y"
  by (auto simp: op_defs split: option.splits)

lemma some_or_err [op_err]: "some_or e r s = (s', Inl e') \<longleftrightarrow> s' = s \<and> r = None \<and> e' = e"
  by (auto simp: op_defs split: option.splits)

lemma atomic_ok [op_ok]: "atomic m s = (s', Inr y) \<longleftrightarrow> m s = (s', Inr y)"
  by (auto simp: op_defs split: prod.splits sum.splits)

lemma ret_err [op_err]: "ret x s = (s', Inl e) \<longleftrightarrow> False"
  by (simp add: op_defs)

lemma raise_err [op_err]: "raise e s = (s', Inl e') \<longleftrightarrow> s' = s \<and> e' = e"
  by (auto simp: op_defs)

lemma bind_err [op_err]:
  "bind m f s = (s', Inl e) \<longleftrightarrow>
     m s = (s', Inl e) \<or> (\<exists>t x. m s = (t, Inr x) \<and> f x t = (s', Inl e))"
  by (auto simp: op_defs split: prod.splits sum.splits)

lemma reads_err [op_err]: "reads f s = (s', Inl e) \<longleftrightarrow> False"
  by (simp add: op_defs)

lemma writes_err [op_err]: "writes f s = (s', Inl e) \<longleftrightarrow> False"
  by (simp add: op_defs)

lemma unless_err [op_err]: "unless b e s = (s', Inl e') \<longleftrightarrow> \<not> b \<and> s' = s \<and> e' = e"
  by (auto simp: op_defs)

lemma lift_err [op_err]: "lift r s = (s', Inl e) \<longleftrightarrow> s' = s \<and> r = Inl e"
  by (auto simp: op_defs)

lemma atomic_err [op_err]:
  "atomic m s = (s', Inl e) \<longleftrightarrow> s' = s \<and> (\<exists>t. m s = (t, Inl e))"
  by (auto simp: op_defs split: prod.splits sum.splits)

text \<open>The combinators on concrete runs; used to evaluate closed terms.\<close>

lemmas op_eval = op_defs

lemma op_cases:
  obtains (ok) s' x where "m s = (s', Inr x)" | (err) s' e where "m s = (s', Inl e)"
  by (metis obj_sumE surj_pair)

subsection \<open>Reasoning about the final state\<close>

text \<open>
  A property of the final state of a run: a body inside \<open>atomic\<close> only matters when it succeeds,
  and reading the result back after the commit does not matter at all.
\<close>

lemma final_atomic:
  assumes "P s" and "\<And>t x. m s = (t, Inr x) \<Longrightarrow> P t"
  shows "P (fst (atomic m s))"
  using assms by (auto simp: op_defs split: prod.splits sum.splits)

lemma final_lift:
  assumes "P s" and "\<And>x. r = Inr x \<Longrightarrow> P (fst (f x s))"
  shows "P (fst (bind (lift r) f s))"
  using assms by (cases r) (auto simp: op_defs)

lemma final_atomic_bind:
  assumes "P s" and "\<And>x t. fst (f x t) = t" and "\<And>t x. m s = (t, Inr x) \<Longrightarrow> P t"
  shows "P (fst (bind (atomic m) f s))"
  using assms by (auto simp: op_defs split: prod.splits sum.splits)

lemma final_bind_read:
  assumes "\<And>t. fst (m t) = t" and "P s" and "\<And>x. m s = (s, Inr x) \<Longrightarrow> P (fst (f x s))"
  shows "P (fst (bind m f s))"
proof (cases "m s")
  case (Pair t r)
  with assms(1) [of s] have "t = s" by simp
  with Pair assms show ?thesis by (cases r) (auto simp: bind_def)
qed

lemma atomic_bind_stays:
  "(\<And>x t. fst (f x t) = t) \<Longrightarrow> (\<And>t x. m s = (t, Inr x) \<Longrightarrow> t = s) \<Longrightarrow>
     fst (bind (atomic m) f s) = s"
  by (rule final_atomic_bind) auto

lemma atomic_stays: "(\<And>t x. m s = (t, Inr x) \<Longrightarrow> t = s) \<Longrightarrow> fst (atomic m s) = s"
  by (rule final_atomic) auto

subsection \<open>Relations every run keeps\<close>

text \<open>
  \<open>keeps R m\<close>: each run of \<open>m\<close>, successful or not, ends in a state that \<open>R\<close> relates to the
  initial one.  With a reflexive and transitive \<open>R\<close> the combinators compose, and for a
  transaction only successful runs matter.
\<close>

definition keeps :: "('s \<Rightarrow> 's \<Rightarrow> bool) \<Rightarrow> ('s, 'e, 'a) op \<Rightarrow> bool" where
  "keeps R m \<longleftrightarrow> (\<forall>s. R s (fst (m s)))"

lemma keepsD: "keeps R m \<Longrightarrow> R s (fst (m s))"
  by (simp add: keeps_def)

lemma keeps_run: "keeps R m \<Longrightarrow> m s = (s', r) \<Longrightarrow> R s s'"
  by (metis fst_conv keepsD)

lemma keeps_atomic:
  assumes "\<And>s. R s s" and "\<And>s s' x. m s = (s', Inr x) \<Longrightarrow> R s s'"
  shows "keeps R (atomic m)"
  using assms by (auto simp: keeps_def op_defs split: prod.splits sum.splits)

lemma keeps_bind:
  assumes tr: "transp R" and m: "keeps R m" and f: "\<And>x. keeps R (f x)"
  shows "keeps R (bind m f)"
  unfolding keeps_def
proof
  fix s
  obtain t r where run: "m s = (t, r)" by (cases "m s")
  from m run have st: "R s t" by (rule keeps_run)
  show "R s (fst (bind m f s))"
  proof (cases r)
    case (Inl e)
    with run st show ?thesis by (simp add: op_defs)
  next
    case (Inr x)
    have "R t (fst (f x t))" using f by (rule keepsD)
    with tr st have "R s (fst (f x t))" by (rule transpD)
    with run Inr show ?thesis by (simp add: op_defs)
  qed
qed

lemma keeps_read_only:
  assumes "\<And>s. R s s"
  shows "keeps R (ret x)" "keeps R (raise e)" "keeps R (reads f)"
    "keeps R (unless b e)" "keeps R (lift r)" "keeps R (some_or e x')"
  using assms by (simp_all add: keeps_def op_defs)

named_theorems keeps_intros \<open>operations that keep a relation\<close>

lemma keeps_basic [keeps_intros]:
  "reflp R \<Longrightarrow> keeps R (ret x)" "reflp R \<Longrightarrow> keeps R (raise e)"
  by (simp_all add: keeps_def op_defs reflp_def)

lemma keeps_seq [keeps_intros]: "transp R \<Longrightarrow> keeps R m \<Longrightarrow> (\<And>x. keeps R (f x)) \<Longrightarrow> keeps R (bind m f)"
  by (rule keeps_bind)

lemma keeps_if [keeps_intros]: "(b \<Longrightarrow> keeps R m) \<Longrightarrow> (\<not> b \<Longrightarrow> keeps R n) \<Longrightarrow> keeps R (if b then m else n)"
  by simp

lemma keeps_cases [keeps_intros]:
  "keeps R n \<Longrightarrow> (\<And>x. keeps R (s x)) \<Longrightarrow> keeps R (case_option n s v)"
  "(\<And>a. keeps R (l a)) \<Longrightarrow> (\<And>b. keeps R (r b)) \<Longrightarrow> keeps R (case_sum l r v')"
  "(\<And>a b. keeps R (p a b)) \<Longrightarrow> keeps R (case_prod p q)"
  by (auto split: option.split sum.split prod.split)


section \<open>Tables\<close>

text \<open>
  A table is the list of its rows in insertion (rowid) order.  \<open>find_row key k\<close> is
  \<open>SELECT * WHERE key = k\<close> on a primary key, \<open>update_row\<close> the \<open>UPDATE\<close> with that condition.
\<close>

definition find_row :: "('r \<Rightarrow> 'k) \<Rightarrow> 'k \<Rightarrow> 'r list \<Rightarrow> 'r option" where
  "find_row key k rows = List.find (\<lambda>r. key r = k) rows"

definition update_row :: "('r \<Rightarrow> 'k) \<Rightarrow> 'k \<Rightarrow> ('r \<Rightarrow> 'r) \<Rightarrow> 'r list \<Rightarrow> 'r list" where
  "update_row key k f rows = map (\<lambda>r. if key r = k then f r else r) rows"

definition delete_row :: "('r \<Rightarrow> 'k) \<Rightarrow> 'k \<Rightarrow> 'r list \<Rightarrow> 'r list" where
  "delete_row key k rows = filter (\<lambda>r. key r \<noteq> k) rows"

lemma find_row_Nil [simp]: "find_row key k [] = None"
  by (simp add: find_row_def)

lemma find_row_Cons [simp]:
  "find_row key k (r # rows) = (if key r = k then Some r else find_row key k rows)"
  by (simp add: find_row_def)

lemma find_row_append:
  "find_row key k (xs @ ys) =
     (case find_row key k xs of None \<Rightarrow> find_row key k ys | Some r \<Rightarrow> Some r)"
  by (induction xs) auto

lemma find_row_None: "find_row key k rows = None \<longleftrightarrow> k \<notin> key ` set rows"
  by (induction rows) auto

lemma find_row_Some: "find_row key k rows = Some r \<Longrightarrow> r \<in> set rows \<and> key r = k"
  by (induction rows) (auto split: if_splits)

lemma find_row_mem: "distinct (map key rows) \<Longrightarrow> r \<in> set rows \<Longrightarrow> find_row key (key r) rows = Some r"
  by (induction rows) (auto simp: rev_image_eqI)

lemma find_row_iff:
  "distinct (map key rows) \<Longrightarrow> find_row key k rows = Some r \<longleftrightarrow> r \<in> set rows \<and> key r = k"
  by (metis find_row_Some find_row_mem)

lemma update_row_simps [simp]:
  "update_row key k f [] = []"
  "update_row key k f (r # rows) = (if key r = k then f r else r) # update_row key k f rows"
  by (simp_all add: update_row_def)

lemma update_row_keys: "(\<And>r. key (f r) = key r) \<Longrightarrow> map key (update_row key k f rows) = map key rows"
  by (induction rows) auto

lemma find_update_row:
  assumes "\<And>r. key (f r) = key r"
  shows "find_row key j (update_row key k f rows) =
    (if j = k then map_option f (find_row key k rows) else find_row key j rows)"
  using assms by (induction rows) auto

lemma set_update_row:
  "r' \<in> set (update_row key k f rows) \<Longrightarrow>
     r' \<in> set rows \<or> (\<exists>r \<in> set rows. key r = k \<and> r' = f r)"
  by (auto simp: update_row_def split: if_splits)

lemma in_update_row:
  "r' \<in> set (update_row key k f rows) \<longleftrightarrow>
     (\<exists>r \<in> set rows. r' = (if key r = k then f r else r))"
  unfolding update_row_def set_map image_iff by (rule refl)

lemma update_row_const:
  assumes "distinct (map key rows)" and "find_row key k rows = Some r"
  shows "update_row key k f rows = update_row key k (\<lambda>_. f r) rows"
  using assms by (induction rows) (auto simp: update_row_def rev_image_eqI split: if_splits)

lemma filter_key:
  assumes "distinct (map key rows)" and "find_row key k rows = Some r"
  shows "filter (\<lambda>x. key x = k) rows = [r]"
  using assms by (induction rows) (auto simp: filter_empty_conv rev_image_eqI split: if_splits)

lemma find_other_row:
  "key r' = k \<Longrightarrow> j \<noteq> k \<Longrightarrow> find_row key j (update_row key k (\<lambda>_. r') rows) = find_row key j rows"
  by (induction rows) auto

lemma find_put_row:
  assumes "find_row key k rows = Some r" and "key r' = k"
  shows "find_row key j (update_row key k (\<lambda>_. r') rows)
    = (if j = k then Some r' else find_row key j rows)"
proof (cases "j = k")
  case True
  with assms show ?thesis by (induction rows) auto
next
  case False
  with assms(2) show ?thesis by (simp add: find_other_row)
qed

lemma list_all_where: "list_all (\<lambda>r. P r \<longrightarrow> Q r) rows = list_all Q (filter P rows)"
  by (induction rows) auto

lemma keys_put_row: "key r' = k \<Longrightarrow> map key (update_row key k (\<lambda>_. r') rows) = map key rows"
  by (induction rows) auto

lemma set_put_row:
  "x \<in> set (update_row key k (\<lambda>_. r') rows) \<Longrightarrow> x = r' \<or> x \<in> set rows \<and> key x \<noteq> k"
  by (auto simp: update_row_def split: if_splits)

lemma update_row_absent: "find_row key k rows = None \<Longrightarrow> update_row key k f rows = rows"
  by (induction rows) (auto split: if_splits)

lemma find_delete_row:
  "find_row key j (delete_row key k rows) = (if j = k then None else find_row key j rows)"
  by (induction rows) (auto simp: delete_row_def)

lemma set_delete_row: "r \<in> set (delete_row key k rows) \<longleftrightarrow> r \<in> set rows \<and> key r \<noteq> k"
  by (auto simp: delete_row_def)

lemma distinct_delete_row: "distinct (map key rows) \<Longrightarrow> distinct (map key (delete_row key k rows))"
  by (simp add: delete_row_def distinct_map_filter)

subsection \<open>SQL statements on a table\<close>

text \<open>
  A table inside a database is given by its reading function \<open>get\<close> and its field update \<open>upd\<close>.
  \<open>ok\<close> stands for the table's \<open>CHECK\<close> constraints, \<open>e\<close> for the exception a violated constraint
  surfaces as; the update returns SQLite's \<open>rowcount\<close>.
\<close>

definition sql_update ::
  "('s \<Rightarrow> 'r list) \<Rightarrow> (('r list \<Rightarrow> 'r list) \<Rightarrow> 's \<Rightarrow> 's) \<Rightarrow> ('r \<Rightarrow> bool) \<Rightarrow> 'e
    \<Rightarrow> ('r \<Rightarrow> bool) \<Rightarrow> ('r \<Rightarrow> 'r) \<Rightarrow> ('s, 'e, nat) op" where
  "sql_update get upd ok e P f =
     bind (reads get) (\<lambda>rows.
     bind (unless (list_all (\<lambda>r. P r \<longrightarrow> ok (f r)) rows) e) (\<lambda>_.
     bind (writes (upd (map (\<lambda>r. if P r then f r else r)))) (\<lambda>_.
       ret (length (filter P rows)))))"

definition sql_insert ::
  "('s \<Rightarrow> 'r list) \<Rightarrow> (('r list \<Rightarrow> 'r list) \<Rightarrow> 's \<Rightarrow> 's) \<Rightarrow> ('r \<Rightarrow> 'k) \<Rightarrow> ('r \<Rightarrow> bool) \<Rightarrow> 'e
    \<Rightarrow> 'r \<Rightarrow> ('s, 'e, unit) op" where
  "sql_insert get upd key ok e r =
     bind (reads get) (\<lambda>rows.
     bind (unless (find_row key (key r) rows = None \<and> ok r) e) (\<lambda>_.
       writes (upd (\<lambda>rows. rows @ [r]))))"

definition sql_delete ::
  "(('r list \<Rightarrow> 'r list) \<Rightarrow> 's \<Rightarrow> 's) \<Rightarrow> ('r \<Rightarrow> bool) \<Rightarrow> ('s, 'e, unit) op" where
  "sql_delete upd P = writes (upd (filter (\<lambda>r. \<not> P r)))"

text \<open>
  The interface between the stores and the SQL layer: a table with a primary key that can be read
  back after it is written.  Each store interprets it for each of its keyed tables.
\<close>

locale keyed_table =
  fixes get :: "'s \<Rightarrow> 'r list"
    and upd :: "('r list \<Rightarrow> 'r list) \<Rightarrow> 's \<Rightarrow> 's"
    and key :: "'r \<Rightarrow> 'k"
  assumes get_upd: "get (upd g s) = g (get s)"
    and upd_local: "upd g s = upd (\<lambda>_. g (get s)) s"
begin

lemma update_ok:
  assumes d: "distinct (map key (get s))" and found: "find_row key k (get s) = Some r"
  shows "sql_update get upd ok e (\<lambda>r. key r = k) f s = (s', Inr n) \<longleftrightarrow>
    ok (f r) \<and> n = 1 \<and> s' = upd (\<lambda>_. update_row key k (\<lambda>_. f r) (get s)) s"
proof -
  have one: "filter (\<lambda>r. key r = k) (get s) = [r]" by (rule filter_key [OF d found])
  then have "list_all (\<lambda>r. key r = k \<longrightarrow> ok (f r)) (get s) = list_all (\<lambda>r. ok (f r)) [r]"
    by (simp add: list_all_where)
  moreover have "upd (map (\<lambda>r. if key r = k then f r else r)) s
      = upd (\<lambda>_. update_row key k (\<lambda>_. f r) (get s)) s"
    using upd_local [of "map (\<lambda>r. if key r = k then f r else r)" s]
    by (simp only: update_row_def [symmetric] update_row_const [OF d found, of f])
  ultimately show ?thesis using one by (auto simp: sql_update_def op_ok)
qed

lemma update_err:
  assumes d: "distinct (map key (get s))" and found: "find_row key k (get s) = Some r"
  shows "sql_update get upd ok e (\<lambda>r. key r = k) f s = (s', Inl e') \<longleftrightarrow>
    \<not> ok (f r) \<and> e' = e \<and> s' = s"
proof -
  have one: "filter (\<lambda>r. key r = k) (get s) = [r]" by (rule filter_key [OF d found])
  then have "list_all (\<lambda>r. key r = k \<longrightarrow> ok (f r)) (get s) = list_all (\<lambda>r. ok (f r)) [r]"
    by (simp add: list_all_where)
  then show ?thesis by (auto simp: sql_update_def op_ok op_err)
qed

lemma insert_ok:
  "sql_insert get upd key ok e r s = (s', Inr u) \<longleftrightarrow>
    find_row key (key r) (get s) = None \<and> ok r \<and> s' = upd (\<lambda>_. get s @ [r]) s"
proof -
  have "upd (\<lambda>rows. rows @ [r]) s = upd (\<lambda>_. get s @ [r]) s" by (rule upd_local)
  then show ?thesis by (auto simp: sql_insert_def op_ok)
qed

lemma insert_err:
  "sql_insert get upd key ok e r s = (s', Inl e') \<longleftrightarrow>
    \<not> (find_row key (key r) (get s) = None \<and> ok r) \<and> e' = e \<and> s' = s"
  by (auto simp: sql_insert_def op_ok op_err)

lemma update_where_cong:
  assumes "\<And>r. r \<in> set (get s) \<Longrightarrow> P r = Q r"
  shows "sql_update get upd ok e P f s = sql_update get upd ok e Q f s"
proof -
  have "upd (map (\<lambda>r. if P r then f r else r)) s = upd (map (\<lambda>r. if Q r then f r else r)) s"
    using upd_local [of "map (\<lambda>r. if P r then f r else r)" s]
      upd_local [of "map (\<lambda>r. if Q r then f r else r)" s] assms by (simp cong: map_cong)
  moreover have "list_all (\<lambda>r. P r \<longrightarrow> ok (f r)) (get s) = list_all (\<lambda>r. Q r \<longrightarrow> ok (f r)) (get s)"
    using assms by (auto simp: list_all_iff)
  moreover have "filter P (get s) = filter Q (get s)" using assms by (rule filter_cong [OF refl])
  ultimately show ?thesis by (simp add: sql_update_def op_defs)
qed

lemma find_put:
  assumes "find_row key k (get s) = Some r" and "key r' = k"
  shows "find_row key j (get (upd (\<lambda>_. update_row key k (\<lambda>_. r') (get s)) s)) =
    (if j = k then Some r' else find_row key j (get s))"
  using assms by (simp add: get_upd find_put_row)

lemma keys_put:
  assumes "key r' = k"
  shows "map key (get (upd (\<lambda>_. update_row key k (\<lambda>_. r') (get s)) s)) = map key (get s)"
  using assms by (simp add: get_upd keys_put_row)

text \<open>An update that may also test other columns touches at most one row.\<close>

lemma filter_key_where:
  assumes "distinct (map key rows)"
  shows "filter (\<lambda>r. key r = k \<and> C r) rows
    = (case find_row key k rows of None \<Rightarrow> [] | Some r \<Rightarrow> if C r then [r] else [])"
proof (cases "find_row key k rows")
  case None
  then have "filter (\<lambda>r. key r = k \<and> C r) rows = []" by (auto simp: find_row_None filter_empty_conv)
  with None show ?thesis by simp
next
  case (Some r)
  have "filter (\<lambda>r. key r = k \<and> C r) rows = filter C (filter (\<lambda>r. key r = k) rows)"
    by (simp add: conj_commute)
  with filter_key [OF assms Some] Some show ?thesis by simp
qed

lemma map_where_one:
  assumes "distinct (map key rows)" and "find_row key k rows = Some r" and "C r"
  shows "map (\<lambda>r. if key r = k \<and> C r then f r else r) rows = update_row key k (\<lambda>_. f r) rows"
proof -
  have "map (\<lambda>r. if key r = k \<and> C r then f r else r) rows = update_row key k f rows"
    unfolding update_row_def
  proof (rule map_cong [OF refl])
    fix x assume "x \<in> set rows"
    with assms find_row_iff [OF assms(1)] show "(if key x = k \<and> C x then f x else x) = (if key x = k then f x else x)"
      by (metis option.inject)
  qed
  with update_row_const [OF assms(1,2)] show ?thesis by simp
qed

lemma update_one_ok:
  assumes d: "distinct (map key (get s))"
  shows "sql_update get upd (\<lambda>_. True) e (\<lambda>r. key r = k \<and> C r) f s = (s', Inr (Suc 0)) \<longleftrightarrow>
    (\<exists>r. find_row key k (get s) = Some r \<and> C r
      \<and> s' = upd (\<lambda>_. update_row key k (\<lambda>_. f r) (get s)) s)"
proof (cases "\<exists>r. find_row key k (get s) = Some r \<and> C r")
  case True
  then obtain r where r: "find_row key k (get s) = Some r" "C r" by blast
  have "upd (map (\<lambda>r. if key r = k \<and> C r then f r else r)) s
      = upd (\<lambda>_. update_row key k (\<lambda>_. f r) (get s)) s"
    by (subst upd_local) (simp only: map_where_one [where C = C and rows = "get s", OF d r])
  with r show ?thesis
    by (auto simp: sql_update_def op_ok filter_key_where [OF d] list.pred_True)
next
  case False
  then have "filter (\<lambda>r. key r = k \<and> C r) (get s) = []"
    by (auto simp: filter_key_where [OF d] split: option.splits)
  with False show ?thesis by (auto simp: sql_update_def op_ok list.pred_True)
qed

end

section \<open>Strings\<close>

text \<open>
  A string is the list of its code points, each below 256 (Latin-1); this is the range of
  HOL's \<open>char\<close>.  \<open>py_strip\<close>, \<open>py_lower\<close> and \<open>is_py_space\<close> agree with CPython on that range:
  white space is TAB to CR, FS to US, space, NEL and the no-break space.
\<close>

definition code :: "char \<Rightarrow> nat" where
  "code c = of_char c"

definition is_py_space :: "char \<Rightarrow> bool" where
  "is_py_space c \<longleftrightarrow>
     (let n = code c in 9 \<le> n \<and> n \<le> 13 \<or> 28 \<le> n \<and> n \<le> 32 \<or> n = 133 \<or> n = 160)"

definition py_strip :: "string \<Rightarrow> string" where
  "py_strip s = rev (dropWhile is_py_space (rev (dropWhile is_py_space s)))"

definition py_lower_char :: "char \<Rightarrow> char" where
  "py_lower_char c =
     (let n = code c
      in if 65 \<le> n \<and> n \<le> 90 \<or> 192 \<le> n \<and> n \<le> 214 \<or> 216 \<le> n \<and> n \<le> 222
         then char_of (n + 32) else c)"

definition py_lower :: "string \<Rightarrow> string" where
  "py_lower s = map py_lower_char s"

definition is_digit :: "char \<Rightarrow> bool" where
  "is_digit c \<longleftrightarrow> 48 \<le> code c \<and> code c \<le> 57"

definition is_lower_letter :: "char \<Rightarrow> bool" where
  "is_lower_letter c \<longleftrightarrow> 97 \<le> code c \<and> code c \<le> 122"

definition is_hex :: "char \<Rightarrow> bool" where
  "is_hex c \<longleftrightarrow> is_digit c \<or> 97 \<le> code c \<and> code c \<le> 102"

definition strip_prefix :: "string \<Rightarrow> string \<Rightarrow> string option" where
  "strip_prefix p s = (if take (length p) s = p then Some (drop (length p) s) else None)"

text \<open>\<open>^<prefix>[0-9a-f]{n}$\<close>, the shape of every generated identity.\<close>

definition hex_id :: "string \<Rightarrow> nat \<Rightarrow> string \<Rightarrow> bool" where
  "hex_id p n s \<longleftrightarrow>
     (case strip_prefix p s of None \<Rightarrow> False | Some h \<Rightarrow> length h = n \<and> list_all is_hex h)"

text \<open>
  SQLite's \<open>trim\<close> removes spaces only, and its \<open>length\<close> counts up to the first NUL character.
\<close>

definition sql_trim :: "string \<Rightarrow> string" where
  "sql_trim s = rev (dropWhile (\<lambda>c. code c = 32) (rev (dropWhile (\<lambda>c. code c = 32) s)))"

definition c_text :: "string \<Rightarrow> string" where
  "c_text s = takeWhile (\<lambda>c. code c \<noteq> 0) s"

definition sql_length :: "string \<Rightarrow> nat" where
  "sql_length s = length (c_text s)"

definition sql_nonblank :: "string \<Rightarrow> bool" where
  "sql_nonblank s \<longleftrightarrow> 0 < sql_length (sql_trim s)"

text \<open>
  A validator returns the \<open>ValueError\<close> message (\<open>Inl\<close>) or the accepted value; \<open>require\<close> is one
  \<open>if not ...: raise ValueError\<close>.  \<open>collect\<close> maps a validator over a list and stops at the first
  error, as a comprehension does.
\<close>

type_synonym 'a checked = "string + 'a"

definition require :: "bool \<Rightarrow> 'e \<Rightarrow> 'e + unit" where
  "require ok e = (if ok then Inr () else Inl e)"

lemma require_simps [simp]:
  "require b e = Inr u \<longleftrightarrow> b"
  "require b e = Inl e' \<longleftrightarrow> \<not> b \<and> e' = e"
  by (auto simp: require_def)

primrec collect :: "('a \<Rightarrow> 'e + 'b) \<Rightarrow> 'a list \<Rightarrow> 'e + 'b list" where
  "collect f [] = Inr []"
| "collect f (x # xs) = andthen (f x) (\<lambda>y. andthen (collect f xs) (\<lambda>ys. Inr (y # ys)))"

lemma collect_Inr: "collect f xs = Inr ys \<longleftrightarrow> list_all2 (\<lambda>x y. f x = Inr y) xs ys"
  by (induction xs arbitrary: ys) (auto simp: andthen_Inr list_all2_Cons1)

lemma collect_ident: "(\<And>x. x \<in> set xs \<Longrightarrow> f x = Inr x) \<Longrightarrow> collect f xs = Inr xs"
  by (induction xs) auto

text \<open>\<open>list(dict.fromkeys(xs))\<close>: duplicates removed, first occurrences kept.\<close>

definition fromkeys :: "'a list \<Rightarrow> 'a list" where
  "fromkeys xs = rev (remdups (rev xs))"

lemma set_fromkeys [simp]: "set (fromkeys xs) = set xs"
  by (simp add: fromkeys_def)

lemma distinct_fromkeys [simp]: "distinct (fromkeys xs)"
  by (simp add: fromkeys_def)

subsection \<open>Facts about stripping\<close>

lemma dropWhile_idem: "dropWhile P (dropWhile P xs) = dropWhile P xs"
  by (induction xs) auto

lemma dropWhile_head: "dropWhile P xs = y # ys \<Longrightarrow> \<not> P y"
  by (metis dropWhile_eq_Cons_conv)

lemma py_strip_Nil [simp]: "py_strip [] = []"
  by (simp add: py_strip_def)

lemma py_strip_hd: "py_strip s \<noteq> [] \<Longrightarrow> \<not> is_py_space (hd (py_strip s))"
proof -
  assume ne: "py_strip s \<noteq> []"
  define t where "t = dropWhile is_py_space s"
  define u where "u = dropWhile is_py_space (rev t)"
  have su: "py_strip s = rev u" by (simp add: py_strip_def t_def u_def)
  have "rev t = takeWhile is_py_space (rev t) @ u" by (simp add: u_def)
  then have t: "t = rev u @ rev (takeWhile is_py_space (rev t))" by (metis rev_append rev_rev_ident)
  with ne su have hd: "hd t = hd (rev u)" by (metis hd_append2)
  from ne su t have "t \<noteq> []" by (metis append_is_Nil_conv)
  then have "\<not> is_py_space (hd t)" unfolding t_def by (rule hd_dropWhile)
  with hd su show ?thesis by simp
qed

lemma py_strip_last: "py_strip s \<noteq> [] \<Longrightarrow> \<not> is_py_space (last (py_strip s))"
  by (metis hd_dropWhile last_rev py_strip_def rev_is_Nil_conv)

lemma dropWhile_keep: "(xs \<noteq> [] \<Longrightarrow> \<not> P (hd xs)) \<Longrightarrow> dropWhile P xs = xs"
  by (cases xs) auto

lemma py_strip_id:
  assumes "s \<noteq> [] \<Longrightarrow> \<not> is_py_space (hd s) \<and> \<not> is_py_space (last s)"
  shows "py_strip s = s"
proof -
  have "dropWhile is_py_space s = s" using assms by (intro dropWhile_keep) simp
  moreover have "dropWhile is_py_space (rev s) = rev s"
    using assms by (intro dropWhile_keep) (simp add: hd_rev)
  ultimately show ?thesis by (simp add: py_strip_def)
qed

lemma py_strip_idem [simp]: "py_strip (py_strip s) = py_strip s"
  by (rule py_strip_id) (simp add: py_strip_hd py_strip_last)

lemma py_space_32: "code c = 32 \<Longrightarrow> is_py_space c"
  by (simp add: is_py_space_def)

lemma sql_trim_strip: "sql_trim (py_strip s) = py_strip s"
proof -
  have "dropWhile (\<lambda>c. code c = 32) (py_strip s) = py_strip s"
    using py_strip_hd py_space_32 by (intro dropWhile_keep) blast
  moreover have "dropWhile (\<lambda>c. code c = 32) (rev (py_strip s)) = rev (py_strip s)"
    using py_strip_last py_space_32 by (intro dropWhile_keep) (auto simp: hd_rev)
  ultimately show ?thesis by (simp add: sql_trim_def)
qed

text \<open>A stripped text passes SQLite's blank check exactly if it does not start with NUL.\<close>

lemma sql_nonblank_strip:
  "sql_nonblank (py_strip s) \<longleftrightarrow> py_strip s \<noteq> [] \<and> code (hd (py_strip s)) \<noteq> 0"
  unfolding sql_nonblank_def sql_trim_strip sql_length_def c_text_def
  by (cases "py_strip s") simp_all

end
