(* ===== verification/Profiles.thy ===== *)
theory Profiles
  imports Store_Prelude
begin

text \<open>
  Profile identity, runtime scopes and provenance labels (\<open>ricky/profiles/types.py\<close>).  The two
  frozen Pydantic models become records together with a constructor function that runs the
  model's validators in the order Pydantic does: the pattern of an annotated \<open>ProfileName\<close>,
  field validators, then the model validator.  A raised \<open>ValueError\<close> is the \<open>Inl\<close> message.
\<close>

definition SHARED_PROFILE :: string where "SHARED_PROFILE = ''shared''"

definition BUNDLED_OWNER :: string where "BUNDLED_OWNER = ''bundled''"

definition is_profile_char :: "char \<Rightarrow> bool" where
  "is_profile_char c \<longleftrightarrow> is_lower_letter c \<or> is_digit c \<or> code c = 95 \<or> code c = 45"

text \<open>\<open>PROFILE_NAME_PATTERN = ^[a-z][a-z0-9_-]{0,63}$\<close>\<close>

definition profile_name_re :: "string \<Rightarrow> bool" where
  "profile_name_re s \<longleftrightarrow>
     (case s of [] \<Rightarrow> False
      | c # cs \<Rightarrow> is_lower_letter c \<and> list_all is_profile_char cs \<and> length cs \<le> 63)"

definition validate_profile_name :: "string \<Rightarrow> string checked" where
  "validate_profile_name value =
     (let normalized = py_strip value
      in if \<not> profile_name_re normalized
         then Inl ''profile names must start with a lowercase letter and contain only lowercase letters, digits, '-' and '_' (maximum 64 characters)''
         else Inr normalized)"

definition validate_profile_compartment :: "string \<Rightarrow> string checked" where
  "validate_profile_compartment value =
     andthen (validate_profile_name value) (\<lambda>normalized.
       if normalized = BUNDLED_OWNER
       then Inl (BUNDLED_OWNER @ '' is reserved for resources distributed with Ricky and cannot name a profile'')
       else Inr normalized)"

definition canonical_profiles :: "string list \<Rightarrow> string list checked" where
  "canonical_profiles values =
     andthen (collect validate_profile_compartment values) (\<lambda>normalized.
     andthen (require (distinct normalized) ''profile lists must not contain duplicates'') (\<lambda>_.
       Inr (sort_key (\<lambda>item. (item \<noteq> SHARED_PROFILE, item)) normalized)))"

section \<open>Labels and scopes\<close>

record profile_label =
  required_profiles :: "string list"

record profile_scope =
  primary :: string
  profiles :: "string list"

definition profile_label :: "string list \<Rightarrow> profile_label checked" where
  "profile_label value =
     andthen (require (value \<noteq> []) ''profile labels require at least one profile'') (\<lambda>_.
     andthen (canonical_profiles value) (\<lambda>ps.
     andthen (require (list_all profile_name_re ps) ''string should match pattern'') (\<lambda>_.
       Inr \<lparr>required_profiles = ps\<rparr>)))"

definition label_owned_by :: "string \<Rightarrow> profile_label checked" where
  "label_owned_by profile =
     andthen (validate_profile_name profile) (\<lambda>p. profile_label [p])"

definition profile_scope :: "string \<Rightarrow> string list \<Rightarrow> profile_scope checked" where
  "profile_scope prim value =
     andthen (require (profile_name_re prim) ''string should match pattern'') (\<lambda>_.
     andthen (validate_profile_compartment prim) (\<lambda>p.
     andthen (canonical_profiles value) (\<lambda>ps.
     andthen (require (list_all profile_name_re ps) ''string should match pattern'') (\<lambda>_.
     andthen (require (SHARED_PROFILE \<in> set ps) ''every profile scope must include shared'') (\<lambda>_.
     andthen (require (p \<in> set ps) ''primary profile must be present in the profile scope'') (\<lambda>_.
       Inr \<lparr>primary = p, profiles = ps\<rparr>))))))"

definition scope_create :: "string \<Rightarrow> string list \<Rightarrow> profile_scope checked" where
  "scope_create prim access =
     andthen (validate_profile_compartment prim) (\<lambda>p.
       let requested = fromkeys (SHARED_PROFILE # p # access)
       in andthen (canonical_profiles requested) (\<lambda>ps. profile_scope p ps))"

definition scope_includes :: "profile_scope \<Rightarrow> string \<Rightarrow> bool checked" where
  "scope_includes self profile =
     andthen (validate_profile_name profile) (\<lambda>p. Inr (p \<in> set (profiles self)))"

definition permits :: "profile_scope \<Rightarrow> profile_label \<Rightarrow> bool" where
  "permits self label \<longleftrightarrow> set (required_profiles label) \<subseteq> set (profiles self)"

definition scope_narrow :: "profile_scope \<Rightarrow> string \<Rightarrow> string list \<Rightarrow> profile_scope checked" where
  "scope_narrow self prim access =
     andthen (scope_create prim access) (\<lambda>narrowed.
       let unknown = filter (\<lambda>p. p \<notin> set (profiles self)) (profiles narrowed)
       in if unknown \<noteq> []
          then Inl (''child profile scope cannot add profiles: '' @ concat (sort unknown))
          else Inr narrowed)"

definition scope_label :: "profile_scope \<Rightarrow> profile_label checked" where
  "scope_label self = profile_label (profiles self)"

section \<open>Qualified resource references\<close>

record profile_resource_ref =
  ref_profile :: string
  ref_name :: string

definition profile_resource_ref :: "string \<Rightarrow> string \<Rightarrow> profile_resource_ref checked" where
  "profile_resource_ref profile name =
     andthen (require (profile_name_re profile) ''string should match pattern'') (\<lambda>_.
     andthen (validate_profile_name profile) (\<lambda>p.
     andthen (require (1 \<le> length name \<and> length name \<le> 200) ''name length'') (\<lambda>_.
       let normalized = py_strip name
       in andthen (require
            (normalized \<noteq> [] \<and> CHR ''/'' \<notin> set normalized \<and> (\<forall>c \<in> set normalized. code c \<noteq> 0))
            ''profile resource names must be non-empty plain identifiers'') (\<lambda>_.
          Inr \<lparr>ref_profile = p, ref_name = normalized\<rparr>))))"

definition qualified_ref :: "profile_resource_ref \<Rightarrow> string" where
  "qualified_ref r = ref_profile r @ ''/'' @ ref_name r"

text \<open>\<open>str.partition("/")\<close>: the text before the separator, whether it occurs, the text after.\<close>

definition partition_slash :: "string \<Rightarrow> string \<times> bool \<times> string" where
  "partition_slash s =
     (let before = takeWhile (\<lambda>c. c \<noteq> CHR ''/'') s; rest = dropWhile (\<lambda>c. c \<noteq> CHR ''/'') s
      in (before, rest \<noteq> [], tl rest))"

definition from_qualified :: "string \<Rightarrow> profile_resource_ref checked" where
  "from_qualified value =
     (let normalized = py_strip value in
      case partition_slash normalized of (profile, separator, name) \<Rightarrow>
        if \<not> separator \<or> CHR ''/'' \<in> set name
        then Inl ''profile resource references must use profile/name''
        else profile_resource_ref profile name)"

record profile_routing_decision =
  routed_profiles :: "string list"
  routing_reason :: string

definition profile_routing_decision :: "string list \<Rightarrow> string \<Rightarrow> profile_routing_decision checked" where
  "profile_routing_decision value reason =
     andthen (require (value \<noteq> []) ''routing decisions require at least one profile'') (\<lambda>_.
     andthen (canonical_profiles value) (\<lambda>ps.
     andthen (require (list_all profile_name_re ps) ''string should match pattern'') (\<lambda>_.
     andthen (require (1 \<le> length reason \<and> length reason \<le> 1000) ''reason length'') (\<lambda>_.
     andthen (require (py_strip reason \<noteq> []) ''profile routing reason cannot be empty'') (\<lambda>_.
       Inr \<lparr>routed_profiles = ps, routing_reason = py_strip reason\<rparr>)))))"

section \<open>What the constructors guarantee\<close>

definition profile_ok :: "string \<Rightarrow> bool" where
  "profile_ok p \<longleftrightarrow> profile_name_re p \<and> p \<noteq> BUNDLED_OWNER"

definition canonical_list :: "string list \<Rightarrow> bool" where
  "canonical_list ps \<longleftrightarrow>
     distinct ps \<and> list_all profile_ok ps \<and> sorted (map (\<lambda>p. (p \<noteq> SHARED_PROFILE, p)) ps)"

definition scope_ok :: "profile_scope \<Rightarrow> bool" where
  "scope_ok s \<longleftrightarrow> canonical_list (profiles s) \<and> SHARED_PROFILE \<in> set (profiles s)
     \<and> primary s \<in> set (profiles s)"

definition label_ok :: "profile_label \<Rightarrow> bool" where
  "label_ok l \<longleftrightarrow> canonical_list (required_profiles l) \<and> required_profiles l \<noteq> []"

lemma name_chars_no_space:
  assumes "is_profile_char c"
  shows "\<not> is_py_space c" and "c \<noteq> CHR ''/''"
  using assms
  by (auto simp: is_profile_char_def is_lower_letter_def is_digit_def is_py_space_def code_def Let_def)

lemma profile_name_chars: "profile_name_re s \<Longrightarrow> c \<in> set s \<Longrightarrow> is_profile_char c"
  by (auto simp: profile_name_re_def list_all_iff is_profile_char_def split: list.splits)

lemma profile_name_strip: "profile_name_re s \<Longrightarrow> py_strip s = s"
  by (rule py_strip_id) (metis hd_in_set last_in_set name_chars_no_space(1) profile_name_chars)

lemma validate_name_ok: "validate_profile_name s = Inr p \<longleftrightarrow> p = py_strip s \<and> profile_name_re p"
  by (auto simp: validate_profile_name_def Let_def)

lemma validate_compartment_ok:
  "validate_profile_compartment s = Inr p \<longleftrightarrow> p = py_strip s \<and> profile_ok p"
  by (auto simp: validate_profile_compartment_def andthen_Inr validate_name_ok profile_ok_def)

lemma canonical_profiles_ok:
  "canonical_profiles vs = Inr ps \<Longrightarrow>
     canonical_list ps \<and> set ps = py_strip ` set vs \<and> distinct (map py_strip vs)"
proof -
  assume "canonical_profiles vs = Inr ps"
  then obtain ns where c: "collect validate_profile_compartment vs = Inr ns" and d: "distinct ns"
    and ps: "ps = sort_key (\<lambda>item. (item \<noteq> SHARED_PROFILE, item)) ns"
    by (auto simp: canonical_profiles_def andthen_Inr)
  from c have ns: "ns = map py_strip vs" and ok: "list_all profile_ok ns"
    by (auto simp: collect_Inr validate_compartment_ok list_all2_conv_all_nth list_all_length
        intro: nth_equalityI)
  show ?thesis using d ps ns ok
    by (auto simp: canonical_list_def list_all_iff)
qed

lemma canonical_profiles_fix: "canonical_list ps \<Longrightarrow> canonical_profiles ps = Inr ps"
proof -
  assume c: "canonical_list ps"
  then have "collect validate_profile_compartment ps = Inr ps"
    by (intro collect_ident)
      (auto simp: canonical_list_def list_all_iff validate_compartment_ok profile_ok_def
        profile_name_strip)
  moreover have "sort_key (\<lambda>item. (item \<noteq> SHARED_PROFILE, item)) ps = ps"
    using c by (intro sort_key_id_if_sorted) (simp add: canonical_list_def)
  ultimately show ?thesis using c by (simp add: canonical_profiles_def canonical_list_def require_def)
qed

lemma canonical_names: "canonical_list ps \<Longrightarrow> list_all profile_name_re ps"
  by (auto simp: canonical_list_def list_all_iff profile_ok_def)

lemma profile_scope_ok: "profile_scope p vs = Inr s \<Longrightarrow> scope_ok s \<and> primary s = p"
  by (auto simp: profile_scope_def andthen_Inr validate_compartment_ok scope_ok_def
      profile_name_strip dest!: canonical_profiles_ok)

lemma scope_create_ok:
  "scope_create p acc = Inr s \<Longrightarrow>
     scope_ok s \<and> primary s = py_strip p
     \<and> set (profiles s) = {SHARED_PROFILE, py_strip p} \<union> py_strip ` set acc"
proof -
  assume "scope_create p acc = Inr s"
  then obtain ps where cp: "canonical_profiles (fromkeys (SHARED_PROFILE # py_strip p # acc)) = Inr ps"
    and s: "profile_scope (py_strip p) ps = Inr s"
    by (auto simp: scope_create_def andthen_Inr validate_compartment_ok Let_def)
  from cp have ps: "canonical_list ps"
    "set ps = py_strip ` insert SHARED_PROFILE (insert (py_strip p) (set acc))"
    by (auto dest!: canonical_profiles_ok)
  moreover have "py_strip SHARED_PROFILE = SHARED_PROFILE"
    by (intro profile_name_strip) (simp add: SHARED_PROFILE_def profile_name_re_def is_lower_letter_def
        is_profile_char_def code_def)
  moreover from s ps(1) have "profiles s = ps"
    by (auto simp: profile_scope_def andthen_Inr canonical_profiles_fix)
  ultimately show ?thesis using profile_scope_ok [OF s] by auto
qed

lemma label_of_scope: "scope_ok s \<Longrightarrow> scope_label s = Inr \<lparr>required_profiles = profiles s\<rparr>"
  by (auto simp: scope_label_def profile_label_def scope_ok_def canonical_profiles_fix andthen_Inr
      canonical_names require_def)

end
