(* ===== verification/Task_Types.thy ===== *)
theory Task_Types
  imports Profiles Json
begin

text \<open>
  The durable-task boundary models (\<open>ricky/durable_tasks/types.py\<close>): enumerations, the lease, the
  task, the activity record and the search query, with the validators Pydantic runs on
  construction.  Instants are aware UTC datetimes, as integers counting microseconds; the
  awareness checks of the code therefore hold by typing.
\<close>

section \<open>Enumerations\<close>

datatype task_execution_mode = Mode_Agent | Mode_Joint | Mode_User

datatype task_status = Open | In_Progress | Waiting | Blocked | Completed | Cancelled

datatype task_waiting_on = On_Agent | On_User | On_External | On_Time

datatype task_activity_kind =
    K_Created | K_Claimed | K_Lease_Renewed | K_Progressed | K_Waiting | K_Blocked
  | K_Completed | K_Cancelled | K_Reopened | K_Released | K_Lease_Expired
  | K_Artifact_Created | K_Artifact_Updated | K_Tags_Updated

datatype task_authority =
    Agent_Autonomy | Joint_Work | Direct_User_Instruction
  | Deterministic_User_Command | System_Recovery

section \<open>Identities and tags\<close>

text \<open>\<open>_TASK_ID = ^task_[0-9a-f]{32}$\<close>\<close>

definition task_id_re :: "string \<Rightarrow> bool" where
  "task_id_re s \<longleftrightarrow> hex_id ''task_'' 32 s"

definition validate_task_id :: "string \<Rightarrow> string checked" where
  "validate_task_id value =
     (if \<not> task_id_re value then Inl ''invalid durable task id'' else Inr value)"

text \<open>
  \<open>_TAG = ^[a-z0-9][a-z0-9._-]*(?::[a-z0-9][a-z0-9._-]*)*$\<close>, read as a two-state machine: at the
  start of a segment an alphanumeric character is due; inside a segment a colon starts a new one.
\<close>

definition tag_head :: "char \<Rightarrow> bool" where
  "tag_head c \<longleftrightarrow> is_lower_letter c \<or> is_digit c"

definition tag_tail :: "char \<Rightarrow> bool" where
  "tag_tail c \<longleftrightarrow> tag_head c \<or> c = CHR ''.'' \<or> c = CHR ''_'' \<or> c = CHR ''-''"

fun tag_scan :: "bool \<Rightarrow> string \<Rightarrow> bool" where
  "tag_scan inside [] = inside"
| "tag_scan False (c # cs) = (tag_head c \<and> tag_scan True cs)"
| "tag_scan True (c # cs) =
     (if c = CHR '':'' then tag_scan False cs else tag_tail c \<and> tag_scan True cs)"

definition tag_re :: "string \<Rightarrow> bool" where
  "tag_re s = tag_scan False s"

definition canonical_tag :: "string \<Rightarrow> string checked" where
  "canonical_tag raw =
     (let tag = py_lower (py_strip raw)
      in if 100 < length tag \<or> \<not> tag_re tag
         then Inl ''task tags must contain colon-separated lowercase letters, digits, dot, underscore or hyphen''
         else Inr tag)"

definition canonicalize_task_tags :: "string list \<Rightarrow> string list checked" where
  "canonicalize_task_tags value =
     andthen (collect canonical_tag value) (\<lambda>tags.
       let canonical = sort (remdups tags)
       in if 50 < length canonical
          then Inl ''a durable task may have at most 50 tags''
          else Inr canonical)"

section \<open>Leases and tasks\<close>

record task_lease =
  lease_id :: string
  holder_session_id :: string
  epoch :: int
  acquired_at :: instant
  expires_at :: instant

definition valid_lease :: "task_lease \<Rightarrow> bool" where
  "valid_lease l \<longleftrightarrow> lease_id l \<noteq> [] \<and> holder_session_id l \<noteq> [] \<and> 1 \<le> epoch l
     \<and> acquired_at l < expires_at l"

record durable_task =
  t_id :: string
  t_profile :: string
  t_title :: string
  t_objective :: string
  t_closure_criteria :: string
  t_execution_mode :: task_execution_mode
  t_status :: task_status
  t_waiting_on :: "task_waiting_on option"
  t_current_summary :: "string option"
  t_next_action :: "string option"
  t_priority :: int
  t_tags :: "string list"
  t_due_at :: "instant option"
  t_completion_summary :: "string option"
  t_revision :: int
  t_created_at :: instant
  t_updated_at :: instant
  t_completed_at :: "instant option"
  t_cancelled_at :: "instant option"
  t_lease :: "task_lease option"

text \<open>\<open>_trim_text\<close> on the seven text fields, then the model validator \<open>_validate_state\<close>.\<close>

definition trim_text :: "string option \<Rightarrow> string option checked" where
  "trim_text v =
     (case v of None \<Rightarrow> Inr None
      | Some s \<Rightarrow> if py_strip s = []
                  then Inl ''text values must be non-empty after trimming''
                  else Inr (Some (py_strip s)))"

definition trim_required :: "string \<Rightarrow> string checked" where
  "trim_required s =
     (if py_strip s = [] then Inl ''text values must be non-empty after trimming''
      else Inr (py_strip s))"

definition task_state_ok :: "durable_task \<Rightarrow> bool" where
  "task_state_ok t \<longleftrightarrow>
     (if t_status t = Waiting then t_waiting_on t \<noteq> None \<and> t_next_action t \<noteq> None
      else t_waiting_on t = None)
   \<and> (if t_status t = Completed then t_completion_summary t \<noteq> None \<and> t_completed_at t \<noteq> None
      else t_completion_summary t = None \<and> t_completed_at t = None)
   \<and> (if t_status t = Cancelled then t_cancelled_at t \<noteq> None else t_cancelled_at t = None)"

definition make_task :: "durable_task \<Rightarrow> durable_task checked" where
  "make_task t =
     andthen (trim_required (t_id t)) (\<lambda>i.
     andthen (validate_task_id i) (\<lambda>i.
     andthen (require (profile_name_re (t_profile t)) ''profile'') (\<lambda>_.
     andthen (trim_required (t_title t)) (\<lambda>title.
     andthen (trim_required (t_objective t)) (\<lambda>obj.
     andthen (trim_required (t_closure_criteria t)) (\<lambda>clo.
     andthen (trim_text (t_current_summary t)) (\<lambda>cur.
     andthen (trim_text (t_next_action t)) (\<lambda>nxt.
     andthen (require (-100 \<le> t_priority t \<and> t_priority t \<le> 100) ''priority'') (\<lambda>_.
     andthen (canonicalize_task_tags (t_tags t)) (\<lambda>tags.
     andthen (trim_text (t_completion_summary t)) (\<lambda>com.
     andthen (require (1 \<le> t_revision t) ''revision'') (\<lambda>_.
     andthen (require (case t_lease t of None \<Rightarrow> True | Some l \<Rightarrow> valid_lease l) ''lease'') (\<lambda>_.
       let t' = t\<lparr>t_id := i, t_title := title, t_objective := obj, t_closure_criteria := clo,
                  t_current_summary := cur, t_next_action := nxt, t_tags := tags,
                  t_completion_summary := com\<rparr>
       in if task_state_ok t' then Inr t' else Inl ''inconsistent task state'')))))))))))))"

section \<open>Activity and search\<close>

record task_activity =
  a_id :: nat
  a_task_id :: string
  a_profile :: string
  a_kind :: task_activity_kind
  a_authority :: task_authority
  a_executor_id :: string
  a_session_id :: "string option"
  a_from_status :: "task_status option"
  a_to_status :: "task_status option"
  a_summary :: string
  a_metadata :: json
  a_task_revision :: int
  a_created_at :: instant

definition make_activity :: "task_activity \<Rightarrow> task_activity checked" where
  "make_activity a =
     andthen (require (1 \<le> a_id a) ''id'') (\<lambda>_.
     andthen (validate_task_id (a_task_id a)) (\<lambda>_.
     andthen (require (profile_name_re (a_profile a)) ''profile'') (\<lambda>_.
     andthen (require (1 \<le> length (a_executor_id a) \<and> length (a_executor_id a) \<le> 512)
       ''executor_id'') (\<lambda>_.
     andthen (require (case a_session_id a of None \<Rightarrow> True | Some s \<Rightarrow> length s \<le> 512)
       ''session_id'') (\<lambda>_.
     andthen (require (1 \<le> length (a_summary a) \<and> length (a_summary a) \<le> 4000) ''summary'') (\<lambda>_.
     andthen (require (py_strip (a_summary a) \<noteq> []) ''activity summary must be non-empty'') (\<lambda>_.
     andthen (require (1 \<le> a_task_revision a) ''task_revision'') (\<lambda>_.
       Inr (a\<lparr>a_summary := py_strip (a_summary a)\<rparr>)))))))))"

record task_search_query =
  q_text :: "string option"
  q_statuses :: "task_status list"
  q_execution_modes :: "task_execution_mode list"
  q_waiting_on :: "task_waiting_on list"
  q_tags_any :: "string list"
  q_tags_all :: "string list"
  q_tags_none :: "string list"
  q_due_before :: "instant option"
  q_include_closed :: bool
  q_limit :: nat
  q_offset :: nat

definition make_query :: "task_search_query \<Rightarrow> task_search_query checked" where
  "make_query q =
     andthen (canonicalize_task_tags (q_tags_any q)) (\<lambda>any.
     andthen (canonicalize_task_tags (q_tags_all q)) (\<lambda>all.
     andthen (canonicalize_task_tags (q_tags_none q)) (\<lambda>non.
     andthen (require (1 \<le> q_limit q \<and> q_limit q \<le> 500) ''limit'') (\<lambda>_.
     andthen (require (q_offset q \<le> 1000000) ''offset'') (\<lambda>_.
       let text = (case q_text q of None \<Rightarrow> None
                   | Some s \<Rightarrow> if py_strip s = [] then None else Some (py_strip s))
       in Inr (q\<lparr>q_text := text, q_tags_any := any, q_tags_all := all, q_tags_none := non\<rparr>))))))"

record task_artifact_entry =
  art_path :: string
  art_size :: nat
  art_modified_at :: instant
  art_sha256 :: string

definition make_artifact_entry :: "task_artifact_entry \<Rightarrow> task_artifact_entry checked" where
  "make_artifact_entry e =
     andthen (require (art_path e \<noteq> []) ''path'') (\<lambda>_.
     andthen (require (hex_id [] 64 (art_sha256 e)) ''sha256'') (\<lambda>_. Inr e))"

section \<open>Lemmas\<close>

lemma trim_text_ok:
  "trim_text v = Inr w \<longleftrightarrow> w = map_option py_strip v \<and> w \<noteq> Some []"
  by (auto simp: trim_text_def split: option.splits)

lemma trim_required_ok: "trim_required s = Inr w \<longleftrightarrow> w = py_strip s \<and> w \<noteq> []"
  by (auto simp: trim_required_def)

lemma validate_task_id_ok: "validate_task_id s = Inr w \<longleftrightarrow> w = s \<and> task_id_re s"
  by (auto simp: validate_task_id_def)

lemma hex_no_space: "is_hex c \<Longrightarrow> \<not> is_py_space c"
  by (auto simp: is_hex_def is_digit_def is_py_space_def Let_def)

lemma strip_prefix_Some: "strip_prefix p s = Some r \<longleftrightarrow> s = p @ r"
  by (auto simp: strip_prefix_def) (metis append_take_drop_id)

lemma task_id_strip: "task_id_re s \<Longrightarrow> py_strip s = s"
proof -
  assume "task_id_re s"
  then obtain h where s: "s = ''task_'' @ h" and h: "length h = 32" "list_all is_hex h"
    by (auto simp: task_id_re_def hex_id_def strip_prefix_Some split: option.splits)
  from h have "\<not> is_py_space (last s)"
    using s by (auto simp: list_all_iff hex_no_space)
  moreover have "\<not> is_py_space (hd s)" using s by (simp add: is_py_space_def code_def)
  ultimately show ?thesis by (intro py_strip_id) simp
qed

lemma tag_scan_chars: "tag_scan b s \<Longrightarrow> c \<in> set s \<Longrightarrow> tag_tail c \<or> c = CHR '':''"
  by (induction b s rule: tag_scan.induct) (auto simp: tag_tail_def split: if_splits)

lemma tag_char_props:
  assumes "tag_tail c \<or> c = CHR '':''"
  shows "\<not> is_py_space c" and "py_lower_char c = c"
  using assms
  by (auto simp: tag_tail_def tag_head_def is_lower_letter_def is_digit_def is_py_space_def
      py_lower_char_def code_def Let_def)

lemma tag_re_chars: "tag_re s \<Longrightarrow> c \<in> set s \<Longrightarrow> \<not> is_py_space c \<and> py_lower_char c = c"
  using tag_char_props [OF tag_scan_chars] by (auto simp: tag_re_def)

lemma tag_lower: "tag_re s \<Longrightarrow> py_lower s = s"
  unfolding py_lower_def by (rule map_idI) (simp add: tag_re_chars)

lemma tag_strip: "tag_re s \<Longrightarrow> py_strip s = s"
  by (rule py_strip_id) (simp add: tag_re_chars)

lemma canonical_tag_ok:
  "canonical_tag s = Inr t \<longleftrightarrow> t = py_lower (py_strip s) \<and> length t \<le> 100 \<and> tag_re t"
  by (auto simp: canonical_tag_def Let_def)

definition tags_ok :: "string list \<Rightarrow> bool" where
  "tags_ok tags \<longleftrightarrow> sorted tags \<and> distinct tags \<and> length tags \<le> 50
     \<and> list_all (\<lambda>t. tag_re t \<and> length t \<le> 100) tags"

lemma canonicalize_ok: "canonicalize_task_tags v = Inr tags \<Longrightarrow> tags_ok tags"
  by (auto simp: canonicalize_task_tags_def andthen_Inr collect_Inr Let_def tags_ok_def
      list_all_iff canonical_tag_ok list_all2_conv_all_nth in_set_conv_nth split: if_splits)

lemma canonicalize_fix: "tags_ok tags \<Longrightarrow> canonicalize_task_tags tags = Inr tags"
proof -
  assume t: "tags_ok tags"
  then have "collect canonical_tag tags = Inr tags"
    by (intro collect_ident)
      (auto simp: tags_ok_def list_all_iff canonical_tag_ok tag_lower tag_strip)
  moreover have "sort (remdups tags) = tags"
    using t by (simp add: tags_ok_def distinct_remdups_id sorted_sort_id)
  ultimately show ?thesis
    using t by (simp add: canonicalize_task_tags_def tags_ok_def distinct_remdups_id)
qed

end
