(* ===== verification/Task_Store.thy ===== *)
theory Task_Store
  imports Task_Types
begin

text \<open>
  The durable task store (\<open>ricky/durable_tasks/store.py\<close>).  The database is a record of the three
  tables of \<open>_SCHEMA\<close>; every private method \<open>_m\<close> is an operation \<open>m_impl\<close> that runs the same SQL
  statements in the same transaction, and every public coroutine is the definition \<open>task_m\<close> that
  validates its arguments and calls it.  The clock (\<open>now\<close>) and the identifiers drawn from
  \<open>uuid4\<close> are arguments.  Every \<open>CHECK\<close> constraint and key of the schema is an explicit guard
  whose violation surfaces as the wrapped \<open>sqlite3.IntegrityError\<close>.
\<close>

datatype task_error =
    TaskNotFoundError string
  | TaskConflictError string
  | TaskLeaseError string
  | TaskTransitionError string
  | TaskSchemaError string
  | TaskStoreError string
  | ValueError string

abbreviation integrity_error :: task_error where
  "integrity_error \<equiv> TaskStoreError ''durable task store operation failed''"

definition value_op :: "'a checked \<Rightarrow> ('s, task_error, 'a) op" where
  [op_defs]: "value_op r = lift (map_sum ValueError id r)"

lemma value_op_ok [op_ok]: "value_op r s = (s', Inr y) \<longleftrightarrow> s' = s \<and> r = Inr y"
  by (cases r) (auto simp: value_op_def op_ok)

section \<open>Tables\<close>

record task_row =
  r_id :: string
  r_title :: string
  r_objective :: string
  r_closure_criteria :: string
  r_execution_mode :: task_execution_mode
  r_status :: task_status
  r_waiting_on :: "task_waiting_on option"
  r_current_summary :: "string option"
  r_next_action :: "string option"
  r_priority :: int
  r_due_at :: "instant option"
  r_completion_summary :: "string option"
  r_revision :: int
  r_created_at :: instant
  r_updated_at :: instant
  r_completed_at :: "instant option"
  r_cancelled_at :: "instant option"
  r_lease_id :: "string option"
  r_lease_holder :: "string option"
  r_lease_epoch :: int
  r_lease_acquired_at :: "instant option"
  r_lease_expires_at :: "instant option"

definition lease_columns_check :: "task_row \<Rightarrow> bool" where
  "lease_columns_check r \<longleftrightarrow>
     (r_lease_id r = None \<and> r_lease_holder r = None
        \<and> r_lease_acquired_at r = None \<and> r_lease_expires_at r = None)
   \<or> (r_lease_id r \<noteq> None \<and> r_lease_holder r \<noteq> None \<and> 1 \<le> r_lease_epoch r
        \<and> r_lease_acquired_at r \<noteq> None \<and> r_lease_expires_at r \<noteq> None)"

definition status_columns_check :: "task_row \<Rightarrow> bool" where
  "status_columns_check r \<longleftrightarrow>
     (r_status r = Waiting \<and> r_waiting_on r \<noteq> None \<and> r_next_action r \<noteq> None
        \<or> r_status r \<noteq> Waiting \<and> r_waiting_on r = None)
   \<and> (r_status r = Completed \<and> r_completion_summary r \<noteq> None \<and> r_completed_at r \<noteq> None
        \<or> r_status r \<noteq> Completed \<and> r_completion_summary r = None \<and> r_completed_at r = None)
   \<and> (r_status r = Cancelled \<and> r_cancelled_at r \<noteq> None
        \<or> r_status r \<noteq> Cancelled \<and> r_cancelled_at r = None)"

definition task_row_check :: "task_row \<Rightarrow> bool" where
  "task_row_check r \<longleftrightarrow>
     sql_nonblank (r_title r) \<and> sql_nonblank (r_objective r) \<and> sql_nonblank (r_closure_criteria r)
   \<and> -100 \<le> r_priority r \<and> r_priority r \<le> 100 \<and> 1 \<le> r_revision r \<and> 0 \<le> r_lease_epoch r
   \<and> status_columns_check r \<and> lease_columns_check r"

record activity_row =
  ar_id :: nat
  ar_task_id :: string
  ar_kind :: task_activity_kind
  ar_authority :: task_authority
  ar_executor_id :: string
  ar_session_id :: "string option"
  ar_from_status :: "task_status option"
  ar_to_status :: "task_status option"
  ar_summary :: string
  ar_metadata :: json
  ar_task_revision :: int
  ar_created_at :: instant

record task_db =
  task_rows :: "task_row list"
  activity_rows :: "activity_row list"
  activity_seq :: nat
  tag_rows :: "(string \<times> string) list"

record task_cfg =
  c_profile :: string
  c_lease_seconds :: int
  c_search_limit :: nat
  c_activity_limit :: nat

type_synonym 'a task_op = "(task_db, task_error, 'a) op"

definition empty_task_db :: task_db where
  "empty_task_db = \<lparr>task_rows = [], activity_rows = [], activity_seq = 0, tag_rows = []\<rparr>"

definition find_task :: "string \<Rightarrow> task_db \<Rightarrow> task_row option" where
  "find_task k db = find_row r_id k (task_rows db)"

definition tags_of :: "string \<Rightarrow> task_db \<Rightarrow> string list" where
  "tags_of k db = sort (map snd (filter (\<lambda>p. fst p = k) (tag_rows db)))"

definition sql_insert_task :: "task_row \<Rightarrow> unit task_op" where
  "sql_insert_task = sql_insert task_rows task_rows_update r_id task_row_check integrity_error"

definition sql_update_tasks :: "(task_row \<Rightarrow> bool) \<Rightarrow> (task_row \<Rightarrow> task_row) \<Rightarrow> nat task_op" where
  "sql_update_tasks = sql_update task_rows task_rows_update task_row_check integrity_error"

abbreviation sql_update_task :: "string \<Rightarrow> (task_row \<Rightarrow> task_row) \<Rightarrow> nat task_op" where
  "sql_update_task k \<equiv> sql_update_tasks (\<lambda>r. r_id r = k)"

interpretation tasks: keyed_table task_rows task_rows_update r_id
  by unfold_locales simp_all

definition sql_insert_tags :: "string \<Rightarrow> string list \<Rightarrow> unit task_op" where
  "sql_insert_tags k tags =
     bind (reads tag_rows) (\<lambda>old.
     bind (unless (distinct tags \<and> (\<forall>t \<in> set tags. (k, t) \<notin> set old)) integrity_error) (\<lambda>_.
       writes (\<lambda>db. db\<lparr>tag_rows := tag_rows db @ map (Pair k) tags\<rparr>)))"

section \<open>Rows and models\<close>

definition nonempty :: "string option \<Rightarrow> string \<Rightarrow> string checked" where
  "nonempty value name =
     (case value of
        None \<Rightarrow> Inl (name @ '' must be non-empty'')
      | Some v \<Rightarrow> if py_strip v = [] then Inl (name @ '' must be non-empty'') else Inr (py_strip v))"

definition lease_from_row :: "task_row \<Rightarrow> task_lease checked" where
  "lease_from_row r =
     (case (r_lease_id r, r_lease_holder r, r_lease_acquired_at r, r_lease_expires_at r) of
        (Some i, Some h, Some a, Some e) \<Rightarrow>
          (let l = \<lparr>lease_id = i, holder_session_id = h, epoch = r_lease_epoch r,
                    acquired_at = a, expires_at = e\<rparr>
           in if valid_lease l then Inr l else Inl ''invalid task lease'')
      | _ \<Rightarrow> Inl ''required stored lease value is missing'')"

definition live_lease :: "task_row \<Rightarrow> instant \<Rightarrow> task_lease option checked" where
  "live_lease r now =
     (if r_lease_id r = None then Inr None
      else case r_lease_expires_at r of
        None \<Rightarrow> Inr None
      | Some e \<Rightarrow> if e \<le> now then Inr None else andthen (lease_from_row r) (\<lambda>l. Inr (Some l)))"

definition row_to_task :: "task_cfg \<Rightarrow> task_row \<Rightarrow> string list \<Rightarrow> task_lease option \<Rightarrow> durable_task" where
  "row_to_task cfg r tags lease =
     \<lparr>t_id = r_id r, t_profile = c_profile cfg, t_title = r_title r, t_objective = r_objective r,
      t_closure_criteria = r_closure_criteria r, t_execution_mode = r_execution_mode r,
      t_status = r_status r, t_waiting_on = r_waiting_on r,
      t_current_summary = r_current_summary r, t_next_action = r_next_action r,
      t_priority = r_priority r, t_tags = tags, t_due_at = r_due_at r,
      t_completion_summary = r_completion_summary r, t_revision = r_revision r,
      t_created_at = r_created_at r, t_updated_at = r_updated_at r,
      t_completed_at = r_completed_at r, t_cancelled_at = r_cancelled_at r, t_lease = lease\<rparr>"

definition task_from_row :: "task_cfg \<Rightarrow> task_row \<Rightarrow> durable_task task_op" where
  "task_from_row cfg r =
     bind (if r_lease_id r = None then ret None
           else bind (value_op (lease_from_row r)) (\<lambda>l. ret (Some l))) (\<lambda>lease.
     bind (reads (tags_of (r_id r))) (\<lambda>tags.
       lift (case make_task (row_to_task cfg r tags lease) of
               Inl _ \<Rightarrow> Inl (TaskSchemaError ''durable task store contains an invalid task row'')
             | Inr t \<Rightarrow> Inr t)))"

definition required_row :: "string \<Rightarrow> task_row task_op" where
  "required_row task_id =
     bind (reads (find_task task_id)) (\<lambda>row.
       some_or (TaskNotFoundError (''durable task not found: '' @ task_id)) row)"

definition required_leased_row ::
  "string \<Rightarrow> task_lease \<Rightarrow> int \<Rightarrow> instant \<Rightarrow> task_row task_op" where
  "required_leased_row task_id lease expected_revision now =
     bind (required_row task_id) (\<lambda>row.
     bind (unless (r_revision row = expected_revision)
       (TaskConflictError ''task revision conflict'')) (\<lambda>_.
     bind (unless (r_lease_id row \<noteq> None) (TaskLeaseError ''task has no active lease'')) (\<lambda>_.
     bind (unless (r_lease_holder row = Some (holder_session_id lease))
       (TaskLeaseError ''task lease belongs to another session'')) (\<lambda>_.
     bind (unless (r_lease_id row = Some (lease_id lease))
       (TaskLeaseError ''task lease id is stale'')) (\<lambda>_.
     bind (unless (r_lease_epoch row = epoch lease)
       (TaskLeaseError ''task lease epoch is stale'')) (\<lambda>_.
     bind (unless (case r_lease_expires_at row of None \<Rightarrow> False | Some e \<Rightarrow> now < e)
       (TaskLeaseError ''task lease has expired'')) (\<lambda>_.
       ret row)))))))"

definition metadata_char_limit :: nat where
  "metadata_char_limit = 16000"

definition insert_activity ::
  "string \<Rightarrow> task_activity_kind \<Rightarrow> task_authority \<Rightarrow> string \<Rightarrow> string option
    \<Rightarrow> task_status option \<Rightarrow> task_status option \<Rightarrow> string \<Rightarrow> json \<Rightarrow> int \<Rightarrow> instant \<Rightarrow> unit task_op" where
  "insert_activity task_id kind authority executor_id session_id from_status to_status
       summary metadata revision now =
     bind (unless (length summary \<le> 4000)
       (TaskStoreError ''durable task activity summary exceeds its limit'')) (\<lambda>_.
     bind (unless (length (json_dumps metadata) \<le> metadata_char_limit)
       (TaskStoreError ''durable task activity metadata exceeds its limit'')) (\<lambda>_.
     bind (value_op (nonempty (Some executor_id) ''executor_id'')) (\<lambda>executor.
     bind (value_op (nonempty (Some summary) ''summary'')) (\<lambda>text.
     bind (reads (find_task task_id)) (\<lambda>parent.
     bind (unless (parent \<noteq> None \<and> sql_nonblank text \<and> 1 \<le> revision) integrity_error) (\<lambda>_.
       writes (\<lambda>db. db\<lparr>
         activity_rows := activity_rows db @
           [\<lparr>ar_id = activity_seq db + 1, ar_task_id = task_id, ar_kind = kind,
             ar_authority = authority, ar_executor_id = executor, ar_session_id = session_id,
             ar_from_status = from_status, ar_to_status = to_status, ar_summary = text,
             ar_metadata = metadata, ar_task_revision = revision, ar_created_at = now\<rparr>],
         activity_seq := activity_seq db + 1\<rparr>)))))))"

end
