(* ===== verification/Task_Ops.thy ===== *)
theory Task_Ops
  imports Task_Store
begin

text \<open>
  The operations of the durable task store: first the transaction bodies (\<open>_create_task\<close>,
  \<open>_claim\<close>, \<open>_transition\<close>, \<dots>), then the public coroutines that call them.  A result that the
  code converts after its \<open>with self._transaction()\<close> block (\<open>return self._task_from_row(updated)\<close>)
  is converted outside \<open>atomic\<close> here too, so a conversion error does not undo the commit.
\<close>

definition active_status :: "task_status \<Rightarrow> bool" where
  "active_status s \<longleftrightarrow> s \<in> {Open, In_Progress, Waiting, Blocked}"

definition new_task ::
  "task_cfg \<Rightarrow> instant \<Rightarrow> string \<Rightarrow> string \<Rightarrow> string \<Rightarrow> string \<Rightarrow> task_execution_mode \<Rightarrow> int
    \<Rightarrow> instant option \<Rightarrow> string list \<Rightarrow> durable_task checked" where
  "new_task cfg now uuid title objective closure_criteria execution_mode priority due_at tags =
     make_task
       \<lparr>t_id = ''task_'' @ uuid, t_profile = c_profile cfg, t_title = title,
        t_objective = objective, t_closure_criteria = closure_criteria,
        t_execution_mode = execution_mode, t_status = Open, t_waiting_on = None,
        t_current_summary = None, t_next_action = None, t_priority = priority, t_tags = tags,
        t_due_at = due_at, t_completion_summary = None, t_revision = 1, t_created_at = now,
        t_updated_at = now, t_completed_at = None, t_cancelled_at = None, t_lease = None\<rparr>"

definition new_row :: "durable_task \<Rightarrow> instant \<Rightarrow> task_row" where
  "new_row t now =
     \<lparr>r_id = t_id t, r_title = t_title t, r_objective = t_objective t,
      r_closure_criteria = t_closure_criteria t, r_execution_mode = t_execution_mode t,
      r_status = t_status t, r_waiting_on = None, r_current_summary = None,
      r_next_action = None, r_priority = t_priority t, r_due_at = t_due_at t,
      r_completion_summary = None, r_revision = 1, r_created_at = now, r_updated_at = now,
      r_completed_at = None, r_cancelled_at = None, r_lease_id = None, r_lease_holder = None,
      r_lease_epoch = 0, r_lease_acquired_at = None, r_lease_expires_at = None\<rparr>"

definition create_task_impl ::
  "task_cfg \<Rightarrow> instant \<Rightarrow> string \<Rightarrow> string \<Rightarrow> string \<Rightarrow> string \<Rightarrow> task_execution_mode
    \<Rightarrow> task_authority \<Rightarrow> string \<Rightarrow> string option \<Rightarrow> int \<Rightarrow> instant option \<Rightarrow> string list
    \<Rightarrow> durable_task task_op" where
  "create_task_impl cfg now uuid title objective closure_criteria execution_mode authority
       executor_id session_id priority due_at tags =
     bind (value_op (new_task cfg now uuid title objective closure_criteria execution_mode
                       priority due_at tags)) (\<lambda>task.
     bind (atomic (
       bind (sql_insert_task (new_row task now)) (\<lambda>_.
       bind (insert_activity (t_id task) K_Created authority executor_id session_id None
               (Some Open) ''Durable task created'' (JObj []) 1 now) (\<lambda>_.
         sql_insert_tags (t_id task) (t_tags task))))) (\<lambda>_.
       ret task))"

definition get_task_impl :: "task_cfg \<Rightarrow> string \<Rightarrow> durable_task task_op" where
  "get_task_impl cfg task_id = bind (required_row task_id) (task_from_row cfg)"

definition update_tags_impl ::
  "task_cfg \<Rightarrow> instant \<Rightarrow> string \<Rightarrow> string list \<Rightarrow> task_lease \<Rightarrow> int \<Rightarrow> task_authority \<Rightarrow> string
    \<Rightarrow> durable_task task_op" where
  "update_tags_impl cfg now task_id tags lease expected_revision authority executor_id =
     atomic (
       bind (required_leased_row task_id lease expected_revision now) (\<lambda>row.
       bind (reads (tags_of task_id)) (\<lambda>before.
         if before = tags then task_from_row cfg row
         else
           let revision = expected_revision + 1 in
           bind (sql_update_tasks (\<lambda>r. r_id r = task_id \<and> r_revision r = expected_revision)
                   (\<lambda>r. r\<lparr>r_revision := revision, r_updated_at := now\<rparr>)) (\<lambda>rowcount.
           bind (unless (rowcount = 1) (TaskConflictError ''durable task revision changed'')) (\<lambda>_.
           bind (writes (\<lambda>db. db\<lparr>tag_rows := filter (\<lambda>p. fst p \<noteq> task_id) (tag_rows db)\<rparr>)) (\<lambda>_.
           bind (sql_insert_tags task_id tags) (\<lambda>_.
           bind (insert_activity task_id K_Tags_Updated authority executor_id
                   (Some (holder_session_id lease)) (Some (r_status row)) (Some (r_status row))
                   ''Durable task tags updated''
                   (JObj [(''before'', JArr (map JStr before)), (''after'', JArr (map JStr tags))])
                   revision now) (\<lambda>_.
           bind (required_row task_id) (task_from_row cfg)))))))))"

definition activity_from_row :: "task_cfg \<Rightarrow> activity_row \<Rightarrow> (task_error + task_activity)" where
  "activity_from_row cfg r =
     (case make_activity
        \<lparr>a_id = ar_id r, a_task_id = ar_task_id r, a_profile = c_profile cfg, a_kind = ar_kind r,
         a_authority = ar_authority r, a_executor_id = ar_executor_id r,
         a_session_id = ar_session_id r, a_from_status = ar_from_status r,
         a_to_status = ar_to_status r, a_summary = ar_summary r, a_metadata = ar_metadata r,
         a_task_revision = ar_task_revision r, a_created_at = ar_created_at r\<rparr> of
        Inl _ \<Rightarrow> Inl (TaskSchemaError ''durable task store contains invalid activity'')
      | Inr a \<Rightarrow> Inr a)"

definition activities_impl :: "task_cfg \<Rightarrow> string \<Rightarrow> nat \<Rightarrow> task_activity list task_op" where
  "activities_impl cfg task_id limit =
     bind (required_row task_id) (\<lambda>_.
     bind (reads (\<lambda>db. take limit (rev (sort_key ar_id
             (filter (\<lambda>a. ar_task_id a = task_id) (activity_rows db)))))) (\<lambda>rows.
       lift (collect (activity_from_row cfg) rows)))"

definition claim_impl ::
  "task_cfg \<Rightarrow> instant \<Rightarrow> string \<Rightarrow> string \<Rightarrow> string \<Rightarrow> task_authority \<Rightarrow> string \<Rightarrow> int option
    \<Rightarrow> durable_task task_op" where
  "claim_impl cfg now uuid task_id holder authority executor_id expected_revision =
     bind (atomic (
       bind (required_row task_id) (\<lambda>row.
       bind (unless (case expected_revision of None \<Rightarrow> True | Some v \<Rightarrow> r_revision row = v)
               (TaskConflictError (''durable task revision changed: '' @ task_id))) (\<lambda>_.
       bind (unless (active_status (r_status row))
               (TaskTransitionError (''cannot claim durable task: '' @ task_id))) (\<lambda>_.
       bind (value_op (live_lease row now)) (\<lambda>live.
       bind (unless (live = None) (TaskLeaseError ''task is leased'')) (\<lambda>_.
         let revision = r_revision row + 1;
             new_epoch = r_lease_epoch row + 1;
             old_status = r_status row;
             new_status = (if old_status = Open then In_Progress else old_status)
         in
         bind (if r_lease_id row \<noteq> None
               then insert_activity task_id K_Lease_Expired System_Recovery ''durable_task_store''
                      None (Some old_status) (Some old_status) ''Expired task lease recovered''
                      (JObj [(''previous_holder'', json_opt (r_lease_holder row))]) revision now
               else ret ()) (\<lambda>_.
         bind (sql_update_task task_id (\<lambda>r. r\<lparr>r_status := new_status, r_revision := revision,
                 r_updated_at := now, r_lease_id := Some (''lease_'' @ uuid),
                 r_lease_holder := Some holder, r_lease_epoch := new_epoch,
                 r_lease_acquired_at := Some now,
                 r_lease_expires_at := Some (now + seconds (c_lease_seconds cfg))\<rparr>)) (\<lambda>_.
         bind (insert_activity task_id K_Claimed authority executor_id (Some holder)
                 (Some old_status) (Some new_status) ''Durable task claimed''
                 (JObj [(''lease_epoch'', JInt new_epoch)]) revision now) (\<lambda>_.
           required_row task_id))))))))))
     (task_from_row cfg)"

definition renew_impl ::
  "task_cfg \<Rightarrow> instant \<Rightarrow> string \<Rightarrow> task_lease \<Rightarrow> int \<Rightarrow> task_authority \<Rightarrow> string
    \<Rightarrow> durable_task task_op" where
  "renew_impl cfg now task_id lease expected_revision authority executor_id =
     bind (atomic (
       bind (required_leased_row task_id lease expected_revision now) (\<lambda>row.
         let revision = expected_revision + 1 in
         bind (sql_update_task task_id (\<lambda>r. r\<lparr>r_revision := revision, r_updated_at := now,
                 r_lease_expires_at := Some (now + seconds (c_lease_seconds cfg))\<rparr>)) (\<lambda>_.
         bind (insert_activity task_id K_Lease_Renewed authority executor_id
                 (Some (holder_session_id lease)) (Some (r_status row)) (Some (r_status row))
                 ''Durable task lease renewed'' (JObj [(''lease_epoch'', JInt (epoch lease))])
                 revision now) (\<lambda>_.
           required_row task_id)))))
     (task_from_row cfg)"

text \<open>
  \<open>_candidate_from_row\<close> dumps the current task, replaces the given fields and validates the
  result as a new \<open>DurableTask\<close>; its trimmed values are what the transition writes.
\<close>

definition candidate_from_row ::
  "task_cfg \<Rightarrow> task_row \<Rightarrow> task_status \<Rightarrow> task_waiting_on option \<Rightarrow> string option
    \<Rightarrow> string option \<Rightarrow> int \<Rightarrow> instant option \<Rightarrow> int \<Rightarrow> instant \<Rightarrow> durable_task task_op" where
  "candidate_from_row cfg row status waiting_on current_summary next_action priority due_at
       revision now =
     bind (task_from_row cfg row) (\<lambda>t.
       value_op (make_task (t\<lparr>t_status := status, t_waiting_on := waiting_on,
         t_current_summary := current_summary, t_next_action := next_action,
         t_priority := priority, t_due_at := due_at, t_revision := revision,
         t_updated_at := now\<rparr>)))"

definition transition_impl ::
  "task_cfg \<Rightarrow> instant \<Rightarrow> string \<Rightarrow> task_lease \<Rightarrow> int \<Rightarrow> task_activity_kind \<Rightarrow> task_status
    \<Rightarrow> string \<Rightarrow> string option \<Rightarrow> task_waiting_on option \<Rightarrow> task_authority \<Rightarrow> string
    \<Rightarrow> int option \<Rightarrow> instant option \<Rightarrow> bool \<Rightarrow> durable_task task_op" where
  "transition_impl cfg now task_id lease expected_revision kind new_status current_summary0
       next_action0 waiting_on authority executor_id priority due_at clear_due_at =
     bind (value_op (nonempty (Some current_summary0) ''current_summary'')) (\<lambda>current_summary.
     bind (if new_status \<in> {Waiting, Blocked}
           then bind (value_op (nonempty next_action0 ''next_action'')) (\<lambda>a. ret (Some a))
           else ret next_action0) (\<lambda>next_action.
     bind (atomic (
       bind (required_leased_row task_id lease expected_revision now) (\<lambda>row.
         let old_status = r_status row in
         bind (unless (active_status old_status)
                 (TaskTransitionError ''cannot advance durable task'')) (\<lambda>_.
         let revision = expected_revision + 1;
             new_priority = (case priority of None \<Rightarrow> r_priority row | Some p \<Rightarrow> p);
             new_due = (if clear_due_at then None
                        else case due_at of Some d \<Rightarrow> Some d | None \<Rightarrow> r_due_at row)
         in
         bind (candidate_from_row cfg row new_status waiting_on (Some current_summary)
                 next_action new_priority new_due revision now) (\<lambda>candidate.
         bind (sql_update_task task_id (\<lambda>r. r\<lparr>r_status := t_status candidate,
                 r_waiting_on := t_waiting_on candidate,
                 r_current_summary := t_current_summary candidate,
                 r_next_action := t_next_action candidate, r_priority := t_priority candidate,
                 r_due_at := t_due_at candidate, r_revision := revision,
                 r_updated_at := now\<rparr>)) (\<lambda>_.
         bind (insert_activity task_id kind authority executor_id
                 (Some (holder_session_id lease)) (Some old_status) (Some new_status)
                 current_summary
                 (JObj [(''next_action'', json_opt next_action),
                        (''waiting_on'', json_opt (map_option (\<lambda>w. case w of
                            On_Agent \<Rightarrow> ''agent'' | On_User \<Rightarrow> ''user'' | On_External \<Rightarrow> ''external''
                          | On_Time \<Rightarrow> ''time'') waiting_on))])
                 revision now) (\<lambda>_.
           required_row task_id)))))))
     (task_from_row cfg)))"

definition terminal_impl ::
  "task_cfg \<Rightarrow> instant \<Rightarrow> string \<Rightarrow> task_lease \<Rightarrow> int \<Rightarrow> task_status \<Rightarrow> string
    \<Rightarrow> task_authority \<Rightarrow> string \<Rightarrow> durable_task task_op" where
  "terminal_impl cfg now task_id lease expected_revision new_status summary0 authority
       executor_id =
     bind (value_op (nonempty (Some summary0) ''summary'')) (\<lambda>summary.
     bind (atomic (
       bind (required_leased_row task_id lease expected_revision now) (\<lambda>row.
         let old_status = r_status row in
         bind (unless (active_status old_status)
                 (TaskTransitionError ''cannot close durable task'')) (\<lambda>_.
         let revision = expected_revision + 1 in
         bind (sql_update_task task_id (\<lambda>r. r\<lparr>r_status := new_status, r_waiting_on := None,
                 r_next_action := None,
                 r_completion_summary := (if new_status = Completed then Some summary else None),
                 r_completed_at := (if new_status = Completed then Some now else None),
                 r_cancelled_at := (if new_status = Cancelled then Some now else None),
                 r_revision := revision, r_updated_at := now, r_lease_id := None,
                 r_lease_holder := None, r_lease_acquired_at := None,
                 r_lease_expires_at := None\<rparr>)) (\<lambda>_.
         bind (insert_activity task_id
                 (if new_status = Completed then K_Completed else K_Cancelled) authority
                 executor_id (Some (holder_session_id lease)) (Some old_status)
                 (Some new_status) summary (JObj []) revision now) (\<lambda>_.
           required_row task_id))))))
     (task_from_row cfg))"

definition reopen_impl ::
  "task_cfg \<Rightarrow> instant \<Rightarrow> string \<Rightarrow> string \<Rightarrow> task_authority \<Rightarrow> string \<Rightarrow> string option
    \<Rightarrow> durable_task task_op" where
  "reopen_impl cfg now task_id reason0 authority executor_id session_id =
     bind (value_op (nonempty (Some reason0) ''reason'')) (\<lambda>reason.
     bind (atomic (
       bind (required_row task_id) (\<lambda>row.
         let old_status = r_status row in
         bind (unless (old_status \<in> {Completed, Cancelled})
                 (TaskTransitionError ''only completed or cancelled tasks can be reopened'')) (\<lambda>_.
         bind (value_op (live_lease row now)) (\<lambda>live.
         bind (unless (live = None) (TaskLeaseError ''task is leased'')) (\<lambda>_.
         let revision = r_revision row + 1 in
         bind (sql_update_task task_id (\<lambda>r. r\<lparr>r_status := Open, r_waiting_on := None,
                 r_completion_summary := None, r_completed_at := None, r_cancelled_at := None,
                 r_revision := revision, r_updated_at := now, r_lease_id := None,
                 r_lease_holder := None, r_lease_acquired_at := None,
                 r_lease_expires_at := None\<rparr>)) (\<lambda>_.
         bind (insert_activity task_id K_Reopened authority executor_id session_id
                 (Some old_status) (Some Open) reason (JObj []) revision now) (\<lambda>_.
           required_row task_id))))))))
     (task_from_row cfg))"

definition release_impl ::
  "task_cfg \<Rightarrow> instant \<Rightarrow> string \<Rightarrow> task_lease \<Rightarrow> int \<Rightarrow> task_authority \<Rightarrow> string \<Rightarrow> string
    \<Rightarrow> durable_task task_op" where
  "release_impl cfg now task_id lease expected_revision authority executor_id summary0 =
     bind (value_op (nonempty (Some summary0) ''summary'')) (\<lambda>summary.
     bind (atomic (
       bind (required_leased_row task_id lease expected_revision now) (\<lambda>row.
         let revision = expected_revision + 1 in
         bind (sql_update_task task_id (\<lambda>r. r\<lparr>r_revision := revision, r_updated_at := now,
                 r_lease_id := None, r_lease_holder := None, r_lease_acquired_at := None,
                 r_lease_expires_at := None\<rparr>)) (\<lambda>_.
         bind (insert_activity task_id K_Released authority executor_id
                 (Some (holder_session_id lease)) (Some (r_status row)) (Some (r_status row))
                 summary (JObj [(''lease_epoch'', JInt (epoch lease))]) revision now) (\<lambda>_.
           required_row task_id)))))
     (task_from_row cfg))"

definition artifact_activity ::
  "instant \<Rightarrow> string \<Rightarrow> task_lease \<Rightarrow> int \<Rightarrow> task_row \<Rightarrow> bool \<Rightarrow> string \<Rightarrow> string \<Rightarrow> nat
    \<Rightarrow> task_authority \<Rightarrow> string \<Rightarrow> task_row task_op" where
  "artifact_activity now task_id lease expected_revision row created path sha256 nbytes
       authority executor_id =
     (let revision = expected_revision + 1 in
      bind (sql_update_task task_id (\<lambda>r. r\<lparr>r_revision := revision, r_updated_at := now\<rparr>)) (\<lambda>_.
      bind (insert_activity task_id (if created then K_Artifact_Created else K_Artifact_Updated)
              authority executor_id (Some (holder_session_id lease)) (Some (r_status row))
              (Some (r_status row))
              ((if created then ''Artifact created: '' else ''Artifact updated: '') @ path)
              (JObj [(''path'', JStr path), (''sha256'', JStr sha256), (''size'', JInt (int nbytes))])
              revision now) (\<lambda>_.
        required_row task_id)))"

definition record_artifact_activity_impl ::
  "task_cfg \<Rightarrow> instant \<Rightarrow> string \<Rightarrow> task_lease \<Rightarrow> int \<Rightarrow> bool \<Rightarrow> string \<Rightarrow> string \<Rightarrow> nat
    \<Rightarrow> task_authority \<Rightarrow> string \<Rightarrow> durable_task task_op" where
  "record_artifact_activity_impl cfg now task_id lease expected_revision created path sha256
       nbytes authority executor_id =
     bind (atomic (
       bind (required_leased_row task_id lease expected_revision now) (\<lambda>row.
         artifact_activity now task_id lease expected_revision row created path sha256 nbytes
           authority executor_id)))
     (task_from_row cfg)"

text \<open>
  \<open>operation\<close> is the caller's file mutation; its outcome, an exception or the artifact entry with
  the flag that it was created, is an argument.
\<close>

definition mutate_artifact_impl ::
  "task_cfg \<Rightarrow> instant \<Rightarrow> string \<Rightarrow> task_lease \<Rightarrow> int \<Rightarrow> task_authority \<Rightarrow> string
    \<Rightarrow> (task_error + task_artifact_entry \<times> bool)
    \<Rightarrow> (durable_task \<times> task_artifact_entry \<times> bool) task_op" where
  "mutate_artifact_impl cfg now task_id lease expected_revision authority executor_id operation =
     bind (atomic (
       bind (required_leased_row task_id lease expected_revision now) (\<lambda>row.
       bind (lift operation) (\<lambda>result.
         case result of (entry, created) \<Rightarrow>
           bind (artifact_activity now task_id lease expected_revision row created
                   (art_path entry) (art_sha256 entry) (art_size entry) authority executor_id)
             (\<lambda>updated. ret (updated, entry, created))))))
     (\<lambda>result. case result of (updated, entry, created) \<Rightarrow>
        bind (task_from_row cfg updated) (\<lambda>t. ret (t, entry, created)))"

definition release_one :: "instant \<Rightarrow> string \<Rightarrow> task_row \<Rightarrow> string task_op" where
  "release_one now session_id row =
     (let revision = r_revision row + 1 in
      bind (sql_update_task (r_id row) (\<lambda>r. r\<lparr>r_revision := revision, r_updated_at := now,
              r_lease_id := None, r_lease_holder := None, r_lease_acquired_at := None,
              r_lease_expires_at := None\<rparr>)) (\<lambda>_.
      bind (insert_activity (r_id row) K_Released System_Recovery ''session_cleanup''
              (Some session_id) (Some (r_status row)) (Some (r_status row))
              ''Lease released during session cleanup''
              (JObj [(''lease_epoch'', JInt (r_lease_epoch row))]) revision now) (\<lambda>_.
        ret (r_id row))))"

definition held_by :: "instant \<Rightarrow> string \<Rightarrow> task_row \<Rightarrow> bool" where
  "held_by now session_id r \<longleftrightarrow> r_lease_holder r = Some session_id
     \<and> (case r_lease_expires_at r of None \<Rightarrow> False | Some e \<Rightarrow> now < e)"

definition release_session_leases_impl :: "instant \<Rightarrow> string \<Rightarrow> string list task_op" where
  "release_session_leases_impl now session_id =
     atomic (
       bind (reads (\<lambda>db. filter (held_by now session_id) (task_rows db))) (\<lambda>rows.
         each (release_one now session_id) rows))"

definition verify_lease_impl ::
  "task_cfg \<Rightarrow> instant \<Rightarrow> string \<Rightarrow> task_lease \<Rightarrow> int \<Rightarrow> durable_task task_op" where
  "verify_lease_impl cfg now task_id lease expected_revision =
     bind (required_leased_row task_id lease expected_revision now) (task_from_row cfg)"

section \<open>Public operations\<close>

definition with_task_id :: "string \<Rightarrow> (string \<Rightarrow> 'a task_op) \<Rightarrow> 'a task_op" where
  "with_task_id task_id k = bind (value_op (validate_task_id task_id)) k"

definition task_create ::
  "task_cfg \<Rightarrow> instant \<Rightarrow> string \<Rightarrow> string \<Rightarrow> string \<Rightarrow> string \<Rightarrow> task_execution_mode
    \<Rightarrow> task_authority \<Rightarrow> string \<Rightarrow> string option \<Rightarrow> int \<Rightarrow> instant option \<Rightarrow> string list
    \<Rightarrow> durable_task task_op" where
  "task_create cfg now uuid title objective closure_criteria execution_mode authority
       executor_id session_id priority due_at tags =
     bind (value_op (canonicalize_task_tags tags)) (\<lambda>canonical.
       create_task_impl cfg now uuid title objective closure_criteria execution_mode authority
         executor_id session_id priority due_at canonical)"

definition task_update_tags ::
  "task_cfg \<Rightarrow> instant \<Rightarrow> string \<Rightarrow> string list \<Rightarrow> task_lease \<Rightarrow> int \<Rightarrow> task_authority \<Rightarrow> string
    \<Rightarrow> durable_task task_op" where
  "task_update_tags cfg now task_id tags lease expected_revision authority executor_id =
     with_task_id task_id (\<lambda>i.
       bind (value_op (canonicalize_task_tags tags)) (\<lambda>canonical.
         update_tags_impl cfg now i canonical lease expected_revision authority executor_id))"

definition task_get :: "task_cfg \<Rightarrow> string \<Rightarrow> durable_task task_op" where
  "task_get cfg task_id = with_task_id task_id (get_task_impl cfg)"

definition task_activities :: "task_cfg \<Rightarrow> string \<Rightarrow> nat option \<Rightarrow> task_activity list task_op" where
  "task_activities cfg task_id limit =
     (let actual_limit = (case limit of None \<Rightarrow> c_activity_limit cfg
                          | Some n \<Rightarrow> if n = 0 then c_activity_limit cfg else n) in
      bind (unless (1 \<le> actual_limit \<and> actual_limit \<le> c_activity_limit cfg)
              (ValueError ''activity limit is outside the configured range'')) (\<lambda>_.
        with_task_id task_id (\<lambda>i. activities_impl cfg i actual_limit)))"

definition task_claim ::
  "task_cfg \<Rightarrow> instant \<Rightarrow> string \<Rightarrow> string \<Rightarrow> string \<Rightarrow> task_authority \<Rightarrow> string \<Rightarrow> int option
    \<Rightarrow> durable_task task_op" where
  "task_claim cfg now uuid task_id holder_session authority executor_id expected_revision =
     with_task_id task_id (\<lambda>i.
       claim_impl cfg now uuid i holder_session authority executor_id expected_revision)"

definition task_renew ::
  "task_cfg \<Rightarrow> instant \<Rightarrow> string \<Rightarrow> task_lease \<Rightarrow> int \<Rightarrow> task_authority \<Rightarrow> string
    \<Rightarrow> durable_task task_op" where
  "task_renew cfg now task_id lease expected_revision authority executor_id =
     with_task_id task_id (\<lambda>i. renew_impl cfg now i lease expected_revision authority executor_id)"

definition task_progress ::
  "task_cfg \<Rightarrow> instant \<Rightarrow> string \<Rightarrow> task_lease \<Rightarrow> int \<Rightarrow> string \<Rightarrow> string option \<Rightarrow> task_authority
    \<Rightarrow> string \<Rightarrow> int option \<Rightarrow> instant option \<Rightarrow> bool \<Rightarrow> durable_task task_op" where
  "task_progress cfg now task_id lease expected_revision current_summary next_action authority
       executor_id priority due_at clear_due_at =
     with_task_id task_id (\<lambda>i. transition_impl cfg now i lease expected_revision K_Progressed
       In_Progress current_summary next_action None authority executor_id priority due_at
       clear_due_at)"

definition task_wait ::
  "task_cfg \<Rightarrow> instant \<Rightarrow> string \<Rightarrow> task_lease \<Rightarrow> int \<Rightarrow> task_waiting_on \<Rightarrow> string \<Rightarrow> string
    \<Rightarrow> task_authority \<Rightarrow> string \<Rightarrow> instant option \<Rightarrow> bool \<Rightarrow> durable_task task_op" where
  "task_wait cfg now task_id lease expected_revision waiting_on current_summary next_action
       authority executor_id due_at clear_due_at =
     with_task_id task_id (\<lambda>i. transition_impl cfg now i lease expected_revision K_Waiting Waiting
       current_summary (Some next_action) (Some waiting_on) authority executor_id None due_at
       clear_due_at)"

definition task_block ::
  "task_cfg \<Rightarrow> instant \<Rightarrow> string \<Rightarrow> task_lease \<Rightarrow> int \<Rightarrow> string \<Rightarrow> string \<Rightarrow> task_authority
    \<Rightarrow> string \<Rightarrow> durable_task task_op" where
  "task_block cfg now task_id lease expected_revision current_summary next_action authority
       executor_id =
     with_task_id task_id (\<lambda>i. transition_impl cfg now i lease expected_revision K_Blocked Blocked
       current_summary (Some next_action) None authority executor_id None None False)"

definition task_complete ::
  "task_cfg \<Rightarrow> instant \<Rightarrow> string \<Rightarrow> task_lease \<Rightarrow> int \<Rightarrow> string \<Rightarrow> task_authority \<Rightarrow> string
    \<Rightarrow> durable_task task_op" where
  "task_complete cfg now task_id lease expected_revision completion_summary authority executor_id =
     with_task_id task_id (\<lambda>i. terminal_impl cfg now i lease expected_revision Completed
       completion_summary authority executor_id)"

definition task_cancel ::
  "task_cfg \<Rightarrow> instant \<Rightarrow> string \<Rightarrow> task_lease \<Rightarrow> int \<Rightarrow> string \<Rightarrow> task_authority \<Rightarrow> string
    \<Rightarrow> durable_task task_op" where
  "task_cancel cfg now task_id lease expected_revision reason authority executor_id =
     with_task_id task_id (\<lambda>i. terminal_impl cfg now i lease expected_revision Cancelled
       reason authority executor_id)"

definition task_reopen ::
  "task_cfg \<Rightarrow> instant \<Rightarrow> string \<Rightarrow> string \<Rightarrow> task_authority \<Rightarrow> string \<Rightarrow> string option
    \<Rightarrow> durable_task task_op" where
  "task_reopen cfg now task_id reason authority executor_id session_id =
     with_task_id task_id (\<lambda>i. reopen_impl cfg now i reason authority executor_id session_id)"

definition task_release ::
  "task_cfg \<Rightarrow> instant \<Rightarrow> string \<Rightarrow> task_lease \<Rightarrow> int \<Rightarrow> task_authority \<Rightarrow> string \<Rightarrow> string
    \<Rightarrow> durable_task task_op" where
  "task_release cfg now task_id lease expected_revision authority executor_id summary =
     with_task_id task_id (\<lambda>i.
       release_impl cfg now i lease expected_revision authority executor_id summary)"

definition task_record_artifact_activity ::
  "task_cfg \<Rightarrow> instant \<Rightarrow> string \<Rightarrow> task_lease \<Rightarrow> int \<Rightarrow> bool \<Rightarrow> string \<Rightarrow> string \<Rightarrow> nat
    \<Rightarrow> task_authority \<Rightarrow> string \<Rightarrow> durable_task task_op" where
  "task_record_artifact_activity cfg now task_id lease expected_revision created path sha256
       nbytes authority executor_id =
     with_task_id task_id (\<lambda>i. record_artifact_activity_impl cfg now i lease expected_revision
       created path sha256 nbytes authority executor_id)"

definition task_mutate_artifact ::
  "task_cfg \<Rightarrow> instant \<Rightarrow> string \<Rightarrow> task_lease \<Rightarrow> int \<Rightarrow> task_authority \<Rightarrow> string
    \<Rightarrow> (task_error + task_artifact_entry \<times> bool)
    \<Rightarrow> (durable_task \<times> task_artifact_entry \<times> bool) task_op" where
  "task_mutate_artifact cfg now task_id lease expected_revision authority executor_id operation =
     with_task_id task_id (\<lambda>i. mutate_artifact_impl cfg now i lease expected_revision authority
       executor_id operation)"

definition task_release_session_leases :: "instant \<Rightarrow> string \<Rightarrow> string list task_op" where
  "task_release_session_leases now session_id = release_session_leases_impl now session_id"

definition task_verify_lease ::
  "task_cfg \<Rightarrow> instant \<Rightarrow> string \<Rightarrow> task_lease \<Rightarrow> int \<Rightarrow> durable_task task_op" where
  "task_verify_lease cfg now task_id lease expected_revision =
     with_task_id task_id (\<lambda>i. verify_lease_impl cfg now i lease expected_revision)"

end
