(* ===== verification/Task_Lifecycle.thy ===== *)
theory Task_Lifecycle
  imports Task_Ops
begin

text \<open>
  The abstract life cycle of one task and the proof that the store's operations implement it.
  \<open>row_step\<close> says how one row may change and when; \<open>db_step\<close> lifts it to the database together
  with the audit record it must leave.  The main lemma, \<open>exec_call_steps\<close>, shows that every public
  call, successful or not, is a finite sequence of such steps, so that invariants are proved once
  on the small relation.
\<close>

section \<open>The abstract steps\<close>

definition lease_live :: "instant \<Rightarrow> task_row \<Rightarrow> bool" where
  "lease_live now r \<longleftrightarrow> r_lease_id r \<noteq> None
     \<and> (case r_lease_expires_at r of None \<Rightarrow> False | Some e \<Rightarrow> now < e)"

definition drop_lease :: "task_row \<Rightarrow> task_row" where
  "drop_lease r = r\<lparr>r_lease_id := None, r_lease_holder := None, r_lease_acquired_at := None,
     r_lease_expires_at := None\<rparr>"

definition bump :: "instant \<Rightarrow> task_row \<Rightarrow> task_row" where
  "bump now r = r\<lparr>r_revision := r_revision r + 1, r_updated_at := now\<rparr>"

definition text_ok :: "string \<Rightarrow> bool" where
  "text_ok s \<longleftrightarrow> s \<noteq> [] \<and> py_strip s = s"

inductive row_step :: "task_cfg \<Rightarrow> string set \<Rightarrow> instant \<Rightarrow> task_row \<Rightarrow> task_row \<Rightarrow> bool" for cfg H now where
  claim: "h \<in> H \<Longrightarrow> l \<noteq> [] \<Longrightarrow> active_status (r_status r) \<Longrightarrow> \<not> lease_live now r \<Longrightarrow>
    row_step cfg H now r ((bump now r)\<lparr>
      r_status := (if r_status r = Open then In_Progress else r_status r),
      r_lease_id := Some l, r_lease_holder := Some h, r_lease_epoch := r_lease_epoch r + 1,
      r_lease_acquired_at := Some now,
      r_lease_expires_at := Some (now + seconds (c_lease_seconds cfg))\<rparr>)"
| renew: "lease_live now r \<Longrightarrow>
    row_step cfg H now r ((bump now r)\<lparr>
      r_lease_expires_at := Some (now + seconds (c_lease_seconds cfg))\<rparr>)"
| advance: "lease_live now r \<Longrightarrow> active_status (r_status r) \<Longrightarrow> active_status st \<Longrightarrow> st \<noteq> Open \<Longrightarrow>
    (w \<noteq> None) = (st = Waiting) \<Longrightarrow> (st = Waiting \<or> st = Blocked \<longrightarrow> n \<noteq> None) \<Longrightarrow>
    -100 \<le> p \<Longrightarrow> p \<le> 100 \<Longrightarrow> text_ok s \<Longrightarrow> pred_option text_ok n \<Longrightarrow>
    row_step cfg H now r ((bump now r)\<lparr>r_status := st, r_waiting_on := w,
      r_current_summary := Some s, r_next_action := n, r_priority := p, r_due_at := d\<rparr>)"
| close: "lease_live now r \<Longrightarrow> active_status (r_status r) \<Longrightarrow> st = Completed \<or> st = Cancelled \<Longrightarrow>
    text_ok s \<Longrightarrow>
    row_step cfg H now r (drop_lease ((bump now r)\<lparr>r_status := st, r_waiting_on := None,
      r_next_action := None, r_completion_summary := (if st = Completed then Some s else None),
      r_completed_at := (if st = Completed then Some now else None),
      r_cancelled_at := (if st = Cancelled then Some now else None)\<rparr>))"
| reopen: "r_status r = Completed \<or> r_status r = Cancelled \<Longrightarrow> \<not> lease_live now r \<Longrightarrow>
    row_step cfg H now r (drop_lease ((bump now r)\<lparr>r_status := Open, r_waiting_on := None,
      r_completion_summary := None, r_completed_at := None, r_cancelled_at := None\<rparr>))"
| release: "lease_live now r \<Longrightarrow> row_step cfg H now r (drop_lease (bump now r))"
| touch: "lease_live now r \<Longrightarrow> row_step cfg H now r (bump now r)"

text \<open>
  The audit records of one step: consecutive identities after the table's sequence, the task's new
  revision, the time of the call, and a trail of statuses from the old to the new one.
\<close>

fun trail :: "task_status \<Rightarrow> activity_row list \<Rightarrow> task_status \<Rightarrow> bool" where
  "trail s [] t = (s = t)"
| "trail s (a # acts) t = (ar_from_status a = Some s \<and>
     (case ar_to_status a of None \<Rightarrow> False | Some u \<Rightarrow> trail u acts t))"

definition stamped :: "string \<Rightarrow> instant \<Rightarrow> int \<Rightarrow> nat \<Rightarrow> activity_row list \<Rightarrow> bool" where
  "stamped k now revn seq acts \<longleftrightarrow>
     acts \<noteq> [] \<and> map ar_id acts = [seq + 1..<seq + 1 + length acts]
   \<and> list_all (\<lambda>a. ar_task_id a = k \<and> ar_task_revision a = revn \<and> ar_created_at a = now) acts"

definition put_row :: "string \<Rightarrow> task_row \<Rightarrow> activity_row list \<Rightarrow> task_db \<Rightarrow> task_db" where
  "put_row k row acts db = db\<lparr>task_rows := update_row r_id k (\<lambda>_. row) (task_rows db),
     activity_rows := activity_rows db @ acts, activity_seq := activity_seq db + length acts\<rparr>"

definition put_tags :: "string \<Rightarrow> string list \<Rightarrow> task_db \<Rightarrow> task_db" where
  "put_tags k tags db =
     db\<lparr>tag_rows := filter (\<lambda>p. fst p \<noteq> k) (tag_rows db) @ map (Pair k) tags\<rparr>"

inductive db_step :: "task_cfg \<Rightarrow> string set \<Rightarrow> instant \<Rightarrow> string \<Rightarrow> task_db \<Rightarrow> task_db \<Rightarrow> bool" for cfg H now k where
  create: "find_task k db = None \<Longrightarrow> r_id r = k \<Longrightarrow> task_row_check r \<Longrightarrow> r_status r = Open \<Longrightarrow>
    r_revision r = 1 \<Longrightarrow> r_lease_id r = None \<Longrightarrow> r_lease_epoch r = 0 \<Longrightarrow>
    r_updated_at r = now \<Longrightarrow> r_created_at r = now \<Longrightarrow>
    make_task (row_to_task cfg r tags None) = Inr (row_to_task cfg r tags None) \<Longrightarrow>
    stamped k now 1 (activity_seq db) [a] \<Longrightarrow>
    ar_from_status a = None \<Longrightarrow> ar_to_status a = Some Open \<Longrightarrow>
    db_step cfg H now k db
      (db\<lparr>task_rows := task_rows db @ [r], activity_rows := activity_rows db @ [a],
          activity_seq := activity_seq db + 1, tag_rows := tag_rows db @ map (Pair k) tags\<rparr>)"
| change: "find_task k db = Some r \<Longrightarrow> row_step cfg H now r r' \<Longrightarrow> task_row_check r' \<Longrightarrow>
    stamped k now (r_revision r') (activity_seq db) acts \<Longrightarrow> trail (r_status r) acts (r_status r') \<Longrightarrow>
    db_step cfg H now k db (put_row k r' acts db)"
| retag: "find_task k db = Some r \<Longrightarrow> lease_live now r \<Longrightarrow> tags_ok tags \<Longrightarrow>
    task_row_check (bump now r) \<Longrightarrow>
    stamped k now (r_revision r + 1) (activity_seq db) acts \<Longrightarrow> trail (r_status r) acts (r_status r) \<Longrightarrow>
    db_step cfg H now k db (put_tags k tags (put_row k (bump now r) acts db))"

text \<open>A step of some task.\<close>

definition any_step :: "task_cfg \<Rightarrow> string set \<Rightarrow> instant \<Rightarrow> task_db \<Rightarrow> task_db \<Rightarrow> bool" where
  "any_step cfg H now db db' \<longleftrightarrow> (\<exists>k. db_step cfg H now k db db')"

inductive_cases row_stepE: "row_step cfg H now r r'"
inductive_cases db_stepE: "db_step cfg H now k db db'"

section \<open>Basic facts about the SQL primitives\<close>

definition keys_ok :: "task_db \<Rightarrow> bool" where
  "keys_ok db \<longleftrightarrow> distinct (map r_id (task_rows db))"

lemma find_task_upd [simp]:
  "find_task k (db\<lparr>activity_rows := a\<rparr>) = find_task k db"
  "find_task k (db\<lparr>activity_seq := n\<rparr>) = find_task k db"
  "find_task k (db\<lparr>tag_rows := t\<rparr>) = find_task k db"
  by (simp_all add: find_task_def)

lemma find_task_id: "find_task k db = Some r \<Longrightarrow> r_id r = k"
  by (auto simp: find_task_def dest: find_row_Some)

lemma find_task_mem: "find_task k db = Some r \<Longrightarrow> r \<in> set (task_rows db)"
  by (auto simp: find_task_def dest: find_row_Some)

lemma sql_update_task_ok:
  "keys_ok db \<Longrightarrow> find_task k db = Some r \<Longrightarrow> sql_update_task k f db = (db', Inr n) \<longleftrightarrow>
    task_row_check (f r) \<and> n = 1
    \<and> db' = db\<lparr>task_rows := update_row r_id k (\<lambda>_. f r) (task_rows db)\<rparr>"
  unfolding sql_update_tasks_def keys_ok_def find_task_def by (rule tasks.update_ok)

lemma find_after_update:
  "find_task k db = Some r \<Longrightarrow> r_id r' = k \<Longrightarrow>
    find_task j (db\<lparr>task_rows := update_row r_id k (\<lambda>_. r') (task_rows db)\<rparr>) =
    (if j = k then Some r' else find_task j db)"
  unfolding find_task_def by (rule tasks.find_put)

lemma required_row_ok:
  "required_row k db = (db', Inr r) \<longleftrightarrow> db' = db \<and> find_task k db = Some r"
  by (auto simp: required_row_def op_ok)

definition lease_matches :: "task_lease \<Rightarrow> int \<Rightarrow> instant \<Rightarrow> task_row \<Rightarrow> bool" where
  "lease_matches l n now r \<longleftrightarrow> r_revision r = n \<and> r_lease_holder r = Some (holder_session_id l)
     \<and> r_lease_id r = Some (lease_id l) \<and> r_lease_epoch r = epoch l \<and> lease_live now r"

lemma required_leased_row_ok:
  "required_leased_row k l n now db = (db', Inr r) \<longleftrightarrow>
     db' = db \<and> find_task k db = Some r \<and> lease_matches l n now r"
  by (auto simp: required_leased_row_def op_ok required_row_ok lease_matches_def lease_live_def
      split: option.splits)

lemma nonempty_ok: "nonempty v name = Inr w \<longleftrightarrow> (\<exists>x. v = Some x \<and> w = py_strip x \<and> w \<noteq> [])"
  by (auto simp: nonempty_def split: option.splits)

definition activity_of ::
  "nat \<Rightarrow> string \<Rightarrow> task_activity_kind \<Rightarrow> task_authority \<Rightarrow> string \<Rightarrow> string option
    \<Rightarrow> task_status option \<Rightarrow> task_status option \<Rightarrow> string \<Rightarrow> json \<Rightarrow> int \<Rightarrow> instant \<Rightarrow> activity_row" where
  "activity_of n k kind authority executor session from_st to_st summary metadata revn now =
     \<lparr>ar_id = n, ar_task_id = k, ar_kind = kind, ar_authority = authority,
      ar_executor_id = py_strip executor, ar_session_id = session, ar_from_status = from_st,
      ar_to_status = to_st, ar_summary = py_strip summary, ar_metadata = metadata,
      ar_task_revision = revn, ar_created_at = now\<rparr>"

definition add_activity :: "activity_row \<Rightarrow> task_db \<Rightarrow> task_db" where
  "add_activity a db = db\<lparr>activity_rows := activity_rows db @ [a],
     activity_seq := activity_seq db + 1\<rparr>"

lemma insert_activity_ok:
  "insert_activity k kind authority executor session from_st to_st summary metadata revn now db
      = (db', Inr u) \<longleftrightarrow>
     length summary \<le> 4000 \<and> length (json_dumps metadata) \<le> metadata_char_limit
   \<and> py_strip executor \<noteq> [] \<and> sql_nonblank (py_strip summary) \<and> 1 \<le> revn
   \<and> find_task k db \<noteq> None
   \<and> db' = add_activity (activity_of (activity_seq db + 1) k kind authority executor session
        from_st to_st summary metadata revn now) db"
proof -
  have "sql_nonblank (py_strip summary) \<Longrightarrow> py_strip summary \<noteq> []"
    by (metis py_strip_idem sql_nonblank_strip)
  then show ?thesis
    by (auto simp: insert_activity_def op_ok nonempty_ok add_activity_def activity_of_def)
qed

lemma add_activity_simps [simp]:
  "find_task k (add_activity a db) = find_task k db"
  "task_rows (add_activity a db) = task_rows db"
  "tag_rows (add_activity a db) = tag_rows db"
  "keys_ok (add_activity a db) = keys_ok db"
  "activity_seq (add_activity a db) = activity_seq db + 1"
  by (simp_all add: add_activity_def keys_ok_def)

lemma value_lift_ok: "task_from_row cfg r db = (db', Inr t) \<Longrightarrow> db' = db"
  by (auto simp: task_from_row_def op_ok split: if_splits)

lemma task_from_row_state: "fst (task_from_row cfg r db) = db"
  by (auto simp: task_from_row_def op_defs value_op_def split: option.splits sum.splits)

section \<open>Every operation is a sequence of abstract steps\<close>

lemma put_row_one:
  "add_activity a (db\<lparr>task_rows := update_row r_id k (\<lambda>_. r') (task_rows db)\<rparr>) = put_row k r' [a] db"
  by (simp add: add_activity_def put_row_def)

lemma put_row_two:
  "add_activity b ((add_activity a db)\<lparr>task_rows := update_row r_id k (\<lambda>_. r') (task_rows db)\<rparr>)
     = put_row k r' [a, b] db"
  by (simp add: add_activity_def put_row_def)

lemma stamped_one:
  "stamped k now revn n [activity_of (n + 1) k kind au ex se fs ts sm md revn now]"
  by (simp add: stamped_def activity_of_def)

lemma stamped_two:
  "stamped k now revn n [activity_of (n + 1) k kind au ex se fs ts sm md revn now,
     activity_of (n + 1 + 1) k kind' au' ex' se' fs' ts' sm' md' revn now]"
  by (simp add: stamped_def activity_of_def)

lemma change_one:
  assumes "find_task k db = Some r" and "row_step cfg H now r r'" and "task_row_check r'"
    and "r_revision r' = revn"
  shows "db_step cfg H now k db (put_row k r' [activity_of (activity_seq db + 1) k kind au ex se
    (Some (r_status r)) (Some (r_status r')) sm md revn now] db)"
  unfolding assms(4) [symmetric]
  by (rule db_step.change [OF assms(1-3) stamped_one]) (simp add: activity_of_def)

lemma live_lease_None: "live_lease r now = Inr None \<longleftrightarrow> \<not> lease_live now r"
  by (auto simp: live_lease_def lease_live_def andthen_Inr split: option.splits)

lemma row_eqs:
  "bump now r = r\<lparr>r_revision := r_revision r + 1, r_updated_at := now\<rparr>"
  "drop_lease r = r\<lparr>r_lease_id := None, r_lease_holder := None, r_lease_acquired_at := None,
     r_lease_expires_at := None\<rparr>"
  by (simp_all add: bump_def drop_lease_def)

lemma value_opI:
  assumes "P s" and "\<And>x. r = Inr x \<Longrightarrow> P (fst (f x s))"
  shows "P (fst (bind (value_op r) f s))"
  unfolding value_op_def using assms by (cases r) (simp_all add: op_defs)

abbreviation reach :: "task_cfg \<Rightarrow> string set \<Rightarrow> instant \<Rightarrow> string \<Rightarrow> task_db \<Rightarrow> task_db \<Rightarrow> bool" where
  "reach cfg H now k \<equiv> (db_step cfg H now k)\<^sup>*\<^sup>*"

abbreviation reach_any :: "task_cfg \<Rightarrow> string set \<Rightarrow> instant \<Rightarrow> task_db \<Rightarrow> task_db \<Rightarrow> bool" where
  "reach_any cfg H now \<equiv> (any_step cfg H now)\<^sup>*\<^sup>*"

lemma reach_any: "reach cfg H now k db db' \<Longrightarrow> reach_any cfg H now db db'"
  by (induction rule: rtranclp_induct) (auto simp: any_step_def intro: rtranclp.rtrancl_into_rtrancl)

text \<open>
  The common tail of the leased operations: update the row, add one audit record, read the row
  back.
\<close>

definition update_and_log ::
  "string \<Rightarrow> (task_row \<Rightarrow> task_row) \<Rightarrow> unit task_op \<Rightarrow> task_row task_op" where
  "update_and_log k f log = bind (sql_update_task k f) (\<lambda>_. bind log (\<lambda>_. required_row k))"

lemma update_and_log_ok:
  assumes "keys_ok db" and "find_task k db = Some r" and "r_id (f r) = k"
    and "update_and_log k f (insert_activity k kind au ex se fs ts sm md revn now) db = (db', Inr x)"
  shows "x = f r" and "task_row_check (f r)"
    and "db' = put_row k (f r)
      [activity_of (activity_seq db + 1) k kind au ex se fs ts sm md revn now] db"
  using assms
  by (auto simp: update_and_log_def op_ok required_row_ok insert_activity_ok sql_update_task_ok
      find_after_update simp flip: put_row_one)

lemma log_reach:
  assumes "update_and_log k f (insert_activity k kind au ex se (Some (r_status r)) (Some st) sm md
      revn now) db = (db', Inr x)"
    and "keys_ok db" and r: "find_task k db = Some r" and step: "row_step cfg H now r (f r)"
    and "r_revision (f r) = revn" and "r_status (f r) = st" and "r_id (f r) = r_id r"
  shows "reach cfg H now k db db'"
  using update_and_log_ok [OF assms(2,3) _ assms(1)] change_one [OF r step _ assms(5)] assms(5-)
    find_task_id [OF r] by auto

lemma row_step_eqI: "row_step cfg H now r r1 \<Longrightarrow> r1 = r2 \<Longrightarrow> row_step cfg H now r r2"
  by simp

lemma renew_reach: "keys_ok db \<Longrightarrow> reach cfg H now k db (fst (renew_impl cfg now k l n au ex db))"
  unfolding renew_impl_def Let_def update_and_log_def [symmetric]
proof (rule final_atomic_bind, goal_cases)
  case (3 t x)
  then show ?case
    by (auto simp: op_ok required_leased_row_ok lease_matches_def row_eqs elim!: log_reach
        intro!: row_step.renew [unfolded row_eqs, THEN row_step_eqI])
qed (simp_all add: task_from_row_state)

lemma release_reach: "keys_ok db \<Longrightarrow> reach cfg H now k db (fst (release_impl cfg now k l n au ex sm db))"
  unfolding release_impl_def Let_def update_and_log_def [symmetric]
proof (rule value_opI, simp, rule final_atomic_bind, goal_cases)
  case (3 y t x)
  then show ?case
    by (auto simp: op_ok required_leased_row_ok lease_matches_def row_eqs elim!: log_reach
        intro!: row_step.release [unfolded row_eqs, THEN row_step_eqI])
qed (simp_all add: task_from_row_state)

lemma terminal_reach:
  "keys_ok db \<Longrightarrow> st = Completed \<or> st = Cancelled \<Longrightarrow>
     reach cfg H now k db (fst (terminal_impl cfg now k l n st sm au ex db))"
  unfolding terminal_impl_def Let_def update_and_log_def [symmetric]
proof (rule value_opI, simp, rule final_atomic_bind, goal_cases)
  case (3 y t x)
  then have y: "text_ok y" by (auto simp: nonempty_ok text_ok_def)
  from 3(2) show ?case
  proof
    assume "st = Completed"
    with 3 y show ?thesis
      by (auto simp: op_ok required_leased_row_ok lease_matches_def row_eqs elim!: log_reach
          intro!: row_step.close [unfolded row_eqs, where st = Completed, THEN row_step_eqI])
  next
    assume "st = Cancelled"
    with 3 y show ?thesis
      by (auto simp: op_ok required_leased_row_ok lease_matches_def row_eqs elim!: log_reach
          intro!: row_step.close [unfolded row_eqs, where st = Cancelled and s = y, THEN row_step_eqI])
  qed
qed (simp_all add: task_from_row_state)

lemma live_lease_op: "value_op (live_lease r now) db = (db', Inr None) \<longleftrightarrow> db' = db \<and> \<not> lease_live now r"
  by (simp add: op_ok live_lease_None)

lemma reopen_reach: "keys_ok db \<Longrightarrow> reach cfg H now k db (fst (reopen_impl cfg now k reason au ex se db))"
  unfolding reopen_impl_def Let_def update_and_log_def [symmetric]
proof (rule value_opI, simp, rule final_atomic_bind, goal_cases)
  case (3 y t x)
  then show ?case
    by (auto simp: op_ok required_row_ok live_lease_None row_eqs elim!: log_reach
        intro!: row_step.reopen [unfolded row_eqs, THEN row_step_eqI])
qed (simp_all add: task_from_row_state)

lemma artifact_reach:
  assumes "artifact_activity now k l n r created path sha sz au ex db = (db', Inr x)"
    and "keys_ok db" and "find_task k db = Some r" and "lease_matches l n now r"
  shows "reach cfg H now k db db'"
  using assms unfolding artifact_activity_def Let_def update_and_log_def [symmetric]
  by (auto simp: lease_matches_def row_eqs elim!: log_reach
      intro!: row_step.touch [unfolded row_eqs, THEN row_step_eqI])

lemma record_artifact_reach:
  "keys_ok db \<Longrightarrow>
     reach cfg H now k db (fst (record_artifact_activity_impl cfg now k l n c path sha sz au ex db))"
  unfolding record_artifact_activity_impl_def
  by (rule final_atomic_bind)
    (auto simp: task_from_row_state op_ok required_leased_row_ok intro: artifact_reach)

lemma mutate_artifact_reach:
  "keys_ok db \<Longrightarrow> reach cfg H now k db (fst (mutate_artifact_impl cfg now k l n au ex operation db))"
  unfolding mutate_artifact_impl_def
proof (rule final_atomic_bind, goal_cases)
  case (2 x t)
  obtain u e c where "x = (u, e, c)" by (cases x)
  then show ?case using task_from_row_state [of cfg u t] 
    by (auto simp: op_defs split: prod.splits sum.splits)
next
  case (3 t x)
  then show ?case
    by (auto simp: op_ok required_leased_row_ok split: prod.splits intro: artifact_reach)
qed simp

subsection \<open>Claiming\<close>

lemma claim_step:
  assumes "h \<in> H" and "l \<noteq> []" and "active_status (r_status r)" and "\<not> lease_live now r"
  shows "row_step cfg H now r (r\<lparr>
        r_status := (if r_status r = Open then In_Progress else r_status r),
        r_revision := r_revision r + 1, r_updated_at := now, r_lease_id := Some l,
        r_lease_holder := Some h, r_lease_epoch := r_lease_epoch r + 1,
        r_lease_acquired_at := Some now,
        r_lease_expires_at := Some (now + seconds (c_lease_seconds cfg))\<rparr>)"
  by (rule row_step_eqI [OF row_step.claim [OF assms]]) (cases r, simp add: row_eqs)

lemma log_reach_two:
  assumes run: "update_and_log k f (insert_activity k kind au ex se (Some (r_status r)) (Some st)
      sm md revn now) (add_activity (activity_of (activity_seq db + 1) k kind' au' ex' se'
        (Some (r_status r)) (Some (r_status r)) sm' md' revn now) db) = (db', Inr x)"
    and keys: "keys_ok db" and r: "find_task k db = Some r" and step: "row_step cfg H now r (f r)"
    and rev: "r_revision (f r) = revn" and st: "r_status (f r) = st" and id: "r_id (f r) = r_id r"
  shows "reach cfg H now k db db'"
proof -
  have k: "r_id (f r) = k" using id find_task_id [OF r] by simp
  define a where "a = activity_of (activity_seq db + 1) k kind' au' ex' se'
        (Some (r_status r)) (Some (r_status r)) sm' md' revn now"
  define b where "b = activity_of (activity_seq db + 1 + 1) k kind au ex se
        (Some (r_status r)) (Some st) sm md revn now"
  have c: "task_row_check (f r)" and db': "db' = put_row k (f r) [b] (add_activity a db)"
    using update_and_log_ok [OF _ _ k run] keys r by (simp_all add: a_def b_def)
  have "db_step cfg H now k db (put_row k (f r) [a, b] db)"
    using stamped_two [of k now revn "activity_seq db"] st unfolding a_def b_def
    by (intro db_step.change [OF r step c]) (simp_all add: rev activity_of_def)
  also have "put_row k (f r) [a, b] db = db'"
    unfolding db' by (simp add: put_row_def add_activity_def)
  finally show ?thesis by blast
qed

lemma recovered_run:
  assumes "(if b then insert_activity k kind au ex se fs ts sm md revn now else ret ()) db
    = (db', Inr u)"
  shows "db' = db \<or>
    db' = add_activity (activity_of (activity_seq db + 1) k kind au ex se fs ts sm md revn now) db"
  using assms by (cases b) (auto simp: insert_activity_ok op_ok)

lemma log_reach_opt:
  assumes "(if b then insert_activity k kind' au' ex' se' (Some (r_status r)) (Some (r_status r))
      sm' md' revn now else ret ()) db = (db1, Inr u)"
    and "update_and_log k f (insert_activity k kind au ex se (Some (r_status r)) (Some st)
      sm md revn now) db1 = (db', Inr x)"
    and "keys_ok db" and "find_task k db = Some r" and "row_step cfg H now r (f r)"
    and "r_revision (f r) = revn" and "r_status (f r) = st" and "r_id (f r) = r_id r"
  shows "reach cfg H now k db db'"
  using recovered_run [OF assms(1)]
proof
  assume "db1 = db"
  with assms(2) show ?thesis by (intro log_reach [where f = f, OF _ assms(3-)]) simp
next
  assume "db1 = add_activity (activity_of (activity_seq db + 1) k kind' au' ex' se'
    (Some (r_status r)) (Some (r_status r)) sm' md' revn now) db"
  with assms(2) show ?thesis by (intro log_reach_two [where f = f, OF _ assms(3-)]) simp
qed

lemma claim_reach:
  "keys_ok db \<Longrightarrow> h \<in> H \<Longrightarrow> reach cfg H now k db (fst (claim_impl cfg now u k h au ex revn db))"
  unfolding claim_impl_def Let_def update_and_log_def [symmetric]
proof (rule final_atomic_bind, goal_cases)
  case (3 t x)
  from 3(3) show ?case
    unfolding op_ok required_row_ok
    by clarify (rule log_reach_opt [OF _ _ 3(1) _ claim_step [OF 3(2)]],
      assumption+,
      simp_all add: live_lease_None)
qed (simp_all add: task_from_row_state)

subsection \<open>Transitions\<close>

lemma make_task_ok:
  assumes "make_task t = Inr t'"
  shows "t_id t' = py_strip (t_id t)" "t_profile t' = t_profile t"
    "t_title t' = py_strip (t_title t)" "t_objective t' = py_strip (t_objective t)"
    "t_closure_criteria t' = py_strip (t_closure_criteria t)"
    "t_execution_mode t' = t_execution_mode t" "t_status t' = t_status t"
    "t_waiting_on t' = t_waiting_on t"
    "t_current_summary t' = map_option py_strip (t_current_summary t)"
    "t_next_action t' = map_option py_strip (t_next_action t)"
    "t_priority t' = t_priority t" "t_due_at t' = t_due_at t"
    "t_completion_summary t' = map_option py_strip (t_completion_summary t)"
    "t_revision t' = t_revision t" "t_created_at t' = t_created_at t"
    "t_updated_at t' = t_updated_at t" "t_completed_at t' = t_completed_at t"
    "t_cancelled_at t' = t_cancelled_at t" "t_lease t' = t_lease t"
    and "canonicalize_task_tags (t_tags t) = Inr (t_tags t')"
    and "task_id_re (t_id t')" "profile_name_re (t_profile t')"
    "t_title t' \<noteq> []" "t_objective t' \<noteq> []" "t_closure_criteria t' \<noteq> []"
    "t_current_summary t' \<noteq> Some []" "t_next_action t' \<noteq> Some []"
    "t_completion_summary t' \<noteq> Some []"
    "-100 \<le> t_priority t'" "t_priority t' \<le> 100" "1 \<le> t_revision t'"
    "case t_lease t' of None \<Rightarrow> True | Some l \<Rightarrow> valid_lease l" "task_state_ok t'"
  using assms
  by (auto simp: make_task_def Let_def andthen_Inr trim_required_ok trim_text_ok validate_task_id_ok
      split: if_splits)

lemma map_strip_strip: "map_option py_strip (map_option py_strip v) = map_option py_strip v"
  by (cases v) simp_all

lemma task_id_ne: "task_id_re i \<Longrightarrow> i \<noteq> []"
  by (auto simp: task_id_re_def hex_id_def strip_prefix_def)

lemma make_task_fix:
  assumes "make_task t = Inr t'"
  shows "make_task t' = Inr t'"
proof -
  note t = make_task_ok [OF assms]
  have req: "trim_required (t_id t') = Inr (t_id t')" "trim_required (t_title t') = Inr (t_title t')"
    "trim_required (t_objective t') = Inr (t_objective t')"
    "trim_required (t_closure_criteria t') = Inr (t_closure_criteria t')"
    using t(1,3-5,21,23-25) task_id_ne by (auto simp: trim_required_ok)
  have opt: "trim_text (t_current_summary t') = Inr (t_current_summary t')"
    "trim_text (t_next_action t') = Inr (t_next_action t')"
    "trim_text (t_completion_summary t') = Inr (t_completion_summary t')"
    using t(9,10,13,26-28) by (simp_all add: trim_text_ok map_strip_strip)
  have tags: "canonicalize_task_tags (t_tags t') = Inr (t_tags t')"
    using t(20) by (intro canonicalize_fix) (rule canonicalize_ok)
  have "validate_task_id (t_id t') = Inr (t_id t')" using t(21) by (simp add: validate_task_id_ok)
  with req opt tags show ?thesis
    using t(22,29-33) by (simp add: make_task_def require_def)
qed

lemma task_from_row_ok:
  assumes "task_from_row cfg r db = (db', Inr t)"
  obtains lease where "db' = db"
    "make_task (row_to_task cfg r (tags_of (r_id r) db) lease) = Inr t"
    "r_lease_id r = None \<Longrightarrow> lease = None"
    "r_lease_id r \<noteq> None \<Longrightarrow> \<exists>l. lease_from_row r = Inr l \<and> lease = Some l"
proof -
  from assms obtain lease where "db' = db"
    and "(case make_task (row_to_task cfg r (tags_of (r_id r) db) lease) of
            Inl _ \<Rightarrow> Inl (TaskSchemaError ''durable task store contains an invalid task row'')
          | Inr t \<Rightarrow> Inr t) = (Inr t :: task_error + durable_task)"
    and "r_lease_id r = None \<longrightarrow> lease = None"
    and "r_lease_id r \<noteq> None \<longrightarrow> (\<exists>l. lease_from_row r = Inr l \<and> lease = Some l)"
    unfolding task_from_row_def by (cases "r_lease_id r") (auto simp: op_ok)
  then show thesis by (intro that [of lease]) (auto split: sum.splits)
qed

lemma candidate_ok:
  assumes "candidate_from_row cfg r st w cs na p d revn now db = (db', Inr c)"
  shows "db' = db" "t_status c = st" "t_waiting_on c = w"
    "t_current_summary c = map_option py_strip cs" "t_next_action c = map_option py_strip na"
    "t_priority c = p" "t_due_at c = d" "t_current_summary c \<noteq> Some []" "t_next_action c \<noteq> Some []"
    "-100 \<le> p" "p \<le> 100" "task_state_ok c"
proof -
  obtain t where t: "task_from_row cfg r db = (db', Inr t)" and c: "make_task (t\<lparr>t_status := st,
      t_waiting_on := w, t_current_summary := cs, t_next_action := na, t_priority := p,
      t_due_at := d, t_revision := revn, t_updated_at := now\<rparr>) = Inr c"
    using assms by (auto simp: candidate_from_row_def op_ok)
  from t show "db' = db" by (rule task_from_row_ok)
  show "t_status c = st" "t_waiting_on c = w" "t_current_summary c = map_option py_strip cs"
    "t_next_action c = map_option py_strip na" "t_priority c = p" "t_due_at c = d"
    "t_current_summary c \<noteq> Some []" "t_next_action c \<noteq> Some []" "-100 \<le> p" "p \<le> 100"
    "task_state_ok c"
    using make_task_ok [OF c] by simp_all
qed

lemma advance_step:
  assumes "lease_live now r" and "active_status (r_status r)" and c: "task_state_ok c"
    and "t_status c \<in> {In_Progress, Waiting, Blocked}"
    and "t_status c = Blocked \<longrightarrow> t_next_action c \<noteq> None"
    and "t_current_summary c = Some s" and "text_ok s" and "pred_option text_ok (t_next_action c)"
    and "-100 \<le> t_priority c" and "t_priority c \<le> 100"
  shows "row_step cfg H now r (r\<lparr>r_status := t_status c, r_waiting_on := t_waiting_on c,
     r_current_summary := t_current_summary c, r_next_action := t_next_action c,
     r_priority := t_priority c, r_due_at := t_due_at c, r_revision := r_revision r + 1,
     r_updated_at := now\<rparr>)"
proof -
  have "(t_waiting_on c \<noteq> None) = (t_status c = Waiting)"
    "t_status c = Waiting \<or> t_status c = Blocked \<longrightarrow> t_next_action c \<noteq> None"
    using c assms(5) by (auto simp: task_state_ok_def split: if_splits)
  moreover have "active_status (t_status c)" "t_status c \<noteq> Open"
    using assms(4) by (auto simp: active_status_def)
  ultimately have "row_step cfg H now r ((bump now r)\<lparr>r_status := t_status c,
      r_waiting_on := t_waiting_on c, r_current_summary := Some s,
      r_next_action := t_next_action c, r_priority := t_priority c, r_due_at := t_due_at c\<rparr>)"
    using assms by (intro row_step.advance)
  then show ?thesis by (rule row_step_eqI) (cases r, simp add: row_eqs assms(6))
qed

lemma optional_text:
  assumes "(if b then bind (value_op (nonempty v name)) (\<lambda>a. ret (Some a)) else ret v) db = (db', Inr w)"
  shows "db' = db" and "b \<Longrightarrow> w \<noteq> None" and "w = v \<or> w = map_option py_strip v"
  using assms by (auto simp: op_ok nonempty_ok split: if_splits)

lemma optional_text_state:
  "fst ((if b then bind (value_op (nonempty v name)) (\<lambda>a. ret (Some a)) else ret v) db) = db"
  by (cases "nonempty v name") (simp_all add: op_defs value_op_def)

lemma advance_reach:
  assumes cand: "candidate_from_row cfg r st w (Some s) na p d (n + 1) now db = (db1, Inr c)"
    and run: "update_and_log k (\<lambda>r. r\<lparr>r_status := t_status c, r_waiting_on := t_waiting_on c,
        r_current_summary := t_current_summary c, r_next_action := t_next_action c,
        r_priority := t_priority c, r_due_at := t_due_at c, r_revision := n + 1,
        r_updated_at := now\<rparr>)
      (insert_activity k kind au ex se (Some (r_status r)) (Some st) sm md (n + 1) now) db
      = (db', Inr x)"
    and keys: "keys_ok db" and r: "find_task k db = Some r" and l: "lease_matches l n now r"
    and act: "active_status (r_status r)" and st: "st \<in> {In_Progress, Waiting, Blocked}"
    and na: "st = Blocked \<longrightarrow> na \<noteq> None" and s: "text_ok s"
  shows "reach cfg H now k db db'"
proof -
  note c = candidate_ok [OF cand]
  have n: "n = r_revision r" and live: "lease_live now r" using l by (simp_all add: lease_matches_def)
  have "pred_option text_ok (t_next_action c)"
    using c(5,9) by (cases na) (auto simp: text_ok_def)
  moreover have "t_current_summary c = Some s" using c(4) s by (simp add: text_ok_def)
  moreover have "t_status c = Blocked \<longrightarrow> t_next_action c \<noteq> None" using c(2,5) na by simp
  ultimately show ?thesis
    using c(2,6,10-12) st s n
    by (intro log_reach [OF run keys r advance_step [OF live act, folded n]]) simp_all
qed

lemma transition_reach:
  assumes keys: "keys_ok db" and st: "st \<in> {In_Progress, Waiting, Blocked}"
  shows "reach cfg H now k db (fst (transition_impl cfg now k l n kind st cs na w au ex p d cd db))"
  unfolding transition_impl_def Let_def update_and_log_def [symmetric]
proof (rule value_opI, simp, rule final_bind_read, rule optional_text_state, simp,
    rule final_atomic_bind, goal_cases)
  case (3 s na' t x)
  then have s: "text_ok s" and blocked: "st = Blocked \<longrightarrow> na' \<noteq> None"
    using optional_text(2) [OF 3(2)] by (auto simp: nonempty_ok text_ok_def)
  from 3(3) show ?case
    unfolding op_ok required_leased_row_ok
    by clarify (frule candidate_ok(1), simp only:,
      rule advance_reach [OF _ _ keys _ _ _ st blocked s], assumption+)
qed (simp_all add: task_from_row_state)

subsection \<open>Tags\<close>

lemma sql_update_revision:
  assumes "keys_ok db" and "find_task k db = Some r" and "r_revision r = n"
  shows "sql_update_tasks (\<lambda>r. r_id r = k \<and> r_revision r = n) f db = sql_update_task k f db"
  unfolding sql_update_tasks_def
proof (rule tasks.update_where_cong)
  fix x
  assume "x \<in> set (task_rows db)"
  then show "(r_id x = k \<and> r_revision x = n) = (r_id x = k)"
    using assms find_row_mem [of r_id "task_rows db" x] by (auto simp: keys_ok_def find_task_def)
qed

lemma retag_reach:
  assumes keys: "keys_ok db" and r: "find_task k db = Some r" and l: "lease_matches l n now r"
    and tags: "tags_ok tags"
    and up: "sql_update_tasks (\<lambda>r. r_id r = k \<and> r_revision r = n)
        (\<lambda>r. r\<lparr>r_revision := n + 1, r_updated_at := now\<rparr>) db = (db1, Inr u)"
    and ins: "sql_insert_tags k tags (db1\<lparr>tag_rows := filter (\<lambda>p. fst p \<noteq> k) (tag_rows db1)\<rparr>)
        = (db2, Inr v)"
    and log: "insert_activity k kind au ex se (Some (r_status r)) (Some (r_status r)) sm md (n + 1) now
        db2 = (db3, Inr w)"
  shows "reach cfg H now k db db3"
proof -
  have n: "n = r_revision r" and live: "lease_live now r" using l by (simp_all add: lease_matches_def)
  have b: "bump now r = r\<lparr>r_revision := n + 1, r_updated_at := now\<rparr>" by (simp add: bump_def n)
  from up have c: "task_row_check (bump now r)"
    and db1: "db1 = db\<lparr>task_rows := update_row r_id k (\<lambda>_. bump now r) (task_rows db)\<rparr>"
    unfolding sql_update_revision [OF keys r n [symmetric]] sql_update_task_ok [OF keys r]
    by (simp_all add: b)
  from ins have db2: "db2 = put_tags k tags db1"
    by (auto simp: sql_insert_tags_def op_ok put_tags_def)
  from log have "db3 = put_tags k tags (put_row k (bump now r)
     [activity_of (activity_seq db + 1) k kind au ex se (Some (r_status r)) (Some (r_status r))
        sm md (n + 1) now] db)"
    by (auto simp: insert_activity_ok db2 db1 put_tags_def put_row_def add_activity_def)
  then show ?thesis
    using db_step.retag [OF r live tags c stamped_one] n by (auto simp: activity_of_def)
qed

lemma update_tags_reach:
  assumes keys: "keys_ok db" and tags: "tags_ok tags"
  shows "reach cfg H now k db (fst (update_tags_impl cfg now k tags l n au ex db))"
  unfolding update_tags_impl_def Let_def
proof (rule final_atomic, simp, goal_cases)
  case (1 t x)
  then show ?case
    unfolding op_ok required_leased_row_ok
    by clarify (split if_splits,
      auto simp: op_ok required_row_ok dest!: value_lift_ok intro!: retag_reach [OF keys _ _ tags])
qed

subsection \<open>Creation\<close>

lemma new_task_ok:
  assumes "new_task cfg now u title obj clo mode p d tags = Inr t"
  shows "row_to_task cfg (new_row t now) (t_tags t) None = t" "task_id_re (t_id t)"
    "make_task t = Inr t" "t_status t = Open" "tags_ok (t_tags t)"
proof -
  note t = make_task_ok [OF assms [unfolded new_task_def]]
  show "task_id_re (t_id t)" "t_status t = Open" "make_task t = Inr t"
    using t(7,21) make_task_fix [OF assms [unfolded new_task_def]] by simp_all
  show "tags_ok (t_tags t)" using t(20) by (rule canonicalize_ok)
  show "row_to_task cfg (new_row t now) (t_tags t) None = t"
    using t by (cases t) (simp add: row_to_task_def new_row_def)
qed

lemma create_reach:
  "reach cfg H now (py_strip (''task_'' @ u)) db (fst (create_task_impl cfg now u title obj clo mode au ex se p d tags db))"
  unfolding create_task_impl_def
proof (rule value_opI, simp, rule final_atomic_bind, goal_cases)
  case (3 task t x)
  note task = new_task_ok [OF 3(1)]
  have k: "t_id task = py_strip (''task_'' @ u)"
    using make_task_ok(1) [OF 3(1) [unfolded new_task_def]] by simp
  let ?r = "new_row task now"
  let ?a = "activity_of (activity_seq db + 1) (t_id task) K_Created au ex se None (Some Open)
    ''Durable task created'' (JObj []) 1 now"
  have absent: "find_task (t_id task) db = None" and ok: "task_row_check ?r"
    and t: "t = db\<lparr>task_rows := task_rows db @ [?r], activity_rows := activity_rows db @ [?a],
      activity_seq := activity_seq db + 1,
      tag_rows := tag_rows db @ map (Pair (t_id task)) (t_tags task)\<rparr>"
    using 3(2)
    by (auto simp: op_ok sql_insert_task_def tasks.insert_ok insert_activity_ok sql_insert_tags_def
        add_activity_def find_task_def new_row_def)
  have "db_step cfg H now (t_id task) db t"
    unfolding t using absent ok task stamped_one [of "t_id task" now 1 "activity_seq db"]
    by (intro db_step.create) (simp_all add: new_row_def activity_of_def)
  then show ?case unfolding k by blast
qed (simp_all add: ret_def)

subsection \<open>Session cleanup\<close>

definition checks_ok :: "task_db \<Rightarrow> bool" where
  "checks_ok db \<longleftrightarrow> keys_ok db \<and> list_all task_row_check (task_rows db)"

lemma held_live: "task_row_check r \<Longrightarrow> held_by now s r \<Longrightarrow> lease_live now r"
  by (auto simp: held_by_def lease_live_def task_row_check_def lease_columns_check_def)

lemma release_one_ok:
  assumes "keys_ok db" and "find_task (r_id r) db = Some r" and "lease_live now r"
    and "release_one now s r db = (db', Inr x)"
  shows "db_step cfg H now (r_id r) db db'" and "x = r_id r" and "keys_ok db'"
    and "\<And>j. j \<noteq> r_id r \<Longrightarrow> find_task j db' = find_task j db"
    and "find_task (r_id r) db' = Some (drop_lease (bump now r))"
proof -
  let ?r = "drop_lease (bump now r)"
  let ?a = "activity_of (activity_seq db + 1) (r_id r) K_Released System_Recovery
    ''session_cleanup'' (Some s) (Some (r_status r)) (Some (r_status ?r))
    ''Lease released during session cleanup''
    (JObj [(''lease_epoch'', JInt (r_lease_epoch r))]) (r_revision r + 1) now"
  have c: "task_row_check ?r" and db': "db' = put_row (r_id r) ?r [?a] db" and "x = r_id r"
    using assms(4) sql_update_task_ok [OF assms(1,2)]
    by (auto simp: release_one_def Let_def op_ok insert_activity_ok put_row_one row_eqs)
  then show "x = r_id r" by simp
  show "db_step cfg H now (r_id r) db db'"
    unfolding db' using row_step.release [OF assms(3), of cfg H]
    by (rule change_one [OF assms(2) _ c]) (simp add: row_eqs)
  show "keys_ok db'" using assms(1) by (simp add: db' put_row_def keys_ok_def keys_put_row row_eqs)
  have "find_task j db' = (if j = r_id r then Some ?r else find_task j db)" for j
    using assms(2) unfolding db' put_row_def find_task_def
    by (simp add: find_put_row row_eqs)
  then show "\<And>j. j \<noteq> r_id r \<Longrightarrow> find_task j db' = find_task j db"
    and "find_task (r_id r) db' = Some ?r" by simp_all
qed

lemma each_release_ok:
  assumes "each (release_one now s) rows db = (db', Inr xs)" and "keys_ok db"
    and "distinct (map r_id rows)"
    and "\<And>r. r \<in> set rows \<Longrightarrow> find_task (r_id r) db = Some r \<and> lease_live now r"
  shows "reach_any cfg H now db db' \<and> xs = map r_id rows \<and> (\<forall>j. find_task j db' =
    (if j \<in> r_id ` set rows then map_option (\<lambda>r. drop_lease (bump now r)) (find_task j db)
     else find_task j db))"
  using assms
proof (induction rows arbitrary: db xs)
  case Nil
  then show ?case by (simp add: op_ok)
next
  case (Cons r rows)
  from Cons.prems(1) obtain db1 x ys where one: "release_one now s r db = (db1, Inr x)"
    and rest: "each (release_one now s) rows db1 = (db', Inr ys)" and xs: "xs = x # ys"
    by (auto simp: op_ok)
  have r: "find_task (r_id r) db = Some r" "lease_live now r" using Cons.prems(4) by auto
  note ok = release_one_ok [OF Cons.prems(2) r one]
  have "find_task (r_id r') db1 = Some r' \<and> lease_live now r'" if "r' \<in> set rows" for r'
    using that Cons.prems(3,4) ok(4) by (metis distinct.simps(2) image_eqI list.set_intros(2)
        list.simps(9) set_map)
  from Cons.IH [OF rest ok(3) _ this] Cons.prems(3)
  have ih: "reach_any cfg H now db1 db'" "ys = map r_id rows"
    "\<And>j. find_task j db' =
      (if j \<in> r_id ` set rows then map_option (\<lambda>r. drop_lease (bump now r)) (find_task j db1)
       else find_task j db1)" by auto
  have "find_task j db' = (if j \<in> r_id ` set (r # rows)
      then map_option (\<lambda>r. drop_lease (bump now r)) (find_task j db) else find_task j db)" for j
    using ih(3) [of j] ok(4) [of j] ok(5) r(1) Cons.prems(3) by (cases "j = r_id r") auto
  moreover have "any_step cfg H now db db1" using ok(1) [of cfg H] by (auto simp: any_step_def)
  then have "reach_any cfg H now db db'" using ih(1) by (rule converse_rtranclp_into_rtranclp)
  ultimately show ?case using ok(2) ih(2) xs by simp
qed

lemma held_rows:
  assumes "checks_ok db" and "r \<in> set (filter (held_by now s) (task_rows db))"
  shows "find_task (r_id r) db = Some r \<and> lease_live now r"
  using assms held_live by (auto simp: checks_ok_def keys_ok_def find_task_def list_all_iff
      intro: find_row_mem)

lemma release_session_ok:
  assumes "checks_ok db" and "release_session_leases_impl now s db = (db', Inr xs)"
  shows "reach_any cfg H now db db' \<and> xs = map r_id (filter (held_by now s) (task_rows db))
    \<and> (\<forall>j. find_task j db' = (if j \<in> set xs
         then map_option (\<lambda>r. drop_lease (bump now r)) (find_task j db) else find_task j db))"
proof -
  have "distinct (map r_id (filter (held_by now s) (task_rows db)))" and "keys_ok db"
    using assms(1) by (simp_all add: checks_ok_def keys_ok_def distinct_map_filter)
  moreover have "each (release_one now s) (filter (held_by now s) (task_rows db)) db = (db', Inr xs)"
    using assms(2) by (simp add: release_session_leases_impl_def op_ok)
  ultimately have *: "reach_any cfg H now db db' \<and> xs = map r_id (filter (held_by now s) (task_rows db))
    \<and> (\<forall>j. find_task j db' = (if j \<in> r_id ` set (filter (held_by now s) (task_rows db))
         then map_option (\<lambda>r. drop_lease (bump now r)) (find_task j db) else find_task j db))"
    using held_rows [OF assms(1)] by (intro each_release_ok)
  then have "set xs = r_id ` set (filter (held_by now s) (task_rows db))" by simp
  with * show ?thesis by (simp only: simp_thms)
qed

lemma release_session_reach:
  assumes "checks_ok db"
  shows "reach_any cfg H now db (fst (release_session_leases_impl now s db))"
proof (cases rule: op_cases [of "release_session_leases_impl now s" db])
  case (ok db' xs)
  with release_session_ok [OF assms ok] show ?thesis by simp
next
  case (err db' e)
  then have "db' = db" by (auto simp: release_session_leases_impl_def atomic_err)
  with err show ?thesis by simp
qed

section \<open>Calls\<close>

text \<open>The public operations that write, as data: one constructor per coroutine.\<close>

datatype task_call =
    Create string string string string task_execution_mode task_authority string "string option"
      int "instant option" "string list"
  | Update_Tags string "string list" task_lease int task_authority string
  | Claim string string string task_authority string "int option"
  | Renew string task_lease int task_authority string
  | Progress string task_lease int string "string option" task_authority string "int option"
      "instant option" bool
  | Wait string task_lease int task_waiting_on string string task_authority string
      "instant option" bool
  | Block string task_lease int string string task_authority string
  | Complete string task_lease int string task_authority string
  | Cancel string task_lease int string task_authority string
  | Reopen string string task_authority string "string option"
  | Release string task_lease int task_authority string string
  | Record_Artifact string task_lease int bool string string nat task_authority string
  | Mutate_Artifact string task_lease int task_authority string
      "task_error + task_artifact_entry \<times> bool"
  | Release_Session string

definition outcome :: "('s, 'e, 'a) op \<Rightarrow> 's \<Rightarrow> 's \<times> 'e option" where
  "outcome m s = (fst (m s), case snd (m s) of Inl e \<Rightarrow> Some e | Inr _ \<Rightarrow> None)"

fun call_outcome ::
  "task_cfg \<Rightarrow> instant \<Rightarrow> task_call \<Rightarrow> task_db \<Rightarrow> task_db \<times> task_error option" where
  "call_outcome cfg now (Create u title obj clo mode au ex se p d tags) =
     outcome (task_create cfg now u title obj clo mode au ex se p d tags)"
| "call_outcome cfg now (Update_Tags k tags l n au ex) =
     outcome (task_update_tags cfg now k tags l n au ex)"
| "call_outcome cfg now (Claim u k h au ex v) = outcome (task_claim cfg now u k h au ex v)"
| "call_outcome cfg now (Renew k l n au ex) = outcome (task_renew cfg now k l n au ex)"
| "call_outcome cfg now (Progress k l n cs na au ex p d cd) =
     outcome (task_progress cfg now k l n cs na au ex p d cd)"
| "call_outcome cfg now (Wait k l n w cs na au ex d cd) =
     outcome (task_wait cfg now k l n w cs na au ex d cd)"
| "call_outcome cfg now (Block k l n cs na au ex) = outcome (task_block cfg now k l n cs na au ex)"
| "call_outcome cfg now (Complete k l n sm au ex) = outcome (task_complete cfg now k l n sm au ex)"
| "call_outcome cfg now (Cancel k l n sm au ex) = outcome (task_cancel cfg now k l n sm au ex)"
| "call_outcome cfg now (Reopen k reason au ex se) = outcome (task_reopen cfg now k reason au ex se)"
| "call_outcome cfg now (Release k l n au ex sm) = outcome (task_release cfg now k l n au ex sm)"
| "call_outcome cfg now (Record_Artifact k l n c path sha sz au ex) =
     outcome (task_record_artifact_activity cfg now k l n c path sha sz au ex)"
| "call_outcome cfg now (Mutate_Artifact k l n au ex r) =
     outcome (task_mutate_artifact cfg now k l n au ex r)"
| "call_outcome cfg now (Release_Session s) = outcome (task_release_session_leases now s)"

definition exec_call :: "task_cfg \<Rightarrow> instant \<Rightarrow> task_call \<Rightarrow> task_db \<Rightarrow> task_db" where
  "exec_call cfg now c db = fst (call_outcome cfg now c db)"

lemmas final_defs = exec_call_def outcome_def

lemma with_id_reach:
  assumes "reach cfg H now k db (fst (f k db))"
  shows "reach cfg H now k db (fst (with_task_id k f db))"
  unfolding with_task_id_def by (rule value_opI) (auto simp: validate_task_id_ok assms)

lemma create_call_reach:
  "reach cfg H now (py_strip (''task_'' @ u)) db (fst (task_create cfg now u title obj clo mode au ex se p d tags db))"
  unfolding task_create_def by (rule value_opI, simp) (rule create_reach)

lemma tags_call_reach:
  "keys_ok db \<Longrightarrow> reach cfg H now k db (fst (task_update_tags cfg now k tags l n au ex db))"
  unfolding task_update_tags_def
  by (rule with_id_reach, rule value_opI) (simp_all add: update_tags_reach canonicalize_ok)

text \<open>The task a call is about; session cleanup is about all tasks of a session.\<close>

fun target :: "task_call \<Rightarrow> string option" where
  "target (Create u title obj clo mode au ex se p d tags) = Some (py_strip (''task_'' @ u))"
| "target (Update_Tags k tags l n au ex) = Some k"
| "target (Claim u k h au ex v) = Some k"
| "target (Renew k l n au ex) = Some k"
| "target (Progress k l n cs na au ex p d cd) = Some k"
| "target (Wait k l n w cs na au ex d cd) = Some k"
| "target (Block k l n cs na au ex) = Some k"
| "target (Complete k l n sm au ex) = Some k"
| "target (Cancel k l n sm au ex) = Some k"
| "target (Reopen k reason au ex se) = Some k"
| "target (Release k l n au ex sm) = Some k"
| "target (Record_Artifact k l n c path sha sz au ex) = Some k"
| "target (Mutate_Artifact k l n au ex r) = Some k"
| "target (Release_Session s) = None"

text \<open>The session a call makes the holder of a lease.\<close>

fun claims_for :: "task_call \<Rightarrow> string set" where
  "claims_for (Claim u k h au ex v) = {h}"
| "claims_for c = {}"

lemmas public_defs = task_claim_def task_renew_def task_progress_def task_wait_def task_block_def
  task_complete_def task_cancel_def task_reopen_def task_release_def
  task_record_artifact_activity_def task_mutate_artifact_def task_release_session_leases_def

lemma target_reach:
  "keys_ok db \<Longrightarrow> claims_for c \<subseteq> H \<Longrightarrow> target c = Some k \<Longrightarrow> reach cfg H now k db (exec_call cfg now c db)"
  by (cases c) (auto simp: final_defs public_defs create_call_reach [simplified] tags_call_reach
      intro!: with_id_reach claim_reach
      renew_reach transition_reach terminal_reach reopen_reach release_reach record_artifact_reach
      mutate_artifact_reach)

lemma exec_call_steps:
  "checks_ok db \<Longrightarrow> claims_for c \<subseteq> H \<Longrightarrow> reach_any cfg H now db (exec_call cfg now c db)"
proof (cases "target c")
  case None
  moreover assume "checks_ok db"
  ultimately show ?thesis
    by (cases c) (simp_all add: final_defs task_release_session_leases_def release_session_reach)
next
  case (Some k)
  moreover assume "checks_ok db"
  moreover assume "claims_for c \<subseteq> H"
  ultimately show ?thesis by (intro reach_any target_reach) (simp_all add: checks_ok_def)
qed

end
