(* ===== verification/Task_Invariants.thy ===== *)
theory Task_Invariants
  imports Task_Lifecycle
begin

text \<open>
  Invariants of the durable task store.  Each is proved for the abstract steps of \<open>Task_Lifecycle\<close>
  and so holds after every sequence of public calls, at any instants, including the calls that
  raise.
\<close>

section \<open>Histories of calls\<close>

type_synonym history = "(instant \<times> task_call) list"

definition run_calls :: "task_cfg \<Rightarrow> history \<Rightarrow> task_db \<Rightarrow> task_db" where
  "run_calls cfg cs db = fold (\<lambda>(now, c). exec_call cfg now c) cs db"

lemma run_calls_simps [simp]:
  "run_calls cfg [] db = db"
  "run_calls cfg ((now, c) # cs) db = run_calls cfg cs (exec_call cfg now c db)"
  by (simp_all add: run_calls_def)

lemma run_calls_append:
  "run_calls cfg (cs @ ds) db = run_calls cfg ds (run_calls cfg cs db)"
  by (simp add: run_calls_def)

lemma reach_any_induct:
  assumes "reach_any cfg H now db db'" and "P db"
    and "\<And>k d d'. db_step cfg H now k d d' \<Longrightarrow> P d \<Longrightarrow> P d'"
  shows "P db'"
  using assms by (induction rule: rtranclp_induct) (auto simp: any_step_def)

section \<open>Keys and column constraints\<close>

lemma row_step_id: "row_step cfg H now r r' \<Longrightarrow> r_id r' = r_id r"
  by (auto elim!: row_stepE simp: row_eqs)

lemma task_rows_put [simp]:
  "task_rows (put_row k r' acts db) = update_row r_id k (\<lambda>_. r') (task_rows db)"
  "activity_rows (put_row k r' acts db) = activity_rows db @ acts"
  "activity_seq (put_row k r' acts db) = activity_seq db + length acts"
  "tag_rows (put_row k r' acts db) = tag_rows db"
  "task_rows (put_tags k tags db) = task_rows db"
  "activity_rows (put_tags k tags db) = activity_rows db"
  "activity_seq (put_tags k tags db) = activity_seq db"
  by (simp_all add: put_row_def put_tags_def)

lemma find_put_task [simp]:
  "find_task k db = Some r \<Longrightarrow> r_id r' = k \<Longrightarrow>
     find_task j (put_row k r' acts db) = (if j = k then Some r' else find_task j db)"
  "find_task j (put_tags k tags db) = find_task j db"
  by (simp_all add: find_task_def find_put_row)

lemma bump_simps [simp]:
  "r_id (bump now r) = r_id r" "r_status (bump now r) = r_status r"
  "r_revision (bump now r) = r_revision r + 1" "r_lease_epoch (bump now r) = r_lease_epoch r"
  "r_id (drop_lease r) = r_id r" "r_status (drop_lease r) = r_status r"
  "r_revision (drop_lease r) = r_revision r" "r_lease_epoch (drop_lease r) = r_lease_epoch r"
  by (simp_all add: row_eqs)

lemma checks_put:
  "checks_ok db \<Longrightarrow> r_id r' = k \<Longrightarrow> task_row_check r' \<Longrightarrow> checks_ok (put_row k r' acts db)"
  by (auto simp: checks_ok_def keys_ok_def keys_put_row list_all_iff dest: set_put_row)

lemma checks_tags [simp]: "checks_ok (put_tags k tags db) = checks_ok db"
  by (simp add: checks_ok_def keys_ok_def)

lemma db_step_checks: "db_step cfg H now k db db' \<Longrightarrow> checks_ok db \<Longrightarrow> checks_ok db'"
proof (induction rule: db_step.induct)
  case (create db r tags a)
  then show ?case
    by (auto simp: checks_ok_def keys_ok_def find_task_def find_row_None)
next
  case (change db r r' acts)
  then show ?case using row_step_id find_task_id by (intro checks_put) auto
next
  case (retag db r tags acts)
  then show ?case using find_task_id by (simp add: checks_put)
qed

lemma exec_call_checks: "checks_ok db \<Longrightarrow> checks_ok (exec_call cfg now c db)"
  by (rule reach_any_induct [OF exec_call_steps [OF _ subset_UNIV]]) (auto intro: db_step_checks)

lemma empty_checks [simp]: "checks_ok empty_task_db"
  by (simp add: checks_ok_def keys_ok_def empty_task_db_def)

lemma run_calls_checks: "checks_ok db \<Longrightarrow> checks_ok (run_calls cfg cs db)"
  by (induction cs arbitrary: db) (auto simp: exec_call_checks)

text \<open>An invariant of the steps is an invariant of every history.\<close>

lemma exec_call_invariant:
  assumes "checks_ok db" and "P db" and "claims_for c \<subseteq> H"
    and "\<And>k d d'. db_step cfg H now k d d' \<Longrightarrow> checks_ok d \<Longrightarrow> P d \<Longrightarrow> P d'"
  shows "P (exec_call cfg now c db)"
proof -
  have "checks_ok (exec_call cfg now c db) \<and> P (exec_call cfg now c db)"
    by (rule reach_any_induct [OF exec_call_steps [OF assms(1,3)]])
      (auto simp: assms(1,2) intro: assms(4) db_step_checks)
  then show ?thesis ..
qed

lemma run_calls_invariant:
  assumes "checks_ok db" and "P db"
    and "\<And>now k d d'. db_step cfg UNIV now k d d' \<Longrightarrow> checks_ok d \<Longrightarrow> P d \<Longrightarrow> P d'"
  shows "P (run_calls cfg cs db)"
  using assms(1,2)
proof (induction cs arbitrary: db)
  case (Cons nc cs)
  obtain now c where nc: "nc = (now, c)" by (cases nc)
  have "P (exec_call cfg now c db)"
    by (rule exec_call_invariant [where P = P, OF Cons.prems subset_UNIV]) (rule assms(3))
  then show ?case by (simp add: nc Cons.IH Cons.prems exec_call_checks)
qed simp

section \<open>Revisions and the audit trail\<close>

definition records :: "string \<Rightarrow> task_db \<Rightarrow> activity_row list" where
  "records k db = filter (\<lambda>a. ar_task_id a = k) (activity_rows db)"

text \<open>
  The records of a task form its complete history: they lead from the creation to the present
  status, there is one for every revision up to the present one and none for a later one.
\<close>

definition audited :: "task_row \<Rightarrow> activity_row list \<Rightarrow> bool" where
  "audited r acts \<longleftrightarrow>
     (case acts of [] \<Rightarrow> False
      | a # rest \<Rightarrow> ar_from_status a = None \<and> ar_to_status a = Some Open
          \<and> trail Open rest (r_status r))
   \<and> sorted (map ar_task_revision acts) \<and> set (map ar_task_revision acts) = {1..r_revision r}"

definition audit_ok :: "task_db \<Rightarrow> bool" where
  "audit_ok db \<longleftrightarrow> map ar_id (activity_rows db) = [1..<activity_seq db + 1]
     \<and> (\<forall>a \<in> set (activity_rows db). find_task (ar_task_id a) db \<noteq> None)
     \<and> (\<forall>k r. find_task k db = Some r \<longrightarrow> audited r (records k db))"

lemma trail_append: "trail s (as @ bs) t \<longleftrightarrow> (\<exists>u. trail s as u \<and> trail u bs t)"
  by (induction s as t rule: trail.induct) (auto split: option.splits)

lemma row_step_revision: "row_step cfg H now r r' \<Longrightarrow> r_revision r' = r_revision r + 1"
  by (auto elim!: row_stepE simp: row_eqs)

lemma stamped_records:
  "stamped k now v n acts \<Longrightarrow> filter (\<lambda>a. ar_task_id a = j) acts = (if j = k then acts else [])"
  by (auto simp: stamped_def list_all_iff filter_empty_conv)

lemma stamped_revisions: "stamped k now v n acts \<Longrightarrow> map ar_task_revision acts = replicate (length acts) v"
  by (simp add: stamped_def list_all_iff map_replicate_const [symmetric] cong: map_cong)

lemma stamped_ids: "stamped k now v n acts \<Longrightarrow> map ar_id acts = [n + 1..<n + 1 + length acts]"
  by (simp add: stamped_def)

lemma audited_extend:
  assumes "audited r acts0" and "stamped k now (r_revision r + 1) n acts"
    and "trail (r_status r) acts (r_status r')" and "r_revision r' = r_revision r + 1"
    and "1 \<le> r_revision r"
  shows "audited r' (acts0 @ acts)"
proof -
  from assms(2) have ne: "length acts \<noteq> 0" by (auto simp: stamped_def)
  from assms(1) obtain a rest where a: "acts0 = a # rest" by (cases acts0) (auto simp: audited_def)
  have "sorted (map ar_task_revision (acts0 @ acts))"
    using assms(1) unfolding map_append stamped_revisions [OF assms(2)]
    by (auto simp: audited_def sorted_append)
  moreover have "set (map ar_task_revision (acts0 @ acts)) = {1..r_revision r'}"
    using assms(1,4,5) ne unfolding map_append stamped_revisions [OF assms(2)]
    by (auto simp: audited_def)
  ultimately show ?thesis using assms(1,3) by (auto simp: audited_def a trail_append)
qed

lemma upt_extend: "[1..<n + 1] @ [n + 1..<n + 1 + m] = [1..<n + m + 1]"
  by (metis add.assoc add.commute le_add2 upt_add_eq_append)

lemma audit_extend:
  assumes ok: "audit_ok db" and r: "find_task k db = Some r" and "r_id r' = k"
    and st: "stamped k now (r_revision r + 1) (activity_seq db) acts"
    and "trail (r_status r) acts (r_status r')" and "r_revision r' = r_revision r + 1"
    and "1 \<le> r_revision r"
  shows "audit_ok (put_row k r' acts db)"
proof -
  have "map ar_id (activity_rows (put_row k r' acts db)) = [1..<activity_seq (put_row k r' acts db) + 1]"
    using ok stamped_ids [OF st] by (simp add: audit_ok_def upt_extend [simplified])
  moreover have "find_task (ar_task_id a) (put_row k r' acts db) \<noteq> None"
    if "a \<in> set (activity_rows (put_row k r' acts db))" for a
    using that ok st r assms(3) by (auto simp: audit_ok_def stamped_def list_all_iff)
  moreover have "audited q (records j (put_row k r' acts db))"
    if "find_task j (put_row k r' acts db) = Some q" for j q
    using that ok r assms(3) audited_extend [OF _ st assms(5-7)]
    by (auto simp: audit_ok_def records_def stamped_records [OF st] split: if_splits)
  ultimately show ?thesis by (simp add: audit_ok_def)
qed

lemma audit_tags [simp]: "audit_ok (put_tags k tags db) = audit_ok db"
  by (simp add: audit_ok_def records_def)

lemma checks_row: "checks_ok db \<Longrightarrow> find_task k db = Some r \<Longrightarrow> task_row_check r"
  by (auto simp: checks_ok_def list_all_iff dest: find_task_mem)

lemma db_step_audit: "db_step cfg H now k db db' \<Longrightarrow> checks_ok db \<Longrightarrow> audit_ok db \<Longrightarrow> audit_ok db'"
proof (induction rule: db_step.induct)
  case (create db r tags a)
  then have "filter (\<lambda>a. ar_task_id a = k) (activity_rows db) = []"
    by (auto simp: audit_ok_def filter_empty_conv)
  then show ?case
    using create
    by (auto simp: audit_ok_def records_def stamped_def find_task_def find_row_append audited_def
        split: if_splits option.splits)
next
  case (change db r r' acts)
  then show ?case
    using row_step_id row_step_revision find_task_id checks_row
    by (intro audit_extend) (auto simp: task_row_check_def)
next
  case (retag db r tags acts)
  then show ?case
    using find_task_id checks_row by (auto simp: task_row_check_def intro!: audit_extend)
qed

lemma audit_empty [simp]: "audit_ok empty_task_db"
  by (simp add: audit_ok_def empty_task_db_def find_task_def)

section \<open>Tags\<close>

definition tags_inv :: "task_db \<Rightarrow> bool" where
  "tags_inv db \<longleftrightarrow> (\<forall>k. tags_ok (map snd (filter (\<lambda>p. fst p = k) (tag_rows db))))
     \<and> (\<forall>p \<in> set (tag_rows db). find_task (fst p) db \<noteq> None)"

lemma tags_ok_Nil [simp]: "tags_ok []"
  by (simp add: tags_ok_def)

lemma filter_pairs [simp]:
  "filter (\<lambda>p. fst p = j) (map (Pair k) tags) = (if j = k then map (Pair k) tags else [])"
  by (induction tags) auto

lemma map_snd_Pair [simp]: "map snd (map (Pair k) tags) = tags"
  by (induction tags) auto

lemma filter_other: "filter (\<lambda>p. fst p = j \<and> fst p \<noteq> k) ps = (if j = k then [] else filter (\<lambda>p. fst p = j) ps)"
  by (induction ps) auto

lemma db_step_tags: "db_step cfg H now k db db' \<Longrightarrow> tags_inv db \<Longrightarrow> tags_inv db'"
proof (induction rule: db_step.induct)
  case (create db r tags a)
  then have none: "filter (\<lambda>p. fst p = k) (tag_rows db) = []"
    by (auto simp: tags_inv_def filter_empty_conv)
  have "tags_ok tags"
    using make_task_ok(20) [OF create(10)] by (auto simp: row_to_task_def intro: canonicalize_ok)
  then show ?case
    using create none by (auto simp: tags_inv_def find_task_def find_row_append comp_def split: option.splits)
next
  case (change db r r' acts)
  then show ?case using row_step_id find_task_id by (auto simp: tags_inv_def)
next
  case (retag db r tags acts)
  then show ?case using find_task_id
    by (auto simp: tags_inv_def put_tags_def filter_other comp_def conj_commute)
qed

lemma tags_of_ok: "tags_inv db \<Longrightarrow> tags_ok (tags_of k db)"
proof -
  assume "tags_inv db"
  then have ok: "tags_ok (map snd (filter (\<lambda>p. fst p = k) (tag_rows db)))" by (auto simp: tags_inv_def)
  then have "tags_of k db = map snd (filter (\<lambda>p. fst p = k) (tag_rows db))"
    by (simp add: tags_of_def tags_ok_def sorted_sort_id)
  with ok show ?thesis by simp
qed

lemma tags_empty [simp]: "tags_inv empty_task_db"
  by (simp add: tags_inv_def empty_task_db_def)

section \<open>Stored rows read back\<close>

text \<open>
  A stored row passes the model validators again.  For the lease this needs holders that are not
  empty and clock readings that do not go back before the acquisition.
\<close>

definition row_good :: "string set \<Rightarrow> instant \<Rightarrow> task_row \<Rightarrow> bool" where
  "row_good H now r \<longleftrightarrow> task_id_re (r_id r) \<and> text_ok (r_title r) \<and> text_ok (r_objective r)
     \<and> text_ok (r_closure_criteria r) \<and> pred_option text_ok (r_current_summary r)
     \<and> pred_option text_ok (r_next_action r) \<and> pred_option text_ok (r_completion_summary r)
     \<and> (\<forall>h. r_lease_holder r = Some h \<longrightarrow> h \<in> H) \<and> r_lease_id r \<noteq> Some []
     \<and> (\<forall>a e. r_lease_acquired_at r = Some a \<longrightarrow> r_lease_expires_at r = Some e \<longrightarrow> a \<le> now \<and> a < e)"

lemma row_good_later: "row_good H now r \<Longrightarrow> now \<le> now' \<Longrightarrow> row_good H now' r"
  by (fastforce simp: row_good_def)

lemma row_step_good:
  assumes "row_step cfg H now r r'" and "row_good H now r" and "0 < c_lease_seconds cfg"
  shows "row_good H now r'"
  using assms
  by (induction rule: row_step.induct) (simp_all add: row_good_def row_eqs seconds_def,
    force simp: lease_live_def split: option.splits)

definition rows_good :: "string set \<Rightarrow> instant \<Rightarrow> task_db \<Rightarrow> bool" where
  "rows_good H now db \<longleftrightarrow> (\<forall>k r. find_task k db = Some r \<longrightarrow> row_good H now r)"

lemma new_row_good:
  assumes "make_task (row_to_task cfg r tags None) = Inr (row_to_task cfg r tags None)"
    and "r_lease_id r = None" and "task_row_check r"
  shows "row_good H now r"
proof -
  have lease: "r_lease_holder r = None" "r_lease_acquired_at r = None"
    using assms(2,3) by (auto simp: task_row_check_def lease_columns_check_def)
  note t = make_task_ok [OF assms(1)]
  show ?thesis
    using t(1,3-5,9,10,13,21,23-28) assms(2) lease
    by (auto simp: row_good_def row_to_task_def text_ok_def pred_option_def)
qed

lemma db_step_good:
  assumes "db_step cfg H now k db db'" and "0 < c_lease_seconds cfg" and "rows_good H now db"
  shows "rows_good H now db'"
  using assms
proof (induction rule: db_step.induct)
  case (create db r tags a)
  then show ?case using new_row_good [OF create(10,6,3)]
    by (auto simp: rows_good_def find_task_def find_row_append split: option.splits if_splits)
next
  case (change db r r' acts)
  then show ?case using row_step_good row_step_id find_task_id
    by (auto simp: rows_good_def)
next
  case (retag db r tags acts)
  then show ?case using row_step_good [OF row_step.touch [OF retag(2)]] find_task_id
    by (auto simp: rows_good_def)
qed

lemma row_reads_back:
  assumes good: "row_good H now r" and "[] \<notin> H" and check: "task_row_check r"
    and tags: "tags_ok (tags_of (r_id r) db)" and "profile_name_re (c_profile cfg)"
  obtains lease where "task_from_row cfg r db = (db, Inr (row_to_task cfg r (tags_of (r_id r) db) lease))"
    "r_lease_id r = None \<and> lease = None
     \<or> r_lease_id r \<noteq> None \<and> (\<exists>l. lease_from_row r = Inr l \<and> lease = Some l)"
proof -
  have opt: "trim_text (r_current_summary r) = Inr (r_current_summary r)"
    "trim_text (r_next_action r) = Inr (r_next_action r)"
    "trim_text (r_completion_summary r) = Inr (r_completion_summary r)"
    using good by (auto simp: trim_text_def row_good_def text_ok_def split: option.splits)
  have req: "trim_required (r_id r) = Inr (r_id r)" "trim_required (r_title r) = Inr (r_title r)"
    "trim_required (r_objective r) = Inr (r_objective r)"
    "trim_required (r_closure_criteria r) = Inr (r_closure_criteria r)"
    "validate_task_id (r_id r) = Inr (r_id r)"
    using good task_id_ne
    by (auto simp: trim_required_ok row_good_def text_ok_def task_id_strip validate_task_id_ok)
  have state: "task_state_ok (row_to_task cfg r (tags_of (r_id r) db) l)" for l
    using check by (auto simp: task_row_check_def status_columns_check_def task_state_ok_def row_to_task_def)
  have make: "make_task (row_to_task cfg r (tags_of (r_id r) db) l)
      = Inr (row_to_task cfg r (tags_of (r_id r) db) l)"
    if "case l of None \<Rightarrow> True | Some l \<Rightarrow> valid_lease l" for l
    using that opt req state [of l] check canonicalize_fix [OF tags] assms(5)
    by (simp add: make_task_def row_to_task_def require_def task_row_check_def)
  show thesis
  proof (cases "r_lease_id r")
    case None
    then show ?thesis using make [of None] by (intro that) (auto simp: task_from_row_def op_defs)
  next
    case (Some i)
    with check obtain h a e where l: "r_lease_holder r = Some h" "r_lease_acquired_at r = Some a"
      "r_lease_expires_at r = Some e" "1 \<le> r_lease_epoch r"
      by (auto simp: task_row_check_def lease_columns_check_def)
    then have "lease_from_row r = Inr \<lparr>lease_id = i, holder_session_id = h, epoch = r_lease_epoch r,
        acquired_at = a, expires_at = e\<rparr>"
      and "valid_lease \<lparr>lease_id = i, holder_session_id = h, epoch = r_lease_epoch r,
        acquired_at = a, expires_at = e\<rparr>"
      using Some good assms(2) by (auto simp: lease_from_row_def valid_lease_def row_good_def)
    then show ?thesis using Some make
      by (intro that) (auto simp: task_from_row_def op_defs value_op_def)
  qed
qed

lemma rows_good_empty [simp]: "rows_good H now empty_task_db"
  by (simp add: rows_good_def empty_task_db_def find_task_def)

lemma rows_good_later: "rows_good H now db \<Longrightarrow> now \<le> now' \<Longrightarrow> rows_good H now' db"
  by (auto simp: rows_good_def intro: row_good_later)

text \<open>A history whose clock does not go back.\<close>

lemma run_calls_good:
  assumes "sorted (map fst cs)" and "\<forall>(now, c) \<in> set cs. claims_for c \<subseteq> H \<and> start \<le> now \<and> now \<le> end'"
    and "0 < c_lease_seconds cfg" and "checks_ok db" and "rows_good H start db" and "start \<le> end'"
  shows "rows_good H end' (run_calls cfg cs db)"
  using assms
proof (induction cs arbitrary: db start)
  case Nil
  then show ?case by (simp add: rows_good_later)
next
  case (Cons nc cs)
  obtain now c where nc: "nc = (now, c)" by (cases nc)
  from Cons.prems have c: "claims_for c \<subseteq> H" "start \<le> now" "now \<le> end'" by (auto simp: nc)
  have "rows_good H now (exec_call cfg now c db)"
    by (rule exec_call_invariant [where P = "rows_good H now", OF Cons.prems(4) _ c(1)])
      (use Cons.prems c in \<open>auto intro: rows_good_later db_step_good\<close>)
  moreover have "\<forall>(t, d) \<in> set cs. claims_for d \<subseteq> H \<and> now \<le> t \<and> t \<le> end'"
    using Cons.prems(1,2) by (auto simp: nc)
  ultimately show ?case
    using Cons.prems c Cons.IH [of now] by (simp add: nc exec_call_checks)
qed

section \<open>Isolation of a live lease\<close>

text \<open>
  A call can change a leased task only if it presents the lease (its identity, holder and epoch)
  or cleans up the holder's session.
\<close>

definition presents :: "task_lease \<Rightarrow> task_row \<Rightarrow> bool" where
  "presents l r \<longleftrightarrow> r_lease_holder r = Some (holder_session_id l)
     \<and> r_lease_id r = Some (lease_id l) \<and> r_lease_epoch r = epoch l"

fun entitled :: "task_call \<Rightarrow> task_row \<Rightarrow> bool" where
  "entitled (Create u title obj clo mode au ex se p d tags) r = False"
| "entitled (Update_Tags k tags l n au ex) r = (r_id r = k \<and> presents l r)"
| "entitled (Claim u k h au ex v) r = False"
| "entitled (Renew k l n au ex) r = (r_id r = k \<and> presents l r)"
| "entitled (Progress k l n cs na au ex p d cd) r = (r_id r = k \<and> presents l r)"
| "entitled (Wait k l n w cs na au ex d cd) r = (r_id r = k \<and> presents l r)"
| "entitled (Block k l n cs na au ex) r = (r_id r = k \<and> presents l r)"
| "entitled (Complete k l n sm au ex) r = (r_id r = k \<and> presents l r)"
| "entitled (Cancel k l n sm au ex) r = (r_id r = k \<and> presents l r)"
| "entitled (Reopen k reason au ex se) r = False"
| "entitled (Release k l n au ex sm) r = (r_id r = k \<and> presents l r)"
| "entitled (Record_Artifact k l n c path sha sz au ex) r = (r_id r = k \<and> presents l r)"
| "entitled (Mutate_Artifact k l n au ex res) r = (r_id r = k \<and> presents l r)"
| "entitled (Release_Session s) r = (r_lease_holder r = Some s)"

lemma db_step_frame: "db_step cfg H now k db db' \<Longrightarrow> j \<noteq> k \<Longrightarrow> find_task j db' = find_task j db"
  by (induction rule: db_step.induct)
    (auto simp: row_step_id find_task_id, auto simp: find_task_def find_row_append split: option.splits)

lemma reach_frame: "reach cfg H now k db db' \<Longrightarrow> j \<noteq> k \<Longrightarrow> find_task j db' = find_task j db"
  by (induction rule: rtranclp_induct) (auto dest: db_step_frame)

lemma value_op_stays: "(\<And>x. fst (f x s) = s) \<Longrightarrow> fst (bind (value_op r) f s) = s"
  by (rule value_opI) simp_all

lemma with_id_stays: "fst (f k db) = db \<Longrightarrow> fst (with_task_id k f db) = db"
  unfolding with_task_id_def by (rule value_opI) (auto simp: validate_task_id_ok)

lemma required_leased_row_fails:
  assumes "find_task k db = Some r" and "\<not> presents l r"
  shows "required_leased_row k l n now db \<noteq> (t, Inr x)"
  using assms by (auto simp: required_leased_row_ok lease_matches_def presents_def)

lemma leased_stays:
  assumes fails: "\<And>t x. required_leased_row k l n now db \<noteq> (t, Inr x)"
  shows "fst (renew_impl cfg now k l n au ex db) = db"
    and "fst (release_impl cfg now k l n au ex sm db) = db"
    and "fst (terminal_impl cfg now k l n st sm au ex db) = db"
    and "fst (transition_impl cfg now k l n kind st cs na w au ex p d cd db) = db"
    and "fst (record_artifact_activity_impl cfg now k l n c path sha sz au ex db) = db"
    and "fst (mutate_artifact_impl cfg now k l n au ex res db) = db"
    and "fst (update_tags_impl cfg now k tags l n au ex db) = db"
proof -
  have read: "fst ((case x of (u, e, c) \<Rightarrow> bind (task_from_row cfg u) (\<lambda>t. ret (t, e, c))) t) = t"
    for x :: "task_row \<times> task_artifact_entry \<times> bool" and t
    using task_from_row_state [of cfg "fst x" t] by (cases x) (auto simp: op_defs split: prod.splits sum.splits)
  show "fst (renew_impl cfg now k l n au ex db) = db"
    unfolding renew_impl_def by (rule atomic_bind_stays) (simp_all add: task_from_row_state bind_ok fails)
  show "fst (release_impl cfg now k l n au ex sm db) = db"
    unfolding release_impl_def
    by (rule value_op_stays, rule atomic_bind_stays) (simp_all add: task_from_row_state bind_ok fails)
  show "fst (terminal_impl cfg now k l n st sm au ex db) = db"
    unfolding terminal_impl_def
    by (rule value_op_stays, rule atomic_bind_stays) (simp_all add: task_from_row_state bind_ok fails)
  show "fst (transition_impl cfg now k l n kind st cs na w au ex p d cd db) = db"
    unfolding transition_impl_def
    by (rule value_op_stays, rule final_bind_read, rule optional_text_state, simp,
        rule atomic_bind_stays) (simp_all add: task_from_row_state bind_ok fails)
  show "fst (record_artifact_activity_impl cfg now k l n c path sha sz au ex db) = db"
    unfolding record_artifact_activity_impl_def
    by (rule atomic_bind_stays) (simp_all add: task_from_row_state bind_ok fails)
  show "fst (mutate_artifact_impl cfg now k l n au ex res db) = db"
    unfolding mutate_artifact_impl_def
    by (rule atomic_bind_stays) (simp_all add: read bind_ok fails)
  show "fst (update_tags_impl cfg now k tags l n au ex db) = db"
    unfolding update_tags_impl_def by (rule atomic_stays) (simp add: bind_ok fails)
qed

lemma unleased_stays:
  assumes r: "find_task k db = Some r" and live: "lease_live now r"
  shows "fst (claim_impl cfg now u k h au ex v db) = db"
    and "fst (reopen_impl cfg now k reason au ex se db) = db"
proof -
  have no: "live_lease r now \<noteq> Inr None" using live by (simp add: live_lease_None)
  show "fst (claim_impl cfg now u k h au ex v db) = db"
    unfolding claim_impl_def
    by (rule atomic_bind_stays) (auto simp: task_from_row_state op_ok required_row_ok r no)
  show "fst (reopen_impl cfg now k reason au ex se db) = db"
    unfolding reopen_impl_def
    by (rule value_op_stays, rule atomic_bind_stays)
      (auto simp: task_from_row_state op_ok required_row_ok r no Let_def)
qed

lemma create_stays:
  assumes "find_task (py_strip (''task_'' @ u)) db \<noteq> None"
  shows "fst (create_task_impl cfg now u title obj clo mode au ex se p d tags db) = db"
  unfolding create_task_impl_def
proof (rule value_opI, simp, rule final_atomic_bind, goal_cases)
  case (3 task t x)
  have "t_id task = py_strip (''task_'' @ u)"
    using make_task_ok(1) [OF 3(1) [unfolded new_task_def]] by simp
  with 3(2) assms show ?case
    by (auto simp: op_ok sql_insert_task_def tasks.insert_ok find_task_def new_row_def)
qed (simp_all add: ret_def)

lemma session_row_stays:
  assumes db: "checks_ok db" and r: "find_task k db = Some r" and no: "r_lease_holder r \<noteq> Some s"
  shows "find_task k (exec_call cfg now (Release_Session s) db) = Some r"
proof -
  obtain db' res where run: "release_session_leases_impl now s db = (db', res)" by fastforce
  show ?thesis
  proof (cases res)
    case (Inl e)
    with run have "db' = db" by (auto simp: release_session_leases_impl_def atomic_err)
    then show ?thesis using r run by (simp add: final_defs task_release_session_leases_def)
  next
    case (Inr xs)
    note ok = release_session_ok [OF db run [unfolded Inr], of cfg UNIV]
    have "x = r" if "x \<in> set (task_rows db)" "r_id x = k" for x
      using that db r find_row_mem [of r_id "task_rows db" x]
      by (simp add: checks_ok_def keys_ok_def find_task_def)
    then have "k \<notin> set xs" using ok no by (auto simp: held_by_def)
    then show ?thesis using ok r run by (simp add: final_defs task_release_session_leases_def)
  qed
qed

lemma leased_row_stays:
  assumes db: "checks_ok db" and r: "find_task k db = Some r" and live: "lease_live now r"
    and no: "\<not> entitled c r"
  shows "find_task k (exec_call cfg now c db) = Some r"
proof (cases "target c")
  case None
  then obtain s where "c = Release_Session s" by (cases c) simp_all
  with no session_row_stays [OF db r] show ?thesis by simp
next
  case (Some j)
  show ?thesis
  proof (cases "j = k")
    case False
    with reach_frame [OF target_reach [OF _ subset_UNIV Some]] db r show ?thesis
      by (simp add: checks_ok_def)
  next
    case True
    have "exec_call cfg now c db = db"
      using Some no r live find_task_id [OF r] unfolding True
      by (cases c) (auto simp: final_defs public_defs task_update_tags_def task_create_def
          intro!: with_id_stays value_op_stays leased_stays unleased_stays create_stays
          dest: required_leased_row_fails)
    with r show ?thesis by simp
  qed
qed

lemma leased_row_stays_run:
  assumes "checks_ok db" and "find_task k db = Some r"
    and "\<forall>(now, c) \<in> set cs. lease_live now r \<and> \<not> entitled c r"
  shows "find_task k (run_calls cfg cs db) = Some r"
  using assms
proof (induction cs arbitrary: db)
  case (Cons nc cs)
  obtain now c where nc: "nc = (now, c)" by (cases nc)
  then show ?case using Cons.prems leased_row_stays [OF Cons.prems(1,2)]
    by (auto intro!: Cons.IH exec_call_checks)
qed simp

end
