(* ===== verification/Fencing.thy ===== *)
theory Fencing
  imports Store_Prelude
begin

text \<open>
  The contract of a fenced lease, which the stores share: every resource has a counter (lease
  epoch, fence, attempt) that no operation decreases and every grant increases, and a token is
  accepted only while it carries the current counter.  The clients' guarantees, that an outdated
  token is never accepted again and that two grants never carry the same counter, are proved here
  once and hold for each interpretation.
\<close>

locale fenced_lease =
  fixes step :: "'s \<Rightarrow> 's \<Rightarrow> bool"
    and fence :: "'k \<Rightarrow> 's \<Rightarrow> int"
    and accepts :: "'k \<Rightarrow> int \<Rightarrow> 's \<Rightarrow> bool"
  assumes monotone: "step s s' \<Longrightarrow> fence k s \<le> fence k s'"
    and current: "accepts k n s \<Longrightarrow> n = fence k s"
begin

lemma run_monotone: "step\<^sup>*\<^sup>* s s' \<Longrightarrow> fence k s \<le> fence k s'"
  by (induction rule: rtranclp_induct) (auto dest: monotone intro: order_trans)

lemma outdated: "n < fence k s \<Longrightarrow> step\<^sup>*\<^sup>* s s' \<Longrightarrow> \<not> accepts k n s'"
  using run_monotone [of s s' k] current [of k n s'] by auto

lemma unique: "accepts k m s \<Longrightarrow> accepts k n s \<Longrightarrow> m = n"
  using current by metis

lemma no_return:
  assumes "accepts k n s" and "step\<^sup>*\<^sup>* s s1" and "accepts k m s1" and "m \<noteq> n" and "step\<^sup>*\<^sup>* s1 s2"
  shows "\<not> accepts k n s2"
proof (rule outdated [OF _ assms(5)])
  show "n < fence k s1"
    using current [OF assms(1)] current [OF assms(3)] run_monotone [OF assms(2), of k] assms(4)
    by simp
qed

end

locale granted_lease = fenced_lease step fence accepts
  for step :: "'s \<Rightarrow> 's \<Rightarrow> bool" and fence :: "'k \<Rightarrow> 's \<Rightarrow> int"
    and accepts :: "'k \<Rightarrow> int \<Rightarrow> 's \<Rightarrow> bool" +
  fixes grant :: "'k \<Rightarrow> 's \<Rightarrow> 's \<Rightarrow> bool"
  assumes grant_step: "grant k s s' \<Longrightarrow> step s s'"
    and grant_raises: "grant k s s' \<Longrightarrow> fence k s < fence k s'"
begin

lemma grants_ordered:
  assumes "grant k s0 s1" and "step\<^sup>*\<^sup>* s1 s2" and "grant k s2 s3"
  shows "fence k s1 < fence k s3"
  using run_monotone [OF assms(2), of k] grant_raises [OF assms(3)] by simp

lemma fenced_out:
  assumes "accepts k n s" and "step\<^sup>*\<^sup>* s s1" and "grant k s1 s2" and "step\<^sup>*\<^sup>* s2 s3"
  shows "\<not> accepts k n s3"
  using current [OF assms(1)] run_monotone [OF assms(2), of k] grant_raises [OF assms(3)]
  by (intro outdated [OF _ assms(4)]) simp

end

end
