(* ===== verification/Task_Spec.thy ===== *)
theory Task_Spec
  imports Task_Invariants Fencing
begin

text \<open>
  Functional specifications of the durable task store that go beyond the step relation: what a
  committed claim writes, when a claim is granted, that raising calls leave the database alone,
  and the instance of the fencing contract.
\<close>

section \<open>Claims\<close>

definition claimed_row :: "task_cfg \<Rightarrow> instant \<Rightarrow> string \<Rightarrow> string \<Rightarrow> task_row \<Rightarrow> task_row" where
  "claimed_row cfg now u h r = r\<lparr>
     r_status := (if r_status r = Open then In_Progress else r_status r),
     r_revision := r_revision r + 1, r_updated_at := now, r_lease_id := Some (''lease_'' @ u),
     r_lease_holder := Some h, r_lease_epoch := r_lease_epoch r + 1,
     r_lease_acquired_at := Some now,
     r_lease_expires_at := Some (now + seconds (c_lease_seconds cfg))\<rparr>"

lemma claimed_row_id [simp]: "r_id (claimed_row cfg now u h r) = r_id r"
  by (simp add: claimed_row_def)

lemma log_opt_result:
  assumes "(if b then insert_activity k kind' au' ex' se' fs ts sm' md' revn' now else ret ()) db
      = (db1, Inr u)"
    and "update_and_log k f (insert_activity k kind au ex se fs2 ts2 sm md revn now) db1 = (db', Inr x)"
    and "keys_ok db" and r: "find_task k db = Some r" and "r_id (f r) = r_id r"
  shows "x = f r" and "find_task k db' = Some (f r)"
proof -
  have id: "r_id (f r) = k" using assms(5) find_task_id [OF r] by simp
  have 1: "keys_ok db1" "find_task k db1 = Some r"
    using recovered_run [OF assms(1)] assms(3) r by auto
  note ok = update_and_log_ok [OF 1 id assms(2)]
  from ok(1) show "x = f r" .
  from ok(3) 1(2) id show "find_task k db' = Some (f r)" by simp
qed

definition claim_txn ::
  "task_cfg \<Rightarrow> instant \<Rightarrow> string \<Rightarrow> string \<Rightarrow> string \<Rightarrow> task_authority \<Rightarrow> string \<Rightarrow> int option
    \<Rightarrow> task_row task_op" where
  "claim_txn cfg now uuid task_id holder authority executor_id expected_revision =
       bind (required_row task_id) (\<lambda>row.
       bind (unless (case expected_revision of None \<Rightarrow> True | Some v \<Rightarrow> r_revision row = v)
               (TaskConflictError (''durable task revision changed: '' @ task_id))) (\<lambda>_.
       bind (unless (active_status (r_status row))
               (TaskTransitionError (''cannot claim durable task: '' @ task_id))) (\<lambda>_.
       bind (value_op (live_lease row now)) (\<lambda>live.
       bind (unless (live = None) (TaskLeaseError ''task is leased'')) (\<lambda>_.
         bind (if r_lease_id row \<noteq> None
               then insert_activity task_id K_Lease_Expired System_Recovery ''durable_task_store''
                      None (Some (r_status row)) (Some (r_status row)) ''Expired task lease recovered''
                      (JObj [(''previous_holder'', json_opt (r_lease_holder row))])
                      (r_revision row + 1) now
               else ret ()) (\<lambda>_.
         update_and_log task_id (\<lambda>r. r\<lparr>
             r_status := (if r_status row = Open then In_Progress else r_status row),
             r_revision := r_revision row + 1,
             r_updated_at := now, r_lease_id := Some (''lease_'' @ uuid),
             r_lease_holder := Some holder, r_lease_epoch := r_lease_epoch row + 1,
             r_lease_acquired_at := Some now,
             r_lease_expires_at := Some (now + seconds (c_lease_seconds cfg))\<rparr>)
           (insert_activity task_id K_Claimed authority executor_id (Some holder)
                 (Some (r_status row)) (Some (if r_status row = Open then In_Progress else r_status row))
                 ''Durable task claimed''
                 (JObj [(''lease_epoch'', JInt (r_lease_epoch row + 1))]) (r_revision row + 1) now)))))))"

lemma claim_impl_txn:
  "claim_impl cfg now u k h au ex v = bind (atomic (claim_txn cfg now u k h au ex v)) (task_from_row cfg)"
  unfolding claim_impl_def claim_txn_def Let_def update_and_log_def by (rule refl)

lemma claim_txn_ok:
  assumes keys: "keys_ok db" and run: "claim_txn cfg now u k h au ex v db = (db', Inr x)"
  obtains r where "find_task k db = Some r" "active_status (r_status r)" "\<not> lease_live now r"
    "v = None \<or> v = Some (r_revision r)" "x = claimed_row cfg now u h r"
    "find_task k db' = Some (claimed_row cfg now u h r)"
proof -
  from run show thesis
    unfolding claim_txn_def op_ok required_row_ok
    apply clarify
    apply (frule log_opt_result [OF _ _ keys], assumption, assumption)
     apply simp
    apply (drule log_opt_result(2) [OF _ _ keys], assumption, assumption)
     apply simp
    apply (erule that)
        apply (auto simp: live_lease_None claimed_row_def split: option.splits)
    done
qed

section \<open>The store invariant\<close>

text \<open>
  What a history with non-decreasing clock and non-empty holders keeps; under it a committed
  operation can always read its result back.
\<close>

definition store_ok :: "task_cfg \<Rightarrow> string set \<Rightarrow> instant \<Rightarrow> task_db \<Rightarrow> bool" where
  "store_ok cfg H now db \<longleftrightarrow> checks_ok db \<and> rows_good H now db \<and> tags_inv db \<and> [] \<notin> H
     \<and> profile_name_re (c_profile cfg) \<and> 0 < c_lease_seconds cfg"

lemma exec_call_store:
  assumes "store_ok cfg H now db" and "claims_for c \<subseteq> H"
  shows "store_ok cfg H now (exec_call cfg now c db)"
  by (rule exec_call_invariant [where P = "store_ok cfg H now", OF _ assms])
    (use assms in \<open>auto simp: store_ok_def intro: db_step_checks db_step_good db_step_tags\<close>)

lemma reach_store:
  assumes "reach cfg H now k db db'" and "store_ok cfg H now db"
  shows "store_ok cfg H now db'"
  using assms by (induction rule: rtranclp_induct)
    (auto simp: store_ok_def intro: db_step_checks db_step_good db_step_tags)

lemma store_reads_back:
  assumes "store_ok cfg H now db" and r: "find_task k db = Some r"
  obtains lease where
    "task_from_row cfg r db = (db, Inr (row_to_task cfg r (tags_of (r_id r) db) lease))"
    "r_lease_id r = None \<and> lease = None
     \<or> r_lease_id r \<noteq> None \<and> (\<exists>l. lease_from_row r = Inr l \<and> lease = Some l)"
proof -
  have "row_good H now r" "[] \<notin> H" "task_row_check r" "tags_ok (tags_of (r_id r) db)"
    "profile_name_re (c_profile cfg)"
    using assms checks_row [OF _ r] by (auto simp: store_ok_def rows_good_def tags_of_ok)
  then show thesis by (rule row_reads_back) (rule that)
qed

section \<open>A raising call leaves the database alone\<close>

definition clean :: "('s, 'e, 'a) op \<Rightarrow> 's \<Rightarrow> bool" where
  "clean m s \<longleftrightarrow> (\<forall>s' e. m s = (s', Inl e) \<longrightarrow> s' = s)"

lemma clean_value: "(\<And>x. clean (f x) s) \<Longrightarrow> clean (bind (value_op r) f) s"
  by (cases r) (auto simp: clean_def op_defs value_op_def)

lemma clean_with_id: "clean (f k) db \<Longrightarrow> clean (with_task_id k f) db"
  by (auto simp: clean_def with_task_id_def validate_task_id_def op_defs value_op_def)

lemma clean_atomic: "clean (atomic m) s"
  by (auto simp: clean_def op_err)

lemma clean_commit:
  assumes "store_ok cfg H now db" and "reach cfg H now k db (fst (impl db))"
    and "\<And>db' e. impl db = (db', Inl e) \<Longrightarrow> db' = db \<or>
      (\<exists>x. find_task k db' = Some x \<and> task_from_row cfg x db' = (db', Inl e))"
  shows "clean impl db"
  unfolding clean_def
proof (intro allI impI)
  fix db' e
  assume run: "impl db = (db', Inl e)"
  then have db': "store_ok cfg H now db'" using reach_store [OF assms(2,1)] by simp
  from assms(3) [OF run] show "db' = db"
  proof
    assume "\<exists>x. find_task k db' = Some x \<and> task_from_row cfg x db' = (db', Inl e)"
    then obtain x where x: "find_task k db' = Some x" "task_from_row cfg x db' = (db', Inl e)" by blast
    from store_reads_back [OF db' x(1)] x(2) show ?thesis by (metis Pair_inject sum.distinct(1))
  qed
qed

lemma task_from_row_db: "task_from_row cfg r db = (db', y) \<Longrightarrow> db' = db"
  using task_from_row_state [of cfg r db] by simp

lemma final_read:
  assumes "bind (atomic m) (task_from_row cfg) db = (db', Inl e)"
    and "\<And>t x. m db = (t, Inr x) \<Longrightarrow> find_task k t = Some x"
  shows "db' = db \<or> (\<exists>x. find_task k db' = Some x \<and> task_from_row cfg x db' = (db', Inl e))"
  using assms task_from_row_db by (fastforce simp: op_err op_ok)

lemma value_err:
  assumes "bind (value_op r) f db = (db', Inl e)" and "\<And>x. f x db = (db', Inl e) \<Longrightarrow> P" and "db' = db \<Longrightarrow> P"
  shows P
  using assms by (cases r) (auto simp: op_defs value_op_def)

lemma txn_found:
  "bind m (\<lambda>x. bind (n x) (\<lambda>_. required_row k)) db = (t, Inr r) \<Longrightarrow> find_task k t = Some r"
  by (auto simp: op_ok required_row_ok)

lemma keys_of_store: "store_ok cfg H now db \<Longrightarrow> keys_ok db"
  by (simp add: store_ok_def checks_ok_def)

text \<open>
  Each body ends by reading the updated row, so the only error after the commit could come from
  the conversion, which the invariant excludes.
\<close>

lemmas body_found = op_ok required_row_ok Let_def

lemma clean_renew:
  assumes "store_ok cfg H now db"
  shows "clean (renew_impl cfg now k l n au ex) db"
proof (rule clean_commit [where impl = "renew_impl cfg now k l n au ex", OF assms
      renew_reach [OF keys_of_store [OF assms]]], goal_cases)
  case (1 db' e)
  then show ?case unfolding renew_impl_def by (rule final_read) (auto simp: body_found)
qed

lemma clean_claim:
  assumes "store_ok cfg H now db" and "h \<in> H"
  shows "clean (claim_impl cfg now u k h au ex v) db"
proof (rule clean_commit [where impl = "claim_impl cfg now u k h au ex v", OF assms(1)
      claim_reach [OF keys_of_store [OF assms(1)] assms(2)]], goal_cases)
  case (1 db' e)
  then show ?case unfolding claim_impl_txn
    by (rule final_read) (auto elim: claim_txn_ok [OF keys_of_store [OF assms(1)]])
qed

lemma clean_release:
  assumes "store_ok cfg H now db"
  shows "clean (release_impl cfg now k l n au ex sm) db"
proof (rule clean_commit [where impl = "release_impl cfg now k l n au ex sm", OF assms
      release_reach [OF keys_of_store [OF assms]]], goal_cases)
  case (1 db' e)
  then show ?case unfolding release_impl_def
    by (rule value_err) (erule final_read, auto simp: body_found)
qed

lemma clean_terminal:
  assumes "store_ok cfg H now db" and "st = Completed \<or> st = Cancelled"
  shows "clean (terminal_impl cfg now k l n st sm au ex) db"
proof (rule clean_commit [where impl = "terminal_impl cfg now k l n st sm au ex", OF assms(1)
      terminal_reach [OF keys_of_store [OF assms(1)] assms(2)]], goal_cases)
  case (1 db' e)
  then show ?case unfolding terminal_impl_def
    by (rule value_err) (erule final_read, auto simp: body_found)
qed

lemma clean_reopen:
  assumes "store_ok cfg H now db"
  shows "clean (reopen_impl cfg now k reason au ex se) db"
proof (rule clean_commit [where impl = "reopen_impl cfg now k reason au ex se", OF assms
      reopen_reach [OF keys_of_store [OF assms]]], goal_cases)
  case (1 db' e)
  then show ?case unfolding reopen_impl_def
    by (rule value_err) (erule final_read, auto simp: body_found)
qed

lemma optional_text_err:
  assumes "bind (if b then bind (value_op (nonempty v name)) (\<lambda>a. ret (Some a)) else ret v) f db
      = (db', Inl e)"
    and "\<And>x. f x db = (db', Inl e) \<Longrightarrow> P" and "db' = db \<Longrightarrow> P"
  shows P
  using assms by (cases "nonempty v name") (auto simp: op_defs value_op_def split: if_splits)

lemma clean_transition:
  assumes "store_ok cfg H now db" and "st \<in> {In_Progress, Waiting, Blocked}"
  shows "clean (transition_impl cfg now k l n kind st cs na w au ex p d cd) db"
proof (rule clean_commit [where impl = "transition_impl cfg now k l n kind st cs na w au ex p d cd",
      OF assms(1) transition_reach [OF keys_of_store [OF assms(1)] assms(2)]], goal_cases)
  case (1 db' e)
  then show ?case unfolding transition_impl_def
    by (rule value_err) (erule optional_text_err, erule final_read, auto simp: body_found)
qed

lemma artifact_found:
  "artifact_activity now k l n r c path sha sz au ex db = (t, Inr x) \<Longrightarrow> find_task k t = Some x"
  by (auto simp: artifact_activity_def body_found)

lemma clean_record_artifact:
  assumes "store_ok cfg H now db"
  shows "clean (record_artifact_activity_impl cfg now k l n c path sha sz au ex) db"
proof (rule clean_commit [where impl = "record_artifact_activity_impl cfg now k l n c path sha sz au ex",
      OF assms record_artifact_reach [OF keys_of_store [OF assms]]], goal_cases)
  case (1 db' e)
  then show ?case unfolding record_artifact_activity_impl_def
    by (rule final_read) (auto simp: op_ok artifact_found)
qed

lemma clean_mutate_artifact:
  assumes "store_ok cfg H now db"
  shows "clean (mutate_artifact_impl cfg now k l n au ex res) db"
proof (rule clean_commit [where impl = "mutate_artifact_impl cfg now k l n au ex res", OF assms
      mutate_artifact_reach [OF keys_of_store [OF assms]]], goal_cases)
  case (1 db' e)
  then show ?case unfolding mutate_artifact_impl_def
    by (auto simp: op_err op_ok dest!: artifact_found split: prod.splits dest: task_from_row_db)
qed

lemma clean_update_tags: "clean (update_tags_impl cfg now k tags l n au ex) db"
  unfolding update_tags_impl_def by (rule clean_atomic)

lemma clean_create: "clean (create_task_impl cfg now u title obj clo mode au ex se p d tags) db"
  unfolding create_task_impl_def by (rule clean_value) (auto simp: clean_def op_err)

lemma clean_call:
  assumes "store_ok cfg H now db" and "claims_for c \<subseteq> H" and "snd (call_outcome cfg now c db) = Some e"
  shows "exec_call cfg now c db = db"
proof -
  have *: "fst (outcome m db) = db" if "clean m db" "snd (outcome m db) = Some e"
    for m :: "(task_db, task_error, 'x) op"
    using that by (cases "m db"; cases "snd (m db)") (auto simp: clean_def outcome_def)
  show ?thesis
    using assms(2,3) unfolding exec_call_def
    by (cases c) (auto simp: public_defs task_create_def task_update_tags_def release_session_leases_impl_def
        intro!: * clean_with_id clean_value clean_renew clean_claim clean_release clean_terminal
          clean_reopen clean_transition clean_record_artifact clean_mutate_artifact clean_update_tags
          clean_create clean_atomic intro: assms(1))
qed

section \<open>The fencing contract\<close>

definition task_step :: "task_db \<Rightarrow> task_db \<Rightarrow> bool" where
  "task_step db db' \<longleftrightarrow> checks_ok db \<and> (\<exists>cfg now c. db' = exec_call cfg now c db)"

definition task_fence :: "string \<Rightarrow> task_db \<Rightarrow> int" where
  "task_fence k db = (case find_task k db of None \<Rightarrow> 0 | Some r \<Rightarrow> r_lease_epoch r)"

definition task_accepts :: "string \<Rightarrow> int \<Rightarrow> task_db \<Rightarrow> bool" where
  "task_accepts k n db \<longleftrightarrow>
     (\<exists>l v now r. epoch l = n \<and> required_leased_row k l v now db = (db, Inr r))"

definition task_grant :: "string \<Rightarrow> task_db \<Rightarrow> task_db \<Rightarrow> bool" where
  "task_grant k db db' \<longleftrightarrow> checks_ok db \<and> db' \<noteq> db \<and>
     (\<exists>cfg now u h au ex v. db' = exec_call cfg now (Claim u k h au ex v) db)"

lemma row_step_epoch: "row_step cfg H now r r' \<Longrightarrow> r_lease_epoch r \<le> r_lease_epoch r'"
  by (auto elim!: row_stepE simp: row_eqs)

lemma db_step_fence: "db_step cfg H now k db db' \<Longrightarrow> task_fence j db \<le> task_fence j db'"
proof (induction rule: db_step.induct)
  case (create db r tags a)
  then show ?case
    by (auto simp: task_fence_def find_task_def find_row_append split: option.splits)
next
  case (change db r r' acts)
  then show ?case using row_step_epoch row_step_id find_task_id by (auto simp: task_fence_def)
next
  case (retag db r tags acts)
  then show ?case using find_task_id by (auto simp: task_fence_def)
qed

lemma exec_call_fence: "checks_ok db \<Longrightarrow> task_fence j db \<le> task_fence j (exec_call cfg now c db)"
  by (rule exec_call_invariant [where P = "\<lambda>d. task_fence j db \<le> task_fence j d", OF _ _ subset_UNIV])
    (auto dest: db_step_fence [where j = j])

lemma claim_call:
  assumes "keys_ok db" and "exec_call cfg now (Claim u k h au ex v) db \<noteq> db"
  obtains r where "find_task k db = Some r" "active_status (r_status r)" "\<not> lease_live now r"
    "v = None \<or> v = Some (r_revision r)"
    "find_task k (exec_call cfg now (Claim u k h au ex v) db) = Some (claimed_row cfg now u h r)"
proof -
  have valid: "task_id_re k"
    using assms(2) by (auto simp: final_defs task_claim_def with_task_id_def validate_task_id_def
        op_defs value_op_def split: if_splits)
  then have eq: "exec_call cfg now (Claim u k h au ex v) db = fst (claim_impl cfg now u k h au ex v db)"
    by (simp add: final_defs task_claim_def with_task_id_def validate_task_id_def op_defs value_op_def)
  show thesis
  proof (cases rule: op_cases [of "claim_txn cfg now u k h au ex v" db])
    case (ok t x)
    then have "fst (claim_impl cfg now u k h au ex v db) = t"
      using task_from_row_state [of cfg x t] by (simp add: claim_impl_txn bind_def atomic_def)
    with eq claim_txn_ok [OF assms(1) ok] show thesis by (metis that)
  next
    case (err t e)
    then have "fst (claim_impl cfg now u k h au ex v db) = db"
      by (simp add: claim_impl_txn bind_def atomic_def)
    with eq assms(2) show thesis by simp
  qed
qed

interpretation task_lease: granted_lease task_step task_fence task_accepts task_grant
proof
  show "task_fence k s \<le> task_fence k s'" if "task_step s s'" for k s s'
    using that by (auto simp: task_step_def exec_call_fence)
  show "n = task_fence k s" if "task_accepts k n s" for k n s
    using that by (auto simp: task_accepts_def required_leased_row_ok lease_matches_def task_fence_def)
  show "task_step s s'" if "task_grant k s s'" for k s s'
    using that by (auto simp: task_grant_def task_step_def)
  show "task_fence k s < task_fence k s'" if "task_grant k s s'" for k s s'
  proof -
    from that obtain cfg now u h au ex v where "keys_ok s" "s' \<noteq> s"
      and s': "s' = exec_call cfg now (Claim u k h au ex v) s"
      by (auto simp: task_grant_def checks_ok_def)
    then obtain r where "find_task k s = Some r" "find_task k s' = Some (claimed_row cfg now u h r)"
      using claim_call [of s cfg now u k h au ex v] by metis
    then show ?thesis by (simp add: task_fence_def claimed_row_def)
  qed
qed

section \<open>When a claim is granted\<close>

definition metadata_fits :: "json \<Rightarrow> bool" where
  "metadata_fits m \<longleftrightarrow> length (json_dumps m) \<le> metadata_char_limit"

definition claim_metadata_fits :: "task_row \<Rightarrow> bool" where
  "claim_metadata_fits r \<longleftrightarrow>
     metadata_fits (JObj [(''previous_holder'', json_opt (r_lease_holder r))])
   \<and> metadata_fits (JObj [(''lease_epoch'', JInt (r_lease_epoch r + 1))])"

lemma update_and_log_runs:
  assumes "keys_ok db" and "find_task k db = Some r" and "r_id (f r) = k" and "task_row_check (f r)"
    and "length sm \<le> 4000" and "metadata_fits md" and "py_strip ex \<noteq> []"
    and "sql_nonblank (py_strip sm)" and "1 \<le> revn"
  shows "\<exists>db'. update_and_log k f (insert_activity k kind au ex se fs ts sm md revn now) db
     = (db', Inr (f r))"
  using assms
  by (simp add: update_and_log_def op_ok required_row_ok insert_activity_ok sql_update_task_ok
      find_after_update metadata_fits_def)

lemma nonblank_plain:
  "s \<noteq> [] \<Longrightarrow> \<not> is_py_space (hd s) \<Longrightarrow> \<not> is_py_space (last s) \<Longrightarrow> code (hd s) \<noteq> 0 \<Longrightarrow>
     sql_nonblank (py_strip s)"
  using sql_nonblank_strip [of s] py_strip_id [of s] by simp

lemma fixed_summaries:
  "sql_nonblank (py_strip ''Expired task lease recovered'')"
  "sql_nonblank (py_strip ''Durable task claimed'')"
  "py_strip ''durable_task_store'' \<noteq> []"
  by (rule nonblank_plain; simp add: is_py_space_def code_def)+
    (simp add: py_strip_id is_py_space_def code_def)

lemma claimed_row_check:
  "task_row_check r \<Longrightarrow> active_status (r_status r) \<Longrightarrow> task_row_check (claimed_row cfg now u h r)"
  by (auto simp: task_row_check_def claimed_row_def status_columns_check_def lease_columns_check_def
      active_status_def)

lemma recovery_runs:
  assumes "find_task k db = Some r" and "claim_metadata_fits r" and "1 \<le> r_revision r + 1"
  shows "\<exists>db1. (if r_lease_id r \<noteq> None
     then insert_activity k K_Lease_Expired System_Recovery ''durable_task_store''
            None fs ts ''Expired task lease recovered''
            (JObj [(''previous_holder'', json_opt (r_lease_holder r))]) (r_revision r + 1) now
     else ret ()) db = (db1, Inr ()) \<and> keys_ok db1 = keys_ok db \<and> find_task k db1 = Some r"
  using assms fixed_summaries
  by (auto simp: insert_activity_ok claim_metadata_fits_def metadata_fits_def ret_def)

lemma bind_run: "m s = (t, Inr x) \<Longrightarrow> bind m f s = f x t"
  by (simp add: bind_def)

lemma unless_True: "b \<Longrightarrow> bind (unless b e) f s = f () s"
  by (simp add: bind_def unless_def ret_def)

lemma claim_txn_runs:
  assumes keys: "keys_ok db" and r: "find_task k db = Some r" and check: "task_row_check r"
    and act: "active_status (r_status r)" and live: "\<not> lease_live now r"
    and v: "v = None \<or> v = Some (r_revision r)" and ex: "py_strip ex \<noteq> []"
    and fits: "claim_metadata_fits r"
  shows "\<exists>db'. claim_txn cfg now u k h au ex v db = (db', Inr (claimed_row cfg now u h r))"
proof -
  have rev: "1 \<le> r_revision r + 1" using check by (simp add: task_row_check_def)
  obtain db1 where db1: "(if r_lease_id r \<noteq> None
     then insert_activity k K_Lease_Expired System_Recovery ''durable_task_store''
            None (Some (r_status r)) (Some (r_status r)) ''Expired task lease recovered''
            (JObj [(''previous_holder'', json_opt (r_lease_holder r))]) (r_revision r + 1) now
     else ret ()) db = (db1, Inr ())" (is "?recover db = _") "keys_ok db1" "find_task k db1 = Some r"
    using recovery_runs [OF r fits rev, of "Some (r_status r)" "Some (r_status r)" now] keys by blast
  define f where "f = (\<lambda>x :: task_row. x\<lparr>
             r_status := (if r_status r = Open then In_Progress else r_status r),
             r_revision := r_revision r + 1,
             r_updated_at := now, r_lease_id := Some (''lease_'' @ u),
             r_lease_holder := Some h, r_lease_epoch := r_lease_epoch r + 1,
             r_lease_acquired_at := Some now,
             r_lease_expires_at := Some (now + seconds (c_lease_seconds cfg))\<rparr>)"
  have f: "f r = claimed_row cfg now u h r" by (simp add: f_def claimed_row_def)
  have fid: "r_id (f r) = k" using find_task_id [OF r] by (simp add: f)
  have fcheck: "task_row_check (f r)" using claimed_row_check [OF check act] by (simp add: f)
  have fits2: "metadata_fits (JObj [(''lease_epoch'', JInt (r_lease_epoch r + 1))])"
    using fits by (simp add: claim_metadata_fits_def)
  have "\<exists>db'. update_and_log k f (insert_activity k K_Claimed au ex (Some h)
      (Some (r_status r)) (Some (if r_status r = Open then In_Progress else r_status r))
      ''Durable task claimed'' (JObj [(''lease_epoch'', JInt (r_lease_epoch r + 1))])
      (r_revision r + 1) now) db1 = (db', Inr (f r))"
    by (rule update_and_log_runs [where f = f, OF db1(2,3) fid fcheck _ fits2 ex fixed_summaries(2) rev])
      simp
  then obtain db' where run: "update_and_log k f (insert_activity k K_Claimed au ex (Some h)
      (Some (r_status r)) (Some (if r_status r = Open then In_Progress else r_status r))
      ''Durable task claimed'' (JObj [(''lease_epoch'', JInt (r_lease_epoch r + 1))])
      (r_revision r + 1) now) db1 = (db', Inr (f r))" ..
  have "case v of None \<Rightarrow> True | Some v \<Rightarrow> r_revision r = v" using v by auto
  moreover have "required_row k db = (db, Inr r)" using r by (simp add: required_row_ok)
  moreover have "value_op (live_lease r now) db = (db, Inr None)"
    using live by (simp add: value_op_ok live_lease_None)
  ultimately have "claim_txn cfg now u k h au ex v db = (db', Inr (f r))"
    using act run
    by (simp only: claim_txn_def f_def bind_run [where m = "required_row k"]
        bind_run [where m = "value_op (live_lease r now)"] bind_run [where m = ?recover, OF db1(1)] unless_True
        simp_thms)
  then show ?thesis by (simp only: f exI)
qed

definition granted_lease_value :: "task_cfg \<Rightarrow> instant \<Rightarrow> string \<Rightarrow> string \<Rightarrow> task_row \<Rightarrow> task_lease" where
  "granted_lease_value cfg now u h r =
     \<lparr>lease_id = ''lease_'' @ u, holder_session_id = h, epoch = r_lease_epoch r + 1,
      acquired_at = now, expires_at = now + seconds (c_lease_seconds cfg)\<rparr>"

lemma claim_granted:
  assumes ok: "store_ok cfg H now db" and r: "find_task k db = Some r"
    and act: "active_status (r_status r)" and live: "\<not> lease_live now r"
    and v: "v = None \<or> v = Some (r_revision r)" and ex: "py_strip ex \<noteq> []"
    and fits: "claim_metadata_fits r" and h: "h \<noteq> []"
  shows "\<exists>db' tags. task_claim cfg now u k h au ex v db = (db', Inr (row_to_task cfg
      (claimed_row cfg now u h r) tags (Some (granted_lease_value cfg now u h r))))
    \<and> find_task k db' = Some (claimed_row cfg now u h r)"
proof -
  let ?r = "claimed_row cfg now u h r"
  have keys: "keys_ok db" using ok by (rule keys_of_store)
  have check: "task_row_check r" and valid: "task_id_re k"
    using ok r checks_row [OF _ r] find_task_id [OF r]
    by (auto simp: store_ok_def rows_good_def row_good_def)
  obtain db' where run: "claim_txn cfg now u k h au ex v db = (db', Inr ?r)"
    using claim_txn_runs [OF keys r check act live v ex fits, of cfg u h] by blast
  then have found: "find_task k db' = Some ?r"
    by (rule claim_txn_ok [OF keys]) (simp add: r)
  have run2: "claim_impl cfg now u k h au ex v db = task_from_row cfg ?r db'"
    using run by (simp add: claim_impl_txn bind_def atomic_def)
  have "store_ok cfg (insert h H) now db"
    using ok h by (auto simp: store_ok_def rows_good_def row_good_def)
  then have ok': "store_ok cfg (insert h H) now db'"
    using claim_reach [OF keys, of h "insert h H" cfg now k u au ex v] run2
      task_from_row_state [of cfg ?r db'] by (auto intro: reach_store)
  obtain lease where rd: "task_from_row cfg ?r db'
      = (db', Inr (row_to_task cfg ?r (tags_of (r_id ?r) db') lease))"
    and lease: "\<exists>l. lease_from_row ?r = Inr l \<and> lease = Some l"
    by (rule store_reads_back [OF ok' found]) (simp add: claimed_row_def)
  have "lease = Some (granted_lease_value cfg now u h r)"
    using lease by (auto simp: lease_from_row_def claimed_row_def granted_lease_value_def Let_def
        split: if_splits)
  with rd run2 found valid show ?thesis
    by (auto simp: task_claim_def with_task_id_def validate_task_id_def value_op_def lift_def bind_def)
qed

section \<open>Revisions as versions\<close>

text \<open>Between two states of a task, the revision tells whether the row has changed at all.\<close>

definition no_older :: "task_row \<Rightarrow> task_row \<Rightarrow> bool" where
  "no_older r r' \<longleftrightarrow> r_revision r < r_revision r' \<or> r' = r"

lemma no_older_trans: "no_older a b \<Longrightarrow> no_older b c \<Longrightarrow> no_older a c"
  by (auto simp: no_older_def)

definition evolves :: "task_db \<Rightarrow> task_db \<Rightarrow> bool" where
  "evolves db db' \<longleftrightarrow> (\<forall>k r. find_task k db = Some r \<longrightarrow>
     (\<exists>r'. find_task k db' = Some r' \<and> no_older r r'))"

lemma evolves_refl [simp]: "evolves db db"
  by (simp add: evolves_def no_older_def)

lemma evolves_trans: "evolves a b \<Longrightarrow> evolves b c \<Longrightarrow> evolves a c"
  by (meson evolves_def no_older_trans)

lemma db_step_evolves: "db_step cfg H now k db db' \<Longrightarrow> evolves db db'"
proof (induction rule: db_step.induct)
  case (create db r tags a)
  then show ?case
    by (auto simp: evolves_def find_task_def find_row_append no_older_def split: option.splits)
next
  case (change db r r' acts)
  then show ?case using row_step_revision [OF change(2)] row_step_id find_task_id
    by (auto simp: evolves_def no_older_def)
next
  case (retag db r tags acts)
  then show ?case using find_task_id by (auto simp: evolves_def no_older_def)
qed

lemma run_calls_evolves: "checks_ok db \<Longrightarrow> evolves db (run_calls cfg cs db)"
  by (rule run_calls_invariant [where P = "evolves db"])
    (auto intro: evolves_trans db_step_evolves)

section \<open>Closed tasks\<close>

definition closed_free :: "task_db \<Rightarrow> bool" where
  "closed_free db \<longleftrightarrow> (\<forall>k r. find_task k db = Some r \<longrightarrow> \<not> active_status (r_status r) \<longrightarrow> r_lease_id r = None)"

lemma row_step_closed:
  "row_step cfg H now r r' \<Longrightarrow> (\<not> active_status (r_status r) \<longrightarrow> r_lease_id r = None) \<Longrightarrow>
     \<not> active_status (r_status r') \<Longrightarrow> r_lease_id r' = None"
  by (erule row_stepE) (auto simp: row_eqs active_status_def split: if_splits)

lemma db_step_closed: "db_step cfg H now k db db' \<Longrightarrow> closed_free db \<Longrightarrow> closed_free db'"
proof (induction rule: db_step.induct)
  case (create db r tags a)
  then show ?case
    by (auto simp: closed_free_def find_task_def find_row_append split: option.splits if_splits)
next
  case (change db r r' acts)
  then show ?case using row_step_closed [OF change(2)] row_step_id find_task_id
    by (auto simp: closed_free_def)
next
  case (retag db r tags acts)
  then show ?case using find_task_id
    by (auto simp: closed_free_def lease_live_def row_eqs)
qed

lemma closed_free_empty [simp]: "closed_free empty_task_db"
  by (simp add: closed_free_def empty_task_db_def find_task_def)

fun reopens :: "string \<Rightarrow> task_call \<Rightarrow> bool" where
  "reopens k (Reopen j reason au ex se) = (j = k)"
| "reopens k c = False"

lemma closed_claim_stays:
  assumes "find_task k db = Some r" and "\<not> active_status (r_status r)"
  shows "fst (claim_impl cfg now u k h au ex v db) = db"
  unfolding claim_impl_def
  by (rule atomic_bind_stays) (auto simp: task_from_row_state op_ok required_row_ok assms)

lemma closed_row_stays:
  assumes db: "checks_ok db" and r: "find_task k db = Some r" and closed: "\<not> active_status (r_status r)"
    and free: "r_lease_id r = None" and no: "\<not> reopens k c"
  shows "find_task k (exec_call cfg now c db) = Some r"
proof (cases "target c")
  case None
  then obtain s where "c = Release_Session s" by (cases c) simp_all
  moreover have "r_lease_holder r = None"
    using free checks_row [OF db r] by (auto simp: task_row_check_def lease_columns_check_def)
  ultimately show ?thesis using session_row_stays [OF db r] by simp
next
  case (Some j)
  show ?thesis
  proof (cases "j = k")
    case False
    with reach_frame [OF target_reach [OF _ subset_UNIV Some]] db r show ?thesis
      by (simp add: checks_ok_def)
  next
    case True
    have "\<not> presents l r" for l using free by (simp add: presents_def)
    then have "exec_call cfg now c db = db"
      using Some no r closed find_task_id [OF r] unfolding True
      by (cases c) (auto simp: final_defs public_defs task_update_tags_def task_create_def
          intro!: with_id_stays value_op_stays leased_stays closed_claim_stays create_stays
          dest: required_leased_row_fails)
    with r show ?thesis by simp
  qed
qed

lemma run_calls_closed:
  assumes "checks_ok db" and "closed_free db"
  shows "closed_free (run_calls cfg cs db)"
  by (rule run_calls_invariant [where P = closed_free, OF assms]) (rule db_step_closed)

lemma closed_row_stays_run:
  assumes "checks_ok db" and "find_task k db = Some r" and "\<not> active_status (r_status r)"
    and "r_lease_id r = None" and "\<forall>(now, c) \<in> set cs. \<not> reopens k c"
  shows "find_task k (run_calls cfg cs db) = Some r"
  using assms
proof (induction cs arbitrary: db)
  case (Cons nc cs)
  obtain now c where nc: "nc = (now, c)" by (cases nc)
  then show ?case using Cons.prems closed_row_stays [OF Cons.prems(1-4)]
    by (auto intro!: Cons.IH exec_call_checks)
qed simp

section \<open>Expected revisions\<close>

text \<open>The revision a leased call expects to find.\<close>

fun expects :: "task_call \<Rightarrow> (string \<times> int) option" where
  "expects (Update_Tags k tags l n au ex) = Some (k, n)"
| "expects (Renew k l n au ex) = Some (k, n)"
| "expects (Progress k l n cs na au ex p d cd) = Some (k, n)"
| "expects (Wait k l n w cs na au ex d cd) = Some (k, n)"
| "expects (Block k l n cs na au ex) = Some (k, n)"
| "expects (Complete k l n sm au ex) = Some (k, n)"
| "expects (Cancel k l n sm au ex) = Some (k, n)"
| "expects (Release k l n au ex sm) = Some (k, n)"
| "expects (Record_Artifact k l n c path sha sz au ex) = Some (k, n)"
| "expects (Mutate_Artifact k l n au ex res) = Some (k, n)"
| "expects c = None"

lemma wrong_revision_fails:
  "find_task k db = Some r \<Longrightarrow> r_revision r \<noteq> n \<Longrightarrow> required_leased_row k l n now db \<noteq> (t, Inr x)"
  by (auto simp: required_leased_row_ok lease_matches_def)

lemma stale_call_stays:
  assumes "expects c = Some (k, n)" and "find_task k db = Some r" and "r_revision r \<noteq> n"
  shows "exec_call cfg now c db = db"
  using assms wrong_revision_fails [OF assms(2,3)]
  by (cases c) (auto simp: final_defs public_defs task_update_tags_def
      intro!: with_id_stays value_op_stays leased_stays)

definition raised :: "string \<Rightarrow> task_db \<Rightarrow> task_db \<Rightarrow> bool" where
  "raised k db db' \<longleftrightarrow> (\<exists>r'. find_task k db' = Some r' \<and>
     (\<forall>r. find_task k db = Some r \<longrightarrow> r_revision r < r_revision r'))"

lemma db_step_raised: "db_step cfg H now k db db' \<Longrightarrow> raised k db db'"
proof (induction rule: db_step.induct)
  case (create db r tags a)
  then show ?case by (auto simp: raised_def find_task_def find_row_append)
next
  case (change db r r' acts)
  then show ?case using row_step_revision [OF change(2)] row_step_id find_task_id
    by (auto simp: raised_def)
next
  case (retag db r tags acts)
  then show ?case using find_task_id by (auto simp: raised_def)
qed

lemma raised_step:
  assumes "raised k a b" and "db_step cfg H now k b c" shows "raised k a c"
  using assms(1) db_step_raised [OF assms(2)] by (fastforce simp: raised_def)

lemma reach_raised: "reach cfg H now k db db' \<Longrightarrow> db' = db \<or> raised k db db'"
  by (induction rule: rtranclp_induct) (auto dest: db_step_raised raised_step)

lemma expects_target: "expects c = Some (k, n) \<Longrightarrow> target c = Some k"
  by (cases c) simp_all

lemma committed_revision:
  assumes db: "checks_ok db" and c: "expects c = Some (k, n)" and "exec_call cfg now c db \<noteq> db"
  obtains r' where "find_task k (exec_call cfg now c db) = Some r'" "n < r_revision r'"
proof -
  have "reach cfg UNIV now k db (exec_call cfg now c db)"
    using db expects_target [OF c] by (intro target_reach) (simp_all add: checks_ok_def)
  with assms(3) have raised: "raised k db (exec_call cfg now c db)" using reach_raised by blast
  show thesis
  proof (cases "find_task k db")
    case None
    then have "\<And>l n now t x. required_leased_row k l n now db \<noteq> (t, Inr x)"
      by (simp add: required_leased_row_ok)
    then have "exec_call cfg now c db = db"
      using c by (cases c) (auto simp: final_defs public_defs task_update_tags_def
          intro!: with_id_stays value_op_stays leased_stays)
    with assms(3) show thesis by simp
  next
    case (Some r)
    then have "r_revision r = n" using stale_call_stays [OF c Some] assms(3) by blast
    with raised Some show thesis using that by (auto simp: raised_def)
  qed
qed

lemma lost_update_prevented:
  assumes db: "checks_ok db" and c: "expects c = Some (k, n)" "expects d = Some (k, n)"
    and "exec_call cfg now c db \<noteq> db"
  shows "exec_call cfg later d (run_calls cfg cs (exec_call cfg now c db))
    = run_calls cfg cs (exec_call cfg now c db)"
proof -
  obtain r1 where r1: "find_task k (exec_call cfg now c db) = Some r1" "n < r_revision r1"
    using committed_revision [OF db c(1) assms(4)] by blast
  then obtain r2 where "find_task k (run_calls cfg cs (exec_call cfg now c db)) = Some r2"
      "no_older r1 r2"
    using run_calls_evolves [OF exec_call_checks [OF db], where cs = cs and cfg = cfg] by (fastforce simp: evolves_def)
  then show ?thesis using r1(2) by (intro stale_call_stays [OF c(2)]) (auto simp: no_older_def)
qed

section \<open>Histories with a well-behaved clock\<close>

definition well_clocked :: "task_cfg \<Rightarrow> instant \<Rightarrow> history \<Rightarrow> bool" where
  "well_clocked cfg now cs \<longleftrightarrow> profile_name_re (c_profile cfg) \<and> 0 < c_lease_seconds cfg
     \<and> sorted (map fst cs) \<and> list_all (\<lambda>(t, d). t \<le> now \<and> [] \<notin> claims_for d) cs"

lemma well_clocked_store:
  assumes "well_clocked cfg now cs"
  shows "store_ok cfg (- {[]}) now (run_calls cfg cs empty_task_db)"
proof -
  let ?start = "if cs = [] then now else fst (hd cs)"
  have "?start \<le> now" and "\<forall>(t, d) \<in> set cs. claims_for d \<subseteq> - {[]} \<and> ?start \<le> t \<and> t \<le> now"
    using assms by (cases cs; auto simp: well_clocked_def list_all_iff)+
  then have "rows_good (- {[]}) now (run_calls cfg cs empty_task_db)"
    using assms by (intro run_calls_good [where cs = cs and start = ?start]) (auto simp: well_clocked_def)
  moreover have "tags_inv (run_calls cfg cs empty_task_db)"
    by (rule run_calls_invariant) (auto intro: db_step_tags)
  ultimately show ?thesis
    using assms by (simp add: store_ok_def well_clocked_def run_calls_checks)
qed

lemma run_calls_steps: "checks_ok db \<Longrightarrow> task_step\<^sup>*\<^sup>* db (run_calls cfg cs db)"
proof (induction cs arbitrary: db)
  case (Cons nc cs)
  obtain now c where nc: "nc = (now, c)" by (cases nc)
  have "task_step db (exec_call cfg now c db)" using Cons.prems by (auto simp: task_step_def)
  then show ?case using Cons by (auto simp: nc exec_call_checks intro: converse_rtranclp_into_rtranclp)
qed simp

end
