(* ===== verification/Task_Properties.thy ===== *)
theory Task_Properties
  imports Task_Spec "HOL-Library.Code_Target_Numeral"
begin

text \<open>
  The properties of the durable task store, each with a concrete instance.  Histories start from
  the empty database and may contain any sequence of public calls, failing ones included.
\<close>

section \<open>A sample history\<close>

definition sample_cfg :: task_cfg where
  "sample_cfg = \<lparr>c_profile = ''shared'', c_lease_seconds = 60, c_search_limit = 100,
     c_activity_limit = 100\<rparr>"

definition sample_id :: string where
  "sample_id = ''task_00112233445566778899aabbccddeeff''"

definition sample_history :: history where
  "sample_history =
     [(1, Create ''00112233445566778899aabbccddeeff'' ''t'' ''o'' ''c'' Mode_Agent Agent_Autonomy
            ''x'' None 0 None [''b'']),
      (2, Claim ''a'' sample_id ''s1'' Agent_Autonomy ''x'' None)]"

definition sample_db :: task_db where
  "sample_db = run_calls sample_cfg sample_history empty_task_db"

definition sample_lease :: task_lease where
  "sample_lease = \<lparr>lease_id = ''lease_a'', holder_session_id = ''s1'', epoch = 1, acquired_at = 2,
     expires_at = 60000002\<rparr>"

lemma sample_db_run: "sample_db = run_calls sample_cfg sample_history empty_task_db"
  by (rule sample_db_def)

lemma sample_row:
  "\<exists>r. find_task sample_id sample_db = Some r \<and> r_revision r = 2 \<and> r_status r = In_Progress
     \<and> r_lease_id r = Some ''lease_a'' \<and> r_lease_holder r = Some ''s1'' \<and> r_lease_epoch r = 1
     \<and> r_lease_expires_at r = Some 60000002"
proof -
  have "(case find_task sample_id sample_db of None \<Rightarrow> False | Some r \<Rightarrow>
      r_revision r = 2 \<and> r_status r = In_Progress
     \<and> r_lease_id r = Some ''lease_a'' \<and> r_lease_holder r = Some ''s1'' \<and> r_lease_epoch r = 1
     \<and> r_lease_expires_at r = Some 60000002)"
    by code_simp
  then show ?thesis by (auto split: option.splits)
qed

section \<open>Life cycle\<close>

text \<open>
  C2: every public call, whatever its arguments and whether it returns or raises, changes the
  database by a finite sequence of life-cycle steps, each with its audit records.
\<close>

theorem task_calls_follow_lifecycle:
  "(any_step cfg UNIV now)\<^sup>*\<^sup>* (run_calls cfg cs empty_task_db)
     (exec_call cfg now c (run_calls cfg cs empty_task_db))"
  by (rule exec_call_steps) (simp_all add: run_calls_checks)

text \<open>
  The audit table has no gaps, and the records of each task lead from its creation to its
  present status, with at least one record for every revision up to the present one.
\<close>

theorem task_audit_complete: "audit_ok (run_calls cfg cs empty_task_db)"
  by (rule run_calls_invariant) (auto intro: db_step_audit)

text \<open>
  The tags of every task are sorted, distinct, at most fifty, each of the canonical shape, and
  belong to an existing task.
\<close>

theorem task_tags_canonical: "tags_inv (run_calls cfg cs empty_task_db)"
  by (rule run_calls_invariant) (auto intro: db_step_tags)

section \<open>Leases\<close>

text \<open>
  C4: while a lease is live, no sequence of calls that neither present it nor clean up its
  holder's session changes the task: other claims, reopenings and stale writes all fail.
\<close>

theorem task_lease_isolation:
  assumes "find_task k (run_calls cfg cs empty_task_db) = Some r"
    and "\<forall>(now, c) \<in> set ds. lease_live now r \<and> \<not> entitled c r"
  shows "find_task k (run_calls cfg ds (run_calls cfg cs empty_task_db)) = Some r"
  by (rule leased_row_stays_run [OF run_calls_checks [OF empty_checks] assms])

definition rival_calls :: history where
  "rival_calls =
     [(3, Claim ''b'' sample_id ''s2'' Agent_Autonomy ''y'' None),
      (4, Complete sample_id (sample_lease\<lparr>epoch := 7\<rparr>) 2 ''done'' Agent_Autonomy ''y''),
      (5, Release_Session ''s2'')]"

theorem task_lease_isolation_witness:
  "find_task sample_id (run_calls sample_cfg rival_calls sample_db) = find_task sample_id sample_db
   \<and> find_task sample_id sample_db \<noteq> None"
proof -
  obtain r where r: "find_task sample_id sample_db = Some r" "r_lease_id r = Some ''lease_a''"
    "r_lease_holder r = Some ''s1''" "r_lease_epoch r = 1" "r_lease_expires_at r = Some 60000002"
    using sample_row by blast
  have "\<forall>(now, c) \<in> set rival_calls. lease_live now r \<and> \<not> entitled c r"
    using r by (simp add: rival_calls_def lease_live_def presents_def sample_lease_def)
  then show ?thesis
    using task_lease_isolation [OF r(1) [unfolded sample_db_def], of rival_calls] r(1)
    by (simp add: sample_db_def)
qed

text \<open>
  C7: once another claim of the task has committed, a lease that was accepted before is rejected in
  every later state, at any time and with any expected revision.
\<close>

theorem task_stale_lease_rejected:
  assumes "required_leased_row k l v t (run_calls cfg cs empty_task_db)
      = (run_calls cfg cs empty_task_db, Inr r)"
    and "db1 = run_calls cfg ds (run_calls cfg cs empty_task_db)"
    and "db2 = exec_call cfg now (Claim u k h au ex w) db1" and "db2 \<noteq> db1"
  shows "required_leased_row k l v' t' (run_calls cfg es db2) \<noteq> (db', Inr r')"
proof -
  let ?db = "run_calls cfg cs empty_task_db"
  have ok: "checks_ok ?db" "checks_ok db1" using assms(2) by (simp_all add: run_calls_checks)
  then have ok2: "checks_ok db2" by (simp add: assms(3) exec_call_checks)
  have "task_accepts k (epoch l) ?db" using assms(1) by (auto simp: task_accepts_def)
  moreover have "task_step\<^sup>*\<^sup>* ?db db1" using run_calls_steps [OF ok(1)] by (simp add: assms(2))
  moreover have "task_grant k db1 db2" using ok(2) assms(3,4) unfolding task_grant_def by blast
  ultimately have "\<not> task_accepts k (epoch l) (run_calls cfg es db2)"
    using run_calls_steps [OF ok2] by (rule task_lease.fenced_out)
  then show ?thesis by (auto simp: task_accepts_def required_leased_row_ok)
qed

definition takeover_db :: task_db where
  "takeover_db = exec_call sample_cfg 60000005
     (Claim ''b'' sample_id ''s2'' Agent_Autonomy ''y'' None) sample_db"

theorem task_stale_lease_rejected_witness:
  "\<forall>db' e r'. required_leased_row sample_id sample_lease 2 5 sample_db \<noteq> (db', Inl e)
   \<and> required_leased_row sample_id sample_lease 3 60000010 takeover_db \<noteq> (db', Inr r')"
proof (intro allI conjI)
  fix db' e r'
  obtain r where r: "find_task sample_id sample_db = Some r" "r_revision r = 2"
    "r_lease_id r = Some ''lease_a''" "r_lease_holder r = Some ''s1''" "r_lease_epoch r = 1"
    "r_lease_expires_at r = Some 60000002"
    using sample_row by blast
  then have acc: "required_leased_row sample_id sample_lease 2 5 sample_db = (sample_db, Inr r)"
    by (simp add: required_leased_row_ok lease_matches_def lease_live_def sample_lease_def)
  then show "required_leased_row sample_id sample_lease 2 5 sample_db \<noteq> (db', Inl e)" by simp
  have "length (activity_rows takeover_db) = 4 \<and> length (activity_rows sample_db) = 2"
    by code_simp
  then have ne: "takeover_db \<noteq> sample_db" by auto
  show "required_leased_row sample_id sample_lease 3 60000010 takeover_db \<noteq> (db', Inr r')"
    using task_stale_lease_rejected [OF acc [unfolded sample_db_def], where ds = "[]" and es = "[]",
        OF _ takeover_db_def] ne
    by (simp only: run_calls_simps sample_db_def simp_thms)
qed

section \<open>Errors and versions\<close>

text \<open>
  A call that raises leaves the database exactly as it was, in every history whose clock does
  not go back and whose claims name their holder; no commit is followed by an error.
\<close>

theorem task_raise_is_noop:
  assumes "well_clocked cfg now cs" and "db = run_calls cfg cs empty_task_db"
    and "[] \<notin> claims_for c" and "snd (call_outcome cfg now c db) = Some e"
  shows "exec_call cfg now c db = db"
proof -
  have "claims_for c \<subseteq> - {[]}" using assms(3) by auto
  then show ?thesis
    using well_clocked_store [OF assms(1)] assms(4) unfolding assms(2) by (intro clean_call)
qed

definition rival_claim :: task_call where
  "rival_claim = Claim ''b'' sample_id ''s2'' Agent_Autonomy ''y'' None"

theorem task_raise_is_noop_witness:
  "exec_call sample_cfg 5 rival_claim sample_db = sample_db
   \<and> snd (call_outcome sample_cfg 5 rival_claim sample_db) \<noteq> None"
proof -
  have wc: "well_clocked sample_cfg 5 sample_history" and h: "[] \<notin> claims_for rival_claim"
    by code_simp+
  have "snd (call_outcome sample_cfg 5 rival_claim sample_db) \<noteq> None" by code_simp
  then obtain e where "snd (call_outcome sample_cfg 5 rival_claim sample_db) = Some e" by blast
  from task_raise_is_noop [OF wc sample_db_def h this] this show ?thesis by simp
qed

text \<open>
  An open, waiting or blocked task without a live lease can be claimed by anyone who knows its
  revision (or does not ask for one), as long as the audit metadata of the claim fits its limit: the call
  returns the task with a lease of the next epoch for the configured time, and that is what is stored.
\<close>

theorem task_claim_granted:
  assumes "well_clocked cfg now cs" and "db = run_calls cfg cs empty_task_db"
    and "find_task k db = Some r" and "active_status (r_status r)" and "\<not> lease_live now r"
    and "expected = None \<or> expected = Some (r_revision r)"
    and "py_strip ex \<noteq> []" and "holder \<noteq> []" and "claim_metadata_fits r"
  shows "\<exists>db' tags. task_claim cfg now u k holder au ex expected db =
      (db', Inr (row_to_task cfg (claimed_row cfg now u holder r) tags
        (Some (granted_lease_value cfg now u holder r))))
    \<and> find_task k db' = Some (claimed_row cfg now u holder r)"
  using claim_granted [OF well_clocked_store [OF assms(1)]] assms by blast

theorem task_claim_granted_witness:
  "\<exists>r db' tags. task_claim sample_cfg 60000005 ''b'' sample_id ''s2'' Agent_Autonomy ''y'' (Some 2)
      sample_db = (db', Inr (row_to_task sample_cfg (claimed_row sample_cfg 60000005 ''b'' ''s2'' r)
        tags (Some (granted_lease_value sample_cfg 60000005 ''b'' ''s2'' r))))"
proof -
  obtain r where r: "find_task sample_id sample_db = Some r" "r_revision r = 2"
    "r_status r = In_Progress" "r_lease_holder r = Some ''s1''" "r_lease_epoch r = 1"
    "r_lease_expires_at r = Some 60000002"
    using sample_row by blast
  have wc: "well_clocked sample_cfg 60000005 sample_history" by code_simp
  have fits: "claim_metadata_fits r"
  proof -
    have "metadata_fits (JObj [(''previous_holder'', json_opt (Some ''s1''))])
      \<and> metadata_fits (JObj [(''lease_epoch'', JInt 2)])" by code_simp
    with r show ?thesis by (simp add: claim_metadata_fits_def)
  qed
  have y: "py_strip ''y'' \<noteq> []" by code_simp
  show ?thesis
    using task_claim_granted [OF wc sample_db_def r(1) _ _ _ y _ fits, of "Some 2" "''s2''"] r
    by (fastforce simp: active_status_def lease_live_def)
qed

text \<open>
  Every stored task can be read back, whatever happened before: \<open>get\<close> returns the values of
  its row, its tags and its lease.
\<close>

theorem task_get_returns_row:
  assumes "well_clocked cfg now cs" and "db = run_calls cfg cs empty_task_db"
    and "find_task k db = Some r"
  shows "\<exists>lease. task_get cfg k db = (db, Inr (row_to_task cfg r (tags_of k db) lease))"
proof -
  have ok: "store_ok cfg (- {[]}) now db" using well_clocked_store assms(1,2) by simp
  then have "task_id_re k" using assms(3) find_task_id [OF assms(3)]
    by (auto simp: store_ok_def rows_good_def row_good_def)
  moreover obtain lease where "task_from_row cfg r db
      = (db, Inr (row_to_task cfg r (tags_of (r_id r) db) lease))"
    by (rule store_reads_back [OF ok assms(3)])
  ultimately show ?thesis
    using assms(3) find_task_id [OF assms(3)]
    by (auto simp: task_get_def with_task_id_def get_task_impl_def validate_task_id_def op_defs
        value_op_def required_row_def)
qed

theorem task_get_returns_row_witness:
  "\<exists>r lease. task_get sample_cfg sample_id sample_db
     = (sample_db, Inr (row_to_task sample_cfg r (tags_of sample_id sample_db) lease))"
proof -
  have wc: "well_clocked sample_cfg 5 sample_history" by code_simp
  show ?thesis using sample_row task_get_returns_row [OF wc sample_db_def] by blast
qed

text \<open>
  Of two leased calls that expect the same revision of a task at most one commits, whatever
  happens in between; the second leaves the database unchanged.
\<close>

theorem task_lost_update_prevented:
  assumes "expects c = Some (k, n)" and "expects d = Some (k, n)"
    and "db = run_calls cfg cs empty_task_db" and "exec_call cfg now c db \<noteq> db"
  shows "exec_call cfg later d (run_calls cfg ds (exec_call cfg now c db))
    = run_calls cfg ds (exec_call cfg now c db)"
  using assms(3) by (intro lost_update_prevented [OF _ assms(1,2,4)]) (simp add: run_calls_checks)

definition finishing :: task_call where
  "finishing = Complete sample_id sample_lease 2 ''done'' Agent_Autonomy ''x''"

definition cancelling :: task_call where
  "cancelling = Cancel sample_id sample_lease 2 ''stop'' Agent_Autonomy ''x''"

theorem task_lost_update_prevented_witness:
  "exec_call sample_cfg 6 cancelling (exec_call sample_cfg 5 finishing sample_db)
     = exec_call sample_cfg 5 finishing sample_db
   \<and> exec_call sample_cfg 5 finishing sample_db \<noteq> sample_db"
proof -
  have "length (activity_rows (exec_call sample_cfg 5 finishing sample_db)) = 3
    \<and> length (activity_rows sample_db) = 2" by code_simp
  then have ne: "exec_call sample_cfg 5 finishing sample_db \<noteq> sample_db" by auto
  have e: "expects finishing = Some (sample_id, 2)" "expects cancelling = Some (sample_id, 2)"
    by (simp_all add: finishing_def cancelling_def)
  show ?thesis
    using task_lost_update_prevented [OF e sample_db_def ne, of 6 "[]"] ne
    by (simp only: run_calls_simps simp_thms)
qed

text \<open>
  A completed or cancelled task is frozen: no sequence of calls without a reopening of that
  task changes its row.
\<close>

theorem task_closed_frozen:
  assumes "db = run_calls cfg cs empty_task_db" and "find_task k db = Some r"
    and "\<not> active_status (r_status r)" and "list_all (\<lambda>(t, c). \<not> reopens k c) ds"
  shows "find_task k (run_calls cfg ds db) = Some r"
proof (rule closed_row_stays_run [OF _ assms(2,3)])
  show "checks_ok db" using assms(1) by (simp add: run_calls_checks)
  have "closed_free db" using assms(1) by (simp add: run_calls_closed)
  then show "r_lease_id r = None" using assms(2,3) by (auto simp: closed_free_def)
qed (use assms(4) in \<open>simp add: list_all_iff\<close>)

theorem task_closed_frozen_witness:
  "\<exists>r. find_task sample_id (run_calls sample_cfg [(7, rival_claim), (8, cancelling)]
     (run_calls sample_cfg (sample_history @ [(5, finishing)]) empty_task_db)) = Some r
   \<and> r_status r = Completed"
proof -
  have "(case find_task sample_id (run_calls sample_cfg (sample_history @ [(5, finishing)])
      empty_task_db) of None \<Rightarrow> False | Some r \<Rightarrow> r_status r = Completed)" by code_simp
  then obtain r where r: "find_task sample_id (run_calls sample_cfg (sample_history @ [(5, finishing)])
      empty_task_db) = Some r" "r_status r = Completed"
    by (auto split: option.splits)
  then have "\<not> active_status (r_status r)" by (simp add: active_status_def)
  from task_closed_frozen [OF refl r(1) this, of "[(7, rival_claim), (8, cancelling)]"] r(2)
  show ?thesis by (simp add: rival_claim_def cancelling_def)
qed

text \<open>
  Session cleanup releases exactly the live leases of the session: it returns their tasks, no
  live lease of the session remains, and no other task is touched.
\<close>

theorem task_session_cleanup:
  assumes "db = run_calls cfg cs empty_task_db"
    and "task_release_session_leases now s db = (db', Inr ks)"
  shows "ks = map r_id (filter (held_by now s) (task_rows db))
    \<and> list_all (\<lambda>r. \<not> held_by now s r) (task_rows db')
    \<and> (\<forall>k. k \<notin> set ks \<longrightarrow> find_task k db' = find_task k db)"
proof -
  have db: "checks_ok db" using assms(1) by (simp add: run_calls_checks)
  have run: "release_session_leases_impl now s db = (db', Inr ks)"
    using assms(2) by (simp add: task_release_session_leases_def)
  note ok = release_session_ok [OF db run, of cfg UNIV]
  have db': "checks_ok db'"
    using exec_call_checks [OF db, of cfg now "Release_Session s"] assms(2) by (simp add: final_defs)
  have "\<not> held_by now s r" if r: "r \<in> set (task_rows db')" for r
  proof
    assume held: "held_by now s r"
    have f: "find_task (r_id r) db' = Some r"
      using r db' by (auto simp: checks_ok_def keys_ok_def find_task_def find_row_mem)
    show False
    proof (cases "r_id r \<in> set ks")
      case True
      with f ok held show False by (auto simp: held_by_def row_eqs split: option.splits)
    next
      case False
      with f ok have "r \<in> set (task_rows db)" using find_task_mem by metis
      with held ok False show False by auto
    qed
  qed
  with ok show ?thesis by (auto simp: list_all_iff)
qed

theorem task_session_cleanup_witness:
  "\<exists>db' ks. task_release_session_leases 5 ''s1'' sample_db = (db', Inr ks)
     \<and> ks = [sample_id] \<and> list_all (\<lambda>r. \<not> held_by 5 ''s1'' r) (task_rows db')"
proof -
  have "(case snd (task_release_session_leases 5 ''s1'' sample_db) of Inl _ \<Rightarrow> False
    | Inr ks \<Rightarrow> ks = [sample_id])" by code_simp
  then obtain db' where run: "task_release_session_leases 5 ''s1'' sample_db = (db', Inr [sample_id])"
    by (cases "task_release_session_leases 5 ''s1'' sample_db") (auto split: sum.splits)
  from task_session_cleanup [OF sample_db_def run] run show ?thesis by blast
qed

end
