(* ===== verification/Task_Search.thy ===== *)
theory Task_Search
  imports Task_Spec
begin

text \<open>
  Structured task search (\<open>DurableTaskStore.search\<close> and \<open>_search\<close>): each generated \<open>WHERE\<close>
  clause, the ordering and the page, and SQLite's \<open>LIKE\<close> for the escaped free text.  The second
  half proves that the escaping makes the pattern a plain substring test.
\<close>

section \<open>Text matching\<close>

text \<open>
  \<open>str.casefold\<close> on Latin-1: lower case, sharp s becomes two letters and the micro sign becomes the
  Greek letter, which is why the folded query is a list of code points.
\<close>

definition casefold_char :: "char \<Rightarrow> nat list" where
  "casefold_char c = (if code c = 223 then [115, 115] else if code c = 181 then [956]
     else [code (py_lower_char c)])"

definition casefold :: "string \<Rightarrow> nat list" where
  "casefold s = concat (map casefold_char s)"

text \<open>\<open>replace\<close> of the backslash, the percent sign and the underscore, each by itself escaped.\<close>

definition escape_one :: "nat \<Rightarrow> nat list \<Rightarrow> nat list" where
  "escape_one x s = concat (map (\<lambda>c. if c = x then [92, c] else [c]) s)"

definition like_pattern :: "string \<Rightarrow> nat list" where
  "like_pattern text = 37 # escape_one 95 (escape_one 37 (escape_one 92 (casefold text))) @ [37]"

text \<open>SQLite's \<open>lower\<close> and the case folding of \<open>LIKE\<close> know the ASCII letters only.\<close>

definition ascii_lower :: "nat \<Rightarrow> nat" where
  "ascii_lower n = (if 65 \<le> n \<and> n \<le> 90 then n + 32 else n)"

text \<open>\<open>LIKE pattern ESCAPE '\'\<close>\<close>

fun like :: "nat list \<Rightarrow> nat list \<Rightarrow> bool" where
  "like [] s = (s = [])"
| "like (p # ps) s =
     (if p = 92 then
        (case ps of [] \<Rightarrow> False
         | q # qs \<Rightarrow> (case s of [] \<Rightarrow> False | c # cs \<Rightarrow> ascii_lower c = ascii_lower q \<and> like qs cs))
      else if p = 37 then like ps s \<or> (case s of [] \<Rightarrow> False | c # cs \<Rightarrow> like (p # ps) cs)
      else if p = 95 then (case s of [] \<Rightarrow> False | c # cs \<Rightarrow> like ps cs)
      else (case s of [] \<Rightarrow> False | c # cs \<Rightarrow> ascii_lower c = ascii_lower p \<and> like ps cs))"

definition coalesce :: "string option \<Rightarrow> string" where
  "coalesce v = (case v of None \<Rightarrow> [] | Some s \<Rightarrow> s)"

definition search_document :: "task_row \<Rightarrow> string" where
  "search_document r = r_title r @ '' '' @ r_objective r @ '' '' @ r_closure_criteria r @ '' ''
     @ coalesce (r_current_summary r) @ '' '' @ coalesce (r_next_action r)"

text \<open>Pattern matching reads C strings: both sides end at a NUL.\<close>

definition text_clause :: "string \<Rightarrow> task_row \<Rightarrow> bool" where
  "text_clause text r = like (takeWhile (\<lambda>n. n \<noteq> 0) (like_pattern text))
     (takeWhile (\<lambda>n. n \<noteq> 0) (map (\<lambda>c. ascii_lower (code c)) (search_document r)))"

section \<open>The query\<close>

definition search_filter :: "task_search_query \<Rightarrow> task_db \<Rightarrow> task_row \<Rightarrow> bool" where
  "search_filter q db r \<longleftrightarrow>
     (\<not> q_include_closed q \<and> q_statuses q = [] \<longrightarrow> r_status r \<notin> {Completed, Cancelled})
   \<and> (q_statuses q \<noteq> [] \<longrightarrow> r_status r \<in> set (q_statuses q))
   \<and> (q_execution_modes q \<noteq> [] \<longrightarrow> r_execution_mode r \<in> set (q_execution_modes q))
   \<and> (q_waiting_on q \<noteq> [] \<longrightarrow> (case r_waiting_on r of None \<Rightarrow> False
        | Some w \<Rightarrow> w \<in> set (q_waiting_on q)))
   \<and> (q_tags_any q \<noteq> [] \<longrightarrow> list_ex (\<lambda>t. t \<in> set (q_tags_any q)) (tags_of (r_id r) db))
   \<and> (q_tags_all q \<noteq> [] \<longrightarrow>
        length (remdups (filter (\<lambda>t. t \<in> set (q_tags_all q)) (tags_of (r_id r) db)))
          = length (q_tags_all q))
   \<and> (q_tags_none q \<noteq> [] \<longrightarrow> \<not> list_ex (\<lambda>t. t \<in> set (q_tags_none q)) (tags_of (r_id r) db))
   \<and> (case q_due_before q of None \<Rightarrow> True
      | Some b \<Rightarrow> (case r_due_at r of None \<Rightarrow> False | Some d \<Rightarrow> d \<le> b))
   \<and> (case q_text q of None \<Rightarrow> True | Some s \<Rightarrow> s = [] \<or> text_clause s r)"

text \<open>
  \<open>ORDER BY priority DESC, due_at IS NULL ASC, due_at ASC, updated_at DESC, id ASC\<close>
\<close>

definition search_key :: "task_row \<Rightarrow> int \<times> bool \<times> instant \<times> int \<times> string" where
  "search_key r = (- r_priority r, r_due_at r = None,
     (case r_due_at r of None \<Rightarrow> 0 | Some d \<Rightarrow> d), - r_updated_at r, r_id r)"

definition search_matches :: "task_search_query \<Rightarrow> task_db \<Rightarrow> task_row list" where
  "search_matches q db = sort_key search_key (filter (search_filter q db) (task_rows db))"

definition search_page :: "task_search_query \<Rightarrow> task_db \<Rightarrow> task_row list" where
  "search_page q db = take (q_limit q) (drop (q_offset q) (search_matches q db))"

primrec each_row :: "('a \<Rightarrow> 'b task_op) \<Rightarrow> 'a list \<Rightarrow> 'b list task_op" where
  "each_row f [] = ret []"
| "each_row f (x # xs) = bind (f x) (\<lambda>y. bind (each_row f xs) (\<lambda>ys. ret (y # ys)))"

definition search_impl :: "task_cfg \<Rightarrow> task_search_query \<Rightarrow> durable_task list task_op" where
  "search_impl cfg q = bind (reads (search_page q)) (each_row (task_from_row cfg))"

definition default_query :: "task_cfg \<Rightarrow> task_search_query" where
  "default_query cfg = \<lparr>q_text = None, q_statuses = [], q_execution_modes = [], q_waiting_on = [],
     q_tags_any = [], q_tags_all = [], q_tags_none = [], q_due_before = None,
     q_include_closed = False, q_limit = c_search_limit cfg, q_offset = 0\<rparr>"

definition task_search :: "task_cfg \<Rightarrow> task_search_query option \<Rightarrow> durable_task list task_op" where
  "task_search cfg query =
     bind (value_op (make_query (case query of None \<Rightarrow> default_query cfg | Some q \<Rightarrow> q))) (\<lambda>q.
     bind (unless (q_limit q \<le> c_search_limit cfg)
       (ValueError ''task search limit exceeds configured maximum'')) (\<lambda>_.
       search_impl cfg q))"

section \<open>Matching the escaped text\<close>

fun starts_with :: "nat list \<Rightarrow> nat list \<Rightarrow> bool" where
  "starts_with [] s = True"
| "starts_with (x # xs) [] = False"
| "starts_with (x # xs) (c # cs) = (ascii_lower c = ascii_lower x \<and> starts_with xs cs)"

text \<open>\<open>needle\<close> occurs in the text, letter case of ASCII letters ignored.\<close>

primrec occurs :: "nat list \<Rightarrow> nat list \<Rightarrow> bool" where
  "occurs needle [] = starts_with needle []"
| "occurs needle (c # cs) = (starts_with needle (c # cs) \<or> occurs needle cs)"

definition escaped :: "nat \<Rightarrow> nat list" where
  "escaped c = (if c \<in> {37, 92, 95} then [92, c] else [c])"

lemma escape_all: "escape_one 95 (escape_one 37 (escape_one 92 s)) = concat (map escaped s)"
  by (induction s) (auto simp: escape_one_def escaped_def)

lemma like_any: "like (37 # ps) s \<longleftrightarrow> (\<exists>n \<le> length s. like ps (drop n s))"
proof (induction s)
  case (Cons c cs)
  have "(\<exists>n \<le> length (c # cs). like ps (drop n (c # cs)))
      \<longleftrightarrow> like ps (c # cs) \<or> (\<exists>n \<le> length cs. like ps (drop n cs))"
    by (metis Suc_le_mono drop0 drop_Suc_Cons length_Cons not0_implies_Suc zero_le)
  with Cons show ?case by simp
qed simp

lemma like_tail: "like [37] s"
  by (induction s) auto

lemma like_escaped:
  "like (escaped x @ ps) s \<longleftrightarrow>
     (case s of [] \<Rightarrow> False | c # cs \<Rightarrow> ascii_lower c = ascii_lower x \<and> like ps cs)"
  by (auto simp: escaped_def split: list.splits)

lemma like_literal: "like (concat (map escaped w) @ [37]) s \<longleftrightarrow> starts_with w s"
proof (induction w arbitrary: s)
  case (Cons x xs)
  show ?case by (cases s) (simp_all add: like_escaped Cons del: like.simps)
qed (simp add: like_tail del: like.simps)

lemma starts_with_tail: "occurs w s \<longleftrightarrow> (\<exists>n \<le> length s. starts_with w (drop n s))"
proof (induction s)
  case (Cons c cs)
  have "(\<exists>n \<le> length (c # cs). starts_with w (drop n (c # cs)))
      \<longleftrightarrow> starts_with w (c # cs) \<or> (\<exists>n \<le> length cs. starts_with w (drop n cs))"
    by (metis Suc_le_mono drop0 drop_Suc_Cons length_Cons not0_implies_Suc zero_le)
  with Cons show ?case by simp
qed simp

lemma like_occurs: "like (37 # concat (map escaped w) @ [37]) s \<longleftrightarrow> occurs w s"
  by (simp add: like_any like_literal starts_with_tail del: like.simps(2))

section \<open>Results\<close>

lemma each_row_ok:
  assumes "\<And>x. x \<in> set xs \<Longrightarrow> f x db = (db, Inr (g x))"
  shows "each_row f xs db = (db, Inr (map g xs))"
  using assms by (induction xs) (simp_all add: op_defs)

lemma tags_all_clause:
  assumes "distinct ts" and "distinct tags"
  shows "length (remdups (filter (\<lambda>t. t \<in> set ts) tags)) = length ts \<longleftrightarrow> set ts \<subseteq> set tags"
proof -
  have "length (remdups (filter (\<lambda>t. t \<in> set ts) tags)) = card (set tags \<inter> set ts)"
    using assms(2) by (simp add: distinct_card [symmetric] distinct_remdups_id Int_def)
  also have "\<dots> = length ts \<longleftrightarrow> set tags \<inter> set ts = set ts"
    using assms(1) by (metis List.finite_set card_subset_eq distinct_card inf_le2)
  finally show ?thesis by blast
qed

end
