(* ===== verification/Task_Search_Properties.thy ===== *)
theory Task_Search_Properties
  imports Task_Search Task_Properties
begin

text \<open>The properties of structured task search, each with a concrete instance.\<close>

lemma ascii_lower_id: "\<not> (65 \<le> n \<and> n \<le> 90) \<Longrightarrow> ascii_lower n = n"
  by (auto simp: ascii_lower_def)

lemma like_pattern_nat:
  assumes "0 \<notin> set (casefold text)"
  shows "takeWhile (\<lambda>n. n \<noteq> 0) (like_pattern text) = 37 # concat (map escaped (casefold text)) @ [37]"
  using assms
  by (auto simp: like_pattern_def escape_all takeWhile_eq_all_conv escaped_def split: if_splits)

text \<open>
  The escaping of the free text is exact: a search for a text without NUL is a literal substring
  test of the case-folded text in the lowered document, whatever wildcards or backslashes it holds.
\<close>

theorem search_text_is_literal:
  assumes "CHR 0x00 \<notin> set text"
  shows "text_clause text r
    = occurs (casefold text) (takeWhile (\<lambda>n. n \<noteq> 0) (map (\<lambda>c. ascii_lower (code c)) (search_document r)))"
proof -
  have "0 \<notin> set (casefold text)"
  proof
    assume "0 \<in> set (casefold text)"
    then obtain c where c: "c \<in> set text" "0 \<in> set (casefold_char c)" by (auto simp: casefold_def)
    then have "code (py_lower_char c) = 0" by (auto simp: casefold_char_def split: if_splits)
    then have "code c = 0"
      by (auto simp: py_lower_char_def Let_def code_def split: if_splits dest!: dvd_imp_le)
    then have "code c = code (CHR 0x00)" by (simp add: code_def)
    then have "c = CHR 0x00" unfolding code_def of_char_eq_iff .
    with assms c(1) show False by simp
  qed
  from like_pattern_nat [OF this] show ?thesis by (simp only: text_clause_def like_occurs)
qed

definition percent_row :: task_row where
  "percent_row = \<lparr>r_id = ''x'', r_title = ''50%_OFF'', r_objective = ''o'', r_closure_criteria = ''c'',
     r_execution_mode = Mode_Agent, r_status = Open, r_waiting_on = None, r_current_summary = None,
     r_next_action = None, r_priority = 0, r_due_at = None, r_completion_summary = None, r_revision = 1,
     r_created_at = 0, r_updated_at = 0, r_completed_at = None, r_cancelled_at = None,
     r_lease_id = None, r_lease_holder = None, r_lease_epoch = 0, r_lease_acquired_at = None,
     r_lease_expires_at = None\<rparr>"

theorem search_text_is_literal_witness:
  "text_clause ''0%_o'' percent_row \<and> \<not> text_clause ''0__o'' percent_row"
proof -
  have "occurs (casefold ''0%_o'') (takeWhile (\<lambda>n. n \<noteq> 0)
      (map (\<lambda>c. ascii_lower (code c)) (search_document percent_row)))"
    "\<not> occurs (casefold ''0__o'') (takeWhile (\<lambda>n. n \<noteq> 0)
      (map (\<lambda>c. ascii_lower (code c)) (search_document percent_row)))"
    by code_simp+
  then show ?thesis using search_text_is_literal [of "''0%_o''"] search_text_is_literal [of "''0__o''"] by simp
qed

lemma occurs_mem: "occurs w s \<Longrightarrow> x \<in> set w \<Longrightarrow> \<not> (65 \<le> x \<and> x \<le> 90) \<Longrightarrow> \<exists>c \<in> set s. ascii_lower c = x"
proof -
  have "starts_with w s \<Longrightarrow> x \<in> set w \<Longrightarrow> \<not> (65 \<le> x \<and> x \<le> 90) \<Longrightarrow> \<exists>c \<in> set s. ascii_lower c = x" for s
    by (induction w s rule: starts_with.induct) (auto simp: ascii_lower_id)
  then show "occurs w s \<Longrightarrow> x \<in> set w \<Longrightarrow> \<not> (65 \<le> x \<and> x \<le> 90) \<Longrightarrow> \<exists>c \<in> set s. ascii_lower c = x"
    by (induction s) fastforce+
qed

text \<open>
  An accented capital is never found: searching for one finds no task in which the small letter
  does not occur, even if the capital itself does, because only the query is folded beyond ASCII.
\<close>

theorem search_misses_accented_capitals:
  assumes "192 \<le> code c" and "code c \<le> 222" and "code c \<noteq> 215"
    and "\<forall>d \<in> set (search_document r). code d \<noteq> code c + 32"
  shows "\<not> text_clause [c] r"
proof
  assume t: "text_clause [c] r"
  have cf: "casefold [c] = [code c + 32]"
    using assms(1-3) by (auto simp: casefold_def casefold_char_def py_lower_char_def Let_def code_def)
  have "c \<noteq> CHR 0x00" using assms(1) by (auto simp: code_def)
  with t search_text_is_literal [of "[c]" r]
  have "occurs [code c + 32] (takeWhile (\<lambda>n. n \<noteq> 0) (map (\<lambda>c. ascii_lower (code c)) (search_document r)))"
    by (simp add: cf)
  from occurs_mem [OF this, of "code c + 32"] assms(1)
  obtain n where "n \<in> set (takeWhile (\<lambda>n. n \<noteq> 0) (map (\<lambda>c. ascii_lower (code c)) (search_document r)))"
    "ascii_lower n = code c + 32" by auto
  then obtain d where "d \<in> set (search_document r)" "ascii_lower (ascii_lower (code d)) = code c + 32"
    by (auto dest!: set_takeWhileD)
  moreover from this have "code d = code c + 32"
    using assms(1) by (auto simp: ascii_lower_def split: if_splits)
  ultimately show False using assms(4) by blast
qed

theorem search_misses_accented_capitals_witness:
  "\<not> text_clause [CHR 0xC9] (percent_row\<lparr>r_title := [CHR 0xC9]\<rparr>)"
  by (rule search_misses_accented_capitals) (simp_all add: code_def search_document_def percent_row_def coalesce_def)

text \<open>
  The pages of a query, taken one after the other on an unchanged store, list every matching
  task exactly once and in the specified order, however large the page.
\<close>

theorem search_pages_cover:
  "concat (map (\<lambda>i. search_page (q\<lparr>q_offset := i * q_limit q\<rparr>) db) [0..<n])
     = take (n * q_limit q) (search_matches q db)
   \<and> set (search_matches q db) = {r \<in> set (task_rows db). search_filter q db r}
   \<and> length (search_matches q db) = length (filter (search_filter q db) (task_rows db))
   \<and> sorted (map search_key (search_matches q db))"
proof -
  have "search_filter (q\<lparr>q_offset := k\<rparr>) db = search_filter q db" for k
    unfolding search_filter_def by (simp cong: option.case_cong)
  then have m: "search_matches (q\<lparr>q_offset := k\<rparr>) db = search_matches q db" for k
    by (simp add: search_matches_def)
  have "concat (map (\<lambda>i. take l (drop (i * l) xs)) [0..<n]) = take (n * l) xs" for l and xs :: "task_row list"
    by (induction n) (simp_all add: take_add [symmetric] add.commute)
  then show ?thesis by (simp add: search_page_def m) (simp add: search_matches_def)
qed

text \<open>
  Search never fails on a store the code itself wrote: a valid query within the configured limit
  returns exactly the tasks of its page, in order, and changes nothing.
\<close>

theorem search_returns_page:
  assumes "well_clocked cfg now cs" and "db = run_calls cfg cs empty_task_db"
    and "make_query q = Inr q'" and "q_limit q' \<le> c_search_limit cfg"
  shows "\<exists>lease. task_search cfg (Some q) db = (db, Inr (map (\<lambda>r. row_to_task cfg r
    (tags_of (r_id r) db) (lease r)) (search_page q' db)))"
proof -
  have ok: "store_ok cfg (- {[]}) now db" using well_clocked_store assms(1,2) by simp
  have "\<exists>lease. task_from_row cfg r db = (db, Inr (row_to_task cfg r (tags_of (r_id r) db) lease))"
    if "r \<in> set (search_page q' db)" for r
  proof -
    have "r \<in> set (task_rows db)"
      using that by (auto simp: search_page_def search_matches_def dest!: in_set_takeD in_set_dropD)
    then have "find_task (r_id r) db = Some r"
      using ok by (auto simp: store_ok_def checks_ok_def keys_ok_def find_task_def find_row_mem)
    from store_reads_back [OF ok this] show ?thesis by metis
  qed
  then obtain lease where "\<And>r. r \<in> set (search_page q' db) \<Longrightarrow>
      task_from_row cfg r db = (db, Inr (row_to_task cfg r (tags_of (r_id r) db) (lease r)))"
    by metis
  from each_row_ok [of "search_page q' db" "task_from_row cfg", OF this] show ?thesis
    using assms(3,4) by (auto simp: task_search_def search_impl_def op_defs value_op_def)
qed

theorem search_returns_page_witness:
  "\<exists>ts. task_search sample_cfg (Some ((default_query sample_cfg)\<lparr>q_text := Some ''T ''\<rparr>)) sample_db
     = (sample_db, Inr ts) \<and> map t_id ts = [sample_id]"
proof -
  have wc: "well_clocked sample_cfg 5 sample_history" by code_simp
  have q: "make_query ((default_query sample_cfg)\<lparr>q_text := Some ''T ''\<rparr>)
      = Inr ((default_query sample_cfg)\<lparr>q_text := Some ''T''\<rparr>)"
    "q_limit ((default_query sample_cfg)\<lparr>q_text := Some ''T''\<rparr>) \<le> c_search_limit sample_cfg" by code_simp+
  have p: "map r_id (search_page ((default_query sample_cfg)\<lparr>q_text := Some ''T''\<rparr>) sample_db) = [sample_id]"
    by code_simp
  from search_returns_page [OF wc sample_db_def q] p show ?thesis
    by (auto simp: comp_def row_to_task_def)
qed

end
