(* ===== verification/Notify_Types.thy ===== *)
theory Notify_Types
  imports Profiles
begin

text \<open>
  The notification and outbox contracts (\<open>ricky/notifications/types.py\<close>) and the stored
  attachment they carry (\<open>ricky/attachments.py\<close>).  A constructor function runs the field
  constraints, the field validators and the model validator in Pydantic's order.  Instants are
  aware UTC datetimes by typing, so \<open>_require_utc\<close> holds for them.
\<close>

section \<open>Enumerations\<close>

datatype notification_urgency = Normal | Attention | Urgent

datatype message_text_format = Plain_Text | Portable_Markdown_V1

datatype correlation_kind =
    Cor_Task | Cor_Job_Run | Cor_Execution_Request | Cor_Workflow_Run | Cor_Conversation

datatype outbox_status =
    O_Pending | O_Claimed | O_Delivered | O_Failed | O_In_Doubt | O_Cancelled

datatype attempt_outcome =
    A_Claimed | A_Delivered | A_Not_Performed | A_In_Doubt | A_Released

datatype resolution_disposition = R_Delivered | R_Not_Delivered

definition sized :: "nat \<Rightarrow> nat \<Rightarrow> string \<Rightarrow> bool" where
  "sized lo hi s \<longleftrightarrow> lo \<le> length s \<and> length s \<le> hi"

definition opt_sized :: "nat \<Rightarrow> nat \<Rightarrow> string option \<Rightarrow> bool" where
  "opt_sized lo hi v \<longleftrightarrow> (case v of None \<Rightarrow> True | Some s \<Rightarrow> sized lo hi s)"

section \<open>Stored attachments\<close>

record stored_attachment =
  sa_storage_path :: string
  sa_filename :: string
  sa_media_type :: string
  sa_size_bytes :: nat
  sa_sha256 :: string

text \<open>\<open>Path.parts\<close> of a relative POSIX path keeps every segment that is neither empty nor a dot.\<close>

fun split_slash :: "string \<Rightarrow> string list" where
  "split_slash [] = [[]]"
| "split_slash (c # cs) =
     (if c = CHR ''/'' then [] # split_slash cs
      else case split_slash cs of [] \<Rightarrow> [[c]] | p # ps \<Rightarrow> (c # p) # ps)"

definition confined_path :: "string \<Rightarrow> bool" where
  "confined_path p \<longleftrightarrow> take 1 p \<noteq> ''/'' \<and> p \<noteq> ''.'' \<and> p \<noteq> ''..''
     \<and> ''..'' \<notin> set (split_slash p)"

definition make_attachment :: "stored_attachment \<Rightarrow> stored_attachment checked" where
  "make_attachment a =
     andthen (require (sized 1 4096 (sa_storage_path a)) ''storage_path'') (\<lambda>_.
     andthen (require (sized 1 255 (sa_filename a)) ''filename'') (\<lambda>_.
     andthen (require (sized 3 255 (sa_media_type a)) ''media_type'') (\<lambda>_.
     andthen (require (hex_id [] 64 (sa_sha256 a)) ''sha256'') (\<lambda>_.
     andthen (require (confined_path (sa_storage_path a))
       ''stored attachment path must stay below user_data_dir'') (\<lambda>_. Inr a)))))"

section \<open>Requests\<close>

record correlation_ref =
  cr_kind :: correlation_kind
  cr_id :: string
  cr_revision :: "int option"
  cr_profile_label :: profile_label

definition make_correlation :: "correlation_ref \<Rightarrow> correlation_ref checked" where
  "make_correlation c =
     andthen (require (sized 1 500 (cr_id c)) ''id'') (\<lambda>_.
     andthen (require (case cr_revision c of None \<Rightarrow> True | Some n \<Rightarrow> 0 \<le> n) ''revision'') (\<lambda>_.
     andthen (profile_label (required_profiles (cr_profile_label c))) (\<lambda>l.
       Inr (c\<lparr>cr_profile_label := l\<rparr>))))"

record notification_request =
  nr_id :: string
  nr_route :: string
  nr_title :: "string option"
  nr_body :: string
  nr_body_format :: message_text_format
  nr_urgency :: notification_urgency
  nr_source_kind :: string
  nr_profile_label :: profile_label
  nr_source_id :: string
  nr_dedupe_key :: string
  nr_correlations :: "correlation_ref list"
  nr_attachments :: "stored_attachment list"
  nr_created_at :: instant
  nr_expires_at :: "instant option"

text \<open>\<open>_trim_text\<close>\<close>

definition trimmed :: "string \<Rightarrow> string checked" where
  "trimmed value =
     (if py_strip value = [] then Inl ''notification text values cannot be empty''
      else Inr (py_strip value))"

definition trimmed_opt :: "string option \<Rightarrow> string option checked" where
  "trimmed_opt v = (case v of None \<Rightarrow> Inr None | Some s \<Rightarrow> andthen (trimmed s) (\<lambda>t. Inr (Some t)))"

definition request_fields_ok :: "notification_request \<Rightarrow> bool" where
  "request_fields_ok r \<longleftrightarrow> hex_id ''notification_'' 32 (nr_id r) \<and> sized 1 200 (nr_route r)
     \<and> opt_sized 1 500 (nr_title r) \<and> sized 1 20000 (nr_body r) \<and> sized 1 100 (nr_source_kind r)
     \<and> sized 1 500 (nr_source_id r) \<and> sized 1 500 (nr_dedupe_key r)
     \<and> length (nr_correlations r) \<le> 20 \<and> length (nr_attachments r) \<le> 20"

definition make_request :: "notification_request \<Rightarrow> notification_request checked" where
  "make_request r =
     andthen (require (request_fields_ok r) ''field constraint'') (\<lambda>_.
     andthen (trimmed (nr_route r)) (\<lambda>route.
     andthen (trimmed_opt (nr_title r)) (\<lambda>title.
     andthen (trimmed (nr_body r)) (\<lambda>body.
     andthen (trimmed (nr_source_kind r)) (\<lambda>kind.
     andthen (profile_label (required_profiles (nr_profile_label r))) (\<lambda>label.
     andthen (trimmed (nr_source_id r)) (\<lambda>source.
     andthen (trimmed (nr_dedupe_key r)) (\<lambda>key.
     andthen (collect make_correlation (nr_correlations r)) (\<lambda>correlations.
     andthen (collect make_attachment (nr_attachments r)) (\<lambda>attachments.
     andthen (require (case nr_expires_at r of None \<Rightarrow> True | Some e \<Rightarrow> nr_created_at r < e)
       ''expires_at must follow created_at'') (\<lambda>_.
       Inr (r\<lparr>nr_route := route, nr_title := title, nr_body := body, nr_source_kind := kind,
         nr_profile_label := label, nr_source_id := source, nr_dedupe_key := key,
         nr_correlations := correlations, nr_attachments := attachments\<rparr>))))))))))))"

section \<open>Outbox entries, attempts and resolutions\<close>

record outbox_entry =
  oe_id :: string
  oe_notification_id :: string
  oe_route :: string
  oe_status :: outbox_status
  oe_attempt_count :: int
  oe_fence :: int
  oe_lease_owner :: "string option"
  oe_lease_token :: "string option"
  oe_lease_expires_at :: "instant option"
  oe_transport :: "string option"
  oe_destination_ref :: "string option"
  oe_platform_message_id :: "string option"
  oe_error :: "string option"
  oe_created_at :: instant
  oe_updated_at :: instant
  oe_delivered_at :: "instant option"

definition entry_fields_ok :: "outbox_entry \<Rightarrow> bool" where
  "entry_fields_ok e \<longleftrightarrow> hex_id ''outbox_'' 32 (oe_id e)
     \<and> hex_id ''notification_'' 32 (oe_notification_id e) \<and> sized 1 200 (oe_route e)
     \<and> 0 \<le> oe_attempt_count e \<and> 0 \<le> oe_fence e \<and> opt_sized 1 200 (oe_lease_owner e)
     \<and> opt_sized 1 128 (oe_lease_token e) \<and> opt_sized 1 100 (oe_transport e)
     \<and> opt_sized 1 500 (oe_destination_ref e) \<and> opt_sized 1 500 (oe_platform_message_id e)
     \<and> opt_sized 1 2000 (oe_error e)"

definition entry_state_ok :: "outbox_entry \<Rightarrow> bool" where
  "entry_state_ok e \<longleftrightarrow> oe_created_at e \<le> oe_updated_at e
     \<and> (if oe_status e = O_Claimed
        then oe_lease_owner e \<noteq> None \<and> oe_lease_token e \<noteq> None \<and> oe_lease_expires_at e \<noteq> None
        else oe_lease_owner e = None \<and> oe_lease_token e = None \<and> oe_lease_expires_at e = None)
     \<and> (oe_status e = O_Delivered \<longleftrightarrow> oe_delivered_at e \<noteq> None)"

definition make_entry :: "outbox_entry \<Rightarrow> outbox_entry checked" where
  "make_entry e =
     andthen (require (entry_fields_ok e) ''field constraint'') (\<lambda>_.
     andthen (require (entry_state_ok e) ''inconsistent outbox state'') (\<lambda>_. Inr e))"

record notification_record =
  rec_request :: notification_request
  rec_outbox :: outbox_entry

record delivery_attempt =
  da_id :: nat
  da_outbox_id :: string
  da_attempt_number :: int
  da_fence :: int
  da_worker :: string
  da_transport :: string
  da_destination_ref :: string
  da_outcome :: attempt_outcome
  da_error :: "string option"
  da_started_at :: instant
  da_finished_at :: "instant option"

definition make_attempt :: "delivery_attempt \<Rightarrow> delivery_attempt checked" where
  "make_attempt a =
     andthen (require (1 \<le> da_id a \<and> 1 \<le> da_attempt_number a \<and> 1 \<le> da_fence a
       \<and> sized 1 200 (da_worker a) \<and> sized 1 100 (da_transport a)
       \<and> sized 1 500 (da_destination_ref a) \<and> opt_sized 0 2000 (da_error a)) ''field constraint'') (\<lambda>_.
     andthen (require (case da_finished_at a of None \<Rightarrow> True | Some f \<Rightarrow> da_started_at a \<le> f)
       ''finished_at cannot precede started_at'') (\<lambda>_.
     andthen (require (da_outcome a = A_Claimed \<longrightarrow> da_finished_at a = None)
       ''an active attempt cannot have finished_at'') (\<lambda>_.
     andthen (require (da_outcome a \<noteq> A_Claimed \<longrightarrow> da_finished_at a \<noteq> None)
       ''a terminal attempt requires finished_at'') (\<lambda>_. Inr a))))"

record operator_resolution =
  or_id :: nat
  or_outbox_id :: string
  or_disposition :: resolution_disposition
  or_actor :: string
  or_note :: "string option"
  or_created_at :: instant

definition make_resolution :: "operator_resolution \<Rightarrow> operator_resolution checked" where
  "make_resolution r =
     andthen (require (1 \<le> or_id r \<and> sized 1 200 (or_actor r) \<and> opt_sized 0 2000 (or_note r))
       ''field constraint'') (\<lambda>_. Inr r)"

section \<open>Validated values validate again\<close>

lemma profile_label_ok: "profile_label v = Inr l \<Longrightarrow> label_ok l"
  by (auto simp: profile_label_def andthen_Inr label_ok_def require_def dest!: canonical_profiles_ok
      split: if_splits)

lemma profile_label_fix: "label_ok l \<Longrightarrow> profile_label (required_profiles l) = Inr l"
  by (auto simp: profile_label_def label_ok_def canonical_profiles_fix canonical_names require_def)

lemma trimmed_ok: "trimmed s = Inr t \<longleftrightarrow> t = py_strip s \<and> t \<noteq> []"
  by (auto simp: trimmed_def)

lemma trimmed_opt_ok: "trimmed_opt v = Inr w \<longleftrightarrow> w = map_option py_strip v \<and> w \<noteq> Some []"
  by (auto simp: trimmed_opt_def andthen_Inr trimmed_ok split: option.splits)

lemma length_strip: "length (py_strip s) \<le> length s"
  unfolding py_strip_def by (metis length_dropWhile_le length_rev le_trans)

lemma sized_strip: "sized lo hi s \<Longrightarrow> py_strip s \<noteq> [] \<Longrightarrow> sized 1 hi (py_strip s)"
  using length_strip [of s] by (cases "py_strip s") (auto simp: sized_def)

lemma collect_fix:
  assumes "\<And>x y. f x = Inr y \<Longrightarrow> f y = Inr y" and "collect f xs = Inr ys"
  shows "collect f ys = Inr ys" "length ys = length xs"
proof -
  from assms(2) have a: "list_all2 (\<lambda>x y. f x = Inr y) xs ys" by (simp add: collect_Inr)
  then show "length ys = length xs" by (simp add: list_all2_lengthD)
  show "collect f ys = Inr ys"
    using a by (induction rule: list_all2_induct) (simp_all add: assms(1))
qed

lemma make_correlation_fix: "make_correlation c = Inr d \<Longrightarrow> make_correlation d = Inr d"
  by (auto simp: make_correlation_def andthen_Inr profile_label_fix profile_label_ok)

lemma make_attachment_fix: "make_attachment a = Inr b \<Longrightarrow> make_attachment b = Inr b"
  by (auto simp: make_attachment_def andthen_Inr)

text \<open>What a validated request satisfies; on such a request the constructor is the identity.\<close>

definition plain :: "string \<Rightarrow> bool" where
  "plain s \<longleftrightarrow> s \<noteq> [] \<and> py_strip s = s"

definition request_ok :: "notification_request \<Rightarrow> bool" where
  "request_ok r \<longleftrightarrow> request_fields_ok r \<and> plain (nr_route r) \<and> pred_option plain (nr_title r)
     \<and> plain (nr_body r) \<and> plain (nr_source_kind r) \<and> label_ok (nr_profile_label r)
     \<and> plain (nr_source_id r) \<and> plain (nr_dedupe_key r)
     \<and> collect make_correlation (nr_correlations r) = Inr (nr_correlations r)
     \<and> collect make_attachment (nr_attachments r) = Inr (nr_attachments r)
     \<and> (case nr_expires_at r of None \<Rightarrow> True | Some e \<Rightarrow> nr_created_at r < e)"

lemma trimmed_plain: "trimmed s = Inr t \<Longrightarrow> plain t"
  by (auto simp: trimmed_ok plain_def)

lemma plain_trimmed: "plain s \<Longrightarrow> trimmed s = Inr s"
  by (simp add: trimmed_ok plain_def)

lemma trimmed_opt_plain: "trimmed_opt v = Inr w \<Longrightarrow> pred_option plain w"
  by (cases v) (auto simp: trimmed_opt_def andthen_Inr trimmed_plain)

lemma plain_trimmed_opt: "pred_option plain v \<Longrightarrow> trimmed_opt v = Inr v"
  by (cases v) (auto simp: trimmed_opt_def plain_trimmed)

lemma make_request_id: "request_ok r \<Longrightarrow> make_request r = Inr r"
  by (simp add: request_ok_def make_request_def require_def plain_trimmed plain_trimmed_opt
      profile_label_fix)

lemma trimmed_sized: "trimmed s = Inr t \<Longrightarrow> sized lo hi s \<Longrightarrow> sized (Suc 0) hi t"
  using sized_strip [of lo hi s] by (auto simp: trimmed_ok)

lemma trimmed_opt_sized: "trimmed_opt v = Inr w \<Longrightarrow> opt_sized lo hi v \<Longrightarrow> opt_sized (Suc 0) hi w"
  by (cases v) (auto simp: trimmed_opt_def andthen_Inr opt_sized_def trimmed_sized)

lemma make_request_ok:
  assumes "make_request r = Inr q"
  shows "request_ok q"
proof -
  from assms obtain route title body kind label source key cs ats where
    t: "trimmed (nr_route r) = Inr route" "trimmed_opt (nr_title r) = Inr title"
      "trimmed (nr_body r) = Inr body" "trimmed (nr_source_kind r) = Inr kind"
      "profile_label (required_profiles (nr_profile_label r)) = Inr label"
      "trimmed (nr_source_id r) = Inr source" "trimmed (nr_dedupe_key r) = Inr key"
      "collect make_correlation (nr_correlations r) = Inr cs"
      "collect make_attachment (nr_attachments r) = Inr ats"
    and f: "request_fields_ok r" and e: "case nr_expires_at r of None \<Rightarrow> True | Some e \<Rightarrow> nr_created_at r < e"
    and q: "q = r\<lparr>nr_route := route, nr_title := title, nr_body := body, nr_source_kind := kind,
         nr_profile_label := label, nr_source_id := source, nr_dedupe_key := key,
         nr_correlations := cs, nr_attachments := ats\<rparr>"
    unfolding make_request_def andthen_Inr by auto
  have c: "collect make_correlation cs = Inr cs" "length cs = length (nr_correlations r)"
    using t(8) by (auto intro: collect_fix make_correlation_fix)
  have a: "collect make_attachment ats = Inr ats" "length ats = length (nr_attachments r)"
    using t(9) by (auto intro: collect_fix make_attachment_fix)
  have "request_fields_ok q"
    using f c(2) a(2) t(1-4,6,7)
    by (auto simp: request_fields_ok_def q dest: trimmed_sized trimmed_opt_sized)
  then show ?thesis
    using t e c(1) a(1)
    by (auto simp: request_ok_def q trimmed_plain trimmed_opt_plain profile_label_ok
        split: option.splits)
qed

lemma make_request_fix: "make_request r = Inr q \<Longrightarrow> make_request q = Inr q"
  by (rule make_request_id) (rule make_request_ok)

end
