(* ===== verification/Notify_Store.thy ===== *)
theory Notify_Store
  imports Notify_Types
begin

text \<open>
  The notification store (\<open>ricky/notifications/store.py\<close>): tables, row conversion, the
  transaction bodies \<open>_m\<close> as \<open>m_impl\<close> and the public coroutines as \<open>notify_m\<close>.  The
  canonical request JSON is the stored request value itself; reading it runs the validators again,
  as \<open>model_validate_json\<close> does.
\<close>

datatype notify_error =
    NotificationNotFoundError string
  | NotificationStateError string
  | NotificationLeaseError string
  | NotificationSchemaError string
  | NotificationStoreError string
  | Notify_ValueError string
  | Notify_ValidationError string
  | LeaseExpired_Signal

abbreviation notify_sqlite_error :: notify_error where
  "notify_sqlite_error \<equiv> NotificationStoreError ''notification store operation failed''"

section \<open>Tables\<close>

record notification_row =
  n_id :: string
  n_schema_version :: nat
  n_request :: notification_request
  n_source_kind :: string
  n_source_id :: string
  n_dedupe_key :: string
  n_route :: string
  n_created_at :: instant

record outbox_row =
  o_id :: string
  o_notification_id :: string
  o_route :: string
  o_source_kind :: string
  o_source_id :: string
  o_dedupe_key :: string
  o_status :: outbox_status
  o_attempt_count :: int
  o_fence :: int
  o_lease_owner :: "string option"
  o_lease_token :: "string option"
  o_lease_expires_at :: "instant option"
  o_transport :: "string option"
  o_destination_ref :: "string option"
  o_platform_message_id :: "string option"
  o_error :: "string option"
  o_created_at :: instant
  o_updated_at :: instant
  o_delivered_at :: "instant option"

record attempt_row =
  at_id :: nat
  at_outbox_id :: string
  at_attempt_number :: int
  at_fence :: int
  at_worker :: string
  at_transport :: string
  at_destination_ref :: string
  at_outcome :: attempt_outcome
  at_error :: "string option"
  at_started_at :: instant
  at_finished_at :: "instant option"

record resolution_row =
  re_id :: nat
  re_outbox_id :: string
  re_disposition :: resolution_disposition
  re_actor :: string
  re_note :: "string option"
  re_created_at :: instant

record notify_db =
  notification_rows :: "notification_row list"
  outbox_rows :: "outbox_row list"
  attempt_rows :: "attempt_row list"
  attempt_seq :: nat
  resolution_rows :: "resolution_row list"
  resolution_seq :: nat

record notify_cfg =
  nc_lease_seconds :: int
  nc_attempt_limit :: int
  nc_attachments_confined :: bool

type_synonym 'a notify_op = "(notify_db, notify_error, 'a) op"

definition empty_notify_db :: notify_db where
  "empty_notify_db = \<lparr>notification_rows = [], outbox_rows = [], attempt_rows = [],
     attempt_seq = 0, resolution_rows = [], resolution_seq = 0\<rparr>"

definition find_outbox :: "string \<Rightarrow> notify_db \<Rightarrow> outbox_row option" where
  "find_outbox k db = find_row o_id k (outbox_rows db)"

definition find_notification :: "string \<Rightarrow> notify_db \<Rightarrow> notification_row option" where
  "find_notification k db = find_row n_id k (notification_rows db)"

text \<open>\<open>CHECK\<close> constraints of the outbox.\<close>

definition outbox_check :: "outbox_row \<Rightarrow> bool" where
  "outbox_check r \<longleftrightarrow> 0 \<le> o_attempt_count r \<and> 0 \<le> o_fence r"

definition dedupe_of :: "outbox_row \<Rightarrow> string \<times> string \<times> string \<times> string" where
  "dedupe_of r = (o_source_kind r, o_source_id r, o_dedupe_key r, o_route r)"

text \<open>
  Insertion into the outbox: primary key, unique and existing notification, \<open>CHECK\<close>, and the
  partial unique index \<open>outbox_active_dedupe\<close> over rows that are not cancelled.  The updates of
  the store never change an indexed column and never leave the cancelled state, so only insertion
  can violate the index.
\<close>

definition outbox_insert_ok :: "notify_db \<Rightarrow> outbox_row \<Rightarrow> bool" where
  "outbox_insert_ok db r \<longleftrightarrow> outbox_check r
     \<and> list_all (\<lambda>q. o_notification_id q \<noteq> o_notification_id r) (outbox_rows db)
     \<and> find_notification (o_notification_id r) db \<noteq> None
     \<and> (o_status r = O_Cancelled
        \<or> list_all (\<lambda>q. o_status q = O_Cancelled \<or> dedupe_of q \<noteq> dedupe_of r) (outbox_rows db))"

definition sql_insert_outbox :: "outbox_row \<Rightarrow> unit notify_op" where
  "sql_insert_outbox r =
     bind (reads (\<lambda>db. outbox_insert_ok db r)) (\<lambda>ok.
       sql_insert outbox_rows outbox_rows_update o_id (\<lambda>_. ok) notify_sqlite_error r)"

definition sql_update_outbox :: "string \<Rightarrow> (outbox_row \<Rightarrow> outbox_row) \<Rightarrow> nat notify_op" where
  "sql_update_outbox k =
     sql_update outbox_rows outbox_rows_update outbox_check notify_sqlite_error (\<lambda>r. o_id r = k)"

definition sql_insert_notification :: "notification_row \<Rightarrow> unit notify_op" where
  "sql_insert_notification =
     sql_insert notification_rows notification_rows_update n_id (\<lambda>_. True) notify_sqlite_error"

interpretation outbox: keyed_table outbox_rows outbox_rows_update o_id
  by unfold_locales simp_all

interpretation requests: keyed_table notification_rows notification_rows_update n_id
  by unfold_locales simp_all

section \<open>Rows and models\<close>

definition request_of :: "notification_row \<Rightarrow> notify_error + notification_request" where
  "request_of n = (case make_request (n_request n) of
     Inl _ \<Rightarrow> Inl (NotificationSchemaError ''stored notification request is invalid'') | Inr r \<Rightarrow> Inr r)"

definition entry_of :: "outbox_row \<Rightarrow> notify_error + outbox_entry" where
  "entry_of r = (case make_entry
     \<lparr>oe_id = o_id r, oe_notification_id = o_notification_id r, oe_route = o_route r,
      oe_status = o_status r, oe_attempt_count = o_attempt_count r, oe_fence = o_fence r,
      oe_lease_owner = o_lease_owner r, oe_lease_token = o_lease_token r,
      oe_lease_expires_at = o_lease_expires_at r, oe_transport = o_transport r,
      oe_destination_ref = o_destination_ref r, oe_platform_message_id = o_platform_message_id r,
      oe_error = o_error r, oe_created_at = o_created_at r, oe_updated_at = o_updated_at r,
      oe_delivered_at = o_delivered_at r\<rparr> of
     Inl m \<Rightarrow> Inl (Notify_ValidationError m) | Inr e \<Rightarrow> Inr e)"

definition attempt_of :: "attempt_row \<Rightarrow> notify_error + delivery_attempt" where
  "attempt_of a = (case make_attempt
     \<lparr>da_id = at_id a, da_outbox_id = at_outbox_id a, da_attempt_number = at_attempt_number a,
      da_fence = at_fence a, da_worker = at_worker a, da_transport = at_transport a,
      da_destination_ref = at_destination_ref a, da_outcome = at_outcome a, da_error = at_error a,
      da_started_at = at_started_at a, da_finished_at = at_finished_at a\<rparr> of
     Inl m \<Rightarrow> Inl (Notify_ValidationError m) | Inr e \<Rightarrow> Inr e)"

definition resolution_of :: "resolution_row \<Rightarrow> notify_error + operator_resolution" where
  "resolution_of r = (case make_resolution
     \<lparr>or_id = re_id r, or_outbox_id = re_outbox_id r, or_disposition = re_disposition r,
      or_actor = re_actor r, or_note = re_note r, or_created_at = re_created_at r\<rparr> of
     Inl m \<Rightarrow> Inl (Notify_ValidationError m) | Inr e \<Rightarrow> Inr e)"

definition record_of :: "notification_row \<times> outbox_row \<Rightarrow> notify_error + notification_record" where
  "record_of p = (case p of (n, r) \<Rightarrow>
     andthen (require (n_schema_version n = 1)
       (NotificationSchemaError ''unsupported stored notification schema version'')) (\<lambda>_.
     andthen (request_of n) (\<lambda>q.
     andthen (entry_of r) (\<lambda>e. Inr \<lparr>rec_request = q, rec_outbox = e\<rparr>))))"

definition joined :: "notify_db \<Rightarrow> outbox_row \<Rightarrow> (notification_row \<times> outbox_row) list" where
  "joined db r = (case find_notification (o_notification_id r) db of None \<Rightarrow> [] | Some n \<Rightarrow> [(n, r)])"

definition join_rows :: "(outbox_row \<Rightarrow> bool) \<Rightarrow> notify_db \<Rightarrow> (notification_row \<times> outbox_row) list" where
  "join_rows P db = concat (map (joined db)
     (sort_key (\<lambda>r. (o_created_at r, o_id r)) (filter P (outbox_rows db))))"

definition outbox_row_by_id :: "string \<Rightarrow> outbox_row notify_op" where
  "outbox_row_by_id k = bind (reads (find_outbox k))
     (some_or (NotificationNotFoundError ''outbox entry was not found''))"

definition entry_by_id :: "string \<Rightarrow> outbox_entry notify_op" where
  "entry_by_id k = bind (outbox_row_by_id k) (\<lambda>r. lift (entry_of r))"

definition join_by_outbox :: "string \<Rightarrow> notify_db \<Rightarrow> (notification_row \<times> outbox_row) option" where
  "join_by_outbox k db = (case find_outbox k db of None \<Rightarrow> None
     | Some r \<Rightarrow> map_option (\<lambda>n. (n, r)) (find_notification (o_notification_id r) db))"

definition join_by_notification :: "string \<Rightarrow> notify_db \<Rightarrow> (notification_row \<times> outbox_row) option" where
  "join_by_notification k db = (case find_notification k db of None \<Rightarrow> None
     | Some n \<Rightarrow> map_option (\<lambda>r. (n, r)) (find_row o_notification_id k (outbox_rows db)))"

definition record_by_notification :: "string \<Rightarrow> notification_record notify_op" where
  "record_by_notification k = bind (reads (join_by_notification k)) (\<lambda>p.
     bind (some_or (NotificationNotFoundError ''notification was not found'') p) (\<lambda>p.
       lift (record_of p)))"

definition assert_record_scope :: "notification_record \<Rightarrow> profile_scope \<Rightarrow> unit notify_op" where
  "assert_record_scope q scope = unless (permits scope (nr_profile_label (rec_request q)))
     (NotificationNotFoundError ''notification was not found in the active profile scope'')"

definition assert_outbox_scope :: "string \<Rightarrow> profile_scope \<Rightarrow> unit notify_op" where
  "assert_outbox_scope k scope =
     bind (reads (join_by_outbox k)) (\<lambda>p.
     bind (some_or (NotificationNotFoundError ''outbox entry was not found'') p) (\<lambda>p.
     bind (lift (request_of (fst p))) (\<lambda>q.
       unless (permits scope (nr_profile_label q))
         (NotificationNotFoundError ''outbox entry was not found in the active profile scope''))))"

text \<open>The rows a scope may see, in the order given; an invalid stored request raises.\<close>

definition permitted ::
  "profile_scope \<Rightarrow> (notification_row \<times> 'a) list \<Rightarrow> notify_error + (notification_row \<times> 'a) list" where
  "permitted scope ps = andthen (collect (\<lambda>p. andthen (request_of (fst p)) (\<lambda>q.
       Inr (permits scope (nr_profile_label q), p))) ps) (\<lambda>qs. Inr (map snd (filter fst qs)))"

section \<open>Leases\<close>

definition assert_lease :: "outbox_entry \<Rightarrow> instant \<Rightarrow> outbox_row notify_op" where
  "assert_lease entry now =
     bind (outbox_row_by_id (oe_id entry)) (\<lambda>row.
     bind (unless (o_status row = O_Claimed)
       (NotificationLeaseError ''notification delivery lease is not active'')) (\<lambda>_.
     bind (unless (o_lease_token row = oe_lease_token entry \<and> o_fence row = oe_fence entry)
       (NotificationLeaseError ''notification delivery lease is foreign or stale'')) (\<lambda>_.
     bind (some_or (Notify_ValidationError ''lease_expires_at'') (o_lease_expires_at row)) (\<lambda>e.
     bind (unless (now < e) LeaseExpired_Signal) (\<lambda>_. ret row)))))"

text \<open>\<open>UPDATE delivery_attempts SET ... WHERE outbox_id = ? AND fence = ? AND outcome = 'claimed'\<close>\<close>

definition close_attempt ::
  "string \<Rightarrow> int \<Rightarrow> attempt_outcome \<Rightarrow> string option \<Rightarrow> instant \<Rightarrow> attempt_row \<Rightarrow> attempt_row" where
  "close_attempt k fence outcome error now a =
     (if at_outbox_id a = k \<and> at_fence a = fence \<and> at_outcome a = A_Claimed
      then a\<lparr>at_outcome := outcome, at_error := error, at_finished_at := Some now\<rparr> else a)"

definition sql_close_attempt ::
  "string \<Rightarrow> int \<Rightarrow> attempt_outcome \<Rightarrow> string option \<Rightarrow> instant \<Rightarrow> unit notify_op" where
  "sql_close_attempt k fence outcome error now =
     writes (attempt_rows_update (map (close_attempt k fence outcome error now)))"

definition expiry_error :: string where
  "expiry_error = ''delivery claim expired after send status became ambiguous''"

definition expire_claim :: "outbox_row \<Rightarrow> instant \<Rightarrow> unit notify_op" where
  "expire_claim row now =
     bind (sql_update_outbox (o_id row) (\<lambda>r. r\<lparr>o_status := O_In_Doubt, o_lease_owner := None,
             o_lease_token := None, o_lease_expires_at := None, o_error := Some expiry_error,
             o_updated_at := now\<rparr>)) (\<lambda>_.
       sql_close_attempt (o_id row) (o_fence row) A_In_Doubt (Some expiry_error) now)"

definition persist_expired_claim :: "outbox_entry \<Rightarrow> instant \<Rightarrow> unit notify_op" where
  "persist_expired_claim entry now =
     atomic (bind (outbox_row_by_id (oe_id entry)) (\<lambda>row.
       if o_status row = O_Claimed \<and> o_lease_token row = oe_lease_token entry
          \<and> o_fence row = oe_fence entry
          \<and> (case o_lease_expires_at row of None \<Rightarrow> False | Some e \<Rightarrow> e \<le> now)
       then expire_claim row now else ret ()))"

text \<open>\<open>try: ... except _LeaseExpired: self._persist_expired_claim(entry, now); raise ...\<close>\<close>

definition or_expire :: "outbox_entry \<Rightarrow> instant \<Rightarrow> 'a notify_op \<Rightarrow> 'a notify_op" where
  "or_expire entry now m = (\<lambda>db. case m db of
     (db', Inl LeaseExpired_Signal) \<Rightarrow>
       bind (persist_expired_claim entry now)
         (\<lambda>_. raise (NotificationLeaseError ''notification delivery lease expired'')) db'
   | res \<Rightarrow> res)"

end
