(* ===== verification/Notify_Ops.thy ===== *)
theory Notify_Ops
  imports Notify_Store
begin

text \<open>The operations of the notification store: transaction bodies, then the public coroutines.\<close>

section \<open>Transaction bodies\<close>

definition same_key :: "notification_request \<Rightarrow> outbox_row \<Rightarrow> bool" where
  "same_key q r \<longleftrightarrow> dedupe_of r = (nr_source_kind q, nr_source_id q, nr_dedupe_key q, nr_route q)"

definition existing_entry :: "notification_request \<Rightarrow> notify_db \<Rightarrow> outbox_row option" where
  "existing_entry q db =
     (case sort_key (\<lambda>r. (o_created_at r, o_id r)) (filter (same_key q) (outbox_rows db)) of
        [] \<Rightarrow> None | r # _ \<Rightarrow> Some r)"

definition new_notification_row :: "notification_request \<Rightarrow> notification_row" where
  "new_notification_row q =
     \<lparr>n_id = nr_id q, n_schema_version = 1, n_request = q, n_source_kind = nr_source_kind q,
      n_source_id = nr_source_id q, n_dedupe_key = nr_dedupe_key q, n_route = nr_route q,
      n_created_at = nr_created_at q\<rparr>"

definition new_outbox_row :: "string \<Rightarrow> notification_request \<Rightarrow> outbox_row" where
  "new_outbox_row uuid q =
     \<lparr>o_id = ''outbox_'' @ uuid, o_notification_id = nr_id q, o_route = nr_route q,
      o_source_kind = nr_source_kind q, o_source_id = nr_source_id q,
      o_dedupe_key = nr_dedupe_key q, o_status = O_Pending, o_attempt_count = 0, o_fence = 0,
      o_lease_owner = None, o_lease_token = None, o_lease_expires_at = None, o_transport = None,
      o_destination_ref = None, o_platform_message_id = None, o_error = None,
      o_created_at = nr_created_at q, o_updated_at = nr_created_at q, o_delivered_at = None\<rparr>"

definition enqueue_impl :: "string \<Rightarrow> notification_request \<Rightarrow> notification_record notify_op" where
  "enqueue_impl uuid q =
     atomic (bind (reads (existing_entry q)) (\<lambda>existing.
       case existing of
         Some r \<Rightarrow> record_by_notification (o_notification_id r)
       | None \<Rightarrow>
           bind (sql_insert_notification (new_notification_row q)) (\<lambda>_.
           bind (sql_insert_outbox (new_outbox_row uuid q)) (\<lambda>_.
             record_by_notification (nr_id q)))))"

definition get_impl :: "string \<Rightarrow> profile_scope \<Rightarrow> notification_record notify_op" where
  "get_impl k scope = bind (record_by_notification k) (\<lambda>q.
     bind (assert_record_scope q scope) (\<lambda>_. ret q))"

definition get_outbox_impl :: "string \<Rightarrow> profile_scope \<Rightarrow> outbox_entry notify_op" where
  "get_outbox_impl k scope = bind (assert_outbox_scope k scope) (\<lambda>_. entry_by_id k)"

definition get_by_outbox_impl :: "string \<Rightarrow> profile_scope \<Rightarrow> notification_record notify_op" where
  "get_by_outbox_impl k scope =
     bind (reads (join_by_outbox k)) (\<lambda>p.
     bind (some_or (NotificationNotFoundError ''outbox entry was not found'') p) (\<lambda>p.
     bind (lift (record_of p)) (\<lambda>q.
     bind (assert_record_scope q scope) (\<lambda>_. ret q))))"

definition records_in ::
  "profile_scope \<Rightarrow> (notification_row \<times> outbox_row) list \<Rightarrow> notify_error + notification_record list" where
  "records_in scope ps = andthen (collect record_of ps) (\<lambda>qs.
     Inr (filter (\<lambda>q. permits scope (nr_profile_label (rec_request q))) qs))"

definition list_impl ::
  "outbox_status option \<Rightarrow> nat \<Rightarrow> profile_scope \<Rightarrow> notification_record list notify_op" where
  "list_impl status limit scope =
     bind (reads (join_rows (\<lambda>r. case status of None \<Rightarrow> True | Some s \<Rightarrow> o_status r = s))) (\<lambda>ps.
     bind (lift (records_in scope (rev ps))) (\<lambda>qs. ret (take limit qs)))"

definition list_pending_oldest_impl :: "nat \<Rightarrow> profile_scope \<Rightarrow> notification_record list notify_op" where
  "list_pending_oldest_impl limit scope =
     bind (reads (join_rows (\<lambda>r. o_status r = O_Pending))) (\<lambda>ps.
     bind (lift (records_in scope ps)) (\<lambda>qs. ret (take limit qs)))"

definition source_ids_impl :: "string \<Rightarrow> profile_scope \<Rightarrow> string set notify_op" where
  "source_ids_impl kind scope =
     bind (reads (\<lambda>db. map (\<lambda>n. (n, ())) (filter (\<lambda>n. n_source_kind n = kind) (notification_rows db)))) (\<lambda>ns.
     bind (lift (permitted scope ns)) (\<lambda>ns. ret (set (map (\<lambda>p. n_source_id (fst p)) ns))))"

definition unresolved :: "outbox_row \<Rightarrow> bool" where
  "unresolved r \<longleftrightarrow> o_status r \<in> {O_Pending, O_Claimed, O_Failed, O_In_Doubt}"

definition unresolved_outbox_ids_impl :: "profile_scope \<Rightarrow> string list notify_op" where
  "unresolved_outbox_ids_impl scope =
     bind (reads (\<lambda>db. concat (map (joined db) (sort_key o_id (filter unresolved (outbox_rows db)))))) (\<lambda>ps.
     bind (lift (permitted scope ps)) (\<lambda>ps. ret (map (\<lambda>p. o_id (snd p)) ps)))"

definition conversations_of :: "notification_request \<Rightarrow> string list" where
  "conversations_of q =
     (case strip_prefix ''conversation:'' (nr_route q) of None \<Rightarrow> [] | Some c \<Rightarrow> [c])
     @ map cr_id (filter (\<lambda>c. cr_kind c = Cor_Conversation) (nr_correlations q))"

definition unresolved_conversation_ids_impl :: "profile_scope \<Rightarrow> string list notify_op" where
  "unresolved_conversation_ids_impl scope =
     bind (reads (\<lambda>db. concat (map (joined db) (filter unresolved (outbox_rows db))))) (\<lambda>ps.
     bind (lift (permitted scope ps)) (\<lambda>ps.
     bind (lift (collect (\<lambda>p. request_of (fst p)) ps)) (\<lambda>qs.
       ret (sort (remdups (concat (map conversations_of qs)))))))"

text \<open>
  \<open>_claim\<close>: an expired claim is turned into \<open>in_doubt\<close>, and that write is committed before the
  state error is raised; the flag is the code's \<open>expired\<close>.
\<close>

definition next_attempt_number :: "string \<Rightarrow> notify_db \<Rightarrow> int" where
  "next_attempt_number k db = Max (insert 0
     (set (map at_attempt_number (filter (\<lambda>a. at_outbox_id a = k) (attempt_rows db))))) + 1"

definition sql_insert_attempt ::
  "string \<Rightarrow> int \<Rightarrow> int \<Rightarrow> string \<Rightarrow> string \<Rightarrow> string \<Rightarrow> instant \<Rightarrow> unit notify_op" where
  "sql_insert_attempt k number fence worker transport destination now =
     bind (reads id) (\<lambda>db.
     bind (unless (find_outbox k db \<noteq> None
         \<and> list_all (\<lambda>a. \<not> (at_outbox_id a = k \<and> at_attempt_number a = number)) (attempt_rows db))
       notify_sqlite_error) (\<lambda>_.
       writes (\<lambda>db. db\<lparr>attempt_rows := attempt_rows db @
           [\<lparr>at_id = attempt_seq db + 1, at_outbox_id = k, at_attempt_number = number,
             at_fence = fence, at_worker = worker, at_transport = transport,
             at_destination_ref = destination, at_outcome = A_Claimed, at_error = None,
             at_started_at = now, at_finished_at = None\<rparr>],
         attempt_seq := attempt_seq db + 1\<rparr>)))"

definition claim_pending ::
  "instant \<Rightarrow> string \<Rightarrow> string \<Rightarrow> string \<Rightarrow> string \<Rightarrow> string \<Rightarrow> int \<Rightarrow> outbox_row \<Rightarrow> outbox_entry notify_op" where
  "claim_pending now token k worker transport destination duration row =
     bind (reads (next_attempt_number k)) (\<lambda>number.
     bind (sql_update_outbox k (\<lambda>r. r\<lparr>o_status := O_Claimed,
             o_attempt_count := o_attempt_count row + 1, o_fence := o_fence row + 1,
             o_lease_owner := Some worker, o_lease_token := Some token,
             o_lease_expires_at := Some (now + seconds duration), o_transport := Some transport,
             o_destination_ref := Some destination, o_error := None, o_updated_at := now\<rparr>)) (\<lambda>_.
     bind (sql_insert_attempt k number (o_fence row + 1) worker transport destination now) (\<lambda>_.
       entry_by_id k)))"

definition outbox_claim_impl ::
  "notify_cfg \<Rightarrow> instant \<Rightarrow> string \<Rightarrow> string \<Rightarrow> string \<Rightarrow> string \<Rightarrow> string \<Rightarrow> int \<Rightarrow> profile_scope
    \<Rightarrow> outbox_entry notify_op" where
  "outbox_claim_impl cfg now token k worker transport destination duration scope =
     bind (atomic (
       bind (assert_outbox_scope k scope) (\<lambda>_.
       bind (outbox_row_by_id k) (\<lambda>row.
         case o_status row of
           O_Claimed \<Rightarrow>
             bind (some_or (Notify_ValidationError ''lease_expires_at'') (o_lease_expires_at row)) (\<lambda>e.
             bind (unless (e \<le> now)
               (NotificationLeaseError ''notification delivery is already claimed'')) (\<lambda>_.
             bind (expire_claim row now) (\<lambda>_. ret None)))
         | O_Failed \<Rightarrow>
             raise (NotificationStateError ''failed delivery requires an explicit retry command'')
         | O_Pending \<Rightarrow>
             bind (unless (o_attempt_count row < nc_attempt_limit cfg)
               (NotificationStateError ''delivery attempt limit is exhausted'')) (\<lambda>_.
             bind (claim_pending now token k worker transport destination duration row) (\<lambda>e.
               ret (Some e)))
         | _ \<Rightarrow> raise (NotificationStateError ''cannot claim outbox entry in its state'')))))
     (some_or (NotificationStateError
        ''expired delivery claim is in_doubt and requires operator resolution''))"

definition outbox_renew_impl ::
  "notify_cfg \<Rightarrow> instant \<Rightarrow> outbox_entry \<Rightarrow> profile_scope \<Rightarrow> outbox_entry notify_op" where
  "outbox_renew_impl cfg now entry scope =
     or_expire entry now (atomic (
       bind (assert_outbox_scope (oe_id entry) scope) (\<lambda>_.
       bind (assert_lease entry now) (\<lambda>_.
       bind (sql_update_outbox (oe_id entry) (\<lambda>r. r\<lparr>
               o_lease_expires_at := Some (now + seconds (nc_lease_seconds cfg)),
               o_updated_at := now\<rparr>)) (\<lambda>_.
         entry_by_id (oe_id entry))))))"

datatype finish_state = F_Pending | F_Delivered | F_Failed | F_In_Doubt

fun finish_status :: "finish_state \<Rightarrow> outbox_status" where
  "finish_status F_Pending = O_Pending"
| "finish_status F_Delivered = O_Delivered"
| "finish_status F_Failed = O_Failed"
| "finish_status F_In_Doubt = O_In_Doubt"

fun finish_outcome :: "finish_state \<Rightarrow> attempt_outcome" where
  "finish_outcome F_Pending = A_Released"
| "finish_outcome F_Delivered = A_Delivered"
| "finish_outcome F_Failed = A_Not_Performed"
| "finish_outcome F_In_Doubt = A_In_Doubt"

definition finish_claim_impl ::
  "instant \<Rightarrow> outbox_entry \<Rightarrow> finish_state \<Rightarrow> string option \<Rightarrow> string option \<Rightarrow> profile_scope
    \<Rightarrow> outbox_entry notify_op" where
  "finish_claim_impl now entry target error message_id scope =
     or_expire entry now (atomic (
       bind (assert_outbox_scope (oe_id entry) scope) (\<lambda>_.
       bind (assert_lease entry now) (\<lambda>row.
       bind (sql_update_outbox (oe_id entry) (\<lambda>r. r\<lparr>o_status := finish_status target,
               o_attempt_count := (if target = F_Pending then o_attempt_count row - 1
                                   else o_attempt_count row),
               o_lease_owner := None, o_lease_token := None, o_lease_expires_at := None,
               o_platform_message_id := message_id, o_error := error, o_updated_at := now,
               o_delivered_at := (if target = F_Delivered then Some now else None)\<rparr>)) (\<lambda>_.
       bind (sql_close_attempt (oe_id entry) (oe_fence entry) (finish_outcome target) error now) (\<lambda>_.
         entry_by_id (oe_id entry)))))))"

definition stale_claims_impl ::
  "instant \<Rightarrow> instant option \<Rightarrow> profile_scope \<Rightarrow> outbox_entry list notify_op" where
  "stale_claims_impl clock now scope =
     (let moment = (case now of None \<Rightarrow> clock | Some t \<Rightarrow> t) in
      bind (reads (join_rows (\<lambda>r. o_status r = O_Claimed
          \<and> (case o_lease_expires_at r of None \<Rightarrow> False | Some e \<Rightarrow> e \<le> moment)))) (\<lambda>ps.
      bind (lift (permitted scope ps)) (\<lambda>ps.
        lift (collect (\<lambda>p. entry_of (snd p)) ps))))"

definition recover_claim_impl ::
  "instant \<Rightarrow> string \<Rightarrow> bool \<Rightarrow> string \<Rightarrow> instant option \<Rightarrow> profile_scope \<Rightarrow> outbox_entry notify_op" where
  "recover_claim_impl clock k to_pending error now scope =
     (let moment = (case now of None \<Rightarrow> clock | Some t \<Rightarrow> t);
          stored_error = (if to_pending then None else Some error) in
      atomic (
        bind (assert_outbox_scope k scope) (\<lambda>_.
        bind (outbox_row_by_id k) (\<lambda>row.
        bind (unless (o_status row = O_Claimed)
          (NotificationStateError ''cannot recover outbox entry in its state'')) (\<lambda>_.
        bind (some_or (Notify_ValidationError ''lease_expires_at'') (o_lease_expires_at row)) (\<lambda>e.
        bind (unless (e \<le> moment) (NotificationLeaseError ''delivery claim has not expired'')) (\<lambda>_.
        bind (sql_update_outbox k (\<lambda>r. r\<lparr>o_status := (if to_pending then O_Pending else O_In_Doubt),
                o_attempt_count := (if to_pending then o_attempt_count row - 1
                                    else o_attempt_count row),
                o_lease_owner := None, o_lease_token := None, o_lease_expires_at := None,
                o_error := stored_error, o_updated_at := moment\<rparr>)) (\<lambda>_.
        bind (sql_close_attempt k (o_fence row) (if to_pending then A_Released else A_In_Doubt)
                stored_error moment) (\<lambda>_.
          entry_by_id k)))))))))"

definition outbox_counts_impl :: "profile_scope \<Rightarrow> (outbox_status \<times> nat) list notify_op" where
  "outbox_counts_impl scope =
     bind (reads (\<lambda>db. concat (map (joined db) (outbox_rows db)))) (\<lambda>ps.
     bind (lift (permitted scope ps)) (\<lambda>ps.
       let seen = map (\<lambda>p. o_status (snd p)) ps
       in ret (map (\<lambda>s. (s, count_list seen s)) (fromkeys seen))))"

definition oldest_pending_outbox_impl :: "profile_scope \<Rightarrow> instant option notify_op" where
  "oldest_pending_outbox_impl scope =
     bind (reads (join_rows (\<lambda>r. o_status r = O_Pending))) (\<lambda>ps.
       lift (fold (\<lambda>p acc. andthen acc (\<lambda>found. case found of
           Some t \<Rightarrow> Inr (Some t)
         | None \<Rightarrow> andthen (request_of (fst p)) (\<lambda>q.
             Inr (if permits scope (nr_profile_label q) then Some (o_created_at (snd p)) else None))))
         ps (Inr None)))"

definition terminal_outbox :: "outbox_row \<Rightarrow> bool" where
  "terminal_outbox r \<longleftrightarrow> o_status r \<in> {O_Delivered, O_Cancelled}"

definition prunable_notifications_impl ::
  "int \<Rightarrow> instant \<Rightarrow> string list \<Rightarrow> profile_scope \<Rightarrow> string list notify_op" where
  "prunable_notifications_impl keep before protected scope =
     bind (reads (\<lambda>db. rev (join_rows (\<lambda>r. terminal_outbox r \<and> o_created_at r < before) db))) (\<lambda>ps.
     bind (lift (permitted scope (filter (\<lambda>p. o_id (snd p) \<notin> set protected) ps))) (\<lambda>ps.
       let candidates = map (\<lambda>p. o_id (snd p)) ps;
           start = (if keep < 0 then int (length candidates) + keep else keep)
       in ret (sort (drop (nat start) candidates))))"

definition prune_one :: "profile_scope \<Rightarrow> string \<Rightarrow> string option notify_op" where
  "prune_one scope k =
     bind (reads (join_by_outbox k)) (\<lambda>p.
       case p of
         None \<Rightarrow> ret None
       | Some (n, r) \<Rightarrow>
           if \<not> terminal_outbox r then ret None
           else bind (lift (request_of n)) (\<lambda>q.
             bind (unless (permits scope (nr_profile_label q)) (NotificationNotFoundError
               ''outbox entry was not found in the active profile scope'')) (\<lambda>_.
             bind (sql_delete attempt_rows_update (\<lambda>a. at_outbox_id a = k)) (\<lambda>_.
             bind (sql_delete resolution_rows_update (\<lambda>a. re_outbox_id a = k)) (\<lambda>_.
             bind (sql_delete outbox_rows_update (\<lambda>a. o_id a = k)) (\<lambda>_.
             bind (sql_delete notification_rows_update (\<lambda>a. n_id a = o_notification_id r)) (\<lambda>_.
               ret (Some (o_notification_id r)))))))))"

text \<open>
  After the commit the attachment directories of the removed notifications are deleted from the
  file system, provided the configured directory lies inside the data root; the deletion itself
  is not modelled, the check is.
\<close>

definition prune_notifications_impl :: "notify_cfg \<Rightarrow> string list \<Rightarrow> profile_scope \<Rightarrow> nat notify_op" where
  "prune_notifications_impl cfg ids scope =
     (if ids = [] then ret 0
      else bind (atomic (each (prune_one scope) ids)) (\<lambda>removed.
        bind (unless (nc_attachments_confined cfg)
          (NotificationStoreError ''messaging attachment directory escapes user_data_dir'')) (\<lambda>_.
          ret (length (filter (\<lambda>x. x \<noteq> None) removed)))))"

definition retry_impl :: "notify_cfg \<Rightarrow> instant \<Rightarrow> string \<Rightarrow> profile_scope \<Rightarrow> outbox_entry notify_op" where
  "retry_impl cfg now k scope =
     atomic (
       bind (assert_outbox_scope k scope) (\<lambda>_.
       bind (outbox_row_by_id k) (\<lambda>row.
       bind (unless (o_status row \<noteq> O_In_Doubt) (NotificationStateError
         ''in_doubt delivery must be resolved before it can be retried'')) (\<lambda>_.
       bind (unless (o_status row = O_Failed) (NotificationStateError
         ''only a known not-performed failure can be retried'')) (\<lambda>_.
       bind (unless (o_attempt_count row < nc_attempt_limit cfg) (NotificationStateError
         ''delivery attempt limit is exhausted'')) (\<lambda>_.
       bind (sql_update_outbox k (\<lambda>r. r\<lparr>o_status := O_Pending, o_error := None,
               o_updated_at := now\<rparr>)) (\<lambda>_.
         entry_by_id k)))))))"

definition fail_pending_impl :: "instant \<Rightarrow> string \<Rightarrow> string \<Rightarrow> profile_scope \<Rightarrow> outbox_entry notify_op" where
  "fail_pending_impl now k error scope =
     atomic (
       bind (assert_outbox_scope k scope) (\<lambda>_.
       bind (outbox_row_by_id k) (\<lambda>row.
         if o_status row = O_Failed then entry_by_id k
         else
           bind (unless (o_status row = O_Pending)
             (NotificationStateError ''cannot quarantine outbox entry in its state'')) (\<lambda>_.
           bind (sql_update_outbox k (\<lambda>r. r\<lparr>o_status := O_Failed, o_error := Some error,
                   o_updated_at := now\<rparr>)) (\<lambda>_.
             entry_by_id k)))))"

definition not_performed_error :: string where
  "not_performed_error = ''operator confirmed delivery was not performed''"

definition resolve_impl ::
  "instant \<Rightarrow> string \<Rightarrow> resolution_disposition \<Rightarrow> string \<Rightarrow> string option \<Rightarrow> profile_scope
    \<Rightarrow> outbox_entry notify_op" where
  "resolve_impl now k disposition actor note scope =
     atomic (
       bind (assert_outbox_scope k scope) (\<lambda>_.
       bind (outbox_row_by_id k) (\<lambda>row.
       bind (unless (o_status row = O_In_Doubt)
         (NotificationStateError ''only an in_doubt delivery can be resolved'')) (\<lambda>_.
       bind (writes (\<lambda>db. db\<lparr>resolution_rows := resolution_rows db @
             [\<lparr>re_id = resolution_seq db + 1, re_outbox_id = k, re_disposition = disposition,
               re_actor = actor, re_note = note, re_created_at = now\<rparr>],
           resolution_seq := resolution_seq db + 1\<rparr>)) (\<lambda>_.
       bind (sql_update_outbox k (\<lambda>r.
               if disposition = R_Delivered
               then r\<lparr>o_status := O_Delivered, o_error := None, o_delivered_at := Some now,
                      o_updated_at := now\<rparr>
               else r\<lparr>o_status := O_Failed, o_error := Some not_performed_error,
                      o_updated_at := now\<rparr>)) (\<lambda>_.
         entry_by_id k))))))"

definition cancel_impl :: "instant \<Rightarrow> string \<Rightarrow> profile_scope \<Rightarrow> outbox_entry notify_op" where
  "cancel_impl now k scope =
     atomic (
       bind (assert_outbox_scope k scope) (\<lambda>_.
       bind (outbox_row_by_id k) (\<lambda>row.
       bind (unless (o_status row \<noteq> O_Claimed)
         (NotificationStateError ''cannot cancel an active delivery claim'')) (\<lambda>_.
       bind (unless (o_status row \<noteq> O_Delivered)
         (NotificationStateError ''cannot cancel a delivered notification'')) (\<lambda>_.
         if o_status row = O_Cancelled then lift (entry_of row)
         else
           bind (sql_update_outbox k (\<lambda>r. r\<lparr>o_status := O_Cancelled, o_error := None,
                   o_lease_owner := None, o_lease_token := None, o_lease_expires_at := None,
                   o_updated_at := now\<rparr>)) (\<lambda>_.
             entry_by_id k))))))"

definition attempts_impl :: "string \<Rightarrow> profile_scope \<Rightarrow> delivery_attempt list notify_op" where
  "attempts_impl k scope = bind (assert_outbox_scope k scope) (\<lambda>_.
     bind (reads (\<lambda>db. sort_key at_id (filter (\<lambda>a. at_outbox_id a = k) (attempt_rows db)))) (\<lambda>rows.
       lift (collect attempt_of rows)))"

definition resolutions_impl :: "string \<Rightarrow> profile_scope \<Rightarrow> operator_resolution list notify_op" where
  "resolutions_impl k scope = bind (assert_outbox_scope k scope) (\<lambda>_.
     bind (reads (\<lambda>db. sort_key re_id (filter (\<lambda>a. re_outbox_id a = k) (resolution_rows db)))) (\<lambda>rows.
       lift (collect resolution_of rows)))"

section \<open>Public operations\<close>

definition bounded_text :: "string \<Rightarrow> string \<Rightarrow> nat \<Rightarrow> string notify_op" where
  "bounded_text value name limit =
     (let v = py_strip value
      in if v = [] \<or> limit < length v
         then raise (Notify_ValueError (name @ '' has an invalid length''))
         else ret v)"

definition identity_text :: "string \<Rightarrow> string \<Rightarrow> string notify_op" where
  "identity_text value name = bounded_text value name 128"

definition notify_enqueue ::
  "string \<Rightarrow> notification_request \<Rightarrow> profile_scope \<Rightarrow> notification_record notify_op" where
  "notify_enqueue uuid q scope =
     bind (unless (permits scope (nr_profile_label q)) (Notify_ValueError
       ''notification profile label is outside the active profile scope'')) (\<lambda>_.
       enqueue_impl uuid q)"

definition notify_get :: "string \<Rightarrow> profile_scope \<Rightarrow> notification_record notify_op" where
  "notify_get k scope = bind (identity_text k ''notification id'') (\<lambda>i. get_impl i scope)"

definition notify_get_outbox :: "string \<Rightarrow> profile_scope \<Rightarrow> outbox_entry notify_op" where
  "notify_get_outbox k scope = bind (identity_text k ''outbox id'') (\<lambda>i. get_outbox_impl i scope)"

definition notify_get_by_outbox :: "string \<Rightarrow> profile_scope \<Rightarrow> notification_record notify_op" where
  "notify_get_by_outbox k scope =
     bind (identity_text k ''outbox id'') (\<lambda>i. get_by_outbox_impl i scope)"

definition list_limit :: "nat \<Rightarrow> unit notify_op" where
  "list_limit limit = unless (1 \<le> limit \<and> limit \<le> 1000)
     (Notify_ValueError ''notification list limit must be between 1 and 1000'')"

definition notify_list ::
  "outbox_status option \<Rightarrow> nat \<Rightarrow> profile_scope \<Rightarrow> notification_record list notify_op" where
  "notify_list status limit scope = bind (list_limit limit) (\<lambda>_. list_impl status limit scope)"

definition notify_list_pending_oldest :: "nat \<Rightarrow> profile_scope \<Rightarrow> notification_record list notify_op" where
  "notify_list_pending_oldest limit scope =
     bind (list_limit limit) (\<lambda>_. list_pending_oldest_impl limit scope)"

definition notify_source_ids :: "string \<Rightarrow> profile_scope \<Rightarrow> string set notify_op" where
  "notify_source_ids kind scope =
     bind (bounded_text kind ''source_kind'' 100) (\<lambda>kind. source_ids_impl kind scope)"

definition notify_claim ::
  "notify_cfg \<Rightarrow> instant \<Rightarrow> string \<Rightarrow> string \<Rightarrow> string \<Rightarrow> string \<Rightarrow> string \<Rightarrow> int option \<Rightarrow> profile_scope
    \<Rightarrow> outbox_entry notify_op" where
  "notify_claim cfg now token k worker transport destination lease_seconds scope =
     (let duration = (case lease_seconds of None \<Rightarrow> nc_lease_seconds cfg
                      | Some n \<Rightarrow> if n = 0 then nc_lease_seconds cfg else n) in
      bind (unless (1 \<le> duration \<and> duration \<le> 3600)
        (Notify_ValueError ''notification lease_seconds must be between 1 and 3600'')) (\<lambda>_.
      bind (bounded_text worker ''worker'' 200) (\<lambda>w.
      bind (bounded_text transport ''transport'' 100) (\<lambda>t.
      bind (bounded_text destination ''destination_ref'' 500) (\<lambda>d.
      bind (identity_text k ''outbox id'') (\<lambda>i.
        outbox_claim_impl cfg now token i w t d duration scope))))))"

definition notify_renew ::
  "notify_cfg \<Rightarrow> instant \<Rightarrow> outbox_entry \<Rightarrow> profile_scope \<Rightarrow> outbox_entry notify_op" where
  "notify_renew cfg now entry scope = outbox_renew_impl cfg now entry scope"

definition notify_mark_delivered ::
  "instant \<Rightarrow> outbox_entry \<Rightarrow> string \<Rightarrow> profile_scope \<Rightarrow> outbox_entry notify_op" where
  "notify_mark_delivered now entry platform_message_id scope =
     bind (bounded_text platform_message_id ''platform_message_id'' 500) (\<lambda>m.
       finish_claim_impl now entry F_Delivered None (Some m) scope)"

definition notify_mark_failed ::
  "instant \<Rightarrow> outbox_entry \<Rightarrow> string \<Rightarrow> profile_scope \<Rightarrow> outbox_entry notify_op" where
  "notify_mark_failed now entry error scope =
     bind (bounded_text error ''delivery error'' 2000) (\<lambda>e.
       finish_claim_impl now entry F_Failed (Some e) None scope)"

definition notify_mark_in_doubt ::
  "instant \<Rightarrow> outbox_entry \<Rightarrow> string \<Rightarrow> profile_scope \<Rightarrow> outbox_entry notify_op" where
  "notify_mark_in_doubt now entry error scope =
     bind (bounded_text error ''delivery error'' 2000) (\<lambda>e.
       finish_claim_impl now entry F_In_Doubt (Some e) None scope)"

definition notify_release :: "instant \<Rightarrow> outbox_entry \<Rightarrow> profile_scope \<Rightarrow> outbox_entry notify_op" where
  "notify_release now entry scope = finish_claim_impl now entry F_Pending None None scope"

definition notify_fail_pending ::
  "instant \<Rightarrow> string \<Rightarrow> string \<Rightarrow> profile_scope \<Rightarrow> outbox_entry notify_op" where
  "notify_fail_pending now k error scope =
     bind (identity_text k ''outbox id'') (\<lambda>i.
     bind (bounded_text error ''delivery error'' 2000) (\<lambda>e. fail_pending_impl now i e scope))"

definition notify_retry :: "notify_cfg \<Rightarrow> instant \<Rightarrow> string \<Rightarrow> profile_scope \<Rightarrow> outbox_entry notify_op" where
  "notify_retry cfg now k scope =
     bind (identity_text k ''outbox id'') (\<lambda>i. retry_impl cfg now i scope)"

definition notify_resolve ::
  "instant \<Rightarrow> string \<Rightarrow> resolution_disposition \<Rightarrow> string \<Rightarrow> string option \<Rightarrow> profile_scope
    \<Rightarrow> outbox_entry notify_op" where
  "notify_resolve now k disposition actor note scope =
     bind (bounded_text actor ''actor'' 200) (\<lambda>a.
     bind (case note of None \<Rightarrow> ret None
           | Some n \<Rightarrow> bind (bounded_text n ''resolution note'' 2000) (\<lambda>n. ret (Some n))) (\<lambda>n.
     bind (identity_text k ''outbox id'') (\<lambda>i. resolve_impl now i disposition a n scope)))"

definition notify_cancel :: "instant \<Rightarrow> string \<Rightarrow> profile_scope \<Rightarrow> outbox_entry notify_op" where
  "notify_cancel now k scope = bind (identity_text k ''outbox id'') (\<lambda>i. cancel_impl now i scope)"

definition notify_attempts :: "string \<Rightarrow> profile_scope \<Rightarrow> delivery_attempt list notify_op" where
  "notify_attempts k scope = bind (identity_text k ''outbox id'') (\<lambda>i. attempts_impl i scope)"

definition notify_resolutions :: "string \<Rightarrow> profile_scope \<Rightarrow> operator_resolution list notify_op" where
  "notify_resolutions k scope = bind (identity_text k ''outbox id'') (\<lambda>i. resolutions_impl i scope)"

definition notify_recover_claim ::
  "instant \<Rightarrow> string \<Rightarrow> bool \<Rightarrow> string \<Rightarrow> instant option \<Rightarrow> profile_scope \<Rightarrow> outbox_entry notify_op" where
  "notify_recover_claim clock k to_pending error now scope =
     bind (identity_text k ''outbox id'') (\<lambda>i.
     bind (bounded_text error ''recovery error'' 2000) (\<lambda>e.
       recover_claim_impl clock i to_pending e now scope))"

definition notify_prune :: "notify_cfg \<Rightarrow> string list \<Rightarrow> profile_scope \<Rightarrow> nat notify_op" where
  "notify_prune cfg ids scope = prune_notifications_impl cfg ids scope"

end
