(* ===== verification/Notify_Lifecycle.thy ===== *)
theory Notify_Lifecycle
  imports Notify_Ops Fencing
begin

text \<open>
  The abstract life cycle of one outbox entry together with its delivery attempts, and the proof
  that every public call of the notification store is a sequence of its steps.
\<close>

section \<open>The abstract steps\<close>

definition claim_live :: "instant \<Rightarrow> outbox_row \<Rightarrow> bool" where
  "claim_live now r \<longleftrightarrow> o_status r = O_Claimed
     \<and> (case o_lease_expires_at r of None \<Rightarrow> False | Some e \<Rightarrow> now < e)"

definition claim_stale :: "instant \<Rightarrow> outbox_row \<Rightarrow> bool" where
  "claim_stale now r \<longleftrightarrow> o_status r = O_Claimed
     \<and> (case o_lease_expires_at r of None \<Rightarrow> False | Some e \<Rightarrow> e \<le> now)"

definition unleased :: "instant \<Rightarrow> outbox_row \<Rightarrow> outbox_row" where
  "unleased now r = r\<lparr>o_lease_owner := None, o_lease_token := None, o_lease_expires_at := None,
     o_updated_at := now\<rparr>"

definition close_active :: "string \<Rightarrow> int \<Rightarrow> attempt_outcome \<Rightarrow> string option \<Rightarrow> instant
    \<Rightarrow> attempt_row list \<Rightarrow> attempt_row list" where
  "close_active k fence outcome error now = map (close_attempt k fence outcome error now)"

definition charge :: "attempt_outcome \<Rightarrow> int" where
  "charge out = (if out = A_Released then 1 else 0)"

lemma unleased_forms:
  "r\<lparr>o_status := st, o_lease_owner := None, o_lease_token := None, o_lease_expires_at := None,
     o_error := er, o_updated_at := now\<rparr> = (unleased now r)\<lparr>o_status := st, o_error := er\<rparr>"
  "r\<lparr>o_status := st, o_error := er, o_lease_owner := None, o_lease_token := None,
     o_lease_expires_at := None, o_updated_at := now\<rparr> = (unleased now r)\<lparr>o_status := st, o_error := er\<rparr>"
  "r\<lparr>o_status := st, o_attempt_count := n, o_lease_owner := None, o_lease_token := None,
     o_lease_expires_at := None, o_error := er, o_updated_at := now\<rparr>
     = (unleased now r)\<lparr>o_status := st, o_attempt_count := n, o_error := er\<rparr>"
  "r\<lparr>o_status := st, o_attempt_count := n, o_lease_owner := None, o_lease_token := None,
     o_lease_expires_at := None, o_platform_message_id := m, o_error := er, o_updated_at := now,
     o_delivered_at := d\<rparr>
     = (unleased now r)\<lparr>o_status := st, o_attempt_count := n, o_platform_message_id := m,
         o_error := er, o_delivered_at := d\<rparr>"
  by (cases r, simp add: unleased_def)+

text \<open>
  How a claim may end: delivered, known failure, ambiguity or release, with the outcome recorded
  on the attempt.  A release gives the attempt back to the limit.
\<close>

inductive entry_step ::
  "int \<Rightarrow> instant \<Rightarrow> outbox_row \<Rightarrow> attempt_row list \<Rightarrow> outbox_row \<Rightarrow> attempt_row list \<Rightarrow> bool"
  for limit now where
  claim: "o_status r = O_Pending \<Longrightarrow> o_attempt_count r < limit \<Longrightarrow> at_outbox_id a = o_id r \<Longrightarrow>
    at_fence a = o_fence r + 1 \<Longrightarrow>
    at_attempt_number a = Max (insert 0 (set (map at_attempt_number acts))) + 1 \<Longrightarrow>
    at_outcome a = A_Claimed \<Longrightarrow> at_finished_at a = None \<Longrightarrow>
    entry_step limit now r acts (r\<lparr>o_status := O_Claimed, o_attempt_count := o_attempt_count r + 1,
      o_fence := o_fence r + 1, o_lease_owner := Some w, o_lease_token := Some t,
      o_lease_expires_at := Some e, o_transport := Some tr, o_destination_ref := Some d,
      o_error := None, o_updated_at := now\<rparr>) (acts @ [a])"
| renew: "claim_live now r \<Longrightarrow>
    entry_step limit now r acts (r\<lparr>o_lease_expires_at := Some e, o_updated_at := now\<rparr>) acts"
| finish: "claim_live now r \<Longrightarrow>
    (st, out) \<in> {(O_Pending, A_Released), (O_Delivered, A_Delivered), (O_Failed, A_Not_Performed),
      (O_In_Doubt, A_In_Doubt)} \<Longrightarrow>
    entry_step limit now r acts ((unleased now r)\<lparr>o_status := st,
      o_attempt_count := o_attempt_count r - charge out, o_platform_message_id := m,
      o_error := er, o_delivered_at := (if st = O_Delivered then Some now else None)\<rparr>)
      (close_active (o_id r) (o_fence r) out er now acts)"
| recover: "claim_stale now r \<Longrightarrow>
    (st, out) \<in> {(O_Pending, A_Released), (O_In_Doubt, A_In_Doubt)} \<Longrightarrow>
    entry_step limit now r acts ((unleased now r)\<lparr>o_status := st,
      o_attempt_count := o_attempt_count r - charge out, o_error := er\<rparr>)
      (close_active (o_id r) (o_fence r) out er now acts)"
| retry: "o_status r = O_Failed \<Longrightarrow> o_attempt_count r < limit \<Longrightarrow>
    entry_step limit now r acts (r\<lparr>o_status := O_Pending, o_error := None, o_updated_at := now\<rparr>) acts"
| quarantine: "o_status r = O_Pending \<Longrightarrow>
    entry_step limit now r acts (r\<lparr>o_status := O_Failed, o_error := er, o_updated_at := now\<rparr>) acts"
| resolved: "o_status r = O_In_Doubt \<Longrightarrow>
    entry_step limit now r acts (r\<lparr>o_status := O_Delivered, o_error := None,
      o_delivered_at := Some now, o_updated_at := now\<rparr>) acts"
| refuted: "o_status r = O_In_Doubt \<Longrightarrow>
    entry_step limit now r acts (r\<lparr>o_status := O_Failed, o_error := Some not_performed_error,
      o_updated_at := now\<rparr>) acts"
| cancel: "o_status r \<in> {O_Pending, O_Failed, O_In_Doubt} \<Longrightarrow>
    entry_step limit now r acts ((unleased now r)\<lparr>o_status := O_Cancelled, o_error := None\<rparr>) acts"

inductive_cases entry_stepE: "entry_step limit now r acts r' acts'"

definition attempts_of :: "string \<Rightarrow> notify_db \<Rightarrow> attempt_row list" where
  "attempts_of k db = filter (\<lambda>a. at_outbox_id a = k) (attempt_rows db)"

definition fresh_request :: "notify_db \<Rightarrow> notification_request \<Rightarrow> bool" where
  "fresh_request db q \<longleftrightarrow> find_notification (nr_id q) db = None
     \<and> list_all (\<lambda>r. \<not> same_key q r) (outbox_rows db)
     \<and> list_all (\<lambda>r. o_notification_id r \<noteq> nr_id q) (outbox_rows db)"

inductive outbox_step :: "int \<Rightarrow> instant \<Rightarrow> string \<Rightarrow> notify_db \<Rightarrow> notify_db \<Rightarrow> bool" for limit now k where
  enqueue: "fresh_request db q \<Longrightarrow> request_of (new_notification_row q) = Inr q \<Longrightarrow>
    k = ''outbox_'' @ u \<Longrightarrow> find_outbox k db = None \<Longrightarrow>
    outbox_step limit now k db (db\<lparr>
      notification_rows := notification_rows db @ [new_notification_row q],
      outbox_rows := outbox_rows db @ [new_outbox_row u q]\<rparr>)"
| change: "find_outbox k db = Some r \<Longrightarrow> entry_step limit now r (attempts_of k db) r' acts' \<Longrightarrow>
    outbox_rows db' = update_row o_id k (\<lambda>_. r') (outbox_rows db) \<Longrightarrow>
    notification_rows db' = notification_rows db \<Longrightarrow> attempts_of k db' = acts' \<Longrightarrow>
    (\<And>j. j \<noteq> k \<Longrightarrow> attempts_of j db' = attempts_of j db) \<Longrightarrow>
    (\<exists>rs. resolution_rows db' = resolution_rows db @ rs \<and> list_all (\<lambda>x. re_outbox_id x = k) rs) \<Longrightarrow>
    outbox_step limit now k db db'"

text \<open>Pruning removes a terminal entry with everything that belongs to it.\<close>

definition pruned :: "string \<Rightarrow> outbox_row \<Rightarrow> notify_db \<Rightarrow> notify_db" where
  "pruned k r db = db\<lparr>
      attempt_rows := filter (\<lambda>a. at_outbox_id a \<noteq> k) (attempt_rows db),
      resolution_rows := filter (\<lambda>a. re_outbox_id a \<noteq> k) (resolution_rows db),
      outbox_rows := filter (\<lambda>a. o_id a \<noteq> k) (outbox_rows db),
      notification_rows := filter (\<lambda>a. n_id a \<noteq> o_notification_id r) (notification_rows db)\<rparr>"

definition prune_step :: "string \<Rightarrow> notify_db \<Rightarrow> notify_db \<Rightarrow> bool" where
  "prune_step k db db' \<longleftrightarrow>
     (\<exists>r. find_outbox k db = Some r \<and> terminal_outbox r \<and> db' = pruned k r db)"

section \<open>Facts about the primitives\<close>

definition outbox_keys :: "notify_db \<Rightarrow> bool" where
  "outbox_keys db \<longleftrightarrow> distinct (map o_id (outbox_rows db))"

lemma find_outbox_id: "find_outbox k db = Some r \<Longrightarrow> o_id r = k"
  by (auto simp: find_outbox_def dest: find_row_Some)

lemma outbox_row_by_id_ok [op_ok]:
  "outbox_row_by_id k db = (db', Inr r) \<longleftrightarrow> db' = db \<and> find_outbox k db = Some r"
  by (auto simp: outbox_row_by_id_def op_ok)

lemma assert_outbox_scope_ok [op_ok]:
  "assert_outbox_scope k scope db = (db', Inr u) \<longleftrightarrow> db' = db \<and>
     (\<exists>n r q. join_by_outbox k db = Some (n, r) \<and> request_of n = Inr q
        \<and> permits scope (nr_profile_label q))"
  by (auto simp: assert_outbox_scope_def op_ok)

lemma entry_by_id_ok [op_ok]:
  "entry_by_id k db = (db', Inr e) \<longleftrightarrow> db' = db \<and> (\<exists>r. find_outbox k db = Some r \<and> entry_of r = Inr e)"
  by (auto simp: entry_by_id_def op_ok)

lemma sql_update_outbox_ok:
  "outbox_keys db \<Longrightarrow> find_outbox k db = Some r \<Longrightarrow> sql_update_outbox k f db = (db', Inr n) \<longleftrightarrow>
    outbox_check (f r) \<and> n = 1
    \<and> db' = db\<lparr>outbox_rows := update_row o_id k (\<lambda>_. f r) (outbox_rows db)\<rparr>"
  unfolding sql_update_outbox_def outbox_keys_def find_outbox_def by (rule outbox.update_ok)

lemma sql_close_attempt_ok [op_ok]:
  "sql_close_attempt k fence outcome error now db = (db', Inr u) \<longleftrightarrow>
     db' = db\<lparr>attempt_rows := map (close_attempt k fence outcome error now) (attempt_rows db)\<rparr>"
  by (auto simp: sql_close_attempt_def op_ok)

lemma assert_lease_ok [op_ok]:
  "assert_lease e now db = (db', Inr r) \<longleftrightarrow> db' = db \<and> find_outbox (oe_id e) db = Some r
     \<and> claim_live now r \<and> o_lease_token r = oe_lease_token e \<and> o_fence r = oe_fence e"
  by (auto simp: assert_lease_def op_ok claim_live_def split: option.splits)

lemma expire_claim_ok:
  assumes "outbox_keys db" and r: "find_outbox k db = Some r"
  shows "expire_claim r now db = (db', Inr u) \<longleftrightarrow>
    outbox_check ((unleased now r)\<lparr>o_status := O_In_Doubt, o_error := Some expiry_error\<rparr>)
    \<and> db' = db\<lparr>outbox_rows := update_row o_id k (\<lambda>_. (unleased now r)\<lparr>o_status := O_In_Doubt,
        o_error := Some expiry_error\<rparr>) (outbox_rows db),
      attempt_rows := close_active k (o_fence r) A_In_Doubt (Some expiry_error) now (attempt_rows db)\<rparr>"
  using sql_update_outbox_ok [OF assms] find_outbox_id [OF r]
  by (auto simp: expire_claim_def op_ok unleased_forms close_active_def)

lemma close_attempt_id [simp]: "at_outbox_id (close_attempt k f out er now a) = at_outbox_id a"
  by (simp add: close_attempt_def)

lemma filter_close:
  "filter (\<lambda>a. at_outbox_id a = j) (map (close_attempt k f out er now) as)
     = map (close_attempt k f out er now) (filter (\<lambda>a. at_outbox_id a = j) as)"
  by (induction as) auto

lemma close_other: "j \<noteq> k \<Longrightarrow>
  map (close_attempt k f out er now) (filter (\<lambda>a. at_outbox_id a = j) as) = filter (\<lambda>a. at_outbox_id a = j) as"
  by (induction as) (auto simp: close_attempt_def)

lemma attempts_of_close:
  "attempts_of j (db\<lparr>attempt_rows := close_active k f out er now (attempt_rows db)\<rparr>)
     = (if j = k then close_active k f out er now (attempts_of j db) else attempts_of j db)"
  by (simp add: attempts_of_def close_active_def filter_close close_other)

lemma attempts_of_upd [simp]:
  "attempts_of j (db\<lparr>outbox_rows := x\<rparr>) = attempts_of j db"
  "attempts_of j (db\<lparr>resolution_rows := y\<rparr>) = attempts_of j db"
  "attempts_of j (db\<lparr>resolution_seq := n\<rparr>) = attempts_of j db"
  "attempts_of j (db\<lparr>attempt_seq := n\<rparr>) = attempts_of j db"
  by (simp_all add: attempts_of_def)

lemma next_attempt_number_eq:
  "next_attempt_number k db = Max (insert 0 (set (map at_attempt_number (attempts_of k db)))) + 1"
  by (simp add: next_attempt_number_def attempts_of_def)

section \<open>Every operation is a sequence of abstract steps\<close>

abbreviation outbox_reach :: "int \<Rightarrow> instant \<Rightarrow> string \<Rightarrow> notify_db \<Rightarrow> notify_db \<Rightarrow> bool" where
  "outbox_reach limit now k \<equiv> (outbox_step limit now k)\<^sup>*\<^sup>*"

lemma step_reach: "outbox_step limit now k db db' \<Longrightarrow> outbox_reach limit now k db db'"
  by (rule r_into_rtranclp)

text \<open>A single changed row, with the attempts either untouched or closed.\<close>

lemma row_change:
  assumes "find_outbox k db = Some r" and "entry_step limit now r (attempts_of k db) r' (attempts_of k db)"
  shows "outbox_step limit now k db (db\<lparr>outbox_rows := update_row o_id k (\<lambda>_. r') (outbox_rows db)\<rparr>)"
  by (rule outbox_step.change [OF assms]) simp_all

lemma row_close:
  assumes "find_outbox k db = Some r"
    and "entry_step limit now r (attempts_of k db) r' (close_active k f out er now (attempts_of k db))"
  shows "outbox_step limit now k db (db\<lparr>outbox_rows := update_row o_id k (\<lambda>_. r') (outbox_rows db),
      attempt_rows := close_active k f out er now (attempt_rows db)\<rparr>)"
  using attempts_of_close [where db = "db\<lparr>outbox_rows := update_row o_id k (\<lambda>_. r') (outbox_rows db)\<rparr>"]
  by (intro outbox_step.change [OF assms]) simp_all

lemma entry_step_eqI:
  "entry_step limit now r as r1 bs \<Longrightarrow> r1 = r2 \<Longrightarrow> entry_step limit now r as r2 bs"
  by simp

lemma retry_reach:
  "outbox_keys db \<Longrightarrow> outbox_reach (nc_attempt_limit cfg) now k db (fst (retry_impl cfg now k scope db))"
  unfolding retry_impl_def
  by (rule final_atomic)
    (auto simp: op_ok sql_update_outbox_ok intro!: r_into_rtranclp row_change entry_step.retry)

lemma fail_pending_reach:
  "outbox_keys db \<Longrightarrow> outbox_reach limit now k db (fst (fail_pending_impl now k er scope db))"
  unfolding fail_pending_impl_def
  by (rule final_atomic)
    (auto simp: op_ok sql_update_outbox_ok split: if_splits
      intro: r_into_rtranclp row_change entry_step.quarantine)

lemma cancel_reach:
  "outbox_keys db \<Longrightarrow> outbox_reach limit now k db (fst (cancel_impl now k scope db))"
  unfolding cancel_impl_def unleased_forms
proof (rule final_atomic, goal_cases)
  case (2 t x)
  then obtain r where r: "find_outbox k db = Some r" by (auto simp: op_ok)
  show ?case
  proof (cases "o_status r = O_Cancelled")
    case True
    with 2 r show ?thesis by (auto simp: op_ok)
  next
    case False
    with 2 r show ?thesis
      by (cases "o_status r") (auto simp: op_ok sql_update_outbox_ok
        intro!: step_reach row_change entry_step.cancel)
  qed
qed simp

lemma resolve_reach:
  "outbox_keys db \<Longrightarrow> outbox_reach limit now k db (fst (resolve_impl now k d actor note scope db))"
  unfolding resolve_impl_def
proof (rule final_atomic, goal_cases)
  case (2 t x)
  let ?res = "\<lparr>re_id = resolution_seq db + 1, re_outbox_id = k, re_disposition = d,
    re_actor = actor, re_note = note, re_created_at = now\<rparr>"
  let ?f = "\<lambda>r. if d = R_Delivered
      then r\<lparr>o_status := O_Delivered, o_error := None, o_delivered_at := Some now, o_updated_at := now\<rparr>
      else r\<lparr>o_status := O_Failed, o_error := Some not_performed_error, o_updated_at := now\<rparr>"
  let ?db = "db\<lparr>resolution_rows := resolution_rows db @ [?res], resolution_seq := resolution_seq db + 1\<rparr>"
  obtain r n where r: "find_outbox k db = Some r" "o_status r = O_In_Doubt"
    and up: "sql_update_outbox k ?f ?db = (t, Inr n)"
    using 2(2) by (auto simp: op_ok)
  have "outbox_keys ?db" "find_outbox k ?db = Some r"
    using 2(1) r(1) by (simp_all add: outbox_keys_def find_outbox_def)
  from up [unfolded sql_update_outbox_ok [OF this]]
  have t: "t = ?db\<lparr>outbox_rows := update_row o_id k (\<lambda>_. ?f r) (outbox_rows db)\<rparr>" by simp
  have "entry_step limit now r (attempts_of k db) (?f r) (attempts_of k db)"
    using r(2) entry_step.resolved entry_step.refuted by auto
  then have "outbox_step limit now k db t"
    by (rule outbox_step.change [OF r(1)]) (simp_all add: t)
  then show ?case by blast
qed simp

lemma finish_step:
  assumes "outbox_keys db" and r: "find_outbox k db = Some r" and "claim_live now r"
    and "sql_update_outbox k (\<lambda>r'. (unleased now r')\<lparr>o_status := finish_status target,
        o_attempt_count := (if target = F_Pending then o_attempt_count r - 1 else o_attempt_count r),
        o_platform_message_id := m, o_error := er,
        o_delivered_at := (if target = F_Delivered then Some now else None)\<rparr>) db = (t, Inr n)"
  shows "outbox_step limit now k db (t\<lparr>attempt_rows := map (close_attempt k (o_fence r)
    (finish_outcome target) er now) (attempt_rows t)\<rparr>)"
proof -
  let ?r = "(unleased now r)\<lparr>o_status := finish_status target,
        o_attempt_count := (if target = F_Pending then o_attempt_count r - 1 else o_attempt_count r),
        o_platform_message_id := m, o_error := er,
        o_delivered_at := (if target = F_Delivered then Some now else None)\<rparr>"
  have t: "t = db\<lparr>outbox_rows := update_row o_id k (\<lambda>_. ?r) (outbox_rows db)\<rparr>"
    using assms(4) sql_update_outbox_ok [OF assms(1,2)] by simp
  have "entry_step limit now r (attempts_of k db) ?r (close_active k (o_fence r)
      (finish_outcome target) er now (attempts_of k db))"
    using entry_step.finish [OF assms(3), of "finish_status target" "finish_outcome target" limit
        "attempts_of k db" er m] find_outbox_id [OF r]
    by (cases target) (simp_all add: charge_def)
  from row_close [OF r this] show ?thesis by (simp add: t close_active_def)
qed

lemma recover_step:
  assumes "outbox_keys db" and r: "find_outbox k db = Some r" and "claim_stale now r"
    and "sql_update_outbox k (\<lambda>r'. (unleased now r')\<lparr>o_status := (if p then O_Pending else O_In_Doubt),
        o_attempt_count := (if p then o_attempt_count r - 1 else o_attempt_count r),
        o_error := er\<rparr>) db = (t, Inr n)"
  shows "outbox_step limit now k db (t\<lparr>attempt_rows := map (close_attempt k (o_fence r)
    (if p then A_Released else A_In_Doubt) er now) (attempt_rows t)\<rparr>)"
proof -
  let ?r = "(unleased now r)\<lparr>o_status := (if p then O_Pending else O_In_Doubt),
        o_attempt_count := (if p then o_attempt_count r - 1 else o_attempt_count r),
        o_error := er\<rparr>"
  have t: "t = db\<lparr>outbox_rows := update_row o_id k (\<lambda>_. ?r) (outbox_rows db)\<rparr>"
    using assms(4) sql_update_outbox_ok [OF assms(1,2)] by simp
  have "entry_step limit now r (attempts_of k db) ?r (close_active k (o_fence r)
      (if p then A_Released else A_In_Doubt) er now (attempts_of k db))"
    using entry_step.recover [OF assms(3), of O_Pending A_Released limit "attempts_of k db" er]
      entry_step.recover [OF assms(3), of O_In_Doubt A_In_Doubt limit "attempts_of k db" er]
      find_outbox_id [OF r]
    by (cases p) (simp_all add: charge_def)
  from row_close [OF r this] show ?thesis by (simp add: t close_active_def)
qed

lemma expire_step:
  assumes keys: "outbox_keys db" and r: "find_outbox k db = Some r" and "claim_stale now r"
    and run: "expire_claim r now db = (t, Inr u)"
  shows "outbox_step limit now k db t"
proof -
  have t: "t = db\<lparr>outbox_rows := update_row o_id k (\<lambda>_. (unleased now r)\<lparr>o_status := O_In_Doubt,
        o_error := Some expiry_error\<rparr>) (outbox_rows db),
      attempt_rows := close_active k (o_fence r) A_In_Doubt (Some expiry_error) now (attempt_rows db)\<rparr>"
    using run expire_claim_ok [OF keys r] by simp
  have "(unleased now r)\<lparr>o_status := O_In_Doubt, o_attempt_count := o_attempt_count r - charge A_In_Doubt,
      o_error := Some expiry_error\<rparr> = (unleased now r)\<lparr>o_status := O_In_Doubt, o_error := Some expiry_error\<rparr>"
    by (cases r) (simp add: charge_def unleased_def)
  then show ?thesis unfolding t
    using entry_step.recover [OF assms(3), of O_In_Doubt A_In_Doubt limit "attempts_of k db"
        "Some expiry_error"] find_outbox_id [OF r]
    by (intro row_close [OF r]) simp
qed

subsection \<open>Expiry outside the failing transaction\<close>

lemma persist_expired_reach:
  "outbox_keys db \<Longrightarrow> outbox_reach limit now (oe_id e) db (fst (persist_expired_claim e now db))"
  unfolding persist_expired_claim_def
proof (rule final_atomic, goal_cases)
  case (2 t x)
  then show ?case
    by (auto simp: op_ok claim_stale_def split: if_splits
        intro: step_reach expire_step [unfolded claim_stale_def])
qed simp

lemma or_expire_reach:
  assumes "outbox_keys db" and "outbox_reach limit now (oe_id e) db (fst (atomic m db))"
  shows "outbox_reach limit now (oe_id e) db (fst (or_expire e now (atomic m) db))"
proof (cases rule: op_cases [of "atomic m" db])
  case (ok s x)
  with assms(2) show ?thesis by (simp add: or_expire_def)
next
  case (err s er)
  then have s: "s = db" by (simp add: op_err)
  obtain p r where p: "persist_expired_claim e now db = (p, r)" by fastforce
  then have "outbox_reach limit now (oe_id e) db p"
    using persist_expired_reach [OF assms(1), of limit now e] by simp
  with err s p show ?thesis
    by (cases er; cases r) (auto simp: or_expire_def op_defs)
qed

lemma finish_reach:
  "outbox_keys db \<Longrightarrow>
    outbox_reach limit now (oe_id e) db (fst (finish_claim_impl now e target er m scope db))"
  unfolding finish_claim_impl_def unleased_forms
proof (rule or_expire_reach, assumption, rule final_atomic, goal_cases)
  case (2 t x)
  then show ?case
    unfolding op_ok by clarify (drule (3) finish_step, auto)
qed simp

lemma outbox_renew_reach:
  "outbox_keys db \<Longrightarrow> outbox_reach limit now (oe_id e) db (fst (outbox_renew_impl cfg now e scope db))"
  unfolding outbox_renew_impl_def
proof (rule or_expire_reach, assumption, rule final_atomic, goal_cases)
  case (2 t x)
  then show ?case
    by (auto simp: op_ok sql_update_outbox_ok intro!: r_into_rtranclp row_change entry_step.renew)
qed simp

lemma recover_reach:
  "outbox_keys db \<Longrightarrow>
    outbox_reach limit (case moment of None \<Rightarrow> clock | Some t \<Rightarrow> t) k db
      (fst (recover_claim_impl clock k p er moment scope db))"
  unfolding recover_claim_impl_def Let_def unleased_forms
proof (rule final_atomic, goal_cases)
  case (2 t x)
  let ?now = "case moment of None \<Rightarrow> clock | Some t \<Rightarrow> t"
  from 2(2) show ?case
    unfolding op_ok
    by clarify (drule recover_step [where now = ?now, OF 2(1), rotated 2],
      auto simp: claim_stale_def split: option.splits)
qed simp

subsection \<open>Claims, insertion and pruning\<close>

definition claimed_outbox ::
  "instant \<Rightarrow> string \<Rightarrow> string \<Rightarrow> string \<Rightarrow> string \<Rightarrow> int \<Rightarrow> outbox_row \<Rightarrow> outbox_row" where
  "claimed_outbox now token w tr d duration r = r\<lparr>o_status := O_Claimed,
     o_attempt_count := o_attempt_count r + 1, o_fence := o_fence r + 1,
     o_lease_owner := Some w, o_lease_token := Some token,
     o_lease_expires_at := Some (now + seconds duration), o_transport := Some tr,
     o_destination_ref := Some d, o_error := None, o_updated_at := now\<rparr>"

lemma claim_pending_ok:
  assumes keys: "outbox_keys db" and r: "find_outbox k db = Some r"
    and run: "claim_pending now token k w tr d duration r db = (t, Inr e)"
  shows "find_outbox k t = Some (claimed_outbox now token w tr d duration r)"
    and "entry_of (claimed_outbox now token w tr d duration r) = Inr e"
    and "o_status r = O_Pending \<Longrightarrow> o_attempt_count r < limit \<Longrightarrow> outbox_step limit now k db t"
proof -
  let ?r = "claimed_outbox now token w tr d duration r"
  let ?a = "\<lparr>at_id = attempt_seq db + 1, at_outbox_id = k,
      at_attempt_number = next_attempt_number k db, at_fence = o_fence r + 1, at_worker = w,
      at_transport = tr, at_destination_ref = d, at_outcome = A_Claimed, at_error = None,
      at_started_at = now, at_finished_at = None\<rparr>"
  have t: "t = db\<lparr>outbox_rows := update_row o_id k (\<lambda>_. ?r) (outbox_rows db),
      attempt_rows := attempt_rows db @ [?a], attempt_seq := attempt_seq db + 1\<rparr>"
    and e: "\<exists>q. find_outbox k t = Some q \<and> entry_of q = Inr e"
    using run
    by (auto simp: claim_pending_def op_ok sql_update_outbox_ok [OF keys r] sql_insert_attempt_def
        claimed_outbox_def)
  have id: "o_id ?r = k" using find_outbox_id [OF r] by (simp add: claimed_outbox_def)
  show f: "find_outbox k t = Some ?r"
    using r id by (simp add: t find_outbox_def find_put_row)
  with e show "entry_of ?r = Inr e" by simp
  assume pending: "o_status r = O_Pending" "o_attempt_count r < limit"
  have "entry_step limit now r (attempts_of k db) ?r (attempts_of k db @ [?a])"
    unfolding claimed_outbox_def
    using find_outbox_id [OF r] pending
    by (intro entry_step.claim) (simp_all add: next_attempt_number_eq)
  then show "outbox_step limit now k db t"
    by (rule outbox_step.change [OF r]) (auto simp: t attempts_of_def)
qed

lemma outbox_claim_reach:
  assumes keys: "outbox_keys db"
  shows "outbox_reach (nc_attempt_limit cfg) now k db
    (fst (outbox_claim_impl cfg now token k w tr d duration scope db))"
  unfolding outbox_claim_impl_def
proof (rule final_atomic_bind, goal_cases)
  case (3 t x)
  then obtain r where r: "find_outbox k db = Some r" and run: "(case o_status r of
           O_Claimed \<Rightarrow>
             bind (some_or (Notify_ValidationError ''lease_expires_at'') (o_lease_expires_at r)) (\<lambda>e.
             bind (unless (e \<le> now)
               (NotificationLeaseError ''notification delivery is already claimed'')) (\<lambda>_.
             bind (expire_claim r now) (\<lambda>_. ret None)))
         | O_Failed \<Rightarrow>
             raise (NotificationStateError ''failed delivery requires an explicit retry command'')
         | O_Pending \<Rightarrow>
             bind (unless (o_attempt_count r < nc_attempt_limit cfg)
               (NotificationStateError ''delivery attempt limit is exhausted'')) (\<lambda>_.
             bind (claim_pending now token k w tr d duration r) (\<lambda>e. ret (Some e)))
         | _ \<Rightarrow> raise (NotificationStateError ''cannot claim outbox entry in its state'')) db
       = (t, Inr x)"
    by (auto simp: op_ok)
  show ?case
  proof (cases "o_status r")
    case O_Pending
    with run show ?thesis
      by (auto simp: op_ok intro!: r_into_rtranclp claim_pending_ok(3) [OF keys r])
  next
    case O_Claimed
    with run show ?thesis
      by (auto simp: op_ok claim_stale_def intro!: r_into_rtranclp expire_step [OF keys r])
  qed (use run in \<open>auto simp: op_ok\<close>)
qed (simp_all add: some_or_def)

lemma record_by_notification_ok [op_ok]:
  "record_by_notification k db = (db', Inr q) \<longleftrightarrow> db' = db \<and>
     (\<exists>p. join_by_notification k db = Some p \<and> record_of p = Inr q)"
  by (auto simp: record_by_notification_def op_ok)

lemma existing_None: "existing_entry q db = None \<longleftrightarrow> list_all (\<lambda>r. \<not> same_key q r) (outbox_rows db)"
proof -
  let ?l = "sort_key (\<lambda>r. (o_created_at r, o_id r)) (filter (same_key q) (outbox_rows db))"
  have "existing_entry q db = None \<longleftrightarrow> set ?l = {}"
    by (simp only: existing_entry_def set_empty) (simp split: list.splits)
  then show ?thesis by (auto simp: list_all_iff)
qed

lemma enqueue_ok:
  assumes "enqueue_impl u q db = (t, Inr res)" and "request_of (new_notification_row q) = Inr q"
  shows "existing_entry q db \<noteq> None \<and> t = db
    \<or> existing_entry q db = None \<and> outbox_step limit now (''outbox_'' @ u) db t"
proof (cases "existing_entry q db")
  case None
  let ?n = "new_notification_row q" and ?r = "new_outbox_row u q"
  let ?db = "db\<lparr>notification_rows := notification_rows db @ [?n]\<rparr>"
  obtain s where ins: "sql_insert_notification ?n db = (?db, Inr ())"
    and out: "sql_insert_outbox ?r ?db = (s, Inr ())" and ts: "t = s"
    and absent: "find_notification (nr_id q) db = None"
    using assms(1) None
    by (auto simp: enqueue_impl_def op_ok sql_insert_notification_def requests.insert_ok
        find_notification_def new_notification_row_def)
  from out have ok: "outbox_insert_ok ?db ?r" "find_row o_id (o_id ?r) (outbox_rows db) = None"
    and s: "s = ?db\<lparr>outbox_rows := outbox_rows db @ [?r]\<rparr>"
    by (auto simp: sql_insert_outbox_def op_ok outbox.insert_ok)
  have "outbox_step limit now (''outbox_'' @ u) db t"
    unfolding ts s
    using outbox_step.enqueue [of db q "''outbox_'' @ u" u limit now] assms(2) absent None ok
    by (auto simp: fresh_request_def existing_None outbox_insert_ok_def new_outbox_row_def
        find_outbox_def)
  with None show ?thesis by simp
next
  case (Some r)
  with assms(1) show ?thesis by (auto simp: enqueue_impl_def op_ok)
qed

lemma prune_one_ok:
  assumes "prune_one scope k db = (t, Inr res)"
  shows "t = db \<or> (\<exists>n r q. join_by_outbox k db = Some (n, r) \<and> terminal_outbox r
     \<and> request_of n = Inr q \<and> permits scope (nr_profile_label q) \<and> t = pruned k r db)"
proof (cases "join_by_outbox k db")
  case None
  with assms show ?thesis by (auto simp: prune_one_def op_ok)
next
  case (Some p)
  with assms show ?thesis
    by (cases p) (auto simp: prune_one_def op_ok sql_delete_def pruned_def split: if_splits)
qed

lemma join_by_outbox_Some:
  "join_by_outbox k db = Some (n, r) \<longleftrightarrow>
     find_outbox k db = Some r \<and> find_notification (o_notification_id r) db = Some n"
  by (auto simp: join_by_outbox_def split: option.splits)

definition any_outbox_step :: "int \<Rightarrow> instant \<Rightarrow> notify_db \<Rightarrow> notify_db \<Rightarrow> bool" where
  "any_outbox_step limit now db db' \<longleftrightarrow>
     (\<exists>k. outbox_step limit now k db db' \<or> prune_step k db db')"

abbreviation outbox_reach_any :: "int \<Rightarrow> instant \<Rightarrow> notify_db \<Rightarrow> notify_db \<Rightarrow> bool" where
  "outbox_reach_any limit now \<equiv> (any_outbox_step limit now)\<^sup>*\<^sup>*"

lemma outbox_reach_any: "outbox_reach limit now k db db' \<Longrightarrow> outbox_reach_any limit now db db'"
  by (induction rule: rtranclp_induct)
    (auto simp: any_outbox_step_def intro: rtranclp.rtrancl_into_rtrancl)

lemma each_prune_reach:
  "each (prune_one scope) ks db = (t, Inr res) \<Longrightarrow> outbox_reach_any limit now db t"
proof (induction ks arbitrary: db res)
  case Nil
  then show ?case by (simp add: op_ok)
next
  case (Cons k ks)
  from Cons.prems obtain db1 x ys where one: "prune_one scope k db = (db1, Inr x)"
    and rest: "each (prune_one scope) ks db1 = (t, Inr ys)"
    by (auto simp: op_ok)
  from prune_one_ok [OF one] have "db1 = db \<or> any_outbox_step limit now db db1"
    by (auto simp: any_outbox_step_def prune_step_def join_by_outbox_Some)
  then have "outbox_reach_any limit now db db1" by auto
  with Cons.IH [OF rest] show ?case by (rule rtranclp_trans [rotated])
qed

lemma prune_reach: "outbox_reach_any limit now db (fst (prune_notifications_impl cfg ks scope db))"
proof (cases "ks = []")
  case True
  then show ?thesis by (simp add: prune_notifications_impl_def ret_def)
next
  case False
  have "outbox_reach_any limit now db (fst (bind (atomic (each (prune_one scope) ks)) (\<lambda>removed.
        bind (unless (nc_attachments_confined cfg)
          (NotificationStoreError ''messaging attachment directory escapes user_data_dir'')) (\<lambda>_.
          ret (length (filter (\<lambda>x. x \<noteq> None) removed)))) db))"
    by (rule final_atomic_bind) (auto simp: op_defs intro: each_prune_reach)
  with False show ?thesis by (simp add: prune_notifications_impl_def)
qed

section \<open>Calls\<close>

datatype notify_call =
    N_Enqueue string notification_request profile_scope
  | N_Claim string string string string string "int option" profile_scope
  | N_Renew outbox_entry profile_scope
  | N_Delivered outbox_entry string profile_scope
  | N_Failed outbox_entry string profile_scope
  | N_In_Doubt outbox_entry string profile_scope
  | N_Release outbox_entry profile_scope
  | N_Fail_Pending string string profile_scope
  | N_Retry string profile_scope
  | N_Resolve string resolution_disposition string "string option" profile_scope
  | N_Cancel string profile_scope
  | N_Recover string bool string "instant option" profile_scope
  | N_Prune "string list" profile_scope

definition notify_outcome :: "('s, 'e, 'a) op \<Rightarrow> 's \<Rightarrow> 's \<times> 'e option" where
  "notify_outcome m s = (fst (m s), case snd (m s) of Inl e \<Rightarrow> Some e | Inr _ \<Rightarrow> None)"

fun notify_result ::
  "notify_cfg \<Rightarrow> instant \<Rightarrow> notify_call \<Rightarrow> notify_db \<Rightarrow> notify_db \<times> notify_error option" where
  "notify_result cfg now (N_Enqueue u q sc) = notify_outcome (notify_enqueue u q sc)"
| "notify_result cfg now (N_Claim t k w tr d n sc) = notify_outcome (notify_claim cfg now t k w tr d n sc)"
| "notify_result cfg now (N_Renew e sc) = notify_outcome (notify_renew cfg now e sc)"
| "notify_result cfg now (N_Delivered e m sc) = notify_outcome (notify_mark_delivered now e m sc)"
| "notify_result cfg now (N_Failed e m sc) = notify_outcome (notify_mark_failed now e m sc)"
| "notify_result cfg now (N_In_Doubt e m sc) = notify_outcome (notify_mark_in_doubt now e m sc)"
| "notify_result cfg now (N_Release e sc) = notify_outcome (notify_release now e sc)"
| "notify_result cfg now (N_Fail_Pending k m sc) = notify_outcome (notify_fail_pending now k m sc)"
| "notify_result cfg now (N_Retry k sc) = notify_outcome (notify_retry cfg now k sc)"
| "notify_result cfg now (N_Resolve k d a n sc) = notify_outcome (notify_resolve now k d a n sc)"
| "notify_result cfg now (N_Cancel k sc) = notify_outcome (notify_cancel now k sc)"
| "notify_result cfg now (N_Recover k p m t sc) = notify_outcome (notify_recover_claim now k p m t sc)"
| "notify_result cfg now (N_Prune ks sc) = notify_outcome (notify_prune cfg ks sc)"

definition notify_exec :: "notify_cfg \<Rightarrow> instant \<Rightarrow> notify_call \<Rightarrow> notify_db \<Rightarrow> notify_db" where
  "notify_exec cfg now c db = fst (notify_result cfg now c db)"

text \<open>Requests handed to \<open>enqueue\<close> are validated \<open>NotificationRequest\<close> values.\<close>

fun valid_call :: "notify_call \<Rightarrow> bool" where
  "valid_call (N_Enqueue u q sc) = (make_request q = Inr q)"
| "valid_call c = True"

fun call_time :: "instant \<Rightarrow> notify_call \<Rightarrow> instant" where
  "call_time now (N_Recover k p m (Some t) sc) = t"
| "call_time now c = now"

fun call_target :: "notify_call \<Rightarrow> string option" where
  "call_target (N_Enqueue u q sc) = Some (''outbox_'' @ u)"
| "call_target (N_Claim t k w tr d n sc) = Some (py_strip k)"
| "call_target (N_Renew e sc) = Some (oe_id e)"
| "call_target (N_Delivered e m sc) = Some (oe_id e)"
| "call_target (N_Failed e m sc) = Some (oe_id e)"
| "call_target (N_In_Doubt e m sc) = Some (oe_id e)"
| "call_target (N_Release e sc) = Some (oe_id e)"
| "call_target (N_Fail_Pending k m sc) = Some (py_strip k)"
| "call_target (N_Retry k sc) = Some (py_strip k)"
| "call_target (N_Resolve k d a n sc) = Some (py_strip k)"
| "call_target (N_Cancel k sc) = Some (py_strip k)"
| "call_target (N_Recover k p m t sc) = Some (py_strip k)"
| "call_target (N_Prune ks sc) = None"

lemma bounded_final:
  "P s \<Longrightarrow> (P (fst (f (py_strip v) s))) \<Longrightarrow> P (fst (bind (bounded_text v name n) f s))"
  by (simp add: bounded_text_def Let_def op_defs)

lemmas notify_defs = notify_enqueue_def notify_claim_def notify_renew_def notify_mark_delivered_def
  notify_mark_failed_def notify_mark_in_doubt_def notify_release_def notify_fail_pending_def
  notify_retry_def notify_resolve_def notify_cancel_def notify_recover_claim_def notify_prune_def
  identity_text_def

lemma enqueue_reach:
  assumes "make_request q = Inr q"
  shows "outbox_reach limit now (''outbox_'' @ u) db (fst (enqueue_impl u q db))"
proof (cases rule: op_cases [of "enqueue_impl u q" db])
  case (ok t x)
  moreover have "request_of (new_notification_row q) = Inr q"
    using assms by (simp add: request_of_def new_notification_row_def)
  ultimately show ?thesis using enqueue_ok [of u q db t x limit now] by auto
next
  case (err t e)
  then have "t = db" by (auto simp: enqueue_impl_def op_err)
  with err show ?thesis by simp
qed

lemma unless_final: "P s \<Longrightarrow> P (fst (f () s)) \<Longrightarrow> P (fst (bind (unless b e) f s))"
  by (simp add: op_defs)

lemma note_final:
  "P s \<Longrightarrow> (\<And>n. P (fst (f n s))) \<Longrightarrow>
    P (fst (bind (case v of None \<Rightarrow> ret None
      | Some n \<Rightarrow> bind (bounded_text n name m) (\<lambda>n. ret (Some n))) f s))"
  by (cases v) (simp_all add: op_defs bounded_text_def Let_def)

lemmas reach_skips =
  bounded_final [where P = "outbox_reach limit now k db" and s = db for limit now k db,
    OF rtranclp.rtrancl_refl]
  unless_final [where P = "outbox_reach limit now k db" and s = db for limit now k db,
    OF rtranclp.rtrancl_refl]
  note_final [where P = "outbox_reach limit now k db" and s = db for limit now k db,
    OF rtranclp.rtrancl_refl]

lemma call_reach:
  assumes keys: "outbox_keys db" and "valid_call c" and "call_target c = Some k"
  shows "outbox_reach (nc_attempt_limit cfg) (call_time now c) k db (notify_exec cfg now c db)"
proof -
  note reach = enqueue_reach [simplified] outbox_claim_reach [OF keys] outbox_renew_reach [OF keys]
    finish_reach [OF keys] fail_pending_reach [OF keys] retry_reach [OF keys]
    resolve_reach [OF keys] cancel_reach [OF keys]
  show ?thesis
  proof (cases c)
    case (N_Recover j p m t sc)
    have *: "call_time now c = (case t of None \<Rightarrow> now | Some t \<Rightarrow> t)"
      using N_Recover by (cases t) simp_all
    show ?thesis
      unfolding * using assms(2,3) N_Recover
      by (auto simp: notify_exec_def notify_outcome_def notify_defs
          intro!: reach_skips recover_reach [OF keys])
  qed (use assms(2,3) in \<open>auto simp: notify_exec_def notify_outcome_def notify_defs Let_def
      intro!: reach_skips reach\<close>)
qed

lemma notify_exec_steps:
  assumes "outbox_keys db" and "valid_call c"
  shows "outbox_reach_any (nc_attempt_limit cfg) (call_time now c) db (notify_exec cfg now c db)"
proof (cases "call_target c")
  case None
  then obtain ks sc where "c = N_Prune ks sc" by (cases c) simp_all
  then show ?thesis
    by (simp add: notify_exec_def notify_outcome_def notify_prune_def prune_reach)
next
  case (Some k)
  show ?thesis by (rule outbox_reach_any [OF call_reach [OF assms Some]])
qed

end
