(* ===== verification/Notify_Invariants.thy ===== *)
theory Notify_Invariants
  imports Notify_Lifecycle
begin

text \<open>Invariants of the notification store, for every history of public calls.\<close>

section \<open>One entry and its attempts\<close>

definition fences :: "int \<Rightarrow> int list" where
  "fences n = map int [1..<Suc (nat n)]"

definition lease_shape :: "outbox_row \<Rightarrow> bool" where
  "lease_shape r \<longleftrightarrow>
     (if o_status r = O_Claimed
      then o_lease_owner r \<noteq> None \<and> o_lease_token r \<noteq> None \<and> o_lease_expires_at r \<noteq> None
      else o_lease_owner r = None \<and> o_lease_token r = None \<and> o_lease_expires_at r = None)
   \<and> (o_status r = O_Delivered \<longleftrightarrow> o_delivered_at r \<noteq> None)"

text \<open>
  The attempts are numbered and fenced one by one; the one with the current fence is active exactly
  while the entry is claimed; the attempt count of the entry is the number of attempts that were
  not released, and stays within the limit.
\<close>

definition entry_inv :: "int \<Rightarrow> outbox_row \<Rightarrow> attempt_row list \<Rightarrow> bool" where
  "entry_inv limit r acts \<longleftrightarrow> lease_shape r \<and> 0 \<le> o_fence r
     \<and> (o_status r = O_Claimed \<longrightarrow> 1 \<le> o_fence r)
     \<and> map at_fence acts = fences (o_fence r) \<and> map at_attempt_number acts = fences (o_fence r)
     \<and> (\<forall>a \<in> set acts. at_outbox_id a = o_id r
          \<and> (at_outcome a = A_Claimed \<longleftrightarrow> o_status r = O_Claimed \<and> at_fence a = o_fence r)
          \<and> (at_finished_at a = None \<longleftrightarrow> at_outcome a = A_Claimed))
     \<and> o_attempt_count r = int (length (filter (\<lambda>a. at_outcome a \<noteq> A_Released) acts))
     \<and> o_attempt_count r \<le> limit"

lemma fences_Suc: "0 \<le> n \<Longrightarrow> fences (n + 1) = fences n @ [n + 1]"
  by (simp add: fences_def nat_add_distrib)

lemma fences_set: "set (fences n) = {1..n}"
proof (rule set_eqI)
  fix x
  show "x \<in> set (fences n) \<longleftrightarrow> x \<in> {1..n}"
    by (cases "0 \<le> x") (auto simp: fences_def image_iff intro!: exI [of _ "nat x"])
qed

lemma fences_Max: "0 \<le> n \<Longrightarrow> Max (insert 0 (set (fences n))) = n"
  by (rule Max_eqI) (auto simp: fences_set)

lemma active_last:
  assumes "entry_inv limit r acts" and "o_status r = O_Claimed"
  obtains pre a where "acts = pre @ [a]" "at_fence a = o_fence r" "at_outcome a = A_Claimed"
    "\<forall>b \<in> set pre. at_outcome b \<noteq> A_Claimed" "map at_fence pre = fences (o_fence r - 1)"
proof -
  define n where "n = o_fence r - 1"
  have n: "0 \<le> n" "o_fence r = n + 1" using assms by (simp_all add: n_def entry_inv_def)
  then have m: "map at_fence acts = fences n @ [n + 1]"
    using assms(1) fences_Suc [OF n(1)] by (simp add: entry_inv_def)
  then obtain pre a where acts: "acts = pre @ [a]" "map at_fence pre = fences n" "at_fence a = n + 1"
    by (cases acts rule: rev_cases) auto
  have "at_outcome a = A_Claimed" using assms acts n(2) by (auto simp: entry_inv_def)
  moreover have "at_outcome b \<noteq> A_Claimed" if "b \<in> set pre" for b
  proof -
    have "at_fence b \<in> set (fences n)" using that acts(2) by (metis image_eqI set_map)
    then have "at_fence b \<noteq> o_fence r" using n by (simp add: fences_set)
    then show ?thesis using assms(1) acts(1) that by (auto simp: entry_inv_def)
  qed
  ultimately show thesis using acts n by (intro that) simp_all
qed

lemma close_active_last:
  assumes "\<forall>b \<in> set pre. at_outcome b \<noteq> A_Claimed" and "at_fence a = f" and "at_outcome a = A_Claimed"
    and "at_outbox_id a = k"
  shows "close_active k f out er now (pre @ [a]) =
    pre @ [a\<lparr>at_outcome := out, at_error := er, at_finished_at := Some now\<rparr>]"
  using assms by (simp add: close_active_def close_attempt_def map_idI)

lemma close_inv:
  assumes inv: "entry_inv limit r acts" and "o_status r = O_Claimed" and "o_status r' \<noteq> O_Claimed"
    and shape: "lease_shape r'" and "o_fence r' = o_fence r" and id: "o_id r' = o_id r"
    and "o_attempt_count r' = o_attempt_count r - charge out" and out: "out \<noteq> A_Claimed"
  shows "entry_inv limit r' (close_active (o_id r) (o_fence r) out er now acts)"
proof -
  obtain pre a where acts: "acts = pre @ [a]" and a: "at_fence a = o_fence r"
    "at_outcome a = A_Claimed" "\<forall>b \<in> set pre. at_outcome b \<noteq> A_Claimed"
    using active_last [OF inv assms(2)] by metis
  have ida: "at_outbox_id a = o_id r" using inv acts by (simp add: entry_inv_def)
  show ?thesis
    unfolding acts close_active_last [OF a(3,1,2) ida]
    using assms a unfolding acts
    by (auto simp: entry_inv_def charge_def split: if_splits)
qed

lemma entry_step_inv:
  assumes "entry_step limit now r acts r' acts'" and "entry_inv limit r acts"
  shows "entry_inv limit r' acts'"
  using assms
proof (induction rule: entry_step.induct)
  case (claim r a acts e t w tr d)
  then have n: "0 \<le> o_fence r" "map at_attempt_number acts = fences (o_fence r)"
    and ne: "\<forall>b \<in> set acts. at_fence b \<noteq> o_fence r + 1"
    by (auto simp: entry_inv_def) (metis add.commute add_le_same_cancel2 atLeastAtMost_iff fences_set
        image_eqI not_one_le_zero set_map)
  have "at_attempt_number a = o_fence r + 1"
    using claim(5) fences_Max [OF n(1)] by (simp only: n(2))
  with claim n ne show ?case
    by (auto simp: entry_inv_def lease_shape_def fences_Suc)
next
  case (renew r acts e)
  then show ?case by (auto simp: entry_inv_def lease_shape_def claim_live_def)
next
  case (finish r st out acts m er)
  then show ?case
    by (intro close_inv) (auto simp: entry_inv_def lease_shape_def claim_live_def unleased_def)
next
  case (recover r st out acts er)
  then show ?case
    by (intro close_inv) (auto simp: entry_inv_def lease_shape_def claim_stale_def unleased_def)
qed (auto simp: entry_inv_def lease_shape_def unleased_def)

section \<open>The whole store\<close>

definition describes :: "notification_row \<Rightarrow> outbox_row \<Rightarrow> bool" where
  "describes n r \<longleftrightarrow> request_of n = Inr (n_request n) \<and> n_schema_version n = 1
     \<and> n_id n = nr_id (n_request n) \<and> same_key (n_request n) r"

definition notify_inv :: "int \<Rightarrow> notify_db \<Rightarrow> bool" where
  "notify_inv limit db \<longleftrightarrow> 0 \<le> limit \<and> outbox_keys db
     \<and> distinct (map dedupe_of (outbox_rows db))
     \<and> distinct (map o_notification_id (outbox_rows db))
     \<and> (\<forall>r \<in> set (outbox_rows db). \<exists>n. find_notification (o_notification_id r) db = Some n \<and> describes n r)
     \<and> (\<forall>a \<in> set (attempt_rows db). find_outbox (at_outbox_id a) db \<noteq> None)
     \<and> (\<forall>k r. find_outbox k db = Some r \<longrightarrow> entry_inv limit r (attempts_of k db))"

lemma entry_step_fixed:
  "entry_step limit now r acts r' acts' \<Longrightarrow>
     o_id r' = o_id r \<and> o_notification_id r' = o_notification_id r \<and> dedupe_of r' = dedupe_of r
     \<and> o_created_at r' = o_created_at r"
  by (erule entry_stepE) (auto simp: unleased_def dedupe_of_def)

lemma map_put_row:
  assumes "distinct (map key rows)" and "find_row key k rows = Some r" and "f r' = f r"
  shows "map f (update_row key k (\<lambda>_. r') rows) = map f rows"
proof -
  have "x = r" if "x \<in> set rows" "key x = k" for x
    using assms(2) find_row_mem [OF assms(1) that(1)] that(2) by simp
  then show ?thesis using assms(3) by (auto simp: update_row_def)
qed

lemma find_outbox_put:
  "find_outbox k db = Some r \<Longrightarrow> o_id r' = k \<Longrightarrow>
     outbox_rows db' = update_row o_id k (\<lambda>_. r') (outbox_rows db) \<Longrightarrow>
     find_outbox j db' = (if j = k then Some r' else find_outbox j db)"
  by (simp add: find_outbox_def find_put_row)

lemma attempt_mem: "a \<in> set (attempt_rows db) \<longleftrightarrow> a \<in> set (attempts_of (at_outbox_id a) db)"
  by (simp add: attempts_of_def)

lemma entry_inv_new: "0 \<le> limit \<Longrightarrow> entry_inv limit (new_outbox_row u q) []"
  by (simp add: entry_inv_def lease_shape_def new_outbox_row_def fences_def)

lemma new_row_described: "request_of (new_notification_row q) = Inr q \<Longrightarrow>
    describes (new_notification_row q) (new_outbox_row u q)"
  by (simp add: describes_def same_key_def dedupe_of_def new_notification_row_def new_outbox_row_def)

lemma outbox_step_inv:
  assumes "outbox_step limit now k db db'" and "notify_inv limit db"
  shows "notify_inv limit db'"
  using assms
proof (induction rule: outbox_step.induct)
  case (enqueue db q u)
  let ?n = "new_notification_row q" and ?r = "new_outbox_row u q"
  have ids: "o_id ?r = k" "o_notification_id ?r = nr_id q" "n_id ?n = nr_id q"
    using enqueue(3) by (simp_all add: new_outbox_row_def new_notification_row_def)
  have new: "find_row o_id k (outbox_rows db) = None" "find_row n_id (nr_id q) (notification_rows db) = None"
    "\<forall>r \<in> set (outbox_rows db). o_notification_id r \<noteq> nr_id q \<and> dedupe_of r \<noteq> dedupe_of ?r"
    using enqueue(1,4)
    by (auto simp: fresh_request_def find_outbox_def find_notification_def list_all_iff same_key_def
        dedupe_of_def new_outbox_row_def)
  have none: "filter (\<lambda>a. at_outbox_id a = k) (attempt_rows db) = []"
    using enqueue(4,5) by (auto simp: notify_inv_def filter_empty_conv)
  have fn: "find_notification j (db\<lparr>notification_rows := notification_rows db @ [?n],
      outbox_rows := outbox_rows db @ [?r]\<rparr>) = (if j = nr_id q then Some ?n else find_notification j db)" for j
    using new(2) ids(3) by (auto simp: find_notification_def find_row_append split: option.splits)
  have fo: "find_outbox j (db\<lparr>notification_rows := notification_rows db @ [?n],
      outbox_rows := outbox_rows db @ [?r]\<rparr>) = (if j = k then Some ?r else find_outbox j db)" for j
    using new(1) ids(1) by (auto simp: find_outbox_def find_row_append split: option.splits)
  have inv: "entry_inv limit ?r []" using enqueue(5) by (simp add: notify_inv_def entry_inv_new)
  show ?case
    using enqueue(5) new new_row_described [OF enqueue(2), of u] inv none ids
    unfolding notify_inv_def fn fo
    by (auto simp: outbox_keys_def find_row_None attempts_of_def)
next
  case (change db r r' acts' db')
  note fixed = entry_step_fixed [OF change(2)]
  have ids: "o_id r = k" "o_id r' = k" using find_outbox_id [OF change(1)] fixed by simp_all
  have d: "distinct (map o_id (outbox_rows db))" using change(8) by (simp add: notify_inv_def outbox_keys_def)
  have r: "find_row o_id k (outbox_rows db) = Some r" using change(1) by (simp add: find_outbox_def)
  have maps: "map o_id (outbox_rows db') = map o_id (outbox_rows db)"
    "map dedupe_of (outbox_rows db') = map dedupe_of (outbox_rows db)"
    "map o_notification_id (outbox_rows db') = map o_notification_id (outbox_rows db)"
    unfolding change(3) using fixed by (auto intro!: map_put_row [OF d r])
  have fo: "find_outbox j db' = (if j = k then Some r' else find_outbox j db)" for j
    by (rule find_outbox_put [OF change(1) ids(2) change(3)])
  have fn: "find_notification j db' = find_notification j db" for j
    using change(4) by (simp add: find_notification_def)
  have "entry_inv limit r' acts'"
    using entry_step_inv [OF change(2)] change(1,8) by (simp add: notify_inv_def)
  moreover have "\<exists>n. find_notification (o_notification_id x) db = Some n \<and> describes n x"
    if "x \<in> set (outbox_rows db')" for x
  proof -
    from that have "x = r' \<or> x \<in> set (outbox_rows db)" unfolding change(3) by (auto dest: set_put_row)
    then show ?thesis
      using change(8) find_row_Some [OF r] fixed
      by (auto simp: notify_inv_def describes_def same_key_def)
  qed
  moreover have "find_outbox (at_outbox_id a) db' \<noteq> None" if "a \<in> set (attempt_rows db')" for a
  proof (cases "at_outbox_id a = k")
    case False
    with that change(6) have "a \<in> set (attempt_rows db)" by (metis attempt_mem)
    with False change(8) show ?thesis by (simp add: fo notify_inv_def)
  qed (simp add: fo)
  ultimately show ?case
    using change(5,6,8) maps by (simp add: notify_inv_def outbox_keys_def fo fn)
qed

lemma prune_inv:
  assumes "find_outbox k db = Some r" and inv: "notify_inv limit db"
  shows "notify_inv limit (pruned k r db)"
proof -
  have fo: "find_outbox j (pruned k r db) = (if j = k then None else find_outbox j db)" for j
    using find_delete_row [of o_id j k "outbox_rows db"]
    by (simp add: find_outbox_def delete_row_def pruned_def)
  have fn: "find_notification j (pruned k r db)
      = (if j = o_notification_id r then None else find_notification j db)" for j
    using find_delete_row [of n_id j "o_notification_id r" "notification_rows db"]
    by (simp add: find_notification_def delete_row_def pruned_def)
  have r: "r \<in> set (outbox_rows db)" "o_id r = k"
    using assms(1) by (auto simp: find_outbox_def dest: find_row_Some)
  have other: "o_notification_id x \<noteq> o_notification_id r" if "x \<in> set (outbox_rows db)" "o_id x \<noteq> k" for x
    using inv that r by (auto simp: notify_inv_def distinct_map dest: inj_onD)
  have "filter (\<lambda>x. at_outbox_id x = j \<and> at_outbox_id x \<noteq> k) (attempt_rows db) = attempts_of j db"
    if "j \<noteq> k" for j using that by (auto simp: attempts_of_def intro: filter_cong)
  then have "attempts_of j (pruned k r db) = attempts_of j db" if "j \<noteq> k" for j
    using that by (simp add: attempts_of_def conj_commute pruned_def)
  then show ?thesis
    using inv other unfolding notify_inv_def fo fn
    by (auto simp: outbox_keys_def distinct_map_filter pruned_def)
qed

section \<open>Histories\<close>

type_synonym notify_history = "(instant \<times> notify_call) list"

definition notify_run :: "notify_cfg \<Rightarrow> notify_history \<Rightarrow> notify_db \<Rightarrow> notify_db" where
  "notify_run cfg cs db = fold (\<lambda>(now, c). notify_exec cfg now c) cs db"

lemma notify_run_simps [simp]:
  "notify_run cfg [] db = db"
  "notify_run cfg ((now, c) # cs) db = notify_run cfg cs (notify_exec cfg now c db)"
  by (simp_all add: notify_run_def)

lemma notify_exec_inv:
  assumes "notify_inv (nc_attempt_limit cfg) db" and "valid_call c"
  shows "notify_inv (nc_attempt_limit cfg) (notify_exec cfg now c db)"
proof -
  have "outbox_keys db" using assms(1) by (simp add: notify_inv_def)
  from notify_exec_steps [OF this assms(2), of cfg now] assms(1) show ?thesis
    by (induction rule: rtranclp_induct) (auto simp: any_outbox_step_def prune_step_def intro: outbox_step_inv prune_inv)
qed

lemma notify_run_inv:
  "notify_inv (nc_attempt_limit cfg) db \<Longrightarrow> \<forall>(now, c) \<in> set cs. valid_call c \<Longrightarrow>
     notify_inv (nc_attempt_limit cfg) (notify_run cfg cs db)"
proof (induction cs arbitrary: db)
  case (Cons nc cs)
  obtain now c where "nc = (now, c)" by (cases nc)
  then show ?case using Cons.prems by (auto intro!: Cons.IH notify_exec_inv)
qed simp

lemma empty_notify_inv: "0 \<le> limit \<Longrightarrow> notify_inv limit empty_notify_db"
  by (simp add: notify_inv_def empty_notify_db_def outbox_keys_def find_outbox_def)

end
