(* ===== verification/Notify_Spec.thy ===== *)
theory Notify_Spec
  imports Notify_Invariants
begin

text \<open>
  Which calls may change an entry at all, the isolation of entries from each other and from other
  profile scopes, and the instance of the fencing contract.
\<close>

section \<open>When a call can change an entry\<close>

definition carries :: "outbox_entry \<Rightarrow> outbox_row \<Rightarrow> bool" where
  "carries e r \<longleftrightarrow> o_status r = O_Claimed \<and> o_lease_token r = oe_lease_token e \<and> o_fence r = oe_fence e"

fun may_change :: "instant \<Rightarrow> notify_call \<Rightarrow> outbox_row \<Rightarrow> bool" where
  "may_change now (N_Enqueue u q sc) r = False"
| "may_change now (N_Claim t k w tr d n sc) r = (o_status r = O_Pending \<or> claim_stale now r)"
| "may_change now (N_Renew e sc) r = carries e r"
| "may_change now (N_Delivered e m sc) r = carries e r"
| "may_change now (N_Failed e m sc) r = carries e r"
| "may_change now (N_In_Doubt e m sc) r = carries e r"
| "may_change now (N_Release e sc) r = carries e r"
| "may_change now (N_Fail_Pending k m sc) r = (o_status r = O_Pending)"
| "may_change now (N_Retry k sc) r = (o_status r = O_Failed)"
| "may_change now (N_Resolve k d a n sc) r = (o_status r = O_In_Doubt)"
| "may_change now (N_Cancel k sc) r = (o_status r \<in> {O_Pending, O_Failed, O_In_Doubt})"
| "may_change now (N_Recover k p m t sc) r = claim_stale (case t of None \<Rightarrow> now | Some t \<Rightarrow> t) r"
| "may_change now (N_Prune ks sc) r = terminal_outbox r"

lemma bounded_stays: "fst (f (py_strip v) s) = s \<Longrightarrow> fst (bind (bounded_text v name n) f s) = s"
  by (simp add: bounded_text_def Let_def op_defs)

lemma unless_stays: "fst (f () s) = s \<Longrightarrow> fst (bind (unless b e) f s) = s"
  by (simp add: op_defs)

lemma note_stays: "(\<And>n. fst (f n s) = s) \<Longrightarrow>
    fst (bind (case v of None \<Rightarrow> ret None
      | Some n \<Rightarrow> bind (bounded_text n name m) (\<lambda>n. ret (Some n))) f s) = s"
  by (cases v) (simp_all add: op_defs bounded_text_def Let_def)

lemma or_expire_stays:
  assumes m: "\<And>t x. m db = (t, Inr x) \<Longrightarrow> t = db"
    and r: "find_outbox (oe_id e) db = Some r" "\<not> carries e r"
  shows "fst (or_expire e now (atomic m) db) = db"
proof (cases rule: op_cases [of "atomic m" db])
  case (ok t x)
  moreover have "t = db" using m ok by (simp add: op_ok)
  ultimately show ?thesis by (simp add: or_expire_def)
next
  case (err t er)
  have "persist_expired_claim e now db = (db, Inr ())"
    using r by (auto simp: persist_expired_claim_def op_defs outbox_row_by_id_def carries_def)
  moreover have "t = db" using err by (simp add: op_err)
  ultimately show ?thesis using err by (cases er) (simp_all add: or_expire_def bind_def raise_def)
qed

lemma claim_stays:
  assumes "find_outbox k db = Some r" and "o_status r \<noteq> O_Pending" and "\<not> claim_stale now r"
  shows "fst (outbox_claim_impl cfg now t k w tr d n sc db) = db"
  unfolding outbox_claim_impl_def
proof (rule atomic_bind_stays, simp add: some_or_def, goal_cases)
  case (1 s x)
  then show ?case using assms by (cases "o_status r") (auto simp: op_ok claim_stale_def)
qed

lemma entry_stays:
  assumes r: "find_outbox k db = Some r"
  shows "o_status r \<noteq> O_Pending \<Longrightarrow> fst (fail_pending_impl now k m sc db) = db"
    and "o_status r \<noteq> O_Failed \<Longrightarrow> fst (retry_impl cfg now k sc db) = db"
    and "o_status r \<noteq> O_In_Doubt \<Longrightarrow> fst (resolve_impl now k dsp a n sc db) = db"
    and "o_status r \<notin> {O_Pending, O_Failed, O_In_Doubt} \<Longrightarrow> fst (cancel_impl now k sc db) = db"
    and "\<not> claim_stale (case t of None \<Rightarrow> clock | Some t \<Rightarrow> t) r \<Longrightarrow>
      fst (recover_claim_impl clock k p m t sc db) = db"
  unfolding fail_pending_impl_def retry_impl_def resolve_impl_def cancel_impl_def
    recover_claim_impl_def Let_def
  using r by (cases "o_status r"; auto intro!: atomic_stays simp: op_ok claim_stale_def split: if_splits)+

lemma lease_stays:
  assumes r: "find_outbox (oe_id e) db = Some r" and "\<not> carries e r"
  shows "fst (outbox_renew_impl cfg now e sc db) = db"
    and "fst (finish_claim_impl now e target er m sc db) = db"
  unfolding outbox_renew_impl_def finish_claim_impl_def
  using assms by (auto intro!: or_expire_stays [OF _ assms] simp: op_ok carries_def claim_live_def)

lemma enqueue_stays:
  assumes "find_outbox (''outbox_'' @ u) db \<noteq> None"
  shows "fst (enqueue_impl u q db) = db"
  unfolding enqueue_impl_def
proof (rule atomic_stays, goal_cases)
  case (1 t x)
  then show ?case using assms
    by (auto simp: op_ok sql_insert_outbox_def outbox.insert_ok sql_insert_notification_def
        requests.insert_ok find_outbox_def new_outbox_row_def split: option.splits)
qed

lemma exec_stays:
  assumes "find_outbox k db = Some r" and "call_target c = Some k" and "\<not> may_change now c r"
  shows "notify_exec cfg now c db = db"
  using assms
  by (cases c) (auto simp: notify_exec_def notify_outcome_def notify_defs Let_def
      intro!: bounded_stays unless_stays note_stays claim_stays entry_stays lease_stays
        enqueue_stays [simplified])

section \<open>Entries do not interfere\<close>

lemma outbox_step_frame:
  assumes "outbox_step limit now k db db'" and "j \<noteq> k"
  shows "find_outbox j db' = find_outbox j db \<and> attempts_of j db' = attempts_of j db"
  using assms
proof (induction rule: outbox_step.induct)
  case (enqueue db q u)
  then show ?case
    by (auto simp: find_outbox_def find_row_append attempts_of_def new_outbox_row_def split: option.splits)
next
  case (change db r r' acts' db')
  then show ?case
    using find_outbox_put [OF change(1) _ change(3)] find_outbox_id [OF change(1)]
      entry_step_fixed [OF change(2)] by simp
qed

lemma outbox_reach_frame:
  "outbox_reach limit now k db db' \<Longrightarrow> j \<noteq> k \<Longrightarrow>
     find_outbox j db' = find_outbox j db \<and> attempts_of j db' = attempts_of j db"
  by (induction rule: rtranclp_induct) (auto dest: outbox_step_frame)

fun prunes :: "notify_call \<Rightarrow> bool" where
  "prunes (N_Prune ks sc) = True"
| "prunes c = False"

lemma entry_unchanged:
  assumes "outbox_keys db" and "valid_call c" and r: "find_outbox k db = Some r"
    and "\<not> prunes c" and "call_target c = Some k \<longrightarrow> \<not> may_change now c r"
  shows "find_outbox k (notify_exec cfg now c db) = Some r
    \<and> attempts_of k (notify_exec cfg now c db) = attempts_of k db"
proof -
  obtain j where j: "call_target c = Some j" using assms(4) by (cases c) simp_all
  show ?thesis
  proof (cases "j = k")
    case True
    with exec_stays [OF r, of c now cfg] j assms(5) r show ?thesis by simp
  next
    case False
    with outbox_reach_frame [OF call_reach [OF assms(1,2) j]] r show ?thesis by simp
  qed
qed

lemma entry_unchanged_run:
  assumes "notify_inv (nc_attempt_limit cfg) db" and "find_outbox k db = Some r"
    and "\<forall>(now, c) \<in> set cs. valid_call c \<and> \<not> prunes c
      \<and> (call_target c = Some k \<longrightarrow> \<not> may_change now c r)"
  shows "find_outbox k (notify_run cfg cs db) = Some r
    \<and> attempts_of k (notify_run cfg cs db) = attempts_of k db"
  using assms
proof (induction cs arbitrary: db)
  case (Cons nc cs)
  obtain now c where nc: "nc = (now, c)" by (cases nc)
  have c: "valid_call c" "\<not> prunes c" "call_target c = Some k \<longrightarrow> \<not> may_change now c r"
    and cs: "\<forall>(now, c) \<in> set cs. valid_call c \<and> \<not> prunes c
      \<and> (call_target c = Some k \<longrightarrow> \<not> may_change now c r)"
    using Cons.prems(3) by (auto simp: nc)
  have keys: "outbox_keys db" using Cons.prems(1) by (simp add: notify_inv_def)
  note one = entry_unchanged [OF keys c(1) Cons.prems(2) c(2,3), of cfg]
  have inv: "notify_inv (nc_attempt_limit cfg) (notify_exec cfg now c db)"
    using Cons.prems(1) c(1) by (rule notify_exec_inv)
  from Cons.IH [OF inv _ cs] one show ?case by (simp add: nc)
qed simp

section \<open>Profile scopes\<close>

definition foreign :: "profile_scope \<Rightarrow> string \<Rightarrow> notify_db \<Rightarrow> bool" where
  "foreign scope k db \<longleftrightarrow> (\<exists>n r. join_by_outbox k db = Some (n, r)
     \<and> request_of n = Inr (n_request n) \<and> \<not> permits scope (nr_profile_label (n_request n)))"

fun call_scope :: "notify_call \<Rightarrow> profile_scope" where
  "call_scope (N_Enqueue u q sc) = sc"
| "call_scope (N_Claim t k w tr d n sc) = sc"
| "call_scope (N_Renew e sc) = sc"
| "call_scope (N_Delivered e m sc) = sc"
| "call_scope (N_Failed e m sc) = sc"
| "call_scope (N_In_Doubt e m sc) = sc"
| "call_scope (N_Release e sc) = sc"
| "call_scope (N_Fail_Pending k m sc) = sc"
| "call_scope (N_Retry k sc) = sc"
| "call_scope (N_Resolve k d a n sc) = sc"
| "call_scope (N_Cancel k sc) = sc"
| "call_scope (N_Recover k p m t sc) = sc"
| "call_scope (N_Prune ks sc) = sc"

abbreviation not_found :: notify_error where
  "not_found \<equiv> NotificationNotFoundError ''outbox entry was not found in the active profile scope''"

lemma foreign_refused: "foreign scope k db \<Longrightarrow> assert_outbox_scope k scope db = (db, Inl not_found)"
  by (auto simp: foreign_def assert_outbox_scope_def op_defs)

lemma foreign_present: "foreign scope k db \<Longrightarrow> find_outbox k db \<noteq> None"
  by (auto simp: foreign_def join_by_outbox_def split: option.splits)

lemma bind_refused: "m s = (s, Inl e) \<Longrightarrow> bind m f s = (s, Inl e)"
  by (simp add: bind_def)

lemma atomic_refused: "m s = (s, Inl e) \<Longrightarrow> atomic m s = (s, Inl e)"
  by (simp add: atomic_def)

lemma foreign_impls:
  assumes "foreign scope k db"
  shows "get_outbox_impl k scope db = (db, Inl not_found)"
    and "outbox_claim_impl cfg now t k w tr d n scope db = (db, Inl not_found)"
    and "oe_id e = k \<Longrightarrow> outbox_renew_impl cfg now e scope db = (db, Inl not_found)"
    and "oe_id e = k \<Longrightarrow> finish_claim_impl now e target er m scope db = (db, Inl not_found)"
    and "fail_pending_impl now k er' scope db = (db, Inl not_found)"
    and "retry_impl cfg now k scope db = (db, Inl not_found)"
    and "resolve_impl now k dsp a nt scope db = (db, Inl not_found)"
    and "cancel_impl now k scope db = (db, Inl not_found)"
    and "recover_claim_impl clock k p er' mo scope db = (db, Inl not_found)"
    and "attempts_impl k scope db = (db, Inl not_found)"
    and "resolutions_impl k scope db = (db, Inl not_found)"
  unfolding get_outbox_impl_def outbox_claim_impl_def outbox_renew_impl_def finish_claim_impl_def
    fail_pending_impl_def retry_impl_def resolve_impl_def cancel_impl_def recover_claim_impl_def
    attempts_impl_def resolutions_impl_def Let_def or_expire_def
  using foreign_refused [OF assms] by (simp_all add: bind_refused atomic_refused)

lemma foreign_exec:
  assumes "foreign (call_scope c) k db" and "call_target c = Some k"
  shows "notify_exec cfg now c db = db"
  using assms foreign_impls [OF assms(1)] foreign_present [OF assms(1)]
  by (cases c) (auto simp: notify_exec_def notify_outcome_def notify_defs Let_def
      intro!: bounded_stays unless_stays note_stays enqueue_stays [simplified])

lemma prune_one_frame:
  assumes inv: "notify_inv limit db" and run: "prune_one scope j db = (t, Inr x)"
    and f: "foreign scope k db"
  shows "foreign scope k t \<and> find_outbox k t = find_outbox k db \<and> attempts_of k t = attempts_of k db
    \<and> notify_inv limit t"
proof -
  obtain n r where nr: "find_outbox k db = Some r" "find_notification (o_notification_id r) db = Some n"
    "request_of n = Inr (n_request n)" "\<not> permits scope (nr_profile_label (n_request n))"
    using f by (auto simp: foreign_def join_by_outbox_Some)
  show ?thesis
  proof (cases "t = db")
    case False
    then obtain n' r' q where r': "find_outbox j db = Some r'"
      "find_notification (o_notification_id r') db = Some n'"
      and q: "request_of n' = Inr q" "permits scope (nr_profile_label q)" and t: "t = pruned j r' db"
      using prune_one_ok [OF run] by (auto simp: join_by_outbox_Some)
    have "j \<noteq> k" using q r' nr by auto
    then have o: "find_outbox k t = find_outbox k db" "attempts_of k t = attempts_of k db"
      using find_delete_row [of o_id k j "outbox_rows db"]
      by (auto simp: t pruned_def find_outbox_def delete_row_def attempts_of_def conj_commute
          intro!: filter_cong)
    have "o_notification_id r \<noteq> o_notification_id r'" using nr(2-4) r'(2) q by auto
    then have "find_notification (o_notification_id r) t = Some n"
      using nr(2) find_delete_row [of n_id "o_notification_id r" "o_notification_id r'" "notification_rows db"]
      by (simp add: t pruned_def find_notification_def delete_row_def)
    then show ?thesis using o nr prune_inv [OF r'(1) inv]
      by (auto simp: foreign_def join_by_outbox_Some t)
  qed (use inv f in simp)
qed

lemma each_prune_frame:
  assumes "each (prune_one scope) ks db = (t, Inr x)" and "notify_inv limit db" and "foreign scope k db"
  shows "find_outbox k t = find_outbox k db \<and> attempts_of k t = attempts_of k db"
  using assms
proof (induction ks arbitrary: db x)
  case (Cons j js)
  then obtain db1 y ys where one: "prune_one scope j db = (db1, Inr y)"
    and rest: "each (prune_one scope) js db1 = (t, Inr ys)" by (auto simp: op_ok)
  from prune_one_frame [OF Cons.prems(2) one Cons.prems(3)] Cons.IH [OF rest] show ?case by auto
qed (simp add: op_ok)

lemma scope_isolation:
  assumes inv: "notify_inv (nc_attempt_limit cfg) db" and "valid_call c"
    and f: "foreign (call_scope c) k db"
  shows "find_outbox k (notify_exec cfg now c db) = find_outbox k db
    \<and> attempts_of k (notify_exec cfg now c db) = attempts_of k db"
proof (cases "call_target c")
  case (Some j)
  have keys: "outbox_keys db" using inv by (simp add: notify_inv_def)
  show ?thesis
  proof (cases "j = k")
    case True
    with foreign_exec [OF f] Some show ?thesis by simp
  next
    case False
    with outbox_reach_frame [OF call_reach [OF keys assms(2) Some]] show ?thesis by simp
  qed
next
  case None
  then obtain ks sc where c: "c = N_Prune ks sc" by (cases c) simp_all
  have "find_outbox k t = find_outbox k db \<and> attempts_of k t = attempts_of k db"
    if "each (prune_one sc) ks db = (t, Inr x)" for t x
    using each_prune_frame [OF that inv] f c by simp
  then have *: "find_outbox k (fst (bind (atomic (each (prune_one sc) ks)) (\<lambda>removed.
        bind (unless (nc_attachments_confined cfg)
          (NotificationStoreError ''messaging attachment directory escapes user_data_dir'')) (\<lambda>_.
          ret (length (filter (\<lambda>x. x \<noteq> None) removed)))) db)) = find_outbox k db
      \<and> attempts_of k (fst (bind (atomic (each (prune_one sc) ks)) (\<lambda>removed.
        bind (unless (nc_attachments_confined cfg)
          (NotificationStoreError ''messaging attachment directory escapes user_data_dir'')) (\<lambda>_.
          ret (length (filter (\<lambda>x. x \<noteq> None) removed)))) db)) = attempts_of k db"
    by (intro final_atomic_bind [where P = "\<lambda>t. find_outbox k t = find_outbox k db
        \<and> attempts_of k t = attempts_of k db"]) (auto simp: op_defs)
  then show ?thesis
    by (cases "ks = []") (simp_all add: c notify_exec_def notify_outcome_def notify_prune_def
        prune_notifications_impl_def ret_def)
qed

section \<open>The fencing contract\<close>

definition notify_step :: "int \<Rightarrow> notify_db \<Rightarrow> notify_db \<Rightarrow> bool" where
  "notify_step limit db db' \<longleftrightarrow> notify_inv limit db \<and> (\<exists>cfg now c. nc_attempt_limit cfg = limit
     \<and> valid_call c \<and> \<not> prunes c \<and> db' = notify_exec cfg now c db)"

definition outbox_fence :: "string \<Rightarrow> notify_db \<Rightarrow> int" where
  "outbox_fence k db = (case find_outbox k db of None \<Rightarrow> 0 | Some r \<Rightarrow> o_fence r)"

definition outbox_accepts :: "string \<Rightarrow> int \<Rightarrow> notify_db \<Rightarrow> bool" where
  "outbox_accepts k n db \<longleftrightarrow>
     (\<exists>e now r. oe_id e = k \<and> oe_fence e = n \<and> assert_lease e now db = (db, Inr r))"

definition outbox_grant :: "int \<Rightarrow> string \<Rightarrow> notify_db \<Rightarrow> notify_db \<Rightarrow> bool" where
  "outbox_grant limit k db db' \<longleftrightarrow> notify_inv limit db \<and> (\<exists>cfg now t j w tr d n sc e.
     nc_attempt_limit cfg = limit \<and> py_strip j = k
     \<and> notify_claim cfg now t j w tr d n sc db = (db', Inr e))"

definition claim_duration :: "notify_cfg \<Rightarrow> int option \<Rightarrow> int" where
  "claim_duration cfg lease_seconds = (case lease_seconds of None \<Rightarrow> nc_lease_seconds cfg
     | Some n \<Rightarrow> if n = 0 then nc_lease_seconds cfg else n)"

lemma bounded_text_ok [op_ok]:
  "bounded_text v name n db = (db', Inr w) \<longleftrightarrow> db' = db \<and> w = py_strip v \<and> w \<noteq> [] \<and> length w \<le> n"
  by (auto simp: bounded_text_def Let_def op_ok split: if_splits)

lemma notify_claim_ok:
  "notify_claim cfg now t j w tr d n sc db = (db', Inr e) \<longleftrightarrow>
     1 \<le> claim_duration cfg n \<and> claim_duration cfg n \<le> 3600
   \<and> py_strip w \<noteq> [] \<and> length (py_strip w) \<le> 200 \<and> py_strip tr \<noteq> [] \<and> length (py_strip tr) \<le> 100
   \<and> py_strip d \<noteq> [] \<and> length (py_strip d) \<le> 500 \<and> py_strip j \<noteq> [] \<and> length (py_strip j) \<le> 128
   \<and> outbox_claim_impl cfg now t (py_strip j) (py_strip w) (py_strip tr) (py_strip d)
       (claim_duration cfg n) sc db = (db', Inr e)"
  unfolding notify_claim_def claim_duration_def [symmetric] Let_def identity_text_def op_ok by auto

lemma entry_step_fence: "entry_step limit now r acts r' acts' \<Longrightarrow> o_fence r \<le> o_fence r'"
  by (erule entry_stepE) (auto simp: unleased_def)

lemma outbox_claim_committed:
  assumes keys: "outbox_keys db" and run: "outbox_claim_impl cfg now t k w tr d n sc db = (db', Inr e)"
  obtains r where "find_outbox k db = Some r" "o_status r = O_Pending"
    "o_attempt_count r < nc_attempt_limit cfg"
    "find_outbox k db' = Some (claimed_outbox now t w tr d n r)"
    "entry_of (claimed_outbox now t w tr d n r) = Inr e"
proof -
  from run obtain r where r: "find_outbox k db = Some r" by (auto simp: outbox_claim_impl_def op_ok)
  from run r have st: "o_status r = O_Pending"
    by (cases "o_status r") (auto simp: outbox_claim_impl_def op_ok)
  from run r st have "claim_pending now t k w tr d n r db = (db', Inr e)"
    "o_attempt_count r < nc_attempt_limit cfg"
    by (auto simp: outbox_claim_impl_def op_ok)
  with that [OF r st] claim_pending_ok(1,2) [OF keys r] show thesis by metis
qed

lemma outbox_step_fence:
  assumes "outbox_step limit now k db db'"
  shows "outbox_fence j db \<le> outbox_fence j db'"
proof (cases "j = k")
  case False
  with outbox_step_frame [OF assms(1)] show ?thesis by (simp add: outbox_fence_def)
next
  case True
  show ?thesis
    using assms unfolding True
  proof (induction rule: outbox_step.induct)
    case (enqueue db q u)
    then show ?case
      by (simp add: outbox_fence_def find_outbox_def find_row_append new_outbox_row_def)
  next
    case (change db r r' acts' db')
    then show ?case
      using find_outbox_put [OF change(1) _ change(3)] find_outbox_id [OF change(1)]
        entry_step_fixed [OF change(2)] entry_step_fence [OF change(2)]
      by (simp add: outbox_fence_def)
  qed
qed

lemma outbox_reach_fence:
  "outbox_reach limit now k db db' \<Longrightarrow> outbox_fence j db \<le> outbox_fence j db'"
  by (induction rule: rtranclp_induct) (auto dest: outbox_step_fence [where j = j] intro: order_trans)

interpretation outbox_lease: granted_lease "notify_step limit" outbox_fence outbox_accepts
  "outbox_grant limit" for limit
proof
  show "outbox_fence k s \<le> outbox_fence k s'" if step: "notify_step limit s s'" for k s s'
  proof -
    from step obtain cfg now c where s: "outbox_keys s" "valid_call c" "\<not> prunes c"
      "s' = notify_exec cfg now c s"
      by (auto simp: notify_step_def notify_inv_def)
    then obtain j where "call_target c = Some j" by (cases c) simp_all
    from outbox_reach_fence [OF call_reach [OF s(1,2) this]] show ?thesis by (simp add: s(4))
  qed
  show "n = outbox_fence k s" if "outbox_accepts k n s" for k n s
    using that by (auto simp: outbox_accepts_def assert_lease_ok outbox_fence_def)
  show "notify_step limit s s'" if "outbox_grant limit k s s'" for k s s'
  proof -
    from that obtain cfg now t j w tr d n sc e where "notify_inv limit s" "nc_attempt_limit cfg = limit"
      "notify_claim cfg now t j w tr d n sc s = (s', Inr e)"
      by (auto simp: outbox_grant_def)
    then show ?thesis
      unfolding notify_step_def
      by (auto simp: notify_exec_def notify_outcome_def intro!: exI [of _ cfg] exI [of _ now]
          exI [of _ "N_Claim t j w tr d n sc"])
  qed
  show "outbox_fence k s < outbox_fence k s'" if "outbox_grant limit k s s'" for k s s'
  proof -
    from that obtain cfg now t w tr d n sc e where "outbox_keys s"
      and run: "outbox_claim_impl cfg now t k w tr d n sc s = (s', Inr e)"
      by (auto simp: outbox_grant_def notify_inv_def notify_claim_ok)
    then show ?thesis
      by (auto simp: outbox_fence_def claimed_outbox_def elim!: outbox_claim_committed)
  qed
qed

lemma run_steps:
  assumes "notify_inv (nc_attempt_limit cfg) db"
    and "\<forall>(now, c) \<in> set cs. valid_call c \<and> \<not> prunes c"
  shows "(notify_step (nc_attempt_limit cfg))\<^sup>*\<^sup>* db (notify_run cfg cs db)"
  using assms
proof (induction cs arbitrary: db)
  case (Cons nc cs)
  obtain now c where nc: "nc = (now, c)" by (cases nc)
  then have "notify_step (nc_attempt_limit cfg) db (notify_exec cfg now c db)"
    using Cons.prems by (auto simp: notify_step_def)
  moreover have "notify_inv (nc_attempt_limit cfg) (notify_exec cfg now c db)"
    using Cons.prems nc by (auto intro: notify_exec_inv)
  ultimately show ?case
    using Cons.IH Cons.prems(2) by (auto simp: nc intro: converse_rtranclp_into_rtranclp)
qed simp

section \<open>Results of single calls\<close>

lemma expired_claim_result:
  assumes inv: "notify_inv limit db" and r: "find_outbox k db = Some r" and stale: "claim_stale now r"
    and scope: "\<not> foreign sc k db"
  shows "\<exists>db'. outbox_claim_impl cfg now t k w tr d n sc db = (db', Inl (NotificationStateError
      ''expired delivery claim is in_doubt and requires operator resolution''))
    \<and> find_outbox k db' = Some ((unleased now r)\<lparr>o_status := O_In_Doubt, o_error := Some expiry_error\<rparr>)
    \<and> attempts_of k db' = close_active k (o_fence r) A_In_Doubt (Some expiry_error) now (attempts_of k db)"
proof -
  let ?r = "(unleased now r)\<lparr>o_status := O_In_Doubt, o_error := Some expiry_error\<rparr>"
  let ?db = "db\<lparr>outbox_rows := update_row o_id k (\<lambda>_. ?r) (outbox_rows db),
      attempt_rows := close_active k (o_fence r) A_In_Doubt (Some expiry_error) now (attempt_rows db)\<rparr>"
  have keys: "outbox_keys db" and check: "outbox_check ?r"
    using inv r by (auto simp: notify_inv_def entry_inv_def outbox_check_def unleased_def)
  have ex: "expire_claim r now db = (?db, Inr ())" using expire_claim_ok [OF keys r] check by simp
  obtain m where n: "find_notification (o_notification_id r) db = Some m" "describes m r"
    using inv find_row_Some [OF r [unfolded find_outbox_def]] by (auto simp: notify_inv_def)
  then have "assert_outbox_scope k sc db = (db, Inr ())"
    using scope r by (auto simp: assert_outbox_scope_ok foreign_def join_by_outbox_Some describes_def)
  moreover have "outbox_row_by_id k db = (db, Inr r)" using r by (simp add: outbox_row_by_id_ok)
  moreover obtain e where "o_lease_expires_at r = Some e" "e \<le> now" and st: "o_status r = O_Claimed"
    using stale by (auto simp: claim_stale_def split: option.splits)
  ultimately have "outbox_claim_impl cfg now t k w tr d n sc db = (?db, Inl (NotificationStateError
      ''expired delivery claim is in_doubt and requires operator resolution''))"
    using ex by (simp add: outbox_claim_impl_def bind_def atomic_def some_or_def unless_def ret_def)
  moreover have "find_outbox k ?db = Some ?r"
    using r find_outbox_id [OF r] by (simp add: find_outbox_def find_put_row unleased_def)
  moreover have "attempts_of k ?db = close_active k (o_fence r) A_In_Doubt (Some expiry_error) now (attempts_of k db)"
    using attempts_of_close [where j = k and db = "db\<lparr>outbox_rows := update_row o_id k (\<lambda>_. ?r) (outbox_rows db)\<rparr>"] by simp
  ultimately show ?thesis by blast
qed

lemma existing_unique:
  assumes "notify_inv limit db" and "r \<in> set (outbox_rows db)" and "same_key q r"
  shows "existing_entry q db = Some r"
proof -
  have "x = r" if "x \<in> set (outbox_rows db)" "same_key q x" for x
  proof -
    have "inj_on dedupe_of (set (outbox_rows db))" using assms(1) by (simp add: notify_inv_def distinct_map)
    from inj_onD [OF this, of x r] show ?thesis using assms(2,3) that by (simp add: same_key_def)
  qed
  then have "set (sort_key (\<lambda>r. (o_created_at r, o_id r)) (filter (same_key q) (outbox_rows db))) = {r}"
    unfolding set_sort set_filter using assms(2,3) by blast
  then show ?thesis
    by (cases "sort_key (\<lambda>r. (o_created_at r, o_id r)) (filter (same_key q) (outbox_rows db))")
      (auto simp: existing_entry_def)
qed

lemma find_notification_id: "find_notification k db = Some n \<Longrightarrow> n_id n = k"
  by (auto simp: find_notification_def dest: find_row_Some)

lemma enqueue_result:
  assumes inv: "notify_inv limit db" and valid: "make_request q = Inr q"
    and run: "enqueue_impl u q db = (db', Inr res)"
  obtains r where "r \<in> set (outbox_rows db')" "same_key q r"
    "record_by_notification (o_notification_id r) db' = (db', Inr res)" "notify_inv limit db'"
proof -
  have req: "request_of (new_notification_row q) = Inr q"
    using valid by (simp add: request_of_def new_notification_row_def)
  from enqueue_ok [OF run req, of limit 0] show thesis
  proof
    assume *: "existing_entry q db \<noteq> None \<and> db' = db"
    then obtain r where r: "existing_entry q db = Some r" by blast
    then have "r \<in> set (sort_key (\<lambda>r. (o_created_at r, o_id r)) (filter (same_key q) (outbox_rows db)))"
      by (simp add: existing_entry_def del: set_sort split: list.splits)
    moreover have "record_by_notification (o_notification_id r) db = (db, Inr res)"
      using run * r by (simp add: enqueue_impl_def op_ok)
    ultimately show thesis using * inv that [of r] by simp
  next
    assume *: "existing_entry q db = None \<and> outbox_step limit 0 (''outbox_'' @ u) db db'"
    then have rec: "record_by_notification (nr_id q) db' = (db', Inr res)"
      using run by (auto simp: enqueue_impl_def op_ok)
    then obtain n r where "join_by_notification (nr_id q) db' = Some (n, r)"
      by (auto simp: record_by_notification_ok)
    have new: "new_outbox_row u q \<in> set (outbox_rows db')"
      using run * by (auto simp: enqueue_impl_def op_ok sql_insert_outbox_def outbox.insert_ok
          sql_insert_notification_def requests.insert_ok)
    have "same_key q (new_outbox_row u q)"
      by (simp add: same_key_def dedupe_of_def new_outbox_row_def)
    with new rec inv * show thesis
      by (intro that [of "new_outbox_row u q"]) (auto simp: new_outbox_row_def intro: outbox_step_inv)
  qed
qed

lemma enqueue_again:
  assumes inv: "notify_inv limit db" and valid: "make_request q = Inr q"
    and run: "enqueue_impl u q db = (db1, Inr res)"
    and same: "nr_source_kind q' = nr_source_kind q" "nr_source_id q' = nr_source_id q"
      "nr_dedupe_key q' = nr_dedupe_key q" "nr_route q' = nr_route q"
  shows "enqueue_impl u' q' db1 = (db1, Inr res)"
proof -
  obtain r where r: "r \<in> set (outbox_rows db1)" "same_key q r"
    "record_by_notification (o_notification_id r) db1 = (db1, Inr res)" "notify_inv limit db1"
    using enqueue_result [OF inv valid run] .
  have "existing_entry q' db1 = Some r"
    using r(2) same by (intro existing_unique [OF r(4,1)]) (simp add: same_key_def)
  with r(3) show ?thesis by (simp add: enqueue_impl_def bind_def reads_def atomic_def)
qed

end
