(* ===== verification/Notify_Properties.thy ===== *)
theory Notify_Properties
  imports Notify_Spec "HOL-Library.Code_Target_Numeral"
begin

text \<open>The properties of the notification store, each with a concrete instance.\<close>

section \<open>Valid histories and a sample\<close>

text \<open>
  A positive attempt limit and validated requests; nothing is assumed about the clock, about the
  arguments of the calls or about which of them succeed.
\<close>

definition valid_history :: "notify_cfg \<Rightarrow> notify_history \<Rightarrow> bool" where
  "valid_history cfg cs \<longleftrightarrow> 0 \<le> nc_attempt_limit cfg \<and> list_all (\<lambda>(t, c). valid_call c) cs"

lemma valid_history_inv:
  "valid_history cfg cs \<Longrightarrow> notify_inv (nc_attempt_limit cfg) (notify_run cfg cs empty_notify_db)"
  by (rule notify_run_inv) (auto simp: valid_history_def list_all_iff empty_notify_inv)

definition sample_scope :: profile_scope where
  "sample_scope = \<lparr>primary = ''shared'', profiles = [''shared'']\<rparr>"

definition sample_request :: notification_request where
  "sample_request = \<lparr>nr_id = ''notification_00112233445566778899aabbccddeeff'', nr_route = ''home'',
     nr_title = None, nr_body = ''hello'', nr_body_format = Plain_Text, nr_urgency = Normal,
     nr_source_kind = ''job'', nr_profile_label = \<lparr>required_profiles = [''shared'']\<rparr>,
     nr_source_id = ''j1'', nr_dedupe_key = ''d1'', nr_correlations = [], nr_attachments = [],
     nr_created_at = 1, nr_expires_at = None\<rparr>"

definition sample_outbox :: string where
  "sample_outbox = ''outbox_00112233445566778899aabbccddeeff''"

definition sample_notify_cfg :: notify_cfg where
  "sample_notify_cfg = \<lparr>nc_lease_seconds = 60, nc_attempt_limit = 3, nc_attachments_confined = True\<rparr>"

definition enqueue_call :: notify_call where
  "enqueue_call = N_Enqueue ''00112233445566778899aabbccddeeff'' sample_request sample_scope"

definition claim_call_by :: "string \<Rightarrow> notify_call" where
  "claim_call_by token = N_Claim token sample_outbox ''w'' ''smtp'' ''me'' None sample_scope"

definition claimed_history :: notify_history where
  "claimed_history = [(1, enqueue_call), (2, claim_call_by ''t1'')]"

definition claimed_db :: notify_db where
  "claimed_db = notify_run sample_notify_cfg claimed_history empty_notify_db"

definition entry_claimed_by :: "string \<Rightarrow> outbox_entry" where
  "entry_claimed_by token = \<lparr>oe_id = sample_outbox, oe_notification_id = [], oe_route = ''home'',
     oe_status = O_Claimed, oe_attempt_count = 1, oe_fence = 1, oe_lease_owner = Some ''w'',
     oe_lease_token = Some token, oe_lease_expires_at = Some 60000002, oe_transport = Some ''smtp'',
     oe_destination_ref = Some ''me'', oe_platform_message_id = None, oe_error = None,
     oe_created_at = 1, oe_updated_at = 2, oe_delivered_at = None\<rparr>"

lemma sample_valid: "valid_history sample_notify_cfg claimed_history"
  by code_simp

lemma claimed_row:
  "\<exists>r. find_outbox sample_outbox claimed_db = Some r \<and> o_status r = O_Claimed
     \<and> o_lease_expires_at r = Some 60000002 \<and> o_lease_token r = Some ''t1'' \<and> o_fence r = 1"
proof -
  have "(case find_outbox sample_outbox claimed_db of None \<Rightarrow> False | Some r \<Rightarrow> o_status r = O_Claimed
     \<and> o_lease_expires_at r = Some 60000002 \<and> o_lease_token r = Some ''t1'' \<and> o_fence r = 1)"
    by code_simp
  then show ?thesis by (auto split: option.splits)
qed

section \<open>Life cycle\<close>

text \<open>
  C3: every public call of the notification store changes the database by a finite sequence of
  entry life-cycle steps and prunings of terminal entries, whether it returns or raises.
\<close>

theorem outbox_calls_follow_lifecycle:
  assumes "valid_history cfg cs" and "valid_call c"
  shows "(any_outbox_step (nc_attempt_limit cfg) (call_time now c))\<^sup>*\<^sup>*
    (notify_run cfg cs empty_notify_db) (notify_exec cfg now c (notify_run cfg cs empty_notify_db))"
  using valid_history_inv [OF assms(1)] by (intro notify_exec_steps assms(2)) (simp add: notify_inv_def)

theorem outbox_calls_follow_lifecycle_witness:
  "(any_outbox_step 3 5)\<^sup>*\<^sup>* claimed_db (notify_exec sample_notify_cfg 5 (N_Cancel sample_outbox sample_scope) claimed_db)"
  using outbox_calls_follow_lifecycle [OF sample_valid, of "N_Cancel sample_outbox sample_scope" 5]
  by (simp add: claimed_db_def [symmetric]) (simp add: sample_notify_cfg_def)

text \<open>
  C21: in every reachable database keys and deduplication keys are unique, every entry has its valid
  request, only claimed entries hold a lease, the attempts of an entry are numbered and fenced
  without gaps with exactly the current one active while it is claimed, and the attempt count is
  the number of attempts not released and stays within the limit.
\<close>

theorem outbox_invariant:
  assumes "valid_history cfg cs"
  shows "notify_inv (nc_attempt_limit cfg) (notify_run cfg cs empty_notify_db)"
  using assms by (rule valid_history_inv)

theorem outbox_invariant_witness: "notify_inv 3 claimed_db"
  using outbox_invariant [OF sample_valid] by (simp add: claimed_db_def sample_notify_cfg_def)

section \<open>Claims\<close>

text \<open>
  While a delivery claim is live nobody else can touch the entry: no sequence of other calls,
  other claims, recoveries and completions with another token included, changes it or its attempts.
\<close>

theorem outbox_claim_exclusive:
  assumes "valid_history cfg cs" and "db = notify_run cfg cs empty_notify_db"
    and "find_outbox k db = Some r" and "o_status r = O_Claimed"
    and "list_all (\<lambda>(t, c). valid_call c \<and> \<not> prunes c
      \<and> (call_target c = Some k \<longrightarrow> \<not> may_change t c r)) ds"
  shows "find_outbox k (notify_run cfg ds db) = Some r
    \<and> attempts_of k (notify_run cfg ds db) = attempts_of k db"
  using valid_history_inv [OF assms(1)] assms(3,5) unfolding assms(2) list_all_iff
  by (intro entry_unchanged_run) auto

theorem outbox_claim_exclusive_witness:
  "find_outbox sample_outbox (notify_run sample_notify_cfg
     [(3, claim_call_by ''t2''), (4, N_Delivered (entry_claimed_by ''t2'') ''m'' sample_scope),
      (5, N_Recover sample_outbox False ''x'' None sample_scope)] claimed_db)
   = find_outbox sample_outbox claimed_db"
proof -
  obtain r where r: "find_outbox sample_outbox claimed_db = Some r" "o_status r = O_Claimed"
     "o_lease_expires_at r = Some 60000002" "o_lease_token r = Some ''t1''"
    using claimed_row by blast
  have "list_all (\<lambda>(t, c). valid_call c \<and> \<not> prunes c
      \<and> (call_target c = Some sample_outbox \<longrightarrow> \<not> may_change t c r))
      [(3, claim_call_by ''t2''), (4, N_Delivered (entry_claimed_by ''t2'') ''m'' sample_scope),
      (5, N_Recover sample_outbox False ''x'' None sample_scope)]"
    using r by (simp add: claim_call_by_def claim_stale_def entry_claimed_by_def carries_def)
  from outbox_claim_exclusive [OF sample_valid claimed_db_def r(1,2) this] r(1) show ?thesis by simp
qed

text \<open>
  Once another claim of the entry has been granted, a worker that still presents its old claim
  can neither renew nor complete it, at any later time: the lease check fails.
\<close>

theorem outbox_stale_worker_rejected:
  assumes "valid_history cfg cs" and "db = notify_run cfg cs empty_notify_db"
    and "assert_lease e t db = (db, Inr r)"
    and "list_all (\<lambda>(t, c). valid_call c \<and> \<not> prunes c) ds" and "db1 = notify_run cfg ds db"
    and "notify_claim cfg now token j w tr d n sc db1 = (db2, Inr e2)" and "py_strip j = oe_id e"
    and "list_all (\<lambda>(t, c). valid_call c \<and> \<not> prunes c) es"
  shows "assert_lease e t' (notify_run cfg es db2) \<noteq> (db', Inr r')"
proof -
  let ?limit = "nc_attempt_limit cfg"
  have inv: "notify_inv ?limit db" using valid_history_inv [OF assms(1)] by (simp add: assms(2))
  have steps: "(notify_step ?limit)\<^sup>*\<^sup>* db db1" and inv1: "notify_inv ?limit db1"
    using run_steps [OF inv] notify_run_inv [OF inv, of ds] assms(4,5) by (auto simp: list_all_iff)
  have grant: "outbox_grant ?limit (oe_id e) db1 db2"
    unfolding outbox_grant_def using inv1 assms(6,7) by blast
  have "notify_inv ?limit db2"
    using notify_exec_inv [OF inv1, of "N_Claim token j w tr d n sc" now] assms(6)
    by (simp add: notify_exec_def notify_outcome_def)
  then have "(notify_step ?limit)\<^sup>*\<^sup>* db2 (notify_run cfg es db2)"
    using assms(8) by (intro run_steps) (auto simp: list_all_iff)
  moreover have "outbox_accepts (oe_id e) (oe_fence e) db"
    using assms(3) by (auto simp: outbox_accepts_def)
  ultimately have "\<not> outbox_accepts (oe_id e) (oe_fence e) (notify_run cfg es db2)"
    using steps grant by (intro outbox_lease.fenced_out)
  then show ?thesis by (auto simp: outbox_accepts_def assert_lease_ok)
qed

definition recovered_db :: notify_db where
  "recovered_db = notify_run sample_notify_cfg
     [(60000003, N_Recover sample_outbox True ''x'' None sample_scope)] claimed_db"

theorem outbox_stale_worker_rejected_witness:
  "\<exists>db2 e2. notify_claim sample_notify_cfg 60000004 ''t2'' sample_outbox ''v'' ''smtp'' ''me'' None
      sample_scope recovered_db = (db2, Inr e2)
    \<and> (\<forall>db' r'. assert_lease (entry_claimed_by ''t1'') 60000005 db2 \<noteq> (db', Inr r'))"
proof -
  have "(case snd (notify_claim sample_notify_cfg 60000004 ''t2'' sample_outbox ''v'' ''smtp'' ''me'' None
      sample_scope recovered_db) of Inl _ \<Rightarrow> False | Inr _ \<Rightarrow> True)" by code_simp
  then obtain db2 e2 where c: "notify_claim sample_notify_cfg 60000004 ''t2'' sample_outbox ''v''
      ''smtp'' ''me'' None sample_scope recovered_db = (db2, Inr e2)"
    by (cases "notify_claim sample_notify_cfg 60000004 ''t2'' sample_outbox ''v'' ''smtp'' ''me'' None
      sample_scope recovered_db") (auto split: sum.splits)
  have s: "py_strip sample_outbox = oe_id (entry_claimed_by ''t1'')" by code_simp
  obtain r where acc: "assert_lease (entry_claimed_by ''t1'') 3 claimed_db = (claimed_db, Inr r)"
    using claimed_row by (auto simp: assert_lease_ok claim_live_def entry_claimed_by_def)
  show ?thesis
    using outbox_stale_worker_rejected [OF sample_valid claimed_db_def acc _ recovered_db_def c s,
        of "[]" 60000005] c by simp
qed

text \<open>
  Claiming an entry whose claim has expired raises a state error, and still commits: the entry
  becomes \<open>in_doubt\<close> and its attempt is closed, so that it cannot be sent again unnoticed.
\<close>

theorem outbox_expired_claim_in_doubt:
  assumes "valid_history cfg cs" and "db = notify_run cfg cs empty_notify_db"
    and "find_outbox k db = Some r" and "claim_stale now r" and "\<not> foreign sc k db"
  shows "\<exists>db'. outbox_claim_impl cfg now t k w tr d n sc db = (db', Inl (NotificationStateError
      ''expired delivery claim is in_doubt and requires operator resolution''))
    \<and> find_outbox k db' = Some ((unleased now r)\<lparr>o_status := O_In_Doubt, o_error := Some expiry_error\<rparr>)
    \<and> attempts_of k db' = close_active k (o_fence r) A_In_Doubt (Some expiry_error) now (attempts_of k db)"
  using valid_history_inv [OF assms(1)] assms(3-5) unfolding assms(2) by (rule expired_claim_result)

theorem outbox_expired_claim_in_doubt_witness:
  "\<exists>db' r. outbox_claim_impl sample_notify_cfg 60000003 ''t2'' sample_outbox ''v'' ''smtp'' ''me'' 60
      sample_scope claimed_db = (db', Inl (NotificationStateError
      ''expired delivery claim is in_doubt and requires operator resolution''))
    \<and> find_outbox sample_outbox db' = Some r \<and> o_status r = O_In_Doubt"
proof -
  obtain r where r: "find_outbox sample_outbox claimed_db = Some r" "o_status r = O_Claimed"
     "o_lease_expires_at r = Some 60000002" using claimed_row by blast
  have "case join_by_outbox sample_outbox claimed_db of None \<Rightarrow> True | Some (n, r) \<Rightarrow>
      permits sample_scope (nr_profile_label (n_request n))" by code_simp
  then have "\<not> foreign sample_scope sample_outbox claimed_db" by (auto simp: foreign_def)
  moreover have "claim_stale 60000003 r" using r by (simp add: claim_stale_def)
  ultimately show ?thesis
    using outbox_expired_claim_in_doubt [OF sample_valid claimed_db_def r(1)] by fastforce
qed

section \<open>Delivery is not repeated\<close>

text \<open>
  A delivered or cancelled entry is final: short of pruning, no sequence of calls changes it or
  its attempts, so a delivered notification is never claimed again.
\<close>

theorem outbox_terminal_final:
  assumes "valid_history cfg cs" and "db = notify_run cfg cs empty_notify_db"
    and "find_outbox k db = Some r" and "terminal_outbox r"
    and "list_all (\<lambda>(t, c). valid_call c \<and> \<not> prunes c) ds"
  shows "find_outbox k (notify_run cfg ds db) = Some r
    \<and> attempts_of k (notify_run cfg ds db) = attempts_of k db"
proof (rule entry_unchanged_run [OF _ assms(3)])
  show "notify_inv (nc_attempt_limit cfg) db" using valid_history_inv [OF assms(1)] by (simp add: assms(2))
  have "\<not> may_change t c r" if "\<not> prunes c" for t c
    using assms(4) that by (cases c) (auto simp: terminal_outbox_def carries_def claim_stale_def)
  then show "\<forall>(t, c) \<in> set ds. valid_call c \<and> \<not> prunes c \<and> (call_target c = Some k \<longrightarrow> \<not> may_change t c r)"
    using assms(5) by (auto simp: list_all_iff)
qed

definition delivered_history :: notify_history where
  "delivered_history = claimed_history @ [(3, N_Delivered (entry_claimed_by ''t1'') ''m1'' sample_scope)]"

theorem outbox_terminal_final_witness:
  "\<exists>r. find_outbox sample_outbox (notify_run sample_notify_cfg
       [(70000000, claim_call_by ''t3''), (70000001, N_Retry sample_outbox sample_scope)]
       (notify_run sample_notify_cfg delivered_history empty_notify_db)) = Some r
     \<and> o_status r = O_Delivered"
proof -
  have v: "valid_history sample_notify_cfg delivered_history" by code_simp
  have "case find_outbox sample_outbox (notify_run sample_notify_cfg delivered_history empty_notify_db)
    of None \<Rightarrow> False | Some r \<Rightarrow> o_status r = O_Delivered" by code_simp
  then obtain r where r: "find_outbox sample_outbox
      (notify_run sample_notify_cfg delivered_history empty_notify_db) = Some r" "o_status r = O_Delivered"
    by (auto split: option.splits)
  then have "terminal_outbox r" by (simp add: terminal_outbox_def)
  from outbox_terminal_final [OF v refl r(1) this,
      of "[(70000000, claim_call_by ''t3''), (70000001, N_Retry sample_outbox sample_scope)]"] r(2)
  show ?thesis by (simp add: claim_call_by_def)
qed

text \<open>
  An ambiguous delivery is not replayed by the system: as long as no operator resolves or
  cancels it, an \<open>in_doubt\<close> entry and its attempts stay as they are.
\<close>

fun decides :: "string \<Rightarrow> notify_call \<Rightarrow> bool" where
  "decides k (N_Resolve j d a n sc) = (py_strip j = k)"
| "decides k (N_Cancel j sc) = (py_strip j = k)"
| "decides k c = False"

theorem outbox_in_doubt_waits:
  assumes "valid_history cfg cs" and "db = notify_run cfg cs empty_notify_db"
    and "find_outbox k db = Some r" and "o_status r = O_In_Doubt"
    and "list_all (\<lambda>(t, c). valid_call c \<and> \<not> prunes c \<and> \<not> decides k c) ds"
  shows "find_outbox k (notify_run cfg ds db) = Some r
    \<and> attempts_of k (notify_run cfg ds db) = attempts_of k db"
proof (rule entry_unchanged_run [OF _ assms(3)])
  show "notify_inv (nc_attempt_limit cfg) db" using valid_history_inv [OF assms(1)] by (simp add: assms(2))
  have "\<not> may_change t c r" if "\<not> prunes c" "\<not> decides k c" "call_target c = Some k" for t c
    using assms(4) that by (cases c) (auto simp: carries_def claim_stale_def)
  then show "\<forall>(t, c) \<in> set ds. valid_call c \<and> \<not> prunes c \<and> (call_target c = Some k \<longrightarrow> \<not> may_change t c r)"
    using assms(5) by (auto simp: list_all_iff)
qed

definition in_doubt_history :: notify_history where
  "in_doubt_history = claimed_history @ [(60000003, claim_call_by ''t2'')]"

theorem outbox_in_doubt_waits_witness:
  "\<exists>r. find_outbox sample_outbox (notify_run sample_notify_cfg
       [(70000000, claim_call_by ''t3''), (70000001, N_Retry sample_outbox sample_scope)]
       (notify_run sample_notify_cfg in_doubt_history empty_notify_db)) = Some r
     \<and> o_status r = O_In_Doubt"
proof -
  have v: "valid_history sample_notify_cfg in_doubt_history" by code_simp
  have "case find_outbox sample_outbox (notify_run sample_notify_cfg in_doubt_history empty_notify_db)
    of None \<Rightarrow> False | Some r \<Rightarrow> o_status r = O_In_Doubt" by code_simp
  then obtain r where r: "find_outbox sample_outbox
      (notify_run sample_notify_cfg in_doubt_history empty_notify_db) = Some r" "o_status r = O_In_Doubt"
    by (auto split: option.splits)
  from outbox_in_doubt_waits [OF v refl r,
      of "[(70000000, claim_call_by ''t3''), (70000001, N_Retry sample_outbox sample_scope)]"] r(2)
  show ?thesis by (simp add: claim_call_by_def)
qed

text \<open>
  Enqueueing is idempotent: a second request with the same source, deduplication key and route
  returns the first record, whatever its own identity and contents, and changes nothing.
\<close>

theorem outbox_enqueue_idempotent:
  assumes "valid_history cfg cs" and "db = notify_run cfg cs empty_notify_db"
    and "make_request q = Inr q" and "notify_enqueue u q scope db = (db1, Inr res)"
    and "dedupe_of (new_outbox_row u' q') = dedupe_of (new_outbox_row u q)"
    and "permits scope' (nr_profile_label q')"
  shows "notify_enqueue u' q' scope' db1 = (db1, Inr res)"
proof -
  have "enqueue_impl u q db = (db1, Inr res)" using assms(4) by (simp add: notify_enqueue_def op_ok)
  moreover have "notify_inv (nc_attempt_limit cfg) db"
    using valid_history_inv [OF assms(1)] by (simp add: assms(2))
  ultimately have "enqueue_impl u' q' db1 = (db1, Inr res)"
    using assms(3,5) by (intro enqueue_again [where u = u and db = db])
      (simp_all add: dedupe_of_def new_outbox_row_def)
  then show ?thesis using assms(6) by (simp add: notify_enqueue_def op_defs)
qed

theorem outbox_enqueue_idempotent_witness:
  "\<exists>db1 res. notify_enqueue ''00112233445566778899aabbccddeeff'' sample_request sample_scope empty_notify_db
      = (db1, Inr res)
    \<and> notify_enqueue ''u2'' (sample_request\<lparr>nr_id := ''other'', nr_body := ''again''\<rparr>) sample_scope db1
      = (db1, Inr res)"
proof -
  have "case snd (notify_enqueue ''00112233445566778899aabbccddeeff'' sample_request sample_scope
    empty_notify_db) of Inl _ \<Rightarrow> False | Inr _ \<Rightarrow> True" by code_simp
  then obtain db1 res where run: "notify_enqueue ''00112233445566778899aabbccddeeff'' sample_request
      sample_scope empty_notify_db = (db1, Inr res)"
    by (cases "notify_enqueue ''00112233445566778899aabbccddeeff'' sample_request sample_scope
      empty_notify_db") (auto split: sum.splits)
  have v: "valid_history sample_notify_cfg []" "make_request sample_request = Inr sample_request"
    "permits sample_scope (nr_profile_label (sample_request\<lparr>nr_id := ''other'', nr_body := ''again''\<rparr>))"
    "dedupe_of (new_outbox_row ''u2'' (sample_request\<lparr>nr_id := ''other'', nr_body := ''again''\<rparr>))
      = dedupe_of (new_outbox_row ''00112233445566778899aabbccddeeff'' sample_request)"
    by code_simp+
  show ?thesis
    using outbox_enqueue_idempotent [OF v(1) _ v(2) run v(4,3)] run by simp
qed

section \<open>Profile isolation\<close>

text \<open>
  A caller whose profile scope does not cover the label of a notification can neither read nor
  change it through its outbox id: reads report that it was not found, and no call changes the
  entry or its attempts.
\<close>

theorem outbox_scope_isolation:
  assumes "valid_history cfg cs" and "db = notify_run cfg cs empty_notify_db" and "valid_call c"
    and "foreign (call_scope c) k db"
  shows "find_outbox k (notify_exec cfg now c db) = find_outbox k db
    \<and> attempts_of k (notify_exec cfg now c db) = attempts_of k db
    \<and> get_outbox_impl k (call_scope c) db = (db, Inl not_found)
    \<and> attempts_impl k (call_scope c) db = (db, Inl not_found)
    \<and> resolutions_impl k (call_scope c) db = (db, Inl not_found)"
  using scope_isolation [OF _ assms(3,4)] valid_history_inv [OF assms(1)] foreign_impls [OF assms(4)]
  by (simp add: assms(2))

definition other_scope :: profile_scope where
  "other_scope = \<lparr>primary = ''work'', profiles = [''work'']\<rparr>"

theorem outbox_scope_isolation_witness:
  "find_outbox sample_outbox (notify_exec sample_notify_cfg 5 (N_Renew (entry_claimed_by ''t1'') other_scope) claimed_db)
     = find_outbox sample_outbox claimed_db
   \<and> get_outbox_impl sample_outbox other_scope claimed_db = (claimed_db, Inl not_found)"
proof -
  have "(case join_by_outbox sample_outbox claimed_db of None \<Rightarrow> False | Some (n, r) \<Rightarrow>
      \<not> permits other_scope (nr_profile_label (n_request n)))" by code_simp
  then obtain n r where j: "join_by_outbox sample_outbox claimed_db = Some (n, r)"
    "\<not> permits other_scope (nr_profile_label (n_request n))"
    by (auto split: option.splits prod.splits)
  have "notify_inv 3 claimed_db"
    using valid_history_inv [OF sample_valid] by (simp add: claimed_db_def sample_notify_cfg_def)
  then have "request_of n = Inr (n_request n)"
    using j(1) find_outbox_id find_row_Some [of o_id sample_outbox "outbox_rows claimed_db" r]
    by (auto simp: notify_inv_def join_by_outbox_Some find_outbox_def describes_def)
  with j have f: "foreign other_scope sample_outbox claimed_db" by (auto simp: foreign_def)
  show ?thesis
    using outbox_scope_isolation [OF sample_valid claimed_db_def, of "N_Renew (entry_claimed_by ''t1'') other_scope"
        sample_outbox 5] f by simp
qed

end
