(* ===== verification/Profile_Properties.thy ===== *)
theory Profile_Properties
  imports Profiles "HOL-Library.Code_Target_Numeral"
begin

text \<open>The properties of profile scopes and qualified references, each with a concrete instance.\<close>

section \<open>Scopes\<close>

definition access_ok :: "string \<Rightarrow> string list \<Rightarrow> bool" where
  "access_ok prim access \<longleftrightarrow> profile_ok (py_strip prim) \<and> list_all (\<lambda>a. profile_ok (py_strip a)) access
     \<and> distinct (map py_strip (fromkeys (SHARED_PROFILE # py_strip prim # access)))"

lemma shared_ok: "profile_ok SHARED_PROFILE" "py_strip SHARED_PROFILE = SHARED_PROFILE"
  by code_simp+

lemma collect_total:
  assumes "\<forall>x \<in> set xs. \<exists>y. f x = Inr y"
  shows "\<exists>ys. collect f xs = Inr ys"
  using assms by (induction xs) (auto simp: andthen_def)

lemma canonical_profiles_exact:
  "(\<exists>ps. canonical_profiles vs = Inr ps) \<longleftrightarrow>
     (\<forall>v \<in> set vs. profile_ok (py_strip v)) \<and> distinct (map py_strip vs)"
proof
  assume "\<exists>ps. canonical_profiles vs = Inr ps"
  then show "(\<forall>v \<in> set vs. profile_ok (py_strip v)) \<and> distinct (map py_strip vs)"
    using canonical_profiles_ok by (fastforce simp: canonical_list_def list_all_iff)
next
  assume a: "(\<forall>v \<in> set vs. profile_ok (py_strip v)) \<and> distinct (map py_strip vs)"
  then obtain ns where c: "collect validate_profile_compartment vs = Inr ns"
    using collect_total [of vs validate_profile_compartment] by (auto simp: validate_compartment_ok)
  then have "ns = map py_strip vs"
    by (auto simp: collect_Inr validate_compartment_ok list_all2_conv_all_nth intro: nth_equalityI)
  then show "\<exists>ps. canonical_profiles vs = Inr ps"
    using a c by (simp add: canonical_profiles_def require_def)
qed

lemma scope_create_total:
  assumes "access_ok prim access"
  shows "\<exists>s. scope_create prim access = Inr s"
proof -
  let ?vs = "fromkeys (SHARED_PROFILE # py_strip prim # access)"
  have ok: "profile_ok (py_strip prim)" "py_strip (py_strip prim) = py_strip prim"
    using assms by (auto simp: access_ok_def profile_ok_def profile_name_strip)
  then obtain ps where ps: "canonical_profiles ?vs = Inr ps"
    using assms canonical_profiles_exact [of ?vs] shared_ok by (auto simp: access_ok_def list_all_iff)
  note can = canonical_profiles_ok [OF ps]
  have "SHARED_PROFILE \<in> set ps" "py_strip prim \<in> set ps"
    using can ok(2) shared_ok(2) by auto
  then have "profile_scope (py_strip prim) ps = Inr \<lparr>primary = py_strip prim, profiles = ps\<rparr>"
    using ok can by (simp add: profile_scope_def andthen_Inr require_def validate_compartment_ok
        canonical_profiles_fix canonical_names profile_ok_def)
  moreover have "validate_profile_compartment prim = Inr (py_strip prim)"
    using ok by (simp add: validate_compartment_ok)
  ultimately show ?thesis using ps by (simp add: scope_create_def andthen_def Let_def)
qed

text \<open>
  Creating a scope succeeds exactly when the primary and every additional profile are valid
  compartment names that stay distinct once stripped; the scope is then canonical (shared first,
  the rest sorted, no duplicates) and grants exactly shared, the primary and the requested profiles.
\<close>

theorem scope_create_characterised:
  "(\<exists>s. scope_create prim access = Inr s) = access_ok prim access
   \<and> (case scope_create prim access of Inl e \<Rightarrow> True | Inr s \<Rightarrow>
        scope_ok s \<and> primary s = py_strip prim
        \<and> set (profiles s) = {SHARED_PROFILE, py_strip prim} \<union> py_strip ` set access)"
proof -
  have "access_ok prim access" if s: "scope_create prim access = Inr s" for s
  proof -
    from s obtain ps where p: "profile_ok (py_strip prim)"
      and ps: "canonical_profiles (fromkeys (SHARED_PROFILE # py_strip prim # access)) = Inr ps"
      by (auto simp: scope_create_def andthen_Inr validate_compartment_ok Let_def)
    with canonical_profiles_exact show ?thesis
      by (metis (no_types, lifting) access_ok_def list.set_intros(2) list_all_iff set_fromkeys)
  qed
  then have "(\<exists>s. scope_create prim access = Inr s) = access_ok prim access"
    using scope_create_total by blast
  then show ?thesis using scope_create_ok [of prim access] by (auto split: sum.splits)
qed

text \<open>
  C24: delegation never widens access: a child scope narrowed from a parent permits only labels the
  parent permits, and stays so along a chain of narrowings.
\<close>

theorem narrowing_never_widens:
  assumes "scope_narrow parent p1 a1 = Inr child" and "scope_narrow child p2 a2 = Inr grandchild"
    and "permits grandchild label"
  shows "permits parent label \<and> scope_ok child \<and> scope_ok grandchild
    \<and> set (profiles grandchild) \<subseteq> set (profiles parent)"
proof -
  have sub: "scope_ok n \<and> set (profiles n) \<subseteq> set (profiles s)" if "scope_narrow s p a = Inr n" for s p a n
    using that scope_create_ok [of p a]
    by (auto simp: scope_narrow_def andthen_Inr Let_def filter_empty_conv split: if_splits)
  from sub [OF assms(1)] sub [OF assms(2)] assms(3) show ?thesis by (auto simp: permits_def)
qed

theorem narrowing_never_widens_witness:
  "\<exists>child grandchild.
     scope_narrow \<lparr>primary = ''work'', profiles = [''shared'', ''home'', ''work'']\<rparr> ''home'' [''work''] = Inr child
     \<and> scope_narrow child ''home'' [] = Inr grandchild
     \<and> permits \<lparr>primary = ''work'', profiles = [''shared'', ''home'', ''work'']\<rparr>
         \<lparr>required_profiles = [''home'']\<rparr>"
proof (intro exI conjI)
  show c: "scope_narrow \<lparr>primary = ''work'', profiles = [''shared'', ''home'', ''work'']\<rparr> ''home'' [''work'']
      = Inr \<lparr>primary = ''home'', profiles = [''shared'', ''home'', ''work'']\<rparr>" by code_simp
  show g: "scope_narrow \<lparr>primary = ''home'', profiles = [''shared'', ''home'', ''work'']\<rparr> ''home'' []
      = Inr \<lparr>primary = ''home'', profiles = [''shared'', ''home'']\<rparr>" by code_simp
  show "permits \<lparr>primary = ''work'', profiles = [''shared'', ''home'', ''work'']\<rparr>
         \<lparr>required_profiles = [''home'']\<rparr>"
    using narrowing_never_widens [OF c g, of "\<lparr>required_profiles = [''home'']\<rparr>"]
    by (simp add: permits_def)
qed

section \<open>Qualified references\<close>

lemma py_strip_length: "length (py_strip s) \<le> length s"
  unfolding py_strip_def by (metis dual_order.trans length_dropWhile_le length_rev)

text \<open>
  Parsing the qualified form of a valid resource reference gives the reference back, so
  distinct references never share a qualified name.
\<close>

theorem qualified_round_trip:
  assumes "profile_resource_ref profile name = Inr r"
  shows "from_qualified (qualified_ref r) = Inr r"
proof -
  obtain p n where r: "r = \<lparr>ref_profile = p, ref_name = n\<rparr>" and p: "profile_name_re p"
    and n: "n = py_strip name" "n \<noteq> []" "CHR ''/'' \<notin> set n" "\<forall>c \<in> set n. code c \<noteq> 0" "length n \<le> 200"
    using assms py_strip_length [of name]
    by (auto simp: profile_resource_ref_def andthen_Inr Let_def validate_name_ok profile_name_strip)
  have pne: "p \<noteq> []" and pc: "\<forall>c \<in> set p. \<not> is_py_space c \<and> c \<noteq> CHR ''/''"
    using p name_chars_no_space profile_name_chars by (auto simp: profile_name_re_def)
  have ends: "\<not> is_py_space (hd n)" "\<not> is_py_space (last n)"
    using n(2) py_strip_hd [of name] py_strip_last [of name] by (simp_all add: n(1))
  have whole: "py_strip (p @ ''/'' @ n) = p @ ''/'' @ n"
    using pne pc ends n(2) by (intro py_strip_id) (auto simp: hd_append)
  have part: "partition_slash (p @ ''/'' @ n) = (p, True, n)"
    using pc by (simp add: partition_slash_def Let_def takeWhile_append2 dropWhile_append2)
  have "profile_resource_ref p n = Inr r"
    using p n ends by (auto simp: profile_resource_ref_def andthen_Inr Let_def validate_name_ok
        profile_name_strip r require_def py_strip_id Suc_le_eq)
  then show ?thesis using whole part n(3) by (simp add: from_qualified_def qualified_ref_def r)
qed

theorem qualified_round_trip_witness:
  "from_qualified (qualified_ref \<lparr>ref_profile = ''work'', ref_name = ''daily note''\<rparr>)
     = Inr \<lparr>ref_profile = ''work'', ref_name = ''daily note''\<rparr>"
proof -
  have "profile_resource_ref '' work'' '' daily note '' = Inl ''string should match pattern''" by code_simp
  have "profile_resource_ref ''work'' '' daily note ''
      = Inr \<lparr>ref_profile = ''work'', ref_name = ''daily note''\<rparr>" by code_simp
  then show ?thesis by (rule qualified_round_trip)
qed

end
