(* ===== verification/Text_Prelude.thy ===== *)
theory Text_Prelude
  imports Store_Prelude Json
begin

text \<open>
  The string operations of Python that the crontab and authority components share: \<open>partition\<close>,
  \<open>split\<close>, \<open>splitlines\<close>, \<open>in\<close>, \<open>rstrip\<close>, \<open>int\<close> and \<open>shlex.quote\<close>, on Latin-1 strings.
\<close>

section \<open>Splitting\<close>

text \<open>\<open>s.partition(sep)\<close>: the text before the first separator, whether there is one, the rest.\<close>

definition py_partition :: "char \<Rightarrow> string \<Rightarrow> string \<times> bool \<times> string" where
  "py_partition sep s =
     (let before = takeWhile (\<lambda>c. c \<noteq> sep) s; rest = dropWhile (\<lambda>c. c \<noteq> sep) s
      in (before, rest \<noteq> [], tl rest))"

text \<open>Splitting at every character that satisfies the test, empty pieces included.\<close>

primrec split_on :: "(char \<Rightarrow> bool) \<Rightarrow> string \<Rightarrow> string list" where
  "split_on P [] = [[]]"
| "split_on P (c # cs) =
     (if P c then [] # split_on P cs
      else case split_on P cs of [] \<Rightarrow> [[c]] | w # ws \<Rightarrow> (c # w) # ws)"

definition py_split :: "string \<Rightarrow> string list" where
  "py_split s = filter (\<lambda>w. w \<noteq> []) (split_on is_py_space s)"

lemma split_on_nonempty [simp]: "split_on P s \<noteq> []"
  by (cases s) (auto split: list.splits)

lemma split_on_pieces: "w \<in> set (split_on P s) \<Longrightarrow> c \<in> set w \<Longrightarrow> \<not> P c \<and> c \<in> set s"
proof (induction s arbitrary: w)
  case (Cons d ds)
  obtain p ps where "split_on P ds = p # ps" using split_on_nonempty by (metis list.exhaust)
  with Cons show ?case by (fastforce split: if_splits)
qed simp

lemma split_on_free: "\<forall>c \<in> set s. \<not> P c \<Longrightarrow> split_on P s = [s]"
  by (induction s) (auto split: list.splits)

lemma split_on_append:
  "\<forall>c \<in> set w. \<not> P c \<Longrightarrow> P d \<Longrightarrow> split_on P (w @ d # s) = w # split_on P s"
  by (induction w) auto

lemma py_split_words: "w \<in> set (py_split s) \<Longrightarrow> w \<noteq> [] \<and> (\<forall>c \<in> set w. \<not> is_py_space c \<and> c \<in> set s)"
  by (auto simp: py_split_def dest: split_on_pieces)

lemma space_is_space: "is_py_space (CHR '' '')"
  by (simp add: is_py_space_def code_def)

lemma join_Cons: "ws \<noteq> [] \<Longrightarrow> join sep (w # ws) = w @ sep @ join sep ws"
  by (cases ws) auto

lemma py_split_join:
  assumes "list_all (\<lambda>w. w \<noteq> [] \<and> (\<forall>c \<in> set w. \<not> is_py_space c)) ws"
  shows "py_split (join '' '' ws) = ws"
  using assms
proof (induction ws)
  case Nil
  then show ?case by (simp add: py_split_def)
next
  case (Cons w ws)
  show ?case
  proof (cases "ws = []")
    case True
    then show ?thesis using Cons.prems by (simp add: py_split_def split_on_free)
  next
    case False
    then have "join '' '' (w # ws) = w @ CHR '' '' # join '' '' ws" by (simp add: join_Cons)
    then show ?thesis using Cons False
      by (simp add: py_split_def split_on_append space_is_space)
  qed
qed

section \<open>Searching\<close>

primrec py_in :: "string \<Rightarrow> string \<Rightarrow> bool" where
  "py_in needle [] = (needle = [])"
| "py_in needle (c # cs) = (take (length needle) (c # cs) = needle \<or> py_in needle cs)"

lemma py_in_iff: "py_in needle s \<longleftrightarrow> (\<exists>a b. s = a @ needle @ b)"
proof (induction s)
  case (Cons c cs)
  show ?case
  proof
    assume "py_in needle (c # cs)"
    then consider "take (length needle) (c # cs) = needle" | "py_in needle cs" by auto
    then show "\<exists>a b. c # cs = a @ needle @ b"
    proof cases
      case 1
      then have "c # cs = [] @ needle @ drop (length needle) (c # cs)"
        by (metis append_Nil append_take_drop_id)
      then show ?thesis by blast
    next
      case 2
      then obtain a b where "cs = a @ needle @ b" using Cons.IH by blast
      then have "c # cs = (c # a) @ needle @ b" by simp
      then show ?thesis by blast
    qed
  next
    assume "\<exists>a b. c # cs = a @ needle @ b"
    then obtain a b where ab: "c # cs = a @ needle @ b" by blast
    show "py_in needle (c # cs)"
    proof (cases a)
      case Nil
      then have "take (length needle) (c # cs) = needle" using ab by simp
      then show ?thesis by (simp del: take_Suc_Cons)
    next
      case (Cons d ds)
      then have "cs = ds @ needle @ b" using ab by simp
      then show ?thesis using Cons.IH \<open>py_in needle cs \<longleftrightarrow> (\<exists>a b. cs = a @ needle @ b)\<close> by auto
    qed
  qed
qed auto

lemma py_in_mem: "py_in needle s \<Longrightarrow> set needle \<subseteq> set s"
  by (auto simp: py_in_iff)

section \<open>Numbers\<close>

definition digits :: "string \<Rightarrow> bool" where
  "digits s \<longleftrightarrow> s \<noteq> [] \<and> list_all is_digit s"

text \<open>\<open>int(s)\<close> of a digit string; CPython refuses more than 4,300 digits.\<close>

definition py_int :: "string \<Rightarrow> nat checked" where
  "py_int s = (if 4300 < length s then Inl ''Exceeds the limit (4300 digits) for integer string conversion''
     else Inr (foldl (\<lambda>n c. 10 * n + (code c - 48)) 0 s))"

section \<open>Lines\<close>

definition line_break :: "char \<Rightarrow> bool" where
  "line_break c \<longleftrightarrow> code c \<in> {10, 11, 12, 13, 28, 29, 30, 133}"

abbreviation LF :: char where "LF \<equiv> CHR 0x0A"
abbreviation CR :: char where "CR \<equiv> CHR 0x0D"

text \<open>\<open>s.splitlines(keepends=True)\<close>\<close>

fun splitlines :: "string \<Rightarrow> string list" where
  "splitlines [] = []"
| "splitlines [c] = [[c]]"
| "splitlines (c # d # s) =
     (if c = CR \<and> d = LF then [c, d] # splitlines s
      else if line_break c then [c] # splitlines (d # s)
      else case splitlines (d # s) of [] \<Rightarrow> [[c]] | l # ls \<Rightarrow> (c # l) # ls)"

definition rstrip_newline :: "string \<Rightarrow> string" where
  "rstrip_newline s = rev (dropWhile (\<lambda>c. c = CR \<or> c = LF) (rev s))"

lemma splitlines_Nil_iff [simp]: "splitlines s = [] \<longleftrightarrow> s = []"
  by (cases s rule: splitlines.cases) (auto split: list.splits)

lemma splitlines_step [simp]:
  "splitlines (c # d # s) =
     (if c = CR \<and> d = LF then [c, d] # splitlines s
      else if line_break c then [c] # splitlines (d # s)
      else (c # hd (splitlines (d # s))) # tl (splitlines (d # s)))"
  by (cases "splitlines (d # s)") auto

declare splitlines.simps(3) [simp del]

lemma concat_splitlines [simp]: "concat (splitlines s) = s"
proof (induction s rule: splitlines.induct)
  case (3 c d s)
  have "splitlines (d # s) = hd (splitlines (d # s)) # tl (splitlines (d # s))" by simp
  then have "concat (splitlines (d # s)) = hd (splitlines (d # s)) @ concat (tl (splitlines (d # s)))"
    by (metis concat.simps(2))
  with 3 show ?case by auto
qed auto

definition line_end :: "string \<Rightarrow> bool" where
  "line_end a \<longleftrightarrow> a = [] \<or> line_break (last a)"

lemma splitlines_append:
  assumes "line_end a" and "a = [] \<or> last a \<noteq> CR \<or> b = [] \<or> hd b \<noteq> LF"
  shows "splitlines (a @ b) = splitlines a @ splitlines b"
  using assms
proof (induction a rule: splitlines.induct)
  case (2 c)
  then show ?case by (cases b) (auto simp: line_end_def)
next
  case (3 c d s)
  have last: "s \<noteq> [] \<Longrightarrow> last (c # d # s) = last s" "last (c # d # s) = last (d # s)" by simp_all
  consider "c = CR \<and> d = LF" | "\<not> (c = CR \<and> d = LF)" "line_break c"
    | "\<not> (c = CR \<and> d = LF)" "\<not> line_break c" by blast
  then show ?case
  proof cases
    case 1
    have "splitlines (s @ b) = splitlines s @ splitlines b"
      using 3 1 by (intro "3.IH"(1)) (auto simp: line_end_def split: if_splits)
    then show ?thesis using 1 by simp
  next
    case 2
    have "splitlines ((d # s) @ b) = splitlines (d # s) @ splitlines b"
      using 3 2 by (intro "3.IH"(2)) (auto simp: line_end_def)
    then show ?thesis using 2 by (auto simp: line_end_def)
  next
    case 3
    have "splitlines ((d # s) @ b) = splitlines (d # s) @ splitlines b"
      using "3.prems" 3 by (intro "3.IH"(3)) (auto simp: line_end_def)
    then show ?thesis using 3 by (auto simp: line_end_def)
  qed
qed simp

section \<open>Positions\<close>

primrec positions :: "('a \<Rightarrow> bool) \<Rightarrow> nat \<Rightarrow> 'a list \<Rightarrow> nat list" where
  "positions P n [] = []"
| "positions P n (x # xs) = (if P x then n # positions P (Suc n) xs else positions P (Suc n) xs)"

lemma positions_append: "positions P n (xs @ ys) = positions P n xs @ positions P (n + length xs) ys"
  by (induction xs arbitrary: n) auto

lemma positions_Nil_iff: "positions P n xs = [] \<longleftrightarrow> list_all (\<lambda>x. \<not> P x) xs"
  by (induction xs arbitrary: n) auto

lemma positions_single:
  "positions P n xs = [k] \<Longrightarrow> \<exists>a x b. xs = a @ x # b \<and> P x \<and> list_all (\<lambda>x. \<not> P x) a
     \<and> list_all (\<lambda>x. \<not> P x) b \<and> k = n + length a"
proof (induction xs arbitrary: n)
  case (Cons y ys)
  show ?case
  proof (cases "P y")
    case True
    with Cons.prems have "list_all (\<lambda>x. \<not> P x) ys" "k = n" by (auto simp: positions_Nil_iff)
    with True show ?thesis by (intro exI [of _ "[]"]) auto
  next
    case False
    with Cons obtain a x b where "ys = a @ x # b" "P x" "list_all (\<lambda>x. \<not> P x) a"
      "list_all (\<lambda>x. \<not> P x) b" "k = Suc n + length a" by fastforce
    with False show ?thesis by (intro exI [of _ "y # a"]) auto
  qed
qed simp

lemma collect_mem: "collect f xs = Inr ys \<Longrightarrow> y \<in> set ys \<Longrightarrow> \<exists>x \<in> set xs. f x = Inr y"
  by (induction xs arbitrary: ys) (auto simp: andthen_Inr)

end
