(* ===== verification/Schedule_Types.thy ===== *)
theory Schedule_Types
  imports Text_Prelude Profiles Task_Types Complex_Main
begin

text \<open>
  Contracts of managed job schedules (\<open>ricky/schedules/types.py\<close> and the approval envelope of
  \<open>ricky/jobs/types.py\<close>): the five-field cron subset with its validator, and the validated
  \<open>ScheduleSpec\<close>.  Messages carry their literal text without the interpolated values.
\<close>

section \<open>Cron expressions\<close>

definition CRON_LIMITS :: "(nat \<times> nat) list" where
  "CRON_LIMITS = [(0, 59), (0, 23), (1, 31), (1, 12), (0, 7)]"

text \<open>\<open>^(?:\*|[0-9]+(?:-[0-9]+)?)(?:/[0-9]+)?$\<close>\<close>

definition cron_token :: "string \<Rightarrow> bool" where
  "cron_token s =
     (case py_partition (CHR ''/'') s of (base, slash, step) \<Rightarrow>
        (slash \<longrightarrow> digits step)
        \<and> (base = ''*''
           \<or> (case py_partition (CHR ''-'') base of (a, dash, b) \<Rightarrow> digits a \<and> (dash \<longrightarrow> digits b))))"

definition validate_cron_component :: "nat \<times> nat \<Rightarrow> string \<Rightarrow> unit checked" where
  "validate_cron_component limits component =
     (case limits of (lo, hi) \<Rightarrow>
      andthen (require (component \<noteq> [] \<and> cron_token component) ''cron field has unsupported syntax'') (\<lambda>_.
      case py_partition (CHR ''/'') component of (base, slash, step_text) \<Rightarrow>
      andthen (if slash
               then andthen (py_int step_text) (\<lambda>step.
                      require (1 \<le> step \<and> step \<le> hi - lo + 1) ''cron field has an invalid step'')
               else Inr ()) (\<lambda>_.
      if base = ''*'' then Inr ()
      else case py_partition (CHR ''-'') base of (start_text, dash, end_text) \<Rightarrow>
        andthen (py_int start_text) (\<lambda>start.
        andthen (if dash then py_int end_text else Inr start) (\<lambda>stop.
        andthen (require (lo \<le> start \<and> start \<le> hi \<and> lo \<le> stop \<and> stop \<le> hi)
          ''cron field is outside its limits'') (\<lambda>_.
          require (\<not> (dash \<and> start > stop)) ''cron field range must be ascending''))))))"

definition validate_cron_field :: "nat \<times> nat \<Rightarrow> string \<Rightarrow> unit checked" where
  "validate_cron_field limits field =
     andthen (collect (validate_cron_component limits) (split_on (\<lambda>c. c = CHR '','') field))
       (\<lambda>_. Inr ())"

definition is_control :: "char \<Rightarrow> bool" where
  "is_control c \<longleftrightarrow> code c < 32 \<or> code c = 127"

definition validate_cron_expression :: "string \<Rightarrow> string checked" where
  "validate_cron_expression value =
     andthen (require (value \<noteq> [] \<and> value = py_strip value)
       ''cron expression cannot be blank or have outer whitespace'') (\<lambda>_.
     andthen (require (\<not> list_ex is_control value)
       ''cron expression cannot contain control characters'') (\<lambda>_.
     andthen (require (\<not> list_ex (\<lambda>c. c \<in> set value) [CHR ''#'', CHR ''='', CHR ''%''])
       ''cron expression cannot contain comments, assignments, or commands'') (\<lambda>_.
       let fields = py_split value in
     andthen (require (length fields = 5) ''cron expression must contain exactly five fields'') (\<lambda>_.
     andthen (collect (\<lambda>(field, limits). validate_cron_field limits field) (zip fields CRON_LIMITS)) (\<lambda>_.
       Inr (join '' '' fields))))))"

section \<open>Approval envelopes\<close>

datatype tool_risk = Read_Only | Mutating | Destructive
datatype tool_effect_kind = Effect_None | Ricky_State | External_Effect
datatype tool_unattended = Unattended_Allowed | Unattended_Forbidden

record job_approval_tool =
  at_contract_digest :: string
  at_risk :: tool_risk
  at_effect_kind :: tool_effect_kind
  at_unattended :: tool_unattended
  at_state_guard_id :: "string option"

text \<open>
  Source scopes are JSON texts in the code, under the keys \<open>task:name\<close> and \<open>stream:name\<close>; the
  envelope holds their decoded values, which is what the approval logic reads back, the two kinds of
  key apart.  Due dates are instants.
\<close>

record task_scope =
  ts_tags_any :: "string list"
  ts_tags_all :: "string list"
  ts_tags_none :: "string list"
  ts_execution_modes :: "task_execution_mode list"
  ts_statuses :: "task_status list"
  ts_waiting_on :: "task_waiting_on list"
  ts_due_before :: "instant option"
  ts_text :: "string option"

record stream_scope =
  ss_adapter :: string
  ss_channel_id :: string
  ss_initial_lookback_hours :: rat

record job_approval_envelope =
  ae_provider :: string
  ae_tools :: "(string \<times> job_approval_tool) list"
  ae_mutating_tools :: "string list"
  ae_task_scopes :: "(string \<times> task_scope) list"
  ae_stream_scopes :: "(string \<times> stream_scope) list"
  ae_google_accounts :: "(string \<times> string) list"
  ae_workflow_args :: "json option"
  ae_browser_scope :: "string option"
  ae_effect_calls :: nat

section \<open>Schedules\<close>

text \<open>\<open>ricky.jobs.spec.NAME_PATTERN = [a-z0-9][a-z0-9_-]{0,63}\<close>\<close>

definition job_name_re :: "string \<Rightarrow> bool" where
  "job_name_re s = (case s of [] \<Rightarrow> False
     | c # cs \<Rightarrow> (is_lower_letter c \<or> is_digit c) \<and> list_all is_profile_char cs \<and> length cs \<le> 63)"

definition validate_schedule_id :: "string \<Rightarrow> string checked" where
  "validate_schedule_id value =
     (if hex_id ''sched_'' 24 value then Inr value else Inl ''invalid opaque schedule id'')"

record schedule_spec =
  sc_id :: string
  sc_job_name :: string
  sc_cron :: string
  sc_enabled :: bool
  sc_project_root :: string
  sc_profile_scope :: profile_scope
  sc_approved_spec_digest :: string
  sc_approved_runtime_policy_digest :: string
  sc_approved_authority :: "job_approval_envelope option"
  sc_approved_cron :: "string option"
  sc_created_at :: instant
  sc_updated_at :: instant

definition qualified_job_name :: "string \<Rightarrow> string checked" where
  "qualified_job_name value =
     (case py_partition (CHR ''/'') value of (profile, separator, name) \<Rightarrow>
        andthen (require separator ''scheduled jobs require a profile-qualified name'') (\<lambda>_.
        andthen (profile_resource_ref profile name) (\<lambda>_.
        andthen (require (job_name_re name) ''scheduled job local name is invalid'') (\<lambda>_.
          Inr value))))"

text \<open>\<open>str(Path(value))\<close>: empty and dot segments disappear.\<close>

definition path_str :: "string \<Rightarrow> string" where
  "path_str p =
     (let body = join ''/'' (filter (\<lambda>s. s \<noteq> [] \<and> s \<noteq> ''.'') (split_on (\<lambda>c. c = CHR ''/'') p))
      in if take 1 p \<noteq> ''/'' then if body = [] then ''.'' else body
         else if take 2 p = ''//'' \<and> take 3 p \<noteq> ''///'' then ''//'' @ body
         else ''/'' @ body)"

text \<open>
  \<open>resolve\<close> stands for the operating system's resolution of symbolic links and dot-dot segments
  (\<open>Path.resolve\<close>).
\<close>

definition absolute_root :: "(string \<Rightarrow> string) \<Rightarrow> string \<Rightarrow> string checked" where
  "absolute_root resolve value =
     andthen (require (take 1 value = ''/'' \<and> \<not> list_ex (\<lambda>c. code c < 32) value)
       ''project_root must be an absolute path without controls'') (\<lambda>_.
       let resolved = resolve (path_str value) in
     andthen (require (path_str value = resolved) ''project_root must be resolved and canonical'') (\<lambda>_.
       Inr resolved))"

definition sha256_hex :: "string \<Rightarrow> bool" where
  "sha256_hex s = hex_id [] 64 s"

definition make_schedule :: "(string \<Rightarrow> string) \<Rightarrow> schedule_spec \<Rightarrow> schedule_spec checked" where
  "make_schedule resolve s =
     andthen (validate_schedule_id (sc_id s)) (\<lambda>_.
     andthen (require (3 \<le> length (sc_job_name s) \<and> length (sc_job_name s) \<le> 200) ''job_name length'') (\<lambda>_.
     andthen (qualified_job_name (sc_job_name s)) (\<lambda>job.
     andthen (validate_cron_expression (sc_cron s)) (\<lambda>cron.
     andthen (require (1 \<le> length (sc_project_root s) \<and> length (sc_project_root s) \<le> 4096)
       ''project_root length'') (\<lambda>_.
     andthen (absolute_root resolve (sc_project_root s)) (\<lambda>root.
     andthen (profile_scope (primary (sc_profile_scope s)) (profiles (sc_profile_scope s))) (\<lambda>scope.
     andthen (require (sha256_hex (sc_approved_spec_digest s)) ''approved_spec_digest'') (\<lambda>_.
     andthen (require (sha256_hex (sc_approved_runtime_policy_digest s)) ''approved_runtime_policy_digest'') (\<lambda>_.
     andthen (case sc_approved_cron s of None \<Rightarrow> Inr None
              | Some c \<Rightarrow> andthen (validate_cron_expression c) (\<lambda>v. Inr (Some v))) (\<lambda>approved.
     andthen (require (sc_created_at s \<le> sc_updated_at s) ''updated_at cannot precede created_at'') (\<lambda>_.
     andthen (scope_includes scope (fst (py_partition (CHR ''/'') job))) (\<lambda>inside.
     andthen (require inside ''scheduled job owner must be in the pinned profile scope'') (\<lambda>_.
       Inr (s\<lparr>sc_job_name := job, sc_cron := cron, sc_project_root := root,
              sc_profile_scope := scope, sc_approved_cron := approved\<rparr>))))))))))))))"

section \<open>What validation guarantees\<close>

definition cron_component_ok :: "nat \<times> nat \<Rightarrow> string \<Rightarrow> bool" where
  "cron_component_ok limits c \<longleftrightarrow> validate_cron_component limits c = Inr ()"

definition cron_field_ok :: "nat \<times> nat \<Rightarrow> string \<Rightarrow> bool" where
  "cron_field_ok limits f \<longleftrightarrow>
     list_all (cron_component_ok limits) (split_on (\<lambda>c. c = CHR '','') f)"

lemma validate_field_ok: "validate_cron_field limits f = Inr () \<longleftrightarrow> cron_field_ok limits f"
proof -
  have "(\<exists>ys. collect g xs = Inr ys) \<longleftrightarrow> list_all (\<lambda>x. g x = Inr ()) xs" for g :: "string \<Rightarrow> unit checked" and xs
    by (induction xs) (auto simp: andthen_Inr)
  then show ?thesis
    by (simp add: validate_cron_field_def andthen_Inr cron_field_ok_def cron_component_ok_def list_all_iff)
qed

lemma validate_fields_ok:
  "(\<exists>u. collect (\<lambda>(f, l). validate_cron_field l f) ps = Inr u) \<longleftrightarrow> list_all (\<lambda>(f, l). cron_field_ok l f) ps"
  by (induction ps) (auto simp: andthen_Inr validate_field_ok)

definition cron_ok :: "string \<Rightarrow> bool" where
  "cron_ok s \<longleftrightarrow> join '' '' (py_split s) = s \<and> length (py_split s) = 5
     \<and> list_all (\<lambda>(f, l). cron_field_ok l f) (zip (py_split s) CRON_LIMITS)
     \<and> list_all (\<lambda>c. \<not> is_control c \<and> c \<notin> {CHR ''#'', CHR ''='', CHR ''%''}) s"

lemma join_words_mem: "c \<in> set (join '' '' ws) \<Longrightarrow> c = CHR '' '' \<or> (\<exists>w \<in> set ws. c \<in> set w)"
proof (induction ws)
  case (Cons w ws)
  then show ?case by (cases "ws = []") (auto simp: join_Cons)
qed simp

lemma join_words_ends:
  "ws \<noteq> [] \<Longrightarrow> list_all (\<lambda>w. w \<noteq> []) ws \<Longrightarrow>
     join sep ws \<noteq> [] \<and> hd (join sep ws) = hd (hd ws) \<and> last (join sep ws) = last (last ws)"
proof (induction ws)
  case (Cons w ws)
  then show ?case by (cases "ws = []") (auto simp: join_Cons)
qed simp

lemma control_facts: "\<not> is_control (CHR '' '')"
  by (simp add: is_control_def code_def)

lemma validate_cron_ok: "validate_cron_expression s = Inr t \<Longrightarrow> cron_ok t \<and> py_split t = py_split s"
proof -
  assume v: "validate_cron_expression s = Inr t"
  have clean: "\<forall>c \<in> set s. \<not> is_control c \<and> c \<notin> {CHR ''#'', CHR ''='', CHR ''%''}"
    and len: "length (py_split s) = 5" and t: "t = join '' '' (py_split s)"
    and fields: "list_all (\<lambda>(f, l). cron_field_ok l f) (zip (py_split s) CRON_LIMITS)"
    using v validate_fields_ok
    by (auto simp: validate_cron_expression_def andthen_Inr Let_def list_ex_iff)
  have words: "list_all (\<lambda>w. w \<noteq> [] \<and> (\<forall>c \<in> set w. \<not> is_py_space c)) (py_split s)"
    using py_split_words by (auto simp: list_all_iff)
  have split: "py_split t = py_split s" unfolding t by (rule py_split_join [OF words])
  have "list_all (\<lambda>c. \<not> is_control c \<and> c \<notin> {CHR ''#'', CHR ''='', CHR ''%''}) t"
    unfolding t list_all_iff
    using join_words_mem [of _ "py_split s"] py_split_words clean control_facts by fastforce
  with split len fields t show ?thesis by (simp add: cron_ok_def)
qed

lemma validate_cron_fix: "cron_ok t \<Longrightarrow> validate_cron_expression t = Inr t"
proof -
  assume ok: "cron_ok t"
  have words: "list_all (\<lambda>w. w \<noteq> [] \<and> (\<forall>c \<in> set w. \<not> is_py_space c)) (py_split t)"
    using py_split_words by (auto simp: list_all_iff)
  have j: "join '' '' (py_split t) = t" "length (py_split t) = 5"
    using ok by (simp_all add: cron_ok_def)
  have ne: "py_split t \<noteq> []" using j by auto
  have ends: "t \<noteq> [] \<and> hd t = hd (hd (py_split t)) \<and> last t = last (last (py_split t))"
    using join_words_ends [OF ne, of "'' ''"] words j by (simp add: list_all_iff)
  have "hd (py_split t) \<in> set (py_split t)" "last (py_split t) \<in> set (py_split t)"
    using ne by simp_all
  then have "\<not> is_py_space (hd t)" "\<not> is_py_space (last t)"
    using words ends j by (simp_all add: list_all_iff)
  then have strip: "py_strip t = t" by (intro py_strip_id) simp
  have "list_all (\<lambda>(f, l). cron_field_ok l f) (zip (py_split t) CRON_LIMITS)"
    using ok by (simp add: cron_ok_def)
  then obtain u where u: "collect (\<lambda>(f, l). validate_cron_field l f) (zip (py_split t) CRON_LIMITS) = Inr u"
    unfolding validate_fields_ok [symmetric] by blast
  have "\<not> list_ex is_control t" "\<not> list_ex (\<lambda>c. c \<in> set t) [CHR ''#'', CHR ''='', CHR ''%'']"
    using ok by (auto simp: cron_ok_def list_ex_iff list_all_iff)
  then show ?thesis
    using ends by (simp only: validate_cron_expression_def require_def strip u j Let_def if_True
        simp_thms not_False_eq_True andthen_simps)
qed

end
