(* ===== verification/Schedule_Store.thy ===== *)
theory Schedule_Store
  imports Schedule_Types Task_Search
begin

text \<open>
  The schedule registry (\<open>ricky/schedules/store.py\<close>) and the schedule service
  (\<open>ricky/schedules/service.py\<close>).  The state is the content of \<open>schedules.toml\<close>: \<open>None\<close> while the
  file does not exist, else its entries.  A mutation reads, changes and replaces the whole file under
  a lock, so it is one step.  The service asks the job runner for the current revision of a job; its
  answers are the two functions of \<open>schedule_env\<close>.
\<close>

section \<open>Registry\<close>

type_synonym schedule_file = "schedule_spec list option"

datatype schedule_error =
    ScheduleStoreError string
  | ScheduleServiceError string
  | Schedule_ValueError string

type_synonym 'a schedule_op = "(schedule_file, schedule_error, 'a) op"

definition invalid_store :: schedule_error where
  "invalid_store = ScheduleStoreError ''invalid schedule store''"

definition read_schedules :: "(string \<Rightarrow> string) \<Rightarrow> schedule_spec list schedule_op" where
  "read_schedules resolve file =
     (file, case file of None \<Rightarrow> Inr []
        | Some entries \<Rightarrow>
            (case collect (make_schedule resolve) entries of Inl _ \<Rightarrow> Inl invalid_store
             | Inr items \<Rightarrow>
                 if distinct (map sc_id items) then Inr (sort_key sc_id items) else Inl invalid_store))"

definition write_schedules :: "schedule_spec list \<Rightarrow> unit schedule_op" where
  "write_schedules items = writes (\<lambda>_. Some (sort_key sc_id items))"

definition visible :: "profile_scope \<Rightarrow> schedule_spec \<Rightarrow> bool checked" where
  "visible scope s = andthen (scope_label (sc_profile_scope s)) (\<lambda>l. Inr (permits scope l))"

definition value_check :: "'a checked \<Rightarrow> 'a schedule_op" where
  "value_check r = lift (case r of Inl m \<Rightarrow> Inl (Schedule_ValueError m) | Inr x \<Rightarrow> Inr x)"

definition require_visible :: "profile_scope \<Rightarrow> schedule_spec \<Rightarrow> unit schedule_op" where
  "require_visible scope s = bind (value_check (visible scope s)) (\<lambda>ok.
     unless ok (ScheduleStoreError ''schedule is outside the active profile scope''))"

definition schedule_list :: "(string \<Rightarrow> string) \<Rightarrow> profile_scope \<Rightarrow> schedule_spec list schedule_op" where
  "schedule_list resolve scope =
     bind (read_schedules resolve) (\<lambda>items.
     bind (value_check (collect (\<lambda>s. andthen (visible scope s) (\<lambda>v. Inr (v, s))) items)) (\<lambda>flags.
       ret (map snd (filter fst flags))))"

definition schedule_references :: "(string \<Rightarrow> string) \<Rightarrow> (string \<times> profile_scope) list schedule_op" where
  "schedule_references resolve =
     bind (read_schedules resolve) (\<lambda>items. ret (map (\<lambda>s. (sc_id s, sc_profile_scope s)) items))"

definition schedule_get :: "(string \<Rightarrow> string) \<Rightarrow> profile_scope \<Rightarrow> string \<Rightarrow> schedule_spec schedule_op" where
  "schedule_get resolve scope k =
     bind (schedule_list resolve scope) (\<lambda>items.
       some_or (ScheduleStoreError ''schedule not found'') (find (\<lambda>s. sc_id s = k) items))"

definition schedule_create ::
  "(string \<Rightarrow> string) \<Rightarrow> profile_scope \<Rightarrow> schedule_spec \<Rightarrow> schedule_spec schedule_op" where
  "schedule_create resolve scope s =
     bind (require_visible scope s) (\<lambda>_.
     bind (read_schedules resolve) (\<lambda>items.
     bind (unless (\<not> list_ex (\<lambda>i. sc_id i = sc_id s) items)
       (ScheduleStoreError ''schedule already exists'')) (\<lambda>_.
     bind (write_schedules (items @ [s])) (\<lambda>_. ret s))))"

definition schedule_replace ::
  "(string \<Rightarrow> string) \<Rightarrow> profile_scope \<Rightarrow> schedule_spec \<Rightarrow> schedule_spec schedule_op" where
  "schedule_replace resolve scope s =
     bind (require_visible scope s) (\<lambda>_.
     bind (read_schedules resolve) (\<lambda>items.
     bind (some_or (ScheduleStoreError ''schedule not found'') (find (\<lambda>i. sc_id i = sc_id s) items)) (\<lambda>current.
     bind (require_visible scope current) (\<lambda>_.
     bind (write_schedules (map (\<lambda>i. if sc_id i = sc_id s then s else i) items)) (\<lambda>_. ret s)))))"

definition schedule_remove ::
  "(string \<Rightarrow> string) \<Rightarrow> profile_scope \<Rightarrow> string \<Rightarrow> schedule_spec schedule_op" where
  "schedule_remove resolve scope k =
     bind (read_schedules resolve) (\<lambda>items.
     bind (some_or (ScheduleStoreError ''schedule not found'') (find (\<lambda>i. sc_id i = k) items)) (\<lambda>removed.
     bind (require_visible scope removed) (\<lambda>_.
     bind (write_schedules (filter (\<lambda>i. sc_id i \<noteq> k) items)) (\<lambda>_. ret removed))))"

section \<open>Reapproval\<close>

definition selection_expands :: "'a list \<Rightarrow> 'a list \<Rightarrow> bool" where
  "selection_expands previous current =
     (if previous = [] then False else if current = [] then True
      else \<not> set current \<subseteq> set previous)"

definition task_scope_expands :: "task_scope \<Rightarrow> task_scope \<Rightarrow> bool" where
  "task_scope_expands previous current \<longleftrightarrow>
     selection_expands (ts_tags_any previous) (ts_tags_any current)
   \<or> \<not> set (ts_tags_all previous) \<subseteq> set (ts_tags_all current)
   \<or> \<not> set (ts_tags_none previous) \<subseteq> set (ts_tags_none current)
   \<or> selection_expands (ts_execution_modes previous) (ts_execution_modes current)
   \<or> selection_expands (ts_statuses previous) (ts_statuses current)
   \<or> selection_expands (ts_waiting_on previous) (ts_waiting_on current)
   \<or> (case ts_due_before previous of None \<Rightarrow> False
      | Some p \<Rightarrow> (case ts_due_before current of None \<Rightarrow> True | Some c \<Rightarrow> p < c))
   \<or> (case ts_text previous of None \<Rightarrow> False | Some p \<Rightarrow> ts_text current \<noteq> Some p)"

definition stream_scope_expands :: "stream_scope \<Rightarrow> stream_scope \<Rightarrow> bool" where
  "stream_scope_expands previous current \<longleftrightarrow>
     ss_adapter previous \<noteq> ss_adapter current \<or> ss_channel_id previous \<noteq> ss_channel_id current
   \<or> ss_initial_lookback_hours previous < ss_initial_lookback_hours current"

text \<open>Python compares decoded JSON: the order of keys does not matter and \<open>True == 1\<close>.\<close>

fun json_canon :: "json \<Rightarrow> json" where
  "json_canon (JBool b) = JInt (if b then 1 else 0)"
| "json_canon (JArr xs) = JArr (map json_canon xs)"
| "json_canon (JObj kvs) = JObj (sort_key fst (map (\<lambda>(k, v). (k, json_canon v)) kvs))"
| "json_canon j = j"

definition source_reasons :: "('a \<Rightarrow> 'a \<Rightarrow> bool) \<Rightarrow> (string \<times> 'a) list \<Rightarrow> (string \<times> 'a) list \<Rightarrow> string list" where
  "source_reasons expands previous current = concat (map (\<lambda>(name, scope).
     case map_of previous name of None \<Rightarrow> [''data source added: '' @ name]
     | Some approved \<Rightarrow> if expands approved scope then [''data source scope changed: '' @ name] else []) current)"

definition reapproval_reasons :: "schedule_spec \<Rightarrow> job_approval_envelope \<Rightarrow> bool \<Rightarrow> string list" where
  "reapproval_reasons s current revision_changed =
     (let approved_cron = (case sc_approved_cron s of None \<Rightarrow> sc_cron s | Some c \<Rightarrow> if c = [] then sc_cron s else c);
          timing = (if sc_cron s \<noteq> approved_cron then [''schedule timing changed''] else [])
      in timing @ (case sc_approved_authority s of
           None \<Rightarrow> if revision_changed then [''prior approval envelope is unavailable''] else []
         | Some previous \<Rightarrow>
             (if ae_provider current \<noteq> ae_provider previous then [''provider changed''] else [])
           @ concat (map (\<lambda>(name, tool). case map_of (ae_tools previous) name of
                 None \<Rightarrow> [''tool added: '' @ name]
               | Some approved \<Rightarrow> if approved \<noteq> tool then [''tool contract changed: '' @ name] else [])
               (ae_tools current))
           @ map (\<lambda>n. ''standing mutation added: '' @ n)
               (sort (remdups (filter (\<lambda>n. n \<notin> set (ae_mutating_tools previous)) (ae_mutating_tools current))))
           @ source_reasons task_scope_expands (ae_task_scopes previous) (ae_task_scopes current)
           @ source_reasons stream_scope_expands (ae_stream_scopes previous) (ae_stream_scopes current)
           @ concat (map (\<lambda>(name, email). case map_of (ae_google_accounts previous) name of
                 None \<Rightarrow> [''Google account became available: '' @ name]
               | Some approved \<Rightarrow> if approved \<noteq> email then [''Google account identity changed: '' @ name] else [])
               (ae_google_accounts current))
           @ (if map_option json_canon (ae_workflow_args current) \<noteq> map_option json_canon (ae_workflow_args previous)
              then [''locked workflow arguments changed''] else [])
           @ (if ae_browser_scope current \<noteq> ae_browser_scope previous
              then [''browser resource or disclosure scope changed''] else [])
           @ (if ae_effect_calls current > ae_effect_calls previous then [''effect budget increased''] else [])))"

section \<open>Service\<close>

record job_revision =
  jr_qualified :: string
  jr_digest :: string
  jr_policy_digest :: string
  jr_authority :: job_approval_envelope

text \<open>
  \<open>validate_revision\<close> resolves the project, its settings and the job: root, job name and scope to a
  revision or an error; \<open>validate_context\<close> is the check of the context lineage.
\<close>

record schedule_env =
  validate_revision :: "string \<Rightarrow> string \<Rightarrow> profile_scope \<Rightarrow> string + job_revision"
  validate_context :: "job_revision \<Rightarrow> profile_scope \<Rightarrow> string + unit"

datatype schedule_state =
    Ready | Disabled | Validation_Required | Lineage_Required | Approval_Required | Unavailable
  | Not_Installed

definition inspect_schedule :: "schedule_env \<Rightarrow> schedule_spec \<Rightarrow> schedule_state" where
  "inspect_schedule env s =
     (if \<not> sc_enabled s then Disabled
      else case validate_revision env (sc_project_root s) (sc_job_name s) (sc_profile_scope s) of
        Inl _ \<Rightarrow> Unavailable
      | Inr loaded \<Rightarrow>
          (case validate_context env loaded (sc_profile_scope s) of Inl _ \<Rightarrow> Lineage_Required
           | Inr _ \<Rightarrow>
               let revision_changed = (jr_digest loaded \<noteq> sc_approved_spec_digest s
                     \<or> jr_policy_digest loaded \<noteq> sc_approved_runtime_policy_digest s)
               in if reapproval_reasons s (jr_authority loaded) revision_changed \<noteq> [] then Approval_Required
                  else if revision_changed then Validation_Required
                  else Ready))"

definition service_check :: "string + 'a \<Rightarrow> 'a schedule_op" where
  "service_check r = lift (case r of Inl m \<Rightarrow> Inl (ScheduleServiceError m) | Inr x \<Rightarrow> Inr x)"

definition current_revision :: "schedule_env \<Rightarrow> schedule_spec \<Rightarrow> job_revision schedule_op" where
  "current_revision env s =
     bind (service_check (validate_revision env (sc_project_root s) (sc_job_name s) (sc_profile_scope s))) (\<lambda>loaded.
     bind (service_check (validate_context env loaded (sc_profile_scope s))) (\<lambda>_. ret loaded))"

definition service_create ::
  "schedule_env \<Rightarrow> (string \<Rightarrow> string) \<Rightarrow> profile_scope \<Rightarrow> instant \<Rightarrow> string \<Rightarrow> string \<Rightarrow> string
    \<Rightarrow> profile_scope \<Rightarrow> string \<Rightarrow> schedule_spec schedule_op" where
  "service_create env resolve scope now uuid job_name cron job_scope project =
     bind (service_check (validate_revision env project job_name job_scope)) (\<lambda>loaded.
     bind (service_check (validate_context env loaded job_scope)) (\<lambda>_.
     bind (value_check (validate_cron_expression cron)) (\<lambda>c.
     bind (value_check (make_schedule resolve
       \<lparr>sc_id = ''sched_'' @ take 24 uuid, sc_job_name = jr_qualified loaded, sc_cron = c,
        sc_enabled = True, sc_project_root = project, sc_profile_scope = job_scope,
        sc_approved_spec_digest = jr_digest loaded,
        sc_approved_runtime_policy_digest = jr_policy_digest loaded,
        sc_approved_authority = Some (jr_authority loaded), sc_approved_cron = Some c,
        sc_created_at = now, sc_updated_at = now\<rparr>)) (\<lambda>s.
       schedule_create resolve scope s))))"

text \<open>
  \<open>ScheduleSpec.model_validate(updated)\<close> receives an instance of the class itself, which Pydantic
  returns unchecked (\<open>revalidate_instances\<close> is \<open>never\<close> by default).
\<close>

definition update_cron ::
  "(string \<Rightarrow> string) \<Rightarrow> profile_scope \<Rightarrow> instant \<Rightarrow> string \<Rightarrow> string \<Rightarrow> schedule_spec schedule_op" where
  "update_cron resolve scope now k cron =
     bind (schedule_get resolve scope k) (\<lambda>s.
     bind (value_check (validate_cron_expression cron)) (\<lambda>c.
       schedule_replace resolve scope (s\<lparr>sc_cron := c,
         sc_approved_cron := Some (case sc_approved_cron s of None \<Rightarrow> sc_cron s
           | Some a \<Rightarrow> if a = [] then sc_cron s else a),
         sc_updated_at := now\<rparr>)))"

definition set_enabled ::
  "(string \<Rightarrow> string) \<Rightarrow> profile_scope \<Rightarrow> instant \<Rightarrow> string \<Rightarrow> bool \<Rightarrow> schedule_spec schedule_op" where
  "set_enabled resolve scope now k enabled =
     bind (schedule_get resolve scope k) (\<lambda>s.
       schedule_replace resolve scope (s\<lparr>sc_enabled := enabled, sc_updated_at := now\<rparr>))"

definition approve_schedule ::
  "schedule_env \<Rightarrow> (string \<Rightarrow> string) \<Rightarrow> profile_scope \<Rightarrow> instant \<Rightarrow> string
    \<Rightarrow> (schedule_state \<times> schedule_spec) schedule_op" where
  "approve_schedule env resolve scope now k =
     bind (schedule_get resolve scope k) (\<lambda>s.
     bind (current_revision env s) (\<lambda>loaded.
     bind (schedule_replace resolve scope (s\<lparr>sc_approved_spec_digest := jr_digest loaded,
         sc_approved_runtime_policy_digest := jr_policy_digest loaded,
         sc_approved_authority := Some (jr_authority loaded), sc_approved_cron := Some (sc_cron s),
         sc_updated_at := now\<rparr>)) (\<lambda>approved.
       ret (inspect_schedule env s, approved))))"

definition refresh_schedule ::
  "schedule_env \<Rightarrow> (string \<Rightarrow> string) \<Rightarrow> profile_scope \<Rightarrow> instant \<Rightarrow> string
    \<Rightarrow> (schedule_state \<times> schedule_spec) schedule_op" where
  "refresh_schedule env resolve scope now k =
     bind (schedule_get resolve scope k) (\<lambda>s.
     bind (current_revision env s) (\<lambda>loaded.
     bind (unless (reapproval_reasons s (jr_authority loaded) True = [])
       (ScheduleServiceError ''schedule reapproval is required'')) (\<lambda>_.
     bind (schedule_replace resolve scope (s\<lparr>sc_approved_spec_digest := jr_digest loaded,
         sc_approved_runtime_policy_digest := jr_policy_digest loaded, sc_updated_at := now\<rparr>)) (\<lambda>refreshed.
       ret (inspect_schedule env s, refreshed)))))"

text \<open>What a due launch does: start the approved revision, or record a rejected run.\<close>

datatype invocation =
    Launch string string string profile_scope
  | Reject_Failed | Reject_Approval

definition invoke_schedule ::
  "schedule_env \<Rightarrow> (string \<Rightarrow> string) \<Rightarrow> profile_scope \<Rightarrow> string \<Rightarrow> string \<Rightarrow> invocation schedule_op" where
  "invoke_schedule env resolve scope project_root k =
     bind (value_check (validate_schedule_id k)) (\<lambda>_.
     bind (schedule_get resolve scope k) (\<lambda>s.
       if resolve (sc_project_root s) \<noteq> resolve project_root then ret Reject_Failed
       else case inspect_schedule env s of
         Ready \<Rightarrow> ret (Launch (sc_job_name s) (sc_approved_spec_digest s)
                    (sc_approved_runtime_policy_digest s) (sc_profile_scope s))
       | Unavailable \<Rightarrow> ret Reject_Failed
       | Not_Installed \<Rightarrow> ret Reject_Failed
       | _ \<Rightarrow> ret Reject_Approval))"

definition require_installation_scope :: "profile_scope \<Rightarrow> string list \<Rightarrow> unit schedule_op" where
  "require_installation_scope scope enabled =
     unless (set enabled \<subseteq> set (profiles scope)) (ScheduleServiceError
       ''schedule installation operations require every enabled profile'')"

section \<open>The query of a task source\<close>

text \<open>\<open>DurableTaskPoolAdapter.collect\<close> (\<open>ricky/jobs/task_pool.py\<close>) turns a source into this query.\<close>

definition pool_query :: "task_scope \<Rightarrow> nat \<Rightarrow> nat \<Rightarrow> task_search_query" where
  "pool_query source limit offset =
     \<lparr>q_text = ts_text source, q_statuses = ts_statuses source,
      q_execution_modes = ts_execution_modes source, q_waiting_on = ts_waiting_on source,
      q_tags_any = ts_tags_any source, q_tags_all = ts_tags_all source,
      q_tags_none = ts_tags_none source, q_due_before = ts_due_before source,
      q_include_closed = (set (ts_statuses source) \<inter> {Completed, Cancelled} \<noteq> {}),
      q_limit = limit, q_offset = offset\<rparr>"

end
