(* ===== verification/Schedule_Spec.thy ===== *)
theory Schedule_Spec
  imports Schedule_Store
begin

text \<open>
  Invariant of the schedule registry, the effect of each public call on one schedule, and when a
  changed source scope still covers no more tasks than the approved one.
\<close>

section \<open>Validated schedules\<close>

lemma split_on_join:
  assumes "ws \<noteq> []" and "list_all (\<lambda>w. d \<notin> set w) ws"
  shows "split_on (\<lambda>c. c = d) (join [d] ws) = ws"
  using assms
proof (induction ws)
  case (Cons w ws)
  have w: "\<forall>c \<in> set w. \<not> (c = d)" using Cons.prems(2) by auto
  show ?case
  proof (cases "ws = []")
    case True
    then show ?thesis using split_on_free [OF w] by simp
  next
    case False
    then show ?thesis using split_on_append [OF w refl] Cons by (simp add: join_Cons)
  qed
qed simp

abbreviation segments :: "string \<Rightarrow> string list" where
  "segments p \<equiv> filter (\<lambda>s. s \<noteq> [] \<and> s \<noteq> ''.'') (split_on (\<lambda>c. c = CHR ''/'') p)"

lemma segments_join: "segments (join ''/'' (segments p)) = segments p"
proof (cases "segments p = []")
  case True
  then show ?thesis by simp
next
  case False
  have "list_all (\<lambda>w. CHR ''/'' \<notin> set w) (segments p)"
    using split_on_pieces [of _ "\<lambda>c. c = CHR ''/''" p] by (auto simp: list_all_iff)
  from split_on_join [OF False this] show ?thesis by simp
qed

lemma segments_slash: "segments (CHR ''/'' # p) = segments p"
  by simp

lemma body_start:
  "segments p \<noteq> [] \<Longrightarrow> join ''/'' (segments p) \<noteq> [] \<and> hd (join ''/'' (segments p)) \<noteq> CHR ''/''"
proof -
  assume ne: "segments p \<noteq> []"
  have "list_all (\<lambda>w. w \<noteq> []) (segments p)" by (simp add: list_all_iff)
  from join_words_ends [OF ne this, of "''/''"]
  have "join ''/'' (segments p) \<noteq> []" "hd (join ''/'' (segments p)) = hd (hd (segments p))" by blast+
  moreover have "hd (segments p) \<in> set (segments p)" using ne by (rule hd_in_set)
  then have m: "hd (segments p) \<noteq> []" "hd (segments p) \<in> set (split_on (\<lambda>c. c = CHR ''/'') p)"
    by (simp_all only: set_filter mem_Collect_eq simp_thms)
  then have "hd (hd (segments p)) \<in> set (hd (segments p))" by (intro hd_in_set)
  from split_on_pieces [OF m(2) this]
  have "hd (hd (segments p)) \<noteq> CHR ''/''" by blast
  ultimately show ?thesis by simp
qed

lemma path_str_idem:
  assumes "take 1 p = ''/''"
  shows "path_str (path_str p) = path_str p"
proof -
  define b where "b = join ''/'' (segments p)"
  have sb: "join ''/'' (segments b) = b" unfolding b_def by (simp only: segments_join)
  have st: "b \<noteq> [] \<Longrightarrow> hd b \<noteq> CHR ''/''"
    using body_start [of p] by (cases "segments p = []") (simp_all add: b_def)
  have p: "path_str p = (if take 2 p = ''//'' \<and> take 3 p \<noteq> ''///'' then ''//'' @ b else ''/'' @ b)"
    using assms by (simp add: path_str_def b_def Let_def)
  have one: "take 2 (''/'' @ b) \<noteq> ''//''" using st by (cases b) auto
  have two: "take 3 (''//'' @ b) \<noteq> ''///''" using st by (cases b) auto
  show ?thesis
  proof (cases "take 2 p = ''//'' \<and> take 3 p \<noteq> ''///''")
    case True
    have "path_str (''//'' @ b) = ''//'' @ b"
      using two sb by (simp add: path_str_def segments_slash numeral_2_eq_2 del: append_Cons)
        (simp add: segments_slash)
    then show ?thesis using p True by simp
  next
    case False
    have "path_str (''/'' @ b) = ''/'' @ b"
      using one sb by (simp add: path_str_def segments_slash del: append_Cons) (simp add: segments_slash)
    then show ?thesis unfolding p if_not_P [OF False] .
  qed
qed

definition schedule_ok :: "(string \<Rightarrow> string) \<Rightarrow> schedule_spec \<Rightarrow> bool" where
  "schedule_ok resolve s \<longleftrightarrow>
     hex_id ''sched_'' 24 (sc_id s) \<and> 3 \<le> length (sc_job_name s) \<and> length (sc_job_name s) \<le> 200
   \<and> qualified_job_name (sc_job_name s) = Inr (sc_job_name s) \<and> cron_ok (sc_cron s)
   \<and> 1 \<le> length (sc_project_root s) \<and> length (sc_project_root s) \<le> 4096
   \<and> absolute_root resolve (sc_project_root s) = Inr (sc_project_root s)
   \<and> profile_scope (primary (sc_profile_scope s)) (profiles (sc_profile_scope s)) = Inr (sc_profile_scope s)
   \<and> sha256_hex (sc_approved_spec_digest s) \<and> sha256_hex (sc_approved_runtime_policy_digest s)
   \<and> (case sc_approved_cron s of None \<Rightarrow> True | Some c \<Rightarrow> cron_ok c)
   \<and> sc_created_at s \<le> sc_updated_at s
   \<and> scope_includes (sc_profile_scope s) (fst (py_partition (CHR ''/'') (sc_job_name s))) = Inr True"

lemma schedule_ok_fix: "schedule_ok resolve s \<Longrightarrow> make_schedule resolve s = Inr s"
  by (cases "sc_approved_cron s")
    (simp_all add: schedule_ok_def make_schedule_def validate_schedule_id_def require_def validate_cron_fix)

lemma profile_scope_fix: "profile_scope p ps = Inr s \<Longrightarrow> profile_scope (primary s) (profiles s) = Inr s"
proof -
  assume a: "profile_scope p ps = Inr s"
  from profile_scope_ok [OF a] have ok: "scope_ok s" and p: "primary s = p" by auto
  have "profile_ok p" "py_strip p = p" "profile_name_re p"
    using a by (auto simp: profile_scope_def andthen_Inr validate_compartment_ok require_def
        profile_name_strip split: if_splits)
  then show ?thesis using ok p
    by (cases s) (simp add: profile_scope_def require_def validate_compartment_ok scope_ok_def
        canonical_profiles_fix canonical_names andthen_Inr)
qed

lemma qualified_job_name_same: "qualified_job_name n = Inr m \<Longrightarrow> m = n"
  by (auto simp: qualified_job_name_def andthen_Inr split: prod.splits)

lemma absolute_root_again:
  assumes "absolute_root resolve p = Inr q" and "length p \<le> 4096"
  shows "absolute_root resolve q = Inr q"
proof -
  have a: "take 1 p = ''/''" "\<not> list_ex (\<lambda>c. code c < 32) p" "path_str p = resolve (path_str p)"
    "q = path_str p"
    using assms(1) by (auto simp: absolute_root_def andthen_Inr Let_def)
  define B where "B = join ''/'' (segments p)"
  have j: "set (join sep ws) \<subseteq> set sep \<union> (\<Union>w \<in> set ws. set w)" for sep and ws :: "string list"
    by (induction sep ws rule: join.induct) auto
  have "set q \<subseteq> {CHR ''/'', CHR ''.''} \<union> set B"
    by (auto simp: a(4) path_str_def Let_def B_def [symmetric] split: if_splits)
  moreover have "set B \<subseteq> {CHR ''/''} \<union> (\<Union>w \<in> set (segments p). set w)"
    using j [of "''/''" "segments p"] unfolding B_def list.set by simp
  moreover have "(\<Union>w \<in> set (segments p). set w) \<subseteq> set p"
    using split_on_pieces [of _ "\<lambda>c. c = CHR ''/''" p] by auto
  ultimately have "set q \<subseteq> {CHR ''/'', CHR ''.''} \<union> set p" by blast
  then have "c = CHR ''/'' \<or> c = CHR ''.'' \<or> c \<in> set p" if "c \<in> set q" for c using that by blast
  moreover have "\<not> code (CHR ''/'') < 32" "\<not> code (CHR ''.'') < 32" by (simp_all add: code_def)
  moreover have "\<forall>c \<in> set p. \<not> code c < 32" using a(2) unfolding list_ex_iff by blast
  ultimately have "\<not> code c < 32" if "c \<in> set q" for c using that by metis
  then have "\<not> list_ex (\<lambda>c. code c < 32) q" by (auto simp: list_ex_iff)
  moreover have "take 1 q = ''/''" using a(1) by (simp add: a(4) path_str_def Let_def)
  moreover have "path_str q = q" using path_str_idem [OF a(1)] by (simp add: a(4))
  ultimately show ?thesis using a(3,4) by (simp add: absolute_root_def require_def Let_def)
qed

lemma join_length: "ws \<noteq> [] \<Longrightarrow> Suc (length (join [d] ws)) = sum_list (map (\<lambda>w. Suc (length w)) ws)"
  by (induction "[d]" ws rule: join.induct) auto

lemma split_on_length: "sum_list (map (\<lambda>w. Suc (length w)) (split_on P s)) = Suc (length s)"
  by (induction s) (auto split: list.splits)

lemma path_str_length:
  assumes "take 1 p = ''/''"
  shows "length (path_str p) \<le> length p"
proof -
  have body: "length (join ''/'' (segments q)) \<le> length q" for q
  proof (cases "segments q = []")
    case False
    have "sum_list (map (\<lambda>w. Suc (length w)) (filter P ws)) \<le> sum_list (map (\<lambda>w. Suc (length w)) ws)"
      for P and ws :: "string list" by (induction ws) auto
    from this [of "\<lambda>s. s \<noteq> [] \<and> s \<noteq> ''.''" "split_on (\<lambda>c. c = CHR ''/'') q"]
    show ?thesis using join_length [OF False, of "CHR ''/''"] split_on_length [of "\<lambda>c. c = CHR ''/''" q]
      by linarith
  qed simp
  obtain q where q: "p = CHR ''/'' # q" using assms by (cases p) auto
  show ?thesis
  proof (cases "take 2 p = ''//'' \<and> take 3 p \<noteq> ''///''")
    case True
    then obtain r where "q = CHR ''/'' # r" using q by (cases q) auto
    then show ?thesis using body [of r] q by (auto simp: path_str_def Let_def)
  next
    case False
    then show ?thesis using body [of q] assms q unfolding path_str_def Let_def by auto
  qed
qed

lemma schedule_ok_made:
  assumes "make_schedule resolve s = Inr t"
  shows "schedule_ok resolve t"
proof -
  obtain job cron project scope approved where
    m: "hex_id ''sched_'' 24 (sc_id s)" "3 \<le> length (sc_job_name s)" "length (sc_job_name s) \<le> 200"
    "qualified_job_name (sc_job_name s) = Inr job" "validate_cron_expression (sc_cron s) = Inr cron"
    "1 \<le> length (sc_project_root s)" "length (sc_project_root s) \<le> 4096"
    "absolute_root resolve (sc_project_root s) = Inr project"
    "profile_scope (primary (sc_profile_scope s)) (profiles (sc_profile_scope s)) = Inr scope"
    "sha256_hex (sc_approved_spec_digest s)" "sha256_hex (sc_approved_runtime_policy_digest s)"
    "(case sc_approved_cron s of None \<Rightarrow> Inr None
      | Some c \<Rightarrow> andthen (validate_cron_expression c) (\<lambda>v. Inr (Some v))) = Inr approved"
    "sc_created_at s \<le> sc_updated_at s"
    "scope_includes scope (fst (py_partition (CHR ''/'') job)) = Inr True"
    "t = s\<lparr>sc_job_name := job, sc_cron := cron, sc_project_root := project,
       sc_profile_scope := scope, sc_approved_cron := approved\<rparr>"
    using assms by (auto simp: make_schedule_def andthen_Inr validate_schedule_id_def split: if_splits)
  have ac: "case approved of None \<Rightarrow> True | Some c \<Rightarrow> cron_ok c"
    using m(12) by (auto split: option.splits simp: andthen_Inr dest!: validate_cron_ok)
  have "path_str (sc_project_root s) \<noteq> []" by (simp add: path_str_def Let_def)
  moreover have "length (path_str (sc_project_root s)) \<le> length (sc_project_root s)"
    using m(8) by (intro path_str_length) (auto simp: absolute_root_def andthen_Inr)
  ultimately have "project \<noteq> [] \<and> length project \<le> 4096"
    using m(7,8) by (auto simp: absolute_root_def andthen_Inr Let_def)
  then show ?thesis
    using m ac qualified_job_name_same [OF m(4)] validate_cron_ok [OF m(5)]
      absolute_root_again [OF m(8,7)] profile_scope_fix [OF m(9)]
    by (simp add: schedule_ok_def Suc_le_eq)
qed

lemma make_schedule_created: "make_schedule resolve s = Inr t \<Longrightarrow> sc_created_at s \<le> sc_updated_at s"
  by (auto simp: make_schedule_def andthen_Inr)

section \<open>The registry\<close>

definition file_ok :: "(string \<Rightarrow> string) \<Rightarrow> schedule_file \<Rightarrow> bool" where
  "file_ok resolve file \<longleftrightarrow> (case file of None \<Rightarrow> True | Some items \<Rightarrow>
     list_all (schedule_ok resolve) items \<and> distinct (map sc_id items) \<and> sorted (map sc_id items))"

definition entries :: "schedule_file \<Rightarrow> schedule_spec list" where
  "entries file = (case file of None \<Rightarrow> [] | Some items \<Rightarrow> items)"

lemma read_ok:
  assumes "file_ok resolve file"
  shows "read_schedules resolve file = (file, Inr (entries file))"
proof (cases "file")
  case (Some items)
  then have "collect (make_schedule resolve) items = Inr items"
    using assms by (intro collect_ident) (auto simp: file_ok_def list_all_iff schedule_ok_fix)
  then show ?thesis using assms Some
    by (simp add: read_schedules_def file_ok_def entries_def sort_key_id_if_sorted)
qed (simp add: read_schedules_def entries_def)

lemma file_ok_entries:
  "file_ok resolve file \<longleftrightarrow> list_all (schedule_ok resolve) (entries file) \<and> distinct (map sc_id (entries file))
     \<and> sorted (map sc_id (entries file))"
  by (simp add: file_ok_def entries_def split: option.splits)

lemma write_ok:
  "write_schedules items file = (file', Inr u) \<longleftrightarrow> file' = Some (sort_key sc_id items)"
  by (auto simp: write_schedules_def op_ok)

lemma file_ok_sorted:
  "list_all (schedule_ok resolve) items \<Longrightarrow> distinct (map sc_id items) \<Longrightarrow>
     file_ok resolve (Some (sort_key sc_id items))"
  by (auto simp: file_ok_def list_all_iff distinct_map)

lemma schedule_ok_scope: "schedule_ok resolve s \<Longrightarrow> scope_ok (sc_profile_scope s)"
  using profile_scope_ok by (auto simp: schedule_ok_def)

definition may_see :: "profile_scope \<Rightarrow> schedule_spec \<Rightarrow> bool" where
  "may_see scope s \<longleftrightarrow> set (profiles (sc_profile_scope s)) \<subseteq> set (profiles scope)"

lemma visible_iff: "schedule_ok resolve s \<Longrightarrow> visible scope s = Inr (may_see scope s)"
  using label_of_scope [OF schedule_ok_scope] by (simp add: visible_def permits_def may_see_def)

lemma require_visible_ok:
  "schedule_ok resolve s \<Longrightarrow> require_visible scope s file =
     (file, if may_see scope s then Inr () else Inl (ScheduleStoreError ''schedule is outside the active profile scope''))"
  by (simp add: require_visible_def visible_iff value_check_def op_defs)

lemma list_ok:
  assumes "file_ok resolve file"
  shows "schedule_list resolve scope file = (file, Inr (filter (may_see scope) (entries file)))"
proof -
  have "collect (\<lambda>s. andthen (visible scope s) (\<lambda>v. Inr (v, s))) items = Inr (map (\<lambda>s. (may_see scope s, s)) items)"
    if "list_all (schedule_ok resolve) items" for items
    using that by (induction items) (auto simp: visible_iff)
  moreover have "map snd (filter fst (map (\<lambda>s. (may_see scope s, s)) items)) = filter (may_see scope) items"
    for items by (induction items) auto
  ultimately show ?thesis
    using assms by (simp add: schedule_list_def read_ok file_ok_entries value_check_def op_defs)
qed

lemma find_entry:
  "distinct (map sc_id items) \<Longrightarrow> find (\<lambda>s. sc_id s = k) items = Some s \<longleftrightarrow> s \<in> set items \<and> sc_id s = k"
  by (induction items) (auto simp: image_iff)

lemma get_ok:
  assumes "file_ok resolve file" and "schedule_get resolve scope k file = (file', Inr s)"
  shows "file' = file \<and> s \<in> set (entries file) \<and> sc_id s = k \<and> may_see scope s \<and> schedule_ok resolve s"
proof -
  have "distinct (map sc_id (filter (may_see scope) (entries file)))"
    using assms(1) by (simp add: file_ok_entries distinct_map_filter)
  then show ?thesis
    using assms find_entry [of "filter (may_see scope) (entries file)" k s]
    by (auto simp: schedule_get_def list_ok op_defs file_ok_entries list_all_iff split: option.splits)
qed

lemma get_found:
  assumes "file_ok resolve file" and "s \<in> set (entries file)" and "may_see scope s"
  shows "schedule_get resolve scope (sc_id s) file = (file, Inr s)"
proof -
  have "distinct (map sc_id (filter (may_see scope) (entries file)))"
    using assms(1) by (simp add: file_ok_entries distinct_map_filter)
  then have "find (\<lambda>t. sc_id t = sc_id s) (filter (may_see scope) (entries file)) = Some s"
    using assms by (simp add: find_entry)
  then show ?thesis using assms(1) by (simp add: schedule_get_def list_ok op_defs)
qed

definition put_schedule :: "schedule_spec \<Rightarrow> schedule_file \<Rightarrow> schedule_file" where
  "put_schedule s file = Some (sort_key sc_id (map (\<lambda>i. if sc_id i = sc_id s then s else i) (entries file)))"

lemma replace_result:
  assumes fo: "file_ok resolve file" and old: "old \<in> set (entries file)" "sc_id old = sc_id s"
    and vis: "may_see scope old" "visible scope s = Inr True"
  shows "schedule_replace resolve scope s file = (put_schedule s file, Inr s)"
proof -
  have "find (\<lambda>i. sc_id i = sc_id s) (entries file) = Some old"
    using fo old by (simp add: find_entry file_ok_entries)
  moreover have "schedule_ok resolve old" using fo old by (auto simp: file_ok_entries list_all_iff)
  ultimately show ?thesis
    using fo vis read_ok [OF fo] require_visible_ok [of resolve old scope "file"]
    by (simp add: schedule_replace_def require_visible_def [of scope s] value_check_def op_defs
        write_schedules_def put_schedule_def)
qed

lemma put_entries:
  assumes "file_ok resolve file" and "old \<in> set (entries file)" "sc_id old = sc_id s"
  shows "set (entries (put_schedule s file)) = insert s {i \<in> set (entries file). sc_id i \<noteq> sc_id s}"
  using assms by (auto simp: put_schedule_def entries_def split: if_splits)

lemma put_file_ok:
  assumes "file_ok resolve file" and "schedule_ok resolve s"
  shows "file_ok resolve (put_schedule s file)"
proof -
  have ids: "map sc_id (map (\<lambda>i. if sc_id i = sc_id s then s else i) (entries file)) = map sc_id (entries file)"
    by simp
  show ?thesis unfolding put_schedule_def
    using assms by (intro file_ok_sorted) (simp_all only: ids file_ok_entries, auto simp: list_all_iff)
qed

end
