(* ===== verification/Schedule_Lifecycle.thy ===== *)
theory Schedule_Lifecycle
  imports Schedule_Spec
begin

text \<open>
  Every public call of the schedule service as a step of the registry, the invariant it keeps and
  what it cannot touch.
\<close>

datatype schedule_call =
    S_Create string string string profile_scope string
  | S_Update_Cron string string
  | S_Set_Enabled string bool
  | S_Remove string
  | S_Approve string
  | S_Refresh string

definition drop_result :: "'a schedule_op \<Rightarrow> unit schedule_op" where
  "drop_result m = bind m (\<lambda>_. ret ())"

fun schedule_outcome ::
  "schedule_env \<Rightarrow> (string \<Rightarrow> string) \<Rightarrow> profile_scope \<Rightarrow> instant \<Rightarrow> schedule_call \<Rightarrow> unit schedule_op" where
  "schedule_outcome env resolve scope now (S_Create uuid job cron job_scope project) =
     drop_result (service_create env resolve scope now uuid job cron job_scope project)"
| "schedule_outcome env resolve scope now (S_Update_Cron k cron) = drop_result (update_cron resolve scope now k cron)"
| "schedule_outcome env resolve scope now (S_Set_Enabled k b) = drop_result (set_enabled resolve scope now k b)"
| "schedule_outcome env resolve scope now (S_Remove k) = drop_result (schedule_remove resolve scope k)"
| "schedule_outcome env resolve scope now (S_Approve k) = drop_result (approve_schedule env resolve scope now k)"
| "schedule_outcome env resolve scope now (S_Refresh k) = drop_result (refresh_schedule env resolve scope now k)"

definition schedule_exec where
  "schedule_exec env resolve scope now c file = fst (schedule_outcome env resolve scope now c file)"

text \<open>The changes the service makes to an existing schedule.\<close>

definition revised ::
  "string \<Rightarrow> bool \<Rightarrow> string \<Rightarrow> string \<Rightarrow> job_approval_envelope option \<Rightarrow> string option \<Rightarrow> instant
    \<Rightarrow> schedule_spec \<Rightarrow> schedule_spec" where
  "revised c e d p auth a now s = s\<lparr>sc_cron := c, sc_enabled := e, sc_approved_spec_digest := d,
     sc_approved_runtime_policy_digest := p, sc_approved_authority := auth, sc_approved_cron := a,
     sc_updated_at := now\<rparr>"

inductive schedule_step ::
  "(string \<Rightarrow> string) \<Rightarrow> profile_scope \<Rightarrow> instant \<Rightarrow> schedule_file \<Rightarrow> schedule_file \<Rightarrow> bool"
  for resolve scope now reg where
  stay: "schedule_step resolve scope now reg reg"
| change: "s \<in> set (entries reg) \<Longrightarrow> may_see scope s \<Longrightarrow> cron_ok c \<Longrightarrow> sha256_hex d \<Longrightarrow> sha256_hex p \<Longrightarrow>
    (case a of None \<Rightarrow> True | Some v \<Rightarrow> cron_ok v) \<Longrightarrow>
    schedule_step resolve scope now reg (put_schedule (revised c e d p auth a now s) reg)"
| add: "sc_id s \<notin> sc_id ` set (entries reg) \<Longrightarrow> schedule_ok resolve s \<Longrightarrow> may_see scope s \<Longrightarrow>
    sc_created_at s = now \<Longrightarrow> sc_updated_at s = now \<Longrightarrow>
    schedule_step resolve scope now reg (Some (sort_key sc_id (entries reg @ [s])))"
| del: "s \<in> set (entries reg) \<Longrightarrow> may_see scope s \<Longrightarrow>
    schedule_step resolve scope now reg (Some (sort_key sc_id (filter (\<lambda>i. sc_id i \<noteq> sc_id s) (entries reg))))"

text \<open>The digests of a loaded job are SHA-256 hex strings.\<close>

definition digests_ok :: "schedule_env \<Rightarrow> bool" where
  "digests_ok env \<longleftrightarrow> (\<forall>root job scope. case validate_revision env root job scope of Inl _ \<Rightarrow> True
     | Inr r \<Rightarrow> sha256_hex (jr_digest r) \<and> sha256_hex (jr_policy_digest r))"

lemma digests_of: "digests_ok env \<Longrightarrow> validate_revision env p j sc = Inr r \<Longrightarrow>
    sha256_hex (jr_digest r) \<and> sha256_hex (jr_policy_digest r)"
  unfolding digests_ok_def by (metis sum.simps(6))

lemma revised_scope [simp]:
  "sc_profile_scope (revised c e d p auth a now s) = sc_profile_scope s"
  "sc_id (revised c e d p auth a now s) = sc_id s"
  "sc_created_at (revised c e d p auth a now s) = sc_created_at s"
  "sc_updated_at (revised c e d p auth a now s) = now"
  by (simp_all add: revised_def)

lemma revised_ok:
  assumes "schedule_ok resolve s" and "cron_ok c" "sha256_hex d" "sha256_hex p"
    "case a of None \<Rightarrow> True | Some v \<Rightarrow> cron_ok v" and "sc_created_at s \<le> now"
  shows "schedule_ok resolve (revised c e d p auth a now s)"
  using assms by (simp add: schedule_ok_def revised_def)

lemma replace_revised:
  assumes "file_ok resolve file" and s: "s \<in> set (entries file)" "may_see scope s"
  shows "schedule_replace resolve scope (revised c e d p auth a now s) file
    = (put_schedule (revised c e d p auth a now s) file, Inr (revised c e d p auth a now s))"
proof -
  have "schedule_ok resolve s" using assms by (auto simp: file_ok_entries list_all_iff)
  then have "visible scope (revised c e d p auth a now s) = Inr True"
    using visible_iff [of resolve s scope] s(2) by (simp add: visible_def)
  then show ?thesis using assms by (intro replace_result) auto
qed

lemma get_cases:
  assumes "file_ok resolve file"
  obtains e where "schedule_get resolve scope k file = (file, Inl e)"
  | s where "schedule_get resolve scope k file = (file, Inr s)" "s \<in> set (entries file)" "sc_id s = k"
      "may_see scope s" "schedule_ok resolve s"
proof (cases "schedule_get resolve scope k file")
  case (Pair f r)
  have "f = file" using Pair assms by (auto simp: schedule_get_def list_ok op_defs split: option.splits)
  then show thesis using Pair that get_ok [OF assms] by (cases r) auto
qed

lemma approved_cron_ok:
  "schedule_ok resolve s \<Longrightarrow> cron_ok (case sc_approved_cron s of None \<Rightarrow> sc_cron s
     | Some a \<Rightarrow> if a = [] then sc_cron s else a)"
  by (auto simp: schedule_ok_def split: option.splits)

lemma update_cron_is:
  "s\<lparr>sc_cron := c, sc_approved_cron := a, sc_updated_at := now\<rparr> = revised c (sc_enabled s)
     (sc_approved_spec_digest s) (sc_approved_runtime_policy_digest s) (sc_approved_authority s) a now s"
  "s\<lparr>sc_enabled := e, sc_updated_at := now\<rparr> = revised (sc_cron s) e (sc_approved_spec_digest s)
     (sc_approved_runtime_policy_digest s) (sc_approved_authority s) (sc_approved_cron s) now s"
  "s\<lparr>sc_approved_spec_digest := d, sc_approved_runtime_policy_digest := p, sc_approved_authority := auth,
     sc_approved_cron := a, sc_updated_at := now\<rparr> = revised (sc_cron s) (sc_enabled s) d p auth a now s"
  "s\<lparr>sc_approved_spec_digest := d, sc_approved_runtime_policy_digest := p, sc_updated_at := now\<rparr>
     = revised (sc_cron s) (sc_enabled s) d p (sc_approved_authority s) (sc_approved_cron s) now s"
  by (cases s, simp add: revised_def)+

lemma schedule_exec_step:
  assumes fo: "file_ok resolve file" and env: "digests_ok env"
  shows "schedule_step resolve scope now file (schedule_exec env resolve scope now c file)"
proof (cases c)
  case (S_Update_Cron k cron)
  show ?thesis
  proof (rule get_cases [OF fo, where k = k and scope = scope])
    fix s assume s: "schedule_get resolve scope k file = (file, Inr s)" "s \<in> set (entries file)"
      "may_see scope s" "schedule_ok resolve s"
    show ?thesis
    proof (cases "validate_cron_expression cron")
      case (Inr c)
      have "schedule_step resolve scope now file (put_schedule (revised c (sc_enabled s)
         (sc_approved_spec_digest s) (sc_approved_runtime_policy_digest s) (sc_approved_authority s)
         (Some (case sc_approved_cron s of None \<Rightarrow> sc_cron s | Some a \<Rightarrow> if a = [] then sc_cron s else a)) now s) file)"
        using s approved_cron_ok [OF s(4)] validate_cron_ok [OF Inr]
        by (intro change) (auto simp: schedule_ok_def)
      then show ?thesis using s Inr replace_revised [OF fo s(2,3)]
        by (simp add: S_Update_Cron schedule_exec_def drop_result_def update_cron_def update_cron_is
            value_check_def op_defs)
    qed (use s in \<open>simp add: S_Update_Cron schedule_exec_def drop_result_def update_cron_def value_check_def op_defs stay\<close>)
  qed (simp add: S_Update_Cron schedule_exec_def drop_result_def update_cron_def op_defs stay)
next
  case (S_Set_Enabled k b)
  show ?thesis
  proof (rule get_cases [OF fo, where k = k and scope = scope])
    fix s assume s: "schedule_get resolve scope k file = (file, Inr s)" "s \<in> set (entries file)"
      "may_see scope s" "schedule_ok resolve s"
    have "schedule_step resolve scope now file (put_schedule (revised (sc_cron s) b
       (sc_approved_spec_digest s) (sc_approved_runtime_policy_digest s) (sc_approved_authority s)
       (sc_approved_cron s) now s) file)"
      using s by (intro change) (auto simp: schedule_ok_def)
    then show ?thesis using s replace_revised [OF fo s(2,3)]
      by (simp add: S_Set_Enabled schedule_exec_def drop_result_def set_enabled_def update_cron_is op_defs)
  qed (simp add: S_Set_Enabled schedule_exec_def drop_result_def set_enabled_def op_defs stay)
next
  case (S_Approve k)
  show ?thesis
  proof (rule get_cases [OF fo, where k = k and scope = scope])
    fix s assume s: "schedule_get resolve scope k file = (file, Inr s)" "s \<in> set (entries file)"
      "may_see scope s" "schedule_ok resolve s"
    show ?thesis
    proof (cases "current_revision env s file")
      case (Pair f r)
      have f: "f = file" using Pair by (auto simp: current_revision_def service_check_def op_defs split: sum.splits)
      show ?thesis
      proof (cases r)
        case (Inr loaded)
        have "validate_revision env (sc_project_root s) (sc_job_name s) (sc_profile_scope s) = Inr loaded"
          using Pair Inr by (auto simp: current_revision_def service_check_def op_ok split: sum.splits)
        then have "schedule_step resolve scope now file (put_schedule (revised (sc_cron s) (sc_enabled s)
           (jr_digest loaded) (jr_policy_digest loaded) (Some (jr_authority loaded)) (Some (sc_cron s)) now s) file)"
          using s digests_of [OF env] by (intro change) (auto simp: schedule_ok_def)
        then show ?thesis using s f Pair Inr replace_revised [OF fo s(2,3)]
          by (simp add: S_Approve schedule_exec_def drop_result_def approve_schedule_def update_cron_is op_defs)
      qed (use s f Pair in \<open>simp add: S_Approve schedule_exec_def drop_result_def approve_schedule_def op_defs stay\<close>)
    qed
  qed (simp add: S_Approve schedule_exec_def drop_result_def approve_schedule_def op_defs stay)
next
  case (S_Refresh k)
  show ?thesis
  proof (rule get_cases [OF fo, where k = k and scope = scope])
    fix s assume s: "schedule_get resolve scope k file = (file, Inr s)" "s \<in> set (entries file)"
      "may_see scope s" "schedule_ok resolve s"
    show ?thesis
    proof (cases "current_revision env s file")
      case (Pair f r)
      have f: "f = file" using Pair by (auto simp: current_revision_def service_check_def op_defs split: sum.splits)
      show ?thesis
      proof (cases r)
        case (Inr loaded)
        have "validate_revision env (sc_project_root s) (sc_job_name s) (sc_profile_scope s) = Inr loaded"
          using Pair Inr by (auto simp: current_revision_def service_check_def op_ok split: sum.splits)
        then have "schedule_step resolve scope now file (put_schedule (revised (sc_cron s) (sc_enabled s)
           (jr_digest loaded) (jr_policy_digest loaded) (sc_approved_authority s) (sc_approved_cron s) now s) file)"
          using s digests_of [OF env] by (intro change) (auto simp: schedule_ok_def)
        then show ?thesis using s f Pair Inr replace_revised [OF fo s(2,3)]
          by (simp add: S_Refresh schedule_exec_def drop_result_def refresh_schedule_def update_cron_is op_defs stay)
      qed (use s f Pair in \<open>simp add: S_Refresh schedule_exec_def drop_result_def refresh_schedule_def op_defs stay\<close>)
    qed
  qed (simp add: S_Refresh schedule_exec_def drop_result_def refresh_schedule_def op_defs stay)
next
  case (S_Remove k)
  show ?thesis
  proof (cases "find (\<lambda>i. sc_id i = k) (entries file)")
    case (Some s)
    then have s: "s \<in> set (entries file)" "sc_id s = k" "schedule_ok resolve s"
      using fo by (auto simp: find_entry file_ok_entries list_all_iff)
    show ?thesis
    proof (cases "may_see scope s")
      case True
      with Some s fo del [OF s(1) True, of resolve now] show ?thesis
        by (simp add: S_Remove schedule_exec_def drop_result_def schedule_remove_def read_ok require_visible_ok
            write_schedules_def op_defs)
    qed (use Some s fo in \<open>simp add: S_Remove schedule_exec_def drop_result_def schedule_remove_def read_ok
            require_visible_ok op_defs stay\<close>)
  qed (use fo in \<open>simp add: S_Remove schedule_exec_def drop_result_def schedule_remove_def read_ok op_defs stay\<close>)
next
  case (S_Create uuid job cron job_scope project)
  show ?thesis
  proof (cases "service_create env resolve scope now uuid job cron job_scope project file")
    case (Pair f r)
    show ?thesis
    proof (cases r)
      case (Inl e)
      have "f = file" using Pair Inl fo
        by (auto simp: service_create_def schedule_create_def service_check_def value_check_def
            require_visible_def read_ok write_schedules_def op_defs split: sum.splits if_splits)
      then show ?thesis using Pair Inl by (simp add: S_Create schedule_exec_def drop_result_def op_defs stay)
    next
      case (Inr s)
      then obtain raw where m: "make_schedule resolve raw = Inr s" "sc_created_at raw = now" "sc_updated_at raw = now"
        and c: "schedule_create resolve scope s file = (f, Inr s)"
        using Pair by (auto simp: service_create_def service_check_def value_check_def op_ok
            schedule_create_def split: sum.splits)
      have s: "schedule_ok resolve s" "sc_created_at s = now" "sc_updated_at s = now"
        using schedule_ok_made [OF m(1)] m by (auto simp: make_schedule_def andthen_Inr)
      with c fo have "may_see scope s" "sc_id s \<notin> sc_id ` set (entries file)"
        "f = Some (sort_key sc_id (entries file @ [s]))"
        by (auto simp: schedule_create_def op_ok require_visible_ok read_ok write_schedules_def list_ex_iff
            split: if_splits)
      then show ?thesis using Pair Inr s add [of s "file" resolve scope now]
        by (simp add: S_Create schedule_exec_def drop_result_def op_defs)
    qed
  qed
qed

end
