(* ===== verification/Crontab.thy ===== *)
theory Crontab
  imports Schedule_Types
begin

text \<open>
  Crontab rendering and reconciliation (\<open>ricky/schedules/cron.py\<close>).  The user's crontab is one
  string; the managed block is found between two marker lines.  The \<open>crontab\<close> program is not part of
  the repository: it is a parameter, two functions on a state of its own.  The temporary file of an
  installation, the lock file and file modes are not modelled.
\<close>

section \<open>Parsing and merging\<close>

definition BEGIN_MARKER :: string where "BEGIN_MARKER = ''# BEGIN RICKY MANAGED SCHEDULES''"
definition END_MARKER :: string where "END_MARKER = ''# END RICKY MANAGED SCHEDULES''"

record managed_crontab =
  mc_prefix :: string
  mc_separator :: string
  mc_block :: "string option"
  mc_suffix :: string

definition without_block :: "managed_crontab \<Rightarrow> string" where
  "without_block m = mc_prefix m @ mc_suffix m"

definition check_marker_line :: "string \<Rightarrow> unit checked" where
  "check_marker_line line =
     (let content = rstrip_newline line in
      if py_in BEGIN_MARKER content \<and> content \<noteq> BEGIN_MARKER
      then Inl ''malformed Ricky begin marker in user crontab''
      else if py_in END_MARKER content \<and> content \<noteq> END_MARKER
      then Inl ''malformed Ricky end marker in user crontab''
      else Inr ())"

definition is_begin :: "string \<Rightarrow> bool" where
  "is_begin line \<longleftrightarrow> rstrip_newline line = BEGIN_MARKER"

definition is_end :: "string \<Rightarrow> bool" where
  "is_end line \<longleftrightarrow> rstrip_newline line = END_MARKER"

text \<open>The offset of line \<open>i\<close> is the length of the lines before it.\<close>

definition line_offset :: "string list \<Rightarrow> nat \<Rightarrow> nat" where
  "line_offset lines i = length (concat (take i lines))"

definition parse_managed_crontab :: "string \<Rightarrow> managed_crontab checked" where
  "parse_managed_crontab text =
     (let lines = splitlines text;
          begins = positions is_begin 0 lines;
          ends = positions is_end 0 lines
      in andthen (collect check_marker_line lines) (\<lambda>_.
         if begins = [] \<and> ends = []
         then Inr \<lparr>mc_prefix = text, mc_separator = [], mc_block = None, mc_suffix = []\<rparr>
         else if length begins \<noteq> 1 \<or> length ends \<noteq> 1 \<or> hd begins \<ge> hd ends
         then Inl ''Ricky crontab markers are missing, duplicated, reversed, or nested''
         else
           let start = line_offset lines (hd begins);
               stop = line_offset lines (Suc (hd ends));
               newline = (0 < start \<and> text ! (start - 1) = LF)
           in Inr \<lparr>mc_prefix = take (if newline then start - 1 else start) text,
                   mc_separator = (if newline then [LF] else []),
                   mc_block = Some (take (stop - start) (drop start text)),
                   mc_suffix = drop stop text\<rparr>))"

definition merge_managed_block :: "string \<Rightarrow> string \<Rightarrow> string checked" where
  "merge_managed_block current fragment =
     andthen (parse_managed_crontab current) (\<lambda>parsed.
       Inr (if mc_block parsed \<noteq> None
            then mc_prefix parsed @ mc_separator parsed @ fragment @ mc_suffix parsed
            else current @ (if current = [] then [] else [LF]) @ fragment))"

section \<open>Rendering\<close>

definition command_atom :: "string \<Rightarrow> string checked" where
  "command_atom raw =
     (if take 1 raw \<noteq> ''/'' \<or> list_ex is_control raw \<or> py_in BEGIN_MARKER raw \<or> py_in END_MARKER raw
      then Inl ''path must be an absolute path without control characters'' else Inr raw)"

text \<open>\<open>shlex.quote\<close>; its safe characters are \<open>[A-Za-z0-9_@%+=:,./-]\<close>.\<close>

definition shell_safe :: "char \<Rightarrow> bool" where
  "shell_safe c \<longleftrightarrow> is_lower_letter c \<or> is_digit c \<or> 65 \<le> code c \<and> code c \<le> 90
     \<or> c \<in> set ''_@%+=:,./-''"

definition shlex_quote :: "string \<Rightarrow> string" where
  "shlex_quote s =
     (if s = [] then [CHR 0x27, CHR 0x27]
      else if list_all shell_safe s then s
      else [CHR 0x27] @ concat (map (\<lambda>c. if c = CHR 0x27
             then [CHR 0x27, CHR 0x22, CHR 0x27, CHR 0x22, CHR 0x27] else [c]) s) @ [CHR 0x27])"

definition escape_percent :: "string \<Rightarrow> string" where
  "escape_percent s = concat (map (\<lambda>c. if c = CHR ''%'' then [CHR 0x5C, CHR ''%''] else [c]) s)"

definition cron_quote :: "string \<Rightarrow> string checked" where
  "cron_quote value =
     (if list_ex is_control value then Inl ''generated cron command atom contains a control character''
      else Inr (escape_percent (shlex_quote value)))"

definition schedule_command :: "string \<Rightarrow> string \<Rightarrow> schedule_spec \<Rightarrow> string list" where
  "schedule_command executable project s =
     [executable, ''schedule'', ''invoke'', sc_id s, ''--project'', project, ''--profile'',
        primary (sc_profile_scope s)]
     @ concat (map (\<lambda>p. if p = ''shared'' \<or> p = primary (sc_profile_scope s) then []
                         else [''--access-profile'', p]) (profiles (sc_profile_scope s)))"

definition render_line :: "string \<Rightarrow> string \<Rightarrow> schedule_spec \<Rightarrow> string checked" where
  "render_line executable log_dir s =
     andthen (command_atom (path_str (sc_project_root s))) (\<lambda>project.
     andthen (command_atom (path_str (log_dir @ ''/'' @ sc_id s @ ''.log''))) (\<lambda>log.
     andthen (collect cron_quote (schedule_command executable project s)) (\<lambda>quoted.
     andthen (cron_quote log) (\<lambda>quoted_log.
       Inr (sc_cron s @ '' umask 077; : > '' @ quoted_log @ ''; '' @ join '' '' quoted @ '' >> ''
            @ quoted_log @ '' 2>&1'')))))"

definition render_fragment :: "string \<Rightarrow> string \<Rightarrow> schedule_spec list \<Rightarrow> string checked" where
  "render_fragment ricky_executable log_dir schedules =
     andthen (command_atom ricky_executable) (\<lambda>executable.
     andthen (collect (render_line executable log_dir) (sort_key sc_id schedules)) (\<lambda>lines.
       Inr (join [LF] ([BEGIN_MARKER] @ lines @ [END_MARKER]) @ [LF])))"

section \<open>Reconciliation\<close>

record command_result =
  returncode :: int
  stdout :: string
  stderr :: string

text \<open>\<open>None\<close> is an \<open>OSError\<close>: the program could not be executed.\<close>

record 'w crontab_program =
  run_list :: "'w \<Rightarrow> 'w \<times> command_result option"
  run_install :: "string \<Rightarrow> 'w \<Rightarrow> 'w \<times> command_result option"

record 'w cron_host =
  world :: 'w
  fragment_file :: "string option"
  cron_backups :: "(string \<times> string) list"

record cron_apply_result =
  ca_changed :: bool
  ca_backup_path :: "string option"
  ca_installed_text :: string

type_synonym ('w, 'a) cron_op = "('w cron_host, string, 'a) op"

definition call_program ::
  "('w \<Rightarrow> 'w \<times> command_result option) \<Rightarrow> string \<Rightarrow> ('w, command_result) cron_op" where
  "call_program f message h = (case f (world h) of (w, res) \<Rightarrow>
     (h\<lparr>world := w\<rparr>, case res of None \<Rightarrow> Inl message | Some r \<Rightarrow> Inr r))"

definition cron_read :: "'w crontab_program \<Rightarrow> ('w, string) cron_op" where
  "cron_read prog =
     bind (call_program (run_list prog) ''cannot execute crontab reader'') (\<lambda>r.
       if returncode r = 0 then ret (stdout r)
       else if returncode r = 1 \<and> py_in ''no crontab'' (py_lower (stderr r)) then ret []
       else raise ''cannot read user crontab'')"

definition install_and_verify ::
  "'w crontab_program \<Rightarrow> string \<Rightarrow> string option \<Rightarrow> bool \<Rightarrow> ('w, string) cron_op" where
  "install_and_verify prog desired fragment uninstall =
     bind (call_program (run_install prog desired) ''cannot execute crontab installer'') (\<lambda>r.
     bind (unless (returncode r = 0) ''cannot install user crontab'') (\<lambda>_.
     bind (cron_read prog) (\<lambda>installed.
     bind (unless (installed = desired)
       ''installed crontab did not match the verified complete candidate'') (\<lambda>_.
     bind (lift (parse_managed_crontab installed)) (\<lambda>p.
     bind (if uninstall then unless (mc_block p = None) ''Ricky block remained after uninstall''
           else unless (mc_block p = fragment) ''installed Ricky block failed exact verification'') (\<lambda>_.
       ret installed))))))"

definition reconcile ::
  "'w crontab_program \<Rightarrow> string \<Rightarrow> string option \<Rightarrow> bool \<Rightarrow> ('w, cron_apply_result) cron_op" where
  "reconcile prog backup_path fragment uninstall =
     bind (cron_read prog) (\<lambda>current.
     bind (lift (parse_managed_crontab current)) (\<lambda>parsed.
     bind (if uninstall then ret (without_block parsed)
           else lift (merge_managed_block current (case fragment of None \<Rightarrow> [] | Some f \<Rightarrow> f))) (\<lambda>desired.
     bind (case fragment of None \<Rightarrow> ret () | Some f \<Rightarrow> writes (\<lambda>h. h\<lparr>fragment_file := Some f\<rparr>)) (\<lambda>_.
       if desired = current
       then ret \<lparr>ca_changed = False, ca_backup_path = None, ca_installed_text = current\<rparr>
       else
         bind (writes (\<lambda>h. h\<lparr>cron_backups := cron_backups h @ [(backup_path, current)]\<rparr>)) (\<lambda>_.
         bind (install_and_verify prog desired fragment uninstall) (\<lambda>installed.
           ret \<lparr>ca_changed = True, ca_backup_path = Some backup_path,
                ca_installed_text = installed\<rparr>))))))"

definition cron_sync :: "'w crontab_program \<Rightarrow> string \<Rightarrow> string \<Rightarrow> ('w, cron_apply_result) cron_op" where
  "cron_sync prog backup_path fragment = reconcile prog backup_path (Some fragment) False"

definition cron_uninstall :: "'w crontab_program \<Rightarrow> string \<Rightarrow> ('w, cron_apply_result) cron_op" where
  "cron_uninstall prog backup_path = reconcile prog backup_path None True"

end
