(* ===== verification/Crontab_Spec.thy ===== *)
theory Crontab_Spec
  imports Crontab "HOL-Library.Sublist"
begin

text \<open>
  What the crontab parser finds: a text is either free of markers or splits, at line boundaries, into
  the user's lines before the block, the block and the user's lines after it.  Merging replaces the
  block and leaves those lines as they were.
\<close>

section \<open>Lines and stripped lines\<close>

lemma rstrip_Nil [simp]: "rstrip_newline [] = []"
  by (simp add: rstrip_newline_def)

lemma rstrip_Cons: "c \<noteq> CR \<Longrightarrow> c \<noteq> LF \<Longrightarrow> rstrip_newline (c # l) = c # rstrip_newline l"
proof -
  assume c: "c \<noteq> CR" "c \<noteq> LF"
  have "dropWhile (\<lambda>c. c = CR \<or> c = LF) (rev l @ [c]) = dropWhile (\<lambda>c. c = CR \<or> c = LF) (rev l) @ [c]"
    using c by (simp add: dropWhile_append)
  then show ?thesis by (simp add: rstrip_newline_def)
qed

lemma rstrip_prefix: "prefix (rstrip_newline l) l"
proof -
  have "rev l = takeWhile (\<lambda>c. c = CR \<or> c = LF) (rev l) @ dropWhile (\<lambda>c. c = CR \<or> c = LF) (rev l)"
    by simp
  then have "l = rstrip_newline l @ rev (takeWhile (\<lambda>c. c = CR \<or> c = LF) (rev l))"
    unfolding rstrip_newline_def by (metis rev_append rev_rev_ident)
  then show ?thesis by (metis prefixI)
qed

lemma break_newline: "\<not> line_break c \<Longrightarrow> c \<noteq> CR \<and> c \<noteq> LF"
  by (auto simp: line_break_def code_def)

lemma first_line_prefix:
  assumes "prefix w s" and "list_all (\<lambda>c. \<not> line_break c) w" and "s \<noteq> []"
  shows "prefix w (rstrip_newline (hd (splitlines s)))"
  using assms
proof (induction s arbitrary: w rule: splitlines.induct)
  case (2 c)
  then show ?case using break_newline [of c] by (cases w) (auto simp: rstrip_Cons)
next
  case (3 c d s)
  show ?case
  proof (cases w)
    case (Cons x w')
    with 3 have x: "x = c" "\<not> line_break c" "prefix w' (d # s)" "list_all (\<lambda>c. \<not> line_break c) w'" by auto
    moreover from x break_newline have "\<not> (c = CR \<and> d = LF)" by blast
    ultimately show ?thesis using "3.IH"(3) Cons break_newline [of c] by (auto simp: rstrip_Cons)
  qed simp
qed simp

lemma py_in_sublist: "py_in w s \<longleftrightarrow> sublist w s"
  by (auto simp: py_in_iff sublist_def)

lemma py_in_line:
  assumes w: "w \<noteq> []" "list_all (\<lambda>c. \<not> line_break c) w"
  shows "py_in w s \<longleftrightarrow> list_ex (\<lambda>l. py_in w (rstrip_newline l)) (splitlines s)"
proof
  show "py_in w s \<Longrightarrow> list_ex (\<lambda>l. py_in w (rstrip_newline l)) (splitlines s)"
  proof (induction s rule: splitlines.induct)
    case 1
    then show ?case using w by simp
  next
    case (2 c)
    then have "prefix w [c]" by (auto simp: py_in_sublist sublist_Cons_right)
    from first_line_prefix [OF this w(2)] show ?case by (simp add: py_in_sublist)
  next
    case (3 c d s)
    from "3.prems" consider "prefix w (c # d # s)" | "py_in w (d # s)"
      by (auto simp: py_in_sublist sublist_Cons_right)
    then show ?case
    proof cases
      case 1
      then have "py_in w (rstrip_newline (hd (splitlines (c # d # s))))"
        using first_line_prefix [OF 1 w(2)] by (simp add: py_in_sublist)
      moreover have "hd (splitlines (c # d # s)) \<in> set (splitlines (c # d # s))"
        by (rule hd_in_set) simp
      ultimately show ?thesis unfolding list_ex_iff by blast
    next
      case rest: 2
      consider "c = CR \<and> d = LF" | "\<not> (c = CR \<and> d = LF)" "line_break c"
        | "\<not> (c = CR \<and> d = LF)" "\<not> line_break c" by blast
      then show ?thesis
      proof cases
        case 1
        have "line_break LF" by (simp add: line_break_def code_def)
        then have "py_in w s" using rest w 1
          by (cases w) (auto simp: py_in_sublist sublist_Cons_right)
        then show ?thesis using "3.IH"(1) 1 by simp
      next
        case 2
        then show ?thesis using "3.IH"(2) rest by auto
      next
        case 3
        then have "list_ex (\<lambda>l. py_in w (rstrip_newline l)) (splitlines (d # s))"
          using "3.IH"(3) rest by simp
        moreover obtain l ls where "splitlines (d # s) = l # ls"
          by (metis list.exhaust splitlines_Nil_iff list.distinct(1))
        ultimately show ?thesis
          using 3 break_newline [of c] by (auto simp: rstrip_Cons)
      qed
    qed
  qed
  show "list_ex (\<lambda>l. py_in w (rstrip_newline l)) (splitlines s) \<Longrightarrow> py_in w s"
  proof -
    assume "list_ex (\<lambda>l. py_in w (rstrip_newline l)) (splitlines s)"
    then obtain l where l: "l \<in> set (splitlines s)" "sublist w (rstrip_newline l)"
      by (auto simp: list_ex_iff py_in_sublist)
    have "sublist l (concat (splitlines s))" using l(1)
      by (metis concat.simps(2) concat_append in_set_conv_decomp sublist_appendI)
    moreover have "sublist w l" using l(2) rstrip_prefix by (meson prefix_imp_sublist sublist_order.order_trans)
    ultimately show ?thesis unfolding py_in_sublist concat_splitlines by (meson sublist_order.order_trans)
  qed
qed

lemma splitlines_no_empty: "l \<in> set (splitlines s) \<Longrightarrow> l \<noteq> []"
  by (induction s rule: splitlines.induct) (auto split: if_splits dest: list.set_sel(2) [rotated])

lemma splitlines_split:
  assumes "splitlines s = la @ lb"
  shows "splitlines (concat la) = la \<and> splitlines (concat lb) = lb \<and> (lb \<noteq> [] \<longrightarrow> line_end (concat la))"
  using assms
proof (induction s arbitrary: la rule: splitlines.induct)
  case (2 c)
  then show ?case by (cases la) (auto simp: line_end_def)
next
  case (3 c d s)
  show ?case
  proof (cases la)
    case Nil
    then show ?thesis using "3.prems" concat_splitlines [of "c # d # s"] by (simp add: line_end_def)
  next
    case (Cons l la')
    consider "c = CR \<and> d = LF" | "\<not> (c = CR \<and> d = LF)" "line_break c"
      | "\<not> (c = CR \<and> d = LF)" "\<not> line_break c" by blast
    then show ?thesis
    proof cases
      case 1
      have "splitlines (concat la') = la' \<and> splitlines (concat lb) = lb
          \<and> (lb \<noteq> [] \<longrightarrow> line_end (concat la'))"
        using "3.prems" Cons 1 by (intro "3.IH"(1)) auto
      moreover have "line_break LF" by (simp add: line_break_def code_def)
      ultimately show ?thesis using 1 "3.prems" Cons
        by (cases "concat la' = []") (auto simp: line_end_def simp del: concat_eq_Nil_conv)
    next
      case 2
      have eq: "splitlines (d # s) = la' @ lb" "l = [c]" using "3.prems" Cons 2 by auto
      then have ih: "splitlines (concat la') = la' \<and> splitlines (concat lb) = lb
          \<and> (lb \<noteq> [] \<longrightarrow> line_end (concat la'))"
        using 2 by (intro "3.IH"(2)) auto
      have "concat la' @ concat lb = d # s" using eq(1) by (metis concat_append concat_splitlines)
      then have "concat la' \<noteq> [] \<Longrightarrow> hd (concat la') = d" by (metis hd_append2 list.sel(1))
      then have "splitlines ([c] @ concat la') = splitlines [c] @ splitlines (concat la')"
        using 2 by (intro splitlines_append) (auto simp: line_end_def)
      then show ?thesis using ih eq 2 Cons by (auto simp: line_end_def)
    next
      case 3
      obtain m ms where m: "splitlines (d # s) = m # ms"
        by (metis list.exhaust splitlines_Nil_iff list.distinct(1))
      with "3.prems" Cons 3 have eq: "l = c # m" "ms = la' @ lb" by auto
      have ih: "splitlines (concat (m # la')) = m # la' \<and> splitlines (concat lb) = lb
          \<and> (lb \<noteq> [] \<longrightarrow> line_end (concat (m # la')))"
        using m eq 3 by (intro "3.IH"(3)) auto
      have "concat (m # ms) = d # s" using m by (metis concat_splitlines)
      moreover have "m \<noteq> []" using ih splitlines_no_empty by (metis list.set_intros(1))
      ultimately obtain m' where "m = d # m'" by (cases m) auto
      with ih eq Cons 3 show ?thesis by (auto simp: line_end_def)
    qed
  qed
qed simp

section \<open>Marker-free text and marked blocks\<close>

definition marker_free :: "string \<Rightarrow> bool" where
  "marker_free s \<longleftrightarrow> \<not> py_in BEGIN_MARKER s \<and> \<not> py_in END_MARKER s"

definition plain_line :: "string \<Rightarrow> bool" where
  "plain_line l \<longleftrightarrow> marker_free (rstrip_newline l)"

lemma markers:
  "BEGIN_MARKER \<noteq> []" "list_all (\<lambda>c. \<not> line_break c) BEGIN_MARKER"
  "END_MARKER \<noteq> []" "list_all (\<lambda>c. \<not> line_break c) END_MARKER"
  "\<not> py_in END_MARKER BEGIN_MARKER" "\<not> py_in BEGIN_MARKER END_MARKER"
  "END_MARKER \<noteq> BEGIN_MARKER" "hd BEGIN_MARKER \<noteq> LF"
  by code_simp+

lemma py_in_refl: "py_in s s"
  by (simp add: py_in_sublist)

lemma marker_free_lines: "marker_free s \<longleftrightarrow> list_all plain_line (splitlines s)"
  using py_in_line [OF markers(1,2), of s] py_in_line [OF markers(3,4), of s]
  unfolding marker_free_def plain_line_def list_ex_iff list_all_iff by blast

lemma marker_neq: "BEGIN_MARKER \<noteq> END_MARKER"
  using markers(7) by (rule not_sym)

lemma begin_facts: "is_begin l \<Longrightarrow> \<not> is_end l \<and> \<not> plain_line l \<and> check_marker_line l = Inr ()"
  by (simp add: is_begin_def is_end_def plain_line_def marker_free_def check_marker_line_def Let_def
      py_in_refl markers(5) marker_neq)

lemma end_facts: "is_end l \<Longrightarrow> \<not> is_begin l \<and> \<not> plain_line l \<and> check_marker_line l = Inr ()"
  by (simp add: is_begin_def is_end_def plain_line_def marker_free_def check_marker_line_def Let_def
      py_in_refl markers(6,7))

lemma check_line_ok: "check_marker_line l = Inr () \<longleftrightarrow> plain_line l \<or> is_begin l \<or> is_end l"
proof (cases "is_begin l \<or> is_end l")
  case True
  then show ?thesis using begin_facts end_facts by blast
next
  case False
  then show ?thesis
    by (simp add: check_marker_line_def Let_def plain_line_def marker_free_def is_begin_def is_end_def)
qed

lemma check_lines_ok:
  "(\<exists>u. collect check_marker_line ls = Inr u) \<longleftrightarrow> list_all (\<lambda>l. plain_line l \<or> is_begin l \<or> is_end l) ls"
  by (induction ls) (auto simp: andthen_Inr check_line_ok)

definition chop_newline :: "string \<Rightarrow> string" where
  "chop_newline s = (if s \<noteq> [] \<and> last s = LF then butlast s else s)"

definition newline_of :: "string \<Rightarrow> string" where
  "newline_of s = (if s \<noteq> [] \<and> last s = LF then [LF] else [])"

lemma chop_newline_of: "chop_newline s @ newline_of s = s"
  by (auto simp: chop_newline_def newline_of_def dest: append_butlast_last_id)

text \<open>The block of a text, as lines: begin marker, plain lines, end marker.\<close>

definition block_lines :: "string list \<Rightarrow> bool" where
  "block_lines bs \<longleftrightarrow> (\<exists>b mid e. bs = b # mid @ [e] \<and> is_begin b \<and> is_end e \<and> list_all plain_line mid)"

lemma parse_block:
  assumes lines: "splitlines text = la @ bs @ ls" and plain: "list_all plain_line la" "list_all plain_line ls"
    and "block_lines bs"
  shows "parse_managed_crontab text = Inr \<lparr>mc_prefix = chop_newline (concat la),
    mc_separator = newline_of (concat la), mc_block = Some (concat bs), mc_suffix = concat ls\<rparr>"
proof -
  obtain b mid e where bs: "bs = b # mid @ [e]" "is_begin b" "is_end e" "list_all plain_line mid"
    using assms(4) by (auto simp: block_lines_def)
  have no: "positions is_begin n xs = []" "positions is_end n xs = []" if "list_all plain_line xs" for n xs
    using that begin_facts end_facts by (auto simp: positions_Nil_iff list_all_iff)
  have pos: "positions is_begin 0 (la @ bs @ ls) = [length la]"
    "positions is_end 0 (la @ bs @ ls) = [length la + Suc (length mid)]"
    using bs plain begin_facts [of b] end_facts [of e] by (simp_all add: positions_append no)
  have "list_all (\<lambda>l. plain_line l \<or> is_begin l \<or> is_end l) (la @ bs @ ls)"
    using bs plain by (auto simp: list_all_iff)
  then obtain u where u: "collect check_marker_line (la @ bs @ ls) = Inr u"
    unfolding check_lines_ok [symmetric] by blast
  have whole: "text = concat la @ concat bs @ concat ls"
    using lines concat_splitlines [of "text"] by simp
  have off: "line_offset (la @ bs @ ls) (length la) = length (concat la)"
    "line_offset (la @ bs @ ls) (Suc (length la + Suc (length mid))) = length (concat la) + length (concat bs)"
    by (simp_all add: line_offset_def bs(1))
  have nl: "0 < length (concat la) \<and> text ! (length (concat la) - 1) = LF
      \<longleftrightarrow> concat la \<noteq> [] \<and> last (concat la) = LF"
    by (auto simp: whole nth_append last_conv_nth simp del: concat_eq_Nil_conv)
  show ?thesis
    unfolding parse_managed_crontab_def lines pos u Let_def list.sel off nl
    by (simp add: whole chop_newline_def newline_of_def butlast_conv_take)
qed

lemma parse_plain:
  "marker_free text \<Longrightarrow> parse_managed_crontab text =
     Inr \<lparr>mc_prefix = text, mc_separator = [], mc_block = None, mc_suffix = []\<rparr>"
proof -
  assume "marker_free text"
  then have p: "list_all plain_line (splitlines text)" by (simp add: marker_free_lines)
  then have "positions is_begin 0 (splitlines text) = []" "positions is_end 0 (splitlines text) = []"
    using begin_facts end_facts by (auto simp: positions_Nil_iff list_all_iff)
  moreover obtain u where "collect check_marker_line (splitlines text) = Inr u"
    using p check_lines_ok [of "splitlines text"] by (auto simp: list_all_iff)
  ultimately show ?thesis by (simp add: parse_managed_crontab_def Let_def)
qed

text \<open>Conversely, every successful parse is one of these two.\<close>

lemma parse_cases:
  assumes "parse_managed_crontab text = Inr m"
  obtains "marker_free text" and "mc_block m = None"
  | la bs ls where "splitlines text = la @ bs @ ls" "list_all plain_line la" "list_all plain_line ls"
      "block_lines bs"
proof -
  let ?lines = "splitlines text"
  obtain u where u: "collect check_marker_line ?lines = Inr u"
    using assms by (auto simp: parse_managed_crontab_def Let_def andthen_Inr)
  then have ok: "list_all (\<lambda>l. plain_line l \<or> is_begin l \<or> is_end l) ?lines"
    unfolding check_lines_ok [symmetric] by blast
  show thesis
  proof (cases "positions is_begin 0 ?lines = [] \<and> positions is_end 0 ?lines = []")
    case True
    then have "marker_free text" using ok by (auto simp: marker_free_lines positions_Nil_iff list_all_iff)
    moreover have "mc_block m = None"
      using assms True u by (auto simp: parse_managed_crontab_def Let_def)
    ultimately show thesis by (rule that(1))
  next
    case False
    obtain i j where ij: "positions is_begin 0 ?lines = [i]" "positions is_end 0 ?lines = [j]" "i < j"
      using assms False u
      by (auto simp: parse_managed_crontab_def Let_def length_Suc_conv not_le split: if_splits)
    obtain a x c where x: "?lines = a @ x # c" "is_begin x" "list_all (\<lambda>l. \<not> is_begin l) a"
      "list_all (\<lambda>l. \<not> is_begin l) c" "i = length a"
      using positions_single [OF ij(1)] by auto
    obtain a' y c' where y: "?lines = a' @ y # c'" "is_end y" "list_all (\<lambda>l. \<not> is_end l) a'"
      "list_all (\<lambda>l. \<not> is_end l) c'" "j = length a'"
      using positions_single [OF ij(2)] by auto
    have "take (Suc (length a)) a' = a @ [x]"
    proof -
      have "take (Suc (length a)) ?lines = a @ [x]" by (simp add: x(1))
      moreover have "take (Suc (length a)) ?lines = take (Suc (length a)) a'"
        using ij(3) x(5) y(5) unfolding y(1) by simp
      ultimately show ?thesis by simp
    qed
    then have a': "a' = a @ x # drop (Suc (length a)) a'" (is "_ = _ @ _ # ?mid")
      by (metis append.assoc append_Cons append_Nil append_take_drop_id)
    then have lines: "?lines = a @ (x # ?mid @ [y]) @ c'" using y(1) by simp
    then have "c = ?mid @ y # c'" using x(1) by simp
    then have nb: "list_all (\<lambda>l. \<not> is_begin l) ?mid" "list_all (\<lambda>l. \<not> is_begin l) c'" using x(4) by auto
    have ne: "list_all (\<lambda>l. \<not> is_end l) a" "list_all (\<lambda>l. \<not> is_end l) ?mid"
      using y(3) by (subst (asm) a', simp)+
    have "list_all (\<lambda>l. plain_line l \<or> is_begin l \<or> is_end l) (a @ (x # ?mid @ [y]) @ c')"
      using ok lines by simp
    then have "list_all plain_line a" "list_all plain_line c'" "list_all plain_line ?mid"
      using nb ne x(3) y(4) by (auto simp: list_all_iff)
    moreover from this have "block_lines (x # ?mid @ [y])"
      using x(2) y(2) unfolding block_lines_def by blast
    ultimately show thesis using lines that(2) by blast
  qed
qed

end
