(* ===== verification/Crontab_Merge.thy ===== *)
theory Crontab_Merge
  imports Crontab_Spec
begin

text \<open>
  Merging a well-formed fragment, the fragments that \<open>render_fragment\<close> produces, and what a
  successful reconciliation has established, whatever the \<open>crontab\<close> program does.
\<close>

section \<open>Merging\<close>

definition fragment_ok :: "string \<Rightarrow> bool" where
  "fragment_ok f \<longleftrightarrow> block_lines (splitlines f) \<and> f \<noteq> [] \<and> last f = LF"

lemma line_break_LF: "line_break LF"
  by (simp add: line_break_def code_def)

lemma splitlines_LF: "last a = LF \<Longrightarrow> a \<noteq> [] \<Longrightarrow> splitlines (a @ b) = splitlines a @ splitlines b"
  by (rule splitlines_append) (auto simp: line_end_def line_break_LF)

lemma begin_line: "is_begin l \<Longrightarrow> l \<noteq> [] \<and> hd l \<noteq> LF"
proof -
  assume "is_begin l"
  then have "prefix BEGIN_MARKER l" using rstrip_prefix [of l] by (simp add: is_begin_def)
  then show ?thesis using markers by (auto simp: prefix_def)
qed

lemma block_start: "block_lines (splitlines f) \<Longrightarrow> f \<noteq> [] \<and> hd f \<noteq> LF"
proof -
  assume "block_lines (splitlines f)"
  then obtain b bs where b: "splitlines f = b # bs" "is_begin b" by (auto simp: block_lines_def)
  then have "f = b @ concat bs" by (metis concat.simps(2) concat_splitlines)
  with begin_line [OF b(2)] show ?thesis by simp
qed

lemma splitlines_around:
  assumes "splitlines s = la @ bs @ ls" and "bs \<noteq> []" and "fragment_ok f"
  shows "splitlines (concat la @ f @ concat ls) = la @ splitlines f @ ls"
proof -
  have f: "f \<noteq> []" "last f = LF" "hd f \<noteq> LF" using assms(3) block_start by (auto simp: fragment_ok_def)
  have "splitlines s = (la @ bs) @ ls" using assms(1) by simp
  then have ls: "splitlines (concat ls) = ls" using splitlines_split by blast
  have la: "splitlines (concat la) = la" "line_end (concat la)"
    using splitlines_split [OF assms(1)] assms(2) by auto
  have "splitlines (concat la @ (f @ concat ls)) = splitlines (concat la) @ splitlines (f @ concat ls)"
    using la(2) f by (intro splitlines_append) auto
  then show ?thesis using splitlines_LF [OF f(2,1)] la ls by simp
qed

lemma free_snoc: "marker_free s \<Longrightarrow> marker_free (s @ [LF])"
proof -
  have "\<not> py_in w (s @ [LF])" if "w \<noteq> []" "list_all (\<lambda>c. \<not> line_break c) w" "\<not> py_in w s" for w
  proof
    assume "py_in w (s @ [LF])"
    then obtain a b where ab: "s @ [LF] = a @ w @ b" by (auto simp: py_in_iff)
    show False
    proof (cases b rule: rev_cases)
      case Nil
      then have "last w = LF" using ab that(1) by (metis append_Nil2 last_append snoc_eq_iff_butlast)
      then show False using that(1,2) line_break_LF by (metis last_in_set list_all_iff)
    next
      case (snoc b' x)
      then have "s = a @ w @ b'" using ab by simp
      then show False using that(3) by (auto simp: py_in_iff)
    qed
  qed
  then show "marker_free s \<Longrightarrow> marker_free (s @ [LF])" using markers by (simp add: marker_free_def)
qed

text \<open>Merging yields a text whose block is the fragment and whose user lines are unchanged.\<close>

lemma merge_parses:
  assumes m: "parse_managed_crontab current = Inr m" and f: "fragment_ok f"
  obtains new m' where "merge_managed_block current f = Inr new" and "parse_managed_crontab new = Inr m'"
    and "mc_block m' = Some f" and "without_block m' = without_block m"
    and "mc_prefix m' @ mc_separator m' @ f @ mc_suffix m' = new"
proof -
  have fb: "block_lines (splitlines f)" using f by (simp add: fragment_ok_def)
  from m show thesis
  proof (cases rule: parse_cases)
    case 1
    have mm: "m = \<lparr>mc_prefix = current, mc_separator = [], mc_block = None, mc_suffix = []\<rparr>"
      using parse_plain [OF 1(1)] m by simp
    define a where "a = (if current = [] then [] else current @ [LF])"
    have new: "merge_managed_block current f = Inr (a @ f)"
      using m mm by (simp add: merge_managed_block_def a_def)
    have "splitlines (a @ f) = splitlines a @ splitlines f"
      using splitlines_LF [of a f] by (auto simp: a_def)
    moreover have "list_all plain_line (splitlines a)"
      using 1(1) free_snoc by (auto simp: a_def marker_free_lines [symmetric])
    ultimately have p: "parse_managed_crontab (a @ f) = Inr \<lparr>mc_prefix = chop_newline a,
        mc_separator = newline_of a, mc_block = Some f, mc_suffix = []\<rparr>"
      using parse_block [of "a @ f" "splitlines a" "splitlines f" "[]"] fb by simp
    have "chop_newline a = current" by (auto simp: a_def chop_newline_def)
    then show thesis
      using chop_newline_of [of a] by (intro that [OF new p]) (simp_all add: without_block_def mm)
  next
    case (2 la bs ls)
    have mm: "m = \<lparr>mc_prefix = chop_newline (concat la), mc_separator = newline_of (concat la),
        mc_block = Some (concat bs), mc_suffix = concat ls\<rparr>"
      using parse_block [OF 2] m by simp
    have new: "merge_managed_block current f = Inr (concat la @ f @ concat ls)"
      using m mm chop_newline_of [of "concat la"] by (simp add: merge_managed_block_def append.assoc [symmetric] del: append_assoc)
    have "bs \<noteq> []" using 2(4) by (auto simp: block_lines_def)
    from parse_block [OF splitlines_around [OF 2(1) this f] 2(2,3) fb]
    have p: "parse_managed_crontab (concat la @ f @ concat ls) = Inr (m\<lparr>mc_block := Some f\<rparr>)"
      by (simp add: mm)
    have "(chop_newline (concat la) @ newline_of (concat la)) @ f @ concat ls = concat la @ f @ concat ls"
      by (simp only: chop_newline_of)
    then show thesis by (intro that [OF new p]) (simp_all add: without_block_def mm)
  qed
qed

lemma merge_again:
  assumes "merge_managed_block current f = Inr new" and f: "fragment_ok f"
  shows "merge_managed_block new f = Inr new"
proof -
  obtain m where m: "parse_managed_crontab current = Inr m"
    using assms(1) by (auto simp: merge_managed_block_def andthen_Inr)
  obtain new' m' where "merge_managed_block current f = Inr new'" "parse_managed_crontab new' = Inr m'"
    "mc_block m' = Some f" "mc_prefix m' @ mc_separator m' @ f @ mc_suffix m' = new'"
    by (rule merge_parses [OF m f])
  then show ?thesis using assms(1) by (simp add: merge_managed_block_def)
qed

text \<open>The parts of a parse make up the text.\<close>

lemma parse_parts:
  assumes "parse_managed_crontab s = Inr m"
  shows "s = mc_prefix m @ mc_separator m @ (case mc_block m of None \<Rightarrow> [] | Some b \<Rightarrow> b) @ mc_suffix m"
  using assms
proof (cases rule: parse_cases)
  case 1
  then show ?thesis using parse_plain [OF 1(1)] assms by simp
next
  case (2 la bs ls)
  have "s = concat la @ concat bs @ concat ls"
    using 2(1) by (metis concat_append concat_splitlines)
  moreover have "concat la = mc_prefix m @ mc_separator m" "mc_block m = Some (concat bs)"
    "mc_suffix m = concat ls"
    using parse_block [OF 2] assms chop_newline_of [of "concat la"] by auto
  ultimately show ?thesis by simp
qed

section \<open>Rendered fragments\<close>

lemma py_in_skip:
  assumes "hd w \<notin> set x" and "w \<noteq> []"
  shows "py_in w (x @ y) \<longleftrightarrow> py_in w y"
  using assms by (induction x) (auto simp: py_in_sublist sublist_Cons_right prefix_def neq_Nil_conv Cons_eq_append_conv)

lemma py_in_break:
  assumes "q \<notin> set w" and "w \<noteq> []"
  shows "py_in w (x @ q # y) \<longleftrightarrow> py_in w x \<or> py_in w y"
proof
  assume "py_in w (x @ q # y)"
  then obtain a b where ab: "x @ q # y = a @ w @ b" by (auto simp: py_in_iff)
  show "py_in w x \<or> py_in w y"
  proof (cases "length a \<le> length x")
    case True
    then obtain x' where x': "x = a @ x'" using ab by (auto simp: append_eq_append_conv2)
    with ab have e: "x' @ q # y = w @ b" by simp
    have "length w \<le> length x'"
    proof (rule ccontr)
      assume "\<not> length w \<le> length x'"
      then have "(w @ b) ! length x' = w ! length x'" "length x' < length w" by (simp_all add: nth_append)
      moreover have "(w @ b) ! length x' = q" using e [symmetric] by simp
      ultimately show False using assms(1) nth_mem by metis
    qed
    then have "take (length w) x' = w" using e by (metis append_eq_conv_conj take_append append_Nil2
          diff_is_0_eq take0)
    then show ?thesis using x' by (auto simp: py_in_iff) (metis append_take_drop_id)
  next
    case False
    have "take (Suc (length x)) (x @ q # y) = x @ [q]" by simp
    moreover have "take (Suc (length x)) (x @ q # y) = take (Suc (length x)) a"
      unfolding ab using False by simp
    ultimately obtain a' where "a = (x @ [q]) @ a'" by (metis append_take_drop_id)
    with ab have "y = a' @ w @ b" by simp
    then show ?thesis by (auto simp: py_in_iff)
  qed
next
  assume "py_in w x \<or> py_in w y"
  then show "py_in w (x @ q # y)"
    by (auto simp: py_in_iff) (metis append_Cons append_assoc)+
qed

lemma py_in_inside:
  assumes "py_in w (concat (map g s))" and "w \<noteq> []"
    and g: "\<And>c. g c = [c] \<or> g c \<noteq> [] \<and> set (g c) \<inter> set w = {}"
  shows "py_in w s"
proof -
  have start: "prefix w' s" if "prefix w' (concat (map g s))" "set w' \<subseteq> set w" for w' s
    using that
  proof (induction s arbitrary: w')
    case (Cons c cs)
    show ?case
    proof (cases w')
      case (Cons x w'')
      consider "g c = [c]" | d ds where "g c = d # ds" "d \<notin> set w"
        using g [of c] by (cases "g c") auto
      then show ?thesis
      proof cases
        case 1
        then show ?thesis using Cons.prems Cons.IH [of w''] \<open>w' = x # w''\<close> by auto
      next
        case 2
        then show ?thesis using Cons.prems \<open>w' = x # w''\<close> by auto
      qed
    qed simp
  qed simp
  from assms(1) show ?thesis
  proof (induction s)
    case Nil
    then show ?case using assms(2) by simp
  next
    case (Cons c cs)
    consider "g c = [c]" | "set (g c) \<inter> set w = {}" using g by blast
    then show ?case
    proof cases
      case 1
      then have "prefix w (c # concat (map g cs)) \<or> py_in w (concat (map g cs))"
        using Cons.prems by (auto simp: py_in_sublist sublist_Cons_right)
      then show ?thesis
        using start [of w "c # cs"] 1 Cons.IH by (auto simp: py_in_sublist sublist_Cons_right)
    next
      case 2
      then have "hd w \<notin> set (g c)" using assms(2) by (metis disjoint_iff hd_in_set)
      then show ?thesis using py_in_skip [of w "g c"] assms(2) Cons by auto
    qed
  qed
qed

definition quote_char :: "char \<Rightarrow> string" where
  "quote_char c = (if c = CHR 0x27 then [CHR 0x27, CHR 0x22, CHR 0x27, CHR 0x22, CHR 0x27]
     else if c = CHR ''%'' then [CHR 0x5C, CHR ''%''] else [c])"

lemma quoted_form:
  "escape_percent (shlex_quote s) = escape_percent s \<and> list_all shell_safe s \<and> s \<noteq> []
   \<or> escape_percent (shlex_quote s) = CHR 0x27 # concat (map quote_char s) @ [CHR 0x27]"
proof (cases "s = [] \<or> \<not> list_all shell_safe s")
  case True
  have "escape_percent (concat (map (\<lambda>c. if c = CHR 0x27
      then [CHR 0x27, CHR 0x22, CHR 0x27, CHR 0x22, CHR 0x27] else [c]) s)) = concat (map quote_char s)"
    by (induction s) (auto simp: escape_percent_def quote_char_def)
  then show ?thesis using True by (auto simp: shlex_quote_def escape_percent_def)
qed (simp add: shlex_quote_def)

text \<open>A quoted atom may be put before any text: it neither holds nor completes a marker.\<close>

definition inert :: "string \<Rightarrow> bool" where
  "inert q \<longleftrightarrow> (\<forall>w y. w = BEGIN_MARKER \<or> w = END_MARKER \<longrightarrow> py_in w (q @ y) \<longrightarrow> py_in w y)"

lemma marker_chars:
  "w = BEGIN_MARKER \<or> w = END_MARKER \<Longrightarrow> w \<noteq> [] \<and> hd w = CHR ''#''
     \<and> set w \<inter> {CHR 0x27, CHR 0x22, CHR 0x5C, CHR ''%''} = {}"
  by (auto simp: BEGIN_MARKER_def END_MARKER_def)

lemma inert_plain: "CHR ''#'' \<notin> set q \<Longrightarrow> inert q"
  using marker_chars py_in_skip by (auto simp: inert_def)

lemma inert_append: "inert p \<Longrightarrow> inert q \<Longrightarrow> inert (p @ q)"
  unfolding inert_def append_assoc by blast

lemma inert_free: "inert q \<Longrightarrow> marker_free q"
  using markers unfolding inert_def marker_free_def by (metis append_Nil2 py_in.simps(1))

lemma hash_unsafe: "\<not> shell_safe (CHR ''#'')"
  by (simp add: shell_safe_def is_lower_letter_def is_digit_def code_def)

lemma quoted_inert:
  assumes "marker_free s"
  shows "inert (escape_percent (shlex_quote s))"
  using quoted_form [of s]
proof
  assume q: "escape_percent (shlex_quote s) = escape_percent s \<and> list_all shell_safe s \<and> s \<noteq> []"
  then have "CHR ''#'' \<notin> set (escape_percent s)"
    using hash_unsafe by (auto simp: escape_percent_def list_all_iff split: if_splits)
  with q show ?thesis by (simp add: inert_plain)
next
  assume q: "escape_percent (shlex_quote s) = CHR 0x27 # concat (map quote_char s) @ [CHR 0x27]"
  have "py_in w y" if w: "w = BEGIN_MARKER \<or> w = END_MARKER"
    and p: "py_in w ((CHR 0x27 # concat (map quote_char s) @ [CHR 0x27]) @ y)" for w y
  proof -
    note mc = marker_chars [OF w]
    have "py_in w ([CHR 0x27] @ concat (map quote_char s) @ CHR 0x27 # y)" using p by simp
    then have "py_in w (concat (map quote_char s) @ CHR 0x27 # y)"
      using mc by (subst (asm) py_in_skip) auto
    then have "py_in w (concat (map quote_char s)) \<or> py_in w y"
      using mc by (subst (asm) py_in_break) auto
    moreover have "quote_char c = [c] \<or> quote_char c \<noteq> [] \<and> set (quote_char c) \<inter> set w = {}" for c
      using mc by (auto simp: quote_char_def)
    then have "\<not> py_in w (concat (map quote_char s))"
      using py_in_inside [of w quote_char s] mc w assms unfolding marker_free_def by blast
    ultimately show ?thesis by blast
  qed
  then show ?thesis unfolding q inert_def by blast
qed

lemma cron_quote_inert: "cron_quote v = Inr q \<Longrightarrow> marker_free v \<Longrightarrow> inert q"
  by (auto simp: cron_quote_def quoted_inert split: if_splits)

lemma no_hash_free: "CHR ''#'' \<notin> set v \<Longrightarrow> marker_free v"
  by (rule inert_free) (rule inert_plain)

lemma inert_join: "list_all inert ws \<Longrightarrow> CHR ''#'' \<notin> set sep \<Longrightarrow> inert (join sep ws)"
proof (induction sep ws rule: join.induct)
  case (1 sep)
  then show ?case by (simp add: inert_def)
next
  case (3 sep x y xs)
  then show ?case by (simp add: inert_append inert_plain)
qed simp

text \<open>A validated schedule, as far as its rendering depends on it.\<close>

definition renderable :: "schedule_spec \<Rightarrow> bool" where
  "renderable s \<longleftrightarrow> cron_ok (sc_cron s) \<and> hex_id ''sched_'' 24 (sc_id s) \<and> scope_ok (sc_profile_scope s)"

lemma profile_no_hash: "profile_name_re p \<Longrightarrow> CHR ''#'' \<notin> set p"
  using profile_name_chars [of p "CHR ''#''"]
  by (auto simp: is_profile_char_def is_lower_letter_def is_digit_def code_def)

lemma hex_no_hash: "hex_id p n s \<Longrightarrow> CHR ''#'' \<notin> set p \<Longrightarrow> CHR ''#'' \<notin> set s"
proof -
  assume h: "hex_id p n s" and p: "CHR ''#'' \<notin> set p"
  then have "s = p @ drop (length p) s" "list_all is_hex (drop (length p) s)"
    by (auto simp: hex_id_def strip_prefix_def split: if_splits) (metis append_take_drop_id)
  moreover have "\<not> is_hex (CHR ''#'')" by (simp add: is_hex_def is_digit_def code_def)
  ultimately show ?thesis using p by (metis Un_iff list_all_iff set_append)
qed

lemma atom_free: "command_atom a = Inr b \<Longrightarrow> b = a \<and> marker_free a"
  by (auto simp: command_atom_def marker_free_def split: if_splits)

lemma command_free:
  assumes "renderable s" and "marker_free executable" and "marker_free project"
  shows "list_all marker_free (schedule_command executable project s)"
proof -
  have "profile_name_re p" if "p \<in> set (profiles (sc_profile_scope s))" for p
    using that assms(1) by (auto simp: renderable_def scope_ok_def dest!: canonical_names simp: list_all_iff)
  moreover have "primary (sc_profile_scope s) \<in> set (profiles (sc_profile_scope s))"
    using assms(1) by (simp add: renderable_def scope_ok_def)
  moreover have "CHR ''#'' \<notin> set (sc_id s)" using assms(1) hex_no_hash by (auto simp: renderable_def)
  ultimately show ?thesis
    using assms(2,3) profile_no_hash by (auto simp: schedule_command_def list_all_iff no_hash_free)
qed

lemma cron_no_hash: "cron_ok c \<Longrightarrow> CHR ''#'' \<notin> set c"
  by (auto simp: cron_ok_def list_all_iff)

lemma render_line_free:
  assumes "renderable s" and "marker_free executable" and "render_line executable log_dir s = Inr l"
  shows "marker_free l"
proof -
  obtain project log quoted quoted_log where
    p: "command_atom (path_str (sc_project_root s)) = Inr project"
    and lg: "command_atom (path_str (log_dir @ ''/'' @ sc_id s @ ''.log'')) = Inr log"
    and q: "collect cron_quote (schedule_command executable project s) = Inr quoted"
    and ql: "cron_quote log = Inr quoted_log"
    and l: "l = sc_cron s @ '' umask 077; : > '' @ quoted_log @ ''; '' @ join '' '' quoted @ '' >> ''
            @ quoted_log @ '' 2>&1''"
    using assms(3) by (auto simp: render_line_def andthen_Inr)
  have free: "marker_free project" "marker_free log" using atom_free [OF p] atom_free [OF lg] by auto
  have "list_all inert quoted"
    using q command_free [OF assms(1,2) free(1)] cron_quote_inert
    by (auto simp: collect_Inr list_all2_conv_all_nth list_all_length)
  then have "inert (join '' '' quoted)" by (rule inert_join) simp
  moreover have "inert quoted_log" using ql free(2) by (rule cron_quote_inert)
  moreover have "inert (sc_cron s)"
    using assms(1) by (intro inert_plain cron_no_hash) (simp add: renderable_def)
  ultimately have "inert l" unfolding l by (intro inert_append) (simp_all add: inert_plain)
  then show ?thesis by (rule inert_free)
qed

lemma splitlines_unlines:
  "splitlines (concat (map (\<lambda>l. l @ [LF]) ls) @ s) = concat (map (\<lambda>l. splitlines (l @ [LF])) ls) @ splitlines s"
proof (induction ls)
  case (Cons l ls)
  have "splitlines ((l @ [LF]) @ (concat (map (\<lambda>l. l @ [LF]) ls) @ s))
      = splitlines (l @ [LF]) @ splitlines (concat (map (\<lambda>l. l @ [LF]) ls) @ s)"
    by (rule splitlines_LF) simp_all
  with Cons show ?case by simp
qed simp

lemma join_newline: "join [LF] (ls @ [e]) @ [LF] = concat (map (\<lambda>l. l @ [LF]) ls) @ e @ [LF]"
proof (induction ls)
  case (Cons l ls)
  then show ?case by (cases ls) simp_all
qed simp

lemma marker_lines:
  "splitlines (BEGIN_MARKER @ [LF]) = [BEGIN_MARKER @ [LF]]" "is_begin (BEGIN_MARKER @ [LF])"
  "splitlines (END_MARKER @ [LF]) = [END_MARKER @ [LF]]" "is_end (END_MARKER @ [LF])"
  by code_simp+

lemma render_ok:
  assumes r: "render_fragment executable log_dir ss = Inr f" and ok: "list_all renderable ss"
  shows "fragment_ok f"
proof -
  obtain lines where e: "marker_free executable"
    and c: "collect (render_line executable log_dir) (sort_key sc_id ss) = Inr lines"
    and f: "f = join [LF] ((BEGIN_MARKER # lines) @ [END_MARKER]) @ [LF]"
    using r atom_free by (auto simp: render_fragment_def andthen_Inr)
  have "marker_free l" if l: "l \<in> set lines" for l
  proof -
    obtain s where "s \<in> set ss" "render_line executable log_dir s = Inr l"
      using collect_mem [OF c l] by auto
    then show ?thesis using ok e render_line_free by (auto simp: list_all_iff)
  qed
  then have plain: "list_all plain_line (concat (map (\<lambda>l. splitlines (l @ [LF])) lines))"
    using free_snoc by (auto simp: list_all_iff marker_free_lines)
  have "f = concat (map (\<lambda>l. l @ [LF]) (BEGIN_MARKER # lines)) @ END_MARKER @ [LF]"
    unfolding f by (rule join_newline)
  then have "splitlines f = (BEGIN_MARKER @ [LF])
      # concat (map (\<lambda>l. splitlines (l @ [LF])) lines) @ [END_MARKER @ [LF]]"
    using splitlines_unlines [of "BEGIN_MARKER # lines" "END_MARKER @ [LF]"] by (simp add: marker_lines)
  then have "block_lines (splitlines f)" using plain marker_lines(2,4) unfolding block_lines_def by blast
  then show ?thesis by (simp add: fragment_ok_def f)
qed

section \<open>Reconciliation\<close>

lemma install_ok:
  assumes "install_and_verify prog desired fragment uninstall h = (h', Inr installed)"
  shows "installed = desired \<and> (\<exists>p. parse_managed_crontab desired = Inr p
    \<and> mc_block p = (if uninstall then None else fragment)) \<and> (\<exists>h0. cron_read prog h0 = (h', Inr desired))
    \<and> cron_backups h' = cron_backups h \<and> fragment_file h' = fragment_file h"
proof -
  have read: "cron_backups t' = cron_backups t \<and> fragment_file t' = fragment_file t"
    if "cron_read prog t = (t', r)" for t t' r
    using that by (auto simp: cron_read_def call_program_def op_defs split: prod.splits option.splits sum.splits if_splits)
  from assms obtain h1 p where "cron_read prog h1 = (h', Inr installed)" "installed = desired"
    "parse_managed_crontab desired = Inr p" "mc_block p = (if uninstall then None else fragment)"
    "cron_backups h1 = cron_backups h" "fragment_file h1 = fragment_file h"
    by (auto simp: install_and_verify_def op_ok call_program_def split: prod.splits option.splits if_splits)
  with read show ?thesis by metis
qed

end
