(* ===== verification/Schedule_Properties.thy ===== *)
theory Schedule_Properties
  imports Schedule_Lifecycle Crontab_Merge "HOL-Library.Code_Target_Numeral"
begin

text \<open>The properties of managed schedules and of the crontab block, each with a concrete instance.\<close>

section \<open>Cron expressions\<close>

text \<open>
  An accepted cron expression is in normal form and stays accepted unchanged; it has five fields
  whose numbers, ranges and steps lie within the limits of their position, and none of the characters
  that would end or comment out a crontab line.
\<close>

theorem cron_expression_validated:
  assumes "validate_cron_expression s = Inr t"
  shows "validate_cron_expression t = Inr t \<and> py_split t = py_split s
    \<and> list_all (\<lambda>(f, l). list_all (cron_component_ok l) (split_on (\<lambda>c. c = CHR '','') f)) (zip (py_split t) CRON_LIMITS)
    \<and> length (py_split t) = 5
    \<and> \<not> list_ex (\<lambda>c. is_control c \<or> c \<in> set ''#=%'') t"
proof -
  have ok: "cron_ok t" "py_split t = py_split s" using validate_cron_ok [OF assms] by auto
  have "\<not> list_ex (\<lambda>c. is_control c \<or> c \<in> set ''#=%'') t"
    using ok(1) unfolding cron_ok_def list_all_iff list_ex_iff by auto
  then show ?thesis
    using ok validate_cron_fix [OF ok(1)] by (simp add: cron_ok_def cron_field_ok_def [abs_def])
qed

theorem cron_expression_validated_witness:
  "validate_cron_expression ''0,30  9-17/2 * * 1-5'' = Inr ''0,30 9-17/2 * * 1-5''
   \<and> validate_cron_expression ''0,30 9-17/2 * * 1-5'' = Inr ''0,30 9-17/2 * * 1-5''"
proof -
  have v: "validate_cron_expression ''0,30  9-17/2 * * 1-5'' = Inr ''0,30 9-17/2 * * 1-5''" by code_simp
  then show ?thesis using cron_expression_validated [OF v] by blast
qed

section \<open>The user's crontab\<close>

definition sample_schedule :: schedule_spec where
  "sample_schedule = \<lparr>sc_id = ''sched_00112233445566778899aabb'', sc_job_name = ''shared/brief'',
     sc_cron = ''0 9 * * *'', sc_enabled = True, sc_project_root = ''/srv/it's 5% # off'',
     sc_profile_scope = \<lparr>primary = ''shared'', profiles = [''shared'']\<rparr>,
     sc_approved_spec_digest = replicate 64 (CHR ''a''),
     sc_approved_runtime_policy_digest = replicate 64 (CHR ''b''),
     sc_approved_authority = None, sc_approved_cron = Some ''0 9 * * *'', sc_created_at = 5, sc_updated_at = 5\<rparr>"

definition sample_fragment :: string where
  "sample_fragment = (case render_fragment ''/usr/bin/ricky'' ''/home/u/.ricky/cron/logs'' [sample_schedule] of
     Inl e \<Rightarrow> [] | Inr f \<Rightarrow> f)"

lemma sample_render:
  "render_fragment ''/usr/bin/ricky'' ''/home/u/.ricky/cron/logs'' [sample_schedule] = Inr sample_fragment"
  "list_all renderable [sample_schedule]"
proof -
  have "case render_fragment ''/usr/bin/ricky'' ''/home/u/.ricky/cron/logs'' [sample_schedule] of
    Inl e \<Rightarrow> False | Inr f \<Rightarrow> True" by code_simp
  then show "render_fragment ''/usr/bin/ricky'' ''/home/u/.ricky/cron/logs'' [sample_schedule] = Inr sample_fragment"
    by (auto simp: sample_fragment_def split: sum.splits)
  show "list_all renderable [sample_schedule]" by code_simp
qed

text \<open>
  C25: installing the rendered schedules into any parseable crontab replaces Ricky's block and nothing
  else: the result parses, its block is exactly the fragment, the user's own text is unchanged, and
  installing the same fragment again changes nothing.
\<close>

theorem crontab_merge_preserves_user_text:
  assumes "render_fragment executable log_dir ss = Inr f" and "list_all renderable ss"
    and "parse_managed_crontab current = Inr m"
  shows "\<exists>new m'. merge_managed_block current f = Inr new \<and> parse_managed_crontab new = Inr m'
    \<and> mc_block m' = Some f \<and> without_block m' = without_block m \<and> merge_managed_block new f = Inr new"
proof -
  note f = render_ok [OF assms(1,2)]
  obtain new m' where r: "merge_managed_block current f = Inr new" "parse_managed_crontab new = Inr m'"
    "mc_block m' = Some f" "without_block m' = without_block m"
    by (rule merge_parses [OF assms(3) f])
  then show ?thesis using merge_again [OF r(1) f] by blast
qed

theorem crontab_merge_preserves_user_text_witness:
  "\<exists>new m'. merge_managed_block ''5 * * * * backup'' sample_fragment = Inr new
    \<and> parse_managed_crontab new = Inr m' \<and> mc_block m' = Some sample_fragment
    \<and> without_block m' = ''5 * * * * backup''"
proof -
  have "parse_managed_crontab ''5 * * * * backup'' = Inr \<lparr>mc_prefix = ''5 * * * * backup'',
    mc_separator = [], mc_block = None, mc_suffix = []\<rparr>" by code_simp
  from crontab_merge_preserves_user_text [OF sample_render this] show ?thesis
    by (auto simp: without_block_def)
qed

text \<open>
  Uninstalling undoes an installation exactly: after the rendered schedules were installed into a
  crontab without markers, removing the block gives back the user's text, character for character.
\<close>

theorem crontab_install_uninstall:
  assumes "render_fragment executable log_dir ss = Inr f" and "list_all renderable ss"
    and "marker_free current" and "merge_managed_block current f = Inr new"
  shows "\<exists>m. parse_managed_crontab new = Inr m \<and> without_block m = current"
  using assms(4) merge_parses [OF parse_plain [OF assms(3)] render_ok [OF assms(1,2)]]
  by (metis (no_types, lifting) append_Nil2 managed_crontab.select_convs(1,4) sum.inject(2) without_block_def)

theorem crontab_install_uninstall_witness:
  "\<exists>new m. merge_managed_block ''MAILTO=me'' sample_fragment = Inr new
    \<and> parse_managed_crontab new = Inr m \<and> without_block m = ''MAILTO=me''"
proof -
  have free: "marker_free ''MAILTO=me''" by code_simp
  obtain new where new: "merge_managed_block ''MAILTO=me'' sample_fragment = Inr new"
    using crontab_merge_preserves_user_text [OF sample_render parse_plain [OF free]] by blast
  from crontab_install_uninstall [OF sample_render free new] new show ?thesis by blast
qed

text \<open>
  Removing a block that stands directly between two lines of the user joins them: the newline
  before the block is dropped with it, so the last line before and the first line after become one.
\<close>

theorem crontab_uninstall_joins_lines:
  assumes "render_fragment executable log_dir ss = Inr f" and "list_all renderable ss"
    and "marker_free before" and "marker_free after"
  shows "\<exists>m. parse_managed_crontab (before @ [LF] @ f @ after) = Inr m \<and> without_block m = before @ after"
proof -
  note f = render_ok [OF assms(1,2)]
  define la where "la = splitlines (before @ [LF])"
  have f': "f \<noteq> []" "last f = LF" "block_lines (splitlines f)" using f by (auto simp: fragment_ok_def)
  have "splitlines ((before @ [LF]) @ f @ after) = la @ splitlines f @ splitlines after"
    unfolding la_def using splitlines_LF [of "before @ [LF]" "f @ after"] splitlines_LF [OF f'(2,1), of after] by simp
  then have "splitlines (before @ [LF] @ f @ after) = la @ splitlines f @ splitlines after" by simp
  from parse_block [OF this _ _ f'(3)]
  have "parse_managed_crontab (before @ [LF] @ f @ after) = Inr \<lparr>mc_prefix = chop_newline (before @ [LF]),
      mc_separator = newline_of (before @ [LF]), mc_block = Some f, mc_suffix = after\<rparr>"
    using assms(3,4) free_snoc by (auto simp: la_def marker_free_lines)
  then show ?thesis by (simp add: without_block_def chop_newline_def)
qed

theorem crontab_uninstall_joins_lines_witness:
  "\<exists>m. parse_managed_crontab (''0 1 * * * a'' @ [LF] @ sample_fragment @ ''0 2 * * * b'') = Inr m
    \<and> without_block m = ''0 1 * * * a0 2 * * * b''"
proof -
  have free: "marker_free ''0 1 * * * a''" "marker_free ''0 2 * * * b''" by code_simp+
  from crontab_uninstall_joins_lines [OF sample_render free] show ?thesis by simp
qed

text \<open>
  C26: a synchronisation that returns has verified its result, whatever the crontab program does: the
  last listing of the crontab equals the user's text with exactly the rendered block, and the previous
  crontab is in the backups whenever it was changed.  When the crontab already is as it should be,
  the only thing written after it was listed is the fragment file: neither the crontab nor a backup is.
\<close>

theorem cron_sync_verified:
  assumes "render_fragment executable log_dir ss = Inr f" and "list_all renderable ss"
    and "cron_sync prog path f h = (h', Inr r)"
  shows "\<exists>h0 h1 current m m'. cron_read prog h = (h0, Inr current) \<and> parse_managed_crontab current = Inr m
    \<and> merge_managed_block current f = Inr (ca_installed_text r)
    \<and> parse_managed_crontab (ca_installed_text r) = Inr m' \<and> mc_block m' = Some f
    \<and> without_block m' = without_block m \<and> fragment_file h' = Some f
    \<and> (if ca_installed_text r = current then \<not> ca_changed r \<and> h' = h0\<lparr>fragment_file := Some f\<rparr>
       else ca_changed r \<and> cron_backups h' = cron_backups h0 @ [(path, current)]
         \<and> cron_read prog h1 = (h', Inr (ca_installed_text r)))"
proof -
  note f = render_ok [OF assms(1,2)]
  obtain h0 current m desired where c: "cron_read prog h = (h0, Inr current)"
    "parse_managed_crontab current = Inr m" "merge_managed_block current f = Inr desired"
    and rest: "(if desired = current then ret \<lparr>ca_changed = False, ca_backup_path = None, ca_installed_text = current\<rparr>
       else bind (writes (\<lambda>h. h\<lparr>cron_backups := cron_backups h @ [(path, current)]\<rparr>)) (\<lambda>_.
         bind (install_and_verify prog desired (Some f) False) (\<lambda>installed.
           ret \<lparr>ca_changed = True, ca_backup_path = Some path, ca_installed_text = installed\<rparr>)))
       (h0\<lparr>fragment_file := Some f\<rparr>) = (h', Inr r)"
    using assms(3) by (auto simp: cron_sync_def reconcile_def op_ok)
  obtain m' where m': "parse_managed_crontab desired = Inr m'" "mc_block m' = Some f"
    "without_block m' = without_block m"
    using merge_parses [OF c(2) f] c(3) by (metis sum.inject(2))
  show ?thesis
  proof (cases "desired = current")
    case True
    with rest have "r = \<lparr>ca_changed = False, ca_backup_path = None, ca_installed_text = current\<rparr>"
      "h' = h0\<lparr>fragment_file := Some f\<rparr>" by (auto simp: op_ok)
    with c m' True show ?thesis by auto
  next
    case False
    then obtain installed where i: "install_and_verify prog desired (Some f) False
        (h0\<lparr>fragment_file := Some f, cron_backups := cron_backups h0 @ [(path, current)]\<rparr>) = (h', Inr installed)"
      and r: "r = \<lparr>ca_changed = True, ca_backup_path = Some path, ca_installed_text = installed\<rparr>"
      using rest by (auto simp: op_ok)
    from install_ok [OF i] obtain h1 where "installed = desired" "cron_read prog h1 = (h', Inr desired)"
      "cron_backups h' = cron_backups h0 @ [(path, current)]" "fragment_file h' = Some f" by auto
    with r c m' False show ?thesis by auto
  qed
qed

text \<open>A crontab program that stores what it is given.\<close>

definition plain_program :: "string crontab_program" where
  "plain_program = \<lparr>run_list = \<lambda>w. (w, Some \<lparr>returncode = 0, stdout = w, stderr = []\<rparr>),
     run_install = \<lambda>new w. (new, Some \<lparr>returncode = 0, stdout = [], stderr = []\<rparr>)\<rparr>"

definition sample_host :: "string cron_host" where
  "sample_host = \<lparr>world = ''MAILTO=me'', fragment_file = None, cron_backups = []\<rparr>"

theorem cron_sync_verified_witness:
  "\<exists>h' r. cron_sync plain_program ''b1'' sample_fragment sample_host = (h', Inr r)
    \<and> cron_backups h' = [(''b1'', ''MAILTO=me'')]"
proof -
  have rd: "cron_read plain_program h = (h, Inr (world h))" for h
    by (simp add: cron_read_def plain_program_def call_program_def op_defs)
  have inst: "call_program (run_install plain_program x) e h
      = (h\<lparr>world := x\<rparr>, Inr \<lparr>returncode = 0, stdout = [], stderr = []\<rparr>)" for x e h
    by (simp add: plain_program_def call_program_def)
  have free: "marker_free ''MAILTO=me''" by code_simp
  note p = parse_plain [OF free]
  obtain new m' where new: "merge_managed_block ''MAILTO=me'' sample_fragment = Inr new"
    "parse_managed_crontab new = Inr m'" "mc_block m' = Some sample_fragment"
    by (rule merge_parses [OF p render_ok [OF sample_render]])
  have "new \<noteq> ''MAILTO=me''" using new(2,3) p by auto
  then obtain h' r where run: "cron_sync plain_program ''b1'' sample_fragment sample_host = (h', Inr r)"
    and r: "ca_installed_text r = new"
    using new p
    by (simp add: cron_sync_def reconcile_def install_and_verify_def op_defs sample_host_def rd inst)
  from cron_sync_verified [OF sample_render run] run rd r \<open>new \<noteq> ''MAILTO=me''\<close> show ?thesis
    by (auto simp: sample_host_def)
qed

section \<open>The registry\<close>

type_synonym schedule_history = "(instant \<times> profile_scope \<times> schedule_call) list"

fun schedule_run ::
  "schedule_env \<Rightarrow> (string \<Rightarrow> string) \<Rightarrow> schedule_history \<Rightarrow> schedule_file \<Rightarrow> schedule_file" where
  "schedule_run env resolve [] reg = reg"
| "schedule_run env resolve ((now, scope, c) # cs) reg =
     schedule_run env resolve cs (schedule_exec env resolve scope now c reg)"

definition registry_inv :: "(string \<Rightarrow> string) \<Rightarrow> instant \<Rightarrow> schedule_file \<Rightarrow> bool" where
  "registry_inv resolve now reg \<longleftrightarrow> file_ok resolve reg \<and> (\<forall>s \<in> set (entries reg). sc_updated_at s \<le> now)"

lemma step_inv:
  assumes "schedule_step resolve scope now reg reg'" and "registry_inv resolve before reg" and "before \<le> now"
  shows "registry_inv resolve now reg'"
proof -
  have fo: "file_ok resolve reg" and t: "\<forall>s \<in> set (entries reg). sc_updated_at s \<le> now"
    using assms(2,3) by (auto simp: registry_inv_def)
  from assms(1) show ?thesis
  proof cases
    case (change s c d p a e auth)
    have ok: "schedule_ok resolve s" using fo change(2) by (auto simp: file_ok_entries list_all_iff)
    then have "sc_created_at s \<le> now" using t change(2) by (fastforce simp: schedule_ok_def)
    then have "schedule_ok resolve (revised c e d p auth a now s)"
      using ok change by (intro revised_ok) auto
    then show ?thesis
      using fo t change put_file_ok put_entries [OF fo change(2), of "revised c e d p auth a now s"]
      by (auto simp: registry_inv_def)
  next
    case (add s)
    have "file_ok resolve (Some (sort_key sc_id (entries reg @ [s])))"
      using fo add by (intro file_ok_sorted) (auto simp: file_ok_entries)
    then show ?thesis using t add by (auto simp: registry_inv_def entries_def)
  next
    case (del s)
    have "file_ok resolve (Some (sort_key sc_id (filter (\<lambda>i. sc_id i \<noteq> sc_id s) (entries reg))))"
      using fo by (intro file_ok_sorted) (auto simp: file_ok_entries list_all_iff distinct_map_filter)
    then show ?thesis using t del by (auto simp: registry_inv_def entries_def)
  qed (use fo t in \<open>simp add: registry_inv_def\<close>)
qed

lemma run_inv:
  "digests_ok env \<Longrightarrow> registry_inv resolve start reg \<Longrightarrow> sorted (map fst cs) \<Longrightarrow> \<forall>c \<in> set cs. start \<le> fst c \<Longrightarrow>
     \<exists>now. registry_inv resolve now (schedule_run env resolve cs reg)"
proof (induction cs arbitrary: start reg)
  case (Cons c cs)
  obtain now scope call where c: "c = (now, scope, call)" by (cases c) auto
  have "registry_inv resolve now (schedule_exec env resolve scope now call reg)"
    using Cons.prems c by (intro step_inv [OF schedule_exec_step]) (auto simp: registry_inv_def)
  with Cons c show ?case by auto
qed auto

text \<open>
  As long as the clock does not run back, the registry the service writes can always be read
  again: after any sequence of calls every entry validates unchanged and the ids are unique.
\<close>

theorem schedule_registry_readable:
  assumes "digests_ok env" and "sorted (map fst cs)"
  shows "read_schedules resolve (schedule_run env resolve cs None)
    = (schedule_run env resolve cs None, Inr (entries (schedule_run env resolve cs None)))
    \<and> distinct (map sc_id (entries (schedule_run env resolve cs None)))"
proof -
  let ?start = "case cs of [] \<Rightarrow> 0 | c # _ \<Rightarrow> fst c"
  have "registry_inv resolve ?start None"
    by (simp add: registry_inv_def file_ok_def entries_def)
  moreover have "\<forall>c \<in> set cs. ?start \<le> fst c" using assms(2) by (cases cs) auto
  ultimately obtain now where "registry_inv resolve now (schedule_run env resolve cs None)"
    using run_inv [OF assms(1) _ assms(2)] by blast
  then show ?thesis by (auto simp: registry_inv_def read_ok file_ok_entries)
qed

definition sample_scope :: profile_scope where
  "sample_scope = \<lparr>primary = ''shared'', profiles = [''shared'']\<rparr>"

definition sample_authority :: job_approval_envelope where
  "sample_authority = \<lparr>ae_provider = ''p'', ae_tools = [], ae_mutating_tools = [], ae_task_scopes = [],
     ae_stream_scopes = [], ae_google_accounts = [], ae_workflow_args = None, ae_browser_scope = None,
     ae_effect_calls = 1\<rparr>"

definition sample_env :: schedule_env where
  "sample_env = \<lparr>validate_revision = \<lambda>project job scope. Inr \<lparr>jr_qualified = job,
       jr_digest = replicate 64 (CHR ''a''), jr_policy_digest = replicate 64 (CHR ''b''),
       jr_authority = sample_authority\<rparr>,
     validate_context = \<lambda>loaded scope. Inr ()\<rparr>"

definition sample_calls :: schedule_history where
  "sample_calls = [(5, sample_scope, S_Create ''00112233445566778899aabb'' ''shared/brief'' ''0 9 * * *'' sample_scope ''/srv/x''),
     (6, sample_scope, S_Set_Enabled ''sched_00112233445566778899aabb'' True)]"

lemma sample_digests: "digests_ok sample_env"
proof -
  have "sha256_hex (replicate 64 (CHR ''a'')) \<and> sha256_hex (replicate 64 (CHR ''b''))" by code_simp
  then show ?thesis by (simp add: digests_ok_def sample_env_def)
qed

theorem schedule_registry_readable_witness:
  "\<exists>s. read_schedules id (schedule_run sample_env id sample_calls None)
     = (schedule_run sample_env id sample_calls None, Inr [s]) \<and> sc_id s = ''sched_00112233445566778899aabb''"
proof -
  have "sorted (map fst sample_calls)" by code_simp
  note r = schedule_registry_readable [OF sample_digests this, of id]
  have "map sc_id (entries (schedule_run sample_env id sample_calls None)) = [''sched_00112233445566778899aabb'']"
    by code_simp
  then obtain s where "entries (schedule_run sample_env id sample_calls None) = [s]"
    "sc_id s = ''sched_00112233445566778899aabb''" by auto
  with r show ?thesis by auto
qed

text \<open>
  A clock that runs back breaks the registry: enabling a schedule at a time before its creation
  succeeds, because the changed schedule is not validated again, and every later read then fails.
\<close>

theorem schedule_clock_back_breaks_registry:
  assumes "file_ok resolve reg" and "s \<in> set (entries reg)" and "may_see scope s" and "now < sc_created_at s"
  shows "\<exists>reg' s'. set_enabled resolve scope now (sc_id s) b reg = (reg', Inr s')
    \<and> read_schedules resolve reg' = (reg', Inl invalid_store)"
proof -
  let ?s = "revised (sc_cron s) b (sc_approved_spec_digest s) (sc_approved_runtime_policy_digest s)
    (sc_approved_authority s) (sc_approved_cron s) now s"
  have run: "set_enabled resolve scope now (sc_id s) b reg = (put_schedule ?s reg, Inr ?s)"
    using get_found [OF assms(1-3)] replace_revised [OF assms(1-3)]
    by (simp add: set_enabled_def update_cron_is op_defs)
  have "make_schedule resolve ?s \<noteq> Inr t" for t
    using make_schedule_created [of resolve ?s t] assms(4) by auto
  moreover have "?s \<in> set (entries (put_schedule ?s reg))"
    using put_entries [OF assms(1,2), of ?s] by simp
  ultimately have "collect (make_schedule resolve) (entries (put_schedule ?s reg)) \<noteq> Inr ts" for ts
    by (auto simp: collect_Inr list_all2_conv_all_nth in_set_conv_nth)
  then have "read_schedules resolve (put_schedule ?s reg) = (put_schedule ?s reg, Inl invalid_store)"
    by (cases "collect (make_schedule resolve) (entries (put_schedule ?s reg))")
      (auto simp: read_schedules_def put_schedule_def entries_def)
  with run show ?thesis by blast
qed

theorem schedule_clock_back_breaks_registry_witness:
  "\<exists>reg' s'. set_enabled id sample_scope 1 ''sched_00112233445566778899aabb'' False
       (schedule_run sample_env id sample_calls None) = (reg', Inr s')
    \<and> read_schedules id reg' = (reg', Inl invalid_store)"
proof -
  let ?reg = "schedule_run sample_env id sample_calls None"
  have fo: "file_ok id ?reg" by code_simp
  have "list_all (\<lambda>s. sc_id s = ''sched_00112233445566778899aabb'' \<and> may_see sample_scope s \<and> 1 < sc_created_at s)
    (entries ?reg) \<and> entries ?reg \<noteq> []" by code_simp
  then obtain s where s: "s \<in> set (entries ?reg)" "sc_id s = ''sched_00112233445566778899aabb''"
    "may_see sample_scope s" "1 < sc_created_at s" by (cases "entries ?reg") auto
  from schedule_clock_back_breaks_registry [OF fo s(1,3,4), of False] s(2) show ?thesis by simp
qed

text \<open>
  A caller can neither change nor remove a schedule whose pinned profiles are outside its scope:
  the entry survives every call as it was, and reading it by id fails.
\<close>

theorem schedule_scope_isolation:
  assumes "file_ok resolve reg" and "digests_ok env" and "s \<in> set (entries reg)" and "\<not> may_see scope s"
  shows "s \<in> set (entries (schedule_exec env resolve scope now c reg))
    \<and> schedule_get resolve scope (sc_id s) reg = (reg, Inl (ScheduleStoreError ''schedule not found''))"
proof
  have uniq: "t = s" if "t \<in> set (entries reg)" "sc_id t = sc_id s" for t
    using that assms(1,3) by (auto simp: file_ok_entries distinct_map dest: inj_onD)
  from schedule_exec_step [OF assms(1,2), of scope now c]
  show "s \<in> set (entries (schedule_exec env resolve scope now c reg))"
  proof cases
    case (change t cr d p a e auth)
    then have "sc_id t \<noteq> sc_id s" using uniq assms(4) by auto
    then show ?thesis using change(1) put_entries [OF assms(1) change(2), of "revised cr e d p auth a now t"] assms(3) by simp
  next
    case (add t)
    then show ?thesis using assms(3) by (simp add: entries_def)
  next
    case (del t)
    then have "sc_id t \<noteq> sc_id s" using uniq assms(4) by auto
    then show ?thesis using del(1) assms(3) by (simp add: entries_def)
  qed (use assms(3) in simp)
  have "find (\<lambda>t. sc_id t = sc_id s) (filter (may_see scope) (entries reg)) = None"
    using uniq assms(4) by (auto simp: find_None_iff)
  then show "schedule_get resolve scope (sc_id s) reg = (reg, Inl (ScheduleStoreError ''schedule not found''))"
    using assms(1) by (simp add: schedule_get_def list_ok op_defs)
qed

definition work_scope :: profile_scope where
  "work_scope = \<lparr>primary = ''work'', profiles = [''work'']\<rparr>"

theorem schedule_scope_isolation_witness:
  "entries (schedule_exec sample_env id work_scope 9 (S_Remove ''sched_00112233445566778899aabb'')
     (schedule_run sample_env id sample_calls None)) \<noteq> []"
proof -
  let ?reg = "schedule_run sample_env id sample_calls None"
  have fo: "file_ok id ?reg" by code_simp
  have "list_all (\<lambda>s. \<not> may_see work_scope s) (entries ?reg) \<and> entries ?reg \<noteq> []" by code_simp
  then obtain s where "s \<in> set (entries ?reg)" "\<not> may_see work_scope s" by (cases "entries ?reg") auto
  from schedule_scope_isolation [OF fo sample_digests this, of 9
      "S_Remove ''sched_00112233445566778899aabb''"]
  show ?thesis by (metis empty_iff empty_set)
qed

end
