(* ===== verification/Approval_Properties.thy ===== *)
theory Approval_Properties
  imports Schedule_Lifecycle "HOL-Library.Code_Target_Numeral"
begin

text \<open>
  The properties of schedule approval: what an unattended launch may rely on, and which changes of a
  task source need a new approval.
\<close>

section \<open>Task sources\<close>

text \<open>
  C28: a change of a task source that the code takes as not expanding selects no new task: every task
  the current source matches was matched by the approved one, unless the approved source left the
  status open and the current one names a closed status.
\<close>

theorem unexpanded_source_selects_no_more:
  assumes "tags_inv db" and "distinct (ts_tags_all previous)" and "distinct (ts_tags_all current)"
    and "\<not> task_scope_expands previous current"
    and "ts_statuses previous \<noteq> [] \<or> set (ts_statuses current) \<inter> {Completed, Cancelled} = {}"
    and "search_filter (pool_query current l o1) db r"
  shows "search_filter (pool_query previous l' o2) db r"
proof -
  have dt: "distinct (tags_of (r_id r) db)"
    using tags_of_ok [OF assms(1), of "r_id r"] by (simp add: tags_ok_def)
  note all = tags_all_clause [OF assms(2) dt] tags_all_clause [OF assms(3) dt]
  have sel: "xs = [] \<or> x \<in> set xs" if "\<not> selection_expands xs ys" "ys = [] \<or> x \<in> set ys" for xs ys and x :: 'a
    using that by (auto simp: selection_expands_def split: if_splits)
  have e: "\<not> selection_expands (ts_tags_any previous) (ts_tags_any current)"
    "set (ts_tags_all previous) \<subseteq> set (ts_tags_all current)"
    "set (ts_tags_none previous) \<subseteq> set (ts_tags_none current)"
    "\<not> selection_expands (ts_execution_modes previous) (ts_execution_modes current)"
    "\<not> selection_expands (ts_statuses previous) (ts_statuses current)"
    "\<not> selection_expands (ts_waiting_on previous) (ts_waiting_on current)"
    "case ts_due_before previous of None \<Rightarrow> True
      | Some p \<Rightarrow> (case ts_due_before current of None \<Rightarrow> False | Some c \<Rightarrow> c \<le> p)"
    "case ts_text previous of None \<Rightarrow> True | Some p \<Rightarrow> ts_text current = Some p"
    using assms(4) by (auto simp: task_scope_expands_def split: option.splits)
  note m = assms(6) [unfolded search_filter_def pool_query_def task_search_query.select_convs]
  have "ts_statuses previous = [] \<longrightarrow> r_status r \<notin> {Completed, Cancelled}"
    using m assms(5) by (cases "ts_statuses current = []") auto
  moreover have "ts_statuses previous \<noteq> [] \<longrightarrow> r_status r \<in> set (ts_statuses previous)"
    using m e(5) by (auto simp: selection_expands_def split: if_splits)
  moreover have "ts_execution_modes previous \<noteq> [] \<longrightarrow> r_execution_mode r \<in> set (ts_execution_modes previous)"
    using m e(4) by (auto simp: selection_expands_def split: if_splits)
  moreover have "ts_waiting_on previous \<noteq> [] \<longrightarrow> (case r_waiting_on r of None \<Rightarrow> False
      | Some w \<Rightarrow> w \<in> set (ts_waiting_on previous))"
    using m e(6) by (auto simp: selection_expands_def split: if_splits option.splits)
  moreover have "ts_tags_any previous \<noteq> [] \<longrightarrow>
      list_ex (\<lambda>t. t \<in> set (ts_tags_any previous)) (tags_of (r_id r) db)"
    using m e(1) by (auto simp: selection_expands_def list_ex_iff split: if_splits)
  moreover have "set (ts_tags_all previous) \<subseteq> set (tags_of (r_id r) db)"
  proof (cases "ts_tags_all current = []")
    case True
    then show ?thesis using e(2) by simp
  next
    case False
    then have "set (ts_tags_all current) \<subseteq> set (tags_of (r_id r) db)" using m all(2) by simp
    then show ?thesis using e(2) by blast
  qed
  moreover have "ts_tags_none previous \<noteq> [] \<longrightarrow>
      \<not> list_ex (\<lambda>t. t \<in> set (ts_tags_none previous)) (tags_of (r_id r) db)"
  proof (cases "ts_tags_none current = []")
    case True
    then show ?thesis using e(3) by simp
  next
    case False
    then have "\<not> list_ex (\<lambda>t. t \<in> set (ts_tags_none current)) (tags_of (r_id r) db)" using m by simp
    then show ?thesis using e(3) unfolding list_ex_iff by blast
  qed
  moreover have "case ts_due_before previous of None \<Rightarrow> True
      | Some b \<Rightarrow> (case r_due_at r of None \<Rightarrow> False | Some d \<Rightarrow> d \<le> b)"
    using m e(7) by (auto split: option.splits)
  moreover have "case ts_text previous of None \<Rightarrow> True | Some s \<Rightarrow> s = [] \<or> text_clause s r"
    using m e(8) by (auto split: option.splits)
  ultimately show ?thesis
    unfolding search_filter_def pool_query_def task_search_query.select_convs all(1) by simp
qed

definition plain_source :: task_scope where
  "plain_source = \<lparr>ts_tags_any = [], ts_tags_all = [''home''], ts_tags_none = [], ts_execution_modes = [],
     ts_statuses = [], ts_waiting_on = [], ts_due_before = Some 9, ts_text = None\<rparr>"

definition tagged_row :: task_row where
  "tagged_row = \<lparr>r_id = ''t1'', r_title = ''a'', r_objective = ''o'', r_closure_criteria = ''c'',
     r_execution_mode = Mode_Agent, r_status = Open, r_waiting_on = None, r_current_summary = None,
     r_next_action = None, r_priority = 0, r_due_at = Some 4, r_completion_summary = None, r_revision = 1,
     r_created_at = 0, r_updated_at = 0, r_completed_at = None, r_cancelled_at = None,
     r_lease_id = None, r_lease_holder = None, r_lease_epoch = 0, r_lease_acquired_at = None,
     r_lease_expires_at = None\<rparr>"

definition tagged_db :: task_db where
  "tagged_db = \<lparr>task_rows = [tagged_row], activity_rows = [], activity_seq = 0,
     tag_rows = [(''t1'', ''home''), (''t1'', ''urgent'')]\<rparr>"

theorem unexpanded_source_selects_no_more_witness:
  "search_filter (pool_query plain_source 10 0) tagged_db tagged_row"
proof -
  have "tags_ok (map snd (filter (\<lambda>p. fst p = k) (tag_rows tagged_db)))" for k
  proof (cases "k = ''t1''")
    case True
    have "tags_ok [''home'', ''urgent'']" by code_simp
    then show ?thesis using True by (simp add: tagged_db_def)
  qed (simp add: tagged_db_def)
  moreover have "list_all (\<lambda>p. find_task (fst p) tagged_db \<noteq> None) (tag_rows tagged_db)" by code_simp
  ultimately have inv: "tags_inv tagged_db" by (auto simp: tags_inv_def list_all_iff)
  have "\<not> task_scope_expands plain_source (plain_source\<lparr>ts_statuses := [Open], ts_due_before := Some 5\<rparr>)"
    "search_filter (pool_query (plain_source\<lparr>ts_statuses := [Open], ts_due_before := Some 5\<rparr>) 10 0) tagged_db tagged_row"
    by code_simp+
  from unexpanded_source_selects_no_more [OF inv _ _ this(1) _ this(2)] show ?thesis
    by (simp add: plain_source_def)
qed

text \<open>
  The exception is real: an approved source without a status selects only open tasks, yet a
  change to a closed status is not taken as an expansion, although it selects closed tasks.
\<close>

theorem closed_status_escapes_reapproval:
  assumes "ts_statuses previous = []" and "ended \<in> {Completed, Cancelled}"
    and "search_filter (pool_query previous l o1) db r"
  shows "\<not> task_scope_expands previous (previous\<lparr>ts_statuses := [ended]\<rparr>)
    \<and> search_filter (pool_query (previous\<lparr>ts_statuses := [ended]\<rparr>) l o1) db (r\<lparr>r_status := ended\<rparr>)
    \<and> \<not> search_filter (pool_query previous l o1) db (r\<lparr>r_status := ended\<rparr>)"
proof -
  have doc: "text_clause s (r\<lparr>r_status := ended\<rparr>) = text_clause s r" for s
    by (simp add: text_clause_def search_document_def)
  have "\<not> task_scope_expands previous (previous\<lparr>ts_statuses := [ended]\<rparr>)"
    using assms(1) by (auto simp: task_scope_expands_def selection_expands_def split: option.splits)
  moreover have "search_filter (pool_query (previous\<lparr>ts_statuses := [ended]\<rparr>) l o1) db (r\<lparr>r_status := ended\<rparr>)"
    using assms(3) by (simp add: search_filter_def pool_query_def doc cong: option.case_cong)
  moreover have "\<not> search_filter (pool_query previous l o1) db (r\<lparr>r_status := ended\<rparr>)"
    using assms(1,2) by (auto simp: search_filter_def pool_query_def)
  ultimately show ?thesis by blast
qed

theorem closed_status_escapes_reapproval_witness:
  "search_filter (pool_query (plain_source\<lparr>ts_statuses := [Completed]\<rparr>) 10 0) tagged_db (tagged_row\<lparr>r_status := Completed\<rparr>)
   \<and> \<not> search_filter (pool_query plain_source 10 0) tagged_db (tagged_row\<lparr>r_status := Completed\<rparr>)
   \<and> \<not> task_scope_expands plain_source (plain_source\<lparr>ts_statuses := [Completed]\<rparr>)"
proof -
  have p: "ts_statuses plain_source = []" "Completed \<in> {Completed, Cancelled}"
    by (simp_all add: plain_source_def)
  have "search_filter (pool_query plain_source 10 0) tagged_db tagged_row" by code_simp
  from closed_status_escapes_reapproval [OF p this] show ?thesis by blast
qed

section \<open>Launches\<close>

lemma source_reasons_same: "(\<And>x. \<not> expands x x) \<Longrightarrow> distinct (map fst xs) \<Longrightarrow> source_reasons expands xs xs = []"
  by (auto simp: source_reasons_def split: option.splits prod.splits dest: map_of_SomeD)
    (metis (no_types, lifting) map_of_eq_Some_iff option.distinct(1) option.inject)+

lemma no_self_expansion: "\<not> task_scope_expands x x" "\<not> stream_scope_expands y y"
  by (auto simp: task_scope_expands_def stream_scope_expands_def selection_expands_def split: option.splits)

text \<open>Dictionaries of an envelope have distinct keys.\<close>

definition envelope_ok :: "job_approval_envelope \<Rightarrow> bool" where
  "envelope_ok a \<longleftrightarrow> distinct (map fst (ae_tools a)) \<and> distinct (map fst (ae_task_scopes a))
     \<and> distinct (map fst (ae_stream_scopes a)) \<and> distinct (map fst (ae_google_accounts a))"

lemma same_envelope_no_reasons:
  assumes "envelope_ok a" and "sc_approved_authority s = Some a"
    and "case sc_approved_cron s of None \<Rightarrow> True | Some c \<Rightarrow> c = [] \<or> c = sc_cron s"
  shows "reapproval_reasons s a changed = []"
proof -
  have same: "concat (map (\<lambda>(k, v). case map_of xs k of None \<Rightarrow> add k
      | Some w \<Rightarrow> if w \<noteq> v then chg k else []) xs) = []"
    if "distinct (map fst xs)" for xs :: "(string \<times> 'b) list" and add chg :: "string \<Rightarrow> string list"
    using that by (auto simp: concat_eq_Nil_conv split: option.splits)
  have "source_reasons task_scope_expands (ae_task_scopes a) (ae_task_scopes a) = []"
    "source_reasons stream_scope_expands (ae_stream_scopes a) (ae_stream_scopes a) = []"
    using assms(1) no_self_expansion by (auto simp: envelope_ok_def intro!: source_reasons_same)
  moreover have "sc_cron s = (case sc_approved_cron s of None \<Rightarrow> sc_cron s | Some c \<Rightarrow> if c = [] then sc_cron s else c)"
    using assms(3) by (auto split: option.splits)
  ultimately show ?thesis
    using assms(1,2) same [of "ae_tools a"] same [of "ae_google_accounts a"]
    by (simp add: reapproval_reasons_def Let_def envelope_ok_def)
qed

text \<open>
  C27: a due launch starts only what was approved: the schedule is enabled and visible to the caller,
  the job still has exactly the approved specification and policy digests and its context decision,
  the launcher runs in the approved project, the timing is the approved one, and no change of
  authority is pending; and it changes nothing in the registry.
\<close>

theorem launch_only_if_approved:
  assumes "file_ok resolve reg"
    and "invoke_schedule env resolve scope project k reg = (reg', Inr (Launch job spec policy job_scope))"
  shows "\<exists>s loaded. reg' = reg \<and> s \<in> set (entries reg) \<and> sc_id s = k \<and> may_see scope s \<and> sc_enabled s
    \<and> resolve (sc_project_root s) = resolve project
    \<and> validate_revision env (sc_project_root s) job job_scope = Inr loaded
    \<and> validate_context env loaded job_scope = Inr ()
    \<and> job = sc_job_name s \<and> job_scope = sc_profile_scope s
    \<and> spec = jr_digest loaded \<and> spec = sc_approved_spec_digest s
    \<and> policy = jr_policy_digest loaded \<and> policy = sc_approved_runtime_policy_digest s
    \<and> (case sc_approved_cron s of None \<Rightarrow> True | Some c \<Rightarrow> c = [] \<or> c = sc_cron s)
    \<and> reapproval_reasons s (jr_authority loaded) False = []"
proof -
  obtain s where g: "schedule_get resolve scope k reg = (reg, Inr s)" and r: "reg' = reg"
    and root: "resolve (sc_project_root s) = resolve project" and st: "inspect_schedule env s = Ready"
    and l: "job = sc_job_name s" "spec = sc_approved_spec_digest s"
      "policy = sc_approved_runtime_policy_digest s" "job_scope = sc_profile_scope s"
  proof (rule get_cases [OF assms(1), where k = k and scope = scope])
    fix s assume s: "schedule_get resolve scope k reg = (reg, Inr s)"
    with assms(2) show thesis
      by (intro that [of s]) (auto simp: invoke_schedule_def value_check_def op_defs
          split: sum.splits if_splits schedule_state.splits)
  qed (use assms(2) in \<open>auto simp: invoke_schedule_def value_check_def op_defs split: sum.splits\<close>)
  from get_ok [OF assms(1) g] have s: "s \<in> set (entries reg)" "sc_id s = k" "may_see scope s" by auto
  from st obtain loaded where i: "sc_enabled s"
    "validate_revision env (sc_project_root s) (sc_job_name s) (sc_profile_scope s) = Inr loaded"
    "validate_context env loaded (sc_profile_scope s) = Inr ()"
    "jr_digest loaded = sc_approved_spec_digest s"
    "jr_policy_digest loaded = sc_approved_runtime_policy_digest s"
    "reapproval_reasons s (jr_authority loaded) False = []"
    by (auto simp: inspect_schedule_def Let_def split: if_splits sum.splits)
  have "case sc_approved_cron s of None \<Rightarrow> True | Some c \<Rightarrow> c = [] \<or> c = sc_cron s"
    using i(6) by (auto simp: reapproval_reasons_def Let_def split: option.splits if_splits)
  then show ?thesis using s r root l i by (intro exI [of _ s] exI [of _ loaded]) simp
qed

definition approved_schedule :: schedule_spec where
  "approved_schedule = \<lparr>sc_id = ''sched_00112233445566778899aabb'', sc_job_name = ''shared/brief'',
     sc_cron = ''0 9 * * *'', sc_enabled = True, sc_project_root = ''/srv/x'',
     sc_profile_scope = \<lparr>primary = ''shared'', profiles = [''shared'']\<rparr>,
     sc_approved_spec_digest = replicate 64 (CHR ''a''),
     sc_approved_runtime_policy_digest = replicate 64 (CHR ''b''),
     sc_approved_authority = None, sc_approved_cron = Some ''0 9 * * *'', sc_created_at = 5, sc_updated_at = 5\<rparr>"

definition constant_env :: schedule_env where
  "constant_env = \<lparr>validate_revision = \<lambda>project job scope. Inr \<lparr>jr_qualified = job,
       jr_digest = replicate 64 (CHR ''a''), jr_policy_digest = replicate 64 (CHR ''b''),
       jr_authority = \<lparr>ae_provider = ''p'', ae_tools = [], ae_mutating_tools = [], ae_task_scopes = [],
         ae_stream_scopes = [], ae_google_accounts = [], ae_workflow_args = None, ae_browser_scope = None,
         ae_effect_calls = 1\<rparr>\<rparr>,
     validate_context = \<lambda>loaded scope. Inr ()\<rparr>"

lemma approved_file: "file_ok id (Some [approved_schedule])"
  by code_simp

theorem launch_only_if_approved_witness:
  "\<exists>job spec policy sc. invoke_schedule constant_env id \<lparr>primary = ''shared'', profiles = [''shared'']\<rparr> ''/srv/x''
     ''sched_00112233445566778899aabb'' (Some [approved_schedule]) = (Some [approved_schedule], Inr (Launch job spec policy sc))
   \<and> spec = sc_approved_spec_digest approved_schedule"
proof -
  have "case snd (invoke_schedule constant_env id \<lparr>primary = ''shared'', profiles = [''shared'']\<rparr> ''/srv/x''
     ''sched_00112233445566778899aabb'' (Some [approved_schedule])) of Inr (Launch job spec policy sc) \<Rightarrow> True | _ \<Rightarrow> False"
    by code_simp
  then obtain reg' job spec policy sc where run: "invoke_schedule constant_env id
      \<lparr>primary = ''shared'', profiles = [''shared'']\<rparr> ''/srv/x''
      ''sched_00112233445566778899aabb'' (Some [approved_schedule]) = (reg', Inr (Launch job spec policy sc))"
    by (cases "invoke_schedule constant_env id \<lparr>primary = ''shared'', profiles = [''shared'']\<rparr> ''/srv/x''
      ''sched_00112233445566778899aabb'' (Some [approved_schedule])") (auto split: sum.splits invocation.splits)
  from launch_only_if_approved [OF approved_file run] run show ?thesis by (auto simp: entries_def)
qed

text \<open>
  Approving an enabled schedule makes it ready for the job as it is now, until the job changes;
  refreshing does so as well, but never touches the approved authority or timing, and is refused
  when either would have to grow.
\<close>

theorem approval_makes_ready:
  assumes "file_ok resolve reg"
    and "validate_revision env (sc_project_root s) (sc_job_name s) (sc_profile_scope s) = Inr loaded"
    and "envelope_ok (jr_authority loaded)" and "sc_enabled s" and "s \<in> set (entries reg)"
  shows "(approve_schedule env resolve scope now (sc_id s) reg = (reg1, Inr (before1, s1)) \<longrightarrow>
      inspect_schedule env s1 = Ready \<and> sc_approved_authority s1 = Some (jr_authority loaded))
    \<and> (refresh_schedule env resolve scope now (sc_id s) reg = (reg2, Inr (before2, s2)) \<longrightarrow>
      inspect_schedule env s2 = Ready \<and> sc_approved_authority s2 = sc_approved_authority s
      \<and> sc_approved_cron s2 = sc_approved_cron s \<and> sc_cron s2 = sc_cron s
      \<and> reapproval_reasons s (jr_authority loaded) True = [])"
proof -
  have uniq: "t = s" if "t \<in> set (entries reg)" "sc_id t = sc_id s" for t
    using that assms(1,5) by (auto simp: file_ok_entries distinct_map dest: inj_onD)
  have rev: "validate_context env loaded (sc_profile_scope s) = Inr () \<and> r = loaded"
    if "current_revision env s f = (f', Inr r)" for f f' r
    using that assms(2) by (auto simp: current_revision_def service_check_def op_ok split: sum.splits)
  have get: "t = s \<and> f' = reg \<and> may_see scope s" if "schedule_get resolve scope (sc_id s) reg = (f', Inr t)" for f' t
    using get_ok [OF assms(1) that] uniq by blast
  have rep: "t' = t" if "schedule_replace resolve scope t f = (f', Inr t')" for t t' f f'
    using that by (auto simp: schedule_replace_def op_ok)
  show ?thesis
  proof (intro conjI impI)
    assume "approve_schedule env resolve scope now (sc_id s) reg = (reg1, Inr (before1, s1))"
    then have "validate_context env loaded (sc_profile_scope s) = Inr ()"
      and s1: "s1 = s\<lparr>sc_approved_spec_digest := jr_digest loaded,
         sc_approved_runtime_policy_digest := jr_policy_digest loaded,
         sc_approved_authority := Some (jr_authority loaded), sc_approved_cron := Some (sc_cron s),
         sc_updated_at := now\<rparr>"
      by (auto simp: approve_schedule_def op_ok dest!: get rev rep)
    then show "inspect_schedule env s1 = Ready" "sc_approved_authority s1 = Some (jr_authority loaded)"
      using assms(2,4) same_envelope_no_reasons [OF assms(3), of s1]
      by (auto simp: inspect_schedule_def)
  next
    assume "refresh_schedule env resolve scope now (sc_id s) reg = (reg2, Inr (before2, s2))"
    then have c: "validate_context env loaded (sc_profile_scope s) = Inr ()"
      and no: "reapproval_reasons s (jr_authority loaded) True = []"
      and s2: "s2 = s\<lparr>sc_approved_spec_digest := jr_digest loaded,
         sc_approved_runtime_policy_digest := jr_policy_digest loaded, sc_updated_at := now\<rparr>"
      by (auto simp: refresh_schedule_def op_ok dest!: get rev rep)
    have "reapproval_reasons s2 (jr_authority loaded) False = []"
      using no by (auto simp: s2 reapproval_reasons_def Let_def split: option.splits if_splits)
    then show "inspect_schedule env s2 = Ready"
      using assms(2,4) c by (auto simp: inspect_schedule_def s2)
    show "reapproval_reasons s (jr_authority loaded) True = []" by (rule no)
  qed (auto simp: refresh_schedule_def op_ok dest!: get rev rep)
qed

theorem approval_makes_ready_witness:
  "\<exists>reg before s. approve_schedule constant_env id \<lparr>primary = ''shared'', profiles = [''shared'']\<rparr> 9
     ''sched_00112233445566778899aabb'' (Some [approved_schedule\<lparr>sc_approved_cron := Some ''1 1 * * *''\<rparr>])
     = (reg, Inr (before, s)) \<and> before = Approval_Required \<and> inspect_schedule constant_env s = Ready"
proof -
  let ?s = "approved_schedule\<lparr>sc_approved_cron := Some ''1 1 * * *''\<rparr>"
  let ?run = "approve_schedule constant_env id \<lparr>primary = ''shared'', profiles = [''shared'']\<rparr> 9
     ''sched_00112233445566778899aabb'' (Some [?s])"
  have fo: "file_ok id (Some [?s])" by code_simp
  have "case snd ?run of Inl e \<Rightarrow> False | Inr (before, s) \<Rightarrow> before = Approval_Required" by code_simp
  then obtain reg s where run: "?run = (reg, Inr (Approval_Required, s))"
    by (cases ?run) (auto split: sum.splits)
  have h: "validate_revision constant_env (sc_project_root ?s) (sc_job_name ?s) (sc_profile_scope ?s)
      = Inr \<lparr>jr_qualified = sc_job_name ?s, jr_digest = replicate 64 (CHR ''a''),
       jr_policy_digest = replicate 64 (CHR ''b''),
       jr_authority = \<lparr>ae_provider = ''p'', ae_tools = [], ae_mutating_tools = [], ae_task_scopes = [],
         ae_stream_scopes = [], ae_google_accounts = [], ae_workflow_args = None, ae_browser_scope = None,
         ae_effect_calls = 1\<rparr>\<rparr>" by (simp add: constant_env_def)
  have i: "sc_id ?s = ''sched_00112233445566778899aabb''" "sc_enabled ?s" by (simp_all add: approved_schedule_def)
  from approval_makes_ready [OF fo h _ i(2), unfolded i(1)] run show ?thesis
    by (auto simp: envelope_ok_def entries_def)
qed

end
