(* ===== verification/Ledger_Types.thy ===== *)
theory Ledger_Types
  imports Profiles Json
begin

text \<open>
  Value types of the job ledger: runs, external-effect actions and their resolutions
  (\<open>ricky/jobs/types.py\<close>) and the identity of an effect (\<open>ricky/tools/base.py\<close>).
\<close>

datatype run_outcome =
    Run_Succeeded | Run_Failed | Run_Budget_Exceeded | Run_Interrupted | Run_Uncertain
  | Run_Skipped_Locked | Run_Approval_Required

datatype run_trigger = Trigger_Manual | Trigger_Schedule | Trigger_Execution
datatype result_notification_policy = Notify_Always | Notify_Never

datatype workflow_run_status =
    WF_Pending | WF_Running | WF_Completed | WF_Completed_With_Errors | WF_Failed | WF_Interrupted
  | WF_In_Doubt | WF_Abandoned

definition digest_re :: "string \<Rightarrow> bool" where
  "digest_re s = hex_id [] 64 s"

definition within :: "nat \<Rightarrow> nat \<Rightarrow> string \<Rightarrow> bool" where
  "within lo hi s \<longleftrightarrow> lo \<le> length s \<and> length s \<le> hi"

definition opt_ok :: "('a \<Rightarrow> bool) \<Rightarrow> 'a option \<Rightarrow> bool" where
  "opt_ok P v = (case v of None \<Rightarrow> True | Some x \<Rightarrow> P x)"

lemma opt_ok_simps [simp]:
  "opt_ok P None" "opt_ok P (Some x) = P x"
  by (simp_all add: opt_ok_def)

record job_run =
  rn_id :: string
  rn_job_name :: "string option"
  rn_spec_digest :: "string option"
  rn_provider :: string
  rn_model :: string
  rn_profile_scope :: profile_scope
  rn_session_id :: string
  rn_outcome :: "run_outcome option"
  rn_started_at :: instant
  rn_finished_at :: "instant option"
  rn_iterations :: int
  rn_prompt_tokens :: int
  rn_completion_tokens :: int
  rn_final_message :: "string option"
  rn_error :: "string option"
  rn_transcript_path :: "string option"
  rn_dry_run :: bool
  rn_effect_calls :: int
  rn_runtime_policy_digest :: "string option"
  rn_result_notification :: result_notification_policy
  rn_context_lineage :: "int option"
  rn_context_revision :: "int option"
  rn_context_definition_digest :: "string option"
  rn_trigger :: run_trigger
  rn_trigger_id :: "string option"
  rn_workflow_name :: "string option"
  rn_workflow_args :: "json option"
  rn_workflow_run_id :: "string option"
  rn_workflow_status :: "workflow_run_status option"

text \<open>The constraints of the fields; \<open>workflow_args\<close> is an object.\<close>

definition job_run_fields_ok :: "job_run \<Rightarrow> bool" where
  "job_run_fields_ok r \<longleftrightarrow>
     within 1 100 (rn_id r) \<and> opt_ok (within 0 200) (rn_job_name r)
   \<and> opt_ok digest_re (rn_spec_digest r) \<and> within 1 100 (rn_provider r) \<and> within 1 500 (rn_model r)
   \<and> within 1 100 (rn_session_id r) \<and> 0 \<le> rn_iterations r \<and> 0 \<le> rn_prompt_tokens r
   \<and> 0 \<le> rn_completion_tokens r \<and> opt_ok (within 0 100000) (rn_final_message r)
   \<and> opt_ok (within 0 2000) (rn_error r) \<and> opt_ok (within 0 4096) (rn_transcript_path r)
   \<and> 0 \<le> rn_effect_calls r \<and> opt_ok digest_re (rn_runtime_policy_digest r)
   \<and> opt_ok (\<lambda>n. 1 \<le> n) (rn_context_lineage r) \<and> opt_ok (\<lambda>n. 1 \<le> n) (rn_context_revision r)
   \<and> opt_ok digest_re (rn_context_definition_digest r) \<and> opt_ok (within 1 100) (rn_trigger_id r)
   \<and> opt_ok (within 1 200) (rn_workflow_name r) \<and> opt_ok (within 1 100) (rn_workflow_run_id r)
   \<and> opt_ok (\<lambda>j. case j of JObj _ \<Rightarrow> True | _ \<Rightarrow> False) (rn_workflow_args r)"

definition make_run :: "job_run \<Rightarrow> job_run checked" where
  "make_run r =
     andthen (require (job_run_fields_ok r) ''validation error'') (\<lambda>_.
     andthen (profile_scope (primary (rn_profile_scope r)) (profiles (rn_profile_scope r))) (\<lambda>scope.
     andthen (require (\<not> ((rn_workflow_args r \<noteq> None \<or> rn_workflow_run_id r \<noteq> None
                  \<or> rn_workflow_status r \<noteq> None) \<and> rn_workflow_name r = None))
       ''workflow run fields require workflow_name'') (\<lambda>_.
     andthen (require (\<not> (rn_workflow_run_id r \<noteq> None \<and> rn_workflow_args r = None))
       ''workflow_run_id requires resolved workflow_args'') (\<lambda>_.
       Inr (r\<lparr>rn_profile_scope := scope\<rparr>)))))"

datatype effect_disposition = Performed | Not_Performed | In_Doubt
datatype action_status = Reserved | Resolved effect_disposition

record effect_identity =
  ei_operation :: string
  ei_target :: string
  ei_occurrence :: string
  ei_summary :: string
  ei_action_key :: string

definition make_identity :: "effect_identity \<Rightarrow> effect_identity checked" where
  "make_identity i =
     andthen (require (within 1 200 (ei_operation i) \<and> within 1 500 (ei_target i)
       \<and> within 1 500 (ei_occurrence i) \<and> within 1 2000 (ei_summary i) \<and> digest_re (ei_action_key i))
       ''validation error'') (\<lambda>_. Inr i)"

record job_action =
  ja_id :: string
  ja_job_name :: string
  ja_run_id :: string
  ja_profile_label :: profile_label
  ja_action_key :: string
  ja_operation :: string
  ja_target :: string
  ja_occurrence :: string
  ja_summary :: string
  ja_status :: action_status
  ja_provider_reference :: "string option"
  ja_created_at :: instant
  ja_updated_at :: instant
  ja_grant_id :: "string option"
  ja_task_id :: "string option"

definition make_action :: "job_action \<Rightarrow> job_action checked" where
  "make_action a =
     andthen (require (within 1 100 (ja_id a) \<and> within 1 200 (ja_job_name a) \<and> within 1 100 (ja_run_id a)
       \<and> digest_re (ja_action_key a) \<and> within 1 200 (ja_operation a) \<and> within 1 500 (ja_target a)
       \<and> within 1 500 (ja_occurrence a) \<and> within 1 2000 (ja_summary a)
       \<and> opt_ok (within 0 500) (ja_provider_reference a) \<and> opt_ok (within 0 100) (ja_grant_id a)
       \<and> opt_ok (within 0 100) (ja_task_id a)) ''validation error'') (\<lambda>_. Inr a)"

record action_resolution =
  ar_id :: nat
  ar_action_id :: string
  ar_profile_label :: profile_label
  ar_disposition :: effect_disposition
  ar_actor :: string
  ar_created_at :: instant

definition make_action_resolution :: "action_resolution \<Rightarrow> action_resolution checked" where
  "make_action_resolution r =
     andthen (require (1 \<le> ar_id r \<and> within 1 200 (ar_actor r)) ''validation error'') (\<lambda>_. Inr r)"

datatype grant_status = Grant_Active | Grant_Revoked | Grant_Expired | Grant_Consumed

end
