(* ===== verification/Ledger_Store.thy ===== *)
theory Ledger_Store
  imports Ledger_Types
begin

text \<open>
  The job ledger (\<open>ricky/jobs/store.py\<close>): runs, external-effect actions guarded by a deterministic
  key, the budgets of delegation grants and the tombstones of terminated grants.  The transaction
  bodies \<open>_m_sync\<close> are \<open>m_sync\<close>, the public coroutines \<open>ledger_m\<close>.
\<close>

datatype ledger_error =
    JobStoreError string
  | JobActionConflictError string
  | JobEffectBudgetError string
  | GrantAuthorityError string
  | Ledger_ValueError string

abbreviation ledger_failed :: ledger_error where
  "ledger_failed \<equiv> JobStoreError ''job run store failed''"

section \<open>Tables\<close>

record action_row =
  ac_id :: string
  ac_job_name :: string
  ac_run_id :: string
  ac_action_key :: string
  ac_operation :: string
  ac_target :: string
  ac_occurrence :: string
  ac_summary :: string
  ac_status :: action_status
  ac_provider_reference :: "string option"
  ac_created_at :: instant
  ac_updated_at :: instant
  ac_grant_id :: "string option"
  ac_task_id :: "string option"

record action_resolution_row =
  rs_id :: nat
  rs_action_id :: string
  rs_disposition :: effect_disposition
  rs_actor :: string
  rs_created_at :: instant

record grant_budget =
  gb_grant_id :: string
  gb_task_id :: string
  gb_effect_limit :: int
  gb_effects_used :: int
  gb_financial_limit :: "int option"
  gb_financial_used :: int
  gb_currency :: "string option"
  gb_status :: grant_status
  gb_expires_at :: instant
  gb_updated_at :: instant
  gb_profile_scope :: profile_scope

record termination_row =
  tm_grant_id :: string
  tm_status :: grant_status
  tm_updated_at :: instant
  tm_profile_scope :: profile_scope

record escalation_row =
  es_key :: "string \<times> string"
  es_task_id :: string
  es_run_id :: string
  es_updated_at :: instant

record ledger_db =
  run_rows :: "job_run list"
  action_rows :: "action_row list"
  action_resolution_rows :: "action_resolution_row list"
  action_resolution_seq :: nat
  budget_rows :: "grant_budget list"
  termination_rows :: "termination_row list"
  escalation_rows :: "escalation_row list"

type_synonym 'a ledger_op = "(ledger_db, ledger_error, 'a) op"

definition empty_ledger :: ledger_db where
  "empty_ledger = \<lparr>run_rows = [], action_rows = [], action_resolution_rows = [],
     action_resolution_seq = 0, budget_rows = [], termination_rows = [], escalation_rows = []\<rparr>"

definition find_run :: "string \<Rightarrow> ledger_db \<Rightarrow> job_run option" where
  "find_run k db = find_row rn_id k (run_rows db)"

definition find_action :: "string \<Rightarrow> ledger_db \<Rightarrow> action_row option" where
  "find_action k db = find_row ac_id k (action_rows db)"

definition find_budget :: "string \<Rightarrow> ledger_db \<Rightarrow> grant_budget option" where
  "find_budget k db = find_row gb_grant_id k (budget_rows db)"

definition find_termination :: "string \<Rightarrow> ledger_db \<Rightarrow> termination_row option" where
  "find_termination k db = find_row tm_grant_id k (termination_rows db)"

text \<open>\<open>status IN ('reserved','performed','in_doubt')\<close>, the condition of the unique index.\<close>

definition blocks :: "action_status \<Rightarrow> bool" where
  "blocks st \<longleftrightarrow> st \<noteq> Resolved Not_Performed"

text \<open>
  \<open>job_actions_active_key_idx\<close> on insertion; the updates of the store keep the indexed columns and
  never make a row block that did not block before.
\<close>

definition action_insert_ok :: "ledger_db \<Rightarrow> action_row \<Rightarrow> bool" where
  "action_insert_ok db a \<longleftrightarrow> find_run (ac_run_id a) db \<noteq> None
     \<and> (blocks (ac_status a) \<longrightarrow> list_all (\<lambda>b. \<not> (blocks (ac_status b)
          \<and> ac_job_name b = ac_job_name a \<and> ac_action_key b = ac_action_key a)) (action_rows db))"

definition sql_insert_action :: "action_row \<Rightarrow> unit ledger_op" where
  "sql_insert_action a =
     bind (reads (\<lambda>db. action_insert_ok db a)) (\<lambda>ok.
       sql_insert action_rows action_rows_update ac_id (\<lambda>_. ok) ledger_failed a)"

definition sql_update_action :: "(action_row \<Rightarrow> bool) \<Rightarrow> (action_row \<Rightarrow> action_row) \<Rightarrow> nat ledger_op" where
  "sql_update_action = sql_update action_rows action_rows_update (\<lambda>_. True) ledger_failed"

definition sql_update_run :: "(job_run \<Rightarrow> bool) \<Rightarrow> (job_run \<Rightarrow> job_run) \<Rightarrow> nat ledger_op" where
  "sql_update_run = sql_update run_rows run_rows_update (\<lambda>_. True) ledger_failed"

definition sql_update_budget :: "(grant_budget \<Rightarrow> bool) \<Rightarrow> (grant_budget \<Rightarrow> grant_budget) \<Rightarrow> nat ledger_op" where
  "sql_update_budget = sql_update budget_rows budget_rows_update (\<lambda>_. True) ledger_failed"

interpretation runs: keyed_table run_rows run_rows_update rn_id
  by unfold_locales simp_all

interpretation actions: keyed_table action_rows action_rows_update ac_id
  by unfold_locales simp_all

interpretation budgets: keyed_table budget_rows budget_rows_update gb_grant_id
  by unfold_locales simp_all

interpretation terminations: keyed_table termination_rows termination_rows_update tm_grant_id
  by unfold_locales simp_all

section \<open>Rows and models\<close>

definition row_to_run :: "job_run \<Rightarrow> ledger_error + job_run" where
  "row_to_run r = (case make_run r of Inl _ \<Rightarrow> Inl ledger_failed | Inr x \<Rightarrow> Inr x)"

definition label_of :: "ledger_error \<Rightarrow> profile_scope \<Rightarrow> ledger_error + profile_label" where
  "label_of e s = (case scope_label s of Inl _ \<Rightarrow> Inl e | Inr l \<Rightarrow> Inr l)"

text \<open>The row joined with the scope of its run.\<close>

definition row_to_action :: "ledger_db \<Rightarrow> action_row \<Rightarrow> ledger_error + job_action" where
  "row_to_action db a = (case find_run (ac_run_id a) db of None \<Rightarrow> Inl ledger_failed
     | Some r \<Rightarrow> andthen (label_of ledger_failed (rn_profile_scope r)) (\<lambda>l.
         case make_action \<lparr>ja_id = ac_id a, ja_job_name = ac_job_name a, ja_run_id = ac_run_id a,
             ja_profile_label = l, ja_action_key = ac_action_key a, ja_operation = ac_operation a,
             ja_target = ac_target a, ja_occurrence = ac_occurrence a, ja_summary = ac_summary a,
             ja_status = ac_status a, ja_provider_reference = ac_provider_reference a,
             ja_created_at = ac_created_at a, ja_updated_at = ac_updated_at a,
             ja_grant_id = ac_grant_id a, ja_task_id = ac_task_id a\<rparr> of
           Inl _ \<Rightarrow> Inl ledger_failed | Inr x \<Rightarrow> Inr x))"

definition require_scope_access ::
  "ledger_error \<Rightarrow> profile_scope \<Rightarrow> profile_scope \<Rightarrow> string \<Rightarrow> unit ledger_op" where
  "require_scope_access invalid caller stored kind =
     bind (lift (label_of invalid stored)) (\<lambda>l.
       unless (permits caller l) (JobStoreError (kind @ '' not found'')))"

definition require_stored_scope :: "profile_scope \<Rightarrow> profile_scope \<Rightarrow> string \<Rightarrow> unit ledger_op" where
  "require_stored_scope stored expected kind =
     bind (lift (case profile_scope (primary stored) (profiles stored) of
       Inl _ \<Rightarrow> Inl ledger_failed | Inr s \<Rightarrow> Inr s)) (\<lambda>s.
       unless (s = expected) (JobStoreError (kind @ '' profile scope mismatch'')))"

section \<open>Runs\<close>

definition ledger_get :: "profile_scope \<Rightarrow> string \<Rightarrow> job_run ledger_op" where
  "ledger_get scope k =
     bind (reads (find_run k)) (\<lambda>row.
       case row of None \<Rightarrow> raise (JobStoreError ''job run not found'')
       | Some r \<Rightarrow>
           bind (lift (row_to_run r)) (\<lambda>run.
           bind (lift (label_of (Ledger_ValueError ''profile label'') (rn_profile_scope run))) (\<lambda>l.
           bind (unless (permits scope l) (JobStoreError ''job run not found'')) (\<lambda>_. ret run))))"

definition ledger_insert :: "profile_scope \<Rightarrow> job_run \<Rightarrow> job_run ledger_op" where
  "ledger_insert scope run =
     bind (require_scope_access (Ledger_ValueError ''profile label'') scope (rn_profile_scope run) ''job run'') (\<lambda>_.
     bind (atomic (sql_insert run_rows run_rows_update rn_id (\<lambda>_. True) ledger_failed run)) (\<lambda>_.
       ret run))"

definition finish_sync :: "job_run \<Rightarrow> unit ledger_op" where
  "finish_sync run = atomic (
     bind (sql_update_run (\<lambda>r. rn_id r = rn_id run \<and> rn_outcome r = None)
       (\<lambda>r. r\<lparr>rn_outcome := rn_outcome run, rn_finished_at := rn_finished_at run,
          rn_iterations := rn_iterations run, rn_prompt_tokens := rn_prompt_tokens run,
          rn_completion_tokens := rn_completion_tokens run,
          rn_final_message := rn_final_message run, rn_error := rn_error run,
          rn_transcript_path := rn_transcript_path run, rn_dry_run := rn_dry_run run,
          rn_effect_calls := rn_effect_calls run,
          rn_runtime_policy_digest := rn_runtime_policy_digest run,
          rn_trigger := rn_trigger run, rn_trigger_id := rn_trigger_id run,
          rn_workflow_name := rn_workflow_name run, rn_context_lineage := rn_context_lineage run,
          rn_context_revision := rn_context_revision run,
          rn_context_definition_digest := rn_context_definition_digest run,
          rn_workflow_args := rn_workflow_args run, rn_workflow_run_id := rn_workflow_run_id run,
          rn_workflow_status := rn_workflow_status run\<rparr>)) (\<lambda>n.
       unless (n = 1) (JobStoreError ''job run is missing or already finished'')))"

definition ledger_finish :: "profile_scope \<Rightarrow> job_run \<Rightarrow> job_run ledger_op" where
  "ledger_finish scope run =
     bind (unless (rn_outcome run \<noteq> None \<and> rn_finished_at run \<noteq> None)
       (JobStoreError ''finished run requires outcome and finished_at'')) (\<lambda>_.
     bind (require_scope_access (Ledger_ValueError ''profile label'') scope (rn_profile_scope run) ''job run'') (\<lambda>_.
     bind (ledger_get scope (rn_id run)) (\<lambda>stored.
     bind (unless (rn_profile_scope stored = rn_profile_scope run)
       (JobStoreError ''job run profile scope is immutable'')) (\<lambda>_.
     bind (finish_sync run) (\<lambda>_. ret run)))))"

definition update_workflow_link_sync ::
  "string \<Rightarrow> string \<Rightarrow> json \<Rightarrow> string option \<Rightarrow> workflow_run_status option \<Rightarrow> unit ledger_op" where
  "update_workflow_link_sync run_id name args wf_run wf_status = atomic (
     bind (sql_update_run (\<lambda>r. rn_id r = run_id \<and> rn_outcome r = None)
       (\<lambda>r. r\<lparr>rn_workflow_name := Some name, rn_workflow_args := Some args,
          rn_workflow_run_id := (case wf_run of None \<Rightarrow> rn_workflow_run_id r | Some w \<Rightarrow> Some w),
          rn_workflow_status := (case wf_status of None \<Rightarrow> rn_workflow_status r | Some w \<Rightarrow> Some w)\<rparr>)) (\<lambda>n.
       unless (n = 1) (JobStoreError ''job run is missing or already finished'')))"

definition ledger_update_workflow_link ::
  "profile_scope \<Rightarrow> string \<Rightarrow> string \<Rightarrow> json \<Rightarrow> string option \<Rightarrow> workflow_run_status option
    \<Rightarrow> job_run ledger_op" where
  "ledger_update_workflow_link scope run_id name args wf_run wf_status =
     bind (ledger_get scope run_id) (\<lambda>_.
     bind (update_workflow_link_sync run_id name args wf_run wf_status) (\<lambda>_.
       ledger_get scope run_id))"

end
