(* ===== verification/Ledger_Ops.thy ===== *)
theory Ledger_Ops
  imports Ledger_Store
begin

text \<open>
  Actions and grant budgets of the job ledger (\<open>ricky/jobs/store.py\<close>): reserving an external effect
  before it is dispatched, resolving it afterwards, and the ceilings of delegation grants.  \<open>uuid\<close>
  stands for \<open>uuid4().hex\<close>, \<open>now\<close> for the clock.
\<close>

section \<open>Actions\<close>

definition reserved_action ::
  "string \<Rightarrow> string \<Rightarrow> string \<Rightarrow> effect_identity \<Rightarrow> instant \<Rightarrow> string option \<Rightarrow> string option \<Rightarrow> action_row" where
  "reserved_action uuid name run_id i now grant task =
     \<lparr>ac_id = ''action_'' @ uuid, ac_job_name = name, ac_run_id = run_id,
      ac_action_key = ei_action_key i, ac_operation = ei_operation i, ac_target = ei_target i,
      ac_occurrence = ei_occurrence i, ac_summary = ei_summary i, ac_status = Reserved,
      ac_provider_reference = None, ac_created_at = now, ac_updated_at = now,
      ac_grant_id = grant, ac_task_id = task\<rparr>"

text \<open>The \<open>JobAction\<close> built before the transaction; it does not carry the grant.\<close>

definition new_action ::
  "string \<Rightarrow> string \<Rightarrow> string \<Rightarrow> effect_identity \<Rightarrow> instant \<Rightarrow> profile_scope \<Rightarrow> ledger_error + job_action" where
  "new_action uuid name run_id i now scope =
     andthen (label_of ledger_failed scope) (\<lambda>l.
       case make_action \<lparr>ja_id = ''action_'' @ uuid, ja_job_name = name, ja_run_id = run_id,
           ja_profile_label = l, ja_action_key = ei_action_key i, ja_operation = ei_operation i,
           ja_target = ei_target i, ja_occurrence = ei_occurrence i, ja_summary = ei_summary i,
           ja_status = Reserved, ja_provider_reference = None, ja_created_at = now,
           ja_updated_at = now, ja_grant_id = None, ja_task_id = None\<rparr> of
         Inl _ \<Rightarrow> Inl ledger_failed | Inr a \<Rightarrow> Inr a)"

text \<open>
  \<open>SELECT status ... WHERE job_name = ? AND action_key = ? ORDER BY created_at DESC, id DESC LIMIT 1\<close>
\<close>

definition latest_status :: "string \<Rightarrow> string \<Rightarrow> ledger_db \<Rightarrow> action_status option" where
  "latest_status name key db =
     (case rev (sort_key (\<lambda>a. (ac_created_at a, ac_id a))
         (filter (\<lambda>a. ac_job_name a = name \<and> ac_action_key a = key) (action_rows db))) of
        [] \<Rightarrow> None | a # _ \<Rightarrow> Some (ac_status a))"

definition refuse_replay :: "string \<Rightarrow> string \<Rightarrow> unit ledger_op" where
  "refuse_replay name key =
     bind (reads (latest_status name key)) (\<lambda>existing.
       unless (case existing of None \<Rightarrow> True | Some st \<Rightarrow> \<not> blocks st)
         (JobActionConflictError ''job action is already reserved, performed or in doubt for this occurrence''))"

definition reserve_for_run ::
  "instant \<Rightarrow> string \<Rightarrow> string \<Rightarrow> string \<Rightarrow> effect_identity \<Rightarrow> int \<Rightarrow> bool \<Rightarrow> unit ledger_op" where
  "reserve_for_run now uuid job_name run_id i effect_budget reserve_effect_call =
     bind (refuse_replay job_name (ei_action_key i)) (\<lambda>_.
     bind (sql_update_run (\<lambda>r. rn_id r = run_id \<and> rn_outcome r = None
           \<and> (reserve_effect_call \<longrightarrow> rn_effect_calls r < effect_budget))
         (\<lambda>r. r\<lparr>rn_effect_calls := rn_effect_calls r + (if reserve_effect_call then 1 else 0)\<rparr>)) (\<lambda>n.
     bind (unless (n = 1) (JobEffectBudgetError ''job effect-call budget exhausted'')) (\<lambda>_.
       sql_insert_action (reserved_action uuid job_name run_id i now None None))))"

definition reserve_action_sync ::
  "instant \<Rightarrow> string \<Rightarrow> string \<Rightarrow> string \<Rightarrow> effect_identity \<Rightarrow> int \<Rightarrow> profile_scope \<Rightarrow> bool
    \<Rightarrow> job_action ledger_op" where
  "reserve_action_sync now uuid job_name run_id i effect_budget scope reserve_effect_call =
     bind (lift (new_action uuid job_name run_id i now scope)) (\<lambda>action.
     bind (atomic (reserve_for_run now uuid job_name run_id i effect_budget reserve_effect_call)) (\<lambda>_.
       ret action))"

definition ledger_reserve_action ::
  "instant \<Rightarrow> string \<Rightarrow> string \<Rightarrow> string \<Rightarrow> effect_identity \<Rightarrow> int \<Rightarrow> profile_scope \<Rightarrow> bool
    \<Rightarrow> job_action ledger_op" where
  "ledger_reserve_action now uuid job_name run_id i effect_budget scope reserve_effect_call =
     bind (ledger_get scope run_id) (\<lambda>run.
       reserve_action_sync now uuid job_name run_id i effect_budget (rn_profile_scope run)
         reserve_effect_call)"

definition get_action_sync :: "string \<Rightarrow> job_action option ledger_op" where
  "get_action_sync k =
     bind (reads (find_action k)) (\<lambda>row.
       case row of None \<Rightarrow> ret None
       | Some a \<Rightarrow> bind (reads (\<lambda>db. row_to_action db a)) (\<lambda>r. bind (lift r) (\<lambda>x. ret (Some x))))"

definition ledger_get_action :: "profile_scope \<Rightarrow> string \<Rightarrow> job_action ledger_op" where
  "ledger_get_action scope k =
     bind (get_action_sync k) (\<lambda>found.
     bind (some_or (JobStoreError ''job action not found'') found) (\<lambda>a.
     bind (unless (permits scope (ja_profile_label a)) (JobStoreError ''job action not found'')) (\<lambda>_.
       ret a)))"

text \<open>Read back inside the transaction.\<close>

definition required_action :: "string \<Rightarrow> job_action ledger_op" where
  "required_action k =
     bind (get_action_sync k) (some_or ledger_failed)"

definition resolve_action_sync ::
  "instant \<Rightarrow> string \<Rightarrow> effect_disposition \<Rightarrow> string option \<Rightarrow> job_action ledger_op" where
  "resolve_action_sync now k disposition reference =
     bind (atomic (
       bind (sql_update_action (\<lambda>a. ac_id a = k \<and> ac_status a = Reserved)
         (\<lambda>a. a\<lparr>ac_status := Resolved disposition, ac_provider_reference := reference,
            ac_updated_at := now\<rparr>)) (\<lambda>n.
       unless (n = 1) (JobStoreError ''job action is missing or already resolved'')))) (\<lambda>_.
       required_action k)"

definition ledger_resolve_action ::
  "instant \<Rightarrow> string \<Rightarrow> effect_disposition \<Rightarrow> profile_scope \<Rightarrow> string option \<Rightarrow> job_action ledger_op" where
  "ledger_resolve_action now k disposition scope reference =
     bind (ledger_get_action scope k) (\<lambda>_. resolve_action_sync now k disposition reference)"

definition strand_reserved_action_sync :: "instant \<Rightarrow> string \<Rightarrow> string \<Rightarrow> job_action ledger_op" where
  "strand_reserved_action_sync now k error =
     bind (atomic (
       bind (sql_update_action (\<lambda>a. ac_id a = k \<and> ac_status a = Reserved)
         (\<lambda>a. a\<lparr>ac_status := Resolved In_Doubt, ac_provider_reference := Some error,
            ac_updated_at := now\<rparr>)) (\<lambda>n.
       unless (n = 1) (JobStoreError ''job action is not reserved'')))) (\<lambda>_.
       required_action k)"

definition ledger_strand_action :: "instant \<Rightarrow> string \<Rightarrow> profile_scope \<Rightarrow> string \<Rightarrow> job_action ledger_op" where
  "ledger_strand_action now k scope error =
     bind (unless (py_strip error \<noteq> []) (JobStoreError ''recovery error cannot be empty'')) (\<lambda>_.
     bind (ledger_get_action scope k) (\<lambda>_. strand_reserved_action_sync now k (take 500 error)))"

definition reconcile_action_sync ::
  "instant \<Rightarrow> string \<Rightarrow> effect_disposition \<Rightarrow> string \<Rightarrow> (job_action \<times> action_resolution) ledger_op" where
  "reconcile_action_sync now k disposition actor =
     bind (atomic (
       bind (sql_update_action (\<lambda>a. ac_id a = k \<and> ac_status a = Resolved In_Doubt)
         (\<lambda>a. a\<lparr>ac_status := Resolved disposition, ac_updated_at := now\<rparr>)) (\<lambda>n.
       bind (unless (n = 1) (JobStoreError ''only an in_doubt action may be reconciled'')) (\<lambda>_.
       bind (unless (disposition \<noteq> In_Doubt) ledger_failed) (\<lambda>_.
       bind (reads (\<lambda>db. Suc (action_resolution_seq db))) (\<lambda>next_id.
       bind (writes (\<lambda>db. db\<lparr>action_resolution_rows := action_resolution_rows db
             @ [\<lparr>rs_id = next_id, rs_action_id = k, rs_disposition = disposition, rs_actor = actor,
                 rs_created_at = now\<rparr>], action_resolution_seq := next_id\<rparr>)) (\<lambda>_.
         ret next_id))))))) (\<lambda>next_id.
     bind (required_action k) (\<lambda>a.
     bind (lift (case make_action_resolution \<lparr>ar_id = next_id, ar_action_id = k,
         ar_profile_label = ja_profile_label a, ar_disposition = disposition, ar_actor = actor,
         ar_created_at = now\<rparr> of Inl _ \<Rightarrow> Inl ledger_failed | Inr x \<Rightarrow> Inr x)) (\<lambda>resolution.
       ret (a, resolution))))"

definition ledger_reconcile_action ::
  "instant \<Rightarrow> string \<Rightarrow> effect_disposition \<Rightarrow> profile_scope \<Rightarrow> string
    \<Rightarrow> (job_action \<times> action_resolution) ledger_op" where
  "ledger_reconcile_action now k disposition scope actor =
     bind (unless (disposition \<noteq> In_Doubt)
       (JobStoreError ''user reconciliation must choose performed or not_performed'')) (\<lambda>_.
     bind (ledger_get_action scope k) (\<lambda>_. reconcile_action_sync now k disposition actor))"

text \<open>The listings: newest first with a limit, by run, reserved only, and the counts.\<close>

definition decode_actions :: "action_row list \<Rightarrow> job_action list ledger_op" where
  "decode_actions rows = bind (reads (\<lambda>db. collect (row_to_action db) rows)) lift"

definition ledger_list_actions :: "profile_scope \<Rightarrow> string option \<Rightarrow> int \<Rightarrow> job_action list ledger_op" where
  "ledger_list_actions scope job_name limit =
     bind (unless (1 \<le> limit \<and> limit \<le> 500) (JobStoreError ''action limit must be between 1 and 500'')) (\<lambda>_.
     bind (reads (\<lambda>db. take 500 (rev (sort_key (\<lambda>a. (ac_created_at a, ac_id a))
         (filter (\<lambda>a. opt_ok (\<lambda>n. ac_job_name a = n) job_name) (action_rows db)))))) (\<lambda>rows.
     bind (decode_actions rows) (\<lambda>found.
       ret (take (nat limit) (filter (\<lambda>a. permits scope (ja_profile_label a)) found)))))"

definition ledger_actions_for_run :: "profile_scope \<Rightarrow> string \<Rightarrow> job_action list ledger_op" where
  "ledger_actions_for_run scope run_id =
     bind (ledger_get scope run_id) (\<lambda>_.
     bind (reads (\<lambda>db. sort_key (\<lambda>a. (ac_created_at a, ac_id a))
         (filter (\<lambda>a. ac_run_id a = run_id) (action_rows db)))) decode_actions)"

definition ledger_reserved_actions :: "profile_scope \<Rightarrow> job_action list ledger_op" where
  "ledger_reserved_actions scope =
     bind (reads (\<lambda>db. sort_key (\<lambda>a. (ac_created_at a, ac_id a))
         (filter (\<lambda>a. ac_status a = Reserved) (action_rows db)))) (\<lambda>rows.
     bind (decode_actions rows) (\<lambda>found.
       ret (filter (\<lambda>a. permits scope (ja_profile_label a)) found)))"

section \<open>Grant budgets\<close>

definition seed_grant_budget ::
  "instant \<Rightarrow> string \<Rightarrow> string \<Rightarrow> int \<Rightarrow> int option \<Rightarrow> string option \<Rightarrow> instant \<Rightarrow> profile_scope
    \<Rightarrow> unit ledger_op" where
  "seed_grant_budget now g task_id effect_limit financial_limit currency expires_at scope = atomic (
     bind (reads (find_termination g)) (\<lambda>termination.
     bind (reads (find_budget g)) (\<lambda>existing.
       case existing of
         Some b \<Rightarrow>
           bind (require_stored_scope (gb_profile_scope b) scope ''grant budget'') (\<lambda>_.
           bind (unless (gb_effect_limit b = effect_limit \<and> gb_financial_limit b = financial_limit
                 \<and> gb_currency b = currency)
               (JobStoreError ''a grant budget can never be widened after issue'')) (\<lambda>_.
             case termination of
               Some t \<Rightarrow> if gb_status b = Grant_Active
                 then bind (sql_update_budget (\<lambda>r. gb_grant_id r = g)
                        (\<lambda>r. r\<lparr>gb_status := tm_status t, gb_updated_at := now\<rparr>)) (\<lambda>_. ret ())
                 else ret ()
             | None \<Rightarrow> ret ()))
       | None \<Rightarrow>
           bind (case termination of None \<Rightarrow> ret ()
               | Some t \<Rightarrow> require_stored_scope (tm_profile_scope t) scope ''grant budget termination'') (\<lambda>_.
             sql_insert budget_rows budget_rows_update gb_grant_id (\<lambda>_. True) ledger_failed
               \<lparr>gb_grant_id = g, gb_task_id = task_id, gb_effect_limit = effect_limit,
                gb_effects_used = 0, gb_financial_limit = financial_limit, gb_financial_used = 0,
                gb_currency = currency,
                gb_status = (case termination of None \<Rightarrow> Grant_Active | Some t \<Rightarrow> tm_status t),
                gb_expires_at = expires_at, gb_updated_at = now, gb_profile_scope = scope\<rparr>))))"

definition read_scope :: "profile_scope \<Rightarrow> profile_scope ledger_op" where
  "read_scope stored = lift (case profile_scope (primary stored) (profiles stored) of
     Inl _ \<Rightarrow> Inl ledger_failed | Inr s \<Rightarrow> Inr s)"

definition set_grant_budget_status ::
  "instant \<Rightarrow> string \<Rightarrow> grant_status \<Rightarrow> profile_scope \<Rightarrow> unit ledger_op" where
  "set_grant_budget_status now g status scope = atomic (
     bind (reads (find_budget g)) (\<lambda>budget.
     bind (reads (find_termination g)) (\<lambda>termination.
     bind (case budget of Some b \<Rightarrow> read_scope (gb_profile_scope b)
           | None \<Rightarrow> (case termination of Some t \<Rightarrow> read_scope (tm_profile_scope t)
                     | None \<Rightarrow> ret scope)) (\<lambda>stored.
     bind (require_scope_access ledger_failed scope stored ''grant budget'') (\<lambda>_.
     bind (if status \<noteq> Grant_Active
           then case termination of
               None \<Rightarrow> bind (sql_insert termination_rows termination_rows_update tm_grant_id
                     (\<lambda>_. True) ledger_failed \<lparr>tm_grant_id = g, tm_status = status,
                        tm_updated_at = now, tm_profile_scope = stored\<rparr>) (\<lambda>_. ret status)
             | Some t \<Rightarrow> bind (require_stored_scope (tm_profile_scope t) stored
                     ''grant budget termination'') (\<lambda>_. ret (tm_status t))
           else bind (unless (termination = None)
               (JobStoreError ''a terminated grant budget cannot be reactivated'')) (\<lambda>_. ret Grant_Active)) (\<lambda>status'.
     bind (sql_update_budget (\<lambda>r. gb_grant_id r = g \<and> gb_profile_scope r = stored)
       (\<lambda>r. r\<lparr>gb_status := status', gb_updated_at := now\<rparr>)) (\<lambda>_. ret ())))))))"

definition get_grant_budget :: "string \<Rightarrow> profile_scope \<Rightarrow> grant_budget option ledger_op" where
  "get_grant_budget g scope =
     bind (reads (find_budget g)) (\<lambda>row.
       case row of None \<Rightarrow> ret None
       | Some b \<Rightarrow>
           bind (read_scope (gb_profile_scope b)) (\<lambda>stored.
           bind (lift (label_of ledger_failed stored)) (\<lambda>l.
             ret (if permits scope l then Some b else None))))"

text \<open>
  The expiry of a grant is committed before the error is raised; every other error of
  \<open>_reserve_grant_action_sync\<close> rolls the transaction back.
\<close>

definition spend_money :: "string \<Rightarrow> grant_budget \<Rightarrow> int \<Rightarrow> string option \<Rightarrow> instant \<Rightarrow> unit ledger_op" where
  "spend_money g budget amount currency now =
     (if 0 < amount then
        bind (unless (gb_financial_limit budget \<noteq> None \<and> gb_currency budget = currency)
          (GrantAuthorityError ''delegated effect declares money outside the grant currency limit'')) (\<lambda>_.
        bind (sql_update_budget (\<lambda>r. gb_grant_id r = g
              \<and> (case gb_financial_limit r of None \<Rightarrow> False | Some l \<Rightarrow> gb_financial_used r + amount \<le> l))
            (\<lambda>r. r\<lparr>gb_financial_used := gb_financial_used r + amount, gb_updated_at := now\<rparr>)) (\<lambda>n.
          unless (n = 1) (GrantAuthorityError ''delegated financial limit exhausted'')))
      else ret ())"

definition reserve_within_budget ::
  "string \<Rightarrow> string \<Rightarrow> string \<Rightarrow> string \<Rightarrow> effect_identity \<Rightarrow> int \<Rightarrow> int \<Rightarrow> string option \<Rightarrow> instant
    \<Rightarrow> string \<Rightarrow> grant_budget \<Rightarrow> unit ledger_op" where
  "reserve_within_budget g namespace task_id run_id i effect_budget amount currency now uuid budget =
     bind (unless (gb_task_id budget = task_id)
       (GrantAuthorityError ''delegated action targets a different durable task'')) (\<lambda>_.
     bind (refuse_replay namespace (ei_action_key i)) (\<lambda>_.
     bind (spend_money g budget amount currency now) (\<lambda>_.
     bind (sql_update_budget (\<lambda>r. gb_grant_id r = g \<and> gb_effects_used r < gb_effect_limit r)
         (\<lambda>r. r\<lparr>gb_effects_used := gb_effects_used r + 1, gb_updated_at := now\<rparr>)) (\<lambda>n.
     bind (unless (n = 1) (GrantAuthorityError ''delegated effect-call limit exhausted'')) (\<lambda>_.
     bind (sql_update_run (\<lambda>r. rn_id r = run_id \<and> rn_outcome r = None \<and> rn_effect_calls r < effect_budget)
         (\<lambda>r. r\<lparr>rn_effect_calls := rn_effect_calls r + 1\<rparr>)) (\<lambda>n.
     bind (unless (n = 1) (JobEffectBudgetError ''job effect-call budget exhausted'')) (\<lambda>_.
       sql_insert_action (reserved_action uuid namespace run_id i now (Some g) (Some task_id)))))))))"

definition reserve_grant_action_sync ::
  "instant \<Rightarrow> string \<Rightarrow> string \<Rightarrow> string \<Rightarrow> string \<Rightarrow> string \<Rightarrow> effect_identity \<Rightarrow> int \<Rightarrow> int
    \<Rightarrow> string option \<Rightarrow> profile_scope \<Rightarrow> job_action ledger_op" where
  "reserve_grant_action_sync now uuid g namespace task_id run_id i effect_budget amount currency scope =
     bind (lift (new_action uuid namespace run_id i now scope)) (\<lambda>action.
     bind (reads (find_budget g)) (\<lambda>found.
     bind (some_or (GrantAuthorityError ''no delegated budget for grant'') found) (\<lambda>budget.
     bind (require_stored_scope (gb_profile_scope budget) scope ''grant budget'') (\<lambda>_.
     bind (unless (gb_status budget = Grant_Active)
       (GrantAuthorityError ''delegation grant is not active'')) (\<lambda>_.
       if gb_expires_at budget \<le> now
       then bind (sql_update_budget (\<lambda>r. gb_grant_id r = g)
              (\<lambda>r. r\<lparr>gb_status := Grant_Expired, gb_updated_at := now\<rparr>)) (\<lambda>_.
              raise (GrantAuthorityError ''delegation grant is expired''))
       else bind (atomic (reserve_within_budget g namespace task_id run_id i effect_budget amount
              currency now uuid budget)) (\<lambda>_. ret action))))))"

definition ledger_reserve_grant_action ::
  "instant \<Rightarrow> string \<Rightarrow> string \<Rightarrow> string \<Rightarrow> string \<Rightarrow> string \<Rightarrow> effect_identity \<Rightarrow> int \<Rightarrow> int
    \<Rightarrow> string option \<Rightarrow> profile_scope \<Rightarrow> job_action ledger_op" where
  "ledger_reserve_grant_action now uuid g namespace task_id run_id i effect_budget amount currency scope =
     bind (ledger_get scope run_id) (\<lambda>run.
       reserve_grant_action_sync now uuid g namespace task_id run_id i effect_budget amount currency
         (rn_profile_scope run))"

section \<open>Escalations\<close>

definition ledger_escalation_task :: "string \<Rightarrow> string \<Rightarrow> string option ledger_op" where
  "ledger_escalation_task scoped_name blocked_key =
     reads (\<lambda>db. map_option es_task_id (find_row es_key (scoped_name, blocked_key) (escalation_rows db)))"

definition ledger_correlate_escalation ::
  "instant \<Rightarrow> (profile_scope \<Rightarrow> string \<Rightarrow> string) \<Rightarrow> string \<Rightarrow> string \<Rightarrow> string \<Rightarrow> string \<Rightarrow> profile_scope
    \<Rightarrow> string ledger_op" where
  "ledger_correlate_escalation now scope_key job_name blocked_key task_id run_id scope =
     bind (ledger_get scope run_id) (\<lambda>_.
     let k = (scope_key scope job_name, blocked_key) in
     bind (reads (\<lambda>db. find_row es_key k (escalation_rows db))) (\<lambda>existing.
     case existing of
       None \<Rightarrow> bind (writes (escalation_rows_update (\<lambda>rows. rows @ [\<lparr>es_key = k, es_task_id = task_id,
                 es_run_id = run_id, es_updated_at = now\<rparr>]))) (\<lambda>_. ret task_id)
     | Some e \<Rightarrow> bind (writes (escalation_rows_update (map (\<lambda>r. if es_key r = k
                 then r\<lparr>es_run_id := run_id, es_updated_at := now\<rparr> else r)))) (\<lambda>_. ret (es_task_id e))))"

end
