(* ===== verification/Ledger_Spec.thy ===== *)
theory Ledger_Spec
  imports Ledger_Ops
begin

text \<open>
  The abstract ledger.  \<open>ledger_step\<close> lists the only ways the ledger changes: a run is added or
  updated, an effect is reserved (against a run, or against a grant budget and a run), an action is
  settled, a budget is seeded or changes its status.  \<open>ledger_ok\<close> is the invariant of these steps.
\<close>

section \<open>The invariant\<close>

definition same_effect :: "action_row \<Rightarrow> action_row \<Rightarrow> bool" where
  "same_effect a b \<longleftrightarrow> ac_job_name a = ac_job_name b \<and> ac_action_key a = ac_action_key b"

definition effects_unique :: "ledger_db \<Rightarrow> bool" where
  "effects_unique db \<longleftrightarrow> (\<forall>a \<in> set (action_rows db). \<forall>b \<in> set (action_rows db).
     blocks (ac_status a) \<and> blocks (ac_status b) \<and> same_effect a b \<longrightarrow> ac_id a = ac_id b)"

definition grant_actions :: "string \<Rightarrow> ledger_db \<Rightarrow> action_row list" where
  "grant_actions g db = filter (\<lambda>a. ac_grant_id a = Some g) (action_rows db)"

definition money_cap :: "grant_budget \<Rightarrow> int" where
  "money_cap b = (case gb_financial_limit b of None \<Rightarrow> 0 | Some l \<Rightarrow> max 0 l)"

definition budget_ok :: "ledger_db \<Rightarrow> grant_budget \<Rightarrow> bool" where
  "budget_ok db b \<longleftrightarrow> gb_effects_used b = int (length (grant_actions (gb_grant_id b) db))
     \<and> gb_effects_used b \<le> max 0 (gb_effect_limit b)
     \<and> 0 \<le> gb_financial_used b \<and> gb_financial_used b \<le> money_cap b
     \<and> scope_ok (gb_profile_scope b)"

definition tombstone_ok :: "ledger_db \<Rightarrow> termination_row \<Rightarrow> bool" where
  "tombstone_ok db t \<longleftrightarrow> tm_status t \<noteq> Grant_Active \<and> scope_ok (tm_profile_scope t)
     \<and> (case find_budget (tm_grant_id t) db of None \<Rightarrow> True | Some b \<Rightarrow> gb_status b \<noteq> Grant_Active)"

definition keys_ok :: "ledger_db \<Rightarrow> bool" where
  "keys_ok db \<longleftrightarrow> distinct (map rn_id (run_rows db)) \<and> distinct (map ac_id (action_rows db))
     \<and> distinct (map gb_grant_id (budget_rows db)) \<and> distinct (map tm_grant_id (termination_rows db))"

definition grants_known :: "ledger_db \<Rightarrow> bool" where
  "grants_known db \<longleftrightarrow> (\<forall>a \<in> set (action_rows db). \<forall>g. ac_grant_id a = Some g \<longrightarrow> find_budget g db \<noteq> None)"

definition ledger_ok :: "ledger_db \<Rightarrow> bool" where
  "ledger_ok db \<longleftrightarrow> keys_ok db \<and> effects_unique db \<and> grants_known db
     \<and> (\<forall>b \<in> set (budget_rows db). budget_ok db b)
     \<and> (\<forall>t \<in> set (termination_rows db). tombstone_ok db t)"

lemma empty_ledger_ok: "ledger_ok empty_ledger"
  by (simp add: ledger_ok_def keys_ok_def effects_unique_def grants_known_def empty_ledger_def)

section \<open>The steps\<close>

abbreviation put_run :: "job_run \<Rightarrow> ledger_db \<Rightarrow> ledger_db" where
  "put_run r db \<equiv> db\<lparr>run_rows := update_row rn_id (rn_id r) (\<lambda>_. r) (run_rows db)\<rparr>"

abbreviation put_action :: "action_row \<Rightarrow> ledger_db \<Rightarrow> ledger_db" where
  "put_action a db \<equiv> db\<lparr>action_rows := update_row ac_id (ac_id a) (\<lambda>_. a) (action_rows db)\<rparr>"

abbreviation put_budget :: "grant_budget \<Rightarrow> ledger_db \<Rightarrow> ledger_db" where
  "put_budget b db \<equiv> db\<lparr>budget_rows := update_row gb_grant_id (gb_grant_id b) (\<lambda>_. b) (budget_rows db)\<rparr>"

abbreviation add_action :: "action_row \<Rightarrow> ledger_db \<Rightarrow> ledger_db" where
  "add_action a db \<equiv> db\<lparr>action_rows := action_rows db @ [a]\<rparr>"

text \<open>An effect is reserved against a running job, possibly counting against its budget.\<close>

definition charged :: "int \<Rightarrow> job_run \<Rightarrow> job_run \<Rightarrow> bool" where
  "charged n r r' \<longleftrightarrow> rn_outcome r = None \<and> r' = r\<lparr>rn_effect_calls := rn_effect_calls r + n\<rparr>"

definition fresh_action :: "action_row \<Rightarrow> ledger_db \<Rightarrow> bool" where
  "fresh_action a db \<longleftrightarrow> ac_status a = Reserved \<and> find_action (ac_id a) db = None
     \<and> (\<forall>b \<in> set (action_rows db). same_effect a b \<longrightarrow> ac_status b = Resolved Not_Performed)"

definition settles :: "action_row \<Rightarrow> action_row \<Rightarrow> bool" where
  "settles a a' \<longleftrightarrow> (\<exists>st ref t. a' = a\<lparr>ac_status := Resolved st, ac_provider_reference := ref, ac_updated_at := t\<rparr>
     \<and> (ac_status a = Reserved \<or> ac_status a = Resolved In_Doubt \<and> st \<noteq> In_Doubt
          \<and> ref = ac_provider_reference a))"

text \<open>The budget pays for one effect of the given amount.\<close>

definition pays :: "int \<Rightarrow> string option \<Rightarrow> instant \<Rightarrow> grant_budget \<Rightarrow> grant_budget \<Rightarrow> bool" where
  "pays amount currency now b b' \<longleftrightarrow> gb_status b = Grant_Active \<and> now < gb_expires_at b
     \<and> gb_effects_used b < gb_effect_limit b
     \<and> (0 < amount \<longrightarrow> gb_currency b = currency
          \<and> (\<exists>l. gb_financial_limit b = Some l \<and> gb_financial_used b + amount \<le> l))
     \<and> b' = b\<lparr>gb_effects_used := gb_effects_used b + 1,
          gb_financial_used := gb_financial_used b + max 0 amount, gb_updated_at := now\<rparr>"

definition new_budget :: "ledger_db \<Rightarrow> grant_budget \<Rightarrow> bool" where
  "new_budget db b \<longleftrightarrow> find_budget (gb_grant_id b) db = None \<and> gb_effects_used b = 0
     \<and> gb_financial_used b = 0 \<and> scope_ok (gb_profile_scope b)
     \<and> gb_status b = (case find_termination (gb_grant_id b) db of None \<Rightarrow> Grant_Active
          | Some t \<Rightarrow> tm_status t)"

inductive ledger_step :: "ledger_db \<Rightarrow> ledger_db \<Rightarrow> bool" where
  Run_Added: "find_run (rn_id r) db = None \<Longrightarrow> ledger_step db (db\<lparr>run_rows := run_rows db @ [r]\<rparr>)"
| Run_Updated: "\<lbrakk>find_run (rn_id r') db = Some r; rn_outcome r = None;
     rn_profile_scope r' = rn_profile_scope r\<rbrakk> \<Longrightarrow> ledger_step db (put_run r' db)"
| Effect_Reserved: "\<lbrakk>fresh_action a db; ac_grant_id a = None; find_run (ac_run_id a) db = Some r;
     charged n r r'; n \<in> {0, 1}\<rbrakk> \<Longrightarrow> ledger_step db (add_action a (put_run r' db))"
| Grant_Effect_Reserved: "\<lbrakk>fresh_action a db; ac_grant_id a = Some (gb_grant_id b);
     ac_task_id a = Some (gb_task_id b); find_run (ac_run_id a) db = Some r; charged 1 r r';
     find_budget (gb_grant_id b) db = Some b; pays amount currency (ac_created_at a) b b'\<rbrakk>
   \<Longrightarrow> ledger_step db (add_action a (put_run r' (put_budget b' db)))"
| Action_Resolved: "\<lbrakk>find_action (ac_id a) db = Some a; ac_status a = Reserved;
     a' = a\<lparr>ac_status := Resolved d, ac_provider_reference := ref, ac_updated_at := now\<rparr>\<rbrakk> \<Longrightarrow>
     ledger_step db (put_action a' db)"
| Action_Reconciled: "\<lbrakk>find_action (ac_id a) db = Some a; ac_status a = Resolved In_Doubt; d \<noteq> In_Doubt;
     a' = a\<lparr>ac_status := Resolved d, ac_updated_at := now\<rparr>\<rbrakk> \<Longrightarrow>
     ledger_step db ((put_action a' db)\<lparr>action_resolution_rows := action_resolution_rows db
       @ [\<lparr>rs_id = n, rs_action_id = ac_id a, rs_disposition = d, rs_actor = actor, rs_created_at = now\<rparr>],
       action_resolution_seq := n\<rparr>)"
| Budget_Seeded: "new_budget db b \<Longrightarrow> ledger_step db (db\<lparr>budget_rows := budget_rows db @ [b]\<rparr>)"
| Budget_Status: "\<lbrakk>find_budget g db = Some b; st = Grant_Active \<Longrightarrow> find_termination g db = None\<rbrakk> \<Longrightarrow>
     ledger_step db (put_budget (b\<lparr>gb_status := st, gb_updated_at := now\<rparr>) db)"
| Grant_Terminated: "\<lbrakk>find_termination (tm_grant_id t) db = None; tm_status t \<noteq> Grant_Active;
     scope_ok (tm_profile_scope t);
     find_budget (tm_grant_id t) db = ob; db' = (case ob of None \<Rightarrow> db
       | Some b \<Rightarrow> put_budget (b\<lparr>gb_status := tm_status t, gb_updated_at := now\<rparr>) db)\<rbrakk> \<Longrightarrow>
     ledger_step db (db'\<lparr>termination_rows := termination_rows db @ [t]\<rparr>)"
| Escalated: "ledger_step db (db\<lparr>escalation_rows := es\<rparr>)"

end
