(* ===== verification/Ledger_Lifecycle.thy ===== *)
theory Ledger_Lifecycle
  imports Ledger_Spec
begin

text \<open>
  Every step keeps the invariant of the ledger, and every call of the code is a step, or a
  transaction that was rolled back.
\<close>

section \<open>Steps keep the invariant\<close>

text \<open>Each part of the invariant depends on some of the tables only.\<close>

lemma effects_unique_cong: "action_rows db' = action_rows db \<Longrightarrow> effects_unique db' = effects_unique db"
  by (simp add: effects_unique_def)

lemma grants_known_cong:
  "action_rows db' = action_rows db \<Longrightarrow> (\<And>g. find_budget g db' = None \<longleftrightarrow> find_budget g db = None) \<Longrightarrow>
     grants_known db' = grants_known db"
  by (simp add: grants_known_def)

lemma budget_ok_cong:
  "length (grant_actions (gb_grant_id b) db') = length (grant_actions (gb_grant_id b) db) \<Longrightarrow>
     budget_ok db' b = budget_ok db b"
  by (simp add: budget_ok_def)

lemma tombstone_ok_cong:
  "find_budget (tm_grant_id t) db' = find_budget (tm_grant_id t) db \<Longrightarrow> tombstone_ok db' t = tombstone_ok db t"
  by (simp add: tombstone_ok_def)

lemma grant_actions_cong: "action_rows db' = action_rows db \<Longrightarrow> grant_actions g db' = grant_actions g db"
  by (simp add: grant_actions_def)

lemma ledger_okI:
  assumes ok: "ledger_ok db" and "distinct (map rn_id (run_rows db'))"
    and "distinct (map ac_id (action_rows db'))" and "effects_unique db'" and "grants_known db'"
    and count: "\<And>g. length (grant_actions g db') = length (grant_actions g db)"
    and b: "budget_rows db' = budget_rows db" and t: "termination_rows db' = termination_rows db"
  shows "ledger_ok db'"
proof -
  have f: "find_budget g db' = find_budget g db" for g using b by (simp add: find_budget_def)
  have "budget_ok db' x = budget_ok db x" for x by (rule budget_ok_cong [OF count])
  moreover have "tombstone_ok db' x = tombstone_ok db x" for x by (rule tombstone_ok_cong [OF f])
  ultimately show ?thesis using assms by (simp add: ledger_ok_def keys_ok_def)
qed

text \<open>Changes outside the actions, budgets and tombstones.\<close>

lemma ledger_ok_cong:
  assumes "ledger_ok db" and "distinct (map rn_id (run_rows db'))" and "action_rows db' = action_rows db"
    and "budget_rows db' = budget_rows db" and "termination_rows db' = termination_rows db"
  shows "ledger_ok db'"
proof (rule ledger_okI [OF assms(1,2) _ _ _ _ assms(4,5)])
  have "find_budget g db' = find_budget g db" for g using assms(4) by (simp add: find_budget_def)
  then show "grants_known db'" using assms(1) grants_known_cong [OF assms(3)] by (simp add: ledger_ok_def)
qed (use assms(1) in \<open>simp_all add: ledger_ok_def keys_ok_def assms(3) effects_unique_cong [OF assms(3)]
    grant_actions_cong [OF assms(3)]\<close>)

lemma length_filter_put:
  assumes "distinct (map key rows)" and "find_row key k rows = Some r" and "P r' = P r"
  shows "length (filter P (update_row key k (\<lambda>_. r') rows)) = length (filter P rows)"
  using assms
  by (induction rows) (auto simp: update_row_absent find_row_None rev_image_eqI split: if_splits)

lemma blocks_simps [simp]:
  "blocks Reserved" "blocks (Resolved d) \<longleftrightarrow> d \<noteq> Not_Performed"
  by (simp_all add: blocks_def)

lemma settles_same:
  assumes "settles a a'"
  shows "ac_id a' = ac_id a" "same_effect a' b = same_effect a b" "same_effect b a' = same_effect b a"
    "ac_grant_id a' = ac_grant_id a" "blocks (ac_status a)"
  using assms by (auto simp: settles_def same_effect_def)

lemma ok_keys:
  assumes "ledger_ok db"
  shows "distinct (map rn_id (run_rows db))" "distinct (map ac_id (action_rows db))"
    "distinct (map gb_grant_id (budget_rows db))" "distinct (map tm_grant_id (termination_rows db))"
  using assms by (auto simp: ledger_ok_def keys_ok_def)

lemma ok_unique:
  assumes "ledger_ok db" and "a \<in> set (action_rows db)" and "b \<in> set (action_rows db)"
    and "blocks (ac_status a)" and "blocks (ac_status b)" and "same_effect a b"
  shows "ac_id a = ac_id b"
  using assms unfolding ledger_ok_def effects_unique_def by blast

lemma ok_known:
  assumes "ledger_ok db" and "a \<in> set (action_rows db)" and "ac_grant_id a = Some g"
  shows "\<exists>b. find_budget g db = Some b"
  using assms unfolding ledger_ok_def grants_known_def by blast

lemma ok_budget: "ledger_ok db \<Longrightarrow> find_budget g db = Some b \<Longrightarrow> budget_ok db b \<and> gb_grant_id b = g"
  unfolding ledger_ok_def find_budget_def by (auto dest: find_row_Some)

lemma ok_tombstone: "ledger_ok db \<Longrightarrow> find_termination g db = Some t \<Longrightarrow> tombstone_ok db t \<and> tm_grant_id t = g"
  unfolding ledger_ok_def find_termination_def by (auto dest: find_row_Some)

lemma same_effect_sym: "same_effect a b = same_effect b a"
  by (auto simp: same_effect_def)

lemma ok_put_run:
  assumes "ledger_ok db"
  shows "ledger_ok (put_run r db)"
  by (rule ledger_ok_cong [OF assms]) (simp_all add: keys_put_row ok_keys [OF assms])

lemma ok_add_run:
  assumes "ledger_ok db" and "find_run (rn_id r) db = None"
  shows "ledger_ok (db\<lparr>run_rows := run_rows db @ [r]\<rparr>)"
  by (rule ledger_ok_cong [OF assms(1)]) (use assms(2) in \<open>simp_all add: ok_keys [OF assms(1)] find_run_def find_row_None\<close>)

lemma ok_escalated: "ledger_ok db \<Longrightarrow> ledger_ok (db\<lparr>escalation_rows := es\<rparr>)"
  by (rule ledger_ok_cong) (simp_all add: ok_keys)

lemma ok_settled:
  assumes ok: "ledger_ok db" and a: "find_action (ac_id a) db = Some a" and s: "settles a a'"
  shows "ledger_ok ((put_action a' db)\<lparr>action_resolution_rows := rs, action_resolution_seq := n\<rparr>)"
proof -
  note same = settles_same [OF s]
  let ?rows = "update_row ac_id (ac_id a') (\<lambda>_. a') (action_rows db)"
  have old: "x = a' \<or> x \<in> set (action_rows db) \<and> ac_id x \<noteq> ac_id a" if "x \<in> set ?rows" for x
    using set_put_row [OF that] same by auto
  have a_in: "a \<in> set (action_rows db)" using a by (auto simp: find_action_def dest: find_row_Some)
  note u = ok_unique [OF ok]
  have "effects_unique (db\<lparr>action_rows := ?rows\<rparr>)"
    unfolding effects_unique_def
  proof (intro ballI impI)
    fix x y assume "x \<in> set (action_rows (db\<lparr>action_rows := ?rows\<rparr>))"
      "y \<in> set (action_rows (db\<lparr>action_rows := ?rows\<rparr>))" 
      and b: "blocks (ac_status x) \<and> blocks (ac_status y) \<and> same_effect x y"
    then have "x = a' \<or> x \<in> set (action_rows db) \<and> ac_id x \<noteq> ac_id a"
      "y = a' \<or> y \<in> set (action_rows db) \<and> ac_id y \<noteq> ac_id a" using old by auto
    then show "ac_id x = ac_id y"
      using b same u [OF a_in, of y] u [OF _ a_in, of x] u [of x y] by auto
  qed
  moreover have "grants_known (db\<lparr>action_rows := ?rows\<rparr>)"
    unfolding grants_known_def
  proof (intro ballI allI impI)
    fix x g assume "x \<in> set (action_rows (db\<lparr>action_rows := ?rows\<rparr>))" and g: "ac_grant_id x = Some g"
    then have "x = a' \<or> x \<in> set (action_rows db)" using old by auto
    then have "\<exists>b. find_budget g db = Some b" using g same ok_known [OF ok a_in] ok_known [OF ok, of x] by auto
    then show "find_budget g (db\<lparr>action_rows := ?rows\<rparr>) \<noteq> None" by (auto simp: find_budget_def)
  qed
  moreover have "length (grant_actions g (db\<lparr>action_rows := ?rows\<rparr>)) = length (grant_actions g db)" for g
    using length_filter_put [OF ok_keys(2) [OF ok], of "ac_id a'" a "\<lambda>x. ac_grant_id x = Some g" a'] a same
    by (simp add: grant_actions_def find_action_def)
  ultimately show ?thesis
    by (intro ledger_okI [OF ok])
      (use same in \<open>simp_all add: keys_put_row ok_keys [OF ok] effects_unique_def grants_known_def
        find_budget_def grant_actions_def\<close>)
qed

lemma unique_add:
  assumes ok: "ledger_ok db" and fresh: "fresh_action a db" and "action_rows db' = action_rows db @ [a]"
  shows "effects_unique db'"
  unfolding effects_unique_def
proof (intro ballI impI)
  fix x y assume "x \<in> set (action_rows db')" "y \<in> set (action_rows db')"
    and b: "blocks (ac_status x) \<and> blocks (ac_status y) \<and> same_effect x y"
  then have "x = a \<or> x \<in> set (action_rows db)" "y = a \<or> y \<in> set (action_rows db)"
    using assms(3) by auto
  moreover have "\<not> (blocks (ac_status z) \<and> same_effect a z)" if "z \<in> set (action_rows db)" for z
    using fresh that by (auto simp: fresh_action_def)
  ultimately show "ac_id x = ac_id y"
    using b ok_unique [OF ok, of x y] same_effect_sym [of x y] by auto
qed

lemma fresh_id: "fresh_action a db \<Longrightarrow> ac_id a \<notin> ac_id ` set (action_rows db)"
  by (simp add: fresh_action_def find_action_def find_row_None)

lemma settles_reserved:
  "ac_status a = Reserved \<Longrightarrow>
     settles a (a\<lparr>ac_status := Resolved st, ac_provider_reference := ref, ac_updated_at := now\<rparr>)"
  unfolding settles_def by blast

lemma settles_doubt:
  assumes "ac_status a = Resolved In_Doubt" and "d \<noteq> In_Doubt"
  shows "settles a (a\<lparr>ac_status := Resolved d, ac_updated_at := now\<rparr>)"
  unfolding settles_def using assms
  by (intro exI [of _ d] exI [of _ "ac_provider_reference a"] exI [of _ now]) simp

lemma ok_resolved:
  assumes "ledger_ok db" and "find_action (ac_id a) db = Some a" and "settles a a'"
  shows "ledger_ok (put_action a' db)"
  using ok_settled [OF assms, where rs = "action_resolution_rows db" and n = "action_resolution_seq db"] by simp

lemma ok_add_action:
  assumes ok: "ledger_ok db" and fresh: "fresh_action a db" and g: "ac_grant_id a = None"
  shows "ledger_ok (add_action a db)"
proof (rule ledger_okI [OF ok])
  show "effects_unique (add_action a db)" by (rule unique_add [OF ok fresh]) simp
  show "grants_known (add_action a db)"
    unfolding grants_known_def
  proof (intro ballI allI impI)
    fix x k assume "x \<in> set (action_rows (add_action a db))" "ac_grant_id x = Some k"
    with g have "x \<in> set (action_rows db)" by auto
    from ok_known [OF ok this \<open>ac_grant_id x = Some k\<close>]
    show "find_budget k (add_action a db) \<noteq> None" by (auto simp: find_budget_def)
  qed
qed (use fresh_id [OF fresh] g in \<open>simp_all add: ok_keys [OF ok] grant_actions_def\<close>)

lemma find_put_budget:
  assumes "find_budget g db = Some b" and "gb_grant_id b' = g"
  shows "find_budget j (put_budget b' db) = (if j = g then Some b' else find_budget j db)"
  using assms by (simp add: find_budget_def find_put_row)

lemma ledger_ok_budgets:
  assumes ok: "ledger_ok db" and "action_rows db' = action_rows db" and "run_rows db' = run_rows db"
    and "distinct (map gb_grant_id (budget_rows db'))"
    and "distinct (map tm_grant_id (termination_rows db'))"
    and known: "\<And>g. find_budget g db \<noteq> None \<Longrightarrow> find_budget g db' \<noteq> None"
    and "\<And>b. b \<in> set (budget_rows db') \<Longrightarrow> budget_ok db b"
    and "\<And>t. t \<in> set (termination_rows db') \<Longrightarrow> tombstone_ok db' t"
  shows "ledger_ok db'"
proof -
  have "budget_ok db' b = budget_ok db b" for b
    using assms(2) by (intro budget_ok_cong) (simp add: grant_actions_def)
  moreover have "grants_known db'"
    unfolding grants_known_def using known ok_known [OF ok] assms(2) by fastforce
  moreover have "effects_unique db'"
    using ok effects_unique_cong [OF assms(2)] by (simp add: ledger_ok_def)
  ultimately show ?thesis
    unfolding ledger_ok_def keys_ok_def using assms ok_keys [OF ok] by simp
qed

lemma budget_ok_status: "budget_ok db (b\<lparr>gb_status := st, gb_updated_at := now\<rparr>) = budget_ok db b"
  by (simp add: budget_ok_def money_cap_def)

lemma find_none_mem: "find_termination g db = None \<Longrightarrow> t \<in> set (termination_rows db) \<Longrightarrow> tm_grant_id t \<noteq> g"
  by (auto simp: find_termination_def find_row_None)

lemma ok_old_tombstone: "ledger_ok db \<Longrightarrow> t \<in> set (termination_rows db) \<Longrightarrow> tombstone_ok db t"
  by (simp add: ledger_ok_def)

lemma ok_budget_status:
  assumes ok: "ledger_ok db" and b: "find_budget g db = Some b"
    and st: "st = Grant_Active \<Longrightarrow> find_termination g db = None"
  shows "ledger_ok (put_budget (b\<lparr>gb_status := st, gb_updated_at := now\<rparr>) db)" (is "ledger_ok ?db")
proof (rule ledger_ok_budgets [OF ok])
  let ?b = "b\<lparr>gb_status := st, gb_updated_at := now\<rparr>"
  note g = ok_budget [OF ok b]
  have fb: "find_budget j ?db = (if j = g then Some ?b else find_budget j db)" for j
    using g by (intro find_put_budget [OF b]) simp
  note fb = fb [simplified]
  show "find_budget j db \<noteq> None \<Longrightarrow> find_budget j ?db \<noteq> None" for j by (simp add: fb)
  show "budget_ok db x" if "x \<in> set (budget_rows ?db)" for x
    using that g ok by (auto dest!: set_put_row simp: budget_ok_status ledger_ok_def)
  show "tombstone_ok ?db t" if "t \<in> set (termination_rows ?db)" for t
  proof -
    have t: "t \<in> set (termination_rows db)" using that by simp
    note old = ok_old_tombstone [OF ok t]
    show ?thesis
    proof (cases "tm_grant_id t = g")
      case True
      with find_none_mem [OF st t] have "st \<noteq> Grant_Active" by blast
      with old True show ?thesis by (simp add: tombstone_ok_def fb)
    next
      case False
      with old show ?thesis by (simp add: tombstone_ok_def fb)
    qed
  qed
qed (use ok_budget [OF ok b] in \<open>simp_all add: keys_put_row ok_keys [OF ok]\<close>)

lemma ok_seeded:
  assumes ok: "ledger_ok db" and new: "new_budget db b"
  shows "ledger_ok (db\<lparr>budget_rows := budget_rows db @ [b]\<rparr>)" (is "ledger_ok ?db")
proof (rule ledger_ok_budgets [OF ok])
  have none: "find_budget (gb_grant_id b) db = None" using new by (simp add: new_budget_def)
  have fb: "find_budget j ?db = (if j = gb_grant_id b then Some b else find_budget j db)" for j
    using none by (auto simp: find_budget_def find_row_append split: option.splits)
  show "find_budget j db \<noteq> None \<Longrightarrow> find_budget j ?db \<noteq> None" for j by (simp add: fb)
  have "ac_grant_id a \<noteq> Some (gb_grant_id b)" if "a \<in> set (action_rows db)" for a
    using ok_known [OF ok that] none by auto
  then have "grant_actions (gb_grant_id b) db = []" by (simp add: grant_actions_def filter_empty_conv)
  then have "budget_ok db b"
    using new by (simp add: new_budget_def budget_ok_def money_cap_def split: option.splits)
  then show "budget_ok db x" if "x \<in> set (budget_rows ?db)" for x
    using that ok by (auto simp: ledger_ok_def)
  show "tombstone_ok ?db t" if "t \<in> set (termination_rows ?db)" for t
  proof -
    have t: "t \<in> set (termination_rows db)" using that by simp
    have "find_termination (tm_grant_id t) db = Some t"
      unfolding find_termination_def by (rule find_row_mem [OF ok_keys(4) [OF ok] t])
    with ok_old_tombstone [OF ok t] new show ?thesis by (auto simp: tombstone_ok_def fb new_budget_def)
  qed
qed (use new in \<open>simp_all add: ok_keys [OF ok] new_budget_def find_budget_def find_row_None\<close>)

lemma ok_terminated:
  assumes ok: "ledger_ok db" and none: "find_termination (tm_grant_id t) db = None"
    and st: "tm_status t \<noteq> Grant_Active" "scope_ok (tm_profile_scope t)"
    and db': "db' = (case find_budget (tm_grant_id t) db of None \<Rightarrow> db
       | Some b \<Rightarrow> put_budget (b\<lparr>gb_status := tm_status t, gb_updated_at := now\<rparr>) db)"
  shows "ledger_ok (db'\<lparr>termination_rows := termination_rows db @ [t]\<rparr>)" (is "ledger_ok ?db")
proof (rule ledger_ok_budgets)
  have rows: "termination_rows db' = termination_rows db" using db' by (simp split: option.splits)
  show ok': "ledger_ok db'" using db' ok st ok_budget_status [OF ok] by (auto split: option.splits)
  have fb: "find_budget j ?db = find_budget j db'" for j by (simp add: find_budget_def)
  then show "find_budget j db' \<noteq> None \<Longrightarrow> find_budget j ?db \<noteq> None" for j by simp
  show "budget_ok db' x" if "x \<in> set (budget_rows ?db)" for x
    using that ok' by (simp add: ledger_ok_def)
  have "case find_budget (tm_grant_id t) db' of None \<Rightarrow> True | Some b \<Rightarrow> gb_status b \<noteq> Grant_Active"
  proof (cases "find_budget (tm_grant_id t) db")
    case None
    then show ?thesis using db' by simp
  next
    case (Some b)
    then show ?thesis
      using db' st ok_budget [OF ok Some] find_put_budget [OF Some, of "b\<lparr>gb_status := tm_status t, gb_updated_at := now\<rparr>"]
      by simp
  qed
  then have new: "tombstone_ok ?db t" using st by (simp add: tombstone_ok_def fb)
  show "tombstone_ok ?db u" if "u \<in> set (termination_rows ?db)" for u
  proof (cases "u = t")
    case False
    with that rows have "u \<in> set (termination_rows db')" by simp
    from ok_old_tombstone [OF ok' this] show ?thesis by (simp add: tombstone_ok_def fb)
  qed (use new in simp)
  show "distinct (map gb_grant_id (budget_rows ?db))" using ok_keys [OF ok'] by simp
  show "distinct (map tm_grant_id (termination_rows ?db))"
    using none ok_keys [OF ok] by (simp add: find_termination_def find_row_None)
qed simp_all

lemma ok_paid:
  assumes ok: "ledger_ok db" and fresh: "fresh_action a db" and g: "ac_grant_id a = Some (gb_grant_id b)"
    and b: "find_budget (gb_grant_id b) db = Some b" and pay: "pays amount currency now b b'"
  shows "ledger_ok (add_action a (put_budget b' db))"
proof -
  define db1 where "db1 = add_action a (put_budget b' db)"
  have rows: "action_rows db1 = action_rows db @ [a]" "run_rows db1 = run_rows db"
    "budget_rows db1 = update_row gb_grant_id (gb_grant_id b) (\<lambda>_. b') (budget_rows db)"
    "termination_rows db1 = termination_rows db"
    using pay by (simp_all add: db1_def pays_def)
  have id: "gb_grant_id b' = gb_grant_id b" using pay by (simp add: pays_def)
  have fb: "find_budget j db1 = (if j = gb_grant_id b then Some b' else find_budget j db)" for j
    using find_put_budget [OF b id] by (simp add: find_budget_def rows id)
  have count: "grant_actions j db1 = grant_actions j db @ (if j = gb_grant_id b then [a] else [])" for j
    using g by (simp add: grant_actions_def rows)
  have old: "budget_ok db b" using ok_budget [OF ok b] by simp
  have cap: "money_cap b' = money_cap b" using pay by (simp add: pays_def money_cap_def)
  have paid: "gb_financial_used b' \<le> money_cap b"
    using pay old by (cases "0 < amount") (auto simp: pays_def budget_ok_def money_cap_def)
  have "budget_ok db1 b'"
  proof -
    have len: "length (grant_actions (gb_grant_id b) db1) = Suc (length (grant_actions (gb_grant_id b) db))"
      unfolding count by simp
    have "gb_effects_used b' = gb_effects_used b + 1" "gb_effect_limit b' = gb_effect_limit b"
      "gb_effects_used b < gb_effect_limit b" "gb_financial_used b \<le> gb_financial_used b'"
      "gb_profile_scope b' = gb_profile_scope b"
      using pay by (auto simp: pays_def)
    with old paid cap show ?thesis unfolding budget_ok_def id len [unfolded id] by simp
  qed
  moreover have "budget_ok db1 x" if "x \<in> set (budget_rows db)" "gb_grant_id x \<noteq> gb_grant_id b" for x
  proof -
    have "length (grant_actions (gb_grant_id x) db1) = length (grant_actions (gb_grant_id x) db)"
      unfolding count using that by simp
    from budget_ok_cong [OF this] that ok show ?thesis unfolding ledger_ok_def by blast
  qed
  ultimately have budgets: "budget_ok db1 x" if "x \<in> set (budget_rows db1)" for x
    using that id unfolding rows by (auto dest!: set_put_row)
  have "tombstone_ok db1 t" if "t \<in> set (termination_rows db)" for t
  proof (cases "tm_grant_id t = gb_grant_id b")
    case True
    with ok_old_tombstone [OF ok that] b pay show ?thesis by (simp add: tombstone_ok_def pays_def)
  next
    case False
    with ok_old_tombstone [OF ok that] show ?thesis by (simp add: tombstone_ok_def fb)
  qed
  moreover have "grants_known db1"
    unfolding grants_known_def
  proof (intro ballI allI impI)
    fix x k assume x: "x \<in> set (action_rows db1)" and k: "ac_grant_id x = Some k"
    show "find_budget k db1 \<noteq> None"
    proof (cases "x = a")
      case True
      with g k fb show ?thesis by simp
    next
      case False
      with x have "x \<in> set (action_rows db)" by (simp add: rows)
      with ok_known [OF ok this k] fb show ?thesis by simp
    qed
  qed
  moreover have "effects_unique db1" by (rule unique_add [OF ok fresh]) (rule rows)
  ultimately have "ledger_ok db1"
    unfolding ledger_ok_def keys_ok_def
    using budgets ok_keys [OF ok] fresh_id [OF fresh] id by (simp add: keys_put_row rows)
  then show ?thesis by (simp only: db1_def)
qed

lemma fresh_action_cong: "action_rows db' = action_rows db \<Longrightarrow> fresh_action a db' = fresh_action a db"
  by (simp add: fresh_action_def find_action_def)

lemma swap_run_action:
  "db\<lparr>run_rows := rs, action_rows := as\<rparr> = db\<lparr>action_rows := as, run_rows := rs\<rparr>"
  by simp

theorem ledger_step_ok:
  assumes "ledger_step db db'" and "ledger_ok db"
  shows "ledger_ok db'"
  using assms
proof (induction rule: ledger_step.induct)
  case (Effect_Reserved a db r n r')
  have "ledger_ok (put_run r' db)" by (rule ok_put_run [OF Effect_Reserved.prems])
  moreover have "fresh_action a (put_run r' db)"
    using Effect_Reserved by (simp add: fresh_action_cong [of "put_run r' db" db])
  ultimately show ?case using ok_add_action Effect_Reserved by fastforce
next
  case (Grant_Effect_Reserved a db b r r' amount currency b')
  have "ledger_ok (add_action a (put_budget b' db))"
    using Grant_Effect_Reserved by (intro ok_paid)
  from ok_put_run [OF this, of r'] show ?case by (simp add: swap_run_action)
next
  case (Budget_Status g db b st now)
  then show ?case by (intro ok_budget_status)
next
  case (Grant_Terminated t db ob db' now)
  from ok_terminated [OF Grant_Terminated.prems Grant_Terminated.hyps(1,2,3)] Grant_Terminated.hyps(4,5)
  show ?case by blast
next
  case (Action_Resolved a db a' d ref now)
  from ok_resolved [OF Action_Resolved.prems Action_Resolved.hyps(1) settles_reserved [OF Action_Resolved.hyps(2)]]
  show ?case unfolding Action_Resolved.hyps(3) .
next
  case (Action_Reconciled a db d a' now n actor)
  from ok_settled [OF Action_Reconciled.prems Action_Reconciled.hyps(1) settles_doubt [OF Action_Reconciled.hyps(2,3)]]
  show ?case unfolding Action_Reconciled.hyps(4) .
qed (simp_all add: ok_add_run ok_put_run ok_seeded ok_escalated)

end
