(* ===== verification/Ledger_Refine.thy ===== *)
theory Ledger_Refine
  imports Ledger_Lifecycle
begin

text \<open>Every call of the ledger takes at most one step of \<open>ledger_step\<close>, whatever its outcome.\<close>

section \<open>Calls that only read\<close>

definition silent :: "('s, 'e, 'a) op \<Rightarrow> bool" where
  "silent m \<longleftrightarrow> (\<forall>s. fst (m s) = s)"

lemma silentD: "silent m \<Longrightarrow> fst (m s) = s"
  by (simp add: silent_def)

named_theorems silent_intros \<open>operations without effect\<close>

lemma silent_basic [silent_intros, simp]:
  "silent (ret x)" "silent (raise e)" "silent (reads f)" "silent (unless b e)" "silent (lift r)"
  "silent (some_or e v)"
  by (simp_all add: silent_def op_defs)

lemma silent_bind [silent_intros]: "silent m \<Longrightarrow> (\<And>x. silent (f x)) \<Longrightarrow> silent (bind m f)"
  unfolding silent_def bind_def by (auto split: prod.split sum.split) (metis fst_conv)+

lemma silent_option [silent_intros]: "silent m \<Longrightarrow> (\<And>x. silent (f x)) \<Longrightarrow> silent (case v of None \<Rightarrow> m | Some x \<Rightarrow> f x)"
  by (cases v) auto

lemma silent_bind_ok: "silent m \<Longrightarrow> m s = (t, r) \<Longrightarrow> t = s"
  by (metis silentD fst_conv)

lemma silent_final:
  assumes "silent m" and "P s" and "\<And>x. m s = (s, Inr x) \<Longrightarrow> P (fst (f x s))"
  shows "P (fst (bind m f s))"
  by (rule final_bind_read [where P = P and m = m and f = f, OF silentD [OF assms(1)] assms(2,3)])

lemma silent_require_scope_access [silent_intros]: "silent (require_scope_access e c st k)"
  unfolding require_scope_access_def by (intro silent_intros)

lemma silent_require_stored_scope [silent_intros]: "silent (require_stored_scope a b k)"
  unfolding require_stored_scope_def by (intro silent_intros)

lemma silent_read_scope [silent_intros]: "silent (read_scope a)"
  unfolding read_scope_def by (intro silent_intros)

lemma silent_ledger_get [silent_intros]: "silent (ledger_get scope k)"
  unfolding ledger_get_def by (intro silent_intros)

lemma silent_get_action_sync [silent_intros]: "silent (get_action_sync k)"
  unfolding get_action_sync_def by (intro silent_intros)

lemma silent_ledger_get_action [silent_intros]: "silent (ledger_get_action scope k)"
  unfolding ledger_get_action_def by (intro silent_intros)

lemma silent_required_action [silent_intros]: "silent (required_action k)"
  unfolding required_action_def by (intro silent_intros)

lemma silent_refuse_replay [silent_intros]: "silent (refuse_replay n k)"
  unfolding refuse_replay_def by (intro silent_intros)

lemma silent_listings [silent_intros]:
  "silent (ledger_list_actions scope n l)" "silent (ledger_actions_for_run scope r)"
  "silent (ledger_reserved_actions scope)" "silent (get_grant_budget g scope)"
  "silent (ledger_escalation_task j k)"
  unfolding ledger_list_actions_def ledger_actions_for_run_def ledger_reserved_actions_def
    get_grant_budget_def ledger_escalation_task_def decode_actions_def
  by (intro silent_intros)+

section \<open>Transactions\<close>

definition at_most_one :: "ledger_db \<Rightarrow> ledger_db \<Rightarrow> bool" where
  "at_most_one db db' \<longleftrightarrow> db' = db \<or> ledger_step db db'"

lemma at_most_one_refl [simp]: "at_most_one db db"
  by (simp add: at_most_one_def)

lemma one_step: "ledger_step db db' \<Longrightarrow> at_most_one db db'"
  by (simp add: at_most_one_def)

lemma transaction_step:
  assumes "\<And>t x. m db = (t, Inr x) \<Longrightarrow> at_most_one db t"
  shows "at_most_one db (fst (atomic m db))"
  by (rule final_atomic [where P = "at_most_one db", OF at_most_one_refl assms])

lemma transaction_then_read:
  assumes "\<And>t x. m db = (t, Inr x) \<Longrightarrow> at_most_one db t" and "\<And>x. silent (f x)"
  shows "at_most_one db (fst (bind (atomic m) f db))"
  by (rule final_atomic_bind [where P = "at_most_one db", OF at_most_one_refl silentD [OF assms(2)] assms(1)])

lemma silent_then:
  assumes "silent m" and "\<And>x. m db = (db, Inr x) \<Longrightarrow> at_most_one db (fst (f x db))"
  shows "at_most_one db (fst (bind m f db))"
proof (cases "m db")
  case (Pair t r)
  with assms silentD [OF assms(1), of db] show ?thesis by (cases r) (auto simp: bind_def)
qed

text \<open>The three ways a table row is updated.\<close>

lemma keysD:
  assumes "keys_ok db"
  shows "distinct (map rn_id (run_rows db))" "distinct (map ac_id (action_rows db))"
    "distinct (map gb_grant_id (budget_rows db))"
  using assms by (simp_all add: keys_ok_def)

lemma ok_keysD [simp]: "ledger_ok db \<Longrightarrow> keys_ok db"
  by (simp add: ledger_ok_def)

lemma run_update_ok:
  assumes "keys_ok db"
  shows "sql_update_run (\<lambda>r. rn_id r = k \<and> C r) f db = (t, Inr (Suc 0)) \<longleftrightarrow>
    (\<exists>r. find_run k db = Some r \<and> C r \<and> t = db\<lparr>run_rows := update_row rn_id k (\<lambda>_. f r) (run_rows db)\<rparr>)"
  unfolding sql_update_run_def find_run_def by (rule runs.update_one_ok [OF keysD(1) [OF assms]])

lemma action_update_ok:
  assumes "keys_ok db"
  shows "sql_update_action (\<lambda>r. ac_id r = k \<and> C r) f db = (t, Inr (Suc 0)) \<longleftrightarrow>
    (\<exists>r. find_action k db = Some r \<and> C r \<and> t = db\<lparr>action_rows := update_row ac_id k (\<lambda>_. f r) (action_rows db)\<rparr>)"
  unfolding sql_update_action_def find_action_def by (rule actions.update_one_ok [OF keysD(2) [OF assms]])

lemma budget_update_ok:
  assumes "keys_ok db"
  shows "sql_update_budget (\<lambda>r. gb_grant_id r = k \<and> C r) f db = (t, Inr (Suc 0)) \<longleftrightarrow>
    (\<exists>r. find_budget k db = Some r \<and> C r \<and> t = db\<lparr>budget_rows := update_row gb_grant_id k (\<lambda>_. f r) (budget_rows db)\<rparr>)"
  unfolding sql_update_budget_def find_budget_def by (rule budgets.update_one_ok [OF keysD(3) [OF assms]])

lemma action_insert_run:
  "sql_insert_action a db = (t, Inr u) \<longleftrightarrow>
     action_insert_ok db a \<and> find_action (ac_id a) db = None \<and> t = add_action a db"
  by (auto simp: sql_insert_action_def op_ok actions.insert_ok find_action_def)

lemma found_run: "find_run k db = Some r \<Longrightarrow> rn_id r = k"
  by (auto simp: find_run_def dest: find_row_Some)

lemma found_action: "find_action k db = Some a \<Longrightarrow> ac_id a = k"
  by (auto simp: find_action_def dest: find_row_Some)

lemma found_budget: "find_budget k db = Some b \<Longrightarrow> gb_grant_id b = k"
  by (auto simp: find_budget_def dest: find_row_Some)

lemma run_updated:
  assumes "find_run k db = Some r" and "rn_outcome r = None" and "rn_id r' = k"
    and "rn_profile_scope r' = rn_profile_scope r"
  shows "at_most_one db (db\<lparr>run_rows := update_row rn_id k (\<lambda>_. r') (run_rows db)\<rparr>)"
  using one_step [OF Run_Updated [of r' db r]] assms by simp

lemma run_finish_step: "ledger_ok db \<Longrightarrow> at_most_one db (fst (finish_sync run db))"
  unfolding finish_sync_def
  by (rule transaction_step)
    (auto simp: op_ok run_update_ok intro!: run_updated dest: found_run)

lemma workflow_link_step: "ledger_ok db \<Longrightarrow> at_most_one db (fst (update_workflow_link_sync k n a w st db))"
  unfolding update_workflow_link_sync_def
  by (rule transaction_step)
    (auto simp: op_ok run_update_ok intro!: run_updated dest: found_run)

lemma action_resolved:
  assumes "find_action k db = Some a" and "ac_status a = Reserved"
  shows "at_most_one db (db\<lparr>action_rows := update_row ac_id k (\<lambda>_. a\<lparr>ac_status := Resolved d,
    ac_provider_reference := ref, ac_updated_at := now\<rparr>) (action_rows db)\<rparr>)"
  using one_step [OF Action_Resolved [where a = a and d = d and ref = ref and now = now, OF _ _ refl]] assms found_action [OF assms(1)] by simp

lemma resolve_step: "ledger_ok db \<Longrightarrow> at_most_one db (fst (resolve_action_sync now k d ref db))"
  unfolding resolve_action_sync_def
  by (rule transaction_then_read)
    (auto simp: op_ok action_update_ok intro!: action_resolved silent_intros)

lemma strand_step: "ledger_ok db \<Longrightarrow> at_most_one db (fst (strand_reserved_action_sync now k e db))"
  unfolding strand_reserved_action_sync_def
  by (rule transaction_then_read)
    (auto simp: op_ok action_update_ok intro!: action_resolved silent_intros)

lemma reconcile_step:
  assumes "ledger_ok db"
  shows "at_most_one db (fst (reconcile_action_sync now k d actor db))"
  unfolding reconcile_action_sync_def
proof (rule transaction_then_read)
  fix t x
  assume "bind (sql_update_action (\<lambda>a. ac_id a = k \<and> ac_status a = Resolved In_Doubt)
         (\<lambda>a. a\<lparr>ac_status := Resolved d, ac_updated_at := now\<rparr>)) (\<lambda>n.
       bind (unless (n = 1) (JobStoreError ''only an in_doubt action may be reconciled'')) (\<lambda>_.
       bind (unless (d \<noteq> In_Doubt) ledger_failed) (\<lambda>_.
       bind (reads (\<lambda>db. Suc (action_resolution_seq db))) (\<lambda>next_id.
       bind (writes (\<lambda>db. db\<lparr>action_resolution_rows := action_resolution_rows db
             @ [\<lparr>rs_id = next_id, rs_action_id = k, rs_disposition = d, rs_actor = actor,
                 rs_created_at = now\<rparr>], action_resolution_seq := next_id\<rparr>)) (\<lambda>_.
         ret next_id))))) db = (t, Inr x)"
  then obtain a n where a: "find_action k db = Some a" "ac_status a = Resolved In_Doubt" and d: "d \<noteq> In_Doubt"
    and t: "t = (db\<lparr>action_rows := update_row ac_id k
      (\<lambda>_. a\<lparr>ac_status := Resolved d, ac_updated_at := now\<rparr>) (action_rows db)\<rparr>)
      \<lparr>action_resolution_rows := action_resolution_rows db
        @ [\<lparr>rs_id = n, rs_action_id = k, rs_disposition = d, rs_actor = actor, rs_created_at = now\<rparr>],
        action_resolution_seq := n\<rparr>"
    by (auto simp: op_ok action_update_ok [OF ok_keysD [OF assms]])
  from one_step [OF Action_Reconciled [where n = n and now = now and actor = actor, OF _ a(2) d refl]] a t found_action [OF a(1)]
  show "at_most_one db t" by simp
qed (intro silent_intros)

section \<open>Reservations\<close>

lemma inserted_fresh:
  assumes "action_insert_ok db a" and "find_action (ac_id a) db = None" and "ac_status a = Reserved"
  shows "fresh_action a db"
  using assms by (auto simp: action_insert_ok_def fresh_action_def list_all_iff same_effect_def blocks_def)

lemma reserved_action_simps [simp]:
  "ac_id (reserved_action uuid n r i now g k) = ''action_'' @ uuid"
  "ac_job_name (reserved_action uuid n r i now g k) = n"
  "ac_run_id (reserved_action uuid n r i now g k) = r"
  "ac_action_key (reserved_action uuid n r i now g k) = ei_action_key i"
  "ac_status (reserved_action uuid n r i now g k) = Reserved"
  "ac_created_at (reserved_action uuid n r i now g k) = now"
  "ac_grant_id (reserved_action uuid n r i now g k) = g"
  "ac_task_id (reserved_action uuid n r i now g k) = k"
  by (simp_all add: reserved_action_def)

lemma refuse_replay_ok:
  "refuse_replay n k db = (t, Inr u) \<longleftrightarrow> t = db \<and> (case latest_status n k db of None \<Rightarrow> True | Some st \<Rightarrow> \<not> blocks st)"
  by (auto simp: refuse_replay_def op_ok)

lemma reserve_for_run_ok:
  assumes ok: "ledger_ok db" and run: "reserve_for_run now uuid name k i budget charge db = (t, Inr u)"
  shows "\<exists>r. find_run k db = Some r \<and> rn_outcome r = None \<and> (charge \<longrightarrow> rn_effect_calls r < budget)
    \<and> fresh_action (reserved_action uuid name k i now None None) db
    \<and> t = add_action (reserved_action uuid name k i now None None)
        (put_run (r\<lparr>rn_effect_calls := rn_effect_calls r + (if charge then 1 else 0)\<rparr>) db)"
proof -
  let ?a = "reserved_action uuid name k i now None None"
  from run obtain r where r: "find_run k db = Some r" "rn_outcome r = None"
    "charge \<longrightarrow> rn_effect_calls r < budget"
    and ins: "sql_insert_action ?a (db\<lparr>run_rows := update_row rn_id k
      (\<lambda>_. r\<lparr>rn_effect_calls := rn_effect_calls r + (if charge then 1 else 0)\<rparr>) (run_rows db)\<rparr>) = (t, Inr u)"
    by (auto simp: reserve_for_run_def op_ok refuse_replay_ok run_update_ok [OF ok_keysD [OF ok]])
  from inserted_fresh [of _ ?a] ins have "fresh_action ?a (db\<lparr>run_rows := update_row rn_id k
      (\<lambda>_. r\<lparr>rn_effect_calls := rn_effect_calls r + (if charge then 1 else 0)\<rparr>) (run_rows db)\<rparr>)"
    by (auto simp: action_insert_run)
  then have "fresh_action ?a db" by (simp add: fresh_action_def find_action_def)
  with r ins found_run [OF r(1)] show ?thesis by (auto simp: action_insert_run)
qed

lemma reserve_step:
  assumes ok: "ledger_ok db"
  shows "at_most_one db (fst (reserve_action_sync now uuid name k i budget scope charge db))"
  unfolding reserve_action_sync_def
proof (rule silent_then, simp, rule transaction_then_read)
  fix t u assume "reserve_for_run now uuid name k i budget charge db = (t, Inr u)"
  from reserve_for_run_ok [OF ok this] obtain r where r: "find_run k db = Some r" "rn_outcome r = None"
    and f: "fresh_action (reserved_action uuid name k i now None None) db"
    and t: "t = add_action (reserved_action uuid name k i now None None)
      (put_run (r\<lparr>rn_effect_calls := rn_effect_calls r + (if charge then 1 else 0)\<rparr>) db)" by blast
  show "at_most_one db t"
    unfolding t by (rule one_step, rule Effect_Reserved [OF f, where n = "if charge then 1 else 0"])
      (use r in \<open>simp_all add: charged_def\<close>)
qed simp_all

lemma expired_step:
  assumes ok: "ledger_ok db" and "find_budget g db = Some b" and "st \<noteq> Grant_Active"
  shows "at_most_one db (db\<lparr>budget_rows := update_row gb_grant_id g
    (\<lambda>_. b\<lparr>gb_status := st, gb_updated_at := now\<rparr>) (budget_rows db)\<rparr>)"
  using one_step [OF Budget_Status [OF assms(2), of st now]] assms found_budget [OF assms(2)] by simp

lemma spend_money_ok:
  assumes ok: "ledger_ok db" and b: "find_budget g db = Some b"
    and run: "spend_money g b amount currency now db = (t, Inr u)"
  shows "\<exists>b'. t = db\<lparr>budget_rows := update_row gb_grant_id g (\<lambda>_. b') (budget_rows db)\<rparr>
    \<and> (b' = b \<and> amount \<le> 0 \<or> 0 < amount \<and> gb_currency b = currency
       \<and> (\<exists>l. gb_financial_limit b = Some l \<and> gb_financial_used b + amount \<le> l)
       \<and> b' = b\<lparr>gb_financial_used := gb_financial_used b + amount, gb_updated_at := now\<rparr>)"
proof (cases "0 < amount")
  case True
  with run b show ?thesis
    by (auto simp: spend_money_def op_ok budget_update_ok [OF ok_keysD [OF ok]] split: option.splits)
next
  case False
  have "update_row gb_grant_id g (\<lambda>_. b) (budget_rows db) = budget_rows db"
    using b ok_keys(3) [OF ok] unfolding find_budget_def update_row_def
    by (intro map_idI) (metis find_row_iff option.inject)
  with False run show ?thesis by (auto simp: spend_money_def op_ok intro: exI [of _ b])
qed

lemma keys_put_budget: "keys_ok db \<Longrightarrow> gb_grant_id b = g \<Longrightarrow>
    keys_ok (db\<lparr>budget_rows := update_row gb_grant_id g (\<lambda>_. b) (budget_rows db)\<rparr>)"
  by (simp add: keys_ok_def keys_put_row)

lemma put_twice: "key r1 = k \<Longrightarrow> update_row key k (\<lambda>_. r2) (update_row key k (\<lambda>_. r1) rows)
    = update_row key k (\<lambda>_. r2) rows"
  by (induction rows) auto

lemma reserve_within_budget_ok:
  assumes ok: "ledger_ok db" and b: "find_budget g db = Some b"
    and run: "reserve_within_budget g ns task k i effect_budget amount currency now uuid b db = (t, Inr u)"
  shows "\<exists>r b'. find_run k db = Some r \<and> rn_outcome r = None \<and> rn_effect_calls r < effect_budget
    \<and> gb_task_id b = task \<and> gb_effects_used b < gb_effect_limit b
    \<and> (0 < amount \<longrightarrow> gb_currency b = currency
          \<and> (\<exists>l. gb_financial_limit b = Some l \<and> gb_financial_used b + amount \<le> l))
    \<and> b' = b\<lparr>gb_effects_used := gb_effects_used b + 1,
          gb_financial_used := gb_financial_used b + max 0 amount, gb_updated_at := now\<rparr>
    \<and> fresh_action (reserved_action uuid ns k i now (Some g) (Some task)) db
    \<and> t = add_action (reserved_action uuid ns k i now (Some g) (Some task))
        (put_run (r\<lparr>rn_effect_calls := rn_effect_calls r + 1\<rparr>) (put_budget b' db))"
proof -
  let ?a = "reserved_action uuid ns k i now (Some g) (Some task)"
  note g = found_budget [OF b]
  from run obtain db1 where task: "gb_task_id b = task"
    and spend: "spend_money g b amount currency now db = (db1, Inr ())"
    and rest: "bind (sql_update_budget (\<lambda>r. gb_grant_id r = g \<and> gb_effects_used r < gb_effect_limit r)
         (\<lambda>r. r\<lparr>gb_effects_used := gb_effects_used r + 1, gb_updated_at := now\<rparr>)) (\<lambda>n.
     bind (unless (n = 1) (GrantAuthorityError ''delegated effect-call limit exhausted'')) (\<lambda>_.
     bind (sql_update_run (\<lambda>r. rn_id r = k \<and> rn_outcome r = None \<and> rn_effect_calls r < effect_budget)
         (\<lambda>r. r\<lparr>rn_effect_calls := rn_effect_calls r + 1\<rparr>)) (\<lambda>n.
     bind (unless (n = 1) (JobEffectBudgetError ''job effect-call budget exhausted'')) (\<lambda>_.
       sql_insert_action ?a)))) db1 = (t, Inr u)"
    by (auto simp: reserve_within_budget_def op_ok refuse_replay_ok)
  from spend_money_ok [OF ok b spend] obtain b1
    where db1: "db1 = db\<lparr>budget_rows := update_row gb_grant_id g (\<lambda>_. b1) (budget_rows db)\<rparr>"
      and b1: "b1 = b \<and> amount \<le> 0 \<or> 0 < amount \<and> gb_currency b = currency
       \<and> (\<exists>l. gb_financial_limit b = Some l \<and> gb_financial_used b + amount \<le> l)
       \<and> b1 = b\<lparr>gb_financial_used := gb_financial_used b + amount, gb_updated_at := now\<rparr>" by blast
  have g1: "gb_grant_id b1 = g" and lim: "gb_effects_used b1 = gb_effects_used b" "gb_effect_limit b1 = gb_effect_limit b"
    using b1 g by auto
  have f1: "find_budget g db1 = Some b1" using b g1 by (simp add: db1 find_budget_def find_put_row)
  let ?b = "b1\<lparr>gb_effects_used := gb_effects_used b1 + 1, gb_updated_at := now\<rparr>"
  have keys: "keys_ok db1" unfolding db1 using ok g1 by (intro keys_put_budget) simp_all
  define db2 where "db2 = db1\<lparr>budget_rows := update_row gb_grant_id g (\<lambda>_. ?b) (budget_rows db1)\<rparr>"
  have keys2: "keys_ok db2" unfolding db2_def using keys g1 by (intro keys_put_budget) simp_all
  have db2: "db2 = db\<lparr>budget_rows := update_row gb_grant_id g (\<lambda>_. ?b) (budget_rows db)\<rparr>"
    using g1 by (simp add: db2_def db1 put_twice)
  from rest f1 have room: "gb_effects_used b < gb_effect_limit b"
    and rest2: "bind (sql_update_run (\<lambda>r. rn_id r = k \<and> rn_outcome r = None \<and> rn_effect_calls r < effect_budget)
         (\<lambda>r. r\<lparr>rn_effect_calls := rn_effect_calls r + 1\<rparr>)) (\<lambda>n.
     bind (unless (n = 1) (JobEffectBudgetError ''job effect-call budget exhausted'')) (\<lambda>_.
       sql_insert_action ?a)) db2 = (t, Inr u)"
    by (auto simp: bind_ok [of "sql_update_budget _ _"] unless_ok budget_update_ok [OF keys] db2_def
        bind_ok [of "unless _ _"] lim)
  then obtain r where r: "find_run k db2 = Some r" "rn_outcome r = None" "rn_effect_calls r < effect_budget"
    and ins: "action_insert_ok (db2\<lparr>run_rows := update_row rn_id k
        (\<lambda>_. r\<lparr>rn_effect_calls := rn_effect_calls r + 1\<rparr>) (run_rows db2)\<rparr>) ?a"
      "find_action (ac_id ?a) (db2\<lparr>run_rows := update_row rn_id k
        (\<lambda>_. r\<lparr>rn_effect_calls := rn_effect_calls r + 1\<rparr>) (run_rows db2)\<rparr>) = None" "ac_status ?a = Reserved"
    and t: "t = add_action ?a (db2\<lparr>run_rows := update_row rn_id k
        (\<lambda>_. r\<lparr>rn_effect_calls := rn_effect_calls r + 1\<rparr>) (run_rows db2)\<rparr>)"
    by (auto simp: op_ok run_update_ok [OF keys2] action_insert_run)
  from inserted_fresh [OF ins] have "fresh_action ?a db" by (simp add: fresh_action_def find_action_def db2)
  moreover have "find_run k db = Some r" using r by (simp add: find_run_def db2)
  moreover have "?b = b\<lparr>gb_effects_used := gb_effects_used b + 1,
      gb_financial_used := gb_financial_used b + max 0 amount, gb_updated_at := now\<rparr>"
    using b1 by auto
  ultimately show ?thesis using task room r(2,3) b1 t g found_run [OF r(1)] by (auto simp: db2)
qed

lemma scope_same:
  assumes "scope_ok s"
  shows "profile_scope (primary s) (profiles s) = Inr s"
proof -
  have p: "canonical_list (profiles s)" "SHARED_PROFILE \<in> set (profiles s)" "primary s \<in> set (profiles s)"
    using assms by (simp_all add: scope_ok_def)
  then have "profile_ok (primary s)" by (auto simp: canonical_list_def list_all_iff)
  then have "profile_name_re (primary s)" "validate_profile_compartment (primary s) = Inr (primary s)"
    by (auto simp: validate_compartment_ok profile_name_strip profile_ok_def)
  with p show ?thesis
    by (simp add: profile_scope_def canonical_profiles_fix canonical_names require_def)
qed

lemma some_or_silent: "some_or e v db = (t, Inr x) \<Longrightarrow> v = Some x"
  by (simp add: op_ok)

text \<open>What a successful reservation proves, and that a failing one changes nothing but an expired status.\<close>

lemma grant_reservation_ok:
  assumes ok: "ledger_ok db"
    and run: "reserve_grant_action_sync now uuid g ns task k i effect_budget amount currency scope db = (t, Inr a)"
  shows "\<exists>b r b'. find_budget g db = Some b \<and> find_run k db = Some r \<and> rn_outcome r = None
    \<and> rn_effect_calls r < effect_budget \<and> gb_task_id b = task \<and> pays amount currency now b b'
    \<and> fresh_action (reserved_action uuid ns k i now (Some g) (Some task)) db
    \<and> t = add_action (reserved_action uuid ns k i now (Some g) (Some task))
        (put_run (r\<lparr>rn_effect_calls := rn_effect_calls r + 1\<rparr>) (put_budget b' db))
    \<and> new_action uuid ns k i now scope = Inr a"
proof -
  from run obtain b where b: "find_budget g db = Some b" "gb_status b = Grant_Active" "\<not> gb_expires_at b \<le> now"
    and a: "new_action uuid ns k i now scope = Inr a"
    and body: "reserve_within_budget g ns task k i effect_budget amount currency now uuid b db = (t, Inr ())"
    by (auto simp: reserve_grant_action_sync_def op_ok split: if_splits
        dest: silent_bind_ok [OF silent_require_stored_scope])
  from reserve_within_budget_ok [OF ok b(1) body] b a show ?thesis by (auto simp: pays_def)
qed

lemma reserve_grant_step:
  assumes ok: "ledger_ok db"
  shows "at_most_one db (fst (reserve_grant_action_sync now uuid g ns task k i effect_budget amount currency scope db))"
proof (cases rule: op_cases [of "reserve_grant_action_sync now uuid g ns task k i effect_budget amount currency scope" db])
  case (ok t a)
  from grant_reservation_ok [OF assms ok] obtain b r b' where
    f: "find_budget g db = Some b" "find_run k db = Some r" "rn_outcome r = None" "gb_task_id b = task"
      "pays amount currency now b b'" "fresh_action (reserved_action uuid ns k i now (Some g) (Some task)) db"
    and t: "t = add_action (reserved_action uuid ns k i now (Some g) (Some task))
        (put_run (r\<lparr>rn_effect_calls := rn_effect_calls r + 1\<rparr>) (put_budget b' db))" by blast
  have "ledger_step db t"
    unfolding t by (rule Grant_Effect_Reserved [OF f(6), where b = b and r = r])
      (use f found_budget [OF f(1)] in \<open>auto simp: charged_def\<close>)
  with ok show ?thesis by (simp add: one_step)
next
  case (err t e)
  have "t = db \<or> (\<exists>b. find_budget g db = Some b \<and> t = db\<lparr>budget_rows := update_row gb_grant_id g
      (\<lambda>_. b\<lparr>gb_status := Grant_Expired, gb_updated_at := now\<rparr>) (budget_rows db)\<rparr>)"
    using err budgets.update_ok [OF ok_keys(3) [OF assms]]
    by (auto simp: reserve_grant_action_sync_def op_ok op_err sql_update_budget_def find_budget_def
        split: if_splits dest: silent_bind_ok [OF silent_require_stored_scope]
        simp: budgets.update_err [OF ok_keys(3) [OF assms]] budgets.update_ok [OF ok_keys(3) [OF assms]])
  then show ?thesis using expired_step [OF assms] err by auto
qed

lemma insert_step:
  "at_most_one db (fst (ledger_insert scope run db))"
  unfolding ledger_insert_def
proof (rule silent_then, rule silent_require_scope_access, rule transaction_then_read)
  fix t x assume "sql_insert run_rows run_rows_update rn_id (\<lambda>_. True) ledger_failed run db = (t, Inr x)"
  then show "at_most_one db t"
    using one_step [OF Run_Added [of run db]] by (auto simp: runs.insert_ok find_run_def)
qed simp

lemma escalation_step: "at_most_one db (fst (ledger_correlate_escalation now key n b t k scope db))"
  unfolding ledger_correlate_escalation_def Let_def
proof (rule silent_then, rule silent_ledger_get, rule silent_then, simp)
  have es: "escalation_rows_update f db = db\<lparr>escalation_rows := f (escalation_rows db)\<rparr>" for f by simp
  have st: "at_most_one db (escalation_rows_update f db)" for f
    unfolding es [of f] by (rule one_step, rule Escalated)
  fix run x
  show "at_most_one db (fst ((case x of
       None \<Rightarrow> bind (writes (escalation_rows_update (\<lambda>rows. rows @ [\<lparr>es_key = (key scope n, b), es_task_id = t,
                 es_run_id = k, es_updated_at = now\<rparr>]))) (\<lambda>_. ret t)
     | Some e \<Rightarrow> bind (writes (escalation_rows_update (map (\<lambda>r. if es_key r = (key scope n, b)
                 then r\<lparr>es_run_id := k, es_updated_at := now\<rparr> else r)))) (\<lambda>_. ret (es_task_id e))) db))"
    using st by (cases x) (simp_all add: op_defs)
qed

lemma seed_step:
  assumes ok: "ledger_ok db" and sc: "scope_ok scope"
  shows "at_most_one db (fst (seed_grant_budget now g task limit money currency expires scope db))"
  unfolding seed_grant_budget_def
proof (rule transaction_step)
  fix t x
  let ?new = "\<lambda>ot. \<lparr>gb_grant_id = g, gb_task_id = task, gb_effect_limit = limit,
                gb_effects_used = 0, gb_financial_limit = money, gb_financial_used = 0,
                gb_currency = currency,
                gb_status = (case ot of None \<Rightarrow> Grant_Active | Some t \<Rightarrow> tm_status t),
                gb_expires_at = expires, gb_updated_at = now, gb_profile_scope = scope\<rparr>"
  assume run: "bind (reads (find_termination g)) (\<lambda>termination.
     bind (reads (find_budget g)) (\<lambda>existing.
       case existing of
         Some b \<Rightarrow>
           bind (require_stored_scope (gb_profile_scope b) scope ''grant budget'') (\<lambda>_.
           bind (unless (gb_effect_limit b = limit \<and> gb_financial_limit b = money
                 \<and> gb_currency b = currency)
               (JobStoreError ''a grant budget can never be widened after issue'')) (\<lambda>_.
             case termination of
               Some t \<Rightarrow> if gb_status b = Grant_Active
                 then bind (sql_update_budget (\<lambda>r. gb_grant_id r = g)
                        (\<lambda>r. r\<lparr>gb_status := tm_status t, gb_updated_at := now\<rparr>)) (\<lambda>_. ret ())
                 else ret ()
             | None \<Rightarrow> ret ()))
       | None \<Rightarrow>
           bind (case termination of None \<Rightarrow> ret ()
               | Some t \<Rightarrow> require_stored_scope (tm_profile_scope t) scope ''grant budget termination'') (\<lambda>_.
             sql_insert budget_rows budget_rows_update gb_grant_id (\<lambda>_. True) ledger_failed
               (?new termination)))) db = (t, Inr x)"
  show "at_most_one db t"
  proof (cases "find_budget g db")
    case None
    with run have "t = db\<lparr>budget_rows := budget_rows db @ [?new (find_termination g db)]\<rparr>"
      by (auto simp: op_ok budgets.insert_ok split: option.splits
          dest!: silent_bind_ok [OF silent_require_stored_scope])
    moreover have "new_budget db (?new (find_termination g db))"
      using None sc by (simp add: new_budget_def)
    ultimately show ?thesis using one_step [OF Budget_Seeded] by simp
  next
    case (Some b)
    show ?thesis
    proof (cases "find_termination g db")
      case None
      with run Some show ?thesis
        by (auto simp: op_ok dest!: silent_bind_ok [OF silent_require_stored_scope])
    next
      case (Some d)
      have "tm_status d \<noteq> Grant_Active" using ok_tombstone [OF ok Some] by (simp add: tombstone_ok_def)
      from expired_step [OF ok \<open>find_budget g db = Some b\<close> this, of now]
      show ?thesis using run Some \<open>find_budget g db = Some b\<close>
        by (auto simp: op_ok sql_update_budget_def find_budget_def budgets.update_ok [OF ok_keys(3) [OF ok]]
            split: if_splits dest!: silent_bind_ok [OF silent_require_stored_scope])
    qed
  qed
qed

lemma budget_update_any:
  assumes keys: "keys_ok db"
    and run: "sql_update_budget (\<lambda>r. gb_grant_id r = g \<and> C r) f db = (t, Inr n)"
  shows "t = (case find_budget g db of None \<Rightarrow> db | Some r \<Rightarrow> if C r
    then db\<lparr>budget_rows := update_row gb_grant_id g (\<lambda>_. f r) (budget_rows db)\<rparr> else db)"
proof -
  have t: "t = db\<lparr>budget_rows := map (\<lambda>r. if gb_grant_id r = g \<and> C r then f r else r) (budget_rows db)\<rparr>"
    using run by (auto simp: sql_update_budget_def sql_update_def op_ok)
  show ?thesis
  proof (cases "\<exists>r. find_budget g db = Some r \<and> C r")
    case True
    then obtain r where r: "find_row gb_grant_id g (budget_rows db) = Some r" "C r"
      by (auto simp: find_budget_def)
    from budgets.map_where_one [where C = C, OF keysD(3) [OF keys] r] r show ?thesis
      by (simp add: t find_budget_def)
  next
    case False
    have "map (\<lambda>r. if gb_grant_id r = g \<and> C r then f r else r) (budget_rows db) = budget_rows db"
    proof (rule map_idI)
      fix r assume "r \<in> set (budget_rows db)"
      then have "gb_grant_id r = g \<Longrightarrow> find_budget g db = Some r"
        using find_row_mem [OF keysD(3) [OF keys]] by (auto simp: find_budget_def)
      with False show "(if gb_grant_id r = g \<and> C r then f r else r) = r" by auto
    qed
    with t have "t = db" by simp
    with False show ?thesis by (auto split: option.splits)
  qed
qed

lemma read_scope_ok: "scope_ok s \<Longrightarrow> read_scope s db = (t, Inr s') \<Longrightarrow> t = db \<and> s' = s"
  by (auto simp: read_scope_def op_ok scope_same)

lemma keys_add_tombstone:
  "keys_ok db \<Longrightarrow> find_termination (tm_grant_id t) db = None \<Longrightarrow>
     keys_ok (db\<lparr>termination_rows := termination_rows db @ [t]\<rparr>)"
  by (simp add: keys_ok_def find_termination_def find_row_None)

lemma status_step:
  assumes ok: "ledger_ok db" and sc: "scope_ok scope"
  shows "at_most_one db (fst (set_grant_budget_status now g st scope db))"
  unfolding set_grant_budget_status_def
proof (rule transaction_step, goal_cases)
  case (1 t x)
  define stored where "stored = (case find_budget g db of Some b \<Rightarrow> gb_profile_scope b
    | None \<Rightarrow> (case find_termination g db of Some t \<Rightarrow> tm_profile_scope t | None \<Rightarrow> scope))"
  have sok: "scope_ok stored"
    using sc ok_budget [OF ok] ok_tombstone [OF ok] unfolding stored_def
    by (auto simp: budget_ok_def tombstone_ok_def split: option.splits)
  have rd: "(case find_budget g db of Some b \<Rightarrow> read_scope (gb_profile_scope b)
           | None \<Rightarrow> (case find_termination g db of Some t \<Rightarrow> read_scope (tm_profile_scope t)
                     | None \<Rightarrow> ret scope)) db = (d, Inr s) \<Longrightarrow> d = db \<and> s = stored" for d s
    using sok unfolding stored_def by (auto simp: op_ok read_scope_ok split: option.splits)
  let ?put = "\<lambda>st' d. case find_budget g d of None \<Rightarrow> d | Some r \<Rightarrow> if gb_profile_scope r = stored
    then d\<lparr>budget_rows := update_row gb_grant_id g (\<lambda>_. r\<lparr>gb_status := st', gb_updated_at := now\<rparr>) (budget_rows d)\<rparr>
    else d"
  from 1 obtain d st' n where
    mid: "(if st \<noteq> Grant_Active
           then case find_termination g db of
               None \<Rightarrow> bind (sql_insert termination_rows termination_rows_update tm_grant_id
                     (\<lambda>_. True) ledger_failed \<lparr>tm_grant_id = g, tm_status = st,
                        tm_updated_at = now, tm_profile_scope = stored\<rparr>) (\<lambda>_. ret st)
             | Some t \<Rightarrow> bind (require_stored_scope (tm_profile_scope t) stored
                     ''grant budget termination'') (\<lambda>_. ret (tm_status t))
           else bind (unless (find_termination g db = None)
               (JobStoreError ''a terminated grant budget cannot be reactivated'')) (\<lambda>_. ret Grant_Active)) db
        = (d, Inr st')"
    and upd: "sql_update_budget (\<lambda>r. gb_grant_id r = g \<and> gb_profile_scope r = stored)
       (\<lambda>r. r\<lparr>gb_status := st', gb_updated_at := now\<rparr>) d = (t, Inr n)"
    by (auto simp: bind_ok reads_ok ret_ok dest!: rd silent_bind_ok [OF silent_require_scope_access])
  show ?case
  proof (cases "find_termination g db")
    case None
    show ?thesis
    proof (cases "st = Grant_Active")
      case True
      with mid None have d: "d = db" "st' = Grant_Active" by (auto simp: op_ok)
      from budget_update_any [OF ok_keysD [OF ok] upd [unfolded d]] None
      show ?thesis using one_step [OF Budget_Status [of g db _ Grant_Active now]] found_budget
        by (auto split: option.splits if_splits)
    next
      case False
      let ?t = "\<lparr>tm_grant_id = g, tm_status = st, tm_updated_at = now, tm_profile_scope = stored\<rparr>"
      from False mid None have d: "d = db\<lparr>termination_rows := termination_rows db @ [?t]\<rparr>" "st' = st"
        by (auto simp: op_ok terminations.insert_ok)
      have keys: "keys_ok d" unfolding d using ok None by (intro keys_add_tombstone) simp_all
      have fd: "find_budget g d = find_budget g db" by (simp add: d find_budget_def)
      let ?db' = "case find_budget g db of None \<Rightarrow> db
        | Some b \<Rightarrow> put_budget (b\<lparr>gb_status := st, gb_updated_at := now\<rparr>) db"
      have "t = ?db'\<lparr>termination_rows := termination_rows db @ [?t]\<rparr>"
        using budget_update_any [OF keys upd] found_budget unfolding fd
        by (auto simp: d stored_def split: option.splits)
      moreover have "ledger_step db (?db'\<lparr>termination_rows := termination_rows db @ [?t]\<rparr>)"
        by (rule Grant_Terminated [where t = ?t and now = now, OF _ _ _ refl]) (use None False sok in \<open>simp_all cong: option.case_cong\<close>)
      ultimately show ?thesis by (simp add: one_step)
    qed
  next
    case (Some d0)
    from mid Some have d: "d = db" "st' = tm_status d0"
      by (auto simp: op_ok split: if_splits dest!: silent_bind_ok [OF silent_require_stored_scope])
    have "tm_status d0 \<noteq> Grant_Active" using ok_tombstone [OF ok Some] by (simp add: tombstone_ok_def)
    then show ?thesis
      using budget_update_any [OF ok_keysD [OF ok] upd [unfolded d]] expired_step [OF ok]
      by (auto split: option.splits if_splits)
  qed
qed

section \<open>Runs of the ledger\<close>

text \<open>The calls that may change the ledger.  A call comes with its clock reading and its \<open>uuid4\<close>.\<close>

datatype ledger_call =
    L_Insert profile_scope job_run
  | L_Finish profile_scope job_run
  | L_Workflow profile_scope string string json "string option" "workflow_run_status option"
  | L_Reserve string string effect_identity int profile_scope bool
  | L_Reserve_Grant string string string string effect_identity int int "string option" profile_scope
  | L_Resolve string effect_disposition profile_scope "string option"
  | L_Strand string profile_scope string
  | L_Reconcile string effect_disposition profile_scope string
  | L_Seed string string int "int option" "string option" instant profile_scope
  | L_Status string grant_status profile_scope
  | L_Escalate string string string string profile_scope

fun ledger_exec :: "(profile_scope \<Rightarrow> string \<Rightarrow> string) \<Rightarrow> instant \<times> string \<times> ledger_call \<Rightarrow> ledger_db \<Rightarrow> ledger_db" where
  "ledger_exec key (now, uuid, L_Insert sc r) db = fst (ledger_insert sc r db)"
| "ledger_exec key (now, uuid, L_Finish sc r) db = fst (ledger_finish sc r db)"
| "ledger_exec key (now, uuid, L_Workflow sc k n a w st) db = fst (ledger_update_workflow_link sc k n a w st db)"
| "ledger_exec key (now, uuid, L_Reserve n k i b sc c) db = fst (ledger_reserve_action now uuid n k i b sc c db)"
| "ledger_exec key (now, uuid, L_Reserve_Grant g ns task k i b m cur sc) db =
     fst (ledger_reserve_grant_action now uuid g ns task k i b m cur sc db)"
| "ledger_exec key (now, uuid, L_Resolve k d sc ref) db = fst (ledger_resolve_action now k d sc ref db)"
| "ledger_exec key (now, uuid, L_Strand k sc e) db = fst (ledger_strand_action now k sc e db)"
| "ledger_exec key (now, uuid, L_Reconcile k d sc actor) db = fst (ledger_reconcile_action now k d sc actor db)"
| "ledger_exec key (now, uuid, L_Seed g task l m cur e sc) db = fst (seed_grant_budget now g task l m cur e sc db)"
| "ledger_exec key (now, uuid, L_Status g st sc) db = fst (set_grant_budget_status now g st sc db)"
| "ledger_exec key (now, uuid, L_Escalate n b task k sc) db =
     fst (ledger_correlate_escalation now key n b task k sc db)"

text \<open>Scopes are instances of \<open>ProfileScope\<close>.\<close>

fun ledger_call_typed :: "ledger_call \<Rightarrow> bool" where
  "ledger_call_typed (L_Seed g task l m cur e sc) = scope_ok sc"
| "ledger_call_typed (L_Status g st sc) = scope_ok sc"
| "ledger_call_typed c = True"

lemma final_bind_ret: "fst (bind m (\<lambda>x. ret (f x)) s) = fst (m s)"
  unfolding bind_def ret_def by (auto split: prod.split sum.split)

lemma ledger_exec_step:
  assumes ok: "ledger_ok db" and typed: "ledger_call_typed c"
  shows "at_most_one db (ledger_exec key (now, uuid, c) db)"
proof (cases c)
  case (L_Workflow sc k n a w st)
  have "at_most_one db (fst (bind (update_workflow_link_sync k n a w st) (\<lambda>_. ledger_get sc k) db))"
  proof (cases rule: op_cases [of "update_workflow_link_sync k n a w st" db])
    case (ok t x)
    with workflow_link_step [OF assms(1), of k n a w st] show ?thesis
      by (simp add: bind_def silentD [OF silent_ledger_get])
  next
    case (err t e)
    with workflow_link_step [OF assms(1), of k n a w st] show ?thesis by (simp add: bind_def)
  qed
  then show ?thesis
    unfolding L_Workflow ledger_exec.simps ledger_update_workflow_link_def
    by (rule silent_then [OF silent_ledger_get])
next
  case (L_Finish sc r)
  have fin: "at_most_one db (fst (bind (finish_sync r) (\<lambda>_. ret r) db))"
    using run_finish_step [OF ok, of r] by (simp add: final_bind_ret)
  show ?thesis
    unfolding L_Finish ledger_exec.simps ledger_finish_def
    by (rule silent_then, simp, rule silent_then, rule silent_require_scope_access,
        rule silent_then [OF silent_ledger_get], rule silent_then, simp, rule fin)
qed (use assms in \<open>simp_all add: ledger_reserve_action_def ledger_reserve_grant_action_def
    ledger_resolve_action_def ledger_strand_action_def ledger_reconcile_action_def insert_step
    silent_then [OF silent_ledger_get] silent_then [OF silent_ledger_get_action]
    silent_then [OF silent_basic(4)] reserve_step reserve_grant_step resolve_step strand_step
    reconcile_step seed_step status_step escalation_step\<close>)

definition ledger_run ::
  "(profile_scope \<Rightarrow> string \<Rightarrow> string) \<Rightarrow> (instant \<times> string \<times> ledger_call) list \<Rightarrow> ledger_db \<Rightarrow> ledger_db" where
  "ledger_run key cs db = fold (ledger_exec key) cs db"

lemma ledger_run_steps:
  assumes "ledger_ok db" and "list_all (\<lambda>(_, _, c). ledger_call_typed c) cs"
  shows "ledger_step\<^sup>*\<^sup>* db (ledger_run key cs db) \<and> ledger_ok (ledger_run key cs db)"
  using assms
proof (induction cs arbitrary: db)
  case (Cons c cs)
  obtain now uuid call where c: "c = (now, uuid, call)" by (cases c)
  have one: "at_most_one db (ledger_exec key c db)"
    using Cons.prems unfolding c by (intro ledger_exec_step) simp_all
  then have "ledger_ok (ledger_exec key c db)"
    using ledger_step_ok Cons.prems(1) by (auto simp: at_most_one_def)
  with Cons have "ledger_step\<^sup>*\<^sup>* (ledger_exec key c db) (ledger_run key (c # cs) db)
      \<and> ledger_ok (ledger_run key (c # cs) db)" by (simp add: ledger_run_def)
  with one show ?case by (auto simp: at_most_one_def intro: converse_rtranclp_into_rtranclp)
qed (simp add: ledger_run_def)

end
