(* ===== verification/Ledger_Properties.thy ===== *)
theory Ledger_Properties
  imports Ledger_Refine "HOL-Library.Code_Target_Numeral"
begin

text \<open>The properties of the job ledger, each with a concrete instance.\<close>

inductive_cases ledger_stepE: "ledger_step db db'"

section \<open>What steps leave alone\<close>

text \<open>A step changes an action only if it is reserved or in doubt.\<close>

lemma other_action:
  assumes ok: "ledger_ok db" and a: "a \<in> set (action_rows db)" and a0: "find_action (ac_id a0) db = Some a0"
    and "ac_id a' = ac_id a0" and "ac_status a \<noteq> ac_status a0"
  shows "a \<in> set (update_row ac_id (ac_id a') (\<lambda>_. a') (action_rows db))"
proof -
  have "ac_id a \<noteq> ac_id a0"
  proof
    assume "ac_id a = ac_id a0"
    with find_row_mem [OF ok_keys(2) [OF ok] a] a0 have "Some a = Some a0"
      by (simp only: find_action_def)
    with assms(5) show False by simp
  qed
  with a assms(4) show ?thesis by (auto simp: in_update_row intro!: bexI [of _ a])
qed

lemma settled_forever:
  assumes "ledger_step db db'" and "ledger_ok db" and "a \<in> set (action_rows db)"
    and "ac_status a = Resolved d" and "d \<noteq> In_Doubt"
  shows "a \<in> set (action_rows db')"
  using assms(1)
proof cases
  case (Action_Resolved a0 a' d' ref now)
  then show ?thesis using other_action [OF assms(2,3), of a0 a'] assms(4) by simp
next
  case (Action_Reconciled a0 d' a' now n actor)
  then show ?thesis using other_action [OF assms(2,3), of a0 a'] assms(4,5) by simp
qed (use assms(3) in \<open>auto split: option.splits\<close>)

lemma tombstone_forever:
  assumes "ledger_step db db'" and "find_termination g db = Some t"
  shows "find_termination g db' = Some t"
  using assms by cases (auto simp: find_termination_def find_row_append split: option.splits)

lemma terminated_budget:
  "ledger_ok db \<Longrightarrow> find_termination g db = Some t \<Longrightarrow> find_budget g db = Some b \<Longrightarrow> gb_status b \<noteq> Grant_Active"
  by (auto simp: tombstone_ok_def dest: ok_tombstone)

lemma terminated_idle:
  assumes step: "ledger_step db db'" and ok: "ledger_ok db" and t: "find_termination g db = Some t"
  shows "length (grant_actions g db') = length (grant_actions g db)"
  using step
proof cases
  case (Action_Resolved a a' d ref now)
  from length_filter_put [OF ok_keys(2) [OF ok], of "ac_id a" a "\<lambda>x. ac_grant_id x = Some g" a'] Action_Resolved
  show ?thesis by (simp add: grant_actions_def find_action_def)
next
  case (Action_Reconciled a d a' now n actor)
  from length_filter_put [OF ok_keys(2) [OF ok], of "ac_id a" a "\<lambda>x. ac_grant_id x = Some g" a'] Action_Reconciled
  show ?thesis by (simp add: grant_actions_def find_action_def)
next
  case (Grant_Effect_Reserved a b r r' amount currency b')
  with terminated_budget [OF ok t] have "gb_grant_id b \<noteq> g" by (auto simp: pays_def)
  with Grant_Effect_Reserved show ?thesis by (simp add: grant_actions_def)
qed (auto simp: grant_actions_def split: option.splits)

lemma ledger_run_induct:
  assumes "list_all (\<lambda>(_, _, c). ledger_call_typed c) cs" and "ledger_ok db" and "P db"
    and step: "\<And>d d'. ledger_step d d' \<Longrightarrow> ledger_ok d \<Longrightarrow> P d \<Longrightarrow> P d'"
  shows "P (ledger_run key cs db)"
proof -
  have "ledger_step\<^sup>*\<^sup>* db d \<Longrightarrow> P d \<and> ledger_ok d" for d
    by (induction rule: rtranclp_induct) (use assms(2,3) step ledger_step_ok in blast)+
  with ledger_run_steps [OF assms(2,1)] show ?thesis by blast
qed

abbreviation calls_typed :: "(instant \<times> string \<times> ledger_call) list \<Rightarrow> bool" where
  "calls_typed \<equiv> list_all (\<lambda>(_, _, c). ledger_call_typed c)"

abbreviation reached where
  "reached key cs \<equiv> ledger_run key cs empty_ledger"

lemma reached_ok: "calls_typed cs \<Longrightarrow> ledger_ok (reached key cs)"
  using ledger_run_steps empty_ledger_ok by blast

lemma reached_append: "ledger_run key (cs @ ds) db = ledger_run key ds (ledger_run key cs db)"
  by (simp add: ledger_run_def)

section \<open>A sample ledger\<close>

definition here :: profile_scope where
  "here = \<lparr>primary = ''shared'', profiles = [''shared'']\<rparr>"

definition run0 :: job_run where
  "run0 = \<lparr>rn_id = ''r1'', rn_job_name = None, rn_spec_digest = None, rn_provider = ''p'',
     rn_model = ''m'', rn_profile_scope = here, rn_session_id = ''s'', rn_outcome = None,
     rn_started_at = 0, rn_finished_at = None, rn_iterations = 0, rn_prompt_tokens = 0,
     rn_completion_tokens = 0, rn_final_message = None, rn_error = None, rn_transcript_path = None,
     rn_dry_run = False, rn_effect_calls = 0, rn_runtime_policy_digest = None,
     rn_result_notification = Notify_Always, rn_context_lineage = None, rn_context_revision = None,
     rn_context_definition_digest = None, rn_trigger = Trigger_Manual, rn_trigger_id = None,
     rn_workflow_name = None, rn_workflow_args = None, rn_workflow_run_id = None,
     rn_workflow_status = None\<rparr>"

definition effect0 :: effect_identity where
  "effect0 = \<lparr>ei_operation = ''pay'', ei_target = ''shop'', ei_occurrence = ''1'',
     ei_summary = ''pay the shop'', ei_action_key = replicate 64 (CHR ''a'')\<rparr>"

definition paid0 :: "(instant \<times> string \<times> ledger_call) list" where
  "paid0 = [(1, [], L_Insert here run0), (2, [], L_Seed ''g'' ''t'' 2 (Some 500) (Some ''EUR'') 100 here),
     (3, ''1'', L_Reserve_Grant ''g'' ''delegated:t'' ''t'' ''r1'' effect0 5 300 (Some ''EUR'') here),
     (4, [], L_Resolve ''action_1'' Performed here (Some ''ref''))]"

definition key0 :: "profile_scope \<Rightarrow> string \<Rightarrow> string" where
  "key0 sc n = n"

lemma paid0_typed: "calls_typed paid0"
  by code_simp

lemma paid0_rows: "map ac_status (action_rows (reached key0 paid0)) = [Resolved Performed]
    \<and> map (\<lambda>b. (gb_effects_used b, gb_financial_used b)) (budget_rows (reached key0 paid0)) = [(1, 300)]"
  by code_simp

section \<open>The ledger as a state machine\<close>

text \<open>
  C12: whatever sequence of calls the ledger receives, with whatever arguments and clock readings, it
  only moves by its specified steps, each call taking at most one.  The invariant of the steps
  therefore holds in every ledger the code can produce.
\<close>

theorem ledger_calls_follow_steps:
  assumes "calls_typed cs"
  shows "ledger_step\<^sup>*\<^sup>* empty_ledger (reached key cs) \<and> ledger_ok (reached key cs)
    \<and> (\<forall>now uuid c. ledger_call_typed c \<longrightarrow>
         at_most_one (reached key cs) (ledger_exec key (now, uuid, c) (reached key cs)))"
  using ledger_run_steps [OF empty_ledger_ok assms] ledger_exec_step by blast

theorem ledger_calls_follow_steps_witness:
  "ledger_ok (reached key0 paid0) \<and> budget_rows (reached key0 paid0) \<noteq> []"
  using ledger_calls_follow_steps [OF paid0_typed, of key0] paid0_rows by auto

text \<open>
  C8: no grant ever spends more than its budget: in every ledger the code can produce, the effects
  charged to a grant are exactly the actions reserved under it and stay within the effect limit, and
  the money charged is never negative and never above the financial limit.
\<close>

theorem grant_budget_respected:
  assumes "calls_typed cs" and "b \<in> set (budget_rows (reached key cs))"
  shows "gb_effects_used b = int (length (filter (\<lambda>a. ac_grant_id a = Some (gb_grant_id b))
      (action_rows (reached key cs)))) \<and> gb_effects_used b \<le> max 0 (gb_effect_limit b)
    \<and> 0 \<le> gb_financial_used b
    \<and> (case gb_financial_limit b of None \<Rightarrow> gb_financial_used b = 0
       | Some l \<Rightarrow> gb_financial_used b \<le> max 0 l)"
proof -
  have "budget_ok (reached key cs) b" using reached_ok [OF assms(1), of key] assms(2) by (simp add: ledger_ok_def)
  then show ?thesis
    unfolding budget_ok_def grant_actions_def money_cap_def by (auto split: option.splits)
qed

theorem grant_budget_respected_witness:
  "\<exists>b \<in> set (budget_rows (reached key0 paid0)). gb_financial_used b = 300
    \<and> 0 \<le> gb_financial_used b \<and> gb_effects_used b = 1"
proof -
  obtain b where b: "budget_rows (reached key0 paid0) = [b]" "gb_effects_used b = 1" "gb_financial_used b = 300"
    using paid0_rows by auto
  with grant_budget_respected [OF paid0_typed, of b key0] show ?thesis by auto
qed

section \<open>Effects happen once\<close>

lemma reserve_refused:
  assumes ok: "ledger_ok db" and a: "a \<in> set (action_rows db)" "ac_status a = Resolved Performed"
    and i: "ei_action_key i = ac_action_key a"
  shows "\<exists>e. snd (ledger_reserve_action now uuid (ac_job_name a) k i budget sc c db) = Inl e"
proof (cases rule: op_cases [of "ledger_reserve_action now uuid (ac_job_name a) k i budget sc c" db])
  case (ok t x)
  then have "reserve_for_run now uuid (ac_job_name a) k i budget c db = (t, Inr ())"
    by (auto simp: ledger_reserve_action_def reserve_action_sync_def op_ok
        dest: silent_bind_ok [OF silent_ledger_get])
  from reserve_for_run_ok [OF assms(1) this] a i show ?thesis
    by (auto simp: fresh_action_def same_effect_def)
qed simp

lemma grant_reserve_refused:
  assumes ok: "ledger_ok db" and a: "a \<in> set (action_rows db)" "ac_status a = Resolved Performed"
    and i: "ei_action_key i = ac_action_key a"
  shows "\<exists>e. snd (ledger_reserve_grant_action now uuid g (ac_job_name a) task k i budget m cur sc db) = Inl e"
proof (cases rule: op_cases [of "ledger_reserve_grant_action now uuid g (ac_job_name a) task k i budget m cur sc" db])
  case (ok t x)
  then obtain sc' where "reserve_grant_action_sync now uuid g (ac_job_name a) task k i budget m cur sc' db = (t, Inr x)"
    by (auto simp: ledger_reserve_grant_action_def op_ok dest: silent_bind_ok [OF silent_ledger_get])
  from grant_reservation_ok [OF assms(1) this] a i show ?thesis
    by (auto simp: fresh_action_def same_effect_def)
qed simp

text \<open>
  C9: an effect that was performed is never performed again: once its action is recorded as performed,
  the record stays as it is whatever is called later, every other action with the same key has been
  settled as not performed, and a new reservation of the key is refused, with or without a grant.
\<close>

theorem performed_effect_is_final:
  assumes "calls_typed (cs @ ds)" and "a \<in> set (action_rows (reached key cs))"
    and "ac_status a = Resolved Performed" and "ei_action_key i = ac_action_key a"
  shows "a \<in> set (action_rows (reached key (cs @ ds)))
    \<and> (\<forall>b \<in> set (action_rows (reached key (cs @ ds))). ac_job_name b = ac_job_name a
         \<and> ac_action_key b = ac_action_key a \<and> ac_id b \<noteq> ac_id a \<longrightarrow> ac_status b = Resolved Not_Performed)
    \<and> (\<exists>e. snd (ledger_reserve_action now uuid (ac_job_name a) k i n sc c (reached key (cs @ ds))) = Inl e)
    \<and> (\<exists>e. snd (ledger_reserve_grant_action now uuid g (ac_job_name a) task k i n m cur sc
          (reached key (cs @ ds))) = Inl e)"
proof -
  have ok: "ledger_ok (reached key cs)" "ledger_ok (reached key (cs @ ds))" using assms(1) by (auto intro: reached_ok)
  have stays: "a \<in> set (action_rows (reached key (cs @ ds)))"
    unfolding reached_append
    by (rule ledger_run_induct [OF _ ok(1), where P = "\<lambda>d. a \<in> set (action_rows d)"])
      (use assms settled_forever in auto)
  moreover have "ac_status b = Resolved Not_Performed"
    if "b \<in> set (action_rows (reached key (cs @ ds)))" "ac_job_name b = ac_job_name a"
      "ac_action_key b = ac_action_key a" "ac_id b \<noteq> ac_id a" for b
    using ok_unique [OF ok(2) that(1) stays] that assms(3) by (auto simp: same_effect_def blocks_def)
  ultimately show ?thesis
    using reserve_refused [OF ok(2) stays assms(3,4)] grant_reserve_refused [OF ok(2) stays assms(3,4)] by blast
qed

theorem performed_effect_is_final_witness:
  "\<exists>e. snd (ledger_reserve_grant_action 9 ''2'' ''g'' ''delegated:t'' ''t'' ''r1'' effect0 5 1 (Some ''EUR'') here
    (reached key0 (paid0 @ [(8, [], L_Resolve ''action_1'' Not_Performed here None)]))) = Inl e"
proof -
  have rows: "map ac_status (action_rows (reached key0 paid0)) = [Resolved Performed]"
    "map (\<lambda>a. (ac_job_name a, ac_action_key a)) (action_rows (reached key0 paid0)) = [(''delegated:t'', ei_action_key effect0)]"
    by code_simp+
  then obtain a where "a \<in> set (action_rows (reached key0 paid0))" "ac_status a = Resolved Performed"
    "ac_job_name a = ''delegated:t''" "ei_action_key effect0 = ac_action_key a" by auto
  with performed_effect_is_final [where i = effect0 and key = key0 and cs = paid0
      and ds = "[(8, [], L_Resolve ''action_1'' Not_Performed here None)]" and a = a]
    paid0_typed show ?thesis by simp
qed

section \<open>Terminated grants\<close>

lemma status_leaves_tombstone:
  assumes ok: "ledger_ok db" and sc: "scope_ok sc" and "st \<noteq> Grant_Active"
    and run: "set_grant_budget_status now g st sc db = (db1, Inr ())"
  shows "\<exists>t. find_termination g db1 = Some t"
proof (cases "find_termination g db")
  case (Some t)
  have "at_most_one db db1" using status_step [OF ok sc, of now g st] run by simp
  with Some tombstone_forever [of db db1 g t] show ?thesis by (auto simp: at_most_one_def)
next
  case None
  from run None assms(3) obtain d e n C f where
    "sql_insert termination_rows termination_rows_update tm_grant_id (\<lambda>_. True) ledger_failed
      \<lparr>tm_grant_id = g, tm_status = st, tm_updated_at = now, tm_profile_scope = e\<rparr> db = (d, Inr ())"
    and upd: "sql_update_budget C f d = (db1, Inr n)"
    by (auto simp: set_grant_budget_status_def op_ok split: option.splits
        dest!: silent_bind_ok [OF silent_require_scope_access] silent_bind_ok [OF silent_read_scope])
  then have "find_termination g d \<noteq> None"
    by (auto simp: terminations.insert_ok find_termination_def find_row_append split: option.splits)
  moreover have "termination_rows db1 = termination_rows d"
    using upd by (auto simp: sql_update_budget_def sql_update_def op_ok)
  ultimately show ?thesis by (auto simp: find_termination_def)
qed

text \<open>
  C10: once the ledger was told through \<open>set_grant_budget_status\<close> that a grant is revoked, expired or consumed,
  the grant never pays for another effect, even when this reached the ledger before the budget was published:
  after any later calls, publishing the budget again or setting its status back included, no action has
  been added under the grant and its budget, if there is one, is not active.  (An expiry that only a
  reservation notices leaves no such record and is not meant here.)
\<close>

theorem terminated_grant_never_spends:
  assumes "calls_typed cs" and "calls_typed ds" and "scope_ok sc" and "st \<noteq> Grant_Active"
    and "set_grant_budget_status now g st sc (reached key cs) = (db1, Inr ())"
  shows "length (filter (\<lambda>a. ac_grant_id a = Some g) (action_rows (ledger_run key ds db1)))
      = length (filter (\<lambda>a. ac_grant_id a = Some g) (action_rows (reached key cs)))
    \<and> (\<forall>b \<in> set (budget_rows (ledger_run key ds db1)). gb_grant_id b = g \<longrightarrow> gb_status b \<noteq> Grant_Active)"
proof -
  let ?db = "reached key cs"
  have ok: "ledger_ok ?db" by (rule reached_ok [OF assms(1)])
  have "at_most_one ?db db1" using status_step [OF ok assms(3), of now g st] assms(5) by simp
  with ok have ok1: "ledger_ok db1" using ledger_step_ok by (auto simp: at_most_one_def)
  obtain t where t: "find_termination g db1 = Some t"
    using status_leaves_tombstone [OF ok assms(3,4,5)] by blast
  have "action_rows db1 = action_rows ?db"
    using assms(5) by (auto simp: set_grant_budget_status_def op_ok sql_update_budget_def sql_update_def
        sql_insert_def split: option.splits if_splits
        dest!: silent_bind_ok [OF silent_require_scope_access] silent_bind_ok [OF silent_read_scope]
          silent_bind_ok [OF silent_require_stored_scope])
  then have start: "length (grant_actions g db1) = length (grant_actions g ?db)" by (simp add: grant_actions_def)
  let ?P = "\<lambda>d. find_termination g d = Some t \<and> length (grant_actions g d) = length (grant_actions g ?db)"
  have "?P (ledger_run key ds db1)"
    by (rule ledger_run_induct [OF assms(2) ok1, where P = ?P])
      (use t start tombstone_forever terminated_idle in auto)
  moreover have okd: "ledger_ok (ledger_run key ds db1)" using ledger_run_steps [OF ok1 assms(2)] by blast
  moreover have "gb_status b \<noteq> Grant_Active"
    if "b \<in> set (budget_rows (ledger_run key ds db1))" "gb_grant_id b = g"
      "find_termination g (ledger_run key ds db1) = Some t" for b
    using terminated_budget [OF okd that(3), of b] find_row_mem [OF ok_keys(3) [OF okd] that(1)] that(2)
    by (simp add: find_budget_def)
  ultimately show ?thesis by (simp add: grant_actions_def)
qed

theorem terminated_grant_never_spends_witness:
  "\<exists>db1. set_grant_budget_status 5 ''g'' Grant_Revoked here empty_ledger = (db1, Inr ())
    \<and> (\<forall>b \<in> set (budget_rows (ledger_run key0 paid0 db1)). gb_grant_id b = ''g'' \<longrightarrow> gb_status b \<noteq> Grant_Active)
    \<and> budget_rows (ledger_run key0 paid0 db1) \<noteq> []"
proof -
  obtain db1 where db1: "set_grant_budget_status 5 ''g'' Grant_Revoked here empty_ledger = (db1, Inr ())"
    by (rule that, code_simp)
  have e: "reached key0 [] = empty_ledger" by (simp add: ledger_run_def)
  have "scope_ok here" by code_simp
  from terminated_grant_never_spends [of "[]" paid0 here Grant_Revoked 5 "''g''" key0 db1] this db1 e paid0_typed
  have "\<forall>b \<in> set (budget_rows (ledger_run key0 paid0 db1)). gb_grant_id b = ''g'' \<longrightarrow> gb_status b \<noteq> Grant_Active"
    by simp
  moreover have "budget_rows (ledger_run key0 paid0
      (fst (set_grant_budget_status 5 ''g'' Grant_Revoked here empty_ledger))) \<noteq> []" by code_simp
  ultimately show ?thesis using db1 by simp
qed

section \<open>Reservations under a grant\<close>

lemma make_action_same: "make_action a = Inr b \<Longrightarrow> b = a"
  unfolding make_action_def andthen_Inr by simp

lemma wrapped_Inr: "(case r of Inl m \<Rightarrow> Inl (f m) | Inr x \<Rightarrow> Inr x) = Inr y \<longleftrightarrow> r = Inr y"
  by (cases r) auto

lemma new_action_id: "new_action uuid n k i now sc = Inr x \<Longrightarrow> ja_id x = ''action_'' @ uuid"
  by (auto simp: new_action_def andthen_Inr wrapped_Inr dest: make_action_same)

text \<open>
  A reservation under a grant succeeds only within every limit at once: the budget is active,
  unexpired, of the task, has an effect left and covers the amount in its currency, the run is
  unfinished and below its own effect budget; and it then charges exactly one effect and the amount,
  and one call to the run.
\<close>

theorem grant_reservation_exact:
  assumes "calls_typed cs"
    and "ledger_reserve_grant_action now uuid g ns task k i n amount cur sc (reached key cs) = (db', Inr x)"
  shows "\<exists>b r a. find_budget g (reached key cs) = Some b \<and> find_run k (reached key cs) = Some r
    \<and> gb_status b = Grant_Active \<and> now < gb_expires_at b \<and> gb_task_id b = task
    \<and> gb_effects_used b < gb_effect_limit b
    \<and> (0 < amount \<longrightarrow> gb_currency b = cur
         \<and> (\<exists>l. gb_financial_limit b = Some l \<and> gb_financial_used b + amount \<le> l))
    \<and> rn_outcome r = None \<and> rn_effect_calls r < n
    \<and> action_rows db' = action_rows (reached key cs) @ [a] \<and> ac_status a = Reserved \<and> ac_grant_id a = Some g
    \<and> ac_job_name a = ns \<and> ac_action_key a = ei_action_key i \<and> ac_id a = ja_id x
    \<and> find_budget g db' = Some (b\<lparr>gb_effects_used := gb_effects_used b + 1,
         gb_financial_used := gb_financial_used b + max 0 amount, gb_updated_at := now\<rparr>)
    \<and> find_run k db' = Some (r\<lparr>rn_effect_calls := rn_effect_calls r + 1\<rparr>)"
proof -
  let ?db = "reached key cs"
  have ok: "ledger_ok ?db" by (rule reached_ok [OF assms(1)])
  from assms(2) obtain sc' where "reserve_grant_action_sync now uuid g ns task k i n amount cur sc' ?db = (db', Inr x)"
    by (auto simp: ledger_reserve_grant_action_def op_ok dest: silent_bind_ok [OF silent_ledger_get])
  from grant_reservation_ok [OF ok this] obtain b r b' where
    f: "find_budget g ?db = Some b" "find_run k ?db = Some r" "rn_outcome r = None" "rn_effect_calls r < n"
      "gb_task_id b = task" "pays amount cur now b b'" "new_action uuid ns k i now sc' = Inr x"
    and t: "db' = add_action (reserved_action uuid ns k i now (Some g) (Some task))
        (put_run (r\<lparr>rn_effect_calls := rn_effect_calls r + 1\<rparr>) (put_budget b' ?db))" by blast
  have x: "ja_id x = ''action_'' @ uuid"
    by (rule new_action_id [OF f(7)])
  have "find_budget g db' = Some b'"
    using f(1,6) found_budget [OF f(1)] by (simp add: t find_budget_def find_put_row pays_def)
  moreover have "find_run k db' = Some (r\<lparr>rn_effect_calls := rn_effect_calls r + 1\<rparr>)"
    using f(2) found_run [OF f(2)] by (simp add: t find_run_def find_put_row)
  ultimately show ?thesis
    using f x
    by (intro exI [of _ b] exI [of _ r] exI [of _ "reserved_action uuid ns k i now (Some g) (Some task)"])
      (auto simp: pays_def t)
qed

definition seeded0 :: "(instant \<times> string \<times> ledger_call) list" where
  "seeded0 = take 2 paid0"

theorem grant_reservation_exact_witness:
  "\<exists>db' x b. ledger_reserve_grant_action 3 ''1'' ''g'' ''delegated:t'' ''t'' ''r1'' effect0 5 300 (Some ''EUR'') here
      (reached key0 seeded0) = (db', Inr x)
    \<and> find_budget ''g'' (reached key0 seeded0) = Some b \<and> gb_financial_used b + 300 \<le> 500"
proof -
  have "case snd (ledger_reserve_grant_action 3 ''1'' ''g'' ''delegated:t'' ''t'' ''r1'' effect0 5 300 (Some ''EUR'') here
      (reached key0 seeded0)) of Inl _ \<Rightarrow> False | Inr _ \<Rightarrow> True" by code_simp
  then obtain db' x where run: "ledger_reserve_grant_action 3 ''1'' ''g'' ''delegated:t'' ''t'' ''r1'' effect0 5 300
      (Some ''EUR'') here (reached key0 seeded0) = (db', Inr x)"
    by (auto split: sum.splits) (metis prod.collapse)
  have typed: "calls_typed seeded0" by code_simp
  have lim: "map_option gb_financial_limit (find_budget ''g'' (reached key0 seeded0)) = Some (Some 500)" by code_simp
  from grant_reservation_exact [OF typed run] run lim show ?thesis by auto
qed

section \<open>Effects in doubt\<close>

lemma step_resolutions:
  assumes "ledger_step db db'" and "r \<in> set (action_resolution_rows db)"
  shows "r \<in> set (action_resolution_rows db')"
  using assms by cases (auto split: option.splits)

definition doubt_tracked :: "string \<Rightarrow> ledger_db \<Rightarrow> bool" where
  "doubt_tracked k db \<longleftrightarrow> (\<exists>a \<in> set (action_rows db). ac_id a = k \<and> (ac_status a = Resolved In_Doubt
     \<or> (\<exists>r \<in> set (action_resolution_rows db). rs_action_id r = k \<and> rs_disposition r \<noteq> In_Doubt
          \<and> ac_status a = Resolved (rs_disposition r))))"

lemma doubt_tracked_step:
  assumes step: "ledger_step db db'" and ok: "ledger_ok db" and k: "doubt_tracked k db"
  shows "doubt_tracked k db'"
proof -
  obtain a where a: "a \<in> set (action_rows db)" "ac_id a = k"
    and st: "ac_status a = Resolved In_Doubt \<or> (\<exists>r \<in> set (action_resolution_rows db). rs_action_id r = k
          \<and> rs_disposition r \<noteq> In_Doubt \<and> ac_status a = Resolved (rs_disposition r))"
    using k by (auto simp: doubt_tracked_def)
  show ?thesis
  proof (cases "a \<in> set (action_rows db')")
    case True
    with a st step_resolutions [OF step] show ?thesis unfolding doubt_tracked_def by blast
  next
    case False
    with settled_forever [OF step ok a(1)] st have d: "ac_status a = Resolved In_Doubt" by blast
    from step show ?thesis
    proof cases
      case (Action_Reconciled a0 d' a' now n actor)
      have "ac_id a = ac_id a0"
      proof (rule ccontr)
        assume "ac_id a \<noteq> ac_id a0"
        with Action_Reconciled a(1) have "a \<in> set (action_rows db')"
          by (auto simp: in_update_row intro!: bexI [of _ a])
        with False show False by simp
      qed
      moreover have "a' \<in> set (action_rows db')"
        using Action_Reconciled find_row_Some by (fastforce simp: in_update_row find_action_def)
      ultimately show ?thesis
        using Action_Reconciled a unfolding doubt_tracked_def by (intro bexI [of _ a']) auto
    next
      case (Action_Resolved a0 a' d' ref now)
      with other_action [OF ok a(1), of a0 a'] d False show ?thesis by simp
    qed (use a(1) False in \<open>auto split: option.splits\<close>)
  qed
qed

text \<open>
  C22: an effect in doubt is only ever settled by an operator: if an action was in doubt at some point
  and is not any more, then there is an audit record of a resolution for it, and its status is the
  disposition the record names.
\<close>

theorem doubt_settled_by_operator:
  assumes "calls_typed (cs @ ds)" and "a \<in> set (action_rows (reached key cs))"
    and "ac_status a = Resolved In_Doubt" and "b \<in> set (action_rows (reached key (cs @ ds)))"
    and "ac_id b = ac_id a" and "ac_status b \<noteq> Resolved In_Doubt"
  shows "\<exists>r \<in> set (action_resolution_rows (reached key (cs @ ds))). rs_action_id r = ac_id a
    \<and> rs_disposition r \<noteq> In_Doubt \<and> ac_status b = Resolved (rs_disposition r)"
proof -
  have ok: "ledger_ok (reached key cs)" "ledger_ok (reached key (cs @ ds))" using assms(1) by (auto intro: reached_ok)
  have "doubt_tracked (ac_id a) (reached key (cs @ ds))"
    unfolding reached_append
    by (rule ledger_run_induct [OF _ ok(1), where P = "doubt_tracked (ac_id a)"])
      (use assms doubt_tracked_step in \<open>auto simp: doubt_tracked_def [of _ "reached key cs"]\<close>)
  then obtain c where c: "c \<in> set (action_rows (reached key (cs @ ds)))" "ac_id c = ac_id a"
    and st: "ac_status c = Resolved In_Doubt \<or> (\<exists>r \<in> set (action_resolution_rows (reached key (cs @ ds))).
      rs_action_id r = ac_id a \<and> rs_disposition r \<noteq> In_Doubt \<and> ac_status c = Resolved (rs_disposition r))"
    by (auto simp: doubt_tracked_def)
  have "inj_on ac_id (set (action_rows (reached key (cs @ ds))))"
    using ok_keys(2) [OF ok(2)] by (simp add: distinct_map)
  from inj_onD [OF this, of c b] have "c = b" using c assms(4,5) by simp
  with st assms(6) show ?thesis by blast
qed

theorem doubt_settled_by_operator_witness:
  "\<exists>r \<in> set (action_resolution_rows (reached key0 (seeded0 @ [(3, ''1'', L_Reserve ''j'' ''r1'' effect0 5 here True),
      (4, [], L_Strand ''action_1'' here ''crash'')] @ [(5, [], L_Reconcile ''action_1'' Performed here ''me'')]))).
     rs_action_id r = ''action_1'' \<and> rs_disposition r = Performed"
proof -
  let ?cs = "seeded0 @ [(3, ''1'', L_Reserve ''j'' ''r1'' effect0 5 here True),
      (4, [], L_Strand ''action_1'' here ''crash'')]"
  let ?ds = "[(5, [], L_Reconcile ''action_1'' Performed here ''me'')] :: (instant \<times> string \<times> ledger_call) list"
  have "map (\<lambda>a. (ac_id a, ac_status a)) (action_rows (reached key0 ?cs)) = [(''action_1'', Resolved In_Doubt)]"
    "map (\<lambda>a. (ac_id a, ac_status a)) (action_rows (reached key0 (?cs @ ?ds))) = [(''action_1'', Resolved Performed)]"
    by code_simp+
  then obtain a b where "a \<in> set (action_rows (reached key0 ?cs))" "ac_status a = Resolved In_Doubt" "ac_id a = ''action_1''"
    "b \<in> set (action_rows (reached key0 (?cs @ ?ds)))" "ac_id b = ''action_1''" "ac_status b = Resolved Performed"
    by auto
  moreover have "calls_typed (?cs @ ?ds)" by code_simp
  ultimately show ?thesis using doubt_settled_by_operator [of ?cs ?ds a key0 b] by auto
qed

end
