(* ===== verification/Authority_Types.thy ===== *)
theory Authority_Types
  imports Ledger_Types Task_Types
begin

text \<open>
  Value types of delegated authority: scopes, the message a grant stems from, grants and their
  activities (\<open>ricky/authority/types.py\<close>), and the confirmations a contract refers to
  (\<open>ricky/executions/contracts.py\<close>).
\<close>

definition lower_or_digit :: "char \<Rightarrow> bool" where
  "lower_or_digit c \<longleftrightarrow> is_lower_letter c \<or> is_digit c"

text \<open>\<open>^[a-z0-9][a-z0-9_]{0,63}$\<close> and \<open>^[a-z0-9][a-z0-9_.]{0,99}$\<close>\<close>

definition capability_re :: "string \<Rightarrow> bool" where
  "capability_re s = (case s of [] \<Rightarrow> False
     | c # cs \<Rightarrow> lower_or_digit c \<and> list_all (\<lambda>d. lower_or_digit d \<or> d = CHR ''_'') cs \<and> length cs \<le> 63)"

definition schema_id_re :: "string \<Rightarrow> bool" where
  "schema_id_re s = (case s of [] \<Rightarrow> False
     | c # cs \<Rightarrow> lower_or_digit c \<and> list_all (\<lambda>d. lower_or_digit d \<or> d = CHR ''_'' \<or> d = CHR ''.'') cs
         \<and> length cs \<le> 99)"

definition validate_grant_id :: "string \<Rightarrow> string checked" where
  "validate_grant_id value =
     (if hex_id ''grant_'' 32 value then Inr value else Inl ''invalid delegation grant id'')"

record authority_scope =
  as_capability :: string
  as_schema_id :: string
  as_schema_version :: int
  as_constraints :: json

definition make_authority_scope :: "authority_scope \<Rightarrow> authority_scope checked" where
  "make_authority_scope s =
     andthen (require (1 \<le> as_schema_version s \<and> as_schema_version s \<le> 1000) ''schema_version'') (\<lambda>_.
     andthen (require (capability_re (as_capability s)) ''invalid delegable capability name'') (\<lambda>_.
     andthen (require (schema_id_re (as_schema_id s)) ''invalid authority scope schema id'') (\<lambda>_.
       Inr s)))"

record grant_source =
  gs_principal_id :: string
  gs_transport :: string
  gs_account :: string
  gs_sender_id :: string
  gs_destination_id :: string
  gs_platform_message_id :: string
  gs_inbound_message_id :: string
  gs_conversation_id :: string
  gs_text_digest :: string
  gs_text_snapshot :: string
  gs_received_at :: instant

definition make_grant_source :: "grant_source \<Rightarrow> grant_source checked" where
  "make_grant_source s =
     andthen (require (within 1 500 (gs_principal_id s) \<and> within 1 100 (gs_transport s)
       \<and> within 1 100 (gs_account s) \<and> within 1 500 (gs_sender_id s)
       \<and> within 1 500 (gs_destination_id s) \<and> within 1 500 (gs_platform_message_id s)
       \<and> hex_id ''inbound_'' 32 (gs_inbound_message_id s)
       \<and> hex_id ''conversation_'' 32 (gs_conversation_id s)
       \<and> digest_re (gs_text_digest s) \<and> within 1 20000 (gs_text_snapshot s)) ''validation error'') (\<lambda>_. Inr s)"

record confirmation_ref =
  cr_id :: string
  cr_draft_id :: string
  cr_draft_revision :: int
  cr_principal_id :: string
  cr_source_message_id :: string
  cr_summary_digest :: string
  cr_confirmed_at :: instant
  cr_expires_at :: instant

definition make_confirmation :: "confirmation_ref \<Rightarrow> confirmation_ref checked" where
  "make_confirmation c =
     andthen (require (hex_id ''confirmation_'' 32 (cr_id c) \<and> hex_id ''draft_'' 32 (cr_draft_id c)
       \<and> 1 \<le> cr_draft_revision c \<and> within 1 500 (cr_principal_id c)
       \<and> within 1 512 (cr_source_message_id c) \<and> digest_re (cr_summary_digest c)) ''validation error'') (\<lambda>_.
     andthen (require (cr_confirmed_at c < cr_expires_at c)
       ''confirmation expiry must follow confirmation time'') (\<lambda>_. Inr c))"

record delegation_grant =
  dg_id :: string
  dg_source :: grant_source
  dg_task_id :: string
  dg_task_revision :: int
  dg_profile_scope :: profile_scope
  dg_execution_request_id :: "string option"
  dg_contract_id :: string
  dg_contract_digest :: string
  dg_confirmations :: "confirmation_ref list"
  dg_scopes :: "authority_scope list"
  dg_summary :: string
  dg_effect_call_limit :: int
  dg_financial_limit_minor :: "int option"
  dg_currency :: "string option"
  dg_issued_at :: instant
  dg_expires_at :: instant
  dg_status :: grant_status
  dg_policy_digest :: string

definition grant_fields_ok :: "delegation_grant \<Rightarrow> bool" where
  "grant_fields_ok g \<longleftrightarrow>
     hex_id ''grant_'' 32 (dg_id g) \<and> task_id_re (dg_task_id g) \<and> 1 \<le> dg_task_revision g
   \<and> opt_ok (hex_id ''execution_'' 32) (dg_execution_request_id g)
   \<and> hex_id ''contract_'' 32 (dg_contract_id g) \<and> digest_re (dg_contract_digest g)
   \<and> length (dg_confirmations g) \<le> 20 \<and> 1 \<le> length (dg_scopes g) \<and> length (dg_scopes g) \<le> 8
   \<and> within 1 4000 (dg_summary g) \<and> 1 \<le> dg_effect_call_limit g \<and> dg_effect_call_limit g \<le> 100
   \<and> opt_ok (\<lambda>n. 0 \<le> n \<and> n \<le> 100000000) (dg_financial_limit_minor g)
   \<and> opt_ok (within 3 3) (dg_currency g) \<and> digest_re (dg_policy_digest g)"

definition make_grant :: "delegation_grant \<Rightarrow> delegation_grant checked" where
  "make_grant g =
     andthen (require (grant_fields_ok g) ''validation error'') (\<lambda>_.
     andthen (make_grant_source (dg_source g)) (\<lambda>source.
     andthen (profile_scope (primary (dg_profile_scope g)) (profiles (dg_profile_scope g))) (\<lambda>scope.
     andthen (collect make_confirmation (dg_confirmations g)) (\<lambda>confirmations.
     andthen (collect make_authority_scope (dg_scopes g)) (\<lambda>scopes.
     andthen (require (dg_issued_at g < dg_expires_at g) ''grant expires_at must be after issued_at'') (\<lambda>_.
     andthen (require (distinct (map as_capability scopes))
       ''a grant cannot carry two scopes for one capability'') (\<lambda>_.
     andthen (require ((dg_financial_limit_minor g = None) = (dg_currency g = None))
       ''a financial limit requires an explicit currency'') (\<lambda>_.
       Inr (g\<lparr>dg_source := source, dg_profile_scope := scope, dg_confirmations := confirmations,
              dg_scopes := scopes\<rparr>)))))))))"

definition grant_capabilities :: "delegation_grant \<Rightarrow> string list" where
  "grant_capabilities g = remdups (map as_capability (dg_scopes g))"

definition scope_for :: "delegation_grant \<Rightarrow> string \<Rightarrow> authority_scope option" where
  "scope_for g capability = find (\<lambda>s. as_capability s = capability) (dg_scopes g)"

definition effect_namespace :: "delegation_grant \<Rightarrow> string" where
  "effect_namespace g = ''delegated:'' @ dg_task_id g"

datatype grant_activity_kind =
    GA_Issued | GA_Used | GA_Denied | GA_Revoked | GA_Expired | GA_Consumed

record grant_activity =
  ga_id :: nat
  ga_grant_id :: string
  ga_profile_label :: profile_label
  ga_kind :: grant_activity_kind
  ga_capability :: "string option"
  ga_tool_name :: "string option"
  ga_action_id :: "string option"
  ga_disposition :: "effect_disposition option"
  ga_summary :: string
  ga_created_at :: instant

definition make_grant_activity :: "grant_activity \<Rightarrow> grant_activity checked" where
  "make_grant_activity a =
     andthen (require (1 \<le> ga_id a \<and> opt_ok (within 0 64) (ga_capability a)
       \<and> opt_ok (within 0 100) (ga_tool_name a) \<and> opt_ok (within 0 100) (ga_action_id a)
       \<and> within 1 2000 (ga_summary a)) ''validation error'') (\<lambda>_.
     andthen (validate_grant_id (ga_grant_id a)) (\<lambda>_. Inr a))"

record authority_verdict =
  av_allowed :: bool
  av_reason :: string
  av_amount_minor :: int
  av_currency :: "string option"

definition make_verdict :: "authority_verdict \<Rightarrow> authority_verdict checked" where
  "make_verdict v =
     andthen (require (within 1 1000 (av_reason v) \<and> 0 \<le> av_amount_minor v
       \<and> av_amount_minor v \<le> 100000000 \<and> opt_ok (within 3 3) (av_currency v)) ''validation error'') (\<lambda>_.
     andthen (require (\<not> (0 < av_amount_minor v \<and> av_currency v = None))
       ''a priced effect call must declare its currency'') (\<lambda>_. Inr v))"

end
