(* ===== verification/Authority_Store.thy ===== *)
theory Authority_Store
  imports Authority_Types
begin

text \<open>
  The store of delegation grants and their append-only activity (\<open>ricky/authority/store.py\<close>).  The
  transaction bodies \<open>_m\<close> are \<open>m_impl\<close>, the public coroutines \<open>authority_m\<close>.  A stored row is the
  grant itself, validated again when it is read.
\<close>

datatype authority_error =
    AuthorityStoreError string
  | GrantNotFoundError string
  | GrantStateError string
  | Authority_ValueError string

abbreviation authority_sqlite_error :: authority_error where
  "authority_sqlite_error \<equiv> AuthorityStoreError ''authority store operation failed''"

record grant_activity_row =
  gx_id :: nat
  gx_grant_id :: string
  gx_kind :: grant_activity_kind
  gx_capability :: "string option"
  gx_tool_name :: "string option"
  gx_action_id :: "string option"
  gx_disposition :: "effect_disposition option"
  gx_summary :: string
  gx_created_at :: instant

record authority_db =
  grant_rows :: "delegation_grant list"
  grant_activity_rows :: "grant_activity_row list"
  grant_activity_seq :: nat

type_synonym 'a authority_op = "(authority_db, authority_error, 'a) op"

definition empty_authority :: authority_db where
  "empty_authority = \<lparr>grant_rows = [], grant_activity_rows = [], grant_activity_seq = 0\<rparr>"

definition find_grant :: "string \<Rightarrow> authority_db \<Rightarrow> delegation_grant option" where
  "find_grant k db = find_row dg_id k (grant_rows db)"

interpretation grants: keyed_table grant_rows grant_rows_update dg_id
  by unfold_locales simp_all

text \<open>\<open>execution_request_id TEXT UNIQUE\<close>: null values do not collide.\<close>

definition execution_unused :: "string option \<Rightarrow> delegation_grant list \<Rightarrow> bool" where
  "execution_unused e rows \<longleftrightarrow> e = None \<or> list_all (\<lambda>g. dg_execution_request_id g \<noteq> e) rows"

definition value_checked :: "'a checked \<Rightarrow> 'a authority_op" where
  "value_checked r = lift (case r of Inl m \<Rightarrow> Inl (Authority_ValueError m) | Inr x \<Rightarrow> Inr x)"

definition grant_label :: "delegation_grant \<Rightarrow> profile_label authority_op" where
  "grant_label g = value_checked (scope_label (dg_profile_scope g))"

definition required_grant :: "string \<Rightarrow> delegation_grant authority_op" where
  "required_grant k =
     bind (reads (find_grant k)) (\<lambda>row.
     bind (some_or (GrantNotFoundError ''delegation grant not found'') row) (\<lambda>g.
       value_checked (make_grant g)))"

definition activity_of :: "profile_label \<Rightarrow> grant_activity_row \<Rightarrow> grant_activity checked" where
  "activity_of l r = make_grant_activity
     \<lparr>ga_id = gx_id r, ga_grant_id = gx_grant_id r, ga_profile_label = l, ga_kind = gx_kind r,
      ga_capability = gx_capability r, ga_tool_name = gx_tool_name r, ga_action_id = gx_action_id r,
      ga_disposition = gx_disposition r, ga_summary = gx_summary r, ga_created_at = gx_created_at r\<rparr>"

text \<open>\<open>REFERENCES delegation_grants(id)\<close> is checked; the model is built inside the transaction.\<close>

definition append_activity ::
  "instant \<Rightarrow> string \<Rightarrow> grant_activity_kind \<Rightarrow> string \<Rightarrow> string option \<Rightarrow> string option \<Rightarrow> string option
    \<Rightarrow> effect_disposition option \<Rightarrow> profile_scope option \<Rightarrow> grant_activity authority_op" where
  "append_activity now k kind summary capability tool_name action_id disposition scope =
     bind (reads (find_grant k)) (\<lambda>parent.
     bind (unless (parent \<noteq> None) authority_sqlite_error) (\<lambda>_.
     bind (reads (\<lambda>db. \<lparr>gx_id = Suc (grant_activity_seq db), gx_grant_id = k, gx_kind = kind,
         gx_capability = capability, gx_tool_name = tool_name, gx_action_id = action_id,
         gx_disposition = disposition, gx_summary = take 2000 summary, gx_created_at = now\<rparr>)) (\<lambda>row.
     bind (writes (\<lambda>db. db\<lparr>grant_activity_rows := grant_activity_rows db @ [row],
         grant_activity_seq := gx_id row\<rparr>)) (\<lambda>_.
     bind (case scope of Some s \<Rightarrow> ret s
           | None \<Rightarrow> bind (required_grant k) (\<lambda>g. ret (dg_profile_scope g))) (\<lambda>s.
     bind (value_checked (scope_label s)) (\<lambda>l.
       value_checked (activity_of l row)))))))"

definition append_plain :: "instant \<Rightarrow> string \<Rightarrow> grant_activity_kind \<Rightarrow> string \<Rightarrow> unit authority_op" where
  "append_plain now k kind summary =
     bind (append_activity now k kind summary None None None None None) (\<lambda>_. ret ())"

definition sql_update_grant :: "(delegation_grant \<Rightarrow> bool) \<Rightarrow> (delegation_grant \<Rightarrow> delegation_grant) \<Rightarrow> nat authority_op" where
  "sql_update_grant = sql_update grant_rows grant_rows_update (\<lambda>_. True) authority_sqlite_error"

section \<open>Transactions\<close>

definition issue_impl :: "instant \<Rightarrow> delegation_grant \<Rightarrow> delegation_grant authority_op" where
  "issue_impl now g = atomic (
     bind (reads (\<lambda>db. execution_unused (dg_execution_request_id g) (grant_rows db))) (\<lambda>ok.
     bind (sql_insert grant_rows grant_rows_update dg_id (\<lambda>_. ok) authority_sqlite_error g) (\<lambda>_.
     bind (append_plain now (dg_id g) GA_Issued (dg_summary g)) (\<lambda>_. ret g))))"

definition get_grant_impl :: "string \<Rightarrow> delegation_grant option authority_op" where
  "get_grant_impl k =
     bind (reads (find_grant k)) (\<lambda>row. case row of None \<Rightarrow> ret None
       | Some g \<Rightarrow> bind (value_checked (make_grant g)) (\<lambda>g. ret (Some g)))"

definition list_grants_impl ::
  "string option \<Rightarrow> grant_status option \<Rightarrow> nat \<Rightarrow> delegation_grant list authority_op" where
  "list_grants_impl task_id status limit =
     bind (reads (\<lambda>db. take limit (rev (sort_key (\<lambda>g. (dg_issued_at g, dg_id g))
       (filter (\<lambda>g. opt_ok (\<lambda>t. dg_task_id g = t) task_id \<and> opt_ok (\<lambda>st. dg_status g = st) status)
         (grant_rows db)))))) (\<lambda>rows.
       value_checked (collect make_grant rows))"

definition attach_execution_impl :: "instant \<Rightarrow> string \<Rightarrow> string \<Rightarrow> delegation_grant authority_op" where
  "attach_execution_impl now k request = atomic (
     bind (required_grant k) (\<lambda>current.
     bind (unless (dg_status current = Grant_Active) (GrantStateError ''grant cannot accept work'')) (\<lambda>_.
       case dg_execution_request_id current of
         Some e \<Rightarrow> if e = request then ret current
           else raise (GrantStateError ''grant is already attached to another execution request'')
       | None \<Rightarrow>
           bind (reads (\<lambda>db. execution_unused (Some request) (grant_rows db))) (\<lambda>unused.
           bind (unless unused authority_sqlite_error) (\<lambda>_.
           bind (sql_update_grant (\<lambda>g. dg_id g = k \<and> dg_execution_request_id g = None \<and> dg_status g = Grant_Active)
             (\<lambda>g. g\<lparr>dg_execution_request_id := Some request\<rparr>)) (\<lambda>_.
           bind (required_grant k) (\<lambda>updated.
           bind (unless (dg_execution_request_id updated = Some request)
             (GrantStateError ''grant execution attachment lost a race'')) (\<lambda>_.
           bind (append_plain now k GA_Issued (''Attached to execution request '' @ request)) (\<lambda>_.
             ret updated)))))))))"

text \<open>The expiry is committed before the error is raised.\<close>

definition load_active_impl :: "instant \<Rightarrow> instant \<Rightarrow> string \<Rightarrow> delegation_grant authority_op" where
  "load_active_impl clock now k =
     bind (required_grant k) (\<lambda>current.
     bind (unless (dg_status current = Grant_Active) (GrantStateError ''delegation grant is not active'')) (\<lambda>_.
       if dg_expires_at current \<le> now
       then bind (atomic (
              bind (sql_update_grant (\<lambda>g. dg_id g = k \<and> dg_status g = Grant_Active)
                (\<lambda>g. g\<lparr>dg_status := Grant_Expired\<rparr>)) (\<lambda>_.
                append_plain clock k GA_Expired ''Grant expired before use''))) (\<lambda>_.
              raise (GrantStateError ''delegation grant is expired''))
       else ret current))"

definition terminate_impl ::
  "instant \<Rightarrow> string \<Rightarrow> grant_status \<Rightarrow> grant_activity_kind \<Rightarrow> string \<Rightarrow> delegation_grant authority_op" where
  "terminate_impl now k status kind summary = atomic (
     bind (required_grant k) (\<lambda>current.
     bind (unless (dg_status current = Grant_Active) (GrantStateError ''grant is already terminated'')) (\<lambda>_.
     bind (sql_update_grant (\<lambda>g. dg_id g = k \<and> dg_status g = Grant_Active)
       (\<lambda>g. g\<lparr>dg_status := status\<rparr>)) (\<lambda>_.
     bind (append_plain now k kind summary) (\<lambda>_.
       required_grant k)))))"

definition record_activity_impl ::
  "instant \<Rightarrow> string \<Rightarrow> grant_activity_kind \<Rightarrow> string \<Rightarrow> string option \<Rightarrow> string option \<Rightarrow> string option
    \<Rightarrow> effect_disposition option \<Rightarrow> profile_scope \<Rightarrow> grant_activity authority_op" where
  "record_activity_impl now k kind summary capability tool_name action_id disposition scope = atomic (
     bind (required_grant k) (\<lambda>_.
       append_activity now k kind summary capability tool_name action_id disposition (Some scope)))"

section \<open>The public store\<close>

definition authority_issue :: "instant \<Rightarrow> delegation_grant \<Rightarrow> profile_scope \<Rightarrow> delegation_grant authority_op" where
  "authority_issue now g scope =
     bind (unless (dg_status g = Grant_Active) (Authority_ValueError ''a newly issued grant must be active'')) (\<lambda>_.
     bind (grant_label g) (\<lambda>l.
     bind (unless (permits scope l) (GrantNotFoundError ''delegation grant not found'')) (\<lambda>_.
       issue_impl now g)))"

definition authority_get :: "string \<Rightarrow> profile_scope \<Rightarrow> delegation_grant authority_op" where
  "authority_get k scope =
     bind (value_checked (validate_grant_id k)) (\<lambda>k.
     bind (get_grant_impl k) (\<lambda>found.
     bind (some_or (GrantNotFoundError ''delegation grant not found'') found) (\<lambda>g.
     bind (grant_label g) (\<lambda>l.
     bind (unless (permits scope l) (GrantNotFoundError ''delegation grant not found'')) (\<lambda>_. ret g)))))"

definition authority_list ::
  "profile_scope \<Rightarrow> string option \<Rightarrow> grant_status option \<Rightarrow> int \<Rightarrow> delegation_grant list authority_op" where
  "authority_list scope task_id status limit =
     bind (unless (1 \<le> limit \<and> limit \<le> 1000)
       (Authority_ValueError ''grant list limit must be between 1 and 1000'')) (\<lambda>_.
     bind (list_grants_impl task_id status 1000) (\<lambda>found.
     bind (value_checked (collect (\<lambda>g. andthen (scope_label (dg_profile_scope g)) (\<lambda>l.
         Inr (permits scope l, g))) found)) (\<lambda>flags.
       ret (take (nat limit) (map snd (filter fst flags))))))"

definition authority_attach_execution ::
  "instant \<Rightarrow> string \<Rightarrow> string \<Rightarrow> profile_scope \<Rightarrow> delegation_grant authority_op" where
  "authority_attach_execution now k request scope =
     bind (authority_get k scope) (\<lambda>_. attach_execution_impl now k request)"

definition authority_load_active ::
  "instant \<Rightarrow> instant \<Rightarrow> string \<Rightarrow> profile_scope \<Rightarrow> delegation_grant authority_op" where
  "authority_load_active clock now k scope =
     bind (authority_get k scope) (\<lambda>_. load_active_impl clock now k)"

definition authority_revoke ::
  "instant \<Rightarrow> string \<Rightarrow> profile_scope \<Rightarrow> string \<Rightarrow> string \<Rightarrow> delegation_grant authority_op" where
  "authority_revoke now k scope actor reason =
     bind (unless (py_strip actor \<noteq> [] \<and> py_strip reason \<noteq> [])
       (Authority_ValueError ''revocation actor and reason cannot be blank'')) (\<lambda>_.
     bind (authority_get k scope) (\<lambda>_.
       terminate_impl now k Grant_Revoked GA_Revoked
         (py_strip reason @ '' (by '' @ py_strip actor @ '')'')))"

definition authority_consume :: "instant \<Rightarrow> string \<Rightarrow> profile_scope \<Rightarrow> string \<Rightarrow> delegation_grant authority_op" where
  "authority_consume now k scope reason =
     bind (authority_get k scope) (\<lambda>_. terminate_impl now k Grant_Consumed GA_Consumed reason)"

definition authority_record ::
  "instant \<Rightarrow> string \<Rightarrow> grant_activity_kind \<Rightarrow> string \<Rightarrow> profile_scope \<Rightarrow> string option \<Rightarrow> string option
    \<Rightarrow> string option \<Rightarrow> effect_disposition option \<Rightarrow> grant_activity authority_op" where
  "authority_record now k kind summary scope capability tool_name action_id disposition =
     bind (authority_get k scope) (\<lambda>g.
       record_activity_impl now k kind summary capability tool_name action_id disposition (dg_profile_scope g))"

definition authority_activities :: "string \<Rightarrow> profile_scope \<Rightarrow> int \<Rightarrow> grant_activity list authority_op" where
  "authority_activities k scope limit =
     bind (unless (1 \<le> limit \<and> limit \<le> 1000)
       (Authority_ValueError ''activity limit must be between 1 and 1000'')) (\<lambda>_.
     bind (authority_get k scope) (\<lambda>g.
     bind (grant_label g) (\<lambda>l.
     bind (reads (\<lambda>db. take (nat limit) (filter (\<lambda>r. gx_grant_id r = k) (grant_activity_rows db)))) (\<lambda>rows.
       value_checked (collect (activity_of l) rows)))))"

definition active_execution_request_ids :: "profile_scope \<Rightarrow> string list authority_op" where
  "active_execution_request_ids scope =
     bind (reads (\<lambda>db. sort_key (\<lambda>g. case dg_execution_request_id g of None \<Rightarrow> [] | Some e \<Rightarrow> e)
       (filter (\<lambda>g. dg_status g = Grant_Active \<and> dg_execution_request_id g \<noteq> None) (grant_rows db)))) (\<lambda>rows.
     bind (value_checked (collect (\<lambda>g. andthen (make_grant g) (\<lambda>g.
         andthen (scope_label (dg_profile_scope g)) (\<lambda>l. Inr (permits scope l, g)))) rows)) (\<lambda>flags.
       ret (concat (map (\<lambda>(_, g). case dg_execution_request_id g of None \<Rightarrow> [] | Some e \<Rightarrow> [e])
         (filter fst flags)))))"

end
