(* ===== verification/Delegation.thy ===== *)
theory Delegation
  imports Authority_Store Ledger_Ops Json
begin

text \<open>
  Enforcement of a grant around an effect tool (\<open>ricky/authority/registry.py\<close>,
  \<open>ricky/authority/engine.py\<close>, with the tool contracts of \<open>ricky/tools/base.py\<close>).  Tools and
  evaluators are interfaces in the code; here they are records of functions.  A tool acts on the
  outside world \<open>'w\<close> and the stores are out of its reach.
\<close>

section \<open>Tools and evaluators\<close>

datatype py_exn = ValueError string | TypeError string | OSError string | OtherException string

type_synonym ('w, 'a) action = "'w \<Rightarrow> 'w \<times> (py_exn + 'a)"

datatype attempt_reason = Invalid_Preflight | Attempt_Denied

record effect_receipt =
  er_disposition :: effect_disposition
  er_provider_reference :: "string option"
  er_attempt_reason :: "attempt_reason option"
  er_action_id :: "string option"

text \<open>The reference to a stored result; its media type is always \<open>text/plain\<close>.\<close>

record artifact_ref =
  af_id :: string
  af_call_id :: string
  af_tool :: string
  af_full_chars :: nat
  af_sha256 :: string
  af_excerpt_chars :: nat

text \<open>The result of a tool, without the fields that concern the dialogue with the user and its media.\<close>

record tool_result =
  tr_content :: string
  tr_data :: json
  tr_is_error :: bool
  tr_receipt :: "effect_receipt option"
  tr_artifact :: "artifact_ref option"
  tr_full_chars :: "nat option"
  tr_offload_error :: "string option"

text \<open>\<open>ToolResult(content, data, is_error, effect_receipt)\<close>\<close>

definition plain_result :: "string \<Rightarrow> json \<Rightarrow> bool \<Rightarrow> effect_receipt option \<Rightarrow> tool_result" where
  "plain_result content data is_error receipt = \<lparr>tr_content = content, tr_data = data, tr_is_error = is_error,
     tr_receipt = receipt, tr_artifact = None, tr_full_chars = None, tr_offload_error = None\<rparr>"

datatype unattended_use = Unattended_Allowed | Unattended_Forbidden

text \<open>The optional protocols \<open>PreparedEffectProvider\<close>, \<open>PreparedEffectAborter\<close>, \<open>EffectActionBinder\<close>.\<close>

record ('p, 'w) effect_tool =
  et_name :: string
  et_unattended :: "unattended_use option"
  et_run :: "json \<Rightarrow> ('w, tool_result) action"
  et_prepare :: "(json \<Rightarrow> ('w, 'p) action) option"
  et_identity :: "'p \<Rightarrow> effect_identity"
  et_run_prepared :: "json \<Rightarrow> 'p \<Rightarrow> ('w, tool_result) action"
  et_abort :: "('p \<Rightarrow> string \<Rightarrow> ('w, unit) action) option"
  et_bind :: "((string \<Rightarrow> string \<Rightarrow> ('w, unit) action) \<times> (string \<Rightarrow> ('w, unit) action)) option"

record evaluator =
  ev_capability :: string
  ev_schema_id :: string
  ev_schema_version :: int
  ev_tools :: "string list"
  ev_scope_only_tools :: "string list"
  ev_owner_ceiling :: bool
  ev_evaluate :: "authority_scope \<Rightarrow> string \<Rightarrow> json \<Rightarrow> py_exn + authority_verdict"
  ev_identity :: "authority_scope \<Rightarrow> string \<Rightarrow> json \<Rightarrow> py_exn + effect_identity"
  ev_receipt :: "authority_scope \<Rightarrow> tool_result \<Rightarrow> py_exn + effect_receipt"
  ev_consumes :: "authority_scope \<Rightarrow> effect_receipt \<Rightarrow> py_exn + bool"

section \<open>The registry of evaluators\<close>

record registry =
  by_capability :: "(string \<times> evaluator) list"
  by_tool :: "(string \<times> evaluator) list"

definition empty_registry :: registry where
  "empty_registry = \<lparr>by_capability = [], by_tool = []\<rparr>"

definition register :: "evaluator \<Rightarrow> registry \<Rightarrow> registry checked" where
  "register ev reg =
     andthen (require (map_of (by_capability reg) (ev_capability ev) = None)
       ''duplicate delegable capability'') (\<lambda>_.
     andthen (require (ev_tools ev \<noteq> []) ''delegable capability governs no effect tools'') (\<lambda>_.
     andthen (require (list_all (\<lambda>n. map_of (by_tool reg) n = None) (ev_tools ev))
       ''effect tool has two evaluators'') (\<lambda>_.
       Inr (reg\<lparr>by_capability := (ev_capability ev, ev) # by_capability reg,
                by_tool := map (\<lambda>n. (n, ev)) (ev_tools ev) @ by_tool reg\<rparr>))))"

primrec register_all :: "evaluator list \<Rightarrow> registry \<Rightarrow> registry checked" where
  "register_all [] reg = Inr reg"
| "register_all (ev # evs) reg = andthen (register ev reg) (register_all evs)"

definition authority_registry :: "evaluator list \<Rightarrow> registry checked" where
  "authority_registry evs = register_all evs empty_registry"

definition require_evaluator :: "registry \<Rightarrow> string \<Rightarrow> evaluator checked" where
  "require_evaluator reg c = (case map_of (by_capability reg) c of
     None \<Rightarrow> Inl ''no authority evaluator for capability'' | Some ev \<Rightarrow> Inr ev)"

definition evaluator_for_tool :: "registry \<Rightarrow> string \<Rightarrow> evaluator option" where
  "evaluator_for_tool reg n = map_of (by_tool reg) n"

section \<open>The tools of a delegated run\<close>

text \<open>The constraint \<open>allowed_tools\<close> of a scope; \<open>None\<close> where there is none.\<close>

definition selected_tools :: "json \<Rightarrow> string list option checked" where
  "selected_tools constraints = (case constraints of
     JObj kvs \<Rightarrow> (case map_of kvs ''allowed_tools'' of
         None \<Rightarrow> Inr None
       | Some raw \<Rightarrow> (case raw of
           JArr xs \<Rightarrow> andthen (collect (\<lambda>x. case x of JStr s \<Rightarrow> Inr s
                 | _ \<Rightarrow> Inl ''authority allowed_tools constraint is malformed'') xs) (\<lambda>names.
               andthen (require (distinct names)
                 ''authority allowed_tools constraint contains duplicates'') (\<lambda>_. Inr (Some names)))
         | _ \<Rightarrow> Inl ''authority allowed_tools constraint is malformed''))
   | _ \<Rightarrow> Inr None)"

definition scope_tools :: "registry \<Rightarrow> authority_scope \<Rightarrow> string list checked" where
  "scope_tools reg s =
     andthen (require_evaluator reg (as_capability s)) (\<lambda>ev.
     andthen (selected_tools (as_constraints s)) (\<lambda>selected.
     case selected of
       None \<Rightarrow> Inr (ev_tools ev)
     | Some names \<Rightarrow>
         andthen (require (names \<noteq> [] \<and> set names \<subseteq> set (ev_tools ev @ ev_scope_only_tools ev))
           ''authority scope selects invalid tools'') (\<lambda>_.
         Inr (filter (\<lambda>n. n \<in> set (ev_tools ev)) names))))"

definition delegated_tool_names :: "registry \<Rightarrow> delegation_grant \<Rightarrow> string list checked" where
  "delegated_tool_names reg g = andthen (collect (scope_tools reg) (dg_scopes g)) (\<lambda>xs. Inr (concat xs))"

datatype 't built_tool = Untouched 't | Delegated 't

definition wrap_tool :: "string list \<Rightarrow> ('p, 'w) effect_tool \<Rightarrow> ('p, 'w) effect_tool built_tool checked" where
  "wrap_tool delegated t =
     (if et_name t \<notin> set delegated then Inr (Untouched t)
      else andthen (require (et_unattended t = Some Unattended_Allowed)
             ''tool is never available to a delegated run'') (\<lambda>_. Inr (Delegated t)))"

definition build_delegated_tools ::
  "registry \<Rightarrow> delegation_grant \<Rightarrow> ('p, 'w) effect_tool list \<Rightarrow> ('p, 'w) effect_tool built_tool list checked" where
  "build_delegated_tools reg g tools =
     andthen (delegated_tool_names reg g) (\<lambda>delegated.
     andthen (require (set delegated \<subseteq> set (map et_name tools))
       ''grant authorizes tools the runtime does not expose'') (\<lambda>_.
       collect (wrap_tool delegated) tools))"

section \<open>Two stores, a clock and the outside\<close>

datatype world_error =
    Ledger_Raised ledger_error
  | Authority_Raised authority_error
  | Tool_Raised py_exn
  | Call_Cancelled

record 'w world =
  wd_authority :: authority_db
  wd_ledger :: ledger_db
  wd_clock :: nat
  wd_outside :: 'w

type_synonym ('w, 'a) world_op = "('w world, world_error, 'a) op"

definition in_ledger :: "'a ledger_op \<Rightarrow> ('w, 'a) world_op" where
  "in_ledger m = (\<lambda>w. case m (wd_ledger w) of (d, r) \<Rightarrow>
     (w\<lparr>wd_ledger := d\<rparr>, case r of Inl e \<Rightarrow> Inl (Ledger_Raised e) | Inr x \<Rightarrow> Inr x))"

definition in_authority :: "'a authority_op \<Rightarrow> ('w, 'a) world_op" where
  "in_authority m = (\<lambda>w. case m (wd_authority w) of (d, r) \<Rightarrow>
     (w\<lparr>wd_authority := d\<rparr>, case r of Inl e \<Rightarrow> Inl (Authority_Raised e) | Inr x \<Rightarrow> Inr x))"

definition outside :: "('w, 'a) action \<Rightarrow> ('w, 'a) world_op" where
  "outside m = (\<lambda>w. case m (wd_outside w) of (d, r) \<Rightarrow>
     (w\<lparr>wd_outside := d\<rparr>, case r of Inl e \<Rightarrow> Inl (Tool_Raised e) | Inr x \<Rightarrow> Inr x))"

text \<open>Every reading of the clock may differ from the one before.\<close>

definition tick :: "(nat \<Rightarrow> instant) \<Rightarrow> ('w, instant) world_op" where
  "tick clk = (\<lambda>w. (w\<lparr>wd_clock := Suc (wd_clock w)\<rparr>, Inr (clk (wd_clock w))))"

text \<open>\<open>try\<close>: the exception becomes the result.\<close>

definition attempt :: "('s, 'e, 'a) op \<Rightarrow> ('s, 'e, 'e + 'a) op" where
  "attempt m = (\<lambda>s. case m s of (s', r) \<Rightarrow> (s', Inr r))"

section \<open>One delegated effect\<close>

record delegation =
  dl_grant :: delegation_grant
  dl_registry :: registry
  dl_run_id :: string
  dl_effect_budget :: int

abbreviation dl_scope :: "delegation \<Rightarrow> profile_scope" where
  "dl_scope D \<equiv> dg_profile_scope (dl_grant D)"

definition denied_result :: "string \<Rightarrow> attempt_reason \<Rightarrow> tool_result" where
  "denied_result content reason = plain_result content JNull True
     (Some \<lparr>er_disposition = Not_Performed, er_provider_reference = None,
       er_attempt_reason = Some reason, er_action_id = None\<rparr>)"

definition deny ::
  "(nat \<Rightarrow> instant) \<Rightarrow> delegation \<Rightarrow> string \<Rightarrow> string \<Rightarrow> string option \<Rightarrow> ('w, tool_result) world_op" where
  "deny clk D name reason capability =
     bind (tick clk) (\<lambda>now.
     bind (in_authority (authority_record now (dg_id (dl_grant D)) GA_Denied (name @ '' denied: '' @ reason)
       (dl_scope D) capability (Some name) None None)) (\<lambda>_.
       ret (denied_result (''delegated authority denied '' @ name @ '': '' @ reason) Attempt_Denied)))"

definition budget_denial ::
  "grant_budget \<Rightarrow> instant \<Rightarrow> int \<Rightarrow> string option \<Rightarrow> string option" where
  "budget_denial b now amount currency =
     (if gb_expires_at b \<le> now then Some ''delegation grant is expired''
      else if gb_effect_limit b \<le> gb_effects_used b then Some ''delegated effect-call limit exhausted''
      else if 0 < amount \<and> (gb_currency b \<noteq> currency
          \<or> (case gb_financial_limit b of None \<Rightarrow> True | Some l \<Rightarrow> l < gb_financial_used b + amount))
        then Some ''delegated financial limit exhausted''
      else None)"

definition admission_denial ::
  "(nat \<Rightarrow> instant) \<Rightarrow> delegation \<Rightarrow> int \<Rightarrow> string option \<Rightarrow> ('w, string option) world_op" where
  "admission_denial clk D amount currency =
     bind (in_authority (authority_get (dg_id (dl_grant D)) (dl_scope D))) (\<lambda>current.
     bind (in_ledger (get_grant_budget (dg_id (dl_grant D)) (dl_scope D))) (\<lambda>budget.
     if dg_status current \<noteq> Grant_Active then ret (Some ''delegation grant is not active'')
     else bind (tick clk) (\<lambda>now.
     if dg_expires_at current \<le> now then ret (Some ''delegation grant is expired'')
     else (case budget of
       None \<Rightarrow> ret (Some ''delegation grant has no budget'')
     | Some b \<Rightarrow>
         if gb_status b \<noteq> Grant_Active then ret (Some ''delegation grant is not active'')
         else bind (tick clk) (\<lambda>now.
         (case budget_denial b now amount currency of
           Some r \<Rightarrow> ret (Some r)
         | None \<Rightarrow>
             bind (in_ledger (ledger_get (dl_scope D) (dl_run_id D))) (\<lambda>run.
             ret (if rn_outcome run \<noteq> None \<or> dl_effect_budget D \<le> rn_effect_calls run
                  then Some ''execution effect-call budget is unavailable'' else None))))))))"

definition consume_grant :: "(nat \<Rightarrow> instant) \<Rightarrow> delegation \<Rightarrow> string \<Rightarrow> ('w, unit) world_op" where
  "consume_grant clk D reason =
     bind (tick clk) (\<lambda>now.
     bind (attempt (in_authority (authority_consume now (dg_id (dl_grant D)) (dl_scope D) reason))) (\<lambda>r.
     bind (case r of
         Inl (Authority_Raised (GrantStateError _)) \<Rightarrow> ret ()
       | Inl e \<Rightarrow> raise e
       | Inr _ \<Rightarrow> ret ()) (\<lambda>_.
     bind (tick clk) (\<lambda>now.
       in_ledger (set_grant_budget_status now (dg_id (dl_grant D)) Grant_Consumed (dl_scope D))))))"

definition disposition_text :: "effect_disposition \<Rightarrow> string" where
  "disposition_text d = (case d of Performed \<Rightarrow> ''performed'' | Not_Performed \<Rightarrow> ''not_performed''
     | In_Doubt \<Rightarrow> ''in_doubt'')"

text \<open>The strongest evidence first: the ledger, then the activity, then the grant.\<close>

definition finalize ::
  "(nat \<Rightarrow> instant) \<Rightarrow> delegation \<Rightarrow> string \<Rightarrow> string \<Rightarrow> string \<Rightarrow> effect_disposition \<Rightarrow> string option
    \<Rightarrow> bool \<Rightarrow> string \<Rightarrow> ('w, unit) world_op" where
  "finalize clk D name action_id capability disposition reference consume summary =
     bind (tick clk) (\<lambda>now.
     bind (in_ledger (ledger_resolve_action now action_id disposition (dl_scope D) reference)) (\<lambda>_.
     bind (tick clk) (\<lambda>now.
     bind (in_authority (authority_record now (dg_id (dl_grant D)) GA_Used summary (dl_scope D)
       (Some capability) (Some name) (Some action_id) (Some disposition))) (\<lambda>_.
     if consume
     then consume_grant clk D (''authority consumed by a '' @ disposition_text disposition @ '' effect'')
     else ret ()))))"

definition abort_prepared :: "('p, 'w) effect_tool \<Rightarrow> 'p option \<Rightarrow> string \<Rightarrow> ('w, unit) world_op" where
  "abort_prepared t prepared reason = (case prepared of None \<Rightarrow> ret ()
     | Some p \<Rightarrow> (case et_abort t of None \<Rightarrow> ret () | Some f \<Rightarrow> outside (f p reason)))"

definition settle_bound_action :: "('p, 'w) effect_tool \<Rightarrow> string \<Rightarrow> ('w, unit) world_op" where
  "settle_bound_action t action_id = (case et_bind t of None \<Rightarrow> ret ()
     | Some (_, settle) \<Rightarrow> outside (settle action_id))"

definition bind_action :: "('p, 'w) effect_tool \<Rightarrow> string \<Rightarrow> string \<Rightarrow> ('w, unit) world_op" where
  "bind_action t action_id action_key = (case et_bind t of None \<Rightarrow> ret ()
     | Some (f, _) \<Rightarrow> outside (f action_id action_key))"

definition dispatch_tool :: "('p, 'w) effect_tool \<Rightarrow> json \<Rightarrow> 'p option \<Rightarrow> ('w, tool_result) world_op" where
  "dispatch_tool t args prepared = outside (case prepared of
     Some p \<Rightarrow> et_run_prepared t args p | None \<Rightarrow> et_run t args)"

definition annotate :: "delegation \<Rightarrow> tool_result \<Rightarrow> effect_receipt \<Rightarrow> string \<Rightarrow> tool_result" where
  "annotate D result receipt action_id =
     result\<lparr>tr_content := tr_content result @ CHR 0x0A # ''grant_id: '' @ dg_id (dl_grant D)
         @ CHR 0x0A # ''job_action_id: '' @ action_id
         @ (if er_disposition receipt = In_Doubt
            then CHR 0x0A # ''This action is in doubt. Do not retry it. Report it to the user for reconciliation.''
            else []),
       tr_receipt := Some (receipt\<lparr>er_action_id := Some action_id\<rparr>)\<rparr>"

definition after_dispatch ::
  "(nat \<Rightarrow> instant) \<Rightarrow> delegation \<Rightarrow> evaluator \<Rightarrow> authority_scope \<Rightarrow> ('p, 'w) effect_tool \<Rightarrow> string
    \<Rightarrow> tool_result \<Rightarrow> ('w, tool_result) world_op" where
  "after_dispatch clk D ev scope t action_id result =
     (case ev_receipt ev scope result of
       Inl e \<Rightarrow> raise (Tool_Raised e)
     | Inr receipt \<Rightarrow> (case ev_consumes ev scope receipt of
         Inl e \<Rightarrow> raise (Tool_Raised e)
       | Inr consumes \<Rightarrow>
           bind (finalize clk D (et_name t) action_id (as_capability scope) (er_disposition receipt)
             (er_provider_reference receipt) consumes
             (et_name t @ '' resolved '' @ disposition_text (er_disposition receipt))) (\<lambda>_.
           bind (settle_bound_action t action_id) (\<lambda>_.
             ret (annotate D result receipt action_id)))))"

definition dispatch_reserved ::
  "(nat \<Rightarrow> instant) \<Rightarrow> delegation \<Rightarrow> evaluator \<Rightarrow> authority_scope \<Rightarrow> ('p, 'w) effect_tool \<Rightarrow> json
    \<Rightarrow> 'p option \<Rightarrow> effect_identity \<Rightarrow> string \<Rightarrow> ('w, tool_result) world_op" where
  "dispatch_reserved clk D ev scope t args prepared identity action_id =
     bind (attempt (bind_action t action_id (ei_action_key identity))) (\<lambda>bound.
     case bound of
       Inl e \<Rightarrow>
         bind (finalize clk D (et_name t) action_id (as_capability scope) Not_Performed None False
           (et_name t @ '' failed evidence binding before provider dispatch'')) (\<lambda>_.
         bind (abort_prepared t prepared ''effect evidence binding failed before dispatch'') (\<lambda>_.
           raise e))
     | Inr _ \<Rightarrow>
         bind (attempt (dispatch_tool t args prepared)) (\<lambda>done.
         case done of
           Inl e \<Rightarrow>
             bind (finalize clk D (et_name t) action_id (as_capability scope) In_Doubt None True
               (et_name t @ '' became ambiguous before returning a result'')) (\<lambda>_.
             bind (settle_bound_action t action_id) (\<lambda>_.
               raise e))
         | Inr result \<Rightarrow> after_dispatch clk D ev scope t action_id result))"

text \<open>
  \<open>cancelled\<close>: the task is cancelled while it waits for the reservation.  The reservation then still
  runs to its end.
\<close>

definition after_reservation ::
  "(nat \<Rightarrow> instant) \<Rightarrow> bool \<Rightarrow> delegation \<Rightarrow> evaluator \<Rightarrow> authority_scope \<Rightarrow> ('p, 'w) effect_tool
    \<Rightarrow> json \<Rightarrow> 'p option \<Rightarrow> effect_identity \<Rightarrow> world_error + job_action \<Rightarrow> ('w, tool_result) world_op" where
  "after_reservation clk cancelled D ev scope t args prepared identity reserved =
     (if cancelled then (case reserved of
         Inl _ \<Rightarrow> bind (abort_prepared t prepared ''authority reservation was cancelled'') (\<lambda>_. raise Call_Cancelled)
       | Inr a \<Rightarrow>
           bind (finalize clk D (et_name t) (ja_id a) (as_capability scope) Not_Performed None False
             (et_name t @ '' was cancelled before provider dispatch'')) (\<lambda>_.
           bind (abort_prepared t prepared ''authority reservation was cancelled'') (\<lambda>_. raise Call_Cancelled)))
     else (case reserved of
         Inl (Ledger_Raised (GrantAuthorityError m)) \<Rightarrow>
           bind (abort_prepared t prepared ''authority reservation was denied'') (\<lambda>_.
             deny clk D (et_name t) m (Some (as_capability scope)))
       | Inl (Ledger_Raised (JobActionConflictError m)) \<Rightarrow>
           bind (abort_prepared t prepared ''authority reservation was denied'') (\<lambda>_.
             deny clk D (et_name t) m (Some (as_capability scope)))
       | Inl (Ledger_Raised (JobEffectBudgetError m)) \<Rightarrow>
           bind (abort_prepared t prepared ''authority reservation was denied'') (\<lambda>_.
             deny clk D (et_name t) m (Some (as_capability scope)))
       | Inl e \<Rightarrow> bind (abort_prepared t prepared ''authority reservation failed'') (\<lambda>_. raise e)
       | Inr a \<Rightarrow> dispatch_reserved clk D ev scope t args prepared identity (ja_id a)))"

definition reserve_and_dispatch ::
  "(nat \<Rightarrow> instant) \<Rightarrow> string \<Rightarrow> bool \<Rightarrow> delegation \<Rightarrow> evaluator \<Rightarrow> authority_scope \<Rightarrow> ('p, 'w) effect_tool
    \<Rightarrow> json \<Rightarrow> authority_verdict \<Rightarrow> 'p option \<Rightarrow> effect_identity \<Rightarrow> ('w, tool_result) world_op" where
  "reserve_and_dispatch clk uuid cancelled D ev scope t args verdict prepared identity =
     bind (tick clk) (\<lambda>now.
     bind (attempt (in_ledger (ledger_reserve_grant_action now uuid (dg_id (dl_grant D))
       (effect_namespace (dl_grant D)) (dg_task_id (dl_grant D)) (dl_run_id D) identity
       (dl_effect_budget D) (av_amount_minor verdict) (av_currency verdict) (dl_scope D))))
       (after_reservation clk cancelled D ev scope t args prepared identity))"

text \<open>The identity of the effect, from the prepared payload or from the evaluator.\<close>

definition checked_identity :: "effect_identity \<Rightarrow> py_exn + effect_identity" where
  "checked_identity i = (case make_identity i of Inl m \<Rightarrow> Inl (ValueError m) | Inr i \<Rightarrow> Inr i)"

definition preflight ::
  "evaluator \<Rightarrow> authority_scope \<Rightarrow> ('p, 'w) effect_tool \<Rightarrow> json \<Rightarrow> ('w, 'p option \<times> effect_identity) world_op" where
  "preflight ev scope t args = (case et_prepare t of
     Some prepare \<Rightarrow>
       bind (outside (prepare args)) (\<lambda>p.
       bind (outside (\<lambda>w. (w, checked_identity (et_identity t p)))) (\<lambda>i. ret (Some p, i)))
   | None \<Rightarrow>
       bind (outside (\<lambda>w. (w, case ev_identity ev scope (et_name t) args of
           Inl e \<Rightarrow> Inl e | Inr i \<Rightarrow> checked_identity i))) (\<lambda>i. ret (None, i)))"

definition preflight_result :: "string \<Rightarrow> string \<Rightarrow> tool_result" where
  "preflight_result name m = denied_result (name @ '' preflight failed: '' @ m) Invalid_Preflight"

definition after_revalidation ::
  "(nat \<Rightarrow> instant) \<Rightarrow> string \<Rightarrow> bool \<Rightarrow> delegation \<Rightarrow> evaluator \<Rightarrow> authority_scope \<Rightarrow> ('p, 'w) effect_tool
    \<Rightarrow> json \<Rightarrow> authority_verdict \<Rightarrow> 'p \<Rightarrow> effect_identity \<Rightarrow> world_error + string option
    \<Rightarrow> ('w, tool_result) world_op" where
  "after_revalidation clk uuid cancelled D ev scope t args verdict p i again = (case again of
     Inl e \<Rightarrow> bind (abort_prepared t (Some p) ''authority revalidation failed'') (\<lambda>_. raise e)
   | Inr (Some reason) \<Rightarrow> bind (abort_prepared t (Some p) reason) (\<lambda>_.
       deny clk D (et_name t) reason (Some (as_capability scope)))
   | Inr None \<Rightarrow> reserve_and_dispatch clk uuid cancelled D ev scope t args verdict (Some p) i)"

definition after_preflight ::
  "(nat \<Rightarrow> instant) \<Rightarrow> string \<Rightarrow> bool \<Rightarrow> delegation \<Rightarrow> evaluator \<Rightarrow> authority_scope \<Rightarrow> ('p, 'w) effect_tool
    \<Rightarrow> json \<Rightarrow> authority_verdict \<Rightarrow> world_error + 'p option \<times> effect_identity \<Rightarrow> ('w, tool_result) world_op" where
  "after_preflight clk uuid cancelled D ev scope t args verdict pre = (case pre of
     Inl (Tool_Raised (ValueError m)) \<Rightarrow> ret (preflight_result (et_name t) m)
   | Inl (Tool_Raised (TypeError m)) \<Rightarrow> ret (preflight_result (et_name t) m)
   | Inl (Tool_Raised (OSError m)) \<Rightarrow> ret (preflight_result (et_name t) m)
   | Inl e \<Rightarrow> raise e
   | Inr (None, i) \<Rightarrow> reserve_and_dispatch clk uuid cancelled D ev scope t args verdict None i
   | Inr (Some p, i) \<Rightarrow>
       bind (attempt (admission_denial clk D (av_amount_minor verdict) (av_currency verdict)))
         (after_revalidation clk uuid cancelled D ev scope t args verdict p i))"

definition admitted_effect ::
  "(nat \<Rightarrow> instant) \<Rightarrow> string \<Rightarrow> bool \<Rightarrow> delegation \<Rightarrow> evaluator \<Rightarrow> authority_scope \<Rightarrow> ('p, 'w) effect_tool
    \<Rightarrow> json \<Rightarrow> authority_verdict \<Rightarrow> ('w, tool_result) world_op" where
  "admitted_effect clk uuid cancelled D ev scope t args verdict =
     bind (attempt (preflight ev scope t args)) (after_preflight clk uuid cancelled D ev scope t args verdict)"

definition after_admission ::
  "(nat \<Rightarrow> instant) \<Rightarrow> string \<Rightarrow> bool \<Rightarrow> delegation \<Rightarrow> evaluator \<Rightarrow> authority_scope \<Rightarrow> ('p, 'w) effect_tool
    \<Rightarrow> json \<Rightarrow> authority_verdict \<Rightarrow> string option \<Rightarrow> ('w, tool_result) world_op" where
  "after_admission clk uuid cancelled D ev scope t args verdict reason = (case reason of
     Some r \<Rightarrow> deny clk D (et_name t) r (Some (as_capability scope))
   | None \<Rightarrow> admitted_effect clk uuid cancelled D ev scope t args verdict)"

definition delegated_run ::
  "(nat \<Rightarrow> instant) \<Rightarrow> string \<Rightarrow> bool \<Rightarrow> delegation \<Rightarrow> ('p, 'w) effect_tool \<Rightarrow> json \<Rightarrow> ('w, tool_result) world_op" where
  "delegated_run clk uuid cancelled D t args =
     (case evaluator_for_tool (dl_registry D) (et_name t) of
       None \<Rightarrow> deny clk D (et_name t) ''effect tool has no authority evaluator'' None
     | Some ev \<Rightarrow> (case scope_for (dl_grant D) (ev_capability ev) of
         None \<Rightarrow> deny clk D (et_name t) ''the grant carries no scope for this capability'' (Some (ev_capability ev))
       | Some scope \<Rightarrow> (case ev_evaluate ev scope (et_name t) args of
           Inl (ValueError m) \<Rightarrow> deny clk D (et_name t) (''scope evaluation failed: '' @ m) (Some (as_capability scope))
         | Inl e \<Rightarrow> raise (Tool_Raised e)
         | Inr verdict \<Rightarrow>
             if \<not> av_allowed verdict
             then deny clk D (et_name t) (av_reason verdict) (Some (as_capability scope))
             else bind (admission_denial clk D (av_amount_minor verdict) (av_currency verdict))
               (after_admission clk uuid cancelled D ev scope t args verdict))))"

end
