(* ===== verification/Authority_Spec.thy ===== *)
theory Authority_Spec
  imports Authority_Store Ledger_Refine
begin

text \<open>
  The abstract authority store: a grant is issued, bound to one execution request, closed once, and
  each of these leaves one activity; \<open>authority_step\<close> lists the steps, and every call takes at most one.
\<close>

definition logged :: "grant_activity_row \<Rightarrow> authority_db \<Rightarrow> authority_db" where
  "logged row db = db\<lparr>grant_activity_rows := grant_activity_rows db @ [row], grant_activity_seq := gx_id row\<rparr>"

abbreviation put_grant :: "delegation_grant \<Rightarrow> authority_db \<Rightarrow> authority_db" where
  "put_grant g db \<equiv> db\<lparr>grant_rows := update_row dg_id (dg_id g) (\<lambda>_. g) (grant_rows db)\<rparr>"

definition closing_kind :: "grant_status \<Rightarrow> grant_activity_kind" where
  "closing_kind st = (case st of Grant_Active \<Rightarrow> GA_Issued | Grant_Revoked \<Rightarrow> GA_Revoked
     | Grant_Expired \<Rightarrow> GA_Expired | Grant_Consumed \<Rightarrow> GA_Consumed)"

inductive authority_step :: "authority_db \<Rightarrow> authority_db \<Rightarrow> bool" where
  Grant_Issued: "\<lbrakk>find_grant (dg_id g) db = None; dg_status g = Grant_Active;
     execution_unused (dg_execution_request_id g) (grant_rows db);
     gx_grant_id row = dg_id g; gx_kind row = GA_Issued\<rbrakk>
   \<Longrightarrow> authority_step db (logged row (db\<lparr>grant_rows := grant_rows db @ [g]\<rparr>))"
| Grant_Attached: "\<lbrakk>find_grant k db = Some g; dg_status g = Grant_Active; dg_execution_request_id g = None;
     execution_unused (Some e) (grant_rows db); gx_grant_id row = k; gx_kind row = GA_Issued\<rbrakk>
   \<Longrightarrow> authority_step db (logged row (put_grant (g\<lparr>dg_execution_request_id := Some e\<rparr>) db))"
| Grant_Closed: "\<lbrakk>find_grant k db = Some g; dg_status g = Grant_Active; st \<noteq> Grant_Active;
     gx_grant_id row = k; gx_kind row = closing_kind st\<rbrakk>
   \<Longrightarrow> authority_step db (logged row (put_grant (g\<lparr>dg_status := st\<rparr>) db))"
| Activity_Logged: "\<lbrakk>find_grant k db = Some g; gx_grant_id row = k\<rbrakk> \<Longrightarrow> authority_step db (logged row db)"

definition executions_bound :: "delegation_grant list \<Rightarrow> bool" where
  "executions_bound rows \<longleftrightarrow> (\<forall>g \<in> set rows. \<forall>h \<in> set rows. \<forall>e.
     dg_execution_request_id g = Some e \<and> dg_execution_request_id h = Some e \<longrightarrow> dg_id g = dg_id h)"

definition grant_logged :: "grant_activity_row list \<Rightarrow> delegation_grant \<Rightarrow> bool" where
  "grant_logged log g \<longleftrightarrow> (\<exists>r \<in> set log. gx_grant_id r = dg_id g \<and> gx_kind r = closing_kind (dg_status g))"

definition authority_ok :: "authority_db \<Rightarrow> bool" where
  "authority_ok db \<longleftrightarrow> distinct (map dg_id (grant_rows db)) \<and> executions_bound (grant_rows db)
     \<and> (\<forall>g \<in> set (grant_rows db). grant_logged (grant_activity_rows db) g)"

lemma logged_simps [simp]:
  "grant_rows (logged row db) = grant_rows db"
  "grant_activity_rows (logged row db) = grant_activity_rows db @ [row]"
  "find_grant k (logged row db) = find_grant k db"
  by (simp_all add: logged_def find_grant_def)

lemma empty_authority_ok: "authority_ok empty_authority"
  by (simp add: authority_ok_def empty_authority_def executions_bound_def)

lemma found_grant: "find_grant k db = Some g \<Longrightarrow> dg_id g = k \<and> g \<in> set (grant_rows db)"
  by (auto simp: find_grant_def dest: find_row_Some)

lemma authority_keys: "authority_ok db \<Longrightarrow> distinct (map dg_id (grant_rows db))"
  by (simp add: authority_ok_def)

lemma find_put_grant:
  "find_grant k db = Some g \<Longrightarrow> dg_id g' = k \<Longrightarrow>
     find_grant j (put_grant g' db) = (if j = k then Some g' else find_grant j db)"
  by (simp add: find_grant_def find_put_row)

lemma bound_unique:
  "executions_bound rows \<Longrightarrow> g \<in> set rows \<Longrightarrow> h \<in> set rows \<Longrightarrow> dg_execution_request_id g = Some e \<Longrightarrow>
     dg_execution_request_id h = Some e \<Longrightarrow> dg_id g = dg_id h"
  unfolding executions_bound_def by blast

lemma unused_fresh:
  "execution_unused (Some e) rows \<Longrightarrow> g \<in> set rows \<Longrightarrow> dg_execution_request_id g \<noteq> Some e"
  by (auto simp: execution_unused_def list_all_iff)

text \<open>A new row, put in the place of the rows with its id, shares no request with the others.\<close>

lemma executions_bound_put:
  assumes b: "executions_bound rows"
    and fresh: "\<And>e x. dg_execution_request_id g' = Some e \<Longrightarrow> x \<in> set rows \<Longrightarrow> dg_id x \<noteq> dg_id g' \<Longrightarrow>
      dg_execution_request_id x \<noteq> Some e"
    and sub: "\<And>x. x \<in> set rows' \<Longrightarrow> x = g' \<or> x \<in> set rows \<and> dg_id x \<noteq> dg_id g'"
  shows "executions_bound rows'"
  unfolding executions_bound_def
proof (intro ballI allI impI)
  fix x y e assume x: "x \<in> set rows'" and y: "y \<in> set rows'"
    and e: "dg_execution_request_id x = Some e \<and> dg_execution_request_id y = Some e"
  from sub [OF x] sub [OF y] e fresh [of e x] fresh [of e y] bound_unique [OF b, of x y e]
  show "dg_id x = dg_id y" by auto
qed

lemma logged_more: "grant_logged log g \<Longrightarrow> grant_logged (log @ [row]) g"
  by (auto simp: grant_logged_def)

lemma authority_ok_put:
  assumes ok: "authority_ok db" and g: "find_grant k db = Some g" and id: "dg_id g' = k"
    and fresh: "\<And>e. dg_execution_request_id g' = Some e \<Longrightarrow>
      dg_execution_request_id g = Some e \<or> execution_unused (Some e) (grant_rows db)"
    and row: "gx_grant_id row = k" "gx_kind row = closing_kind (dg_status g')"
  shows "authority_ok (logged row (put_grant g' db))"
proof -
  note gk = found_grant [OF g]
  let ?rows = "update_row dg_id (dg_id g') (\<lambda>_. g') (grant_rows db)"
  have old: "x = g' \<or> x \<in> set (grant_rows db) \<and> dg_id x \<noteq> dg_id g'" if "x \<in> set ?rows" for x
    using set_put_row [OF that] id by simp
  have b: "executions_bound (grant_rows db)" using ok by (simp add: authority_ok_def)
  have "executions_bound ?rows"
  proof (rule executions_bound_put [OF b _ old])
    fix e x assume "dg_execution_request_id g' = Some e" and x: "x \<in> set (grant_rows db)" "dg_id x \<noteq> dg_id g'"
    from fresh [OF this(1)] show "dg_execution_request_id x \<noteq> Some e"
      using bound_unique [OF b x(1) conjunct2 [OF gk], of e] unused_fresh [of e "grant_rows db" x] x gk id by auto
  qed
  moreover have "grant_logged (grant_activity_rows db @ [row]) x" if "x \<in> set ?rows" for x
    using old [OF that]
  proof
    assume "x = g'"
    with row id show ?thesis by (auto simp: grant_logged_def)
  next
    assume "x \<in> set (grant_rows db) \<and> dg_id x \<noteq> dg_id g'"
    with ok show ?thesis by (simp add: authority_ok_def logged_more)
  qed
  ultimately show ?thesis using authority_keys [OF ok] by (simp add: authority_ok_def keys_put_row)
qed

theorem authority_step_ok:
  assumes "authority_step db db'" and ok: "authority_ok db"
  shows "authority_ok db'"
  using assms(1)
proof cases
  case (Grant_Issued g row)
  have id: "dg_id g \<notin> dg_id ` set (grant_rows db)"
    using Grant_Issued(2) by (simp add: find_grant_def find_row_None)
  have other: "dg_id x \<noteq> dg_id g" if "x \<in> set (grant_rows db)" for x
    using id that by (metis imageI)
  have "executions_bound (grant_rows db @ [g])"
  proof (rule executions_bound_put [of "grant_rows db" g])
    show "executions_bound (grant_rows db)" using ok by (simp add: authority_ok_def)
    show "x = g \<or> x \<in> set (grant_rows db) \<and> dg_id x \<noteq> dg_id g" if "x \<in> set (grant_rows db @ [g])" for x
      using that other by auto
  qed (use Grant_Issued(4) unused_fresh in auto)
  then show ?thesis
    using ok id Grant_Issued logged_more by (auto simp: authority_ok_def grant_logged_def closing_kind_def)
next
  case (Grant_Attached k g e row)
  show ?thesis
    unfolding Grant_Attached(1)
    by (rule authority_ok_put [OF ok Grant_Attached(2)])
      (use Grant_Attached found_grant [OF Grant_Attached(2)] in \<open>simp_all add: closing_kind_def\<close>)
next
  case (Grant_Closed k g st row)
  show ?thesis
    unfolding Grant_Closed(1)
    by (rule authority_ok_put [OF ok Grant_Closed(2)])
      (use Grant_Closed found_grant [OF Grant_Closed(2)] in simp_all)
next
  case (Activity_Logged k g row)
  with ok show ?thesis by (simp add: authority_ok_def logged_more)
qed

section \<open>Every call takes at most one step\<close>

definition authority_moves :: "authority_db \<Rightarrow> authority_db \<Rightarrow> bool" where
  "authority_moves db db' \<longleftrightarrow> db' = db \<or> authority_step db db'"

lemma authority_moves_refl [simp]: "authority_moves db db"
  by (simp add: authority_moves_def)

lemma moves_step: "authority_step db db' \<Longrightarrow> authority_moves db db'"
  by (simp add: authority_moves_def)

lemma moves_atomic:
  assumes "\<And>t x. m db = (t, Inr x) \<Longrightarrow> authority_moves db t"
  shows "authority_moves db (fst (atomic m db))"
  by (rule final_atomic [where P = "authority_moves db", OF authority_moves_refl assms])

lemma moves_silent_then:
  assumes "silent m" and "\<And>x. m db = (db, Inr x) \<Longrightarrow> authority_moves db (fst (f x db))"
  shows "authority_moves db (fst (bind m f db))"
proof (cases "m db")
  case (Pair t r)
  with assms silentD [OF assms(1), of db] show ?thesis by (cases r) (auto simp: bind_def)
qed

lemma then_raise: "fst (bind m (\<lambda>_. raise e) s) = fst (m s)"
  by (auto simp: bind_def raise_def split: prod.split sum.split)

lemma silent_value_checked [silent_intros]: "silent (value_checked r)"
  unfolding value_checked_def by (intro silent_intros)

lemma silent_grant_label [silent_intros]: "silent (grant_label g)"
  unfolding grant_label_def by (intro silent_intros)

lemma silent_required_grant [silent_intros]: "silent (required_grant k)"
  unfolding required_grant_def by (intro silent_intros)

lemma silent_get_grant [silent_intros]: "silent (get_grant_impl k)"
  unfolding get_grant_impl_def by (intro silent_intros)

lemma silent_authority_get [silent_intros]: "silent (authority_get k scope)"
  unfolding authority_get_def by (intro silent_intros)

lemma value_checked_ok: "value_checked r db = (t, Inr x) \<longleftrightarrow> t = db \<and> r = Inr x"
  by (cases r) (auto simp: value_checked_def op_ok)

lemma make_source_same: "make_grant_source s = Inr s' \<Longrightarrow> s' = s"
  unfolding make_grant_source_def andthen_Inr by simp

lemma make_scope_same: "make_authority_scope s = Inr s' \<Longrightarrow> s' = s"
  unfolding make_authority_scope_def andthen_Inr by simp

lemma make_confirmation_same: "make_confirmation s = Inr s' \<Longrightarrow> s' = s"
  unfolding make_confirmation_def andthen_Inr by simp

lemma collect_same:
  assumes "\<And>x y. f x = Inr y \<Longrightarrow> y = x" and "collect f xs = Inr ys"
  shows "ys = xs"
proof -
  have "list_all2 (\<lambda>x y. y = x) xs ys"
    using assms by (auto simp: collect_Inr elim: list_all2_mono)
  then show ?thesis by (simp add: list_all2_conv_all_nth list_eq_iff_nth_eq)
qed

text \<open>Decoding a row gives the row back, apart from the normal form of its scope.\<close>

lemma make_grant_same:
  assumes "make_grant g = Inr g'"
  shows "\<exists>s. g' = g\<lparr>dg_profile_scope := s\<rparr> \<and> scope_ok s"
  using assms make_source_same collect_same [OF make_confirmation_same] collect_same [OF make_scope_same]
  unfolding make_grant_def andthen_Inr by (fastforce dest: profile_scope_ok)

lemma required_grant_ok:
  assumes "required_grant k db = (t, Inr g')"
  shows "t = db \<and> (\<exists>g. find_grant k db = Some g \<and> make_grant g = Inr g' \<and> dg_id g' = k
    \<and> dg_status g' = dg_status g \<and> dg_execution_request_id g' = dg_execution_request_id g
    \<and> dg_expires_at g' = dg_expires_at g)"
proof -
  from assms obtain g where g: "t = db" "find_grant k db = Some g" "make_grant g = Inr g'"
    by (auto simp: required_grant_def op_ok value_checked_ok)
  from make_grant_same [OF g(3)] obtain s where "g' = g\<lparr>dg_profile_scope := s\<rparr>" by blast
  with g found_grant [OF g(2)] show ?thesis by simp
qed

lemma append_activity_ok:
  assumes "append_activity now k kind summary c n a d s db = (t, Inr x)"
  shows "\<exists>row. t = logged row db \<and> gx_grant_id row = k \<and> gx_kind row = kind \<and> find_grant k db \<noteq> None"
  using assms
  by (intro exI [of _ "\<lparr>gx_id = Suc (grant_activity_seq db), gx_grant_id = k, gx_kind = kind,
      gx_capability = c, gx_tool_name = n, gx_action_id = a, gx_disposition = d,
      gx_summary = take 2000 summary, gx_created_at = now\<rparr>"])
    (auto simp: append_activity_def op_ok value_checked_ok logged_def split: option.splits
      dest!: silent_bind_ok [OF silent_required_grant])

lemma append_plain_ok:
  assumes "append_plain now k kind summary db = (t, Inr x)"
  shows "\<exists>row. t = logged row db \<and> gx_grant_id row = k \<and> gx_kind row = kind"
  using assms by (auto simp: append_plain_def op_ok dest: append_activity_ok)

lemma grant_update_ok:
  assumes "authority_ok db"
  shows "sql_update_grant (\<lambda>g. dg_id g = k \<and> C g) f db = (t, Inr (Suc 0)) \<longleftrightarrow>
    (\<exists>g. find_grant k db = Some g \<and> C g
      \<and> t = db\<lparr>grant_rows := update_row dg_id k (\<lambda>_. f g) (grant_rows db)\<rparr>)"
  unfolding sql_update_grant_def find_grant_def by (rule grants.update_one_ok [OF authority_keys [OF assms]])

text \<open>The code does not look at the number of updated rows, but it is one.\<close>

lemma grant_update_found:
  assumes "authority_ok db" and "find_grant k db = Some g" and "C g"
    and "sql_update_grant (\<lambda>g. dg_id g = k \<and> C g) f db = (t, Inr n)"
  shows "t = db\<lparr>grant_rows := update_row dg_id k (\<lambda>_. f g) (grant_rows db)\<rparr>"
proof -
  have "n = Suc 0"
    using assms grants.filter_key_where [OF authority_keys [OF assms(1)], of k C]
    by (auto simp: sql_update_grant_def sql_update_def op_ok find_grant_def)
  with assms grant_update_ok [OF assms(1), of k C f t] show ?thesis by auto
qed

lemma issue_moves:
  assumes "dg_status g = Grant_Active"
  shows "authority_moves db (fst (issue_impl now g db))"
  unfolding issue_impl_def
proof (rule moves_atomic)
  fix t x
  assume "bind (reads (\<lambda>db. execution_unused (dg_execution_request_id g) (grant_rows db))) (\<lambda>ok.
     bind (sql_insert grant_rows grant_rows_update dg_id (\<lambda>_. ok) authority_sqlite_error g) (\<lambda>_.
     bind (append_plain now (dg_id g) GA_Issued (dg_summary g)) (\<lambda>_. ret g))) db = (t, Inr x)"
  then obtain row where "find_grant (dg_id g) db = None" "execution_unused (dg_execution_request_id g) (grant_rows db)"
    "t = logged row (db\<lparr>grant_rows := grant_rows db @ [g]\<rparr>)" "gx_grant_id row = dg_id g" "gx_kind row = GA_Issued"
    by (auto simp: op_ok grants.insert_ok find_grant_def dest!: append_plain_ok)
  with assms show "authority_moves db t" using moves_step [OF Grant_Issued [of g db row]] by simp
qed

lemma attach_moves:
  assumes ok: "authority_ok db"
  shows "authority_moves db (fst (attach_execution_impl now k request db))"
  unfolding attach_execution_impl_def
proof (rule moves_atomic, goal_cases)
  case (1 t x)
  then obtain g' g where g: "find_grant k db = Some g" "dg_status g = Grant_Active"
      "dg_execution_request_id g' = dg_execution_request_id g" "dg_status g' = Grant_Active"
    and rest: "(case dg_execution_request_id g' of
         Some e \<Rightarrow> if e = request then ret g'
           else raise (GrantStateError ''grant is already attached to another execution request'')
       | None \<Rightarrow>
           bind (reads (\<lambda>db. execution_unused (Some request) (grant_rows db))) (\<lambda>unused.
           bind (unless unused authority_sqlite_error) (\<lambda>_.
           bind (sql_update_grant (\<lambda>g. dg_id g = k \<and> dg_execution_request_id g = None \<and> dg_status g = Grant_Active)
             (\<lambda>g. g\<lparr>dg_execution_request_id := Some request\<rparr>)) (\<lambda>_.
           bind (required_grant k) (\<lambda>updated.
           bind (unless (dg_execution_request_id updated = Some request)
             (GrantStateError ''grant execution attachment lost a race'')) (\<lambda>_.
           bind (append_plain now k GA_Issued (''Attached to execution request '' @ request)) (\<lambda>_.
             ret updated))))))) db = (t, Inr x)"
    by (auto simp: bind_ok unless_ok dest!: required_grant_ok)
  show ?case
  proof (cases "dg_execution_request_id g")
    case None
    with rest g obtain d n row where unused: "execution_unused (Some request) (grant_rows db)"
      and upd: "sql_update_grant (\<lambda>g. dg_id g = k \<and> dg_execution_request_id g = None \<and> dg_status g = Grant_Active)
             (\<lambda>g. g\<lparr>dg_execution_request_id := Some request\<rparr>) db = (d, Inr n)"
      and t: "t = logged row d" "gx_grant_id row = k" "gx_kind row = GA_Issued"
      by (auto simp: op_ok dest!: required_grant_ok append_plain_ok)
    from grant_update_found [where C = "\<lambda>g. dg_execution_request_id g = None \<and> dg_status g = Grant_Active",
        OF ok g(1) conjI [OF None g(2)] upd]
    have "d = put_grant (g\<lparr>dg_execution_request_id := Some request\<rparr>) db" using found_grant [OF g(1)] by simp
    with t moves_step [OF Grant_Attached [OF g(1,2) None unused, of row]] show ?thesis by simp
  next
    case (Some e)
    with rest g show ?thesis by (auto simp: op_ok split: if_splits)
  qed
qed

lemma closing_moves:
  assumes ok: "authority_ok db" and g: "find_grant k db = Some g" "dg_status g = Grant_Active"
    and upd: "sql_update_grant (\<lambda>g. dg_id g = k \<and> dg_status g = Grant_Active) (\<lambda>g. g\<lparr>dg_status := st\<rparr>) db = (d, Inr n)"
    and t: "t = logged row d" "gx_grant_id row = k" "gx_kind row = closing_kind st" and st: "st \<noteq> Grant_Active"
  shows "authority_moves db t"
proof -
  have "d = put_grant (g\<lparr>dg_status := st\<rparr>) db"
    using grant_update_found [where C = "\<lambda>g. dg_status g = Grant_Active", OF ok g upd] found_grant [OF g(1)] by simp
  with t moves_step [OF Grant_Closed [OF g st, of row]] show ?thesis by simp
qed

lemma terminate_moves:
  assumes ok: "authority_ok db" and st: "st \<noteq> Grant_Active" "kind = closing_kind st"
  shows "authority_moves db (fst (terminate_impl now k st kind summary db))"
  unfolding terminate_impl_def
proof (rule moves_atomic, goal_cases)
  case (1 t x)
  then obtain g d n row where "find_grant k db = Some g" "dg_status g = Grant_Active"
    "sql_update_grant (\<lambda>g. dg_id g = k \<and> dg_status g = Grant_Active) (\<lambda>g. g\<lparr>dg_status := st\<rparr>) db = (d, Inr n)"
    "t = logged row d" "gx_grant_id row = k" "gx_kind row = kind"
    by (auto simp: op_ok dest!: required_grant_ok append_plain_ok)
  with closing_moves [OF ok] st show ?case by blast
qed

lemma load_active_moves:
  assumes ok: "authority_ok db"
  shows "authority_moves db (fst (load_active_impl clock now k db))"
  unfolding load_active_impl_def
proof (rule moves_silent_then, rule silent_required_grant, rule moves_silent_then, simp, goal_cases)
  case (1 g' u)
  then obtain g where g: "find_grant k db = Some g" "dg_status g = Grant_Active"
    by (auto simp: op_ok dest!: required_grant_ok)
  let ?close = "bind (sql_update_grant (\<lambda>g. dg_id g = k \<and> dg_status g = Grant_Active)
                (\<lambda>g. g\<lparr>dg_status := Grant_Expired\<rparr>)) (\<lambda>_.
                append_plain clock k GA_Expired ''Grant expired before use'')"
  have "authority_moves db (fst (atomic ?close db))"
  proof (rule moves_atomic)
    fix t x assume "?close db = (t, Inr x)"
    then obtain d n row where "sql_update_grant (\<lambda>g. dg_id g = k \<and> dg_status g = Grant_Active)
        (\<lambda>g. g\<lparr>dg_status := Grant_Expired\<rparr>) db = (d, Inr n)"
      "t = logged row d" "gx_grant_id row = k" "gx_kind row = GA_Expired"
      by (auto simp: op_ok dest!: append_plain_ok)
    with closing_moves [OF ok g] show "authority_moves db t" by (simp add: closing_kind_def)
  qed
  then have "authority_moves db (fst (bind (atomic ?close)
      (\<lambda>_. raise (GrantStateError ''delegation grant is expired'') :: delegation_grant authority_op) db))"
    by (simp only: then_raise)
  then show ?case by (simp add: ret_def)
qed

lemma record_moves: "authority_moves db (fst (record_activity_impl now k kind summary c n a d s db))"
  unfolding record_activity_impl_def
proof (rule moves_atomic, goal_cases)
  case (1 t x)
  then obtain row where "t = logged row db" "gx_grant_id row = k" "find_grant k db \<noteq> None"
    by (auto simp: op_ok dest!: required_grant_ok append_activity_ok)
  then show ?case using moves_step [OF Activity_Logged] by blast
qed

section \<open>Sequences of calls\<close>

text \<open>
  Each call runs at a wall-clock instant; \<open>A_Load\<close> has the reading that decides about expiry
  besides.  Listings do not occur: they are silent.
\<close>

datatype authority_call =
    A_Issue delegation_grant profile_scope
  | A_Attach string string profile_scope
  | A_Load instant string profile_scope
  | A_Revoke string profile_scope string string
  | A_Consume string profile_scope string
  | A_Record string grant_activity_kind string profile_scope "string option" "string option"
      "string option" "effect_disposition option"

fun authority_exec :: "instant \<Rightarrow> authority_call \<Rightarrow> authority_db \<Rightarrow> authority_db" where
  "authority_exec now (A_Issue g scope) db = fst (authority_issue now g scope db)"
| "authority_exec now (A_Attach k request scope) db = fst (authority_attach_execution now k request scope db)"
| "authority_exec now (A_Load clock k scope) db = fst (authority_load_active clock now k scope db)"
| "authority_exec now (A_Revoke k scope actor reason) db = fst (authority_revoke now k scope actor reason db)"
| "authority_exec now (A_Consume k scope reason) db = fst (authority_consume now k scope reason db)"
| "authority_exec now (A_Record k kind summary scope c n a d) db
     = fst (authority_record now k kind summary scope c n a d db)"

definition authority_run :: "(instant \<times> authority_call) list \<Rightarrow> authority_db \<Rightarrow> authority_db" where
  "authority_run cs db = fold (\<lambda>(now, c). authority_exec now c) cs db"

abbreviation authority_reached :: "(instant \<times> authority_call) list \<Rightarrow> authority_db" where
  "authority_reached cs \<equiv> authority_run cs empty_authority"

lemma silent_authority_listings [silent_intros]:
  "silent (authority_list scope t st l)" "silent (authority_activities k scope l)"
  "silent (active_execution_request_ids scope)"
  unfolding authority_list_def list_grants_impl_def authority_activities_def active_execution_request_ids_def
  by (intro silent_intros)+

lemma exec_moves:
  assumes "authority_ok db"
  shows "authority_moves db (authority_exec now c db)"
proof (cases c)
  case (A_Issue g scope)
  show ?thesis
    unfolding A_Issue authority_exec.simps authority_issue_def
    by (rule moves_silent_then, simp, rule moves_silent_then, rule silent_grant_label,
        rule moves_silent_then, simp, rule issue_moves) (simp add: op_ok)
next
  case (A_Attach k request scope)
  show ?thesis
    unfolding A_Attach authority_exec.simps authority_attach_execution_def
    by (rule moves_silent_then, rule silent_authority_get, rule attach_moves [OF assms])
next
  case (A_Load clock k scope)
  show ?thesis
    unfolding A_Load authority_exec.simps authority_load_active_def
    by (rule moves_silent_then, rule silent_authority_get, rule load_active_moves [OF assms])
next
  case (A_Revoke k scope actor reason)
  show ?thesis
    unfolding A_Revoke authority_exec.simps authority_revoke_def
    by (rule moves_silent_then, simp, rule moves_silent_then, rule silent_authority_get,
        rule terminate_moves [OF assms]) (simp_all add: closing_kind_def)
next
  case (A_Consume k scope reason)
  show ?thesis
    unfolding A_Consume authority_exec.simps authority_consume_def
    by (rule moves_silent_then, rule silent_authority_get, rule terminate_moves [OF assms])
      (simp_all add: closing_kind_def)
next
  case (A_Record k kind summary scope c n a d)
  show ?thesis
    unfolding A_Record authority_exec.simps authority_record_def
    by (rule moves_silent_then, rule silent_authority_get, rule record_moves)
qed

lemma authority_run_steps:
  assumes "authority_ok db"
  shows "authority_step\<^sup>*\<^sup>* db (authority_run cs db) \<and> authority_ok (authority_run cs db)"
  using assms
proof (induction cs arbitrary: db)
  case Nil
  then show ?case by (simp add: authority_run_def)
next
  case (Cons c cs)
  let ?db = "authority_exec (fst c) (snd c) db"
  have m: "authority_moves db ?db" by (rule exec_moves [OF Cons.prems])
  then have "authority_ok ?db" using Cons.prems authority_step_ok by (auto simp: authority_moves_def)
  from Cons.IH [OF this] m show ?case
    by (auto simp: authority_run_def authority_moves_def split_beta intro: converse_rtranclp_into_rtranclp)
qed

text \<open>What every step keeps holds at the end of every run.\<close>

lemma authority_run_induct:
  assumes ok: "authority_ok db" and start: "P db"
    and step: "\<And>d d'. P d \<Longrightarrow> authority_ok d \<Longrightarrow> authority_step d d' \<Longrightarrow> P d'"
  shows "P (authority_run cs db)"
proof -
  have "authority_step\<^sup>*\<^sup>* db (authority_run cs db)" using authority_run_steps [OF ok] by blast
  then have "P (authority_run cs db) \<and> authority_ok (authority_run cs db)"
    by (induction rule: rtranclp_induct) (use ok start step authority_step_ok in blast)+
  then show ?thesis by blast
qed

lemma authority_reached_ok: "authority_ok (authority_reached cs)"
  using authority_run_steps [OF empty_authority_ok] by blast

lemma authority_reached_append: "authority_reached (cs @ ds) = authority_run ds (authority_reached cs)"
  by (simp add: authority_run_def)

end
