(* ===== verification/Delegation_Spec.thy ===== *)
theory Delegation_Spec
  imports Delegation Authority_Spec Ledger_Properties
begin

text \<open>
  What a delegated call does to the two stores: it moves each of them only by steps of its own
  relation, it touches the actions of the ledger only through one reservation, and it can be
  compared with the call of another tool.
\<close>

section \<open>Relations kept by composed calls\<close>

lemma keeps_attempt [keeps_intros]: "keeps R m \<Longrightarrow> keeps R (attempt m)"
  by (auto simp: keeps_def attempt_def split: prod.split) (metis fst_conv)

lemma keeps_errors [keeps_intros]:
  "(\<And>e. keeps R (a e)) \<Longrightarrow> (\<And>e. keeps R (b e)) \<Longrightarrow> (\<And>e. keeps R (c e)) \<Longrightarrow> keeps R d \<Longrightarrow>
     keeps R (case_world_error a b c d w)"
  "(\<And>e. keeps R (f1 e)) \<Longrightarrow> (\<And>e. keeps R (f2 e)) \<Longrightarrow> (\<And>e. keeps R (f3 e)) \<Longrightarrow> (\<And>e. keeps R (f4 e)) \<Longrightarrow>
     (\<And>e. keeps R (f5 e)) \<Longrightarrow> keeps R (case_ledger_error f1 f2 f3 f4 f5 le)"
  "(\<And>e. keeps R (g1 e)) \<Longrightarrow> (\<And>e. keeps R (g2 e)) \<Longrightarrow> (\<And>e. keeps R (g3 e)) \<Longrightarrow> (\<And>e. keeps R (g4 e)) \<Longrightarrow>
     keeps R (case_authority_error g1 g2 g3 g4 ae)"
  "(\<And>e. keeps R (h1 e)) \<Longrightarrow> (\<And>e. keeps R (h2 e)) \<Longrightarrow> (\<And>e. keeps R (h3 e)) \<Longrightarrow> (\<And>e. keeps R (h4 e)) \<Longrightarrow>
     keeps R (case_py_exn h1 h2 h3 h4 pe)"
  by (auto split: world_error.split ledger_error.split authority_error.split py_exn.split)

lemma keeps_lifted:
  "keeps R (in_ledger m) \<longleftrightarrow> (\<forall>w. R w (w\<lparr>wd_ledger := fst (m (wd_ledger w))\<rparr>))"
  "keeps R (in_authority n) \<longleftrightarrow> (\<forall>w. R w (w\<lparr>wd_authority := fst (n (wd_authority w))\<rparr>))"
  "keeps R (outside f) \<longleftrightarrow> (\<forall>w. R w (w\<lparr>wd_outside := fst (f (wd_outside w))\<rparr>))"
  "keeps R (tick clk) \<longleftrightarrow> (\<forall>w. R w (w\<lparr>wd_clock := Suc (wd_clock w)\<rparr>))"
  by (simp_all add: keeps_def in_ledger_def in_authority_def outside_def tick_def split_beta)

section \<open>Both stores move by their own steps\<close>

definition world_ok :: "'w world \<Rightarrow> bool" where
  "world_ok w \<longleftrightarrow> ledger_ok (wd_ledger w) \<and> authority_ok (wd_authority w)"

definition world_moves :: "'w world \<Rightarrow> 'w world \<Rightarrow> bool" where
  "world_moves w w' \<longleftrightarrow> (world_ok w \<longrightarrow> ledger_step\<^sup>*\<^sup>* (wd_ledger w) (wd_ledger w')
     \<and> authority_step\<^sup>*\<^sup>* (wd_authority w) (wd_authority w') \<and> world_ok w')"

lemma world_moves_order [keeps_intros]: "reflp world_moves" "transp world_moves"
  by (auto simp: world_moves_def reflp_def transp_def)

lemma moves_in_ledger: "(\<And>db. ledger_ok db \<Longrightarrow> at_most_one db (fst (m db))) \<Longrightarrow> keeps world_moves (in_ledger m)"
  unfolding keeps_lifted world_moves_def world_ok_def at_most_one_def
  using ledger_step_ok by fastforce

lemma moves_in_authority:
  "(\<And>db. authority_ok db \<Longrightarrow> authority_moves db (fst (m db))) \<Longrightarrow> keeps world_moves (in_authority m)"
  unfolding keeps_lifted world_moves_def world_ok_def authority_moves_def
  using authority_step_ok by fastforce

lemma moves_reserve: "keeps world_moves (in_ledger (ledger_reserve_grant_action now uuid g ns task k i b m cur sc))"
  using ledger_exec_step [of _ "L_Reserve_Grant g ns task k i b m cur sc" "\<lambda>_ n. n" now uuid]
  by (intro moves_in_ledger) simp

lemma moves_resolve: "keeps world_moves (in_ledger (ledger_resolve_action now k d sc ref))"
  using ledger_exec_step [of _ "L_Resolve k d sc ref" "\<lambda>_ n. n" now uuid]
  by (intro moves_in_ledger) simp

lemma moves_status: "scope_ok sc \<Longrightarrow> keeps world_moves (in_ledger (set_grant_budget_status now g st sc))"
  using ledger_exec_step [of _ "L_Status g st sc" "\<lambda>_ n. n" now] by (intro moves_in_ledger) simp

lemma moves_record: "keeps world_moves (in_authority (authority_record now k kind summary sc c n a d))"
  using exec_moves [of _ now "A_Record k kind summary sc c n a d"] by (intro moves_in_authority) simp

lemma moves_consume: "keeps world_moves (in_authority (authority_consume now k sc reason))"
  using exec_moves [of _ now "A_Consume k sc reason"] by (intro moves_in_authority) simp

section \<open>The calls of a delegated effect\<close>

text \<open>
  A relation that the single calls keep is kept by the whole.  The interfaces grow: the calls before
  a reservation, those that settle one, and the reservation itself.
\<close>

locale calm_relation =
  fixes R :: "'w world \<Rightarrow> 'w world \<Rightarrow> bool"
  assumes order: "reflp R" "transp R"
    and outside_step: "R w (w\<lparr>wd_outside := x\<rparr>)"
    and clock_step: "R w (w\<lparr>wd_clock := i\<rparr>)"
    and record_call: "keeps R (in_authority (authority_record now k kind summary sc c n a od))"
begin

lemma outside_call: "keeps R (outside f)" and clock_call: "keeps R (tick clk)"
  by (simp_all add: keeps_lifted outside_step clock_step)

lemmas calm_calls = order outside_call clock_call record_call

lemma keeps_silent: "silent m \<Longrightarrow> keeps R (in_ledger m)" "silent n \<Longrightarrow> keeps R (in_authority n)"
  using order(1) by (simp_all add: keeps_lifted silentD reflp_def)

lemma keeps_deny: "keeps R (deny clk D name reason c)"
  unfolding deny_def by (intro keeps_intros calm_calls)

lemma keeps_admission: "keeps R (admission_denial clk D amount currency)"
  unfolding admission_denial_def
  by (intro keeps_intros calm_calls keeps_silent silent_authority_get silent_listings silent_ledger_get)

lemma keeps_abort: "keeps R (abort_prepared t p reason)"
  unfolding abort_prepared_def by (intro keeps_intros calm_calls)

lemma keeps_settle: "keeps R (settle_bound_action t k)"
  unfolding settle_bound_action_def by (intro keeps_intros calm_calls)

lemma keeps_preflight: "keeps R (preflight ev scope t args)"
  unfolding preflight_def by (intro keeps_intros calm_calls)

end

locale quiet_relation = calm_relation R for R :: "'w world \<Rightarrow> 'w world \<Rightarrow> bool" +
  assumes consume_call: "keeps R (in_authority (authority_consume now k sc reason))"
    and resolve_call: "keeps R (in_ledger (ledger_resolve_action now k d sc ref))"
    and status_call: "scope_ok sc \<Longrightarrow> keeps R (in_ledger (set_grant_budget_status now g st sc))"
begin

lemmas calls = calm_calls consume_call resolve_call status_call

lemma keeps_finalize: "scope_ok (dl_scope D) \<Longrightarrow> keeps R (finalize clk D n k c d ref consume summary)"
  unfolding finalize_def consume_grant_def by (intro keeps_intros calls)

lemma keeps_dispatch: "scope_ok (dl_scope D) \<Longrightarrow> keeps R (dispatch_reserved clk D ev scope t args p i k)"
  unfolding dispatch_reserved_def after_dispatch_def bind_action_def dispatch_tool_def
  by (intro keeps_intros calls keeps_finalize keeps_abort keeps_settle)

lemma keeps_after_reservation:
  "scope_ok (dl_scope D) \<Longrightarrow> keeps R (after_reservation clk cancelled D ev scope t args p i r)"
  unfolding after_reservation_def
  by (intro keeps_intros calls keeps_dispatch keeps_finalize keeps_abort keeps_deny)

end

locale call_relation = quiet_relation R for R :: "'w world \<Rightarrow> 'w world \<Rightarrow> bool" +
  assumes reserve_call: "keeps R (in_ledger (ledger_reserve_grant_action now uuid g ns task k i b m cur sc))"
begin

lemma keeps_reserve:
  "scope_ok (dl_scope D) \<Longrightarrow> keeps R (reserve_and_dispatch clk uuid cancelled D ev scope t args verdict p i)"
  unfolding reserve_and_dispatch_def by (intro keeps_intros calls reserve_call keeps_after_reservation)

lemma keeps_admitted:
  "scope_ok (dl_scope D) \<Longrightarrow> keeps R (admitted_effect clk uuid cancelled D ev scope t args verdict)"
  unfolding admitted_effect_def after_preflight_def after_revalidation_def
  by (intro keeps_intros calls keeps_reserve keeps_admission keeps_preflight keeps_abort keeps_deny)

lemma keeps_delegated: "scope_ok (dl_scope D) \<Longrightarrow> keeps R (delegated_run clk uuid cancelled D t args)"
  unfolding delegated_run_def after_admission_def
  by (intro keeps_intros calls keeps_admitted keeps_admission keeps_deny)

end

interpretation moves: call_relation world_moves
proof
  show "world_moves w (w\<lparr>wd_outside := x\<rparr>)" "world_moves w (w\<lparr>wd_clock := i\<rparr>)" for w :: "'a world" and x i
    by (simp_all add: world_moves_def world_ok_def)
qed (rule world_moves_order moves_record moves_consume moves_resolve moves_reserve moves_status; assumption?)+

section \<open>Only a reservation adds an action\<close>

text \<open>What identifies the actions of the ledger.\<close>

definition action_ids :: "'w world \<Rightarrow> (string \<times> string \<times> string \<times> string option) list" where
  "action_ids w = map (\<lambda>a. (ac_id a, ac_job_name a, ac_action_key a, ac_grant_id a)) (action_rows (wd_ledger w))"

definition same_actions :: "'w world \<Rightarrow> 'w world \<Rightarrow> bool" where
  "same_actions w w' \<longleftrightarrow> action_ids w' = action_ids w"

lemma resolve_keeps_ids:
  "map (\<lambda>a. (ac_id a, ac_job_name a, ac_action_key a, ac_grant_id a))
     (action_rows (fst (ledger_resolve_action now k d sc ref db)))
   = map (\<lambda>a. (ac_id a, ac_job_name a, ac_action_key a, ac_grant_id a)) (action_rows db)"
proof -
  let ?P = "\<lambda>d. map (\<lambda>a. (ac_id a, ac_job_name a, ac_action_key a, ac_grant_id a)) (action_rows d)
      = map (\<lambda>a. (ac_id a, ac_job_name a, ac_action_key a, ac_grant_id a)) (action_rows db)"
  have "?P (fst (resolve_action_sync now k d ref db))"
    unfolding resolve_action_sync_def
    by (rule final_atomic_bind [where P = ?P])
      (auto simp: silentD [OF silent_required_action] op_ok sql_update_action_def sql_update_def)
  then show ?thesis
    unfolding ledger_resolve_action_def
    by (intro silent_final [where P = ?P]) (auto intro: silent_intros)
qed

lemma status_keeps_actions: "action_rows (fst (set_grant_budget_status now g st sc db)) = action_rows db"
  unfolding set_grant_budget_status_def
  by (rule final_atomic [where P = "\<lambda>d. action_rows d = action_rows db"])
    (auto simp: op_ok sql_update_budget_def sql_update_def sql_insert_def split: option.splits if_splits
      dest!: silent_bind_ok [OF silent_require_scope_access] silent_bind_ok [OF silent_read_scope]
          silent_bind_ok [OF silent_require_stored_scope])

interpretation same: quiet_relation same_actions
  by unfold_locales
    (auto simp: same_actions_def action_ids_def reflp_def transp_def keeps_lifted resolve_keeps_ids
      status_keeps_actions)

definition same_ledger :: "'w world \<Rightarrow> 'w world \<Rightarrow> bool" where
  "same_ledger w w' \<longleftrightarrow> wd_ledger w' = wd_ledger w \<and> (world_ok w \<longrightarrow> world_ok w')"

interpretation calm: calm_relation same_ledger
proof
  show "keeps same_ledger (in_authority (authority_record now k kind summary sc c n a od) :: ('a, grant_activity) world_op)"
    for now k kind summary sc c n a od
    unfolding keeps_lifted same_ledger_def
  proof
    fix w :: "'a world"
    show "wd_ledger (w\<lparr>wd_authority := fst (authority_record now k kind summary sc c n a od (wd_authority w))\<rparr>) = wd_ledger w
      \<and> (world_ok w \<longrightarrow> world_ok (w\<lparr>wd_authority := fst (authority_record now k kind summary sc c n a od (wd_authority w))\<rparr>))"
      using moves_record [unfolded keeps_lifted, rule_format, of w now k kind summary sc c n a od]
      by (simp add: world_moves_def)
  qed
qed (auto simp: same_ledger_def reflp_def transp_def keeps_lifted world_ok_def)

lemma ids_of_ledger: "wd_ledger w' = wd_ledger w \<Longrightarrow> action_ids w' = action_ids w"
  by (simp add: action_ids_def)

lemma calm_run: "keeps same_ledger m \<Longrightarrow> m w = (w1, r) \<Longrightarrow> wd_ledger w1 = wd_ledger w"
  using keeps_run [of same_ledger m w w1 r] by (simp add: same_ledger_def)

lemma calm_run_ok: "keeps same_ledger m \<Longrightarrow> m w = (w1, r) \<Longrightarrow> world_ok w \<longrightarrow> world_ok w1"
  using keeps_run [of same_ledger m w w1 r] by (simp add: same_ledger_def)

text \<open>A call that adds an action gets past every calm call before it.\<close>

lemma grew_bind:
  assumes "keeps same_ledger m" and "action_ids (fst (bind m f w)) \<noteq> action_ids w"
  obtains w1 x where "m w = (w1, Inr x)" "wd_ledger w1 = wd_ledger w" "world_ok w \<longrightarrow> world_ok w1"
    "bind m f w = f x w1"
    "action_ids (fst (f x w1)) \<noteq> action_ids w1"
proof (cases rule: op_cases [of m w])
  case (ok w1 x)
  with assms calm_run [OF assms(1) ok] calm_run_ok [OF assms(1) ok] ids_of_ledger [of w1 w] show ?thesis
    by (intro that [of w1 x]) (simp_all add: bind_def)
next
  case (err w1 e)
  with assms(2) calm_run [OF assms(1) err] ids_of_ledger [of w1 w] show ?thesis by (simp add: bind_def)
qed

lemma calm_stays: "keeps same_ledger m \<Longrightarrow> action_ids (fst (m w)) = action_ids w"
  using keepsD [of same_ledger m w] by (simp add: same_ledger_def action_ids_def)

text \<open>Two calls agree unless the first adds an action.\<close>

definition agree :: "('w, 'a) world_op \<Rightarrow> ('w, 'a) world_op \<Rightarrow> 'w world \<Rightarrow> bool" where
  "agree m m' w \<longleftrightarrow> (action_ids (fst (m w)) = action_ids w \<longrightarrow> m' w = m w)"

lemma agree_refl [simp]: "agree m m w"
  by (simp add: agree_def)

lemma agree_bind:
  assumes "keeps same_ledger m"
    and "\<And>w1 x. m w = (w1, Inr x) \<Longrightarrow> wd_ledger w1 = wd_ledger w \<Longrightarrow> agree (f x) (f' x) w1"
  shows "agree (bind m f) (bind m f') w"
proof (cases rule: op_cases [of m w])
  case (ok w1 x)
  with assms(2) [OF ok calm_run [OF assms(1) ok]] ids_of_ledger [OF calm_run [OF assms(1) ok]]
  show ?thesis by (auto simp: agree_def bind_def)
qed (simp add: agree_def bind_def)

section \<open>The reservation\<close>

abbreviation reservation ::
  "string \<Rightarrow> delegation \<Rightarrow> authority_verdict \<Rightarrow> effect_identity \<Rightarrow> instant \<Rightarrow> job_action ledger_op" where
  "reservation uuid D verdict i now \<equiv> ledger_reserve_grant_action now uuid (dg_id (dl_grant D))
     (effect_namespace (dl_grant D)) (dg_task_id (dl_grant D)) (dl_run_id D) i (dl_effect_budget D)
     (av_amount_minor verdict) (av_currency verdict) (dl_scope D)"

abbreviation delegated_action :: "delegation \<Rightarrow> effect_identity \<Rightarrow> string \<Rightarrow> string \<times> string \<times> string \<times> string option" where
  "delegated_action D i k \<equiv> (k, effect_namespace (dl_grant D), ei_action_key i, Some (dg_id (dl_grant D)))"

lemma reservation_runs:
  assumes "reservation uuid D verdict i now db = (d, Inr a)"
  shows "\<exists>sc. reserve_grant_action_sync now uuid (dg_id (dl_grant D)) (effect_namespace (dl_grant D))
    (dg_task_id (dl_grant D)) (dl_run_id D) i (dl_effect_budget D) (av_amount_minor verdict)
    (av_currency verdict) sc db = (d, Inr a)"
  using assms by (auto simp: ledger_reserve_grant_action_def op_ok dest: silent_bind_ok [OF silent_ledger_get])

lemma reservation_adds:
  assumes "ledger_ok (wd_ledger w)" and "reservation uuid D verdict i now (wd_ledger w) = (d, Inr a)"
  shows "action_ids (w\<lparr>wd_ledger := d\<rparr>) = action_ids w @ [delegated_action D i (ja_id a)]"
proof -
  obtain sc where "reserve_grant_action_sync now uuid (dg_id (dl_grant D)) (effect_namespace (dl_grant D))
    (dg_task_id (dl_grant D)) (dl_run_id D) i (dl_effect_budget D) (av_amount_minor verdict)
    (av_currency verdict) sc (wd_ledger w) = (d, Inr a)"
    using reservation_runs [OF assms(2)] by blast
  from grant_reservation_ok [OF assms(1) this] show ?thesis
    by (auto simp: action_ids_def dest: new_action_id)
qed

lemma reserve_error_keeps:
  assumes "reserve_grant_action_sync now uuid g ns task k i b m cur sc db = (d, Inl e)"
  shows "action_rows d = action_rows db"
  using assms unfolding reserve_grant_action_sync_def
  by (auto simp: op_ok op_err sql_update_budget_def sql_update_def split: if_splits
      dest!: silent_bind_ok [OF silent_require_stored_scope])

lemma reservation_error_keeps:
  assumes "reservation uuid D verdict i now db = (d, Inl e)"
  shows "action_rows d = action_rows db"
  using assms unfolding ledger_reserve_grant_action_def
  by (auto simp: op_ok op_err dest!: silent_bind_ok [OF silent_ledger_get] reserve_error_keeps)

section \<open>From the verdict to the dispatch\<close>

text \<open>The reservation and what follows it.\<close>

lemma reserve_dispatch_eq:
  "reserve_and_dispatch clk uuid cancelled D ev scope t args verdict p i w =
    (case reservation uuid D verdict i (clk (wd_clock w)) (wd_ledger w) of (d, r) \<Rightarrow>
       after_reservation clk cancelled D ev scope t args p i
         (case r of Inl e \<Rightarrow> Inl (Ledger_Raised e) | Inr x \<Rightarrow> Inr x)
         (w\<lparr>wd_clock := Suc (wd_clock w), wd_ledger := d\<rparr>))"
  by (simp add: reserve_and_dispatch_def bind_def tick_def attempt_def in_ledger_def split_beta)

lemma reserve_dispatch_ids:
  fixes w :: "'w world"
  assumes ok: "ledger_ok (wd_ledger w)" and sc: "scope_ok (dl_scope D)"
  shows "action_ids (fst (reserve_and_dispatch clk uuid cancelled D ev scope t args verdict p i w))
    = action_ids w @ (case snd (reservation uuid D verdict i (clk (wd_clock w)) (wd_ledger w)) of
        Inl _ \<Rightarrow> [] | Inr a \<Rightarrow> [delegated_action D i (ja_id a)])"
proof -
  obtain d r where run: "reservation uuid D verdict i (clk (wd_clock w)) (wd_ledger w) = (d, r)"
    by (cases "reservation uuid D verdict i (clk (wd_clock w)) (wd_ledger w)")
  define w1 where "w1 = w\<lparr>wd_clock := Suc (wd_clock w), wd_ledger := d\<rparr>"
  have "action_ids (fst (reserve_and_dispatch clk uuid cancelled D ev scope t args verdict p i w)) = action_ids w1"
    using keepsD [OF same.keeps_after_reservation [OF sc], of w1]
    by (simp add: reserve_dispatch_eq run w1_def same_actions_def)
  moreover have "action_ids w1 = action_ids w @ (case r of Inl _ \<Rightarrow> [] | Inr a \<Rightarrow> [delegated_action D i (ja_id a)])"
  proof (cases r)
    case (Inl e)
    with run have "action_rows d = action_rows (wd_ledger w)"
      by (intro reservation_error_keeps [where e = e]) simp
    with Inl show ?thesis by (simp add: w1_def action_ids_def)
  next
    case (Inr a)
    with run reservation_adds [OF ok, where d = d and a = a] show ?thesis
      by (simp add: w1_def action_ids_def)
  qed
  ultimately show ?thesis by (simp add: run)
qed

lemma denied_stays: "action_ids (fst (deny clk D name reason c w)) = action_ids w"
  by (rule calm_stays) (rule calm.keeps_deny)

lemma admission_None:
  assumes "admission_denial clk D amount currency w = (w1, Inr None)"
  shows "\<exists>g0 g. find_grant (dg_id (dl_grant D)) (wd_authority w) = Some g0 \<and> make_grant g0 = Inr g
    \<and> dg_status g0 = Grant_Active \<and> clk (wd_clock w) < dg_expires_at g0"
proof -
  from assms obtain g d w2 where g: "authority_get (dg_id (dl_grant D)) (dl_scope D) (wd_authority w) = (d, Inr g)"
    and b: "dg_status g = Grant_Active" "clk (wd_clock w) < dg_expires_at g"
    by (auto simp: admission_denial_def op_ok in_authority_def in_ledger_def tick_def
        split: prod.splits sum.splits if_splits option.splits)
  from g obtain g0 where "find_grant (dg_id (dl_grant D)) (wd_authority w) = Some g0" "make_grant g0 = Inr g"
    unfolding authority_get_def get_grant_impl_def
    by (auto simp: op_ok value_checked_ok split: option.splits
        simp: validate_grant_id_def dest: silent_bind_ok [OF silent_grant_label] split: if_splits)
  with b make_grant_same [of g0 g] show ?thesis by auto
qed

text \<open>Which calls reach a reservation.\<close>

definition reserves_from ::
  "(nat \<Rightarrow> instant) \<Rightarrow> string \<Rightarrow> bool \<Rightarrow> delegation \<Rightarrow> evaluator \<Rightarrow> authority_scope \<Rightarrow> ('p, 'w) effect_tool
    \<Rightarrow> json \<Rightarrow> authority_verdict \<Rightarrow> 'w world \<Rightarrow> 'w world \<times> (world_error + tool_result) \<Rightarrow> bool" where
  "reserves_from clk uuid cancelled D ev scope t args verdict w out \<longleftrightarrow> (\<exists>w2 p i. wd_ledger w2 = wd_ledger w
     \<and> (world_ok w \<longrightarrow> world_ok w2) \<and> out = reserve_and_dispatch clk uuid cancelled D ev scope t args verdict p i w2)"

lemma reserves_from_later:
  "wd_ledger w1 = wd_ledger w \<Longrightarrow> world_ok w \<longrightarrow> world_ok w1 \<Longrightarrow> reserves_from clk uuid cancelled D ev scope t args verdict w1 out \<Longrightarrow>
     reserves_from clk uuid cancelled D ev scope t args verdict w out"
  by (auto simp: reserves_from_def)

lemma reserves_fromI:
  "reserves_from clk uuid cancelled D ev scope t args verdict w
     (reserve_and_dispatch clk uuid cancelled D ev scope t args verdict p i w)"
  unfolding reserves_from_def by blast

lemma revalidated_grew:
  assumes "action_ids (fst (after_revalidation clk uuid cancelled D ev scope t args verdict p i again w)) \<noteq> action_ids w"
  shows "reserves_from clk uuid cancelled D ev scope t args verdict w
    (after_revalidation clk uuid cancelled D ev scope t args verdict p i again w)"
proof -
  have quiet: "keeps same_ledger (bind (abort_prepared t q m) (\<lambda>_. raise e))"
    "keeps same_ledger (bind (abort_prepared t q m) (\<lambda>_. deny clk D n r c))" for q m e n r c
    by (intro keeps_intros calm.calm_calls calm.keeps_abort calm.keeps_deny)+
  show ?thesis
    using assms calm_stays [OF quiet(1)] calm_stays [OF quiet(2)] reserves_fromI
    by (auto simp: after_revalidation_def split: sum.splits option.splits)
qed

lemma preflight_grew:
  assumes "action_ids (fst (after_preflight clk uuid cancelled D ev scope t args verdict pre w)) \<noteq> action_ids w"
  shows "reserves_from clk uuid cancelled D ev scope t args verdict w
    (after_preflight clk uuid cancelled D ev scope t args verdict pre w)"
proof (cases "\<exists>p i. pre = Inr (Some p, i)")
  case True
  then obtain p i where pre: "pre = Inr (Some p, i)" by blast
  have quiet: "keeps same_ledger (attempt (admission_denial clk D (av_amount_minor verdict) (av_currency verdict)))"
    by (intro keeps_intros calm.keeps_admission)
  from assms have grew: "action_ids (fst (bind (attempt (admission_denial clk D (av_amount_minor verdict) (av_currency verdict)))
      (after_revalidation clk uuid cancelled D ev scope t args verdict p i) w)) \<noteq> action_ids w"
    by (simp add: pre after_preflight_def)
  show ?thesis
    by (rule grew_bind [OF quiet grew])
      (simp add: pre after_preflight_def reserves_from_later [OF _ _ revalidated_grew])
next
  case False
  with assms show ?thesis
    by (auto simp: after_preflight_def ret_def raise_def intro: reserves_fromI
        split: sum.splits prod.splits option.splits world_error.splits py_exn.splits)
qed

lemma delegated_grew:
  assumes grew: "action_ids (fst (delegated_run clk uuid cancelled D t args w)) \<noteq> action_ids w"
  obtains ev scope verdict w1 where "evaluator_for_tool (dl_registry D) (et_name t) = Some ev"
    "scope_for (dl_grant D) (ev_capability ev) = Some scope" "ev_evaluate ev scope (et_name t) args = Inr verdict"
    "av_allowed verdict" "admission_denial clk D (av_amount_minor verdict) (av_currency verdict) w = (w1, Inr None)"
    "reserves_from clk uuid cancelled D ev scope t args verdict w (delegated_run clk uuid cancelled D t args w)"
proof -
  from grew obtain ev scope verdict where
    f: "evaluator_for_tool (dl_registry D) (et_name t) = Some ev"
      "scope_for (dl_grant D) (ev_capability ev) = Some scope" "ev_evaluate ev scope (et_name t) args = Inr verdict"
      "av_allowed verdict"
    and run: "delegated_run clk uuid cancelled D t args w =
      bind (admission_denial clk D (av_amount_minor verdict) (av_currency verdict))
        (after_admission clk uuid cancelled D ev scope t args verdict) w"
    by (auto simp: delegated_run_def denied_stays raise_def split: option.splits sum.splits py_exn.splits if_splits)
  show ?thesis
  proof (rule grew_bind [OF calm.keeps_admission grew [unfolded run]])
    fix w1 reason
    assume adm: "admission_denial clk D (av_amount_minor verdict) (av_currency verdict) w = (w1, Inr reason)"
      and led: "wd_ledger w1 = wd_ledger w" and good: "world_ok w \<longrightarrow> world_ok w1"
      and eq: "bind (admission_denial clk D (av_amount_minor verdict) (av_currency verdict))
        (after_admission clk uuid cancelled D ev scope t args verdict) w
        = after_admission clk uuid cancelled D ev scope t args verdict reason w1"
      and more: "action_ids (fst (after_admission clk uuid cancelled D ev scope t args verdict reason w1)) \<noteq> action_ids w1"
    from more have reason: "reason = None" by (auto simp: after_admission_def denied_stays split: option.splits)
    with more have "action_ids (fst (bind (attempt (preflight ev scope t args))
        (after_preflight clk uuid cancelled D ev scope t args verdict) w1)) \<noteq> action_ids w1"
      by (simp add: after_admission_def admitted_effect_def)
    then have "reserves_from clk uuid cancelled D ev scope t args verdict w1
        (admitted_effect clk uuid cancelled D ev scope t args verdict w1)"
      by (rule grew_bind [OF keeps_attempt [OF calm.keeps_preflight]])
        (simp add: admitted_effect_def reserves_from_later [OF _ _ preflight_grew])
    from reserves_from_later [OF led good this] have "reserves_from clk uuid cancelled D ev scope t args verdict w
        (delegated_run clk uuid cancelled D t args w)"
      using eq reason by (simp add: run after_admission_def)
    with f adm reason show ?thesis by (intro that) simp_all
  qed
qed

text \<open>Calls of tools that differ in how they perform the effect.\<close>

lemma other_dispatch [simp]:
  "abort_prepared (t\<lparr>et_run := r, et_run_prepared := q\<rparr>) p m = abort_prepared t p m"
  "preflight ev scope (t\<lparr>et_run := r, et_run_prepared := q\<rparr>) args = preflight ev scope t args"
  by (simp_all add: abort_prepared_def preflight_def split: option.split)

lemma reserve_agree:
  assumes ok: "ledger_ok (wd_ledger w)" and sc: "scope_ok (dl_scope D)"
  shows "agree (reserve_and_dispatch clk uuid cancelled D ev scope t args verdict p i)
    (reserve_and_dispatch clk uuid cancelled D ev scope (t\<lparr>et_run := r, et_run_prepared := q\<rparr>) args verdict p i) w"
proof (cases "snd (reservation uuid D verdict i (clk (wd_clock w)) (wd_ledger w))")
  case (Inl e)
  then obtain d where run: "reservation uuid D verdict i (clk (wd_clock w)) (wd_ledger w) = (d, Inl e)"
    by (metis prod.collapse)
  show ?thesis
    unfolding agree_def reserve_dispatch_eq
    by (simp add: run after_reservation_def split: ledger_error.split)
next
  case (Inr a)
  then show ?thesis by (simp add: agree_def reserve_dispatch_ids [OF ok sc])
qed

lemma delegated_agree:
  assumes ok: "ledger_ok (wd_ledger w)" and sc: "scope_ok (dl_scope D)"
  shows "agree (delegated_run clk uuid cancelled D t args)
    (delegated_run clk uuid cancelled D (t\<lparr>et_run := r, et_run_prepared := q\<rparr>) args) w"
proof -
  let ?t = "t\<lparr>et_run := r, et_run_prepared := q\<rparr>"
  have reval: "agree (after_revalidation clk uuid cancelled D ev scope t args verdict p i again)
      (after_revalidation clk uuid cancelled D ev scope ?t args verdict p i again) w1"
    if "wd_ledger w1 = wd_ledger w" for ev scope verdict p i again w1
    using that ok by (auto simp: after_revalidation_def intro: reserve_agree [OF _ sc] split: sum.split option.split)
  have pre: "agree (after_preflight clk uuid cancelled D ev scope t args verdict x)
      (after_preflight clk uuid cancelled D ev scope ?t args verdict x) w1"
    if led: "wd_ledger w1 = wd_ledger w" for ev scope verdict x w1
  proof (cases "\<exists>p i. x = Inr (Some p, i)")
    case True
    then obtain p i where x: "x = Inr (Some p, i)" by blast
    show ?thesis
      unfolding x after_preflight_def sum.case prod.case option.case
      by (rule agree_bind [OF keeps_attempt [OF calm.keeps_admission]]) (use led in \<open>auto intro: reval\<close>)
  next
    case False
    with led ok show ?thesis
      by (auto simp: after_preflight_def intro: reserve_agree [OF _ sc] split: sum.splits prod.splits option.splits world_error.splits py_exn.splits)
  qed
  have adm: "agree (after_admission clk uuid cancelled D ev scope t args verdict reason)
      (after_admission clk uuid cancelled D ev scope ?t args verdict reason) w1"
    if led: "wd_ledger w1 = wd_ledger w" for ev scope verdict reason w1
  proof (cases reason)
    case None
    show ?thesis
      unfolding None after_admission_def option.case admitted_effect_def other_dispatch
      by (rule agree_bind [OF keeps_attempt [OF calm.keeps_preflight]]) (use led in \<open>auto intro: pre\<close>)
  qed (simp add: after_admission_def)
  show ?thesis
    unfolding delegated_run_def
    by (auto split: option.split sum.split py_exn.split if_split intro!: agree_bind calm.keeps_admission adm)
qed

lemma cancelled_same:
  "delegated_run clk uuid True D (t\<lparr>et_run := r, et_run_prepared := q\<rparr>) args = delegated_run clk uuid True D t args"
proof -
  let ?t = "t\<lparr>et_run := r, et_run_prepared := q\<rparr>"
  have res: "reserve_and_dispatch clk uuid True D ev scope ?t args verdict p i
      = reserve_and_dispatch clk uuid True D ev scope t args verdict p i" for ev scope verdict p i
    by (intro ext) (simp add: reserve_dispatch_eq after_reservation_def split: prod.split sum.split)
  have reval: "after_revalidation clk uuid True D ev scope ?t args verdict p i
      = after_revalidation clk uuid True D ev scope t args verdict p i" for ev scope verdict p i
    by (intro ext) (simp add: after_revalidation_def res split: sum.split option.split)
  have "after_preflight clk uuid True D ev scope ?t args verdict
      = after_preflight clk uuid True D ev scope t args verdict" for ev scope verdict
    by (intro ext) (simp add: after_preflight_def res reval split: sum.split prod.split option.split world_error.split py_exn.split)
  then have "after_admission clk uuid True D ev scope ?t args verdict
      = after_admission clk uuid True D ev scope t args verdict" for ev scope verdict
    by (intro ext) (simp add: after_admission_def admitted_effect_def split: option.split)
  then show ?thesis by (intro ext) (simp add: delegated_run_def split: option.split sum.split py_exn.split)
qed

end
