(* ===== verification/Delegation_Settle.thy ===== *)
theory Delegation_Settle
  imports Delegation_Spec
begin

text \<open>What a reserved effect leaves behind: a settled action, and a retired grant if it is consumed.\<close>

lemma in_ledger_ok:
  "in_ledger m w = (w', Inr x) \<longleftrightarrow> (\<exists>d. m (wd_ledger w) = (d, Inr x) \<and> w' = w\<lparr>wd_ledger := d\<rparr>)"
  by (auto simp: in_ledger_def split: prod.split sum.split)

lemma in_authority_ok:
  "in_authority m w = (w', Inr x) \<longleftrightarrow> (\<exists>d. m (wd_authority w) = (d, Inr x) \<and> w' = w\<lparr>wd_authority := d\<rparr>)"
  by (auto simp: in_authority_def split: prod.split sum.split)

lemma tick_ok: "tick clk w = (w', Inr x) \<longleftrightarrow> x = clk (wd_clock w) \<and> w' = w\<lparr>wd_clock := Suc (wd_clock w)\<rparr>"
  by (auto simp: tick_def)

lemma attempt_ok: "attempt m w = (w', Inr r) \<longleftrightarrow> m w = (w', r)"
  by (auto simp: attempt_def split: prod.split)

lemmas world_ok_simps = op_ok in_ledger_ok in_authority_ok tick_ok attempt_ok

lemma moves_ok: "keeps world_moves m \<Longrightarrow> world_ok w \<Longrightarrow> m w = (w', r) \<Longrightarrow> world_ok w'"
  using keeps_run [of world_moves m w w' r] by (simp add: world_moves_def)

lemma resolved_action:
  assumes ok: "ledger_ok db" and run: "ledger_resolve_action now k d sc ref db = (db', Inr x)"
  shows "\<exists>a. find_action k db' = Some a \<and> ac_status a = Resolved d \<and> ac_provider_reference a = ref"
proof -
  from run have "resolve_action_sync now k d ref db = (db', Inr x)"
    by (auto simp: ledger_resolve_action_def op_ok dest: silent_bind_ok [OF silent_ledger_get_action])
  then obtain a where "find_action k db = Some a" "ac_status a = Reserved"
    "db' = db\<lparr>action_rows := update_row ac_id k (\<lambda>_. a\<lparr>ac_status := Resolved d,
       ac_provider_reference := ref, ac_updated_at := now\<rparr>) (action_rows db)\<rparr>"
    by (auto simp: resolve_action_sync_def op_ok action_update_ok [OF ok_keysD [OF ok]]
        dest!: silent_bind_ok [OF silent_required_action])
  with found_action [of k db a] show ?thesis by (auto simp: find_action_def find_put_row)
qed

text \<open>The grant is retired in both stores.\<close>

definition retired :: "string \<Rightarrow> 'w world \<Rightarrow> bool" where
  "retired g w \<longleftrightarrow> find_termination g (wd_ledger w) \<noteq> None
     \<and> (\<forall>b. find_budget g (wd_ledger w) = Some b \<longrightarrow> gb_status b \<noteq> Grant_Active)
     \<and> (\<forall>h. find_grant g (wd_authority w) = Some h \<longrightarrow> dg_status h \<noteq> Grant_Active)"

lemma value_checked_error [simp]: "value_checked r s \<noteq> (u, Inl (GrantStateError e))"
  by (auto simp: value_checked_def lift_def split: sum.split)

lemma required_grant_error [simp]: "required_grant k s \<noteq> (u, Inl (GrantStateError e))"
  by (auto simp: required_grant_def op_err op_ok)

lemma append_plain_error [simp]: "append_plain now k kind m db \<noteq> (t, Inl (GrantStateError e))"
  by (auto simp: append_plain_def append_activity_def op_err op_ok split: option.splits)

lemma authority_get_error [simp]: "authority_get k sc db \<noteq> (t, Inl (GrantStateError e))"
  by (auto simp: authority_get_def get_grant_impl_def grant_label_def op_err op_ok split: option.splits)

lemma terminated_state:
  assumes "terminate_impl now k st kind m db = (db', Inl (GrantStateError e))" and "find_grant k db' = Some h"
  shows "dg_status h \<noteq> Grant_Active"
  using assms
  by (auto simp: terminate_impl_def op_err op_ok sql_update_grant_def sql_update_def split: if_splits
      dest!: required_grant_ok)

lemma terminated_ok:
  assumes ok: "authority_ok db" and run: "terminate_impl now k st kind m db = (db', Inr x)"
  shows "\<exists>g. find_grant k db' = Some (g\<lparr>dg_status := st\<rparr>)"
proof -
  from run obtain g d n row where g: "find_grant k db = Some g" "dg_status g = Grant_Active"
    and upd: "sql_update_grant (\<lambda>g. dg_id g = k \<and> dg_status g = Grant_Active) (\<lambda>g. g\<lparr>dg_status := st\<rparr>) db = (d, Inr n)"
    and t: "db' = logged row d"
    by (auto simp: terminate_impl_def op_ok dest!: required_grant_ok append_plain_ok)
  have "d = put_grant (g\<lparr>dg_status := st\<rparr>) db"
    using grant_update_found [where C = "\<lambda>g. dg_status g = Grant_Active", OF ok g upd] found_grant [OF g(1)] by simp
  with t find_put_grant [OF g(1), of "g\<lparr>dg_status := st\<rparr>" k] found_grant [OF g(1)] show ?thesis by auto
qed

lemma consumed_grant:
  assumes ok: "authority_ok db" and run: "authority_consume now k sc reason db = (db', r)"
    and r: "(\<exists>x. r = Inr x) \<or> (\<exists>e. r = Inl (GrantStateError e))" and h: "find_grant k db' = Some h"
  shows "dg_status h \<noteq> Grant_Active"
proof -
  have "terminate_impl now k Grant_Consumed GA_Consumed reason db = (db', r)"
    using run r
    by (auto simp: authority_consume_def op_ok op_err dest: silent_bind_ok [OF silent_authority_get])
  with r terminated_ok [OF ok] terminated_state [OF _ h] h show ?thesis by fastforce
qed

lemma consume_retires:
  assumes ok: "world_ok w" and sc: "scope_ok (dl_scope D)" and run: "consume_grant clk D reason w = (w', Inr ())"
  shows "retired (dg_id (dl_grant D)) w' \<and> action_rows (wd_ledger w') = action_rows (wd_ledger w)"
proof -
  let ?g = "dg_id (dl_grant D)"
  obtain d1 r where c: "authority_consume (clk (wd_clock w)) ?g (dl_scope D) reason (wd_authority w) = (d1, r)"
    by (cases "authority_consume (clk (wd_clock w)) ?g (dl_scope D) reason (wd_authority w)")
  from run c obtain now d2 where r: "(\<exists>x. r = Inr x) \<or> (\<exists>e. r = Inl (GrantStateError e))"
    and s: "set_grant_budget_status now ?g Grant_Consumed (dl_scope D) (wd_ledger w) = (d2, Inr ())"
    and w': "wd_ledger w' = d2" "wd_authority w' = d1"
    by (cases r) (auto simp: consume_grant_def world_ok_simps in_authority_def split: authority_error.splits)
  have led: "ledger_ok (wd_ledger w)" and au: "authority_ok (wd_authority w)" using ok by (simp_all add: world_ok_def)
  obtain t where t: "find_termination ?g d2 = Some t"
    using status_leaves_tombstone [OF led sc _ s] by auto
  have "ledger_ok d2"
    using status_step [OF led sc, of now ?g Grant_Consumed] s led ledger_step_ok by (auto simp: at_most_one_def)
  from terminated_budget [OF this t] consumed_grant [OF au c r] t w' s
    status_keeps_actions [of now ?g Grant_Consumed "dl_scope D" "wd_ledger w"]
  show ?thesis by (auto simp: retired_def)
qed

lemma finalize_settles:
  fixes w :: "'w world"
  assumes ok: "world_ok w" and sc: "scope_ok (dl_scope D)"
    and run: "finalize clk D n k c d ref consume summary w = (w', Inr ())"
  shows "(\<exists>a. find_action k (wd_ledger w') = Some a \<and> ac_status a = Resolved d \<and> ac_provider_reference a = ref)
    \<and> (consume \<longrightarrow> retired (dg_id (dl_grant D)) w')"
proof -
  let ?w = "w\<lparr>wd_clock := Suc (wd_clock w)\<rparr>"
  from run obtain x y w1 w3 where
    res: "in_ledger (ledger_resolve_action (clk (wd_clock w)) k d (dl_scope D) ref) ?w = (w1, Inr x)"
    and rec: "in_authority (authority_record (clk (wd_clock w1)) (dg_id (dl_grant D)) GA_Used summary (dl_scope D)
        (Some c) (Some n) (Some k) (Some d)) (w1\<lparr>wd_clock := Suc (wd_clock w1)\<rparr>) = (w3, Inr y)"
    and last: "(if consume then consume_grant clk D (''authority consumed by a '' @ disposition_text d @ '' effect'')
         else ret ()) w3 = (w', Inr ())"
    unfolding finalize_def bind_ok tick_ok by blast
  have "world_ok ?w" using ok by (simp add: world_ok_def)
  then have ok1: "world_ok w1" using moves_ok [OF moves_resolve _ res] by blast
  from res ok resolved_action [of "wd_ledger w" "clk (wd_clock w)" k d "dl_scope D" ref]
  have a: "\<exists>a. find_action k (wd_ledger w1) = Some a \<and> ac_status a = Resolved d \<and> ac_provider_reference a = ref"
    by (auto simp: in_ledger_ok world_ok_def)
  have "world_ok (w1\<lparr>wd_clock := Suc (wd_clock w1)\<rparr>)" using ok1 by (simp add: world_ok_def)
  then have ok3: "world_ok w3" using moves_ok [OF moves_record _ rec] by blast
  have w3: "wd_ledger w3 = wd_ledger w1" using rec by (auto simp: in_authority_ok)
  have "action_rows (wd_ledger w') = action_rows (wd_ledger w1) \<and> (consume \<longrightarrow> retired (dg_id (dl_grant D)) w')"
  proof (cases consume)
    case True
    with last consume_retires [OF ok3 sc] w3 show ?thesis by simp
  next
    case False
    with last w3 show ?thesis by (simp add: ret_ok)
  qed
  with a show ?thesis by (simp add: find_action_def)
qed

text \<open>The world in which a reserved effect is dispatched.\<close>

lemma reserved_world:
  assumes ok: "world_ok w" and res: "reservation uuid D verdict i now (wd_ledger w) = (d, Inr a)"
  shows "world_ok (w\<lparr>wd_clock := m, wd_ledger := d, wd_outside := s\<rparr>)"
proof -
  have "world_moves w (w\<lparr>wd_ledger := d\<rparr>)"
    using moves_reserve [unfolded keeps_lifted, rule_format, of w] res by (metis fst_conv)
  with ok show ?thesis by (simp add: world_moves_def world_ok_def)
qed

lemma finalize_tool_error: "finalize clk D n k c d ref consume summary w \<noteq> (w', Inl (Tool_Raised e))"
  by (auto simp: finalize_def consume_grant_def op_err op_ok tick_def attempt_def in_ledger_def in_authority_def
      split: if_splits prod.splits sum.splits world_error.splits authority_error.splits)

text \<open>The action with a given id.\<close>

lemma action_of_id:
  assumes "ledger_ok (wd_ledger w)" and "find_action k (wd_ledger w) = Some a"
    and "(k, n, key, g) \<in> set (action_ids w)"
  shows "ac_job_name a = n \<and> ac_action_key a = key \<and> ac_grant_id a = g"
proof -
  obtain b where b: "b \<in> set (action_rows (wd_ledger w))" "ac_id b = k" "ac_job_name b = n" "ac_action_key b = key"
    "ac_grant_id b = g" using assms(3) by (auto simp: action_ids_def)
  with find_row_mem [OF ok_keys(2) [OF assms(1)] b(1)] assms(2) have "b = a" by (simp add: find_action_def)
  with b show ?thesis by simp
qed

text \<open>A call that added an action reserved it and, unless cancelled, went on to the dispatch.\<close>

lemma grew_dispatched:
  fixes w :: "'w world"
  assumes ok: "world_ok w" and sc: "scope_ok (dl_scope D)"
    and grew: "action_ids (fst (delegated_run clk uuid cancelled D t args w)) \<noteq> action_ids w"
  obtains ev scope verdict p i a w3 where
    "after_reservation clk cancelled D ev scope t args p i (Inr a) w3 = delegated_run clk uuid cancelled D t args w"
    "world_ok w3" "evaluator_for_tool (dl_registry D) (et_name t) = Some ev"
    "scope_for (dl_grant D) (ev_capability ev) = Some scope"
    "action_ids (fst (delegated_run clk uuid cancelled D t args w)) = action_ids w @ [delegated_action D i (ja_id a)]"
proof (rule delegated_grew [OF grew])
  fix ev scope verdict w1
  assume f: "evaluator_for_tool (dl_registry D) (et_name t) = Some ev"
    "scope_for (dl_grant D) (ev_capability ev) = Some scope"
    and reach: "reserves_from clk uuid cancelled D ev scope t args verdict w (delegated_run clk uuid cancelled D t args w)"
  then obtain w2 p i where led: "wd_ledger w2 = wd_ledger w" and ok2: "world_ok w2"
    and run: "delegated_run clk uuid cancelled D t args w
      = reserve_and_dispatch clk uuid cancelled D ev scope t args verdict p i w2"
    using ok by (auto simp: reserves_from_def)
  have "ledger_ok (wd_ledger w2)" using ok2 by (simp add: world_ok_def)
  note ids = reserve_dispatch_ids [OF this sc, of clk uuid cancelled ev scope t args verdict p i]
  obtain d r where res: "reservation uuid D verdict i (clk (wd_clock w2)) (wd_ledger w2) = (d, r)"
    by (cases "reservation uuid D verdict i (clk (wd_clock w2)) (wd_ledger w2)")
  from ids grew run res obtain a where a: "r = Inr a"
    by (cases r) (simp_all add: ids_of_ledger [OF led])
  define w3 where "w3 = w2\<lparr>wd_clock := Suc (wd_clock w2), wd_ledger := d\<rparr>"
  have "world_ok w3"
    using reserved_world [OF ok2 res [unfolded a], where m = "Suc (wd_clock w2)" and s = "wd_outside w2"] by (simp add: w3_def)
  moreover have "after_reservation clk cancelled D ev scope t args p i (Inr a) w3
      = delegated_run clk uuid cancelled D t args w"
    unfolding run reserve_dispatch_eq by (simp add: res a w3_def)
  moreover have "action_ids (fst (delegated_run clk uuid cancelled D t args w))
      = action_ids w @ [delegated_action D i (ja_id a)]"
    using ids by (simp add: run res a ids_of_ledger [OF led])
  ultimately show ?thesis using f by (intro that)
qed

text \<open>The dispatch itself.\<close>

lemma outside_world: "outside f w = (w', r) \<Longrightarrow> world_ok w \<Longrightarrow> world_ok w'"
  by (auto simp: outside_def world_ok_def split: prod.splits)

lemma dispatch_reaches:
  assumes ok: "world_ok w" and run: "dispatch_reserved clk D ev scope t args p i k w = (w', Inr result)"
  shows "\<exists>r w5. world_ok w5 \<and> after_dispatch clk D ev scope t k r w5 = (w', Inr result)"
proof -
  from run obtain b w4 where b: "bind_action t k (ei_action_key i) w = (w4, b)"
    and rest: "(case b of Inl e \<Rightarrow>
         bind (finalize clk D (et_name t) k (as_capability scope) Not_Performed None False
           (et_name t @ '' failed evidence binding before provider dispatch'')) (\<lambda>_.
         bind (abort_prepared t p ''effect evidence binding failed before dispatch'') (\<lambda>_. raise e))
       | Inr _ \<Rightarrow> bind (attempt (dispatch_tool t args p)) (\<lambda>done. case done of
           Inl e \<Rightarrow>
             bind (finalize clk D (et_name t) k (as_capability scope) In_Doubt None True
               (et_name t @ '' became ambiguous before returning a result'')) (\<lambda>_.
             bind (settle_bound_action t k) (\<lambda>_. raise e))
         | Inr result \<Rightarrow> after_dispatch clk D ev scope t k result)) w4 = (w', Inr result)"
    unfolding dispatch_reserved_def bind_ok attempt_ok by blast
  have ok4: "world_ok w4"
    using b ok by (auto simp: bind_action_def op_defs split: option.splits dest: outside_world)
  have b_ok: "b = Inr ()" using rest by (cases b) (auto simp: op_ok)
  from rest [unfolded b_ok sum.case bind_ok attempt_ok] obtain d w5 where d: "dispatch_tool t args p w4 = (w5, d)"
    and last: "(case d of
           Inl e \<Rightarrow>
             bind (finalize clk D (et_name t) k (as_capability scope) In_Doubt None True
               (et_name t @ '' became ambiguous before returning a result'')) (\<lambda>_.
             bind (settle_bound_action t k) (\<lambda>_. raise e))
         | Inr result \<Rightarrow> after_dispatch clk D ev scope t k result) w5 = (w', Inr result)"
    unfolding bind_ok by blast
  obtain r where "d = Inr r" using last by (cases d) (auto simp: op_ok)
  with d last have "dispatch_tool t args p w4 = (w5, Inr r)" "after_dispatch clk D ev scope t k r w5 = (w', Inr result)"
    by simp_all
  moreover from this have "world_ok w5" using ok4 by (auto simp: dispatch_tool_def dest: outside_world)
  ultimately show ?thesis by blast
qed

lemma settle_bound_keeps:
  "settle_bound_action t k w = (w', r) \<Longrightarrow> wd_ledger w' = wd_ledger w \<and> wd_authority w' = wd_authority w"
  by (auto simp: settle_bound_action_def outside_def op_defs split: option.splits prod.splits)

lemma after_dispatch_settles:
  assumes ok: "world_ok w" and sc: "scope_ok (dl_scope D)"
    and run: "after_dispatch clk D ev scope t k r w = (w', Inr result)"
  shows "\<exists>receipt x. tr_receipt result = Some receipt \<and> er_action_id receipt = Some k
    \<and> find_action k (wd_ledger w') = Some x \<and> ac_status x = Resolved (er_disposition receipt)
    \<and> ac_provider_reference x = er_provider_reference receipt"
proof -
  from run obtain receipt consumes w1 w2 u where
    fin: "finalize clk D (et_name t) k (as_capability scope) (er_disposition receipt)
      (er_provider_reference receipt) consumes
      (et_name t @ '' resolved '' @ disposition_text (er_disposition receipt)) w = (w1, Inr ())"
    and settle: "settle_bound_action t k w1 = (w', Inr u)" and res: "result = annotate D r receipt k"
    by (auto simp: after_dispatch_def op_ok split: sum.splits)
  from finalize_settles [OF ok sc fin] settle_bound_keeps [OF settle] res show ?thesis
    by (auto simp: annotate_def find_action_def intro!: exI [of _ "receipt\<lparr>er_action_id := Some k\<rparr>"])
qed

text \<open>A tool that raises after its evidence was bound.\<close>

lemma bind_action_returns:
  assumes "\<forall>f g k key s. et_bind t = Some (f, g) \<longrightarrow> snd (f k key s) = Inr ()"
  obtains x where "bind_action t k key w = (w\<lparr>wd_outside := x\<rparr>, Inr ())"
proof (cases "et_bind t")
  case None
  then show thesis using that [of "wd_outside w"] by (simp add: bind_action_def ret_def)
next
  case (Some fg)
  then obtain f g where fg: "et_bind t = Some (f, g)" by (cases fg) simp
  with assms [rule_format, OF fg, of k key "wd_outside w"] have "bind_action t k key w = (w\<lparr>wd_outside := fst (f k key (wd_outside w))\<rparr>, Inr ())"
    by (simp add: bind_action_def outside_def split_beta)
  then show thesis by (rule that)
qed

lemma crash_settles:
  assumes ok: "world_ok w" and sc: "scope_ok (dl_scope D)"
    and crash: "\<And>s. snd (et_run t args s) = Inl e" "\<And>q s. snd (et_run_prepared t args q s) = Inl e"
    and binds: "\<forall>f g k key s. et_bind t = Some (f, g) \<longrightarrow> snd (f k key s) = Inr ()"
    and run: "after_reservation clk False D ev scope t args p i (Inr a) w = (w', Inl (Tool_Raised e))"
  shows "(\<exists>x. find_action (ja_id a) (wd_ledger w') = Some x \<and> ac_status x = Resolved In_Doubt)
    \<and> retired (dg_id (dl_grant D)) w'"
proof -
  let ?fin = "finalize clk D (et_name t) (ja_id a) (as_capability scope) In_Doubt None True
      (et_name t @ '' became ambiguous before returning a result'')"
  obtain x where bound: "bind_action t (ja_id a) (ei_action_key i) w = (w\<lparr>wd_outside := x\<rparr>, Inr ())"
    by (rule bind_action_returns [OF binds])
  obtain w5 where d: "dispatch_tool t args p (w\<lparr>wd_outside := x\<rparr>) = (w5, Inl (Tool_Raised e))"
  proof -
    let ?f = "case p of Some q \<Rightarrow> et_run_prepared t args q | None \<Rightarrow> et_run t args"
    have "snd (?f x) = Inl e" using crash by (cases p) simp_all
    then have "outside ?f (w\<lparr>wd_outside := x\<rparr>) = (w\<lparr>wd_outside := fst (?f x)\<rparr>, Inl (Tool_Raised e))"
      by (simp only: outside_def split_beta sum.case) simp
    then show ?thesis by (intro that) (simp only: dispatch_tool_def)
  qed
  have "bind ?fin (\<lambda>_. bind (settle_bound_action t (ja_id a)) (\<lambda>_. raise (Tool_Raised e))) w5
      = (w', Inl (Tool_Raised e) :: world_error + tool_result)"
    using run d bound by (simp add: after_reservation_def dispatch_reserved_def attempt_def bind_def ret_def)
  then obtain w6 where fin: "?fin w5 = (w6, Inr ())"
    and rest: "bind (settle_bound_action t (ja_id a)) (\<lambda>_. raise (Tool_Raised e)) w6 = (w', Inl (Tool_Raised e) :: world_error + tool_result)"
    by (auto simp: op_err finalize_tool_error)
  obtain r where "settle_bound_action t (ja_id a) w6 = (w', r)"
    using rest by (cases "settle_bound_action t (ja_id a) w6") (auto simp: bind_def raise_def split: sum.splits)
  from settle_bound_keeps [OF this] have "wd_ledger w' = wd_ledger w6" "wd_authority w' = wd_authority w6" by auto
  moreover have "world_ok w5" using d ok by (auto simp: dispatch_tool_def world_ok_def dest: outside_world)
  then have "(\<exists>x. find_action (ja_id a) (wd_ledger w6) = Some x \<and> ac_status x = Resolved In_Doubt) \<and> retired (dg_id (dl_grant D)) w6"
    using finalize_settles [OF _ sc fin] by blast
  ultimately show ?thesis by (simp add: retired_def)
qed

end
