(* ===== verification/Authority_Properties.thy ===== *)
theory Authority_Properties
  imports Authority_Spec "HOL-Library.Code_Target_Numeral"
begin

text \<open>The properties of the grant store, and the runs that show they are not vacuous.\<close>

section \<open>A run with one grant\<close>

definition grant_scope0 :: profile_scope where
  "grant_scope0 = \<lparr>primary = ''shared'', profiles = [''shared'']\<rparr>"

definition source0 :: grant_source where
  "source0 = \<lparr>gs_principal_id = ''p'', gs_transport = ''t'', gs_account = ''a'', gs_sender_id = ''s'',
     gs_destination_id = ''d'', gs_platform_message_id = ''m'',
     gs_inbound_message_id = ''inbound_'' @ replicate 32 (CHR ''0''),
     gs_conversation_id = ''conversation_'' @ replicate 32 (CHR ''0''),
     gs_text_digest = replicate 64 (CHR ''0''), gs_text_snapshot = ''buy milk'', gs_received_at = 0\<rparr>"

definition grant_id0 :: string where
  "grant_id0 = ''grant_'' @ replicate 32 (CHR ''0'')"

definition request0 :: string where
  "request0 = ''execution_'' @ replicate 32 (CHR ''0'')"

definition grant0 :: delegation_grant where
  "grant0 = \<lparr>dg_id = grant_id0, dg_source = source0, dg_task_id = ''task_'' @ replicate 32 (CHR ''0''),
     dg_task_revision = 1, dg_profile_scope = grant_scope0, dg_execution_request_id = None,
     dg_contract_id = ''contract_'' @ replicate 32 (CHR ''0''),
     dg_contract_digest = replicate 64 (CHR ''0''), dg_confirmations = [],
     dg_scopes = [\<lparr>as_capability = ''shop'', as_schema_id = ''shop.v1'', as_schema_version = 1,
       as_constraints = JNull\<rparr>],
     dg_summary = ''buy milk'', dg_effect_call_limit = 1, dg_financial_limit_minor = Some 500,
     dg_currency = Some ''EUR'', dg_issued_at = 0, dg_expires_at = 100, dg_status = Grant_Active,
     dg_policy_digest = replicate 64 (CHR ''0'')\<rparr>"

definition issued0 :: "(instant \<times> authority_call) list" where
  "issued0 = [(1, A_Issue grant0 grant_scope0)]"

definition spent0 :: "(instant \<times> authority_call) list" where
  "spent0 = [(2, A_Attach grant_id0 request0 grant_scope0), (3, A_Load 3 grant_id0 grant_scope0),
     (4, A_Consume grant_id0 grant_scope0 ''used up''), (5, A_Revoke grant_id0 grant_scope0 ''me'' ''late'')]"

lemma issued0_rows: "grant_rows (authority_reached issued0) = [grant0]"
  by code_simp

lemma spent0_rows: "grant_rows (authority_reached (issued0 @ spent0))
    = [grant0\<lparr>dg_execution_request_id := Some request0, dg_status := Grant_Consumed\<rparr>]"
  by code_simp

section \<open>Grants are never widened\<close>

definition narrowed :: "delegation_grant \<Rightarrow> delegation_grant \<Rightarrow> bool" where
  "narrowed g h \<longleftrightarrow> h = g\<lparr>dg_execution_request_id := dg_execution_request_id h, dg_status := dg_status h\<rparr>
     \<and> (dg_status g \<noteq> Grant_Active \<longrightarrow> h = g)
     \<and> (dg_execution_request_id g \<noteq> None \<longrightarrow> dg_execution_request_id h = dg_execution_request_id g)"

lemma narrowed_refl [simp]: "narrowed g g"
  by (simp add: narrowed_def)

lemma narrowed_trans:
  assumes "narrowed g h" and "narrowed h i"
  shows "narrowed g i"
proof -
  have "i = g\<lparr>dg_execution_request_id := dg_execution_request_id i, dg_status := dg_status i\<rparr>"
    using assms by (cases g; cases h; cases i) (simp add: narrowed_def)
  moreover have "dg_status g \<noteq> Grant_Active \<longrightarrow> i = g" using assms by (metis narrowed_def)
  moreover have "dg_execution_request_id g \<noteq> None \<longrightarrow> dg_execution_request_id i = dg_execution_request_id g"
    using assms by (metis narrowed_def)
  ultimately show ?thesis by (simp add: narrowed_def)
qed

lemma put_keeps:
  assumes "authority_ok db" and "g \<in> set (grant_rows db)" and "find_grant k db = Some g0"
    and "dg_id g' = k" and "narrowed g0 g'"
  shows "\<exists>h \<in> set (grant_rows (put_grant g' db)). narrowed g h"
proof (cases "dg_id g = k")
  case True
  with assms find_row_mem [OF authority_keys [OF assms(1)] assms(2)] have "g0 = g" by (simp add: find_grant_def)
  have "g' \<in> set (update_row dg_id (dg_id g') (\<lambda>_. g') (grant_rows db))"
    unfolding in_update_row using assms True by (intro bexI [of _ g]) simp_all
  with assms \<open>g0 = g\<close> show ?thesis by auto
next
  case False
  with assms show ?thesis by (auto simp: in_update_row intro!: bexI [of _ g])
qed

lemma step_narrows:
  assumes "authority_step db db'" and ok: "authority_ok db" and g: "g \<in> set (grant_rows db)"
  shows "\<exists>h \<in> set (grant_rows db'). narrowed g h"
  using assms(1)
proof cases
  case (Grant_Attached k g0 e row)
  with put_keeps [OF ok g Grant_Attached(2), of "g0\<lparr>dg_execution_request_id := Some e\<rparr>"]
    found_grant [OF Grant_Attached(2)] show ?thesis by (simp add: narrowed_def)
next
  case (Grant_Closed k g0 st row)
  with put_keeps [OF ok g Grant_Closed(2), of "g0\<lparr>dg_status := st\<rparr>"]
    found_grant [OF Grant_Closed(2)] show ?thesis by (simp add: narrowed_def)
qed (use g in \<open>auto intro: bexI [of _ g]\<close>)

text \<open>
  C11: a stored grant is never edited to become wider.  Whatever calls follow, the grant is still there
  with every field unchanged except its status and its execution request; a grant that was closed is
  unchanged altogether, and a grant bound to an execution request stays bound to it.
\<close>

theorem grant_never_widened:
  assumes "g \<in> set (grant_rows (authority_reached cs))"
  shows "\<exists>h \<in> set (grant_rows (authority_reached (cs @ ds))).
      h = g\<lparr>dg_execution_request_id := dg_execution_request_id h, dg_status := dg_status h\<rparr>
    \<and> (dg_status g \<noteq> Grant_Active \<longrightarrow> h = g)
    \<and> (dg_execution_request_id g \<noteq> None \<longrightarrow> dg_execution_request_id h = dg_execution_request_id g)"
proof -
  let ?P = "\<lambda>d. \<exists>h \<in> set (grant_rows d). narrowed g h"
  have "?P (authority_run ds (authority_reached cs))"
  proof (rule authority_run_induct [where P = ?P, OF authority_reached_ok])
    show "?P (authority_reached cs)" using assms narrowed_refl by blast
  next
    fix d d' assume "?P d" "authority_ok d" "authority_step d d'"
    with step_narrows narrowed_trans show "?P d'" by blast
  qed
  then show ?thesis by (simp add: authority_reached_append narrowed_def)
qed

theorem grant_never_widened_witness:
  "\<exists>h \<in> set (grant_rows (authority_reached (issued0 @ spent0))).
     h = grant0\<lparr>dg_execution_request_id := dg_execution_request_id h, dg_status := dg_status h\<rparr>"
  using grant_never_widened [of grant0 issued0 spent0] issued0_rows by auto

section \<open>Exclusive requests and the audit trail\<close>

text \<open>
  C23: in every reachable store an execution request carries at most one grant, so that one request can
  never draw on two authorities; and the activity of a grant records its status: an active grant was
  issued, and a revoked, expired or consumed one has an activity of that kind.
\<close>

theorem grants_exclusive_and_audited:
  "(\<forall>g \<in> set (grant_rows (authority_reached cs)). \<forall>h \<in> set (grant_rows (authority_reached cs)).
      dg_execution_request_id g \<noteq> None \<and> dg_execution_request_id g = dg_execution_request_id h \<longrightarrow> g = h)
   \<and> (\<forall>g \<in> set (grant_rows (authority_reached cs)). \<exists>r \<in> set (grant_activity_rows (authority_reached cs)).
      gx_grant_id r = dg_id g \<and> gx_kind r = (case dg_status g of Grant_Active \<Rightarrow> GA_Issued
        | Grant_Revoked \<Rightarrow> GA_Revoked | Grant_Expired \<Rightarrow> GA_Expired | Grant_Consumed \<Rightarrow> GA_Consumed))"
proof -
  let ?db = "authority_reached cs"
  have ok: "authority_ok ?db" by (rule authority_reached_ok)
  have "g = h" if "g \<in> set (grant_rows ?db)" "h \<in> set (grant_rows ?db)"
    "dg_execution_request_id g \<noteq> None" "dg_execution_request_id g = dg_execution_request_id h" for g h
  proof -
    have "dg_id g = dg_id h" using that ok bound_unique [of "grant_rows ?db" g h] by (auto simp: authority_ok_def)
    with that authority_keys [OF ok] show ?thesis by (auto simp: distinct_map dest: inj_onD)
  qed
  moreover have "grant_logged (grant_activity_rows ?db) g" if "g \<in> set (grant_rows ?db)" for g
    using ok that by (simp add: authority_ok_def)
  ultimately show ?thesis unfolding grant_logged_def closing_kind_def by blast
qed

theorem grants_exclusive_and_audited_witness:
  "\<exists>r \<in> set (grant_activity_rows (authority_reached (issued0 @ spent0))). gx_kind r = GA_Consumed"
proof -
  let ?g = "grant0\<lparr>dg_execution_request_id := Some request0, dg_status := Grant_Consumed\<rparr>"
  have "?g \<in> set (grant_rows (authority_reached (issued0 @ spent0)))" by (simp add: spent0_rows)
  with grants_exclusive_and_audited [of "issued0 @ spent0"]
  obtain r where "r \<in> set (grant_activity_rows (authority_reached (issued0 @ spent0)))"
    "gx_kind r = (case dg_status ?g of Grant_Active \<Rightarrow> GA_Issued | Grant_Revoked \<Rightarrow> GA_Revoked
        | Grant_Expired \<Rightarrow> GA_Expired | Grant_Consumed \<Rightarrow> GA_Consumed)" by blast
  then show ?thesis by auto
qed

section \<open>Loading a grant\<close>

lemma authority_get_ok:
  "authority_get k scope db = (t, Inr g) \<longleftrightarrow> t = db \<and> validate_grant_id k = Inr k
     \<and> (\<exists>g0 l. find_grant k db = Some g0 \<and> make_grant g0 = Inr g
         \<and> scope_label (dg_profile_scope g) = Inr l \<and> permits scope l)"
  by (auto simp: authority_get_def get_grant_impl_def grant_label_def op_ok value_checked_ok
      validate_grant_id_def split: option.splits if_splits)

lemma load_active_same:
  assumes "load_active_impl clock now k db = (db', Inr g)"
  shows "db' = db \<and> (\<exists>g0. find_grant k db = Some g0 \<and> make_grant g0 = Inr g)
    \<and> dg_status g = Grant_Active \<and> now < dg_expires_at g"
  using assms
  by (auto simp: load_active_impl_def required_grant_def op_ok value_checked_ok split: if_splits)

text \<open>
  Loading a grant for use fails closed.  A grant that is returned is the stored one, validated,
  readable in the caller's scope, active and unexpired at the given instant, and the store is
  unchanged.
\<close>

theorem load_active_fails_closed:
  assumes "authority_load_active clock now k scope db = (db', Inr g)"
  shows "db' = db \<and> (\<exists>g0. find_grant k db = Some g0 \<and> make_grant g0 = Inr g)
    \<and> dg_status g = Grant_Active \<and> now < dg_expires_at g
    \<and> set (profiles (dg_profile_scope g)) \<subseteq> set (profiles scope)"
proof -
  from assms obtain h where h: "authority_get k scope db = (db, Inr h)" and l: "load_active_impl clock now k db = (db', Inr g)"
    by (auto simp: authority_load_active_def op_ok authority_get_ok)
  from h load_active_same [OF l] have g: "make_grant g0 = Inr g \<Longrightarrow> find_grant k db = Some g0 \<Longrightarrow> h = g" for g0
    by (auto simp: authority_get_ok)
  from load_active_same [OF l] obtain g0 where g0: "find_grant k db = Some g0" "make_grant g0 = Inr g" by blast
  with g h obtain lab where "scope_label (dg_profile_scope g) = Inr lab" "permits scope lab"
    by (auto simp: authority_get_ok)
  moreover have "scope_ok (dg_profile_scope g)" using make_grant_same [OF g0(2)] by auto
  ultimately have "set (profiles (dg_profile_scope g)) \<subseteq> set (profiles scope)"
    by (auto simp: label_of_scope permits_def)
  with load_active_same [OF l] show ?thesis by blast
qed

theorem load_active_fails_closed_witness:
  "\<exists>g. authority_load_active 2 2 grant_id0 grant_scope0 (authority_reached issued0)
      = (authority_reached issued0, Inr g) \<and> 2 < dg_expires_at g"
proof -
  have "\<exists>g. snd (authority_load_active 2 2 grant_id0 grant_scope0 (authority_reached issued0)) = Inr g"
    by (rule exI [of _ grant0]) code_simp
  then obtain db' g where run: "authority_load_active 2 2 grant_id0 grant_scope0 (authority_reached issued0) = (db', Inr g)"
    by (metis prod.collapse)
  from load_active_fails_closed [OF run] run show ?thesis by auto
qed

lemma make_grant_status:
  assumes "make_grant g = Inr g'"
  shows "make_grant (g\<lparr>dg_status := st\<rparr>) = Inr (g'\<lparr>dg_status := st\<rparr>)"
proof -
  have "grant_fields_ok (g\<lparr>dg_status := st\<rparr>) = grant_fields_ok g" by (simp add: grant_fields_ok_def)
  with assms show ?thesis unfolding make_grant_def andthen_Inr by auto
qed

lemma make_grant_id: "make_grant g = Inr g' \<Longrightarrow> validate_grant_id (dg_id g) = Inr (dg_id g)"
  unfolding make_grant_def andthen_Inr by (auto simp: grant_fields_ok_def validate_grant_id_def)

lemma append_plain_run:
  assumes "find_grant k db = Some g" and "make_grant g = Inr g'" and "within 1 2000 summary"
  shows "append_plain now k kind summary db = (logged
    \<lparr>gx_id = Suc (grant_activity_seq db), gx_grant_id = k, gx_kind = kind, gx_capability = None,
     gx_tool_name = None, gx_action_id = None, gx_disposition = None, gx_summary = summary,
     gx_created_at = now\<rparr> db, Inr ())"
proof -
  have "find_grant k (db\<lparr>grant_activity_rows := xs, grant_activity_seq := n\<rparr>) = Some g" for xs n
    using assms(1) by (simp add: find_grant_def)
  moreover obtain l where "scope_label (dg_profile_scope g') = Inr l"
    using make_grant_same [OF assms(2)] label_of_scope by auto
  moreover have "validate_grant_id k = Inr k" using make_grant_id [OF assms(2)] found_grant [OF assms(1)] by simp
  ultimately show ?thesis
    using assms
    by (simp add: append_plain_def append_activity_def required_grant_def value_checked_def activity_of_def
        make_grant_activity_def logged_def op_defs opt_ok_def require_def within_def)
qed

text \<open>
  The first load at or after the expiry records it durably although the call fails: the status
  becomes expired, an activity says so, and any later load or consumption of the grant is refused with
  the store unchanged.
\<close>

theorem expiry_recorded_once:
  assumes "find_grant k (authority_reached cs) = Some g" and "make_grant g = Inr g'"
    and "dg_status g = Grant_Active" and "dg_expires_at g \<le> now"
    and "set (profiles (dg_profile_scope g')) \<subseteq> set (profiles scope)"
  shows "\<exists>db' row. authority_load_active clock now k scope (authority_reached cs)
        = (db', Inl (GrantStateError ''delegation grant is expired''))
    \<and> find_grant k db' = Some (g\<lparr>dg_status := Grant_Expired\<rparr>)
    \<and> grant_activity_rows db' = grant_activity_rows (authority_reached cs) @ [row]
    \<and> gx_grant_id row = k \<and> gx_kind row = GA_Expired \<and> gx_created_at row = clock
    \<and> (\<forall>clock2 now2. authority_load_active clock2 now2 k scope db'
        = (db', Inl (GrantStateError ''delegation grant is not active'')))
    \<and> (\<forall>now2 why. authority_consume now2 k scope why db'
        = (db', Inl (GrantStateError ''grant is already terminated'')))"
proof -
  let ?db = "authority_reached cs" and ?g = "g\<lparr>dg_status := Grant_Expired\<rparr>"
  note id = found_grant [OF assms(1)]
  define d where "d = put_grant ?g ?db"
  define row where "row = \<lparr>gx_id = Suc (grant_activity_seq d), gx_grant_id = k, gx_kind = GA_Expired,
     gx_capability = None, gx_tool_name = None, gx_action_id = None, gx_disposition = None,
     gx_summary = ''Grant expired before use'', gx_created_at = clock\<rparr>"
  have fd: "find_grant k d = Some ?g"
    using find_put_grant [OF assms(1), of ?g k] id by (simp add: d_def)
  have same: "dg_status g' = dg_status g" "dg_expires_at g' = dg_expires_at g" "scope_ok (dg_profile_scope g')"
    using make_grant_same [OF assms(2)] by auto
  have lab: "scope_label (dg_profile_scope g') = Inr \<lparr>required_profiles = profiles (dg_profile_scope g')\<rparr>"
    and perm: "permits scope \<lparr>required_profiles = profiles (dg_profile_scope g')\<rparr>"
    using label_of_scope [OF same(3)] assms(5) by (simp_all add: permits_def)
  have get: "authority_get k scope e = (e, Inr (g'\<lparr>dg_status := st\<rparr>))"
    if "find_grant k e = Some (g\<lparr>dg_status := st\<rparr>)" for e st
    using that make_grant_status [OF assms(2), of st] make_grant_id [OF assms(2)] id lab perm
    by (simp add: authority_get_ok)
  have "sql_update_grant (\<lambda>g. dg_id g = k \<and> dg_status g = Grant_Active)
      (\<lambda>g. g\<lparr>dg_status := Grant_Expired\<rparr>) ?db = (d, Inr (Suc 0))"
    using grant_update_ok [where C = "\<lambda>g. dg_status g = Grant_Active", OF authority_reached_ok] assms(1,3) id
    by (simp add: d_def)
  moreover have "append_plain clock k GA_Expired ''Grant expired before use'' d = (logged row d, Inr ())"
    using append_plain_run [OF fd make_grant_status [OF assms(2)]] by (simp add: row_def within_def)
  ultimately have "load_active_impl clock now k ?db
      = (logged row d, Inl (GrantStateError ''delegation grant is expired''))"
    using assms same by (simp add: load_active_impl_def required_grant_def value_checked_def op_defs)
  moreover have "g\<lparr>dg_status := Grant_Active\<rparr> = g" using assms(3) by simp
  ultimately have load: "authority_load_active clock now k scope ?db
      = (logged row d, Inl (GrantStateError ''delegation grant is expired''))"
    using get [of ?db Grant_Active] assms(1) by (simp add: authority_load_active_def bind_def)
  have later: "required_grant k (logged row d) = (logged row d, Inr (g'\<lparr>dg_status := Grant_Expired\<rparr>))"
    using fd make_grant_status [OF assms(2)] by (simp add: required_grant_def value_checked_def op_defs)
  have "authority_load_active clock2 now2 k scope (logged row d)
      = (logged row d, Inl (GrantStateError ''delegation grant is not active''))" for clock2 now2
    using get [of "logged row d" Grant_Expired] fd later
    by (simp add: authority_load_active_def load_active_impl_def op_defs)
  moreover have "authority_consume now2 k scope why (logged row d)
      = (logged row d, Inl (GrantStateError ''grant is already terminated''))" for now2 why
    using get [of "logged row d" Grant_Expired] fd later
    by (simp add: authority_consume_def terminate_impl_def op_defs)
  ultimately show ?thesis
    using load fd by (intro exI [of _ "logged row d"] exI [of _ row]) (simp add: row_def d_def)
qed

theorem expiry_recorded_once_witness:
  "\<exists>db'. authority_load_active 100 100 grant_id0 grant_scope0 (authority_reached issued0)
      = (db', Inl (GrantStateError ''delegation grant is expired''))
    \<and> find_grant grant_id0 db' = Some (grant0\<lparr>dg_status := Grant_Expired\<rparr>)"
proof -
  have "find_grant grant_id0 (authority_reached issued0) = Some grant0"
    by (simp add: find_grant_def issued0_rows grant0_def)
  moreover have "make_grant grant0 = Inr grant0" by code_simp
  moreover have "dg_status grant0 = Grant_Active" "dg_expires_at grant0 \<le> 100"
    "set (profiles (dg_profile_scope grant0)) \<subseteq> set (profiles grant_scope0)"
    by (simp_all add: grant0_def)
  ultimately show ?thesis
    using expiry_recorded_once [of grant_id0 issued0 grant0 grant0 100 grant_scope0 100] by blast
qed

section \<open>Isolation of scopes\<close>

fun grant_named :: "authority_call \<Rightarrow> string option" where
  "grant_named (A_Issue _ _) = None"
| "grant_named (A_Attach k _ _) = Some k"
| "grant_named (A_Load _ k _) = Some k"
| "grant_named (A_Revoke k _ _ _) = Some k"
| "grant_named (A_Consume k _ _) = Some k"
| "grant_named (A_Record k _ _ _ _ _ _ _) = Some k"

fun call_scope :: "authority_call \<Rightarrow> profile_scope" where
  "call_scope (A_Issue _ sc) = sc"
| "call_scope (A_Attach _ _ sc) = sc"
| "call_scope (A_Load _ _ sc) = sc"
| "call_scope (A_Revoke _ sc _ _) = sc"
| "call_scope (A_Consume _ sc _) = sc"
| "call_scope (A_Record _ _ _ sc _ _ _ _) = sc"

text \<open>
  A caller whose scope lacks a profile of the grant cannot touch it: whatever call it makes on that
  grant, the store stays exactly as it was, no activity included.
\<close>

theorem foreign_grant_untouched:
  assumes "grant_named c = Some k" and "find_grant k db = Some g"
    and "make_grant g = Inr g'" and "\<not> set (profiles (dg_profile_scope g')) \<subseteq> set (profiles (call_scope c))"
  shows "authority_exec now c db = db"
proof -
  have "scope_ok (dg_profile_scope g')" using make_grant_same [OF assms(3)] by auto
  then have "\<nexists>h. authority_get k (call_scope c) db = (db, Inr h)"
    using assms by (auto simp: authority_get_ok label_of_scope permits_def)
  moreover have "fst (authority_get k (call_scope c) db) = db" by (rule silentD) (rule silent_authority_get)
  ultimately obtain e where "authority_get k (call_scope c) db = (db, Inl e)"
    by (metis prod.collapse sumE)
  with assms(1) show ?thesis
    by (cases c) (simp_all add: authority_attach_execution_def authority_load_active_def authority_revoke_def
        authority_consume_def authority_record_def op_defs)
qed

theorem foreign_grant_untouched_witness:
  "authority_exec 5 (A_Revoke grant_id0 \<lparr>primary = ''work'', profiles = [''work'']\<rparr> ''eve'' ''mine now'')
     (authority_reached issued0) = authority_reached issued0"
proof -
  have "find_grant grant_id0 (authority_reached issued0) = Some grant0"
    by (simp add: find_grant_def issued0_rows grant0_def)
  moreover have "make_grant grant0 = Inr grant0" by code_simp
  moreover have "dg_profile_scope grant0 = grant_scope0" by (simp add: grant0_def)
  ultimately show ?thesis
    using foreign_grant_untouched [of "A_Revoke grant_id0 \<lparr>primary = ''work'', profiles = [''work'']\<rparr> ''eve'' ''mine now''"
        grant_id0 "authority_reached issued0" grant0 grant0 5]
    by (simp add: grant_scope0_def)
qed

end
