(* ===== verification/Delegation_Properties.thy ===== *)
theory Delegation_Properties
  imports Delegation_Settle Authority_Properties
begin

text \<open>The properties of delegated effects, which join the ledger and the grant store.\<close>

section \<open>A sample world\<close>

text \<open>The outside counts how often the tool was called.\<close>

definition evaluator0 :: evaluator where
  "evaluator0 = \<lparr>ev_capability = ''shop'', ev_schema_id = ''shop.v1'', ev_schema_version = 1,
     ev_tools = [''buy''], ev_scope_only_tools = [], ev_owner_ceiling = False,
     ev_evaluate = \<lambda>_ _ _. Inr \<lparr>av_allowed = True, av_reason = ''in scope'', av_amount_minor = 300,
       av_currency = Some ''EUR''\<rparr>,
     ev_identity = \<lambda>_ _ _. Inr effect0,
     ev_receipt = \<lambda>_ r. case tr_receipt r of None \<Rightarrow> Inl (ValueError ''no receipt'') | Some x \<Rightarrow> Inr x,
     ev_consumes = \<lambda>_ _. Inr True\<rparr>"

definition buy_tool :: "(unit, nat) effect_tool" where
  "buy_tool = \<lparr>et_name = ''buy'', et_unattended = Some Unattended_Allowed,
     et_run = \<lambda>_ n. (Suc n, Inr (plain_result ''bought'' JNull False
       (Some \<lparr>er_disposition = Performed, er_provider_reference = Some ''ref'',
         er_attempt_reason = None, er_action_id = None\<rparr>))),
     et_prepare = None, et_identity = \<lambda>_. effect0,
     et_run_prepared = \<lambda>_ _ n. (Suc n, Inl (OtherException ''crash'')), et_abort = None, et_bind = None\<rparr>"

definition crash_tool :: "(unit, nat) effect_tool" where
  "crash_tool = buy_tool\<lparr>et_run := \<lambda>_ n. (Suc n, Inl (OtherException ''crash''))\<rparr>"

definition bound_crash_tool :: "(unit, nat) effect_tool" where
  "bound_crash_tool = crash_tool\<lparr>et_bind := Some (\<lambda>_ _ n. (n, Inr ()), \<lambda>_ n. (n, Inr ()))\<rparr>"

definition delegation0 :: delegation where
  "delegation0 = \<lparr>dl_grant = grant0, dl_registry = \<lparr>by_capability = [(''shop'', evaluator0)],
     by_tool = [(''buy'', evaluator0)]\<rparr>, dl_run_id = ''r1'', dl_effect_budget = 5\<rparr>"

definition ledger_calls0 :: "(instant \<times> string \<times> ledger_call) list" where
  "ledger_calls0 = [(1, [], L_Insert here run0),
     (2, [], L_Seed grant_id0 (dg_task_id grant0) 1 (Some 500) (Some ''EUR'') 100 here)]"

definition world0 :: "nat world" where
  "world0 = \<lparr>wd_authority = authority_reached issued0, wd_ledger = reached key0 ledger_calls0,
     wd_clock = 0, wd_outside = 0\<rparr>"

definition clock0 :: "nat \<Rightarrow> instant" where
  "clock0 n = 3 + int n"

lemma world0_ok: "world_ok world0"
proof -
  have "calls_typed ledger_calls0" by code_simp
  then show ?thesis by (simp add: world0_def world_ok_def reached_ok authority_reached_ok)
qed

lemma scope0_ok: "scope_ok (dl_scope delegation0)"
  by code_simp

lemma buy0: "action_ids (fst (delegated_run clock0 ''1'' False delegation0 buy_tool JNull world0))
    = [delegated_action delegation0 effect0 ''action_1'']"
  by code_simp

lemma crash0: "(case delegated_run clock0 ''1'' False delegation0 bound_crash_tool JNull world0 of
    (w, r) \<Rightarrow> (action_ids w, r))
  = ([delegated_action delegation0 effect0 ''action_1''], Inl (Tool_Raised (OtherException ''crash'')))"
  by code_simp

section \<open>Four checks before an effect\<close>

text \<open>
  C16: a delegated effect is only ever attempted when four independent checks allow it at once.  If a
  call of a delegated tool leaves an action in the ledger, then the evaluator of the tool allowed this
  very call under a scope of the grant, the stored grant was active and unexpired, its budget was active,
  unexpired and of the same task, had an effect left and covered the money the evaluator declared, the run
  was unfinished and below its own budget, and no action under the task's namespace with the same identity
  was reserved, performed or in doubt.  Exactly that one action has been added.
\<close>

theorem delegated_effect_authorised:
  assumes "world_ok w" and "scope_ok (dg_profile_scope (dl_grant D))"
    and "action_ids (fst (delegated_run clk uuid cancelled D t args w)) \<noteq> action_ids w"
  shows "\<exists>ev scope verdict (i :: effect_identity) n g b r k.
      evaluator_for_tool (dl_registry D) (et_name t) = Some ev
    \<and> scope_for (dl_grant D) (ev_capability ev) = Some scope
    \<and> ev_evaluate ev scope (et_name t) args = Inr verdict \<and> av_allowed verdict
    \<and> find_grant (dg_id (dl_grant D)) (wd_authority w) = Some g \<and> dg_status g = Grant_Active
    \<and> clk (wd_clock w) < dg_expires_at g
    \<and> find_budget (dg_id (dl_grant D)) (wd_ledger w) = Some b \<and> gb_status b = Grant_Active
    \<and> clk n < gb_expires_at b \<and> gb_task_id b = dg_task_id (dl_grant D)
    \<and> gb_effects_used b < gb_effect_limit b
    \<and> (0 < av_amount_minor verdict \<longrightarrow> gb_currency b = av_currency verdict
         \<and> (\<exists>l. gb_financial_limit b = Some l \<and> gb_financial_used b + av_amount_minor verdict \<le> l))
    \<and> find_run (dl_run_id D) (wd_ledger w) = Some r \<and> rn_outcome r = None
    \<and> rn_effect_calls r < dl_effect_budget D
    \<and> (\<forall>a \<in> set (action_rows (wd_ledger w)). ac_job_name a = effect_namespace (dl_grant D)
         \<and> ac_action_key a = ei_action_key i \<longrightarrow> ac_status a = Resolved Not_Performed)
    \<and> action_ids (fst (delegated_run clk uuid cancelled D t args w)) = action_ids w
         @ [(k, effect_namespace (dl_grant D), ei_action_key i, Some (dg_id (dl_grant D)))]"
proof (rule delegated_grew [OF assms(3)])
  fix ev scope verdict w1
  assume f: "evaluator_for_tool (dl_registry D) (et_name t) = Some ev"
      "scope_for (dl_grant D) (ev_capability ev) = Some scope"
      "ev_evaluate ev scope (et_name t) args = Inr verdict" "av_allowed verdict"
    and adm: "admission_denial clk D (av_amount_minor verdict) (av_currency verdict) w = (w1, Inr None)"
    and reach: "reserves_from clk uuid cancelled D ev scope t args verdict w (delegated_run clk uuid cancelled D t args w)"
  from reach obtain w2 p i where led: "wd_ledger w2 = wd_ledger w"
    and run: "delegated_run clk uuid cancelled D t args w
      = reserve_and_dispatch clk uuid cancelled D ev scope t args verdict p i w2"
    by (auto simp: reserves_from_def)
  have ok: "ledger_ok (wd_ledger w)" using assms(1) by (simp add: world_ok_def)
  note ids = reserve_dispatch_ids [of w2 D clk uuid cancelled ev scope t args verdict p i, unfolded led, OF ok assms(2)]
  obtain d x where res: "reservation uuid D verdict i (clk (wd_clock w2)) (wd_ledger w) = (d, x)"
    by (cases "reservation uuid D verdict i (clk (wd_clock w2)) (wd_ledger w)")
  from ids assms(3) run res obtain a where a: "x = Inr a" by (cases x) (simp_all add: ids_of_ledger [OF led])
  from res a reservation_runs obtain sc where
    "reserve_grant_action_sync (clk (wd_clock w2)) uuid (dg_id (dl_grant D)) (effect_namespace (dl_grant D))
      (dg_task_id (dl_grant D)) (dl_run_id D) i (dl_effect_budget D) (av_amount_minor verdict)
      (av_currency verdict) sc (wd_ledger w) = (d, Inr a)" by blast
  from grant_reservation_ok [OF ok this] obtain b r b' where
    b: "find_budget (dg_id (dl_grant D)) (wd_ledger w) = Some b" "find_run (dl_run_id D) (wd_ledger w) = Some r"
      "rn_outcome r = None" "rn_effect_calls r < dl_effect_budget D" "gb_task_id b = dg_task_id (dl_grant D)"
      "pays (av_amount_minor verdict) (av_currency verdict) (clk (wd_clock w2)) b b'"
    and fresh: "fresh_action (reserved_action uuid (effect_namespace (dl_grant D)) (dl_run_id D) i (clk (wd_clock w2))
      (Some (dg_id (dl_grant D))) (Some (dg_task_id (dl_grant D)))) (wd_ledger w)" by blast
  obtain g where g: "find_grant (dg_id (dl_grant D)) (wd_authority w) = Some g" "dg_status g = Grant_Active"
    "clk (wd_clock w) < dg_expires_at g" using admission_None [OF adm] by blast
  have "\<forall>c \<in> set (action_rows (wd_ledger w)). ac_job_name c = effect_namespace (dl_grant D)
      \<and> ac_action_key c = ei_action_key i \<longrightarrow> ac_status c = Resolved Not_Performed"
    using fresh by (auto simp: fresh_action_def same_effect_def)
  moreover have "action_ids (fst (delegated_run clk uuid cancelled D t args w))
      = action_ids w @ [delegated_action D i (ja_id a)]"
    using ids by (simp add: run res a ids_of_ledger [OF led])
  ultimately show ?thesis
    using f b g unfolding pays_def
    by - (rule exI [of _ ev], rule exI [of _ scope], rule exI [of _ verdict], rule exI [of _ i],
        rule exI [of _ "wd_clock w2"], rule exI [of _ g], rule exI [of _ b], rule exI [of _ r],
        rule exI [of _ "ja_id a"], simp)
qed

theorem delegated_effect_authorised_witness:
  "\<exists>b. find_budget grant_id0 (wd_ledger world0) = Some b \<and> gb_effects_used b < gb_effect_limit b
    \<and> action_ids (fst (delegated_run clock0 ''1'' False delegation0 buy_tool JNull world0)) \<noteq> []"
proof -
  have "dg_id (dl_grant delegation0) = grant_id0" "action_ids world0 = []" by code_simp+
  with delegated_effect_authorised [OF world0_ok scope0_ok, of clock0 "''1''" False buy_tool JNull] buy0
  show ?thesis by auto
qed

section \<open>No dispatch without a reservation\<close>

text \<open>
  C17: a provider is never reached without a reservation.  A call that leaves the ledger's actions as they
  were, or that was cancelled while it waited for its reservation, would have had the same outcome in the
  stores, the outside world and the result, whatever the tool does when it performs its effect.
\<close>

theorem unreserved_effect_not_dispatched:
  assumes "world_ok w" and "scope_ok (dg_profile_scope (dl_grant D))"
    and "cancelled \<or> action_ids (fst (delegated_run clk uuid cancelled D t args w)) = action_ids w"
  shows "delegated_run clk uuid cancelled D (t\<lparr>et_run := any_run, et_run_prepared := any_prepared\<rparr>) args w
    = delegated_run clk uuid cancelled D t args w"
proof -
  have ok: "ledger_ok (wd_ledger w)" using assms(1) by (simp add: world_ok_def)
  show ?thesis
  proof (cases cancelled)
    case True
    then show ?thesis by (simp add: cancelled_same)
  next
    case False
    with delegated_agree [OF ok assms(2), where clk = clk and uuid = uuid and cancelled = cancelled and t = t
        and args = args and r = any_run and q = any_prepared] assms(3)
    show ?thesis by (simp add: agree_def)
  qed
qed

definition expired_world :: "nat world" where
  "expired_world = world0\<lparr>wd_clock := 97\<rparr>"

theorem unreserved_effect_not_dispatched_witness:
  "delegated_run clock0 ''1'' False delegation0 crash_tool JNull expired_world
     = delegated_run clock0 ''1'' False delegation0 buy_tool JNull expired_world"
proof -
  have ok: "world_ok expired_world" using world0_ok by (simp add: expired_world_def world_ok_def)
  have "action_ids (fst (delegated_run clock0 ''1'' False delegation0 buy_tool JNull expired_world)) = []"
    "action_ids expired_world = []" by code_simp+
  with unreserved_effect_not_dispatched [OF ok scope0_ok, where cancelled = False and clk = clock0 and uuid = "''1''"
      and t = buy_tool and args = JNull and any_run = "et_run crash_tool" and any_prepared = "et_run_prepared buy_tool"]
  show ?thesis by (simp add: crash_tool_def)
qed

section \<open>After the dispatch\<close>

text \<open>
  C18: the receipt a caller gets back is the truth of the ledger.  If a call added an action and returned a
  result, then it added exactly one, the result names that one, and the ledger holds it as resolved with the
  disposition and the provider reference of the receipt, under the grant and the task of the call.
\<close>

theorem receipt_matches_ledger:
  assumes "world_ok w" and "scope_ok (dg_profile_scope (dl_grant D))"
    and "action_ids (fst (delegated_run clk uuid cancelled D t args w)) \<noteq> action_ids w"
    and "snd (delegated_run clk uuid cancelled D t args w) = Inr result"
  shows "\<exists>receipt a i. tr_receipt result = Some receipt \<and> er_action_id receipt = Some (ac_id a)
    \<and> action_ids (fst (delegated_run clk uuid cancelled D t args w)) = action_ids w @ [delegated_action D i (ac_id a)]
    \<and> find_action (ac_id a) (wd_ledger (fst (delegated_run clk uuid cancelled D t args w))) = Some a
    \<and> ac_status a = Resolved (er_disposition receipt) \<and> ac_provider_reference a = er_provider_reference receipt
    \<and> ac_grant_id a = Some (dg_id (dl_grant D)) \<and> ac_job_name a = effect_namespace (dl_grant D)"
proof (rule grew_dispatched [OF assms(1,2,3)])
  fix ev scope verdict p i a w3
  let ?run = "delegated_run clk uuid cancelled D t args w"
  assume run: "after_reservation clk cancelled D ev scope t args p i (Inr a) w3 = ?run" and ok3: "world_ok w3"
    and ids: "action_ids (fst ?run) = action_ids w @ [delegated_action D i (ja_id a)]"
  obtain w' where out: "after_reservation clk cancelled D ev scope t args p i (Inr a) w3 = (w', Inr result)"
    "fst ?run = w'" using run assms(4) by (metis prod.collapse)
  from out(1) have "\<not> cancelled" by (auto simp: after_reservation_def op_ok)
  with out(1) have "dispatch_reserved clk D ev scope t args p i (ja_id a) w3 = (w', Inr result)"
    by (simp add: after_reservation_def)
  then obtain r w5 where w5: "world_ok w5" and after: "after_dispatch clk D ev scope t (ja_id a) r w5 = (w', Inr result)"
    using dispatch_reaches [OF ok3] by blast
  from after_dispatch_settles [OF w5 assms(2) after] obtain receipt x where
    receipt: "tr_receipt result = Some receipt" "er_action_id receipt = Some (ja_id a)"
    and x: "find_action (ja_id a) (wd_ledger w') = Some x" "ac_status x = Resolved (er_disposition receipt)"
      "ac_provider_reference x = er_provider_reference receipt" by blast
  have "world_ok w'"
    using moves_ok [OF moves.keeps_delegated [OF assms(2)] assms(1), of clk uuid cancelled t args w' "snd ?run"] out(2)
    by (metis prod.collapse)
  moreover have "delegated_action D i (ja_id a) \<in> set (action_ids w')" using ids out(2) by simp
  ultimately have "ac_grant_id x = Some (dg_id (dl_grant D)) \<and> ac_job_name x = effect_namespace (dl_grant D)"
    using action_of_id [of w' "ja_id a" x] x(1) by (simp add: world_ok_def)
  with receipt x found_action [OF x(1)] out(2) ids show ?thesis
    by (intro exI [of _ receipt] exI [of _ x] exI [of _ i]) simp
qed

theorem receipt_matches_ledger_witness:
  "\<exists>a. find_action (ac_id a) (wd_ledger (fst (delegated_run clock0 ''1'' False delegation0 buy_tool JNull world0))) = Some a
    \<and> ac_status a = Resolved Performed"
proof -
  let ?run = "delegated_run clock0 ''1'' False delegation0 buy_tool JNull world0"
  have "map_option er_disposition (case snd ?run of Inl _ \<Rightarrow> None | Inr r \<Rightarrow> tr_receipt r) = Some Performed"
    by code_simp
  then obtain result where "snd ?run = Inr result" "map_option er_disposition (tr_receipt result) = Some Performed"
    by (auto split: sum.splits)
  moreover have "action_ids world0 = []" by code_simp
  ultimately show ?thesis
    using receipt_matches_ledger [OF world0_ok scope0_ok, of clock0 "''1''" False buy_tool JNull result] buy0 by auto
qed

text \<open>
  C19: an effect that breaks off is never taken for undone.  Let the binding of the evidence, if the tool has
  one, succeed, and the tool raise once its effect was reserved, in a call that is not cancelled and that
  passes the exception on.  Then the one action that the call added is in doubt, and the grant is retired
  in both stores: the stored grant is not active, its budget is not active, and a tombstone keeps a later
  publication of the budget from reviving it.
\<close>

theorem crash_leaves_doubt:
  assumes "world_ok w" and "scope_ok (dg_profile_scope (dl_grant D))"
    and "\<And>s. snd (et_run t args s) = Inl e" and "\<And>p s. snd (et_run_prepared t args p s) = Inl e"
    and "\<forall>f g k key s. et_bind t = Some (f, g) \<longrightarrow> snd (f k key s) = Inr ()"
    and "action_ids (fst (delegated_run clk uuid False D t args w)) \<noteq> action_ids w"
    and "snd (delegated_run clk uuid False D t args w) = Inl (Tool_Raised e)"
  shows "\<exists>a i w'. w' = fst (delegated_run clk uuid False D t args w)
    \<and> action_ids w' = action_ids w @ [delegated_action D i (ac_id a)]
    \<and> a \<in> set (action_rows (wd_ledger w')) \<and> ac_status a = Resolved In_Doubt
    \<and> ac_grant_id a = Some (dg_id (dl_grant D)) \<and> ac_job_name a = effect_namespace (dl_grant D)
    \<and> find_termination (dg_id (dl_grant D)) (wd_ledger w') \<noteq> None
    \<and> (\<forall>b. find_budget (dg_id (dl_grant D)) (wd_ledger w') = Some b \<longrightarrow> gb_status b \<noteq> Grant_Active)
    \<and> (\<forall>g. find_grant (dg_id (dl_grant D)) (wd_authority w') = Some g \<longrightarrow> dg_status g \<noteq> Grant_Active)"
proof (rule grew_dispatched [OF assms(1,2,6)])
  fix ev scope verdict p i a w3
  let ?run = "delegated_run clk uuid False D t args w"
  assume run: "after_reservation clk False D ev scope t args p i (Inr a) w3 = ?run" and ok3: "world_ok w3"
    and ids: "action_ids (fst ?run) = action_ids w @ [delegated_action D i (ja_id a)]"
  obtain w' where out: "after_reservation clk False D ev scope t args p i (Inr a) w3 = (w', Inl (Tool_Raised e))"
    "fst ?run = w'" using run assms(7) by (metis prod.collapse)
  from crash_settles [OF ok3 assms(2) assms(3,4,5) out(1)] obtain x where
    x: "find_action (ja_id a) (wd_ledger w') = Some x" "ac_status x = Resolved In_Doubt"
    and ret: "retired (dg_id (dl_grant D)) w'" by blast
  have "world_ok w'"
    using moves_ok [OF moves.keeps_delegated [OF assms(2)] assms(1), of clk uuid False t args w' "snd ?run"] out(2)
    by (metis prod.collapse)
  moreover have "delegated_action D i (ja_id a) \<in> set (action_ids w')" using ids out(2) by simp
  moreover have "x \<in> set (action_rows (wd_ledger w'))" using x(1) find_row_Some by (fastforce simp: find_action_def)
  ultimately have "ac_grant_id x = Some (dg_id (dl_grant D)) \<and> ac_job_name x = effect_namespace (dl_grant D)"
    "x \<in> set (action_rows (wd_ledger w'))"
    using action_of_id [of w' "ja_id a" x] x(1) by (simp_all add: world_ok_def)
  with x ret found_action [OF x(1)] out(2) ids show ?thesis
    by (intro exI [of _ x] exI [of _ i] exI [of _ w']) (simp add: retired_def)
qed

theorem crash_leaves_doubt_witness:
  "\<exists>a \<in> set (action_rows (wd_ledger (fst (delegated_run clock0 ''1'' False delegation0 bound_crash_tool JNull world0)))).
     ac_status a = Resolved In_Doubt"
proof -
  have "action_ids world0 = []" by code_simp
  with crash_leaves_doubt [OF world0_ok scope0_ok, of bound_crash_tool JNull "OtherException ''crash''" clock0 "''1''"] crash0
  show ?thesis by (auto simp: bound_crash_tool_def crash_tool_def buy_tool_def split_beta)
qed

section \<open>A reference the ledger cannot read\<close>

lemma unreadable_row:
  assumes "ac_provider_reference a = Some ref" and "500 < length ref"
  shows "row_to_action db a = Inl ledger_failed"
  using assms by (auto simp: row_to_action_def make_action_def within_def label_of_def andthen_def require_def
      split: option.splits sum.splits)

lemma row_to_action_error: "row_to_action db a = Inl e \<Longrightarrow> e = ledger_failed"
  by (auto simp: row_to_action_def label_of_def andthen_def split: option.splits sum.splits)

lemma unreadable_rows:
  assumes "a \<in> set rows" and "row_to_action db a = Inl e"
  shows "collect (row_to_action db) rows = Inl ledger_failed"
  using assms(1)
proof (induction rows)
  case (Cons b rows)
  then show ?case using assms(2)
    by (auto simp: andthen_def dest: row_to_action_error split: sum.splits)
qed simp

text \<open>
  A reserved action that is resolved with a provider reference of more than 500 characters is
  stored as resolved, and the call still fails while it reads the action back.  From then on the
  action can be read by nobody, and the listing of the newest actions fails for every caller.
\<close>

theorem long_reference_unreadable:
  assumes ok: "ledger_ok db" and a: "find_action k db = Some a" "ac_status a = Reserved"
    and seen: "ledger_get_action scope k db = (db, Inr x)" and long: "500 < length ref"
    and db': "db' = fst (ledger_resolve_action now k d scope (Some ref) db)"
  shows "snd (ledger_resolve_action now k d scope (Some ref) db) = Inl ledger_failed
    \<and> find_action k db' = Some (a\<lparr>ac_status := Resolved d, ac_provider_reference := Some ref, ac_updated_at := now\<rparr>)
    \<and> (\<forall>s. ledger_get_action s k db' = (db', Inl ledger_failed))
    \<and> (length (action_rows db) \<le> 500
        \<longrightarrow> (\<forall>s. \<forall>n \<in> {1..500}. ledger_list_actions s None n db' = (db', Inl ledger_failed)))"
proof -
  let ?a = "a\<lparr>ac_status := Resolved d, ac_provider_reference := Some ref, ac_updated_at := now\<rparr>"
  let ?db = "db\<lparr>action_rows := update_row ac_id k (\<lambda>_. ?a) (action_rows db)\<rparr>"
  have found: "find_action k ?db = Some ?a"
    using a(1) found_action [OF a(1)] by (auto simp: find_action_def find_put_row)
  have bad: "row_to_action e ?a = Inl ledger_failed" for e using long by (intro unreadable_row) auto
  have get: "get_action_sync k ?db = (?db, Inl ledger_failed)"
    by (simp add: get_action_sync_def found bad bind_def reads_def lift_def)
  have bound: "find_action k db = Some r \<and> ac_status r = Reserved \<longleftrightarrow> r = a" for r using a by auto
  have update: "sql_update_action (\<lambda>a. ac_id a = k \<and> ac_status a = Reserved)
      (\<lambda>a. a\<lparr>ac_status := Resolved d, ac_provider_reference := Some ref, ac_updated_at := now\<rparr>) db = (?db, Inr 1)"
    using a by (simp add: action_update_ok [OF ok_keysD [OF ok]])
  have "resolve_action_sync now k d (Some ref) db = (?db, Inl ledger_failed)"
    unfolding resolve_action_sync_def required_action_def
    by (simp add: op_defs update get [unfolded op_defs])
  then have run: "ledger_resolve_action now k d scope (Some ref) db = (?db, Inl ledger_failed)"
    using seen by (simp add: ledger_resolve_action_def bind_def)
  have list: "ledger_list_actions s None n ?db = (?db, Inl ledger_failed)"
    if "length (action_rows db) \<le> 500" "n \<in> {1..500}" for s n
  proof -
    have "?a \<in> set (action_rows ?db)" using found find_row_Some by (fastforce simp: find_action_def)
    moreover have "take 500 (rev (sort_key (\<lambda>a. (ac_created_at a, ac_id a)) (action_rows ?db)))
        = rev (sort_key (\<lambda>a. (ac_created_at a, ac_id a)) (action_rows ?db))"
      using that by (intro take_all) (simp add: update_row_def)
    ultimately have "?a \<in> set (take 500 (rev (sort_key (\<lambda>a. (ac_created_at a, ac_id a)) (action_rows ?db))))" by simp
    then have "collect (row_to_action ?db) (take 500 (rev (sort_key (\<lambda>a. (ac_created_at a, ac_id a)) (action_rows ?db))))
        = Inl ledger_failed" by (rule unreadable_rows [OF _ bad])
    with that show ?thesis
      by (simp add: ledger_list_actions_def decode_actions_def bind_def unless_def reads_def lift_def ret_def)
  qed
  have "ledger_get_action s k ?db = (?db, Inl ledger_failed)" for s
    by (simp add: ledger_get_action_def bind_def get)
  with run found list show ?thesis by (simp add: db')
qed

theorem long_reference_unreadable_witness:
  "snd (ledger_get_action here ''action_1'' (fst (ledger_resolve_action 4 ''action_1'' Performed here
      (Some (replicate 501 CHR ''x'')) (reached key0 (take 3 paid0))))) = Inl ledger_failed"
proof -
  let ?db = "reached key0 (take 3 paid0)"
  have "calls_typed (take 3 paid0)"
    and row: "map_option ac_status (find_action ''action_1'' ?db) = Some Reserved"
    and "case snd (ledger_get_action here ''action_1'' ?db) of Inl _ \<Rightarrow> False | Inr _ \<Rightarrow> True"
    by code_simp+
  moreover from row obtain a where "find_action ''action_1'' ?db = Some a" "ac_status a = Reserved" by auto
  ultimately obtain x where "ledger_ok ?db" "find_action ''action_1'' ?db = Some a" "ac_status a = Reserved"
    "ledger_get_action here ''action_1'' ?db = (?db, Inr x)"
    using reached_ok silentD [OF silent_ledger_get_action, of here "''action_1''" ?db]
    by (auto split: sum.splits) (metis prod.collapse)
  from long_reference_unreadable [OF this, of "replicate 501 CHR ''x''" _ 4 Performed] show ?thesis by simp
qed

end
