(* ===== verification/Authority_Compiler.thy ===== *)
theory Authority_Compiler
  imports Delegation
begin

text \<open>
  Compilation of a grant from an execution contract, the accepted message that asked for it and the
  ceilings of the owner (\<open>ricky/authority/compiler.py\<close>; the ceilings are those of \<open>ricky/config.py\<close>).
  Of the contract and the message, the fields the compiler reads.  Times to live are in microseconds;
  the SHA-256 digests are arguments.
\<close>

section \<open>Owner policy\<close>

record capability_settings =
  cs_enabled :: bool
  cs_max_effect_calls :: int
  cs_max_ttl :: int
  cs_max_financial_limit_minor :: int
  cs_currency :: "string option"
  cs_allowed_profiles :: "string list"

record authority_settings =
  au_enabled :: bool
  au_allowed_principals :: "string list"
  au_max_ttl :: int
  au_max_effect_calls :: int
  au_capabilities :: "(string \<times> capability_settings) list"

section \<open>The contract and the message\<close>

record resolved_capability =
  rc_id :: string
  rc_authority_capability :: "string option"

record compiled_guardrail =
  cg_capability_id :: string
  cg_schema_id :: string
  cg_schema_version :: int
  cg_constraints :: json
  cg_summary :: string

record execution_contract =
  ec_id :: string
  ec_digest :: string
  ec_task_id :: string
  ec_task_revision :: int
  ec_profile_scope :: profile_scope
  ec_principal_id :: string
  ec_source_conversation_id :: string
  ec_source_message_ids :: "string list"
  ec_capabilities :: "resolved_capability list"
  ec_tool_ids :: "string list"
  ec_effect_calls :: int
  ec_guardrails :: "compiled_guardrail list"
  ec_confirmations :: "confirmation_ref list"
  ec_expires_at :: "instant option"

record inbound_message =
  im_id :: string
  im_rejected :: bool
  im_transport :: string
  im_account :: string
  im_sender_id :: string
  im_destination_id :: string
  im_platform_message_id :: string
  im_text :: string
  im_received_at :: instant

datatype compile_error =
    AuthorityCompilerError string
  | AuthorityRegistryError string
  | Invalid_Value string
  | Store_Raised authority_error

type_synonym 'a compiled = "compile_error + 'a"

definition check_that :: "bool \<Rightarrow> string \<Rightarrow> unit compiled" where
  "check_that b m = (if b then Inr () else Inl (AuthorityCompilerError m))"

definition valid_value :: "'a checked \<Rightarrow> 'a compiled" where
  "valid_value r = (case r of Inl m \<Rightarrow> Inl (Invalid_Value m) | Inr x \<Rightarrow> Inr x)"

definition principal_id :: "inbound_message \<Rightarrow> string" where
  "principal_id m = im_transport m @ '':'' @ im_account m @ '':'' @ im_sender_id m"

definition build_grant_source ::
  "(string \<Rightarrow> string) \<Rightarrow> inbound_message \<Rightarrow> string \<Rightarrow> nat \<Rightarrow> grant_source compiled" where
  "build_grant_source text_digest m conversation_id snapshot_chars =
     andthen (check_that (\<not> im_rejected m) ''a rejected message cannot source authority'') (\<lambda>_.
     valid_value (make_grant_source
       \<lparr>gs_principal_id = principal_id m, gs_transport = im_transport m, gs_account = im_account m,
        gs_sender_id = im_sender_id m, gs_destination_id = im_destination_id m,
        gs_platform_message_id = im_platform_message_id m, gs_inbound_message_id = im_id m,
        gs_conversation_id = conversation_id, gs_text_digest = text_digest (im_text m),
        gs_text_snapshot = take snapshot_chars (im_text m), gs_received_at = im_received_at m\<rparr>))"

section \<open>One capability\<close>

text \<open>A Python boolean is an integer.\<close>

definition json_int :: "json \<Rightarrow> int option" where
  "json_int v = (case v of JInt n \<Rightarrow> Some n | JBool b \<Rightarrow> Some (if b then 1 else 0) | _ \<Rightarrow> None)"

definition json_str :: "json \<Rightarrow> string option" where
  "json_str v = (case v of JStr s \<Rightarrow> Some s | _ \<Rightarrow> None)"

definition field :: "(json \<Rightarrow> 'a option) \<Rightarrow> (string \<times> json) list \<Rightarrow> string \<Rightarrow> 'a option" where
  "field read kvs k = Option.bind (map_of kvs k) read"

definition raw_amount :: "(string \<times> json) list \<Rightarrow> int" where
  "raw_amount kvs = (case List.map_filter (field json_int kvs)
       [''financial_limit_minor'', ''max_amount_minor'', ''deposit_limit_minor''] of
     [] \<Rightarrow> 0 | n # _ \<Rightarrow> n)"

text \<open>What one capability contributes: its scope, its ceiling and the money it asks for.\<close>

record capability_part =
  cp_scope :: authority_scope
  cp_summary :: string
  cp_ceiling :: capability_settings
  cp_money :: "(int \<times> string option) list"
  cp_money_ceilings :: "capability_settings list"

definition constraint_money :: "json \<Rightarrow> (int \<times> string option) list" where
  "constraint_money constraints = (case constraints of
     JObj kvs \<Rightarrow> [(raw_amount kvs, field json_str kvs ''currency'')] | _ \<Rightarrow> [])"

definition owner_money :: "evaluator \<Rightarrow> capability_settings \<Rightarrow> (int \<times> string option) list" where
  "owner_money ev ceiling =
     (if ev_owner_ceiling ev then [(cs_max_financial_limit_minor ceiling, cs_currency ceiling)] else [])"

definition usable_ceiling :: "authority_settings \<Rightarrow> execution_contract \<Rightarrow> string \<Rightarrow> capability_settings compiled" where
  "usable_ceiling policy contract semantic = (case map_of (au_capabilities policy) semantic of
     None \<Rightarrow> Inl (AuthorityCompilerError ''effect capability is disabled by owner policy'')
   | Some ceiling \<Rightarrow>
       andthen (check_that (cs_enabled ceiling) ''effect capability is disabled by owner policy'') (\<lambda>_.
       andthen (check_that (set (profiles (ec_profile_scope contract)) \<subseteq> set (cs_allowed_profiles ceiling))
         ''effect capability is unavailable for profile scope'') (\<lambda>_. Inr ceiling)))"

definition guardrail_of :: "execution_contract \<Rightarrow> string \<Rightarrow> compiled_guardrail compiled" where
  "guardrail_of contract k =
     (case map_of (rev (map (\<lambda>g. (cg_capability_id g, g)) (ec_guardrails contract))) k of
       None \<Rightarrow> Inl (AuthorityCompilerError ''effect capability requires a compiled guardrail'')
     | Some g \<Rightarrow> Inr g)"

definition compile_capability ::
  "authority_settings \<Rightarrow> registry \<Rightarrow> execution_contract \<Rightarrow> string \<times> string \<Rightarrow> capability_part compiled" where
  "compile_capability policy reg contract c = (case c of (cap_id, semantic) \<Rightarrow>
     andthen (usable_ceiling policy contract semantic) (\<lambda>ceiling.
     andthen (case require_evaluator reg semantic of
         Inl m \<Rightarrow> Inl (AuthorityRegistryError m) | Inr ev \<Rightarrow> Inr ev) (\<lambda>ev.
     andthen (check_that (set (ev_tools ev) \<subseteq> set (ec_tool_ids contract))
       ''execution contract is missing evaluator tools'') (\<lambda>_.
     andthen (guardrail_of contract cap_id) (\<lambda>guardrail.
     andthen (check_that (cg_schema_id guardrail = ev_schema_id ev
         \<and> cg_schema_version guardrail = ev_schema_version ev)
       ''effect evaluator schema differs from contract'') (\<lambda>_.
     andthen (valid_value (make_authority_scope \<lparr>as_capability = semantic,
         as_schema_id = cg_schema_id guardrail, as_schema_version = cg_schema_version guardrail,
         as_constraints = cg_constraints guardrail\<rparr>)) (\<lambda>scope.
     let money = constraint_money (cg_constraints guardrail) @ owner_money ev ceiling in
       Inr \<lparr>cp_scope = scope, cp_summary = cg_summary guardrail, cp_ceiling = ceiling,
         cp_money = money,
         cp_money_ceilings = map (\<lambda>_. ceiling) (filter (\<lambda>(n, _). 0 < n) money)\<rparr>)))))))"

section \<open>The grant\<close>

definition authority_capabilities :: "execution_contract \<Rightarrow> (string \<times> string) list" where
  "authority_capabilities contract = List.map_filter
     (\<lambda>c. map_option (Pair (rc_id c)) (rc_authority_capability c)) (ec_capabilities contract)"

definition min_of :: "int \<Rightarrow> int list \<Rightarrow> int" where
  "min_of n xs = Min (set (n # xs))"

definition money_limit :: "capability_part list \<Rightarrow> (int option \<times> string option) compiled" where
  "money_limit parts =
     (let requests = concat (map cp_money parts);
          ceilings = concat (map cp_money_ceilings parts);
          requested = (case map fst requests of [] \<Rightarrow> 0 | ns \<Rightarrow> Max (set ns));
          currencies = remdups (map snd (filter (\<lambda>(n, _). 0 < n) requests))
      in andthen (check_that (length currencies \<le> 1) ''one grant cannot mix currencies'') (\<lambda>_.
         let currency = (case currencies of [] \<Rightarrow> None | c # _ \<Rightarrow> c) in
         if requested \<le> 0 then Inr (None, None)
         else
           andthen (check_that (currency \<noteq> None
               \<and> set (List.map_filter cs_currency ceilings) = set_option currency)
             ''guardrail currency differs from owner policy'') (\<lambda>_.
           let limit = min_of requested (map cs_max_financial_limit_minor ceilings) in
           andthen (check_that (requested \<le> limit)
             ''compiled guardrail exceeds the current financial owner ceiling'') (\<lambda>_.
             Inr (Some limit, currency)))))"

definition compile_grant ::
  "instant \<Rightarrow> string \<Rightarrow> string \<Rightarrow> authority_settings \<Rightarrow> registry \<Rightarrow> execution_contract \<Rightarrow> grant_source
    \<Rightarrow> (string \<times> string) list \<Rightarrow> delegation_grant compiled" where
  "compile_grant moment uuid policy_digest policy reg contract source caps =
     andthen (check_that (au_enabled policy) ''delegated authority is disabled by configuration'') (\<lambda>_.
     andthen (check_that (gs_principal_id source = ec_principal_id contract
         \<and> gs_principal_id source \<in> set (au_allowed_principals policy))
       ''source principal cannot authorize this contract'') (\<lambda>_.
     andthen (check_that (gs_conversation_id source = ec_source_conversation_id contract
         \<and> gs_inbound_message_id source \<in> set (ec_source_message_ids contract))
       ''authority source is outside the execution contract'') (\<lambda>_.
     andthen (collect (compile_capability policy reg contract) caps) (\<lambda>parts.
     let effect_limit = min_of (ec_effect_calls contract)
           (au_max_effect_calls policy # map (cs_max_effect_calls \<circ> cp_ceiling) parts);
         ttl = min_of (au_max_ttl policy) (map (cs_max_ttl \<circ> cp_ceiling) parts);
         expiry = (case ec_expires_at contract of None \<Rightarrow> moment + ttl | Some e \<Rightarrow> min (moment + ttl) e)
     in
     andthen (check_that (1 \<le> effect_limit) ''contract and owner policy allow no effect calls'') (\<lambda>_.
     andthen (check_that (moment < expiry) ''execution contract expired before grant issue'') (\<lambda>_.
     andthen (money_limit parts) (\<lambda>(limit, currency).
       valid_value (make_grant
         \<lparr>dg_id = ''grant_'' @ uuid, dg_source = source, dg_task_id = ec_task_id contract,
          dg_task_revision = ec_task_revision contract, dg_profile_scope = ec_profile_scope contract,
          dg_execution_request_id = None, dg_contract_id = ec_id contract,
          dg_contract_digest = ec_digest contract, dg_confirmations = ec_confirmations contract,
          dg_scopes = map cp_scope parts, dg_summary = take 4000 (join '' '' (map cp_summary parts)),
          dg_effect_call_limit = effect_limit, dg_financial_limit_minor = limit, dg_currency = currency,
          dg_issued_at = moment, dg_expires_at = expiry, dg_status = Grant_Active,
          dg_policy_digest = policy_digest\<rparr>))))))))"

definition compile_authority ::
  "instant \<Rightarrow> instant \<Rightarrow> string \<Rightarrow> string \<Rightarrow> authority_settings \<Rightarrow> registry \<Rightarrow> execution_contract
    \<Rightarrow> grant_source \<Rightarrow> (authority_db, compile_error, delegation_grant option) op" where
  "compile_authority clock moment uuid policy_digest policy reg contract source =
     (let caps = authority_capabilities contract in
      if caps = [] then ret None
      else bind (lift (compile_grant moment uuid policy_digest policy reg contract source caps)) (\<lambda>g.
        (\<lambda>db. case authority_issue clock g (ec_profile_scope contract) db of
           (db', Inl e) \<Rightarrow> (db', Inl (Store_Raised e))
         | (db', Inr _) \<Rightarrow> (db', Inr (Some g)))))"

end
