(* ===== verification/Authority_Compiler_Properties.thy ===== *)
theory Authority_Compiler_Properties
  imports Authority_Compiler Authority_Properties
begin

text \<open>The properties of the registry of evaluators, of the delegated tools and of compiled grants.\<close>

section \<open>The registry\<close>

definition registers :: "registry \<Rightarrow> evaluator set \<Rightarrow> bool" where
  "registers reg evs \<longleftrightarrow>
     (\<forall>n ev. map_of (by_tool reg) n = Some ev \<longleftrightarrow> ev \<in> evs \<and> n \<in> set (ev_tools ev))
   \<and> (\<forall>c ev. map_of (by_capability reg) c = Some ev \<longleftrightarrow> ev \<in> evs \<and> c = ev_capability ev)"

lemma map_of_tools: "map_of (map (\<lambda>n. (n, ev)) ns) n = (if n \<in> set ns then Some ev else None)"
  by (induction ns) auto

lemma register_registers:
  assumes "register ev reg = Inr reg'" and "registers reg evs"
  shows "registers reg' (insert ev evs)"
proof -
  from assms(1) have new: "map_of (by_capability reg) (ev_capability ev) = None"
    "\<And>n. n \<in> set (ev_tools ev) \<Longrightarrow> map_of (by_tool reg) n = None"
    and reg': "by_capability reg' = (ev_capability ev, ev) # by_capability reg"
      "by_tool reg' = map (\<lambda>n. (n, ev)) (ev_tools ev) @ by_tool reg"
    by (auto simp: register_def andthen_Inr list_all_iff)
  have tools: "map_of (by_tool reg) n = Some e \<longleftrightarrow> e \<in> evs \<and> n \<in> set (ev_tools e)" for n e
    using assms(2) by (simp add: registers_def)
  have "map_of (by_tool reg') n = Some e \<longleftrightarrow> e \<in> insert ev evs \<and> n \<in> set (ev_tools e)" for n e
  proof (cases "n \<in> set (ev_tools ev)")
    case True
    with new(2) tools [of n e] have "e \<in> evs \<longrightarrow> n \<notin> set (ev_tools e)" by simp
    with True show ?thesis by (auto simp: reg' map_of_tools map_add_def)
  next
    case False
    then show ?thesis by (auto simp: reg' map_of_tools map_add_def tools split: option.split)
  qed
  have caps: "map_of (by_capability reg) c = Some e \<longleftrightarrow> e \<in> evs \<and> c = ev_capability e" for c e
    using assms(2) by (simp add: registers_def)
  have "map_of (by_capability reg') c = Some e \<longleftrightarrow> e \<in> insert ev evs \<and> c = ev_capability e" for c e
    using new(1) caps [of c e] by (cases "c = ev_capability ev") (auto simp: reg')
  with \<open>\<And>n e. (map_of (by_tool reg') n = Some e) = (e \<in> insert ev evs \<and> n \<in> set (ev_tools e))\<close>
  show ?thesis unfolding registers_def by blast
qed

lemma register_all_registers:
  "register_all evs reg = Inr reg' \<Longrightarrow> registers reg old \<Longrightarrow> registers reg' (old \<union> set evs)"
proof (induction evs arbitrary: reg old)
  case (Cons ev evs)
  from Cons.prems(1) obtain mid where "register ev reg = Inr mid" "register_all evs mid = Inr reg'"
    by (auto simp: andthen_Inr)
  with Cons.IH [of mid "insert ev old"] register_registers [OF _ Cons.prems(2)] show ?case by simp
qed simp

text \<open>
  In a registry that was built from a list of evaluators, each effect tool has exactly one evaluator,
  and the lookups by tool and by capability find exactly the evaluators of the list.
\<close>

theorem registry_exact:
  assumes "authority_registry evs = Inr reg"
  shows "(evaluator_for_tool reg n = Some ev \<longleftrightarrow> ev \<in> set evs \<and> n \<in> set (ev_tools ev))
    \<and> (require_evaluator reg c = Inr ev \<longleftrightarrow> ev \<in> set evs \<and> c = ev_capability ev)"
proof -
  have "registers empty_registry {}" by (simp add: registers_def empty_registry_def)
  from register_all_registers [OF _ this] assms have "registers reg (set evs)" by (simp add: authority_registry_def)
  then have "map_of (by_tool reg) n = Some ev \<longleftrightarrow> ev \<in> set evs \<and> n \<in> set (ev_tools ev)"
    "map_of (by_capability reg) c = Some ev \<longleftrightarrow> ev \<in> set evs \<and> c = ev_capability ev"
    by (simp_all add: registers_def)
  then show ?thesis by (cases "map_of (by_capability reg) c") (simp_all add: evaluator_for_tool_def require_evaluator_def)
qed

definition shop_evaluator :: evaluator where
  "shop_evaluator = \<lparr>ev_capability = ''shop'', ev_schema_id = ''shop.v1'', ev_schema_version = 1,
     ev_tools = [''buy''], ev_scope_only_tools = [], ev_owner_ceiling = False,
     ev_evaluate = \<lambda>_ _ _. Inr \<lparr>av_allowed = False, av_reason = ''no'', av_amount_minor = 0, av_currency = None\<rparr>,
     ev_identity = \<lambda>_ _ _. Inl (ValueError ''none''), ev_receipt = \<lambda>_ _. Inl (ValueError ''none''),
     ev_consumes = \<lambda>_ _. Inr True\<rparr>"

definition shop_registry :: registry where
  "shop_registry = \<lparr>by_capability = [(''shop'', shop_evaluator)], by_tool = [(''buy'', shop_evaluator)]\<rparr>"

lemma shop_registry_built: "authority_registry [shop_evaluator] = Inr shop_registry"
  by (simp add: authority_registry_def register_def empty_registry_def shop_registry_def shop_evaluator_def require_def)

theorem registry_exact_witness:
  "evaluator_for_tool shop_registry ''buy'' = Some shop_evaluator"
  using registry_exact [OF shop_registry_built, of "''buy''" shop_evaluator "''shop''"]
  by (simp add: shop_evaluator_def)

section \<open>The delegated tools\<close>


lemma scope_tools_ok:
  assumes "scope_tools reg s = Inr names"
  shows "\<exists>ev. require_evaluator reg (as_capability s) = Inr ev \<and> set names \<subseteq> set (ev_tools ev)"
  using assms by (auto simp: scope_tools_def andthen_Inr split: option.splits)

text \<open>
  Composing a delegated run either fails or wraps exactly the tools the grant names: each of them is
  present, allowed for unattended use and governed by the evaluator of a scope of the grant, and every
  other tool is passed on untouched, in the same order.
\<close>

theorem delegated_tools_exact:
  assumes "build_delegated_tools reg g tools = Inr built"
  shows "\<exists>names. delegated_tool_names reg g = Inr names \<and> set names \<subseteq> set (map et_name tools)
    \<and> built = map (\<lambda>t. if et_name t \<in> set names then Delegated t else Untouched t) tools
    \<and> (\<forall>t \<in> set tools. et_name t \<in> set names \<longrightarrow> et_unattended t = Some Unattended_Allowed)
    \<and> (\<forall>n \<in> set names. \<exists>s \<in> set (dg_scopes g). \<exists>ev. require_evaluator reg (as_capability s) = Inr ev
         \<and> n \<in> set (ev_tools ev))"
proof -
  from assms obtain names where names: "delegated_tool_names reg g = Inr names" "set names \<subseteq> set (map et_name tools)"
    and built: "list_all2 (\<lambda>t b. wrap_tool names t = Inr b) tools built"
    by (auto simp: build_delegated_tools_def andthen_Inr collect_Inr)
  have "built = map (\<lambda>t. if et_name t \<in> set names then Delegated t else Untouched t) tools
    \<and> (\<forall>t \<in> set tools. et_name t \<in> set names \<longrightarrow> et_unattended t = Some Unattended_Allowed)"
    using built by (induction rule: list_all2_induct) (auto simp: wrap_tool_def andthen_Inr split: if_splits)
  moreover have "\<exists>s \<in> set (dg_scopes g). \<exists>ev. require_evaluator reg (as_capability s) = Inr ev \<and> n \<in> set (ev_tools ev)"
    if "n \<in> set names" for n
  proof -
    from names(1) obtain xs where xs: "list_all2 (\<lambda>s ns. scope_tools reg s = Inr ns) (dg_scopes g) xs" "names = concat xs"
      by (auto simp: delegated_tool_names_def andthen_Inr collect_Inr)
    with that obtain ns where "ns \<in> set xs" "n \<in> set ns" by auto
    from xs(1) \<open>ns \<in> set xs\<close> obtain s where "s \<in> set (dg_scopes g)" "scope_tools reg s = Inr ns"
      by (induction rule: list_all2_induct) auto
    with scope_tools_ok \<open>n \<in> set ns\<close> show ?thesis by blast
  qed
  ultimately show ?thesis using names by blast
qed

definition plain_tool :: "string \<Rightarrow> (unit, unit) effect_tool" where
  "plain_tool n = \<lparr>et_name = n, et_unattended = Some Unattended_Allowed,
     et_run = \<lambda>_ s. (s, Inl (OtherException ''unused'')), et_prepare = None, et_identity = \<lambda>_. undefined,
     et_run_prepared = \<lambda>_ _ s. (s, Inl (OtherException ''unused'')), et_abort = None, et_bind = None\<rparr>"

theorem delegated_tools_exact_witness:
  "\<exists>names. delegated_tool_names shop_registry grant0 = Inr names
    \<and> set names \<subseteq> set (map et_name [plain_tool ''look'', plain_tool ''buy''])"
proof -
  have "build_delegated_tools shop_registry grant0 [plain_tool ''look'', plain_tool ''buy'']
      = Inr [Untouched (plain_tool ''look''), Delegated (plain_tool ''buy'')]"
    by (simp add: build_delegated_tools_def delegated_tool_names_def scope_tools_def shop_registry_def grant0_def
        require_evaluator_def selected_tools_def shop_evaluator_def wrap_tool_def plain_tool_def require_def)
  from delegated_tools_exact [OF this] show ?thesis by blast
qed

section \<open>Compiled grants\<close>

lemma min_of_le: "min_of n xs \<le> n" "x \<in> set xs \<Longrightarrow> min_of n xs \<le> x"
  by (simp_all add: min_of_def)

lemma compiled_checks [simp]:
  "check_that b m = Inr u \<longleftrightarrow> b"
  "valid_value r = Inr x \<longleftrightarrow> r = Inr x"
  by (simp_all add: check_that_def valid_value_def split: sum.split)

text \<open>One capability's part satisfies the owner's ceiling, its evaluator and its guardrail.\<close>

definition part_allowed ::
  "authority_settings \<Rightarrow> registry \<Rightarrow> execution_contract \<Rightarrow> string \<times> string \<Rightarrow> capability_part \<Rightarrow> bool" where
  "part_allowed policy reg contract c part \<longleftrightarrow> (\<exists>ev guardrail.
     map_of (au_capabilities policy) (snd c) = Some (cp_ceiling part) \<and> cs_enabled (cp_ceiling part)
   \<and> set (profiles (ec_profile_scope contract)) \<subseteq> set (cs_allowed_profiles (cp_ceiling part))
   \<and> require_evaluator reg (snd c) = Inr ev \<and> set (ev_tools ev) \<subseteq> set (ec_tool_ids contract)
   \<and> guardrail_of contract (fst c) = Inr guardrail
   \<and> as_capability (cp_scope part) = snd c \<and> as_constraints (cp_scope part) = cg_constraints guardrail
   \<and> as_schema_id (cp_scope part) = ev_schema_id ev \<and> as_schema_version (cp_scope part) = ev_schema_version ev
   \<and> cp_money part = constraint_money (cg_constraints guardrail) @ owner_money ev (cp_ceiling part)
   \<and> set (cp_money_ceilings part) = (if \<exists>(n, _) \<in> set (cp_money part). 0 < n then {cp_ceiling part} else {}))"

lemma compile_capability_allowed:
  assumes "compile_capability policy reg contract c = Inr part"
  shows "part_allowed policy reg contract c part"
proof -
  obtain cap semantic where c: "c = (cap, semantic)" by (cases c)
  from assms obtain ceiling ev guardrail scope where
    f: "usable_ceiling policy contract semantic = Inr ceiling" "require_evaluator reg semantic = Inr ev"
      "set (ev_tools ev) \<subseteq> set (ec_tool_ids contract)" "guardrail_of contract cap = Inr guardrail"
      "cg_schema_id guardrail = ev_schema_id ev" "cg_schema_version guardrail = ev_schema_version ev"
      "make_authority_scope \<lparr>as_capability = semantic, as_schema_id = cg_schema_id guardrail,
         as_schema_version = cg_schema_version guardrail, as_constraints = cg_constraints guardrail\<rparr> = Inr scope"
    and part: "part = \<lparr>cp_scope = scope, cp_summary = cg_summary guardrail, cp_ceiling = ceiling,
         cp_money = constraint_money (cg_constraints guardrail) @ owner_money ev ceiling,
         cp_money_ceilings = map (\<lambda>_. ceiling) (filter (\<lambda>(n, _). 0 < n)
           (constraint_money (cg_constraints guardrail) @ owner_money ev ceiling))\<rparr>"
    by (auto simp: compile_capability_def c andthen_Inr Let_def split: sum.splits)
  have "map_of (au_capabilities policy) semantic = Some ceiling \<and> cs_enabled ceiling
      \<and> set (profiles (ec_profile_scope contract)) \<subseteq> set (cs_allowed_profiles ceiling)"
    using f(1) by (auto simp: usable_ceiling_def andthen_Inr split: option.splits)
  with f make_scope_same [OF f(7)] show ?thesis
    unfolding part_allowed_def c
    by (intro exI [of _ ev] exI [of _ guardrail]) (auto simp: part)
qed

text \<open>The money a grant may spend covers each request and respects each ceiling.\<close>

lemma money_limit_bounds:
  assumes "money_limit parts = Inr (limit, currency)" and part: "part \<in> set parts"
    and n: "(n, cur) \<in> set (cp_money part)" "0 < n"
    and ceiling: "cp_ceiling part \<in> set (cp_money_ceilings part)"
  shows "\<exists>l. limit = Some l \<and> n \<le> l \<and> l \<le> cs_max_financial_limit_minor (cp_ceiling part)
    \<and> currency \<noteq> None \<and> currency = cur \<and> (cs_currency (cp_ceiling part) = None \<or> cs_currency (cp_ceiling part) = cur)"
proof -
  let ?requests = "concat (map cp_money parts)" and ?ceilings = "concat (map cp_money_ceilings parts)"
  have mem: "(n, cur) \<in> set ?requests" "cp_ceiling part \<in> set ?ceilings" using part n(1) ceiling by auto
  have "map fst ?requests \<noteq> []" using mem(1) by (cases ?requests) simp_all
  then have req: "(case map fst ?requests of [] \<Rightarrow> 0 | ns \<Rightarrow> Max (set ns)) = Max (set (map fst ?requests))"
    by (cases "map fst ?requests") simp_all
  have "n \<in> set (map fst ?requests)" using mem(1) by force
  then have big: "n \<le> Max (set (map fst ?requests))" by simp
  let ?cs = "remdups (map snd (filter (\<lambda>(n, _). 0 < n) ?requests))"
  have cur: "cur \<in> set ?cs" using mem(1) n(2) by force
  from assms(1) req big n(2) have
    one: "length ?cs \<le> 1" and some: "hd ?cs \<noteq> None"
    and pol: "set (List.map_filter cs_currency ?ceilings) = set_option (hd ?cs)"
    and lim: "limit = Some (min_of (Max (set (map fst ?requests))) (map cs_max_financial_limit_minor ?ceilings))"
      "currency = hd ?cs"
      "Max (set (map fst ?requests)) \<le> min_of (Max (set (map fst ?requests))) (map cs_max_financial_limit_minor ?ceilings)"
    using cur by (auto simp: money_limit_def Let_def andthen_Inr split: if_splits list.splits)
  have hd: "hd ?cs = cur" using one cur by (cases ?cs) auto
  have "cs_currency (cp_ceiling part) = None \<or> cs_currency (cp_ceiling part) = cur"
  proof (cases "cs_currency (cp_ceiling part)")
    case (Some c)
    with mem(2) have "c \<in> set (List.map_filter cs_currency ?ceilings)" by (force simp: map_filter_def)
    with pol hd Some show ?thesis by (cases cur) simp_all
  qed simp
  moreover have "min_of (Max (set (map fst ?requests))) (map cs_max_financial_limit_minor ?ceilings)
      \<le> cs_max_financial_limit_minor (cp_ceiling part)"
    using mem(2) by (intro min_of_le) simp
  ultimately show ?thesis using lim some hd big by auto
qed

text \<open>
  C20: a compiled grant stays below every ceiling at once.  It exists only for an enabled policy and an
  allowed principal who is the principal of the contract, speaking in a message of the contract.  Its effect
  limit is positive and below the contract, the policy and the ceiling of each capability; it expires
  after now, no later than the contract and within every time to live; each scope is the guardrail of a
  capability of the contract, whose ceiling is enabled and admits every profile; and where a guardrail
  asks for money, the financial limit covers it and respects the ceiling and its currency.  The grant is
  stored as issued.
\<close>

theorem compiled_grant_within_ceilings:
  assumes "compile_authority clock moment uuid policy_digest policy reg contract source db = (db', Inr (Some g))"
  shows "au_enabled policy \<and> gs_principal_id source = ec_principal_id contract
    \<and> gs_principal_id source \<in> set (au_allowed_principals policy)
    \<and> gs_inbound_message_id source \<in> set (ec_source_message_ids contract) \<and> dg_source g = source
    \<and> 1 \<le> dg_effect_call_limit g \<and> dg_effect_call_limit g \<le> ec_effect_calls contract
    \<and> dg_effect_call_limit g \<le> au_max_effect_calls policy
    \<and> moment < dg_expires_at g \<and> dg_expires_at g \<le> moment + au_max_ttl policy
    \<and> (\<forall>e. ec_expires_at contract = Some e \<longrightarrow> dg_expires_at g \<le> e)
    \<and> map as_capability (dg_scopes g) = map snd (authority_capabilities contract)
    \<and> (\<forall>s \<in> set (dg_scopes g). \<exists>cap ceiling guardrail.
         (cap, as_capability s) \<in> set (authority_capabilities contract)
       \<and> map_of (au_capabilities policy) (as_capability s) = Some ceiling \<and> cs_enabled ceiling
       \<and> set (profiles (ec_profile_scope contract)) \<subseteq> set (cs_allowed_profiles ceiling)
       \<and> guardrail_of contract cap = Inr guardrail \<and> as_constraints s = cg_constraints guardrail
       \<and> dg_effect_call_limit g \<le> cs_max_effect_calls ceiling
       \<and> dg_expires_at g \<le> moment + cs_max_ttl ceiling
       \<and> (\<forall>(n, cur) \<in> set (constraint_money (cg_constraints guardrail)). 0 < n \<longrightarrow>
            (\<exists>l. dg_financial_limit_minor g = Some l \<and> n \<le> l \<and> l \<le> cs_max_financial_limit_minor ceiling
               \<and> dg_currency g = cur \<and> (cs_currency ceiling = None \<or> cs_currency ceiling = cur))))
    \<and> dg_status g = Grant_Active \<and> grant_rows db' = grant_rows db @ [g]"
proof -
  let ?caps = "authority_capabilities contract"
  from assms obtain x where x: "compile_grant moment uuid policy_digest policy reg contract source ?caps = Inr x"
    and issue: "(case authority_issue clock x (ec_profile_scope contract) db of
           (d, Inl e) \<Rightarrow> (d, Inl (Store_Raised e)) | (d, Inr _) \<Rightarrow> (d, Inr (Some x))) = (db', Inr (Some g))"
    unfolding compile_authority_def Let_def by (cases "?caps = []") (auto simp: ret_ok bind_ok lift_ok)
  obtain d r where run: "authority_issue clock x (ec_profile_scope contract) db = (d, r)"
    by (cases "authority_issue clock x (ec_profile_scope contract) db")
  from issue run x have compiled: "compile_grant moment uuid policy_digest policy reg contract source ?caps = Inr g"
    and stored: "\<exists>x. authority_issue clock g (ec_profile_scope contract) db = (db', Inr x)"
    by (cases r; simp)+
  from compiled obtain parts limit currency raw where
    f: "au_enabled policy" "gs_principal_id source = ec_principal_id contract"
      "gs_principal_id source \<in> set (au_allowed_principals policy)"
      "gs_inbound_message_id source \<in> set (ec_source_message_ids contract)"
    and parts: "list_all2 (\<lambda>c part. compile_capability policy reg contract c = Inr part) ?caps parts"
    and money: "money_limit parts = Inr (limit, currency)"
    and raw: "make_grant raw = Inr g"
      "dg_effect_call_limit raw = min_of (ec_effect_calls contract)
         (au_max_effect_calls policy # map (cs_max_effect_calls \<circ> cp_ceiling) parts)"
      "1 \<le> dg_effect_call_limit raw" "moment < dg_expires_at raw"
      "dg_expires_at raw = (let ttl = min_of (au_max_ttl policy) (map (cs_max_ttl \<circ> cp_ceiling) parts)
         in case ec_expires_at contract of None \<Rightarrow> moment + ttl | Some e \<Rightarrow> min (moment + ttl) e)"
      "dg_scopes raw = map cp_scope parts" "dg_financial_limit_minor raw = limit" "dg_currency raw = currency"
      "dg_source raw = source" "dg_status raw = Grant_Active"
    by (auto simp: compile_grant_def Let_def andthen_Inr collect_Inr split: prod.splits)
  from make_grant_same [OF raw(1)] obtain sc where g: "g = raw\<lparr>dg_profile_scope := sc\<rparr>" by blast
  have allowed: "list_all2 (part_allowed policy reg contract) ?caps parts"
    using parts by (rule list_all2_mono) (rule compile_capability_allowed)
  have expiry: "dg_expires_at g \<le> moment + min_of (au_max_ttl policy) (map (cs_max_ttl \<circ> cp_ceiling) parts)"
    "ec_expires_at contract = Some e \<Longrightarrow> dg_expires_at g \<le> e" for e
    using raw(5) by (auto simp: g Let_def split: option.splits)
  have scopes: "map as_capability (map cp_scope parts) = map snd ?caps"
    using allowed by (induction rule: list_all2_induct) (auto simp: part_allowed_def)
  have each: "\<exists>cap ceiling guardrail. (cap, as_capability (cp_scope part)) \<in> set ?caps
       \<and> map_of (au_capabilities policy) (as_capability (cp_scope part)) = Some ceiling \<and> cs_enabled ceiling
       \<and> set (profiles (ec_profile_scope contract)) \<subseteq> set (cs_allowed_profiles ceiling)
       \<and> guardrail_of contract cap = Inr guardrail \<and> as_constraints (cp_scope part) = cg_constraints guardrail
       \<and> dg_effect_call_limit g \<le> cs_max_effect_calls ceiling
       \<and> dg_expires_at g \<le> moment + cs_max_ttl ceiling
       \<and> (\<forall>(n, cur) \<in> set (constraint_money (cg_constraints guardrail)). 0 < n \<longrightarrow>
            (\<exists>l. dg_financial_limit_minor g = Some l \<and> n \<le> l \<and> l \<le> cs_max_financial_limit_minor ceiling
               \<and> dg_currency g = cur \<and> (cs_currency ceiling = None \<or> cs_currency ceiling = cur)))"
    if part: "part \<in> set parts" for part
  proof -
    from allowed part obtain c where c: "c \<in> set ?caps" "part_allowed policy reg contract c part"
      by (induction rule: list_all2_induct) auto
    let ?ceiling = "cp_ceiling part"
    have "min_of (au_max_ttl policy) (map (cs_max_ttl \<circ> cp_ceiling) parts) \<le> cs_max_ttl ?ceiling"
      using part by (intro min_of_le) simp
    with expiry(1) have ttl: "dg_expires_at g \<le> moment + cs_max_ttl ?ceiling" by simp
    have calls: "dg_effect_call_limit g \<le> cs_max_effect_calls ?ceiling"
      unfolding g using raw(2) part by (simp add: min_of_le)
    from c(2) obtain guardrail ev where part_facts:
      "map_of (au_capabilities policy) (snd c) = Some ?ceiling" "cs_enabled ?ceiling"
      "set (profiles (ec_profile_scope contract)) \<subseteq> set (cs_allowed_profiles ?ceiling)"
      "guardrail_of contract (fst c) = Inr guardrail" "as_capability (cp_scope part) = snd c"
      "as_constraints (cp_scope part) = cg_constraints guardrail"
      "cp_money part = constraint_money (cg_constraints guardrail) @ owner_money ev ?ceiling"
      "set (cp_money_ceilings part) = (if \<exists>(n, _) \<in> set (cp_money part). 0 < n then {?ceiling} else {})"
      by (auto simp: part_allowed_def)
    have "\<exists>l. dg_financial_limit_minor g = Some l \<and> n \<le> l \<and> l \<le> cs_max_financial_limit_minor ?ceiling
        \<and> dg_currency g = cur \<and> (cs_currency ?ceiling = None \<or> cs_currency ?ceiling = cur)"
      if "(n, cur) \<in> set (constraint_money (cg_constraints guardrail))" "0 < n" for n cur
    proof -
      have "(n, cur) \<in> set (cp_money part)" using that(1) part_facts(7) by simp
      moreover from this that(2) have "?ceiling \<in> set (cp_money_ceilings part)" unfolding part_facts(8) by auto
      ultimately show ?thesis using money_limit_bounds [OF money part _ that(2)] raw by (auto simp: g)
    qed
    with part_facts(1-6) c(1) ttl calls show ?thesis
      by (intro exI [of _ "fst c"] exI [of _ ?ceiling] exI [of _ guardrail]) auto
  qed
  have "grant_rows db' = grant_rows db @ [g]"
    using stored by (auto simp: authority_issue_def issue_impl_def op_ok grants.insert_ok
        dest!: silent_bind_ok [OF silent_grant_label] append_plain_ok)
  moreover have "dg_effect_call_limit g \<le> ec_effect_calls contract" "dg_effect_call_limit g \<le> au_max_effect_calls policy"
    using raw(2) by (simp_all add: g min_of_le)
  moreover have "dg_expires_at g \<le> moment + au_max_ttl policy"
    using expiry(1) min_of_le(1) [of "au_max_ttl policy"] by (meson add_left_mono order_trans)
  ultimately show ?thesis
    using f raw scopes expiry(2) each by (simp add: g)
qed

definition policy0 :: authority_settings where
  "policy0 = \<lparr>au_enabled = True, au_allowed_principals = [''p''], au_max_ttl = 1000, au_max_effect_calls = 3,
     au_capabilities = [(''shop'', \<lparr>cs_enabled = True, cs_max_effect_calls = 2, cs_max_ttl = 100,
       cs_max_financial_limit_minor = 500, cs_currency = Some ''EUR'', cs_allowed_profiles = [''shared'']\<rparr>)]\<rparr>"

definition contract0 :: execution_contract where
  "contract0 = \<lparr>ec_id = dg_contract_id grant0, ec_digest = dg_contract_digest grant0, ec_task_id = dg_task_id grant0,
     ec_task_revision = 1, ec_profile_scope = grant_scope0, ec_principal_id = ''p'',
     ec_source_conversation_id = gs_conversation_id source0,
     ec_source_message_ids = [gs_inbound_message_id source0],
     ec_capabilities = [\<lparr>rc_id = ''market.shop'', rc_authority_capability = Some ''shop''\<rparr>],
     ec_tool_ids = [''buy''], ec_effect_calls = 5,
     ec_guardrails = [\<lparr>cg_capability_id = ''market.shop'', cg_schema_id = ''shop.v1'', cg_schema_version = 1,
       cg_constraints = JObj [(''max_amount_minor'', JInt 300), (''currency'', JStr ''EUR'')],
       cg_summary = ''buy milk''\<rparr>],
     ec_confirmations = [], ec_expires_at = None\<rparr>"

theorem compiled_grant_within_ceilings_witness:
  "\<exists>db' g. compile_authority 1 1 (replicate 32 (CHR ''0'')) (replicate 64 (CHR ''0'')) policy0 shop_registry contract0
      source0 empty_authority = (db', Inr (Some g))
    \<and> dg_effect_call_limit g \<le> 5 \<and> dg_expires_at g \<le> 1001 \<and> grant_rows db' = [g]"
proof -
  let ?run = "compile_authority 1 1 (replicate 32 (CHR ''0'')) (replicate 64 (CHR ''0'')) policy0 shop_registry contract0
      source0 empty_authority"
  have "case snd ?run of Inr (Some _) \<Rightarrow> True | _ \<Rightarrow> False" by code_simp
  then obtain db' g where run: "?run = (db', Inr (Some g))"
    by (cases ?run) (auto split: sum.splits option.splits)
  from compiled_grant_within_ceilings [OF run] run show ?thesis
    by (intro exI [of _ db'] exI [of _ g]) (simp add: contract0_def policy0_def empty_authority_def)
qed

end
