(* ===== verification/Workflow_Values.thy ===== *)
theory Workflow_Values
  imports Text_Prelude
begin

text \<open>
  Value expressions of workflows and their resolution (\<open>ricky/workflows/values.py\<close>).  A context is the
  JSON object that the code reads references from; an object holds each key once.
\<close>

section \<open>JSON values as Python sees them\<close>

text \<open>Equality of Python: \<open>True == 1\<close>, and the order of keys does not matter.\<close>

fun py_eq :: "json \<Rightarrow> json \<Rightarrow> bool" where
  "py_eq JNull v = (v = JNull)"
| "py_eq (JStr s) v = (v = JStr s)"
| "py_eq (JBool b) v = (case v of JBool c \<Rightarrow> b = c | JInt i \<Rightarrow> i = (if b then 1 else 0) | _ \<Rightarrow> False)"
| "py_eq (JInt i) v = (case v of JInt j \<Rightarrow> i = j | JBool b \<Rightarrow> i = (if b then 1 else 0) | _ \<Rightarrow> False)"
| "py_eq (JArr xs) v = (case v of JArr ys \<Rightarrow> list_all2 py_eq xs ys | _ \<Rightarrow> False)"
| "py_eq (JObj xs) v = (case v of
     JObj ys \<Rightarrow> length xs = length ys
       \<and> list_all (\<lambda>(k, x). case map_of ys k of None \<Rightarrow> False | Some y \<Rightarrow> py_eq x y) xs
   | _ \<Rightarrow> False)"

text \<open>\<open>json.dumps(..., ensure_ascii=False, sort_keys=True, separators=(",", ":"))\<close>\<close>

definition json_escape_raw :: "char \<Rightarrow> string" where
  "json_escape_raw c = (if code c < 32 \<or> code c = 34 \<or> code c = 92 then json_escape c else [c])"

definition json_quote_raw :: "string \<Rightarrow> string" where
  "json_quote_raw s = [CHR 0x22] @ concat (map json_escape_raw s) @ [CHR 0x22]"

fun json_compact :: "json \<Rightarrow> string" where
  "json_compact (JStr s) = json_quote_raw s"
| "json_compact (JArr xs) = ''['' @ join '','' (map json_compact xs) @ '']''"
| "json_compact (JObj kvs) =
     ''{'' @ join '','' (map (\<lambda>(k, t). json_quote_raw k @ '':'' @ t)
       (sort_key fst (map (\<lambda>(k, v). (k, json_compact v)) kvs))) @ ''}''"
| "json_compact v = json_dumps v"

definition json_character_count :: "json \<Rightarrow> nat" where
  "json_character_count v = length (json_compact v)"

definition format_value :: "json \<Rightarrow> string" where
  "format_value v = (case v of JStr s \<Rightarrow> s | _ \<Rightarrow> json_compact v)"

section \<open>Format strings\<close>

text \<open>
  \<open>string.Formatter().parse\<close>: literal text with doubled braces, and fields.  Only plain named fields
  are accepted, so that a format specification or a conversion is an error here as it is there.
\<close>

definition name_start :: "char \<Rightarrow> bool" where
  "name_start c \<longleftrightarrow> c = CHR ''_'' \<or> (CHR ''a'' \<le> c \<and> c \<le> CHR ''z'') \<or> (CHR ''A'' \<le> c \<and> c \<le> CHR ''Z'')"

definition ascii_digit :: "char \<Rightarrow> bool" where
  "ascii_digit c \<longleftrightarrow> CHR ''0'' \<le> c \<and> c \<le> CHR ''9''"

definition format_field_re :: "string \<Rightarrow> bool" where
  "format_field_re s = (case s of [] \<Rightarrow> False
     | c # cs \<Rightarrow> name_start c \<and> list_all (\<lambda>c. name_start c \<or> ascii_digit c) cs)"

datatype format_piece = Literal_Text char | Format_Field string

definition parse_field :: "string \<Rightarrow> string checked" where
  "parse_field body = (case py_partition (CHR '':'') body of (name, _, spec) \<Rightarrow>
     andthen (require (format_field_re name)
       ''format fields must be simple named fields without attribute access'') (\<lambda>_.
     andthen (require (spec = []) ''format specs and conversions are not supported'') (\<lambda>_. Inr name)))"

function parse_format :: "string \<Rightarrow> format_piece list checked" where
  "parse_format s = (case s of
     [] \<Rightarrow> Inr []
   | c # cs \<Rightarrow>
       if c = CHR ''{'' then
         (case cs of
            [] \<Rightarrow> Inl ''Single '{' encountered in format string''
          | d # ds \<Rightarrow>
              if d = CHR ''{'' then andthen (parse_format ds) (\<lambda>ps. Inr (Literal_Text c # ps))
              else (case py_partition (CHR ''}'') cs of (body, found, rest) \<Rightarrow>
                andthen (require found ''expected '}' before end of string'') (\<lambda>_.
                andthen (parse_field body) (\<lambda>name.
                andthen (parse_format rest) (\<lambda>ps. Inr (Format_Field name # ps))))))
       else if c = CHR ''}'' then
         (case cs of
            [] \<Rightarrow> Inl ''Single '}' encountered in format string''
          | d # ds \<Rightarrow>
              if d = CHR ''}'' then andthen (parse_format ds) (\<lambda>ps. Inr (Literal_Text c # ps))
              else Inl ''Single '}' encountered in format string'')
       else andthen (parse_format cs) (\<lambda>ps. Inr (Literal_Text c # ps)))"
  by pat_completeness auto

lemma partition_shorter: "(a, b, r) = py_partition c s \<Longrightarrow> length r \<le> length s"
  using length_dropWhile_le [of "\<lambda>d. d \<noteq> c" s] by (auto simp: py_partition_def Let_def)

termination parse_format
  by (relation "measure length") (auto dest: partition_shorter)

declare parse_format.simps [simp del]

definition format_fields :: "format_piece list \<Rightarrow> string list" where
  "format_fields ps = List.map_filter (\<lambda>p. case p of Format_Field n \<Rightarrow> Some n | _ \<Rightarrow> None) ps"

definition render_format :: "format_piece list \<Rightarrow> (string \<times> string) list \<Rightarrow> string" where
  "render_format ps rendered = concat (map (\<lambda>p. case p of Literal_Text c \<Rightarrow> [c]
     | Format_Field n \<Rightarrow> (case map_of rendered n of None \<Rightarrow> [] | Some t \<Rightarrow> t)) ps)"

section \<open>Expressions\<close>

datatype value_expr =
    Literal_Expr json
  | Reference_Expr string
  | Format_Expr string "(string \<times> value_expr) list"
  | List_Expr "value_expr list"
  | Object_Expr "(string \<times> value_expr) list"

definition reference_char :: "char \<Rightarrow> bool" where
  "reference_char c \<longleftrightarrow> name_start c \<or> ascii_digit c \<or> c = CHR ''-''"

definition reference_re :: "string \<Rightarrow> bool" where
  "reference_re s = (case split_on (\<lambda>c. c = CHR ''.'') s of
     root # parts \<Rightarrow> root \<in> {''trigger'', ''steps'', ''item''} \<and> parts \<noteq> []
       \<and> list_all (\<lambda>w. w \<noteq> [] \<and> list_all reference_char w) parts
   | [] \<Rightarrow> False)"

definition parse_reference :: "string \<Rightarrow> string list checked" where
  "parse_reference s = andthen (require (reference_re s) (''invalid workflow reference: '' @ s))
     (\<lambda>_. Inr (split_on (\<lambda>c. c = CHR ''.'') s))"

text \<open>\<open>FormatExpr._validate_fields\<close>\<close>

definition make_format :: "string \<Rightarrow> (string \<times> value_expr) list \<Rightarrow> value_expr checked" where
  "make_format text values =
     andthen (parse_format text) (\<lambda>ps.
     andthen (require (set (format_fields ps) \<subseteq> fst ` set values)
       ''formatted string is missing value(s)'') (\<lambda>_.
     andthen (require (fst ` set values \<subseteq> set (format_fields ps))
       ''formatted string has unused value(s)'') (\<lambda>_.
     Inr (Format_Expr text values))))"

definition make_reference :: "json \<Rightarrow> value_expr checked" where
  "make_reference v = (case v of
     JStr s \<Rightarrow> andthen (require (reference_re s) ''string should match the reference pattern'') (\<lambda>_.
       Inr (Reference_Expr s))
   | _ \<Rightarrow> Inl ''reference should be a string'')"

section \<open>The author's form\<close>

text \<open>
  \<open>ValueExpr._from_author_value\<close>: what an author writes in TOML.  A dictionary with a known \<open>kind\<close> is
  the canonical form of an expression; a list or a dictionary as \<open>kind\<close> is not hashable, so that the
  membership test raises.
\<close>

datatype author_form =
    As_Literal json
  | As_Reference json
  | As_Format json "(string \<times> json) list"
  | As_List "json list"
  | As_Object "(string \<times> json) list"
  | Malformed string

definition only_keys :: "(string \<times> json) list \<Rightarrow> string list \<Rightarrow> bool" where
  "only_keys kvs ks \<longleftrightarrow> fst ` set kvs \<subseteq> set ks"

definition object_field :: "(string \<times> json) list \<Rightarrow> string \<Rightarrow> ((string \<times> json) list \<Rightarrow> author_form) \<Rightarrow> author_form" where
  "object_field kvs k f = (case map_of kvs k of Some (JObj m) \<Rightarrow> f m
     | _ \<Rightarrow> Malformed ''a dictionary is required'')"

definition canonical_form :: "string \<Rightarrow> (string \<times> json) list \<Rightarrow> author_form" where
  "canonical_form kind kvs =
     (if kind = ''literal'' then
        (case map_of kvs ''value'' of
           Some v \<Rightarrow> if only_keys kvs [''kind'', ''value''] then As_Literal v
             else Malformed ''extra inputs are not permitted''
         | None \<Rightarrow> Malformed ''field required'')
      else if kind = ''reference'' then
        (case map_of kvs ''ref'' of
           Some v \<Rightarrow> if only_keys kvs [''kind'', ''ref''] then As_Reference v
             else Malformed ''extra inputs are not permitted''
         | None \<Rightarrow> Malformed ''field required'')
      else if kind = ''format'' then
        (if \<not> only_keys kvs [''kind'', ''format'', ''values''] then Malformed ''extra inputs are not permitted''
         else case map_of kvs ''format'' of
           None \<Rightarrow> Malformed ''field required''
         | Some t \<Rightarrow> if map_of kvs ''values'' = None then As_Format t [] else object_field kvs ''values'' (As_Format t))
      else if \<not> only_keys kvs [''kind'', ''values''] then Malformed ''extra inputs are not permitted''
      else if kind = ''list'' then
        (case map_of kvs ''values'' of Some (JArr xs) \<Rightarrow> As_List xs | _ \<Rightarrow> Malformed ''a list is required'')
      else object_field kvs ''values'' As_Object)"

definition known_kind :: "json option \<Rightarrow> string option" where
  "known_kind v = (case v of
     Some (JStr k) \<Rightarrow> if k \<in> {''literal'', ''reference'', ''format'', ''list'', ''object''} then Some k else None
   | _ \<Rightarrow> None)"

definition unhashable :: "json option \<Rightarrow> bool" where
  "unhashable v = (case v of Some (JArr _) \<Rightarrow> True | Some (JObj _) \<Rightarrow> True | _ \<Rightarrow> False)"

definition plain_form :: "(string \<times> json) list \<Rightarrow> author_form" where
  "plain_form kvs =
     (if fst ` set kvs = {''ref''} then
        (case map_of kvs ''ref'' of Some v \<Rightarrow> As_Reference v | None \<Rightarrow> Malformed ''field required'')
      else if fst ` set kvs = {''format'', ''values''} then
        (case map_of kvs ''format'' of Some t \<Rightarrow> object_field kvs ''values'' (As_Format t)
         | None \<Rightarrow> Malformed ''field required'')
      else As_Object kvs)"

definition object_form :: "(string \<times> json) list \<Rightarrow> author_form" where
  "object_form kvs =
     (if unhashable (map_of kvs ''kind'') then Malformed ''TypeError: unhashable type''
      else case known_kind (map_of kvs ''kind'') of Some k \<Rightarrow> canonical_form k kvs | None \<Rightarrow> plain_form kvs)"

definition unwrap_root :: "json \<Rightarrow> json" where
  "unwrap_root v = (case v of JObj [(k, w)] \<Rightarrow> if k = ''root'' then w else v | _ \<Rightarrow> v)"

definition author_form :: "json \<Rightarrow> author_form" where
  "author_form v = (case unwrap_root v of
     JArr xs \<Rightarrow> As_List xs | JObj kvs \<Rightarrow> object_form kvs | w \<Rightarrow> As_Literal w)"

text \<open>The parts of a form are smaller than the value it was read from.\<close>

lemma map_of_smaller: "map_of kvs k = Some v \<Longrightarrow> size v < size (JObj kvs)"
  using map_of_SomeD [of kvs k v] by (induction kvs) (auto split: if_splits)

lemma member_smaller: "x \<in> set xs \<Longrightarrow> size x < size (JArr xs)"
  by (induction xs) auto

lemma pair_smaller: "(k, v) \<in> set kvs \<Longrightarrow> size v < size (JObj kvs)"
  by (induction kvs) auto

lemma unwrap_smaller: "size (unwrap_root v) \<le> size v"
  by (auto simp: unwrap_root_def split: json.splits list.splits)

definition form_parts :: "author_form \<Rightarrow> json list" where
  "form_parts f = (case f of As_Format _ m \<Rightarrow> map snd m | As_List xs \<Rightarrow> xs | As_Object m \<Rightarrow> map snd m | _ \<Rightarrow> [])"

definition parts_below :: "json \<Rightarrow> author_form \<Rightarrow> bool" where
  "parts_below v f \<longleftrightarrow> (\<forall>w \<in> set (form_parts f). size w < size v)"

lemma parts_below_simps [simp]:
  "parts_below v (As_Literal w)" "parts_below v (As_Reference w)" "parts_below v (Malformed err)"
  "parts_below v (As_List xs) \<longleftrightarrow> (\<forall>w \<in> set xs. size w < size v)"
  "parts_below v (As_Format t m) \<longleftrightarrow> (\<forall>(k, w) \<in> set m. size w < size v)"
  "parts_below v (As_Object m) \<longleftrightarrow> (\<forall>(k, w) \<in> set m. size w < size v)"
  by (auto simp: parts_below_def form_parts_def)

lemma nested_smaller:
  "map_of kvs k = Some (JArr xs) \<Longrightarrow> w \<in> set xs \<Longrightarrow> size w < size (JObj kvs)"
  "map_of kvs k = Some (JObj m) \<Longrightarrow> (k', w) \<in> set m \<Longrightarrow> size w < size (JObj kvs)"
  using less_trans [OF member_smaller map_of_smaller] less_trans [OF pair_smaller map_of_smaller] by blast+

lemma object_field_parts:
  assumes "\<And>m. map_of kvs k = Some (JObj m) \<Longrightarrow> parts_below v (f m)"
  shows "parts_below v (object_field kvs k f)"
  using assms by (simp add: object_field_def split: option.split json.split)

lemma values_field_parts:
  "parts_below (JObj kvs) (object_field kvs ''values'' (As_Format t))"
  "parts_below (JObj kvs) (object_field kvs ''values'' As_Object)"
  using nested_smaller(2) [of kvs "''values''"] by (auto intro!: object_field_parts simp del: json.size)

lemma canonical_parts: "parts_below (JObj kvs) (canonical_form k kvs)"
proof -
  have "parts_below (JObj kvs) (case map_of kvs ''values'' of Some (JArr xs) \<Rightarrow> As_List xs
      | _ \<Rightarrow> Malformed ''a list is required'')"
    using nested_smaller(1) [of kvs "''values''"] by (auto split: option.split json.split simp del: json.size)
  then show ?thesis by (simp add: canonical_form_def values_field_parts split: option.split)
qed

lemma object_form_parts: "parts_below (JObj kvs) (object_form kvs)"
proof -
  have "parts_below (JObj kvs) (As_Object kvs)" using pair_smaller by (auto simp del: json.size)
  then have "parts_below (JObj kvs) (plain_form kvs)"
    by (simp add: plain_form_def values_field_parts split: option.split del: parts_below_simps(6))
  then show ?thesis by (simp add: object_form_def canonical_parts split: option.split)
qed

lemma form_parts_smaller: "parts_below v (author_form v)"
proof -
  have "parts_below (unwrap_root v) (author_form v)"
    using member_smaller object_form_parts by (auto simp: author_form_def simp del: json.size split: json.split)
  with unwrap_smaller [of v] show ?thesis by (auto simp: parts_below_def)
qed

lemma collect_cong [fundef_cong]: "xs = ys \<Longrightarrow> (\<And>x. x \<in> set ys \<Longrightarrow> f x = g x) \<Longrightarrow> collect f xs = collect g ys"
proof (induction xs arbitrary: ys)
  case (Cons x xs)
  then show ?case by (auto simp: andthen_def split: sum.split)
qed simp

text \<open>A named value: the name with the expression of the value.\<close>

definition named :: "string \<Rightarrow> 'a checked \<Rightarrow> (string \<times> 'a) checked" where
  "named k r = (case r of Inl m \<Rightarrow> Inl m | Inr x \<Rightarrow> Inr (k, x))"

lemma named_Inr: "named k r = Inr p \<longleftrightarrow> (\<exists>x. r = Inr x \<and> p = (k, x))"
  by (auto simp: named_def split: sum.splits)

function from_author :: "json \<Rightarrow> value_expr checked" where
  "from_author v = (case author_form v of
     Malformed m \<Rightarrow> Inl m
   | As_Literal w \<Rightarrow> Inr (Literal_Expr w)
   | As_Reference w \<Rightarrow> make_reference w
   | As_Format t m \<Rightarrow> (case t of
       JStr s \<Rightarrow> andthen (collect (\<lambda>(k, w). named k (from_author w)) m) (make_format s)
     | _ \<Rightarrow> Inl ''format should be a string'')
   | As_List xs \<Rightarrow> andthen (collect from_author xs) (\<lambda>es. Inr (List_Expr es))
   | As_Object m \<Rightarrow> andthen (collect (\<lambda>(k, w). named k (from_author w)) m) (\<lambda>kes. Inr (Object_Expr kes)))"
  by pat_completeness auto

lemma form_cases_smaller:
  "author_form v = As_Format t m \<Longrightarrow> (k, w) \<in> set m \<Longrightarrow> size w < size v"
  "author_form v = As_List xs \<Longrightarrow> w \<in> set xs \<Longrightarrow> size w < size v"
  "author_form v = As_Object m \<Longrightarrow> (k, w) \<in> set m \<Longrightarrow> size w < size v"
  using form_parts_smaller [of v] by auto

termination from_author
  by (relation "measure size") (auto dest: form_cases_smaller)

declare from_author.simps [simp del]

text \<open>\<open>ValueExpr._to_author_value\<close>\<close>

fun to_author :: "value_expr \<Rightarrow> json" where
  "to_author (Literal_Expr v) = v"
| "to_author (Reference_Expr r) = JObj [(''ref'', JStr r)]"
| "to_author (Format_Expr t values) =
     JObj [(''format'', JStr t), (''values'', JObj (map (\<lambda>(k, e). (k, to_author e)) values))]"
| "to_author (List_Expr es) = JArr (map to_author es)"
| "to_author (Object_Expr kes) = JObj (map (\<lambda>(k, e). (k, to_author e)) kes)"

section \<open>References and resolution\<close>

fun iter_references :: "value_expr \<Rightarrow> string list" where
  "iter_references (Literal_Expr v) = []"
| "iter_references (Reference_Expr r) = [r]"
| "iter_references (Format_Expr t values) = concat (map (\<lambda>(k, e). iter_references e) values)"
| "iter_references (List_Expr es) = concat (map iter_references es)"
| "iter_references (Object_Expr kes) = concat (map (\<lambda>(k, e). iter_references e) kes)"

fun walk_path :: "json \<Rightarrow> string list \<Rightarrow> json checked" where
  "walk_path v [] = Inr v"
| "walk_path v (part # parts) = (case v of
     JObj kvs \<Rightarrow> (case map_of kvs part of
         None \<Rightarrow> Inl ''reference is missing'' | Some w \<Rightarrow> walk_path w parts)
   | _ \<Rightarrow> Inl ''reference is missing'')"

definition resolve_reference :: "string \<Rightarrow> json \<Rightarrow> json checked" where
  "resolve_reference r context = andthen (parse_reference r) (walk_path context)"

fun resolve_value :: "value_expr \<Rightarrow> json \<Rightarrow> json checked" where
  "resolve_value (Literal_Expr v) context = Inr v"
| "resolve_value (Reference_Expr r) context = resolve_reference r context"
| "resolve_value (Format_Expr t values) context =
     andthen (collect (\<lambda>(k, e). named k (andthen (resolve_value e context) (\<lambda>v. Inr (format_value v)))) values)
       (\<lambda>rendered. andthen (parse_format t) (\<lambda>ps. Inr (JStr (render_format ps rendered))))"
| "resolve_value (List_Expr es) context =
     andthen (collect (\<lambda>e. resolve_value e context) es) (\<lambda>vs. Inr (JArr vs))"
| "resolve_value (Object_Expr kes) context =
     andthen (collect (\<lambda>(k, e). named k (resolve_value e context)) kes) (\<lambda>kvs. Inr (JObj kvs))"

definition resolve_mapping :: "(string \<times> value_expr) list \<Rightarrow> json \<Rightarrow> json checked" where
  "resolve_mapping values context = resolve_value (Object_Expr values) context"

end
