(* ===== verification/Workflow_Types.thy ===== *)
theory Workflow_Types
  imports Workflow_Values
begin

text \<open>
  What an author declares: result schemas (\<open>ricky/workflows/schema.py\<close>), arguments, conditions and steps
  (\<open>ricky/workflows/spec.py\<close>), with the validators of the fields.  Numbers are integers.
\<close>

section \<open>Result schemas\<close>

datatype schema_type = S_Object | S_Array | S_String | S_Integer | S_Number | S_Boolean

datatype result_schema = Result_Schema
  (rs_type: schema_type)
  (rs_nullable: bool)
  (rs_required: "string list")
  (rs_properties: "(string \<times> result_schema) list")
  (rs_items: "result_schema option")
  (rs_values: "string list option")
  (rs_minimum: "int option")
  (rs_maximum: "int option")
  (rs_min_length: "nat option")
  (rs_max_length: "nat option")

definition both_le :: "'a :: linorder option \<Rightarrow> 'a option \<Rightarrow> bool" where
  "both_le a b = (case (a, b) of (Some x, Some y) \<Rightarrow> x \<le> y | _ \<Rightarrow> True)"

text \<open>\<open>ResultSchema._validate_shape\<close>\<close>

definition validate_shape :: "result_schema \<Rightarrow> unit checked" where
  "validate_shape s =
     andthen (if rs_type s = S_Object
       then require (set (rs_required s) \<subseteq> fst ` set (rs_properties s))
         ''required property names are not declared''
       else require (rs_required s = [] \<and> rs_properties s = [])
         ''required and properties are valid only for object schemas'') (\<lambda>_.
     andthen (require (rs_type s = S_Array \<longrightarrow> rs_items s \<noteq> None) ''an array schema requires items'') (\<lambda>_.
     andthen (require (rs_items s \<noteq> None \<longrightarrow> rs_type s = S_Array) ''items is valid only for array schemas'') (\<lambda>_.
     andthen (require (rs_values s \<noteq> None \<longrightarrow> rs_type s = S_String) ''values is valid only for string schemas'') (\<lambda>_.
     andthen (require (case rs_values s of None \<Rightarrow> True | Some vs \<Rightarrow> distinct vs) ''schema values must be unique'') (\<lambda>_.
     andthen (require (rs_minimum s = None \<and> rs_maximum s = None \<or> rs_type s \<in> {S_Integer, S_Number})
       ''minimum and maximum are valid only for numeric schemas'') (\<lambda>_.
     andthen (require (both_le (rs_minimum s) (rs_maximum s)) ''minimum cannot exceed maximum'') (\<lambda>_.
     andthen (require (rs_min_length s = None \<and> rs_max_length s = None \<or> rs_type s \<in> {S_String, S_Array})
       ''length constraints are valid only for string and array schemas'') (\<lambda>_.
       require (both_le (rs_min_length s) (rs_max_length s)) ''min_length cannot exceed max_length''))))))))"

text \<open>Pydantic validates the nested schemas first.\<close>

fun make_schema :: "result_schema \<Rightarrow> unit checked" where
  "make_schema (Result_Schema t n r props items v a b c d) =
     andthen (collect (\<lambda>(k, s). make_schema s) props) (\<lambda>_.
     andthen (case items of None \<Rightarrow> Inr () | Some s \<Rightarrow> make_schema s) (\<lambda>_.
       validate_shape (Result_Schema t n r props items v a b c d)))"

fun visit_depth :: "nat \<Rightarrow> nat \<Rightarrow> result_schema \<Rightarrow> unit checked" where
  "visit_depth max_depth depth (Result_Schema t n r props items v a b c d) =
     andthen (require (depth \<le> max_depth) ''result schema depth exceeds configured maximum'') (\<lambda>_.
     andthen (collect (\<lambda>(k, s). visit_depth max_depth (Suc depth) s) props) (\<lambda>_.
       case items of None \<Rightarrow> Inr () | Some s \<Rightarrow> visit_depth max_depth (Suc depth) s))"

definition validate_schema_depth :: "nat \<Rightarrow> result_schema \<Rightarrow> unit checked" where
  "validate_schema_depth max_depth s = visit_depth max_depth 1 s"

definition check_length :: "nat option \<Rightarrow> nat option \<Rightarrow> string \<Rightarrow> nat \<Rightarrow> unit checked" where
  "check_length low high path n =
     andthen (require (case low of None \<Rightarrow> True | Some m \<Rightarrow> m \<le> n) (path @ '': length is less than the minimum'')) (\<lambda>_.
       require (case high of None \<Rightarrow> True | Some m \<Rightarrow> n \<le> m) (path @ '': length exceeds the maximum''))"

definition check_number :: "int option \<Rightarrow> int option \<Rightarrow> string \<Rightarrow> int \<Rightarrow> unit checked" where
  "check_number low high path n =
     andthen (require (case low of None \<Rightarrow> True | Some m \<Rightarrow> m \<le> n) (path @ '': value is less than the minimum'')) (\<lambda>_.
       require (case high of None \<Rightarrow> True | Some m \<Rightarrow> n \<le> m) (path @ '': value exceeds the maximum''))"

fun validate_node :: "string \<Rightarrow> result_schema \<Rightarrow> json \<Rightarrow> unit checked" where
  "validate_node path (Result_Schema t nullable required props items vals low high minl maxl) v =
     (if v = JNull then require nullable (path @ '': null is not allowed'')
      else case t of
        S_Object \<Rightarrow> (case v of
            JObj kvs \<Rightarrow>
              andthen (require (set required \<subseteq> fst ` set kvs) (path @ '': missing required field(s)'')) (\<lambda>_.
              andthen (require (fst ` set kvs \<subseteq> fst ` set props) (path @ '': extra field(s) are forbidden'')) (\<lambda>_.
              andthen (collect (\<lambda>(k, s). case map_of kvs k of None \<Rightarrow> Inr ()
                  | Some w \<Rightarrow> validate_node (path @ ''.'' @ k) s w) props) (\<lambda>_. Inr ())))
          | _ \<Rightarrow> Inl (path @ '': expected object''))
      | S_Array \<Rightarrow> (case v of
            JArr xs \<Rightarrow>
              andthen (check_length minl maxl path (length xs)) (\<lambda>_.
              case items of None \<Rightarrow> Inl ''AssertionError''
              | Some s \<Rightarrow> andthen (collect (\<lambda>(i, x). validate_node (path @ ''['' @ show_nat i @ '']'') s x)
                  (List.enumerate 0 xs)) (\<lambda>_. Inr ()))
          | _ \<Rightarrow> Inl (path @ '': expected array''))
      | S_String \<Rightarrow> (case v of
            JStr x \<Rightarrow>
              andthen (check_length minl maxl path (length x)) (\<lambda>_.
                require (case vals of None \<Rightarrow> True | Some vs \<Rightarrow> x \<in> set vs) (path @ '': expected one of the values''))
          | _ \<Rightarrow> Inl (path @ '': expected string''))
      | S_Boolean \<Rightarrow> (case v of JBool _ \<Rightarrow> Inr () | _ \<Rightarrow> Inl (path @ '': expected boolean''))
      | S_Integer \<Rightarrow> (case v of JInt n \<Rightarrow> check_number low high path n | _ \<Rightarrow> Inl (path @ '': expected integer''))
      | S_Number \<Rightarrow> (case v of JInt n \<Rightarrow> check_number low high path n | _ \<Rightarrow> Inl (path @ '': expected number'')))"

definition validate_result :: "result_schema \<Rightarrow> json \<Rightarrow> json checked" where
  "validate_result s v = andthen (validate_node ''$'' s v) (\<lambda>_. Inr v)"

fun schema_type_at_path :: "result_schema \<Rightarrow> string list \<Rightarrow> result_schema option" where
  "schema_type_at_path s [] = Some s"
| "schema_type_at_path s (part # parts) =
     (if rs_type s \<noteq> S_Object then None
      else case map_of (rs_properties s) part of None \<Rightarrow> None | Some c \<Rightarrow> schema_type_at_path c parts)"

section \<open>Arguments of a workflow\<close>

datatype arg_type = A_String | A_Integer | A_Number | A_Boolean | A_String_List

record workflow_arg =
  wa_type :: arg_type
  wa_required :: bool
  wa_default :: json
  wa_minimum :: "int option"
  wa_maximum :: "int option"
  wa_min_length :: "nat option"
  wa_max_length :: "nat option"
  wa_values :: "string list option"

definition string_items :: "json list \<Rightarrow> string list option" where
  "string_items xs = (if list_all (\<lambda>x. case x of JStr _ \<Rightarrow> True | _ \<Rightarrow> False) xs
     then Some (List.map_filter (\<lambda>x. case x of JStr s \<Rightarrow> Some s | _ \<Rightarrow> None) xs) else None)"

definition validate_arg_value :: "workflow_arg \<Rightarrow> json \<Rightarrow> json checked" where
  "validate_arg_value a v =
     andthen (case wa_type a of
       A_String \<Rightarrow> (case v of
           JStr s \<Rightarrow> andthen (require (case wa_values a of None \<Rightarrow> True | Some vs \<Rightarrow> s \<in> set vs)
               ''arg must be one of the values'') (\<lambda>_. check_length (wa_min_length a) (wa_max_length a) ''arg'' (length s))
         | _ \<Rightarrow> Inl ''arg must be a string'')
     | A_Integer \<Rightarrow> (case v of
           JInt n \<Rightarrow> check_number (wa_minimum a) (wa_maximum a) ''arg'' n | _ \<Rightarrow> Inl ''arg must be an integer'')
     | A_Number \<Rightarrow> (case v of
           JInt n \<Rightarrow> check_number (wa_minimum a) (wa_maximum a) ''arg'' n | _ \<Rightarrow> Inl ''arg must be a number'')
     | A_Boolean \<Rightarrow> (case v of JBool _ \<Rightarrow> Inr () | _ \<Rightarrow> Inl ''arg must be a boolean'')
     | A_String_List \<Rightarrow> (case v of
           JArr xs \<Rightarrow> (case string_items xs of
               None \<Rightarrow> Inl ''arg must be a list of strings''
             | Some ss \<Rightarrow> andthen (require (case wa_values a of None \<Rightarrow> True | Some vs \<Rightarrow> set ss \<subseteq> set vs)
                 ''arg has disallowed value(s)'') (\<lambda>_. check_length (wa_min_length a) (wa_max_length a) ''arg'' (length ss)))
         | _ \<Rightarrow> Inl ''arg must be a list of strings'')) (\<lambda>_. Inr v)"

definition make_arg :: "workflow_arg \<Rightarrow> workflow_arg checked" where
  "make_arg a =
     andthen (require (\<not> (wa_required a \<and> wa_default a \<noteq> JNull)) ''a required arg cannot declare a default'') (\<lambda>_.
     andthen (require (wa_required a \<or> wa_default a \<noteq> JNull) ''an optional arg requires a default'') (\<lambda>_.
     andthen (require (both_le (wa_minimum a) (wa_maximum a)) ''min cannot exceed max'') (\<lambda>_.
     andthen (require (both_le (wa_min_length a) (wa_max_length a)) ''min_length cannot exceed max_length'') (\<lambda>_.
     andthen (require (wa_minimum a = None \<and> wa_maximum a = None \<or> wa_type a \<in> {A_Integer, A_Number})
       ''min and max are valid only for numeric args'') (\<lambda>_.
     andthen (require (wa_min_length a = None \<and> wa_max_length a = None \<or> wa_type a \<in> {A_String, A_String_List})
       ''length constraints are valid only for string and string_list args'') (\<lambda>_.
     andthen (require (wa_values a \<noteq> None \<longrightarrow> wa_type a \<in> {A_String, A_String_List})
       ''values is valid only for string and string_list args'') (\<lambda>_.
     andthen (require (case wa_values a of None \<Rightarrow> True | Some vs \<Rightarrow> distinct vs) ''arg values must be unique'') (\<lambda>_.
     andthen (if wa_default a \<noteq> JNull then validate_arg_value a (wa_default a) else Inr JNull) (\<lambda>_. Inr a)))))))))"

definition resolve_trigger_args :: "(string \<times> workflow_arg) list \<Rightarrow> (string \<times> json) list \<Rightarrow> json checked" where
  "resolve_trigger_args args provided =
     andthen (require (list_all (\<lambda>(n, a). wa_required a \<longrightarrow> n \<in> fst ` set provided) args
         \<and> fst ` set provided \<subseteq> fst ` set args) ''workflow cannot start: missing or unknown arg(s)'') (\<lambda>_.
     andthen (collect (\<lambda>(n, a). named n (validate_arg_value a
         (case map_of provided n of None \<Rightarrow> wa_default a | Some v \<Rightarrow> v))) args) (\<lambda>kvs. Inr (JObj kvs)))"

section \<open>Conditions\<close>

datatype condition_operator = Op_Equals | Op_Not_Equals | Op_In | Op_Exists | Op_Is_True | Op_Is_False

record condition =
  cd_ref :: string
  cd_operator :: condition_operator
  cd_value :: json

definition operator_name :: "condition_operator \<Rightarrow> string" where
  "operator_name o' = (case o' of Op_Equals \<Rightarrow> ''equals'' | Op_Not_Equals \<Rightarrow> ''not_equals'' | Op_In \<Rightarrow> ''in''
     | Op_Exists \<Rightarrow> ''exists'' | Op_Is_True \<Rightarrow> ''is_true'' | Op_Is_False \<Rightarrow> ''is_false'')"

definition make_condition :: "condition \<Rightarrow> condition checked" where
  "make_condition c =
     andthen (require (cd_operator c = Op_In \<longrightarrow> (case cd_value c of JArr _ \<Rightarrow> True | _ \<Rightarrow> False))
       ''an 'in' condition requires a literal list'') (\<lambda>_.
     andthen (require (cd_operator c \<in> {Op_Exists, Op_Is_True, Op_Is_False} \<longrightarrow> cd_value c = JNull)
       ''condition does not accept a value'') (\<lambda>_. Inr c))"

text \<open>The flat form of authors: \<open>{ref = ..., equals = ...}\<close>; other keys are ignored.\<close>

definition condition_of :: "(string \<times> json) list \<Rightarrow> condition checked" where
  "condition_of kvs =
     (case filter (\<lambda>o'. operator_name o' \<in> fst ` set kvs)
         [Op_Equals, Op_Not_Equals, Op_In, Op_Exists, Op_Is_True, Op_Is_False] of
       [o'] \<Rightarrow>
         (let operand = (case map_of kvs (operator_name o') of None \<Rightarrow> JNull | Some v \<Rightarrow> v) in
          andthen (require (o' \<in> {Op_Exists, Op_Is_True, Op_Is_False} \<longrightarrow> operand = JBool True)
            ''condition operator must be true'') (\<lambda>_.
          case map_of kvs ''ref'' of
            Some (JStr r) \<Rightarrow> make_condition \<lparr>cd_ref = r, cd_operator = o',
              cd_value = if o' \<in> {Op_Exists, Op_Is_True, Op_Is_False} then JNull else operand\<rparr>
          | _ \<Rightarrow> Inl ''ref should be a string''))
     | _ \<Rightarrow> Inl ''a condition requires exactly one operator'')"

section \<open>Steps\<close>

datatype dependency_policy = On_Success | On_Terminal
datatype on_error_policy = Fail_Workflow | Continue
datatype retry_category = Retry_Invalid_Output | Retry_Provider_Error | Retry_Timeout | Retry_Tool_Error

record retry_policy =
  rp_max_attempts :: nat
  rp_on :: "retry_category list"

definition make_retry :: "retry_policy \<Rightarrow> retry_policy checked" where
  "make_retry r =
     andthen (require (1 \<le> rp_max_attempts r) ''max_attempts must be at least 1'') (\<lambda>_.
     andthen (require (distinct (rp_on r)) ''retry categories must be unique'') (\<lambda>_.
     andthen (require (1 < rp_max_attempts r \<longrightarrow> rp_on r \<noteq> [])
       ''a retry with more than one attempt requires at least one category'') (\<lambda>_. Inr r)))"

type_synonym expr_map = "(string \<times> value_expr) list"

record model_task =
  mt_instruction :: "string option"
  mt_instruction_file :: "string option"
  mt_inputs :: expr_map
  mt_result_schema :: string
  mt_skill :: "string option"

record shell_check =
  sh_command :: string
  sh_expect_exit :: int

datatype workflow_check = Condition_Check condition | Shell_Check shell_check

datatype approval_mode = Confirm | Select
datatype item_error_policy = Item_Abort | Item_Collect

datatype step = Step
  (st_id: string)
  (st_needs: "string list")
  (st_policy: dependency_policy)
  (st_on_error: on_error_policy)
  (st_when: "condition option")
  (st_retry: retry_policy)
  (st_kind: step_kind)
and step_kind =
    Tool_Step string expr_map bool
  | Model_Step model_task
  | Agent_Step model_task "string list" "nat option"
  | Data_Step string expr_map
  | Check_Step workflow_check
  | Approval_Step approval_mode value_expr "value_expr option" "value_expr option" "value_expr option"
  | Message_Step value_expr
  | Foreach_Step value_expr value_expr expr_map "step list" "nat option" "nat option" item_error_policy

definition is_name :: "string \<Rightarrow> bool" where
  "is_name s = (case s of [] \<Rightarrow> False
     | c # cs \<Rightarrow> (ascii_digit c \<or> CHR ''a'' \<le> c \<and> c \<le> CHR ''z'') \<and> length cs \<le> 63
         \<and> list_all (\<lambda>c. ascii_digit c \<or> CHR ''a'' \<le> c \<and> c \<le> CHR ''z'' \<or> c = CHR ''_'' \<or> c = CHR ''-'') cs)"

definition make_model_task :: "model_task \<Rightarrow> unit checked" where
  "make_model_task m = require ((mt_instruction m = None) \<noteq> (mt_instruction_file m = None))
     ''declare exactly one of instruction or instruction_file''"

text \<open>The validators of one step; a loop needs a body, whose steps are validated as well.\<close>

definition optional_condition :: "condition option \<Rightarrow> unit checked" where
  "optional_condition c = (case c of None \<Rightarrow> Inr () | Some c \<Rightarrow> andthen (make_condition c) (\<lambda>_. Inr ()))"

fun make_step :: "step \<Rightarrow> unit checked" and make_kind :: "step_kind \<Rightarrow> unit checked" where
  "make_step (Step k needs policy on_error cond retry kind) =
     andthen (require (is_name k) ''id should match the name pattern'') (\<lambda>_.
     andthen (optional_condition cond) (\<lambda>_.
     andthen (make_retry retry) (\<lambda>_. make_kind kind)))"
| "make_kind (Check_Step (Condition_Check c)) = optional_condition (Some c)"
| "make_kind (Model_Step m) = make_model_task m"
| "make_kind (Agent_Step m tools iterations) =
     andthen (make_model_task m) (\<lambda>_. require (iterations \<noteq> Some 0) ''max_iterations must be at least 1'')"
| "make_kind (Approval_Step mode prompt proposal items key) = (case mode of
     Confirm \<Rightarrow> require (proposal \<noteq> None \<and> items = None \<and> key = None) ''confirm approval requires proposal only''
   | Select \<Rightarrow> require (items \<noteq> None \<and> key \<noteq> None \<and> proposal = None)
       ''select approval requires collection and item_key only'')"
| "make_kind (Foreach_Step items key outputs body max_items max_parallel err) =
     andthen (require (list_all (\<lambda>(n, _). is_name n) outputs) ''output names should match the name pattern'') (\<lambda>_.
     andthen (require (body \<noteq> []) ''body needs at least one step'') (\<lambda>_.
     andthen (require (max_items \<noteq> Some 0 \<and> max_parallel \<noteq> Some 0) ''limits must be at least 1'') (\<lambda>_.
     andthen (collect make_step body) (\<lambda>_. Inr ()))))"
| "make_kind kind = Inr ()"

record workflow_spec =
  wf_name :: string
  wf_args :: "(string \<times> workflow_arg) list"
  wf_schemas :: "(string \<times> result_schema) list"
  wf_steps :: "step list"
  wf_max_parallel_steps :: "nat option"

definition make_workflow_spec :: "workflow_spec \<Rightarrow> workflow_spec checked" where
  "make_workflow_spec spec =
     andthen (require (is_name (wf_name spec)) ''name should match the name pattern'') (\<lambda>_.
     andthen (collect (\<lambda>(n, a). make_arg a) (wf_args spec)) (\<lambda>_.
     andthen (collect (\<lambda>(n, s). make_schema s) (wf_schemas spec)) (\<lambda>_.
     andthen (require (wf_steps spec \<noteq> []) ''steps needs at least one step'') (\<lambda>_.
     andthen (collect make_step (wf_steps spec)) (\<lambda>_.
     andthen (require (wf_max_parallel_steps spec \<noteq> Some 0) ''max_parallel_steps must be at least 1'') (\<lambda>_.
       Inr spec))))))"

definition step_body :: "step \<Rightarrow> step list" where
  "step_body s = (case st_kind s of Foreach_Step _ _ _ body _ _ _ \<Rightarrow> body | _ \<Rightarrow> [])"

definition is_foreach :: "step \<Rightarrow> bool" where
  "is_foreach s = (case st_kind s of Foreach_Step _ _ _ _ _ _ _ \<Rightarrow> True | _ \<Rightarrow> False)"

definition iter_steps :: "step list \<Rightarrow> step list" where
  "iter_steps steps = concat (map (\<lambda>s. s # step_body s) steps)"

end
