(* ===== verification/Workflow_Graph.thy ===== *)
theory Workflow_Graph
  imports Workflow_Types
begin

text \<open>
  The walks over a graph of steps (\<open>ricky/workflows/compile.py\<close>).  A graph is the list of step ids
  with their dependencies, in document order; \<open>needs_of\<close> is the dictionary built from it, where the last
  step of an id counts.
\<close>

type_synonym step_graph = "(string \<times> string list) list"

definition graph_of :: "step list \<Rightarrow> step_graph" where
  "graph_of steps = map (\<lambda>s. (st_id s, st_needs s)) steps"

definition needs_of :: "step_graph \<Rightarrow> string \<Rightarrow> string list option" where
  "needs_of G k = map_of (rev G) k"

section \<open>Ancestors\<close>

text \<open>The list \<open>pending\<close> is a stack whose top is its end.\<close>

definition step_needs :: "step_graph \<Rightarrow> string \<Rightarrow> string list" where
  "step_needs G k = (case needs_of G k of None \<Rightarrow> [] | Some ns \<Rightarrow> ns)"

definition all_nodes :: "step_graph \<Rightarrow> string set" where
  "all_nodes G = fst ` set G \<union> \<Union> (set ` snd ` set G)"

lemma finite_nodes [simp]: "finite (all_nodes G)"
  by (auto simp: all_nodes_def)

lemma needs_in_graph: "needs_of G k = Some ns \<Longrightarrow> (k, ns) \<in> set G"
  unfolding needs_of_def using map_of_SomeD by fastforce

lemma needs_are_nodes: "set (step_needs G k) \<subseteq> all_nodes G"
proof (cases "needs_of G k")
  case (Some ns)
  then show ?thesis using needs_in_graph [OF Some] by (force simp: step_needs_def all_nodes_def)
qed (simp add: step_needs_def)

function collect_ancestors :: "step_graph \<Rightarrow> string list \<Rightarrow> string list \<Rightarrow> string list" where
  "collect_ancestors G found pending =
     (if pending = [] then found
      else if last pending \<in> set found then collect_ancestors G found (butlast pending)
      else collect_ancestors G (last pending # found) (butlast pending @ step_needs G (last pending)))"
  by pat_completeness auto

text \<open>Either a new node is found or the stack shrinks.\<close>

lemma ancestors_progress:
  assumes "pending \<noteq> []" and "last pending \<notin> set found"
  shows "card ((all_nodes G \<union> set (butlast pending @ step_needs G (last pending))) - set (last pending # found))
       < card ((all_nodes G \<union> set pending) - set found)"
proof (rule psubset_card_mono)
  show "finite ((all_nodes G \<union> set pending) - set found)" by simp
  have "last pending \<in> set pending" using assms(1) by simp
  then show "(all_nodes G \<union> set (butlast pending @ step_needs G (last pending))) - set (last pending # found)
      \<subset> (all_nodes G \<union> set pending) - set found"
    using assms(2) needs_are_nodes [of G "last pending"] in_set_butlastD [of _ pending] by auto
qed

lemma butlast_nodes: "card ((all_nodes G \<union> set (butlast pending)) - set found) \<le> card ((all_nodes G \<union> set pending) - set found)"
  by (rule card_mono) (auto dest: in_set_butlastD)

definition ancestors_order :: "((step_graph \<times> string list \<times> string list) \<times> step_graph \<times> string list \<times> string list) set" where
  "ancestors_order = measures [\<lambda>(G, found, pending). card ((all_nodes G \<union> set pending) - set found),
     \<lambda>(G, found, pending). length pending]"

termination collect_ancestors
proof (relation ancestors_order)
  show "wf ancestors_order" by (simp add: ancestors_order_def)
  fix G :: step_graph and found pending :: "string list"
  assume p: "pending \<noteq> []"
  then have shorter: "length (butlast pending) < length pending" by simp
  show "((G, found, butlast pending), G, found, pending) \<in> ancestors_order"
    using butlast_nodes [of G pending found] shorter by (simp only: ancestors_order_def in_measures prod.case simp_thms) linarith
  assume "last pending \<notin> set found"
  with p show "((G, last pending # found, butlast pending @ step_needs G (last pending)), G, found, pending) \<in> ancestors_order"
    using ancestors_progress [of pending found G] by (auto simp only: ancestors_order_def in_measures prod.case simp_thms)
qed

declare collect_ancestors.simps [simp del]

definition ancestors :: "step_graph \<Rightarrow> string \<Rightarrow> string list" where
  "ancestors G k = collect_ancestors G [] (step_needs G k)"

section \<open>Cycles\<close>

text \<open>
  The depth-first search of \<open>_cycle_nodes\<close>: \<open>colour\<close> is 0 for an unvisited step, 1 on the stack, 2 when
  done.  Its nested function recurses once per step on the stack; \<open>depth\<close> is what is left of the
  recursion depth, and the search needs at most as many levels as there are steps.
\<close>

type_synonym colouring = "string \<Rightarrow> nat"

datatype visit_result = Cycle "string list" | Visited colouring | Too_Deep

definition cut_cycle :: "string list \<Rightarrow> string \<Rightarrow> string list" where
  "cut_cycle path k = dropWhile (\<lambda>x. x \<noteq> k) path @ [k]"

fun visit :: "step_graph \<Rightarrow> nat \<Rightarrow> colouring \<Rightarrow> string list \<Rightarrow> string \<Rightarrow> visit_result"
  and visit_needs :: "step_graph \<Rightarrow> nat \<Rightarrow> colouring \<Rightarrow> string list \<Rightarrow> string list \<Rightarrow> visit_result"
  where
  "visit G 0 colour path k = Too_Deep"
| "visit G (Suc depth) colour path k =
     (case visit_needs G depth (colour(k := 1)) (path @ [k]) (step_needs G k) of
        Visited colour' \<Rightarrow> Visited (colour'(k := 2)) | r \<Rightarrow> r)"
| "visit_needs G depth colour path [] = Visited colour"
| "visit_needs G depth colour path (n # ns) =
     (if colour n = 1 then Cycle (cut_cycle path n)
      else if colour n = 0
      then (case visit G depth colour path n of Visited colour' \<Rightarrow> visit_needs G depth colour' path ns | r \<Rightarrow> r)
      else visit_needs G depth colour path ns)"

primrec search_cycle :: "step_graph \<Rightarrow> colouring \<Rightarrow> string list \<Rightarrow> visit_result" where
  "search_cycle G colour [] = Visited colour"
| "search_cycle G colour (k # ks) =
     (if colour k = 0
      then (case visit G (length G) colour [] k of Visited colour' \<Rightarrow> search_cycle G colour' ks | r \<Rightarrow> r)
      else search_cycle G colour ks)"

definition cycle_nodes :: "step_graph \<Rightarrow> string list" where
  "cycle_nodes G = (case search_cycle G (\<lambda>_. 0) (map fst G) of Cycle c \<Rightarrow> c | _ \<Rightarrow> [])"

section \<open>Reachability\<close>

definition dependents :: "step_graph \<Rightarrow> string \<Rightarrow> string list" where
  "dependents G k = concat (map (\<lambda>(s, ns). map (\<lambda>_. s) (filter (\<lambda>n. n = k) ns)) G)"

definition new_children :: "step_graph \<Rightarrow> string list \<Rightarrow> string \<Rightarrow> string list" where
  "new_children G reached k = filter (\<lambda>c. c \<notin> set reached) (fromkeys (dependents G k))"

lemma dependents_iff: "c \<in> set (dependents G k) \<longleftrightarrow> (\<exists>ns. (c, ns) \<in> set G \<and> k \<in> set ns)"
  by (force simp: dependents_def)

lemma dependents_are_nodes: "set (dependents G k) \<subseteq> all_nodes G"
  by (force simp: dependents_iff all_nodes_def)

function spread :: "step_graph \<Rightarrow> string list \<Rightarrow> string list \<Rightarrow> string list" where
  "spread G reached pending = (case pending of
     [] \<Rightarrow> reached
   | k # rest \<Rightarrow> spread G (reached @ new_children G reached k) (rest @ new_children G reached k))"
  by pat_completeness auto

lemma spread_progress:
  assumes "new_children G reached k \<noteq> []"
  shows "card (all_nodes G - set (reached @ new_children G reached k)) < card (all_nodes G - set reached)"
proof (rule psubset_card_mono)
  obtain c where c: "c \<in> set (new_children G reached k)" using assms by (cases "new_children G reached k") auto
  then have "c \<in> all_nodes G" "c \<notin> set reached"
    using dependents_are_nodes by (auto simp: new_children_def)
  with c show "all_nodes G - set (reached @ new_children G reached k) \<subset> all_nodes G - set reached" by auto
qed simp

definition spread_order :: "((step_graph \<times> string list \<times> string list) \<times> step_graph \<times> string list \<times> string list) set" where
  "spread_order = measures [\<lambda>(G, reached, pending). card (all_nodes G - set reached), \<lambda>(G, reached, pending). length pending]"

termination spread
proof (relation spread_order)
  show "wf spread_order" by (simp add: spread_order_def)
  fix G :: step_graph and reached pending rest :: "string list" and k :: string
  assume p: "pending = k # rest"
  show "((G, reached @ new_children G reached k, rest @ new_children G reached k), G, reached, pending) \<in> spread_order"
    using spread_progress [of G reached k] p by (cases "new_children G reached k = []") (simp_all add: spread_order_def)
qed

declare spread.simps [simp del]

definition reachable_from_roots :: "step_graph \<Rightarrow> string list \<Rightarrow> string list" where
  "reachable_from_roots G roots = spread G (fromkeys roots) roots"

section \<open>Validation of one graph\<close>

definition sorted_set :: "string list \<Rightarrow> string list" where
  "sorted_set xs = sort (remdups xs)"

definition duplicates :: "string list \<Rightarrow> string list" where
  "duplicates xs = sorted_set (filter (\<lambda>x. 1 < count_list xs x) xs)"

definition quoted :: "string \<Rightarrow> string" where
  "quoted s = CHR 0x27 # s @ [CHR 0x27]"

definition graph_roots :: "step_graph \<Rightarrow> string list" where
  "graph_roots G = map fst (filter (\<lambda>(_, ns). ns = []) G)"

definition step_problems :: "string \<Rightarrow> step_graph \<Rightarrow> string \<times> string list \<Rightarrow> string list" where
  "step_problems label G = (\<lambda>(k, ns).
     (if duplicates ns \<noteq> []
      then [label @ '' step '' @ quoted k @ '': duplicate dependencies: '' @ join '', '' (duplicates ns)] else [])
   @ (if k \<in> set ns then [label @ '' step '' @ quoted k @ '': a step cannot depend on itself''] else [])
   @ map (\<lambda>n. label @ '' step '' @ quoted k @ '': unknown dependency '' @ quoted n)
       (filter (\<lambda>n. n \<notin> fst ` set G) ns))"

definition has_unknown_dependencies :: "step_graph \<Rightarrow> bool" where
  "has_unknown_dependencies G \<longleftrightarrow> list_ex (\<lambda>(_, ns). list_ex (\<lambda>n. n \<notin> fst ` set G) ns) G"

definition order_problems :: "string \<Rightarrow> step_graph \<Rightarrow> string list" where
  "order_problems label G =
     (if cycle_nodes G \<noteq> [] then [label @ '': dependency cycle: '' @ join '' -> '' (cycle_nodes G)]
      else map (\<lambda>k. label @ '': step '' @ quoted k @ '' is unreachable from a root'')
        (filter (\<lambda>k. k \<notin> set (reachable_from_roots G (graph_roots G))) (map fst G)))"

definition validate_graph :: "string \<Rightarrow> step_graph \<Rightarrow> string list" where
  "validate_graph label G =
     map (\<lambda>k. label @ '': duplicate step id '' @ quoted k) (duplicates (map fst G))
   @ concat (map (step_problems label G) G)
   @ (if graph_roots G = [] then [label @ '': graph has no root step''] else [])
   @ (if duplicates (map fst G) = [] \<and> \<not> has_unknown_dependencies G then order_problems label G else [])"

end
