(* ===== verification/Workflow_Pure.thy ===== *)
theory Workflow_Pure
  imports Workflow_Types "HOL-Library.AList"
begin

text \<open>
  Conditions, data operators and messages (\<open>ricky/workflows/pure.py\<close>, \<open>ricky/workflows/operators.py\<close>).
  Pydantic's conversion of a JSON value to an integer or a truth value is an argument.
\<close>

section \<open>Conditions\<close>

definition evaluate_condition :: "condition \<Rightarrow> json \<Rightarrow> bool checked" where
  "evaluate_condition c context =
     andthen (resolve_reference (cd_ref c) context) (\<lambda>actual.
     case cd_operator c of
       Op_Equals \<Rightarrow> Inr (py_eq actual (cd_value c))
     | Op_Not_Equals \<Rightarrow> Inr (\<not> py_eq actual (cd_value c))
     | Op_In \<Rightarrow> (case cd_value c of JArr vs \<Rightarrow> Inr (list_ex (py_eq actual) vs) | _ \<Rightarrow> Inl ''AssertionError'')
     | Op_Exists \<Rightarrow> Inr (actual \<noteq> JNull)
     | Op_Is_True \<Rightarrow> (case actual of JBool b \<Rightarrow> Inr b | _ \<Rightarrow> Inl ''condition reference is not boolean'')
     | Op_Is_False \<Rightarrow> (case actual of JBool b \<Rightarrow> Inr (\<not> b) | _ \<Rightarrow> Inl ''condition reference is not boolean''))"

section \<open>Data operators\<close>

definition value_result :: "json \<Rightarrow> json" where
  "value_result v = JObj [(''value'', v)]"

definition project_one :: "string list \<Rightarrow> (string \<times> json) list \<Rightarrow> json checked" where
  "project_one names kvs =
     andthen (require (set names \<subseteq> fst ` set kvs) ''project field(s) are missing'') (\<lambda>_.
       Inr (JObj (List.map_filter (\<lambda>n. map_option (Pair n) (map_of kvs n)) (fromkeys names))))"

definition run_project :: "json \<Rightarrow> string list \<Rightarrow> json checked" where
  "run_project v names = (case v of
     JObj kvs \<Rightarrow> andthen (project_one names kvs) (\<lambda>w. Inr (value_result w))
   | JArr xs \<Rightarrow> andthen (collect (\<lambda>x. case x of JObj kvs \<Rightarrow> project_one names kvs
         | _ \<Rightarrow> Inl ''project item is not an object'') xs) (\<lambda>ws. Inr (value_result (JArr ws)))
   | _ \<Rightarrow> Inl ''project value must be an object or list of objects'')"

fun walk_data :: "json \<Rightarrow> string list \<Rightarrow> json checked" where
  "walk_data v [] = Inr v"
| "walk_data v (part # parts) = (case v of
     JObj kvs \<Rightarrow> (case map_of kvs part of None \<Rightarrow> Inl ''data path is missing'' | Some w \<Rightarrow> walk_data w parts)
   | _ \<Rightarrow> Inl ''data path is missing'')"

definition data_path :: "string \<Rightarrow> json \<Rightarrow> json checked" where
  "data_path path v = (if path = [] then Inr v else walk_data v (split_on (\<lambda>c. c = CHR ''.'') path))"

text \<open>An item with the value at its path.\<close>

definition keyed_items :: "string \<Rightarrow> json list \<Rightarrow> (json \<times> json) list checked" where
  "keyed_items path xs = collect (\<lambda>x. andthen (data_path path x) (\<lambda>v. Inr (x, v))) xs"

definition run_filter :: "json list \<Rightarrow> string \<Rightarrow> json \<Rightarrow> json checked" where
  "run_filter xs path expected =
     andthen (keyed_items path xs) (\<lambda>kept. Inr (value_result (JArr (map fst (filter (\<lambda>(_, v). py_eq v expected) kept)))))"

definition bucket_of :: "(string \<times> json) list \<Rightarrow> json \<Rightarrow> string option" where
  "bucket_of categories v = map_option fst (List.find (\<lambda>(_, expected). py_eq v expected) categories)"

definition run_partition :: "json list \<Rightarrow> string \<Rightarrow> (string \<times> json) list \<Rightarrow> json checked" where
  "run_partition xs path categories =
     andthen (keyed_items path xs) (\<lambda>items.
       let bucket = (\<lambda>b. JArr (map fst (filter (\<lambda>(_, v). bucket_of categories v = b) items))) in
       Inr (JObj [(''buckets'', JObj (map (\<lambda>(n, _). (n, bucket (Some n))) categories)), (''unmatched'', bucket None)]))"

text \<open>\<open>json.dumps(value, sort_keys=True)\<close>, which separates with spaces.\<close>

fun json_spaced :: "json \<Rightarrow> string" where
  "json_spaced (JArr xs) = ''['' @ join '', '' (map json_spaced xs) @ '']''"
| "json_spaced (JObj kvs) =
     ''{'' @ join '', '' (map (\<lambda>(k, t). json_quote k @ '': '' @ t)
       (sort_key fst (map (\<lambda>(k, v). (k, json_spaced v)) kvs))) @ ''}''"
| "json_spaced v = json_dumps v"

definition type_name :: "json \<Rightarrow> string" where
  "type_name v = (case v of JNull \<Rightarrow> ''NoneType'' | JBool _ \<Rightarrow> ''bool'' | JInt _ \<Rightarrow> ''int'' | JStr _ \<Rightarrow> ''str''
     | JArr _ \<Rightarrow> ''list'' | JObj _ \<Rightarrow> ''dict'')"

definition sort_item_key :: "json \<Rightarrow> string \<times> string" where
  "sort_item_key v = (type_name v, json_spaced v)"

text \<open>\<open>sorted(..., reverse=True)\<close> keeps the order of equal items.\<close>

definition run_sort :: "json list \<Rightarrow> string \<Rightarrow> bool \<Rightarrow> json checked" where
  "run_sort xs path descending =
     andthen (keyed_items path xs) (\<lambda>items.
       let by_key = sort_key (\<lambda>(_, v). sort_item_key v) in
       Inr (value_result (JArr (map fst (if descending then rev (by_key (rev items)) else by_key items)))))"

definition run_limit :: "json list \<Rightarrow> nat \<Rightarrow> json checked" where
  "run_limit xs n = Inr (value_result (JArr (take n xs)))"

definition merge_objects :: "json list \<Rightarrow> (string \<times> json) list checked" where
  "merge_objects vs =
     andthen (collect (\<lambda>v. case v of JObj kvs \<Rightarrow> Inr kvs | _ \<Rightarrow> Inl ''merge value is not an object'') vs) (\<lambda>objs.
       Inr (fold (\<lambda>kvs merged. fold (\<lambda>(k, v) m. AList.update k v m) kvs merged) objs []))"

definition merge_lists :: "json list \<Rightarrow> json list checked" where
  "merge_lists vs =
     andthen (collect (\<lambda>v. case v of JArr xs \<Rightarrow> Inr xs | _ \<Rightarrow> Inl ''merge value is not a list'') vs) (\<lambda>xss.
       Inr (concat xss))"

definition run_merge :: "json list \<Rightarrow> string \<Rightarrow> json checked" where
  "run_merge vs mode =
     (if mode = ''objects'' then andthen (merge_objects vs) (\<lambda>m. Inr (value_result (JObj m)))
      else if mode = ''lists'' then andthen (merge_lists vs) (\<lambda>xs. Inr (value_result (JArr xs)))
      else Inl ''mode should be objects or lists'')"

section \<open>The registry of operators\<close>

definition as_list :: "json option \<Rightarrow> json list checked" where
  "as_list v = (case v of Some (JArr xs) \<Rightarrow> Inr xs | _ \<Rightarrow> Inl ''a list is required'')"

definition as_string :: "json option \<Rightarrow> string checked" where
  "as_string v = (case v of Some (JStr s) \<Rightarrow> Inr s | _ \<Rightarrow> Inl ''a string is required'')"

definition as_object :: "json option \<Rightarrow> (string \<times> json) list checked" where
  "as_object v = (case v of Some (JObj m) \<Rightarrow> Inr m | _ \<Rightarrow> Inl ''a dictionary is required'')"

definition as_value :: "json option \<Rightarrow> json checked" where
  "as_value v = (case v of Some w \<Rightarrow> Inr w | None \<Rightarrow> Inl ''field required'')"

text \<open>The parameters of each operator, with whether they are required.\<close>

definition operator_params :: "string \<Rightarrow> (string \<times> bool) list option" where
  "operator_params n = map_of [
     (''project'', [(''value'', True), (''fields'', True)]),
     (''filter'', [(''items'', True), (''path'', True), (''equals'', True)]),
     (''partition'', [(''items'', True), (''path'', True), (''categories'', True)]),
     (''sort'', [(''items'', True), (''path'', True), (''descending'', False)]),
     (''limit'', [(''items'', True), (''count'', True)]),
     (''merge'', [(''values'', True), (''mode'', True)])] n"

definition run_operator ::
  "(json \<Rightarrow> int option) \<Rightarrow> (json \<Rightarrow> bool option) \<Rightarrow> string \<Rightarrow> (string \<times> json) list \<Rightarrow> json checked" where
  "run_operator lax_int lax_bool name args = (case operator_params name of
     None \<Rightarrow> Inl ''unknown data operator''
   | Some params \<Rightarrow>
       andthen (require (fst ` set args \<subseteq> fst ` set params) ''extra inputs are not permitted'') (\<lambda>_.
       let arg = map_of args in
       if name = ''project'' then
         andthen (as_value (arg ''value'')) (\<lambda>v.
         andthen (as_list (arg ''fields'')) (\<lambda>xs.
         case string_items xs of None \<Rightarrow> Inl ''a string is required''
         | Some names \<Rightarrow> andthen (require (names \<noteq> []) ''fields needs at least one name'') (\<lambda>_. run_project v names)))
       else if name = ''filter'' then
         andthen (as_list (arg ''items'')) (\<lambda>xs. andthen (as_string (arg ''path'')) (\<lambda>path.
         andthen (as_value (arg ''equals'')) (run_filter xs path)))
       else if name = ''partition'' then
         andthen (as_list (arg ''items'')) (\<lambda>xs. andthen (as_string (arg ''path'')) (\<lambda>path.
         andthen (as_object (arg ''categories'')) (\<lambda>cs.
         andthen (require (cs \<noteq> []) ''categories needs at least one entry'') (\<lambda>_. run_partition xs path cs))))
       else if name = ''sort'' then
         andthen (as_list (arg ''items'')) (\<lambda>xs. andthen (as_string (arg ''path'')) (\<lambda>path.
         case arg ''descending'' of None \<Rightarrow> run_sort xs path False
         | Some v \<Rightarrow> (case lax_bool v of None \<Rightarrow> Inl ''a truth value is required'' | Some b \<Rightarrow> run_sort xs path b)))
       else if name = ''limit'' then
         andthen (as_list (arg ''items'')) (\<lambda>xs. andthen (as_value (arg ''count'')) (\<lambda>v.
         case lax_int v of None \<Rightarrow> Inl ''an integer is required''
         | Some n \<Rightarrow> andthen (require (0 \<le> n) ''count must not be negative'') (\<lambda>_. run_limit xs (nat n))))
       else
         andthen (as_list (arg ''values'')) (\<lambda>vs. andthen (as_string (arg ''mode'')) (run_merge vs))))"

section \<open>Data and message steps\<close>

definition execute_data_step ::
  "(json \<Rightarrow> int option) \<Rightarrow> (json \<Rightarrow> bool option) \<Rightarrow> string \<Rightarrow> expr_map \<Rightarrow> json \<Rightarrow> json checked" where
  "execute_data_step lax_int lax_bool operator args context =
     andthen (resolve_mapping args context) (\<lambda>v. case v of
       JObj kvs \<Rightarrow> run_operator lax_int lax_bool operator kvs | _ \<Rightarrow> Inl ''arguments must be a dictionary'')"

text \<open>\<open>name\<close> in a message is the literal text of the code; \<open>detail\<close> describes the outcome.\<close>

definition execute_message_step :: "value_expr \<Rightarrow> json \<Rightarrow> json checked" where
  "execute_message_step e context = andthen (resolve_value e context) (\<lambda>v. case v of
     JStr s \<Rightarrow> Inr (JObj [(''text'', JStr s)]) | _ \<Rightarrow> Inl ''a message expression must resolve to a string'')"

text \<open>The output of a condition check states the condition and its outcome.\<close>

definition condition_check :: "condition \<Rightarrow> json \<Rightarrow> json checked" where
  "condition_check c context = andthen (evaluate_condition c context) (\<lambda>passed.
     Inr (JObj [(''passed'', JBool passed), (''detail'', JStr (''condition '' @ cd_ref c @ '' '' @ operator_name (cd_operator c)
       @ '': '' @ (if passed then ''True'' else ''False'')))]))"

end
