(* ===== verification/Workflow_Compile.thy ===== *)
theory Workflow_Compile
  imports Workflow_Graph Workflow_Pure Schedule_Types
begin

text \<open>
  The compiler of workflows (\<open>ricky/workflows/compile.py\<close>) and the tool contract it checks
  (\<open>ricky/tool_contracts.py\<close>).  The registry of tools is a function from names to the declarations the
  compiler reads; the checks of a tool's Python classes and the SHA-256 fingerprint are arguments.
\<close>

section \<open>Tools and limits\<close>

record tool_metadata =
  tm_risk :: tool_risk
  tm_capability_id :: "string option"
  tm_effect_kind :: tool_effect_kind
  tm_unattended :: tool_unattended
  tm_state_guard_id :: "string option"

definition capability_part_ok :: "(char \<Rightarrow> bool) \<Rightarrow> string \<Rightarrow> bool" where
  "capability_part_ok start s = (case s of [] \<Rightarrow> False | c # cs \<Rightarrow> start c
     \<and> list_all (\<lambda>c. CHR ''a'' \<le> c \<and> c \<le> CHR ''z'' \<or> ascii_digit c \<or> c = CHR ''_'' \<or> c = CHR ''-'') cs)"

definition capability_id_re :: "string \<Rightarrow> bool" where
  "capability_id_re s = (case split_on (\<lambda>c. c = CHR ''.'') s of
     p # ps \<Rightarrow> capability_part_ok (\<lambda>c. CHR ''a'' \<le> c \<and> c \<le> CHR ''z'') p \<and> ps \<noteq> []
       \<and> list_all (capability_part_ok (\<lambda>c. CHR ''a'' \<le> c \<and> c \<le> CHR ''z'' \<or> ascii_digit c)) ps
   | [] \<Rightarrow> False)"

text \<open>A tool as declared.  \<open>wt_surface\<close> is the outcome of the checks of its name, classes and review mode.\<close>

record workflow_tool =
  wt_risk :: tool_risk
  wt_surface :: "unit checked"
  wt_metadata :: "tool_metadata checked"
  wt_has_effect_identity :: bool
  wt_params :: "(string \<times> bool) list"
  wt_result_schema :: "json option"
  wt_idempotent_replay :: bool
  wt_has_key_factory :: bool
  wt_safe_replay :: bool

text \<open>The compiler passes no state guards.\<close>

definition inspect_tool_contract :: "workflow_tool \<Rightarrow> tool_metadata checked" where
  "inspect_tool_contract t =
     andthen (wt_surface t) (\<lambda>_.
     andthen (wt_metadata t) (\<lambda>m.
     andthen (require (case tm_capability_id m of None \<Rightarrow> True | Some c \<Rightarrow> capability_id_re c)
       ''tool has invalid capability id'') (\<lambda>_.
     andthen (require (\<not> (tm_risk m = Read_Only \<and> tm_effect_kind m = External_Effect))
       ''read-only tool cannot declare an external effect'') (\<lambda>_.
     andthen (require (\<not> (tm_risk m \<noteq> Read_Only \<and> tm_effect_kind m = Effect_None))
       ''mutating tool must declare an observable effect kind'') (\<lambda>_.
     andthen (require (tm_effect_kind m = External_Effect \<longrightarrow> wt_has_effect_identity t)
       ''external-effect tool lacks an effect identity contract'') (\<lambda>_.
     andthen (require (tm_state_guard_id m \<noteq> None \<longrightarrow> tm_effect_kind m = Ricky_State)
       ''tool names a state guard but is not a Ricky-state mutation'') (\<lambda>_.
     andthen (require (tm_state_guard_id m = None) ''tool requires unavailable state guard'') (\<lambda>_.
       Inr m))))))))"

type_synonym tool_lookup = "string \<Rightarrow> workflow_tool option"

record workflow_settings =
  ws_max_parallel_steps :: nat
  ws_max_parallel_items :: nat
  ws_max_schema_depth :: nat
  ws_max_foreach_items :: nat
  ws_model_attempts :: nat
  ws_agent_iterations :: nat
  ws_max_binding_chars :: nat
  ws_max_result_chars :: nat

section \<open>Contracts of steps\<close>

definition error_of :: "'a checked \<Rightarrow> string list" where
  "error_of r = (case r of Inl m \<Rightarrow> [m] | Inr _ \<Rightarrow> [])"

definition only_if :: "bool \<Rightarrow> string \<Rightarrow> string list" where
  "only_if b m = (if b then [m] else [])"

definition names_text :: "string list \<Rightarrow> string" where
  "names_text ns = join '', '' (sorted_set ns)"

definition param_problems :: "string \<Rightarrow> expr_map \<Rightarrow> (string \<times> bool) list \<Rightarrow> string list" where
  "param_problems label args params =
     (let unknown = filter (\<lambda>n. n \<notin> fst ` set params) (map fst args);
          missing = map fst (filter (\<lambda>(n, required). required \<and> n \<notin> fst ` set args) params)
      in only_if (unknown \<noteq> []) (label @ '': unknown argument(s): '' @ names_text unknown)
       @ only_if (missing \<noteq> []) (label @ '': missing argument(s): '' @ names_text missing))"

definition task_of :: "step \<Rightarrow> model_task option" where
  "task_of s = (case st_kind s of Model_Step m \<Rightarrow> Some m | Agent_Step m _ _ \<Rightarrow> Some m | _ \<Rightarrow> None)"

definition task_problems :: "workflow_spec \<Rightarrow> string list \<Rightarrow> string \<Rightarrow> model_task \<Rightarrow> string list" where
  "task_problems spec skills label m =
     only_if (map_of (wf_schemas spec) (mt_result_schema m) = None)
       (label @ '': unknown result schema '' @ quoted (mt_result_schema m))
   @ (case mt_skill m of None \<Rightarrow> [] | Some k \<Rightarrow> only_if (k \<notin> set skills) (label @ '': unknown prompt skill '' @ quoted k))"

definition agent_tool_problems :: "tool_lookup \<Rightarrow> string \<Rightarrow> string \<Rightarrow> string list" where
  "agent_tool_problems tools label n = (case tools n of
     None \<Rightarrow> [label @ '': unknown tool '' @ quoted n]
   | Some t \<Rightarrow>
       if wt_risk t \<noteq> Read_Only then [label @ '': agent tool '' @ quoted n @ '' only read_only is allowed'']
       else error_of (inspect_tool_contract t))"

definition tool_step_problems :: "tool_lookup \<Rightarrow> string \<Rightarrow> nat \<Rightarrow> string \<Rightarrow> expr_map \<Rightarrow> bool \<Rightarrow> string list" where
  "tool_step_problems tools label attempts n args expose = (case tools n of
     None \<Rightarrow> [label @ '': unknown tool '' @ quoted n]
   | Some t \<Rightarrow>
       error_of (inspect_tool_contract t)
     @ only_if (expose \<and> wt_result_schema t = None) (label @ '': tool '' @ quoted n @ '' has no declared Result model'')
     @ param_problems label args (wt_params t)
     @ (if 1 < attempts then
          (if wt_risk t \<noteq> Read_Only
           then only_if (\<not> (wt_idempotent_replay t \<and> wt_has_key_factory t))
             (label @ '': effect tool retry requires declared idempotent replay and an idempotency key'')
           else only_if (\<not> wt_safe_replay t) (label @ '': read-only tool retry requires declared safe_replay''))
        else []))"

definition data_step_problems :: "string \<Rightarrow> string \<Rightarrow> expr_map \<Rightarrow> string list" where
  "data_step_problems label operator args = (case operator_params operator of
     None \<Rightarrow> [label @ '': unknown data operator '' @ quoted operator]
   | Some params \<Rightarrow> param_problems label args params)"

definition step_contract_problems ::
  "workflow_spec \<Rightarrow> tool_lookup \<Rightarrow> string list \<Rightarrow> string \<Rightarrow> step \<Rightarrow> string list" where
  "step_contract_problems spec tools skills kind_of_step s =
     (let label = kind_of_step @ '' '' @ quoted (st_id s); attempts = rp_max_attempts (st_retry s) in
      (case task_of s of None \<Rightarrow> [] | Some m \<Rightarrow> task_problems spec skills label m)
    @ (case st_kind s of
         Agent_Step m names _ \<Rightarrow> concat (map (agent_tool_problems tools label) names)
       | Tool_Step n args expose \<Rightarrow> tool_step_problems tools label attempts n args expose
       | Data_Step operator args \<Rightarrow> data_step_problems label operator args
       | _ \<Rightarrow> [])
    @ (case st_kind s of
         Model_Step _ \<Rightarrow> [] | Agent_Step _ _ _ \<Rightarrow> [] | Tool_Step _ _ _ \<Rightarrow> []
       | _ \<Rightarrow> only_if (1 < attempts) (label @ '': this step kind does not support retries'')))"

text \<open>The result schemas of the model steps, by step id; the last step of an id counts.\<close>

definition output_schemas :: "workflow_spec \<Rightarrow> step list \<Rightarrow> (string \<times> result_schema) list" where
  "output_schemas spec steps = rev (List.map_filter (\<lambda>s. Option.bind (task_of s)
     (\<lambda>m. map_option (Pair (st_id s)) (map_of (wf_schemas spec) (mt_result_schema m)))) steps)"

section \<open>References\<close>

text \<open>
  What the check of one reference reads: the step that holds it, the top-level graph and the graph it
  stands in, the loop around it, and the schemas of the outputs.  \<open>rc_ancestors\<close> are the ancestors of the
  step in its own graph.
\<close>

record reference_context =
  rc_label :: string
  rc_args :: "string list"
  rc_top :: step_graph
  rc_parent :: "string option"
  rc_nodes :: "string list"
  rc_ancestors :: "string list"
  rc_outputs :: "(string \<times> result_schema) list"
  rc_body_outputs :: "(string \<times> result_schema) list"
  rc_allow_item :: bool

text \<open>The problems of an output reference and the schema it ends in.\<close>

definition output_path ::
  "reference_context \<Rightarrow> string \<Rightarrow> result_schema option \<Rightarrow> string list \<Rightarrow> string list \<times> result_schema option" where
  "output_path x r s path =
     (case s of None \<Rightarrow> ([], None)
      | Some s \<Rightarrow> if path = [] then ([], Some s)
          else case schema_type_at_path s path of
            None \<Rightarrow> ([rc_label x @ '': output path does not exist in '' @ quoted r], None)
          | Some t \<Rightarrow> ([], Some t))"

definition record_fields :: "string list" where
  "record_fields = [''status'', ''output'', ''error'']"

definition step_reference ::
  "reference_context \<Rightarrow> string \<Rightarrow> string list \<Rightarrow> string list \<times> result_schema option" where
  "step_reference x r parts = (case parts of
     source # field # path \<Rightarrow>
       if source \<notin> fst ` set (rc_top x) then ([rc_label x @ '': unknown step reference '' @ quoted r], None)
       else
         (let allowed = (case rc_parent x of Some p \<Rightarrow> source \<in> set (ancestors (rc_top x) p)
              | None \<Rightarrow> source \<in> set (rc_ancestors x));
              late = only_if (\<not> allowed) (rc_label x @ '': reference '' @ quoted r @ '' is not from a dependency'')
          in if field \<notin> set record_fields
             then (late @ [rc_label x @ '': invalid step record field in '' @ quoted r], None)
             else if field = ''output''
             then (case output_path x r (map_of (rc_outputs x) source) path of (es, s) \<Rightarrow> (late @ es, s))
             else (late, None))
   | _ \<Rightarrow> ([rc_label x @ '': unknown step reference '' @ quoted r], None))"

definition item_reference ::
  "reference_context \<Rightarrow> string \<Rightarrow> string list \<Rightarrow> string list \<times> result_schema option" where
  "item_reference x r parts =
     (if \<not> rc_allow_item x then ([rc_label x @ '': item reference is valid only inside foreach''], None)
      else case parts of
        [] \<Rightarrow> ([rc_label x @ '': invalid item reference '' @ quoted r], None)
      | what # rest \<Rightarrow>
          if what \<notin> {''source'', ''key'', ''index'', ''steps''}
          then ([rc_label x @ '': invalid item reference '' @ quoted r], None)
          else if what \<noteq> ''steps'' then ([], None)
          else (case rest of
            source # field # path \<Rightarrow>
              if source \<notin> set (rc_nodes x) then ([rc_label x @ '': unknown item step reference '' @ quoted r], None)
              else
                (let late = only_if (source \<notin> set (rc_ancestors x))
                       (rc_label x @ '': reference '' @ quoted r @ '' is not from a dependency'')
                 in if field \<notin> set record_fields
                    then (late @ [rc_label x @ '': invalid item step record field in '' @ quoted r], None)
                    else if field = ''output''
                    then (case output_path x r (map_of (rc_body_outputs x) source) path of (es, s) \<Rightarrow> (late @ es, s))
                    else (late, None))
          | _ \<Rightarrow> ([rc_label x @ '': unknown item step reference '' @ quoted r], None)))"

definition check_reference :: "reference_context \<Rightarrow> string \<Rightarrow> string list \<times> result_schema option" where
  "check_reference x r = (case parse_reference r of
     Inl m \<Rightarrow> ([rc_label x @ '': '' @ m], None)
   | Inr [] \<Rightarrow> ([], None)
   | Inr (base # parts) \<Rightarrow>
       if base = ''trigger''
       then (only_if (case parts of [n] \<Rightarrow> n \<notin> set (rc_args x) | _ \<Rightarrow> True)
         (rc_label x @ '': unknown trigger reference '' @ quoted r), None)
       else if base = ''steps'' then step_reference x r parts
       else item_reference x r parts)"

definition validate_reference :: "reference_context \<Rightarrow> string \<Rightarrow> string list" where
  "validate_reference x r = fst (check_reference x r)"

text \<open>A condition on a truth value needs a boolean schema, where the schema is known.\<close>

definition validate_condition :: "reference_context \<Rightarrow> condition \<Rightarrow> string list" where
  "validate_condition x c = (case check_reference x (cd_ref c) of (es, s) \<Rightarrow>
     es @ (case s of None \<Rightarrow> []
       | Some s \<Rightarrow> only_if (cd_operator c \<in> {Op_Is_True, Op_Is_False} \<and> rs_type s \<noteq> S_Boolean)
           (rc_label x @ '': condition '' @ operator_name (cd_operator c) @ '' requires boolean reference '' @ quoted (cd_ref c))))"

definition step_expressions :: "step \<Rightarrow> (value_expr \<times> bool) list" where
  "step_expressions s =
     (let plain = map (\<lambda>e. (e, False)) in
      case st_kind s of
        Tool_Step _ args _ \<Rightarrow> plain (map snd args)
      | Data_Step _ args \<Rightarrow> plain (map snd args)
      | Model_Step m \<Rightarrow> plain (map snd (mt_inputs m))
      | Agent_Step m _ _ \<Rightarrow> plain (map snd (mt_inputs m))
      | Approval_Step _ prompt proposal items key \<Rightarrow>
          plain (prompt # List.map_filter id [proposal, items]) @ (case key of None \<Rightarrow> [] | Some e \<Rightarrow> [(e, True)])
      | Message_Step e \<Rightarrow> [(e, False)]
      | Foreach_Step items key _ _ _ _ _ \<Rightarrow> [(items, False), (key, True)]
      | Check_Step _ \<Rightarrow> [])"

definition step_conditions :: "step \<Rightarrow> condition list" where
  "step_conditions s = (case st_when s of None \<Rightarrow> [] | Some c \<Rightarrow> [c])
     @ (case st_kind s of Check_Step (Condition_Check c) \<Rightarrow> [c] | _ \<Rightarrow> [])"

definition step_reference_problems :: "reference_context \<Rightarrow> step \<Rightarrow> string list" where
  "step_reference_problems x s =
     concat (map (\<lambda>(e, item). concat (map (validate_reference (x\<lparr>rc_allow_item := item \<or> rc_allow_item x\<rparr>)) (iter_references e)))
       (step_expressions s))
   @ concat (map (validate_condition x) (step_conditions s))"

definition top_context :: "workflow_spec \<Rightarrow> step \<Rightarrow> reference_context" where
  "top_context spec s =
     (let G = graph_of (wf_steps spec) in
      \<lparr>rc_label = ''step '' @ quoted (st_id s), rc_args = map fst (wf_args spec), rc_top = G, rc_parent = None,
       rc_nodes = map fst G, rc_ancestors = ancestors G (st_id s),
       rc_outputs = output_schemas spec (wf_steps spec), rc_body_outputs = [], rc_allow_item = False\<rparr>)"

definition body_context :: "workflow_spec \<Rightarrow> step \<Rightarrow> step \<Rightarrow> reference_context" where
  "body_context spec parent s =
     (let G = graph_of (step_body parent) in
      \<lparr>rc_label = ''foreach '' @ quoted (st_id parent) @ '' body step '' @ quoted (st_id s),
       rc_args = map fst (wf_args spec), rc_top = graph_of (wf_steps spec), rc_parent = Some (st_id parent),
       rc_nodes = map fst G, rc_ancestors = ancestors G (st_id s),
       rc_outputs = output_schemas spec (wf_steps spec), rc_body_outputs = output_schemas spec (step_body parent),
       rc_allow_item = True\<rparr>)"

text \<open>The outputs of a loop may read every step of its body.\<close>

definition projection_context :: "workflow_spec \<Rightarrow> step \<Rightarrow> reference_context" where
  "projection_context spec parent =
     (let G = graph_of (step_body parent) in
      \<lparr>rc_label = ''foreach '' @ quoted (st_id parent) @ '' output'',
       rc_args = map fst (wf_args spec), rc_top = graph_of (wf_steps spec), rc_parent = Some (st_id parent),
       rc_nodes = map fst G, rc_ancestors = map fst G,
       rc_outputs = output_schemas spec (wf_steps spec), rc_body_outputs = output_schemas spec (step_body parent),
       rc_allow_item = True\<rparr>)"

definition loop_outputs :: "step \<Rightarrow> expr_map" where
  "loop_outputs s = (case st_kind s of Foreach_Step _ _ outputs _ _ _ _ \<Rightarrow> outputs | _ \<Rightarrow> [])"

section \<open>Compilation\<close>

definition scope_problems :: "workflow_spec \<Rightarrow> string list" where
  "scope_problems spec = map (\<lambda>k. ''workflow: step id '' @ quoted k @ '' is reused across execution graph scopes'')
     (duplicates (map st_id (wf_steps spec) @ concat (map (map st_id \<circ> step_body) (wf_steps spec))))"

definition schema_problems :: "workflow_settings \<Rightarrow> workflow_spec \<Rightarrow> string list" where
  "schema_problems limits spec = concat (map (\<lambda>(n, s). map (\<lambda>m. ''schema '' @ quoted n @ '': '' @ m)
     (error_of (validate_schema_depth (ws_max_schema_depth limits) s))) (wf_schemas spec))"

text \<open>\<open>value or default\<close>\<close>

definition given :: "nat option \<Rightarrow> nat \<Rightarrow> nat" where
  "given v default' = (case v of Some n \<Rightarrow> if n = 0 then default' else n | None \<Rightarrow> default')"

definition loop_problems :: "workflow_settings \<Rightarrow> step \<Rightarrow> string list" where
  "loop_problems limits s = (case st_kind s of
     Foreach_Step _ _ _ body max_items max_parallel _ \<Rightarrow>
       only_if (list_ex is_foreach body) (''step '' @ quoted (st_id s) @ '': nested foreach is not supported'')
     @ validate_graph (''foreach '' @ quoted (st_id s) @ '' body'') (graph_of body)
     @ only_if (ws_max_foreach_items limits < given max_items (ws_max_foreach_items limits))
         (''step '' @ quoted (st_id s) @ '': max_items exceeds configured maximum'')
     @ only_if (ws_max_parallel_items limits < given max_parallel (ws_max_parallel_items limits))
         (''step '' @ quoted (st_id s) @ '': max_parallel_items exceeds configured maximum'')
   | _ \<Rightarrow> [])"

definition body_problems :: "workflow_spec \<Rightarrow> tool_lookup \<Rightarrow> string list \<Rightarrow> step \<Rightarrow> string list" where
  "body_problems spec tools skills parent =
     (if \<not> is_foreach parent then [] else
        concat (map (step_contract_problems spec tools skills (''foreach '' @ quoted (st_id parent) @ '' body step''))
          (step_body parent))
      @ concat (map (\<lambda>s. step_reference_problems (body_context spec parent s) s) (step_body parent))
      @ concat (map (\<lambda>(n, e). concat (map (validate_reference (projection_context spec parent)) (iter_references e)))
          (loop_outputs parent)))"

definition attempt_problems :: "workflow_settings \<Rightarrow> step \<Rightarrow> string list" where
  "attempt_problems limits s =
     only_if (task_of s \<noteq> None \<and> ws_model_attempts limits < rp_max_attempts (st_retry s))
       (''step '' @ quoted (st_id s) @ '': retry max_attempts exceeds configured maximum'')
   @ (case st_kind s of
        Agent_Step _ _ (Some n) \<Rightarrow> only_if (ws_agent_iterations limits < n)
          (''step '' @ quoted (st_id s) @ '': max_iterations exceeds configured maximum'')
      | _ \<Rightarrow> [])"

definition compile_problems :: "workflow_settings \<Rightarrow> tool_lookup \<Rightarrow> string list \<Rightarrow> workflow_spec \<Rightarrow> string list" where
  "compile_problems limits tools skills spec = fromkeys (
     scope_problems spec
   @ schema_problems limits spec
   @ validate_graph ''workflow'' (graph_of (wf_steps spec))
   @ concat (map (loop_problems limits) (wf_steps spec))
   @ concat (map (step_contract_problems spec tools skills ''step'') (wf_steps spec))
   @ concat (map (body_problems spec tools skills) (wf_steps spec))
   @ concat (map (\<lambda>s. step_reference_problems (top_context spec s) s) (wf_steps spec))
   @ only_if (case wf_max_parallel_steps spec of None \<Rightarrow> False | Some n \<Rightarrow> ws_max_parallel_steps limits < n)
       ''workflow max_parallel_steps exceeds configured maximum''
   @ concat (map (attempt_problems limits) (iter_steps (wf_steps spec))))"

text \<open>What the graph records of the tools it uses, in the order of their first use.\<close>

record tool_facts =
  tf_result_schemas :: "(string \<times> json) list"
  tf_risks :: "(string \<times> tool_risk) list"
  tf_effect_kinds :: "(string \<times> tool_effect_kind) list"

definition used_tools :: "workflow_spec \<Rightarrow> string list" where
  "used_tools spec = fromkeys (List.map_filter (\<lambda>s. case st_kind s of Tool_Step n _ _ \<Rightarrow> Some n | _ \<Rightarrow> None)
     (wf_steps spec @ concat (map step_body (wf_steps spec))))"

definition tool_facts_of :: "tool_lookup \<Rightarrow> string list \<Rightarrow> tool_facts" where
  "tool_facts_of tools names =
     (let known = List.map_filter (\<lambda>n. map_option (Pair n) (tools n)) names in
      \<lparr>tf_result_schemas = List.map_filter (\<lambda>(n, t). map_option (Pair n) (wt_result_schema t)) known,
       tf_risks = map (\<lambda>(n, t). (n, wt_risk t)) known,
       tf_effect_kinds = List.map_filter (\<lambda>(n, t). case inspect_tool_contract t of
         Inr m \<Rightarrow> Some (n, tm_effect_kind m) | Inl _ \<Rightarrow> None) known\<rparr>)"

record compiled_graph =
  cw_spec :: workflow_spec
  cw_roots :: "string list"
  cw_order :: "string list"
  cw_body_roots :: "(string \<times> string list) list"
  cw_fingerprint :: string
  cw_tools :: tool_facts

definition compile_workflow ::
  "(workflow_spec \<Rightarrow> tool_facts \<Rightarrow> string) \<Rightarrow> workflow_settings \<Rightarrow> tool_lookup \<Rightarrow> string list
    \<Rightarrow> workflow_spec \<Rightarrow> string list + compiled_graph" where
  "compile_workflow fingerprint limits tools skills spec =
     (let problems = compile_problems limits tools skills spec; facts = tool_facts_of tools (used_tools spec) in
      if problems \<noteq> [] then Inl problems
      else Inr \<lparr>cw_spec = spec, cw_roots = graph_roots (graph_of (wf_steps spec)),
        cw_order = map st_id (wf_steps spec),
        cw_body_roots = map (\<lambda>s. (st_id s, graph_roots (graph_of (step_body s)))) (filter is_foreach (wf_steps spec)),
        cw_fingerprint = fingerprint spec facts, cw_tools = facts\<rparr>)"

end
