(* ===== verification/Workflow_Graph_Spec.thy ===== *)
theory Workflow_Graph_Spec
  imports Workflow_Graph
begin

text \<open>
  What the walks of the workflow compiler compute, in terms of the relation \<open>edges\<close> from a step to
  the steps it needs.
\<close>

definition edges :: "step_graph \<Rightarrow> (string \<times> string) set" where
  "edges G = {(k, n). n \<in> set (step_needs G k)}"

definition known_needs :: "step_graph \<Rightarrow> bool" where
  "known_needs G \<longleftrightarrow> (\<forall>(k, ns) \<in> set G. set ns \<subseteq> fst ` set G)"

lemma edges_iff [simp]: "(k, n) \<in> edges G \<longleftrightarrow> n \<in> set (step_needs G k)"
  by (simp add: edges_def)

lemma step_needs_mem: "n \<in> set (step_needs G k) \<Longrightarrow> \<exists>ns. (k, ns) \<in> set G \<and> n \<in> set ns"
  by (cases "needs_of G k") (auto simp: step_needs_def dest: needs_in_graph)

lemma edge_source: "n \<in> set (step_needs G k) \<Longrightarrow> k \<in> fst ` set G"
  using step_needs_mem by force

lemma edge_target: "known_needs G \<Longrightarrow> n \<in> set (step_needs G k) \<Longrightarrow> n \<in> fst ` set G"
  using step_needs_mem by (fastforce simp: known_needs_def)

lemma finite_edges: "finite (edges G)"
proof (rule finite_subset)
  show "edges G \<subseteq> all_nodes G \<times> all_nodes G"
  proof
    fix e
    assume "e \<in> edges G"
    then obtain k n where "e = (k, n)" and n: "n \<in> set (step_needs G k)" by (cases e) simp
    moreover from edge_source [OF n] have "k \<in> all_nodes G" by (auto simp: all_nodes_def)
    ultimately show "e \<in> all_nodes G \<times> all_nodes G" using needs_are_nodes [of G k] n by auto
  qed
qed simp

lemma step_needs_row:
  assumes "distinct (map fst G)" and "(k, ns) \<in> set G"
  shows "step_needs G k = ns"
proof -
  have "map_of (rev G) k = Some ns" using assms by (intro map_of_is_SomeI) (simp_all add: rev_map [symmetric])
  then show ?thesis by (simp add: step_needs_def needs_of_def)
qed

section \<open>Ancestors\<close>

lemma collect_sound: "set (collect_ancestors G found pending) \<subseteq> set found \<union> (edges G)\<^sup>* `` set pending"
proof (induction G found pending rule: collect_ancestors.induct)
  case (1 G found pending)
  show ?case
  proof (cases "pending = []")
    case True
    then show ?thesis by (simp add: collect_ancestors.simps)
  next
    case ne: False
    then have l: "last pending \<in> set pending" and b: "set (butlast pending) \<subseteq> set pending"
      by (auto dest: in_set_butlastD)
    show ?thesis
    proof (cases "last pending \<in> set found")
      case True
      with 1(1) [OF ne] ne b show ?thesis by (subst collect_ancestors.simps) auto
    next
      case False
      have "(edges G)\<^sup>* `` set (step_needs G (last pending)) \<subseteq> (edges G)\<^sup>* `` set pending"
        using l by (auto intro!: ImageI [OF converse_rtrancl_into_rtrancl])
      moreover have "last pending \<in> (edges G)\<^sup>* `` set pending" using l by (auto intro: ImageI [OF rtrancl_refl])
      moreover have "(edges G)\<^sup>* `` set (butlast pending) \<subseteq> (edges G)\<^sup>* `` set pending" using b by blast
      moreover have "collect_ancestors G found pending
          = collect_ancestors G (last pending # found) (butlast pending @ step_needs G (last pending))"
        using ne False by (subst collect_ancestors.simps) simp
      ultimately show ?thesis using 1(2) [OF ne False] by (simp add: Image_Un) blast
    qed
  qed
qed

lemma collect_complete:
  assumes "\<forall>x \<in> set found. set (step_needs G x) \<subseteq> set found \<union> set pending"
  shows "set found \<union> set pending \<subseteq> set (collect_ancestors G found pending)
    \<and> (\<forall>x \<in> set (collect_ancestors G found pending). set (step_needs G x) \<subseteq> set (collect_ancestors G found pending))"
  using assms
proof (induction G found pending rule: collect_ancestors.induct)
  case (1 G found pending)
  show ?case
  proof (cases "pending = []")
    case True
    with 1(3) show ?thesis by (simp add: collect_ancestors.simps)
  next
    case ne: False
    then have split: "set pending = insert (last pending) (set (butlast pending))"
      using append_butlast_last_id [OF ne] by (metis Un_insert_right append_Nil2 list.simps(15) set_append sup_bot_right list.set(1))
    show ?thesis
    proof (cases "last pending \<in> set found")
      case True
      then have "set found \<union> set (butlast pending) = set found \<union> set pending" using split by auto
      with 1(1) [OF ne True] 1(3) ne True show ?thesis by (subst (1 2 3) collect_ancestors.simps) simp
    next
      case False
      have "\<forall>x \<in> set (last pending # found). set (step_needs G x)
          \<subseteq> set (last pending # found) \<union> set (butlast pending @ step_needs G (last pending))"
        using 1(3) split by auto
      with 1(2) [OF ne False] ne False split show ?thesis by (subst (1 2 3) collect_ancestors.simps) auto
    qed
  qed
qed

lemma ancestors_set: "set (ancestors G k) = {n. (k, n) \<in> (edges G)\<^sup>+}"
proof
  show "set (ancestors G k) \<subseteq> {n. (k, n) \<in> (edges G)\<^sup>+}"
    using collect_sound [of G "[]" "step_needs G k"]
    by (auto simp: ancestors_def dest!: subsetD intro: rtrancl_into_trancl2 [of k _ "edges G"])
  let ?A = "set (ancestors G k)"
  have A: "set (step_needs G k) \<subseteq> ?A" "\<forall>x \<in> ?A. set (step_needs G x) \<subseteq> ?A"
    using collect_complete [of "[]" G "step_needs G k"] by (simp_all add: ancestors_def)
  have "n \<in> ?A" if "(k, n) \<in> (edges G)\<^sup>+" for n
    using that by (induction rule: trancl_induct) (use A in auto)
  then show "{n. (k, n) \<in> (edges G)\<^sup>+} \<subseteq> ?A" by blast
qed

section \<open>Cycles\<close>

definition is_cycle :: "step_graph \<Rightarrow> string list \<Rightarrow> bool" where
  "is_cycle G c \<longleftrightarrow> 2 \<le> length c \<and> hd c = last c \<and> successively (\<lambda>a b. b \<in> set (step_needs G a)) c"

lemma path_trancl: "successively (\<lambda>a b. b \<in> set (step_needs G a)) (a # b # xs) \<Longrightarrow> (a, last (b # xs)) \<in> (edges G)\<^sup>+"
proof (induction xs arbitrary: a b)
  case (Cons x xs)
  then have "(b, last (x # xs)) \<in> (edges G)\<^sup>+" "(a, b) \<in> edges G" by simp_all
  then show ?case by (simp add: trancl_into_trancl2)
qed (simp add: trancl.r_into_trancl)

lemma cycle_not_acyclic: "is_cycle G c \<Longrightarrow> \<not> acyclic (edges G)"
proof -
  assume c: "is_cycle G c"
  then obtain a b xs where "c = a # b # xs" by (cases c rule: remdups_adj.cases) (auto simp: is_cycle_def)
  with c path_trancl [of G a b xs] show ?thesis by (auto simp: is_cycle_def acyclic_def)
qed

text \<open>
  What the search keeps: the grey steps are the path, each needed by the one before; what is black
  needs black steps only and lies on no cycle.
\<close>

definition search_inv :: "step_graph \<Rightarrow> colouring \<Rightarrow> string list \<Rightarrow> bool" where
  "search_inv G colour path \<longleftrightarrow> distinct path \<and> set path = {x. colour x = 1}
     \<and> successively (\<lambda>a b. b \<in> set (step_needs G a)) path \<and> (\<forall>x. colour x \<le> 2)
     \<and> (\<forall>x. colour x = 2 \<longrightarrow> (\<forall>n \<in> set (step_needs G x). colour n = 2) \<and> (x, x) \<notin> (edges G)\<^sup>+)"

lemma black_closed:
  assumes "(x, y) \<in> (edges G)\<^sup>+" and "P x" and "\<And>x n. P x \<Longrightarrow> n \<in> set (step_needs G x) \<Longrightarrow> P n"
  shows "P y"
  using assms by (induction rule: trancl_induct) auto

lemma cut_is_cycle:
  assumes "search_inv G colour path" and "colour n = 1" and "path \<noteq> []" and "n \<in> set (step_needs G (last path))"
  shows "is_cycle G (cut_cycle path n)"
proof -
  let ?c = "dropWhile (\<lambda>x. x \<noteq> n) path"
  have n: "n \<in> set path" using assms(1,2) by (auto simp: search_inv_def)
  then have ne: "?c \<noteq> []" by (auto simp: dropWhile_eq_Nil_conv)
  have hd: "hd ?c = n" using hd_dropWhile [OF ne] by simp
  have l: "last ?c = last path" using ne by (metis last_appendR takeWhile_dropWhile_id)
  have "path = takeWhile (\<lambda>x. x \<noteq> n) path @ ?c" by simp
  then have "successively (\<lambda>a b. b \<in> set (step_needs G a)) ?c"
    using assms(1) by (metis search_inv_def successively_append_iff)
  then have "successively (\<lambda>a b. b \<in> set (step_needs G a)) (?c @ [n])"
    using l assms(4) by (simp add: successively_append_iff)
  moreover have "2 \<le> length (?c @ [n])" "hd (?c @ [n]) = last (?c @ [n])"
    using ne hd by (simp_all add: Suc_le_eq)
  ultimately show ?thesis by (simp add: is_cycle_def cut_cycle_def)
qed

lemma enter_inv:
  assumes "search_inv G colour path" and "colour k = 0" and "path \<noteq> [] \<Longrightarrow> k \<in> set (step_needs G (last path))"
  shows "search_inv G (colour(k := 1)) (path @ [k])"
  using assms by (auto simp: search_inv_def successively_append_iff)

lemma leave_inv:
  assumes inv: "search_inv G colour (path @ [k])" and black: "\<forall>n \<in> set (step_needs G k). colour n = 2"
  shows "search_inv G (colour(k := 2)) path"
proof -
  have k: "colour k = 1" "k \<notin> set path" using inv by (auto simp: search_inv_def)
  have "(k, k) \<notin> (edges G)\<^sup>+"
  proof
    assume "(k, k) \<in> (edges G)\<^sup>+"
    then obtain n where n: "n \<in> set (step_needs G k)" and "(n, k) \<in> (edges G)\<^sup>*" by (auto dest: tranclD)
    then have "n = k \<or> (n, k) \<in> (edges G)\<^sup>+" by (auto simp: rtrancl_eq_or_trancl)
    moreover have "colour k = 2" if "(n, k) \<in> (edges G)\<^sup>+"
      by (rule black_closed [OF that]) (use inv black n in \<open>auto simp: search_inv_def\<close>)
    ultimately show False using black n k(1) by auto
  qed
  then show ?thesis using inv k black by (auto simp: search_inv_def successively_append_iff)
qed

text \<open>The search itself, with the depth that is left.\<close>

definition search_post :: "step_graph \<Rightarrow> colouring \<Rightarrow> string list \<Rightarrow> string list \<Rightarrow> visit_result \<Rightarrow> bool" where
  "search_post G colour path ks r \<longleftrightarrow> (case r of
     Cycle c \<Rightarrow> is_cycle G c
   | Visited colour' \<Rightarrow> search_inv G colour' path \<and> (\<forall>k \<in> set ks. colour' k = 2)
       \<and> (\<forall>x. colour x = 2 \<longrightarrow> colour' x = 2)
   | Too_Deep \<Rightarrow> False)"

lemma search_correct:
  shows "known_needs G \<Longrightarrow> search_inv G colour path \<Longrightarrow> colour k = 0
      \<Longrightarrow> (path \<noteq> [] \<Longrightarrow> k \<in> set (step_needs G (last path)))
      \<Longrightarrow> k \<in> fst ` set G \<Longrightarrow> set path \<subseteq> fst ` set G \<Longrightarrow> length G \<le> length path + depth
      \<Longrightarrow> search_post G colour path [k] (visit G depth colour path k)"
    and "known_needs G \<Longrightarrow> search_inv G colour path \<Longrightarrow> path \<noteq> [] \<Longrightarrow> set ns \<subseteq> set (step_needs G (last path))
      \<Longrightarrow> set path \<subseteq> fst ` set G \<Longrightarrow> length G \<le> length path + depth
      \<Longrightarrow> search_post G colour path ns (visit_needs G depth colour path ns)"
proof (induction G depth colour path k and G depth colour path ns rule: visit_visit_needs.induct)
  case (1 G colour path k)
  have "distinct (path @ [k])" using enter_inv [OF 1(2,3,4)] by (simp add: search_inv_def)
  moreover have "set (path @ [k]) \<subseteq> set (map fst G)" using 1(5,6) by simp
  ultimately have "length (path @ [k]) \<le> length (map fst G)"
    by (metis card_mono distinct_card finite_set card_length le_trans)
  with 1(7) show ?case by simp
next
  case (2 G depth colour path k)
  have inv: "search_inv G (colour(k := 1)) (path @ [k])" using enter_inv [OF 2(3,4,5)] .
  have post: "search_post G (colour(k := 1)) (path @ [k]) (step_needs G k)
      (visit_needs G depth (colour(k := 1)) (path @ [k]) (step_needs G k))"
    by (rule 2(1) [OF 2(2) inv]) (use 2(6,7,8) in auto)
  show ?case
  proof (cases "visit_needs G depth (colour(k := 1)) (path @ [k]) (step_needs G k)")
    case (Visited colour')
    with post have "search_inv G (colour'(k := 2)) path" by (intro leave_inv) (simp_all add: search_post_def)
    with Visited post 2(4) show ?thesis by (auto simp: search_post_def)
  qed (use post in \<open>simp_all add: search_post_def\<close>)
next
  case (3 G depth colour path)
  then show ?case by (simp add: search_post_def)
next
  case (4 G depth colour path n ns)
  have n: "n \<in> set (step_needs G (last path))" "set ns \<subseteq> set (step_needs G (last path))" using 4(7) by auto
  show ?case
  proof (cases "colour n = 1")
    case True
    then show ?thesis using cut_is_cycle [OF 4(5) True 4(6) n(1)] by (simp add: search_post_def)
  next
    case one: False
    show ?thesis
    proof (cases "colour n = 0")
      case zero: True
      have post: "search_post G colour path [n] (visit G depth colour path n)"
        by (rule 4(1) [OF one zero 4(4,5) zero _ edge_target [OF 4(4) n(1)] 4(8,9)]) (rule n(1))
      show ?thesis
      proof (cases "visit G depth colour path n")
        case (Visited colour')
        with post have "search_post G colour' path ns (visit_needs G depth colour' path ns)"
          by (intro 4(2) [OF one zero Visited 4(4) _ 4(6) n(2) 4(8,9)]) (simp add: search_post_def)
        with Visited post one zero show ?thesis by (auto simp: search_post_def split: visit_result.split)
      qed (use post one zero in \<open>simp_all add: search_post_def\<close>)
    next
      case False
      have "colour n \<le> 2" using 4(5) by (simp add: search_inv_def)
      with one False have "colour n = 2" by linarith
      with 4(3) [OF one False 4(4,5,6) n(2) 4(8,9)] one False show ?thesis
        by (auto simp: search_post_def split: visit_result.split)
    qed
  qed
qed

lemma search_all:
  assumes "known_needs G" and "search_inv G colour []" and "set ks \<subseteq> fst ` set G"
  shows "search_post G colour [] ks (search_cycle G colour ks)"
  using assms(2,3)
proof (induction ks arbitrary: colour)
  case (Cons k ks)
  show ?case
  proof (cases "colour k = 0")
    case zero: True
    have post: "search_post G colour [] [k] (visit G (length G) colour [] k)"
      by (rule search_correct(1) [OF assms(1) Cons.prems(1) zero]) (use Cons.prems(2) in auto)
    show ?thesis
    proof (cases "visit G (length G) colour [] k")
      case (Visited colour')
      with post Cons.IH [of colour'] Cons.prems(2) zero show ?thesis
        by (auto simp: search_post_def split: visit_result.split)
    qed (use post zero in \<open>simp_all add: search_post_def\<close>)
  next
    case False
    have "colour k \<le> 2" "colour k \<noteq> 1" using Cons.prems(1) by (auto simp: search_inv_def)
    with False have "colour k = 2" by linarith
    with Cons.IH [of colour] Cons.prems False show ?thesis
      by (auto simp: search_post_def split: visit_result.split)
  qed
qed (simp add: search_post_def)

lemma cycle_search_result:
  assumes "known_needs G"
  shows "if cycle_nodes G = [] then acyclic (edges G) else is_cycle G (cycle_nodes G)"
proof -
  let ?r = "search_cycle G (\<lambda>_. 0) (map fst G)"
  have "search_inv G (\<lambda>_. 0) []" by (simp add: search_inv_def)
  from search_all [OF assms this, of "map fst G"] have post: "search_post G (\<lambda>_. 0) [] (map fst G) ?r" by simp
  show ?thesis
  proof (cases ?r)
    case (Cycle c)
    with post show ?thesis by (auto simp: cycle_nodes_def search_post_def is_cycle_def)
  next
    case (Visited colour)
    have "(x, x) \<notin> (edges G)\<^sup>+" for x
    proof (cases "x \<in> fst ` set G")
      case True
      with post Visited show ?thesis by (auto simp: search_post_def search_inv_def)
    next
      case False
      then show ?thesis using edge_source by (auto dest: tranclD)
    qed
    with Visited show ?thesis by (simp add: cycle_nodes_def acyclic_def)
  next
    case Too_Deep
    with post show ?thesis by (simp add: search_post_def)
  qed
qed

section \<open>Reachability\<close>

lemma spread_complete:
  assumes "set pending \<subseteq> set reached"
    and "\<forall>x \<in> set reached - set pending. set (dependents G x) \<subseteq> set reached"
  shows "set reached \<subseteq> set (spread G reached pending)
    \<and> (\<forall>x \<in> set (spread G reached pending). set (dependents G x) \<subseteq> set (spread G reached pending))"
  using assms
proof (induction G reached pending rule: spread.induct)
  case (1 G reached pending)
  show ?case
  proof (cases pending)
    case Nil
    with 1(3) show ?thesis by (simp add: spread.simps)
  next
    case (Cons k rest)
    have "set (dependents G k) \<subseteq> set (reached @ new_children G reached k)" by (auto simp: new_children_def)
    then have "\<forall>x \<in> set (reached @ new_children G reached k) - set (rest @ new_children G reached k).
        set (dependents G x) \<subseteq> set (reached @ new_children G reached k)"
      using 1(3) Cons by auto
    moreover have "set (rest @ new_children G reached k) \<subseteq> set (reached @ new_children G reached k)"
      using 1(2) Cons by auto
    ultimately have "set (reached @ new_children G reached k)
          \<subseteq> set (spread G (reached @ new_children G reached k) (rest @ new_children G reached k))
        \<and> (\<forall>x \<in> set (spread G (reached @ new_children G reached k) (rest @ new_children G reached k)).
            set (dependents G x) \<subseteq> set (spread G (reached @ new_children G reached k) (rest @ new_children G reached k)))"
      by (intro 1(1) [OF Cons])
    with Cons show ?thesis by (subst (1 2 3) spread.simps) simp
  qed
qed

lemma reachable_closed:
  "set roots \<subseteq> set (reachable_from_roots G roots)"
  "x \<in> set (reachable_from_roots G roots) \<Longrightarrow> c \<in> set (dependents G x) \<Longrightarrow> c \<in> set (reachable_from_roots G roots)"
  using spread_complete [of roots "fromkeys roots" G] by (auto simp: reachable_from_roots_def)

lemma all_reachable:
  assumes "distinct (map fst G)" and "known_needs G" and "acyclic (edges G)" and "k \<in> fst ` set G"
  shows "k \<in> set (reachable_from_roots G (graph_roots G))"
proof -
  have "wf ((edges G)\<inverse>)" by (rule finite_acyclic_wf_converse [OF finite_edges assms(3)])
  then show ?thesis using assms(4)
  proof (induction k rule: wf_induct_rule)
    case (less k)
    then obtain ns where row: "(k, ns) \<in> set G" by auto
    have needs: "step_needs G k = ns" by (rule step_needs_row [OF assms(1) row])
    show ?case
    proof (cases ns)
      case Nil
      with row have "k \<in> set (graph_roots G)" by (force simp: graph_roots_def)
      then show ?thesis using reachable_closed(1) by blast
    next
      case (Cons n rest)
      then have n: "n \<in> set (step_needs G k)" using needs by simp
      with less.IH edge_target [OF assms(2) n] have "n \<in> set (reachable_from_roots G (graph_roots G))" by simp
      moreover have "k \<in> set (dependents G n)" using row Cons by (auto simp: dependents_iff)
      ultimately show ?thesis by (rule reachable_closed(2))
    qed
  qed
qed

lemma some_root:
  assumes "distinct (map fst G)" and "known_needs G" and "acyclic (edges G)" and "G \<noteq> []"
  shows "graph_roots G \<noteq> []"
proof
  assume none: "graph_roots G = []"
  obtain k ns G' where G: "G = (k, ns) # G'" using assms(4) by (cases G) auto
  have "k \<in> set (reachable_from_roots G [])" using all_reachable [OF assms(1-3), of k] G none by simp
  then show False by (simp add: reachable_from_roots_def fromkeys_def spread.simps)
qed

section \<open>Accepted graphs\<close>

definition well_formed_graph :: "step_graph \<Rightarrow> bool" where
  "well_formed_graph G \<longleftrightarrow> G \<noteq> [] \<and> distinct (map fst G) \<and> (\<forall>(k, ns) \<in> set G. distinct ns)
     \<and> known_needs G \<and> acyclic (edges G)"

lemma duplicates_Nil: "duplicates xs = [] \<longleftrightarrow> distinct xs"
proof -
  have "duplicates xs = [] \<longleftrightarrow> filter (\<lambda>x. 1 < count_list xs x) xs = []"
    by (simp add: duplicates_def sorted_set_def) (metis set_empty set_remdups set_sort)
  also have "\<dots> \<longleftrightarrow> (\<forall>x \<in> set xs. count_list xs x \<le> 1)" by (auto simp: filter_empty_conv not_less)
  also have "\<dots> \<longleftrightarrow> distinct xs"
    by (induction xs) (force simp: count_list_0_iff le_Suc_eq)+
  finally show ?thesis .
qed

lemma unknown_iff: "has_unknown_dependencies G \<longleftrightarrow> \<not> known_needs G"
  by (auto simp: has_unknown_dependencies_def known_needs_def list_ex_iff subset_iff)

lemma step_problems_Nil:
  "step_problems label G (k, ns) = [] \<longleftrightarrow> distinct ns \<and> k \<notin> set ns \<and> set ns \<subseteq> fst ` set G"
  by (auto simp: step_problems_def duplicates_Nil filter_empty_conv)

lemma order_problems_Nil:
  assumes "distinct (map fst G)" and "known_needs G"
  shows "order_problems label G = [] \<longleftrightarrow> acyclic (edges G)"
proof
  assume "order_problems label G = []"
  then show "acyclic (edges G)"
    using cycle_search_result [OF assms(2)] by (auto simp: order_problems_def split: if_splits)
next
  assume "acyclic (edges G)"
  then show "order_problems label G = []"
    using cycle_search_result [OF assms(2)] cycle_not_acyclic all_reachable [OF assms]
    by (auto simp: order_problems_def filter_empty_conv split: if_splits)
qed

lemma accepted_iff: "validate_graph label G = [] \<longleftrightarrow> well_formed_graph G"
proof
  assume ok: "validate_graph label G = []"
  then have d: "distinct (map fst G)" and p: "\<And>k ns. (k, ns) \<in> set G \<Longrightarrow> step_problems label G (k, ns) = []"
    and r: "graph_roots G \<noteq> []"
    by (auto simp: validate_graph_def duplicates_Nil split: if_splits)
  from p have known: "known_needs G" by (auto simp: known_needs_def step_problems_Nil)
  with ok d have "order_problems label G = []" by (auto simp: validate_graph_def duplicates_Nil unknown_iff)
  with d known order_problems_Nil p r show "well_formed_graph G"
    by (auto simp: well_formed_graph_def step_problems_Nil graph_roots_def)
next
  assume wf: "well_formed_graph G"
  then have G: "distinct (map fst G)" "known_needs G" "acyclic (edges G)" "G \<noteq> []"
    by (simp_all add: well_formed_graph_def)
  have "k \<notin> set ns" if row: "(k, ns) \<in> set G" for k ns
    using G(3) step_needs_row [OF G(1) row] trancl.r_into_trancl [of k k "edges G"] by (auto simp: acyclic_def)
  then have "step_problems label G (k, ns) = []" if "(k, ns) \<in> set G" for k ns
    using that wf by (auto simp: step_problems_Nil well_formed_graph_def known_needs_def)
  then show "validate_graph label G = []"
    using some_root [OF G] order_problems_Nil [OF G(1,2)] G(1,3)
    by (auto simp: validate_graph_def duplicates_Nil)
qed

end
