(* ===== verification/Workflow_Compile_Spec.thy ===== *)
theory Workflow_Compile_Spec
  imports Workflow_Compile Workflow_Graph_Spec
begin

text \<open>
  What the compiler guarantees to those who run a graph: an accepted graph can always go on, a reference
  names a proper ancestor, a path into an output follows the schema.  Also the lemmas on the author's form
  of expressions and on the data operators.
\<close>

section \<open>Graphs that can be executed\<close>

locale ordered_graphs =
  fixes ok :: "step_graph \<Rightarrow> bool"
  assumes ok_distinct: "ok G \<Longrightarrow> distinct (map fst G)"
    and ok_known: "ok G \<Longrightarrow> known_needs G"
    and ok_acyclic: "ok G \<Longrightarrow> acyclic (edges G)"
begin

lemma not_own_ancestor: "ok G \<Longrightarrow> k \<notin> set (ancestors G k)"
  using ok_acyclic [of G] by (auto simp: ancestors_set acyclic_def)

lemma ancestors_transitive: "b \<in> set (ancestors G a) \<Longrightarrow> c \<in> set (ancestors G b) \<Longrightarrow> c \<in> set (ancestors G a)"
  by (auto simp: ancestors_set)

lemma ancestor_known: "ok G \<Longrightarrow> n \<in> set (ancestors G k) \<Longrightarrow> n \<in> fst ` set G"
  using edge_target [OF ok_known [of G]] by (auto simp: ancestors_set dest!: tranclD2)

text \<open>As long as a step is left, one is left whose dependencies are done.\<close>

lemma ready_step:
  assumes "ok G" and "k \<in> fst ` set G - F"
  shows "\<exists>(s, ns) \<in> set G. s \<notin> F \<and> set ns \<subseteq> F"
proof -
  have "wf ((edges G)\<inverse>)" by (rule finite_acyclic_wf_converse [OF finite_edges ok_acyclic [OF assms(1)]])
  from wfE_min [OF this assms(2)] obtain s where s: "s \<in> fst ` set G - F"
    and min: "\<And>y. (y, s) \<in> (edges G)\<inverse> \<Longrightarrow> y \<notin> fst ` set G - F" by blast
  obtain ns where row: "(s, ns) \<in> set G" using s by auto
  have "step_needs G s = ns" by (rule step_needs_row [OF ok_distinct [OF assms(1)] row])
  with min edge_target [OF ok_known [OF assms(1)], of _ s] have "set ns \<subseteq> F" by auto
  with row s show ?thesis by auto
qed

end

lemma well_formed_laws:
  "well_formed_graph G \<Longrightarrow> distinct (map fst G)"
  "well_formed_graph G \<Longrightarrow> known_needs G"
  "well_formed_graph G \<Longrightarrow> acyclic (edges G)"
  by (auto simp: well_formed_graph_def)

interpretation validated: ordered_graphs "\<lambda>G. validate_graph label G = []" for label
  by unfold_locales (simp_all add: accepted_iff well_formed_laws)

section \<open>What a successful compilation has checked\<close>

lemma fromkeys_Nil [simp]: "fromkeys xs = [] \<longleftrightarrow> xs = []"
  by (simp add: fromkeys_def)

lemma compile_ok:
  "compile_workflow fp limits tools skills spec = Inr g \<Longrightarrow> compile_problems limits tools skills spec = []"
  by (auto simp: compile_workflow_def Let_def split: if_splits)

lemma compiled_parts:
  assumes "compile_workflow fp limits tools skills spec = Inr g"
  shows compiled_graph_ok: "validate_graph ''workflow'' (graph_of (wf_steps spec)) = []"
    and compiled_loops_ok: "s \<in> set (wf_steps spec) \<Longrightarrow> loop_problems limits s = []"
    and compiled_contracts_ok: "s \<in> set (wf_steps spec) \<Longrightarrow> step_contract_problems spec tools skills ''step'' s = []"
    and compiled_bodies_ok: "s \<in> set (wf_steps spec) \<Longrightarrow> body_problems spec tools skills s = []"
    and compiled_references_ok: "s \<in> set (wf_steps spec) \<Longrightarrow> step_reference_problems (top_context spec s) s = []"
    and compiled_scopes_ok: "scope_problems spec = []"
    and compiled_attempts_ok: "s \<in> set (iter_steps (wf_steps spec)) \<Longrightarrow> attempt_problems limits s = []"
  using compile_ok [OF assms] by (auto simp: compile_problems_def)

lemma checked_expression:
  assumes "step_reference_problems x s = []" and "(e, item) \<in> set (step_expressions s)" and "r \<in> set (iter_references e)"
  shows "validate_reference (x\<lparr>rc_allow_item := item \<or> rc_allow_item x\<rparr>) r = []"
  using assms by (fastforce simp: step_reference_problems_def)

lemma only_if_Nil [simp]: "only_if b m = [] \<longleftrightarrow> \<not> b"
  by (simp add: only_if_def)

lemma output_path_ok:
  "fst (output_path x r s path) = [] \<longleftrightarrow> (\<forall>S. s = Some S \<longrightarrow> schema_type_at_path S path \<noteq> None)"
  by (auto simp: output_path_def split: option.splits)

lemma step_reference_ok:
  assumes "validate_reference x r = []" and "parse_reference r = Inr (''steps'' # source # field # path)"
  shows "source \<in> fst ` set (rc_top x)"
    and "case rc_parent x of Some p \<Rightarrow> source \<in> set (ancestors (rc_top x) p) | None \<Rightarrow> source \<in> set (rc_ancestors x)"
    and "field \<in> set record_fields"
    and "field = ''output'' \<Longrightarrow> map_of (rc_outputs x) source = Some S \<Longrightarrow> schema_type_at_path S path \<noteq> None"
  using assms output_path_ok [of x r "map_of (rc_outputs x) source" path]
  by (auto simp: validate_reference_def check_reference_def step_reference_def Let_def
      split: if_splits prod.splits option.splits)

lemma item_reference_ok:
  assumes "validate_reference x r = []" and "parse_reference r = Inr (''item'' # ''steps'' # source # field # path)"
  shows "source \<in> set (rc_ancestors x)" and "field \<in> set record_fields"
    and "field = ''output'' \<Longrightarrow> map_of (rc_body_outputs x) source = Some S \<Longrightarrow> schema_type_at_path S path \<noteq> None"
  using assms output_path_ok [of x r "map_of (rc_body_outputs x) source" path]
  by (auto simp: validate_reference_def check_reference_def item_reference_def Let_def
      split: if_splits prod.splits option.splits)

section \<open>What a step reads\<close>

text \<open>
  The references that the runner may evaluate for a step: in its expressions, its \<open>when\<close> and its check; for a loop
  also those of the steps of its body and of its outputs.
\<close>

definition read_expressions :: "step \<Rightarrow> value_expr list" where
  "read_expressions s = (case st_kind s of
     Tool_Step _ args _ \<Rightarrow> map snd args
   | Data_Step _ args \<Rightarrow> map snd args
   | Model_Step m \<Rightarrow> map snd (mt_inputs m)
   | Agent_Step m _ _ \<Rightarrow> map snd (mt_inputs m)
   | Approval_Step _ prompt proposal items key \<Rightarrow> prompt # List.map_filter id [proposal, items, key]
   | Message_Step e \<Rightarrow> [e]
   | Foreach_Step items key _ _ _ _ _ \<Rightarrow> [items, key]
   | Check_Step _ \<Rightarrow> [])"

definition read_conditions :: "step \<Rightarrow> condition list" where
  "read_conditions s = (case st_when s of None \<Rightarrow> [] | Some c \<Rightarrow> [c])
     @ (case st_kind s of Check_Step (Condition_Check c) \<Rightarrow> [c] | _ \<Rightarrow> [])"

definition step_reads :: "step \<Rightarrow> string list" where
  "step_reads s = concat (map iter_references (read_expressions s)) @ map cd_ref (read_conditions s)"

definition loop_reads :: "step \<Rightarrow> string list" where
  "loop_reads s = concat (map step_reads (step_body s)) @ concat (map (iter_references \<circ> snd) (loop_outputs s))"

lemma read_expression_checked: "e \<in> set (read_expressions s) \<Longrightarrow> \<exists>item. (e, item) \<in> set (step_expressions s)"
  by (auto simp: read_expressions_def step_expressions_def map_filter_simps Let_def
      split: step_kind.splits option.splits)

text \<open>Every such reference was validated, in the context of the step or with items allowed.\<close>

lemma step_read_checked:
  assumes "step_reference_problems x s = []" and "r \<in> set (step_reads s)"
  shows "\<exists>b. validate_reference (x\<lparr>rc_allow_item := b\<rparr>) r = []"
proof (cases "\<exists>e \<in> set (read_expressions s). r \<in> set (iter_references e)")
  case True
  then obtain e item where "(e, item) \<in> set (step_expressions s)" "r \<in> set (iter_references e)"
    using read_expression_checked by blast
  from checked_expression [OF assms(1) this] show ?thesis by blast
next
  case False
  with assms(2) obtain c where c: "c \<in> set (read_conditions s)" "r = cd_ref c" by (auto simp: step_reads_def)
  then have "c \<in> set (step_conditions s)" by (simp add: read_conditions_def step_conditions_def)
  with assms(1) have "validate_condition x c = []" by (auto simp: step_reference_problems_def)
  then have "validate_reference x r = []" by (auto simp: validate_condition_def validate_reference_def c split: prod.splits)
  moreover have "x\<lparr>rc_allow_item := rc_allow_item x\<rparr> = x" by simp
  ultimately show ?thesis by metis
qed

text \<open>The contexts in which a top-level step and what belongs to it are checked.\<close>

definition checks_within :: "workflow_spec \<Rightarrow> step \<Rightarrow> reference_context \<Rightarrow> bool" where
  "checks_within spec s x \<longleftrightarrow> rc_top x = graph_of (wf_steps spec) \<and> rc_outputs x = output_schemas spec (wf_steps spec)
     \<and> (case rc_parent x of Some p \<Rightarrow> p = st_id s | None \<Rightarrow> rc_ancestors x = ancestors (graph_of (wf_steps spec)) (st_id s))"

lemma checks_contexts [simp]:
  "checks_within spec s (top_context spec s\<lparr>rc_allow_item := b\<rparr>)"
  "checks_within spec s (body_context spec s t\<lparr>rc_allow_item := b\<rparr>)"
  "checks_within spec s (projection_context spec s)"
  by (simp_all add: checks_within_def top_context_def body_context_def projection_context_def Let_def)

lemma body_read_checked:
  assumes "body_problems spec tools skills s = []" and "t \<in> set (step_body s)" and "r \<in> set (step_reads t)"
  shows "\<exists>b. validate_reference (body_context spec s t\<lparr>rc_allow_item := b\<rparr>) r = []"
proof -
  from assms(2) have "is_foreach s" by (auto simp: step_body_def is_foreach_def split: step_kind.splits)
  with assms(1,2) have "step_reference_problems (body_context spec s t) t = []" by (auto simp: body_problems_def)
  from step_read_checked [OF this assms(3)] show ?thesis .
qed

lemma loop_read_checked:
  assumes "body_problems spec tools skills s = []" and "r \<in> set (loop_reads s)"
  shows "\<exists>x. checks_within spec s x \<and> rc_body_outputs x = output_schemas spec (step_body s) \<and> validate_reference x r = []"
proof -
  from assms(2) have loop: "is_foreach s"
    by (auto simp: loop_reads_def step_body_def loop_outputs_def is_foreach_def split: step_kind.splits)
  from assms(2) consider t where "t \<in> set (step_body s)" "r \<in> set (step_reads t)"
    | n e where "(n, e) \<in> set (loop_outputs s)" "r \<in> set (iter_references e)"
    by (auto simp: loop_reads_def)
  then show ?thesis
  proof cases
    case (1 t)
    from body_read_checked [OF assms(1) this] obtain b where "validate_reference (body_context spec s t\<lparr>rc_allow_item := b\<rparr>) r = []" ..
    then show ?thesis
      by (intro exI [of _ "body_context spec s t\<lparr>rc_allow_item := b\<rparr>"]) (simp, simp add: body_context_def Let_def)
  next
    case (2 n e)
    with assms(1) loop have "validate_reference (projection_context spec s) r = []" by (fastforce simp: body_problems_def)
    then show ?thesis
      by (intro exI [of _ "projection_context spec s"]) (simp, simp add: projection_context_def Let_def)
  qed
qed

lemma read_checked:
  assumes "compile_workflow fp limits tools skills spec = Inr g" and "s \<in> set (wf_steps spec)"
    and "r \<in> set (step_reads s @ loop_reads s)"
  obtains x where "checks_within spec s x" and "validate_reference x r = []"
proof (cases "r \<in> set (step_reads s)")
  case True
  from step_read_checked [OF compiled_references_ok [OF assms(1,2)] this]
  obtain b where "validate_reference (top_context spec s\<lparr>rc_allow_item := b\<rparr>) r = []" ..
  with that [of "top_context spec s\<lparr>rc_allow_item := b\<rparr>"] show thesis by simp
next
  case False
  with assms(3) have "r \<in> set (loop_reads s)" by simp
  from loop_read_checked [OF compiled_bodies_ok [OF assms(1,2)] this] that show thesis by blast
qed

text \<open>Only \<open>trigger\<close>, \<open>steps\<close> and \<open>item\<close> start a reference, and something follows.\<close>

lemma parse_reference_shape:
  assumes "parse_reference r = Inr ps"
  shows "hd ps \<in> {''trigger'', ''steps'', ''item''} \<and> 2 \<le> length ps"
  using assms by (auto simp: parse_reference_def reference_re_def require_def Suc_le_eq split: if_splits list.splits)

section \<open>Schemas along a path\<close>

lemma collect_units: "collect f xs = Inr ys \<Longrightarrow> x \<in> set xs \<Longrightarrow> \<exists>y. f x = Inr y"
  by (induction xs arbitrary: ys) (auto simp: andthen_Inr)

lemma collect_ok: "(\<And>x. x \<in> set xs \<Longrightarrow> \<exists>y. f x = Inr y) \<Longrightarrow> \<exists>ys. collect f xs = Inr ys"
  by (induction xs) (auto simp: andthen_Inr)

lemma validate_object:
  assumes "validate_node p s v = Inr ()" and "rs_type s = S_Object" and "v \<noteq> JNull"
  obtains kvs where "v = JObj kvs" and "set (rs_required s) \<subseteq> fst ` set kvs"
    and "\<And>k c w. (k, c) \<in> set (rs_properties s) \<Longrightarrow> map_of kvs k = Some w \<Longrightarrow> validate_node (p @ ''.'' @ k) c w = Inr ()"
proof (cases s)
  case (Result_Schema t n r props items vs a b c d)
  from assms Result_Schema obtain kvs ys where "v = JObj kvs" "set r \<subseteq> fst ` set kvs"
    and ys: "collect (\<lambda>(k, s). case map_of kvs k of None \<Rightarrow> Inr ()
      | Some w \<Rightarrow> validate_node (p @ ''.'' @ k) s w) props = Inr ys"
    by (auto simp: andthen_Inr split: json.splits if_splits)
  with Result_Schema show ?thesis
    by (intro that [of kvs]) (auto dest: collect_units [OF ys])
qed

lemma schema_path_sound:
  assumes "validate_node p s v = Inr ()" and "schema_type_at_path s path = Some t" and "walk_path v path = Inr w"
  shows "\<exists>q. validate_node q t w = Inr ()"
  using assms
proof (induction path arbitrary: p s v)
  case (Cons k path)
  from Cons.prems(2) obtain c where obj: "rs_type s = S_Object" and c: "map_of (rs_properties s) k = Some c"
    and at: "schema_type_at_path c path = Some t" by (auto split: if_splits option.splits)
  from Cons.prems(3) have "v \<noteq> JNull" by auto
  from validate_object [OF Cons.prems(1) obj this] obtain kvs where v: "v = JObj kvs"
    and child: "\<And>w. map_of kvs k = Some w \<Longrightarrow> validate_node (p @ ''.'' @ k) c w = Inr ()"
    using map_of_SomeD [OF c] by metis
  from Cons.prems(3) v obtain w' where "map_of kvs k = Some w'" "walk_path w' path = Inr w"
    by (auto split: option.splits)
  with child Cons.IH [OF _ at] show ?case by blast
qed auto

text \<open>Every property on the path is required, and every object on it is there.\<close>

fun always_present :: "result_schema \<Rightarrow> string list \<Rightarrow> bool" where
  "always_present s [] = True"
| "always_present s (k # path) \<longleftrightarrow> \<not> rs_nullable s \<and> k \<in> set (rs_required s)
     \<and> (case map_of (rs_properties s) k of None \<Rightarrow> False | Some c \<Rightarrow> always_present c path)"

lemma validate_null: "validate_node p s JNull = Inr () \<longleftrightarrow> rs_nullable s"
  by (cases s) simp

lemma schema_path_progress:
  assumes "validate_node p s v = Inr ()" and "schema_type_at_path s path = Some t" and "always_present s path"
  shows "\<exists>w. walk_path v path = Inr w"
  using assms
proof (induction path arbitrary: p s v)
  case (Cons k path)
  from Cons.prems(2,3) obtain c where obj: "rs_type s = S_Object" and c: "map_of (rs_properties s) k = Some c"
    and at: "schema_type_at_path c path = Some t" and req: "k \<in> set (rs_required s)" "always_present c path" "\<not> rs_nullable s"
    by (auto split: if_splits option.splits)
  from Cons.prems(1) req have "v \<noteq> JNull" by (auto simp: validate_null)
  from validate_object [OF Cons.prems(1) obj this] obtain kvs where v: "v = JObj kvs" "k \<in> fst ` set kvs"
    and child: "\<And>w. map_of kvs k = Some w \<Longrightarrow> validate_node (p @ ''.'' @ k) c w = Inr ()"
    using map_of_SomeD [OF c] req(1) by (metis subsetD)
  from v obtain w where "map_of kvs k = Some w" by (cases "map_of kvs k") (auto simp: map_of_eq_None_iff)
  with child Cons.IH [OF _ at req(2)] v show ?case by auto
qed simp

text \<open>The position of a value only shows in messages.\<close>

lemma collect_unit_iff: "(\<exists>ys. collect f xs = Inr ys) \<longleftrightarrow> (\<forall>x \<in> set xs. f x = Inr ())"
  using collect_units collect_ok by (metis (full_types) old.unit.exhaust)

lemma collect_transfer:
  assumes "collect f xs = Inr us" and "\<And>x. x \<in> set xs \<Longrightarrow> f x = Inr () \<Longrightarrow> g x = Inr ()"
  shows "\<exists>us. collect g xs = Inr us"
  using assms collect_unit_iff [of f xs] collect_unit_iff [of g xs] by blast

lemma length_position: "check_length a b p n = Inr () \<longleftrightarrow> check_length a b q n = Inr ()"
  by (auto simp: check_length_def andthen_Inr)

lemma number_position: "check_number a b p n = Inr () \<longleftrightarrow> check_number a b q n = Inr ()"
  by (auto simp: check_number_def andthen_Inr)

lemma validate_position: "validate_node p s v = Inr () \<Longrightarrow> validate_node q s v = Inr ()"
proof (induction p s v arbitrary: q rule: validate_node.induct)
  case (1 p t nullable required props items vals low high minl maxl v)
  show ?case
  proof (cases t)
    case S_Object
    with 1 show ?thesis
      by (auto simp: andthen_Inr split: json.splits if_splits elim!: collect_transfer split: option.splits)
  next
    case S_Array
    with 1 show ?thesis
      by (auto simp: andthen_Inr length_position [of _ _ p _ q] split: json.splits option.splits if_splits
          elim!: collect_transfer)
  next
    case S_String
    with 1 show ?thesis by (auto simp: andthen_Inr length_position [of _ _ p _ q] split: json.splits if_splits)
  next
    case S_Integer
    with 1 show ?thesis by (auto simp: number_position [of _ _ p _ q] split: json.splits if_splits)
  next
    case S_Number
    with 1 show ?thesis by (auto simp: number_position [of _ _ p _ q] split: json.splits if_splits)
  next
    case S_Boolean
    with 1 show ?thesis by (auto split: json.splits if_splits)
  qed
qed

end
