(* ===== verification/Workflow_Values_Spec.thy ===== *)
theory Workflow_Values_Spec
  imports Workflow_Pure "HOL-Library.Multiset"
begin

text \<open>The author's form of expressions is stable, and the data operators keep every item.\<close>

section \<open>The author's form\<close>

text \<open>A document that spells out no expression with \<open>kind\<close> and wraps none in \<open>root\<close>.\<close>

fun author_style :: "json \<Rightarrow> bool" where
  "author_style (JArr xs) \<longleftrightarrow> list_all author_style xs"
| "author_style (JObj kvs) \<longleftrightarrow> known_kind (map_of kvs ''kind'') = None \<and> map fst kvs \<noteq> [''root'']
     \<and> list_all (\<lambda>(k, v). author_style v) kvs"
| "author_style _ \<longleftrightarrow> True"

lemma author_style_object: "map fst kvs \<noteq> [''root''] \<Longrightarrow> author_form (JObj kvs) = object_form kvs"
  by (auto simp: author_form_def unwrap_root_def split: list.split prod.split)

lemma named_list:
  "collect (\<lambda>(k, w). named k (f w)) m = Inr kes
    \<longleftrightarrow> list_all2 (\<lambda>(k, w) (k', e). k = k' \<and> f w = Inr e) m kes"
  unfolding collect_Inr by (intro list.rel_cong) (auto simp: named_Inr)

text \<open>The dictionary written back has the keys of the one read.\<close>

abbreviation to_authors :: "(string \<times> value_expr) list \<Rightarrow> (string \<times> json) list" where
  "to_authors kes \<equiv> map (\<lambda>(k, e). (k, to_author e)) kes"

lemma to_authors_keys:
  assumes "list_all2 (\<lambda>(k, w) (k', e). k = k' \<and> f w = Inr e) m kes"
  shows "map fst (to_authors kes) = map fst m"
  using assms by (induction rule: list_all2_induct) auto

lemma to_authors_value:
  assumes "list_all2 (\<lambda>(k, w) (k', e). k = k' \<and> f w = Inr e) m kes" and "map_of (to_authors kes) k = Some v"
  obtains w e where "map_of m k = Some w" and "f w = Inr e" and "v = to_author e"
  using assms by (induction m kes rule: list_all2_induct) (auto split: if_splits)

lemma to_authors_back:
  assumes "list_all2 (\<lambda>(k, w) (k', e). k = k' \<and> from_author w = Inr e) m kes"
    and "\<And>k w e. (k, w) \<in> set m \<Longrightarrow> from_author w = Inr e \<Longrightarrow> from_author (to_author e) = Inr e"
  shows "collect (\<lambda>(k, w). named k (from_author w)) (to_authors kes) = Inr kes"
  using assms by (induction rule: list_all2_induct) (fastforce simp: named_def)+

text \<open>A scalar is a literal, before and after.\<close>

lemma scalar_literal:
  assumes "from_author w = Inr e" and "\<not> unhashable (Some w)"
  shows "to_author e = w"
proof -
  have "author_form w = As_Literal w" using assms(2)
    by (cases w) (auto simp: author_form_def unwrap_root_def unhashable_def)
  with assms(1) show ?thesis by (auto simp: from_author.simps [of w])
qed

lemma kind_kept:
  assumes kes: "list_all2 (\<lambda>(k, w) (k', e). k = k' \<and> from_author w = Inr e) m kes"
    and hash: "\<not> unhashable (map_of m ''kind'')"
  shows "map_of (to_authors kes) ''kind'' = map_of m ''kind''"
proof (cases "map_of (to_authors kes) ''kind''")
  case None
  then have "''kind'' \<notin> set (map fst (to_authors kes))" by (metis map_of_eq_None_iff list.set_map)
  then have "''kind'' \<notin> set (map fst m)" unfolding to_authors_keys [OF kes] .
  then have "map_of m ''kind'' = None" by (metis map_of_eq_None_iff list.set_map)
  with None show ?thesis by simp
next
  case (Some v)
  from to_authors_value [OF kes Some] obtain w e
    where "map_of m ''kind'' = Some w" "from_author w = Inr e" "v = to_author e" by blast
  with hash Some scalar_literal [of w e] show ?thesis by simp
qed

lemma object_kept:
  assumes form: "object_form m = As_Object m" and kes: "list_all2 (\<lambda>(k, w) (k', e). k = k' \<and> from_author w = Inr e) m kes"
    and style: "known_kind (map_of m ''kind'') = None"
  shows "object_form (to_authors kes) = As_Object (to_authors kes)"
proof -
  have hash: "\<not> unhashable (map_of m ''kind'')" using form by (auto simp: object_form_def)
  have keys: "fst ` set (to_authors kes) = fst ` set m" by (metis list.set_map to_authors_keys [OF kes])
  from form hash style have "fst ` set m \<noteq> {''ref''}" "fst ` set m \<noteq> {''format'', ''values''}"
    by (auto simp: object_form_def plain_form_def object_field_def split: if_splits option.splits json.splits)
  then show ?thesis
    using hash style by (simp del: list.set_map set_map add: object_form_def kind_kept [OF kes hash] plain_form_def keys)
qed

lemma reference_back: "make_reference v = Inr e \<Longrightarrow> from_author (to_author e) = Inr e"
proof -
  assume "make_reference v = Inr e"
  then obtain r where e: "e = Reference_Expr r" and ok: "make_reference (JStr r) = Inr e"
    by (auto simp: make_reference_def andthen_Inr split: json.splits)
  have "author_form (to_author e) = As_Reference (JStr r)"
    by (simp add: e author_form_def unwrap_root_def object_form_def known_kind_def unhashable_def plain_form_def)
  then show ?thesis by (simp add: from_author.simps [of "to_author e"] ok)
qed

lemma format_back:
  assumes "make_format s kes = Inr e" and "collect (\<lambda>(k, w). named k (from_author w)) (to_authors kes) = Inr kes"
  shows "from_author (to_author e) = Inr e"
proof -
  have e: "e = Format_Expr s kes" using assms(1) by (auto simp: make_format_def andthen_Inr)
  have "author_form (to_author e) = As_Format (JStr s) (to_authors kes)"
    by (auto simp: e author_form_def unwrap_root_def object_form_def known_kind_def unhashable_def plain_form_def
        object_field_def)
  then show ?thesis using assms by (simp add: from_author.simps [of "to_author e"])
qed

text \<open>What the forms of a document in author style are.\<close>

lemma styled_unwrapped: "author_style v \<Longrightarrow> unwrap_root v = v"
  by (auto simp: unwrap_root_def split: json.split list.split prod.split)

lemma styled_form:
  assumes "author_style v"
  shows "author_form v = (case v of JArr xs \<Rightarrow> As_List xs | JObj kvs \<Rightarrow>
    (if unhashable (map_of kvs ''kind'') then Malformed ''TypeError: unhashable type'' else plain_form kvs) | w \<Rightarrow> As_Literal w)"
  using assms styled_unwrapped [OF assms] by (auto simp: author_form_def object_form_def split: json.split)

lemma styled_cases:
  assumes "author_style v"
  shows styled_literal: "author_form v = As_Literal w \<Longrightarrow> w = v"
    and styled_list: "author_form v = As_List xs \<Longrightarrow> v = JArr xs"
    and styled_object: "author_form v = As_Object m \<Longrightarrow> v = JObj m \<and> object_form m = As_Object m"
    and styled_format: "author_form v = As_Format t m \<Longrightarrow> list_all (\<lambda>(k, w). author_style w) m"
proof -
  show "author_form v = As_Literal w \<Longrightarrow> w = v" "author_form v = As_List xs \<Longrightarrow> v = JArr xs"
    by (auto simp: styled_form [OF assms] plain_form_def object_field_def
        split: json.splits if_splits option.splits)
  show "author_form v = As_Object m \<Longrightarrow> v = JObj m \<and> object_form m = As_Object m"
    using assms by (auto simp: styled_form [OF assms] object_form_def plain_form_def object_field_def
        split: json.splits if_splits option.splits)
  assume "author_form v = As_Format t m"
  then obtain kvs where v: "v = JObj kvs" and m: "map_of kvs ''values'' = Some (JObj m)"
    by (auto simp: styled_form [OF assms] plain_form_def object_field_def
        split: json.splits if_splits option.splits)
  from assms v map_of_SomeD [OF m] have "author_style (JObj m)" by (fastforce simp: list_all_iff)
  then show "list_all (\<lambda>(k, w). author_style w) m" by simp
qed

lemma author_form_back: "author_style v \<Longrightarrow> from_author v = Inr e \<Longrightarrow> from_author (to_author e) = Inr e"
proof (induction v arbitrary: e rule: from_author.induct)
  case (1 v)
  note style = \<open>author_style v\<close> and read = \<open>from_author v = Inr e\<close>
  show ?case
  proof (cases "author_form v")
    case (As_Literal w)
    with read styled_literal [OF style] have "e = Literal_Expr v" by (auto simp: from_author.simps [of v])
    with read show ?thesis by simp
  next
    case (As_Reference w)
    with read show ?thesis by (auto simp: from_author.simps [of v] intro: reference_back)
  next
    case (As_Format t m)
    with read obtain s kes where t: "t = JStr s" and make: "make_format s kes = Inr e"
      and kes: "list_all2 (\<lambda>(k, w) (k', e). k = k' \<and> from_author w = Inr e) m kes"
      by (auto simp: from_author.simps [of v] andthen_Inr named_list split: json.splits)
    from styled_format [OF style As_Format] have "\<And>k w. (k, w) \<in> set m \<Longrightarrow> author_style w"
      by (auto simp: list_all_iff)
    with "1.IH"(1) [OF As_Format t] to_authors_back [OF kes] format_back [OF make] show ?thesis by blast
  next
    case (As_List xs)
    with read obtain es where e: "e = List_Expr es" and es: "list_all2 (\<lambda>x e. from_author x = Inr e) xs es"
      by (auto simp: from_author.simps [of v] andthen_Inr collect_Inr)
    have style_x: "\<And>x. x \<in> set xs \<Longrightarrow> author_style x"
      using styled_list [OF style As_List] style by (auto simp: list_all_iff)
    have "from_author (to_author (es ! i)) = Inr (es ! i)" if "i < length es" for i
      using "1.IH"(2) [OF As_List, of "xs ! i"] style_x es that by (auto simp: list_all2_conv_all_nth)
    then have "collect from_author (map to_author es) = Inr es" by (simp add: collect_Inr list_all2_conv_all_nth)
    then show ?thesis by (simp add: e from_author.simps [of "JArr _"] author_form_def unwrap_root_def)
  next
    case (As_Object m)
    with read obtain kes where e: "e = Object_Expr kes"
      and kes: "list_all2 (\<lambda>(k, w) (k', e). k = k' \<and> from_author w = Inr e) m kes"
      by (auto simp: from_author.simps [of v] andthen_Inr named_list)
    have v: "v = JObj m" "object_form m = As_Object m" using styled_object [OF style As_Object] by auto
    have "author_form (to_author e) = As_Object (to_authors kes)"
      using object_kept [OF v(2) kes] style to_authors_keys [OF kes] by (simp add: v e author_style_object)
    moreover have "collect (\<lambda>(k, w). named k (from_author w)) (to_authors kes) = Inr kes"
      using to_authors_back [OF kes] "1.IH"(3) [OF As_Object] style v(1) by (fastforce simp: list_all_iff)
    ultimately show ?thesis by (simp add: from_author.simps [of "JObj (to_authors kes)"] e)
  next
    case (Malformed err)
    with read show ?thesis by (simp add: from_author.simps [of v])
  qed
qed

text \<open>A literal that looks like a reference is one after it has been written out and read back.\<close>

lemma literal_read_as_reference:
  assumes "reference_re r"
  shows "from_author (JObj [(''kind'', JStr ''literal''), (''value'', JObj [(''ref'', JStr r)])])
      = Inr (Literal_Expr (JObj [(''ref'', JStr r)]))
    \<and> from_author (to_author (Literal_Expr (JObj [(''ref'', JStr r)]))) = Inr (Reference_Expr r)"
  using assms by (simp add: from_author.simps [of "JObj _"] author_form_def unwrap_root_def object_form_def
      known_kind_def unhashable_def plain_form_def canonical_form_def only_keys_def make_reference_def require_def)

section \<open>Data operators\<close>

lemma keyed_items_iff:
  "keyed_items path xs = Inr items \<longleftrightarrow> map fst items = xs \<and> (\<forall>(x, v) \<in> set items. data_path path x = Inr v)"
proof -
  have "keyed_items path xs = Inr items \<longleftrightarrow> list_all2 (\<lambda>x (y, v). x = y \<and> data_path path y = Inr v) xs items"
    unfolding keyed_items_def collect_Inr by (intro list.rel_cong) (auto simp: andthen_Inr)
  also have "\<dots> \<longleftrightarrow> map fst items = xs \<and> (\<forall>(x, v) \<in> set items. data_path path x = Inr v)"
    by (induction items arbitrary: xs) (auto simp: list_all2_Cons2)
  finally show ?thesis .
qed

lemma mset_split:
  "mset (map g (filter P xs)) = mset (map g (filter (\<lambda>x. P x \<and> Q x) xs)) + mset (map g (filter (\<lambda>x. P x \<and> \<not> Q x) xs))"
  by (induction xs) auto

lemma mset_classes:
  assumes "distinct ns"
  shows "mset (map g (filter (\<lambda>x. f x \<in> Some ` set ns) xs))
    = sum_list (map (\<lambda>n. mset (map g (filter (\<lambda>x. f x = Some n) xs))) ns)"
  using assms
proof (induction ns)
  case (Cons n ns)
  have "filter (\<lambda>x. f x \<in> Some ` set (n # ns) \<and> f x \<noteq> Some n) xs = filter (\<lambda>x. f x \<in> Some ` set ns) xs"
    using Cons.prems by (intro filter_cong) auto
  moreover have "filter (\<lambda>x. f x \<in> Some ` set (n # ns) \<and> f x = Some n) xs = filter (\<lambda>x. f x = Some n) xs"
    by (intro filter_cong) auto
  ultimately show ?case
    using Cons mset_split [of g "\<lambda>x. f x \<in> Some ` set (n # ns)" xs "\<lambda>x. f x = Some n"] by simp
qed simp

text \<open>The bucket of a value is the first category equal to it.\<close>

definition first_match :: "(string \<times> json) list \<Rightarrow> json \<Rightarrow> string \<Rightarrow> bool" where
  "first_match categories v n \<longleftrightarrow> (\<exists>i < length categories. fst (categories ! i) = n \<and> py_eq v (snd (categories ! i))
     \<and> (\<forall>j < i. \<not> py_eq v (snd (categories ! j))))"

lemma bucket_iff:
  "bucket_of categories v = Some n \<Longrightarrow> first_match categories v n"
  "bucket_of categories v = None \<longleftrightarrow> (\<forall>(k, e) \<in> set categories. \<not> py_eq v e)"
  by (auto simp: bucket_of_def first_match_def find_Some_iff find_None_iff) fastforce

lemma bucket_names: "bucket_of categories v = Some n \<Longrightarrow> n \<in> set (map fst categories)"
  using bucket_iff(1) [of categories v n] by (auto simp: first_match_def)

lemma partition_result:
  assumes "run_partition xs path categories = Inr r"
  obtains items where "map fst items = xs" and "\<forall>(x, v) \<in> set items. data_path path x = Inr v"
    and "r = JObj [(''buckets'', JObj (map (\<lambda>n. (n, JArr (map fst (filter (\<lambda>(_, v). bucket_of categories v = Some n) items))))
           (map fst categories))),
         (''unmatched'', JArr (map fst (filter (\<lambda>(_, v). bucket_of categories v = None) items)))]"
  using assms by (auto simp: run_partition_def andthen_Inr keyed_items_iff Let_def comp_def case_prod_unfold)

lemma partition_mset:
  assumes "distinct (map fst categories)"
  shows "mset (map fst items)
    = sum_list (map (\<lambda>n. mset (map fst (filter (\<lambda>(_, v). bucket_of categories v = Some n) items))) (map fst categories))
      + mset (map fst (filter (\<lambda>(_, v). bucket_of categories v = None) items))"
proof -
  let ?f = "\<lambda>x. bucket_of categories (snd x)"
  have named: "filter (\<lambda>x. ?f x \<noteq> None) items = filter (\<lambda>x. ?f x \<in> Some ` set (map fst categories)) items"
    using bucket_names [of categories] by (intro filter_cong) auto
  have "mset (map fst items) = mset (map fst (filter (\<lambda>x. ?f x \<noteq> None) items)) + mset (map fst (filter (\<lambda>x. ?f x = None) items))"
    using mset_split [of fst "\<lambda>_. True" items "\<lambda>x. ?f x \<noteq> None"] by simp
  then show ?thesis
    unfolding named mset_classes [OF assms, of fst ?f items] by (simp add: case_prod_unfold)
qed

end
