(* ===== verification/Workflow_Properties.thy ===== *)
theory Workflow_Properties
  imports Workflow_Compile_Spec Workflow_Values_Spec
begin

text \<open>What the compiler of workflows, the expressions and the data operators promise.\<close>

section \<open>A small workflow\<close>

definition summary_schema :: result_schema where
  "summary_schema = Result_Schema S_Object False [''text''] [(''text'',
     Result_Schema S_String False [] [] None None None None None None)] None None None None None None"

definition plain_step :: "string \<Rightarrow> string list \<Rightarrow> step_kind \<Rightarrow> step" where
  "plain_step k needs kind = Step k needs On_Success Fail_Workflow None \<lparr>rp_max_attempts = 1, rp_on = []\<rparr> kind"

definition tell_step :: step where
  "tell_step = plain_step ''tell'' [''read''] (Message_Step (Reference_Expr ''steps.read.output.text''))"

definition copy_step :: step where
  "copy_step = plain_step ''copy'' [''note''] (Message_Step (Reference_Expr ''item.steps.note.status''))"

definition each_step :: step where
  "each_step = plain_step ''each'' [''read''] (Foreach_Step (Literal_Expr (JArr [JInt 1, JInt 2])) (Reference_Expr ''item.source'') []
     [plain_step ''note'' [] (Message_Step (Reference_Expr ''steps.read.output.text'')), copy_step] None None Item_Collect)"

definition digest_spec :: workflow_spec where
  "digest_spec = \<lparr>wf_name = ''digest'', wf_args = [], wf_schemas = [(''summary'', summary_schema)],
     wf_steps = [
       plain_step ''read'' [] (Model_Step \<lparr>mt_instruction = Some ''read'', mt_instruction_file = None, mt_inputs = [],
         mt_result_schema = ''summary'', mt_skill = None\<rparr>),
       tell_step, each_step],
     wf_max_parallel_steps = None\<rparr>"

definition small_limits :: workflow_settings where
  "small_limits = \<lparr>ws_max_parallel_steps = 4, ws_max_parallel_items = 4, ws_max_schema_depth = 12,
     ws_max_foreach_items = 100, ws_model_attempts = 2, ws_agent_iterations = 8, ws_max_binding_chars = 1000,
     ws_max_result_chars = 1000\<rparr>"

lemma digest_compiles: "compile_problems small_limits (\<lambda>_. None) [] digest_spec = []"
  by code_simp

section \<open>Graphs\<close>

text \<open>
  C31: The validation of a graph of steps reports no problem exactly if the graph is well-formed: it has
  steps, no id and no dependency twice, only dependencies on its own steps and no circular dependency.
\<close>
theorem workflow_graph_accepted: "validate_graph label G = [] \<longleftrightarrow> well_formed_graph G"
  by (rule accepted_iff)

text \<open>
  C32: In a graph without unknown dependencies, the depth-first search for a cycle ends within as many levels
  of recursion as there are steps; it reports a closed path of dependencies if there is one, and nothing
  only if the dependencies are acyclic.
\<close>
theorem cycle_search_ends:
  assumes "known_needs G"
  shows "search_cycle G (\<lambda>_. 0) (map fst G) \<noteq> Too_Deep
    \<and> (if cycle_nodes G = [] then acyclic (edges G) else is_cycle G (cycle_nodes G))"
proof
  have "search_inv G (\<lambda>_. 0) []" by (simp add: search_inv_def)
  from search_all [OF assms this, of "map fst G"] show "search_cycle G (\<lambda>_. 0) (map fst G) \<noteq> Too_Deep"
    by (auto simp: search_post_def)
  show "if cycle_nodes G = [] then acyclic (edges G) else is_cycle G (cycle_nodes G)"
    by (rule cycle_search_result [OF assms])
qed

theorem cycle_search_ends_witness:
  "cycle_nodes [(''a'', [''b'']), (''b'', [''c'', ''a'']), (''c'', [])] = [''a'', ''b'', ''a'']
   \<and> is_cycle [(''a'', [''b'']), (''b'', [''c'', ''a'']), (''c'', [])] [''a'', ''b'', ''a'']"
proof -
  have "known_needs [(''a'', [''b'']), (''b'', [''c'', ''a'']), (''c'', [])]" by (simp add: known_needs_def)
  moreover have c: "cycle_nodes [(''a'', [''b'']), (''b'', [''c'', ''a'']), (''c'', [])] = [''a'', ''b'', ''a'']"
    by code_simp
  ultimately show ?thesis using cycle_search_ends [of "[(''a'', [''b'']), (''b'', [''c'', ''a'']), (''c'', [])]"]
    by simp
qed

section \<open>References\<close>



text \<open>
  C30: In a compiled workflow, a path into the output of a model step, wherever a step, a loop's body or its outputs read
  it (in a loop also the output of a model step of the body for the same item), ends in a declared schema \<open>t\<close>, and for
  every output that the step's schema accepts, what the path leads to is accepted by \<open>t\<close>.  It leads
  somewhere if each property on it is required and no object on it may be null.
\<close>
theorem compiled_output_typed:
  assumes "compile_workflow fp limits tools skills spec = Inr g" and "s \<in> set (wf_steps spec)"
    and "r \<in> set (step_reads s @ loop_reads s) \<and> parse_reference r = Inr (''steps'' # source # ''output'' # path)
        \<and> map_of (output_schemas spec (wf_steps spec)) source = Some S
      \<or> r \<in> set (loop_reads s) \<and> parse_reference r = Inr (''item'' # ''steps'' # source # ''output'' # path)
        \<and> map_of (output_schemas spec (step_body s)) source = Some S"
  shows "\<exists>t. schema_type_at_path S path = Some t \<and> (\<forall>out. validate_result S out = Inr out \<longrightarrow>
      (\<forall>w. walk_path out path = Inr w \<longrightarrow> validate_result t w = Inr w)
    \<and> (always_present S path \<longrightarrow> (\<exists>w. walk_path out path = Inr w)))"
proof -
  from assms(3) have "schema_type_at_path S path \<noteq> None"
  proof
    assume r: "r \<in> set (step_reads s @ loop_reads s) \<and> parse_reference r = Inr (''steps'' # source # ''output'' # path)
        \<and> map_of (output_schemas spec (wf_steps spec)) source = Some S"
    from read_checked [OF assms(1,2) conjunct1 [OF r]] obtain x where x: "checks_within spec s x" "validate_reference x r = []" .
    with r show ?thesis by (intro step_reference_ok(4) [OF x(2), of source "''output''"]) (auto simp: checks_within_def)
  next
    assume r: "r \<in> set (loop_reads s) \<and> parse_reference r = Inr (''item'' # ''steps'' # source # ''output'' # path)
        \<and> map_of (output_schemas spec (step_body s)) source = Some S"
    from loop_read_checked [OF compiled_bodies_ok [OF assms(1,2)] conjunct1 [OF r]] obtain x where
      x: "rc_body_outputs x = output_schemas spec (step_body s)" "validate_reference x r = []" by blast
    with r show ?thesis by (intro item_reference_ok(3) [OF x(2), of source "''output''"]) auto
  qed
  then obtain t where t: "schema_type_at_path S path = Some t" by blast
  have valid: "validate_result x v = Inr v \<longleftrightarrow> validate_node ''$'' x v = Inr ()" for x v
    by (auto simp: validate_result_def andthen_Inr)
  show ?thesis unfolding valid
    using t schema_path_sound [OF _ t, of "''$''"] schema_path_progress [OF _ t, of "''$''"] validate_position by blast
qed

theorem compiled_output_typed_witness:
  "\<exists>t. schema_type_at_path summary_schema [''text''] = Some t \<and> rs_type t = S_String
    \<and> (\<forall>out. validate_result summary_schema out = Inr out \<longrightarrow> (\<exists>w. walk_path out [''text''] = Inr w))"
proof -
  obtain g where g: "compile_workflow (\<lambda>_ _. []) small_limits (\<lambda>_. None) [] digest_spec = Inr g"
    by (simp add: compile_workflow_def digest_compiles)
  have tell: "tell_step \<in> set (wf_steps digest_spec)" by code_simp
  have read: "''steps.read.output.text'' \<in> set (step_reads tell_step @ loop_reads tell_step)"
    "parse_reference ''steps.read.output.text'' = Inr (''steps'' # ''read'' # ''output'' # [''text''])"
    "map_of (output_schemas digest_spec (wf_steps digest_spec)) ''read'' = Some summary_schema" by code_simp+
  have schema: "always_present summary_schema [''text'']"
    "map_option rs_type (schema_type_at_path summary_schema [''text'']) = Some S_String" by code_simp+
  from compiled_output_typed [OF g tell, OF disjI1, OF conjI, OF read(1) conjI, OF read(2,3)] schema show ?thesis
    by (auto simp del: schema_type_at_path.simps walk_path.simps always_present.simps)
qed

section \<open>Expressions and data\<close>

text \<open>
  C33: An expression written in the author's style, without spelled-out kinds, is read back unchanged from the
  form in which it is stored.
\<close>
theorem expression_roundtrip:
  assumes "author_style v" and "from_author v = Inr e"
  shows "from_author (to_author e) = Inr e"
  using assms by (rule author_form_back)

theorem expression_roundtrip_witness:
  "from_author (to_author (Object_Expr [(''to'', Literal_Expr (JStr ''me'')), (''what'', Reference_Expr ''steps.a.output'')]))
    = Inr (Object_Expr [(''to'', Literal_Expr (JStr ''me'')), (''what'', Reference_Expr ''steps.a.output'')])"
proof -
  let ?v = "JObj [(''to'', JStr ''me''), (''what'', JObj [(''ref'', JStr ''steps.a.output'')])]"
  have "author_style ?v" by code_simp
  moreover have "from_author ?v = Inr (Object_Expr [(''to'', Literal_Expr (JStr ''me'')), (''what'', Reference_Expr ''steps.a.output'')])"
    by code_simp
  ultimately show ?thesis by (rule expression_roundtrip)
qed

text \<open>
  C34: Partitioning loses and duplicates no item: the buckets, one per category in the order of the
  categories, and the unmatched items together are the items.  An item is in the bucket of the first
  category that its value equals, and unmatched if there is none.
\<close>
theorem partition_keeps_items:
  assumes "run_partition xs path categories = Inr r" and "distinct (map fst categories)"
  shows "\<exists>bs us. r = JObj [(''buckets'', JObj (map (\<lambda>(n, ys). (n, JArr ys)) bs)), (''unmatched'', JArr us)]
    \<and> map fst bs = map fst categories \<and> mset xs = sum_list (map (mset \<circ> snd) bs) + mset us
    \<and> (\<forall>(n, ys) \<in> set bs. \<forall>x \<in> set ys. \<exists>v. data_path path x = Inr v \<and> first_match categories v n)
    \<and> (\<forall>x \<in> set us. \<exists>v. data_path path x = Inr v \<and> (\<forall>(k, e) \<in> set categories. \<not> py_eq v e))"
proof -
  from partition_result [OF assms(1)] obtain items where items: "map fst items = xs" "\<forall>(x, v) \<in> set items. data_path path x = Inr v"
    and r: "r = JObj [(''buckets'', JObj (map (\<lambda>n. (n, JArr (map fst (filter (\<lambda>(_, v). bucket_of categories v = Some n) items))))
           (map fst categories))),
         (''unmatched'', JArr (map fst (filter (\<lambda>(_, v). bucket_of categories v = None) items)))]" .
  let ?bs = "map (\<lambda>n. (n, map fst (filter (\<lambda>(_, v). bucket_of categories v = Some n) items))) (map fst categories)"
  let ?us = "map fst (filter (\<lambda>(_, v). bucket_of categories v = None) items)"
  have "r = JObj [(''buckets'', JObj (map (\<lambda>(n, ys). (n, JArr ys)) ?bs)), (''unmatched'', JArr ?us)]" by (simp add: r)
  moreover have "map fst ?bs = map fst categories" by (simp add: comp_def)
  moreover have "mset xs = sum_list (map (mset \<circ> snd) ?bs) + mset ?us"
    using partition_mset [OF assms(2), of items] items(1) by (simp add: comp_def)
  moreover have "\<forall>(n, ys) \<in> set ?bs. \<forall>x \<in> set ys. \<exists>v. data_path path x = Inr v \<and> first_match categories v n"
    using items(2) bucket_iff(1) [of categories] by fastforce
  moreover have "\<forall>x \<in> set ?us. \<exists>v. data_path path x = Inr v \<and> (\<forall>(k, e) \<in> set categories. \<not> py_eq v e)"
    using items(2) bucket_iff(2) [of categories] by fastforce
  ultimately show ?thesis by blast
qed

theorem partition_keeps_items_witness:
  "run_partition [JInt 1, JInt 2, JInt 3, JInt 1] [] [(''one'', JInt 1), (''two'', JInt 2)]
    = Inr (JObj [(''buckets'', JObj [(''one'', JArr [JInt 1, JInt 1]), (''two'', JArr [JInt 2])]), (''unmatched'', JArr [JInt 3])])
   \<and> (\<exists>(bs :: (string \<times> json list) list) us. mset [JInt 1, JInt 2, JInt 3, JInt 1] = sum_list (map (mset \<circ> snd) bs) + mset us)"
proof -
  have run: "run_partition [JInt 1, JInt 2, JInt 3, JInt 1] [] [(''one'', JInt 1), (''two'', JInt 2)]
    = Inr (JObj [(''buckets'', JObj [(''one'', JArr [JInt 1, JInt 1]), (''two'', JArr [JInt 2])]), (''unmatched'', JArr [JInt 3])])"
    by code_simp
  have d: "distinct (map fst [(''one'', JInt 1), (''two'', JInt 2)])" by simp
  from partition_keeps_items [OF run d]
  have "\<exists>(bs :: (string \<times> json list) list) us. mset [JInt 1, JInt 2, JInt 3, JInt 1] = sum_list (map (mset \<circ> snd) bs) + mset us" by blast
  with run show ?thesis by blast
qed

end
