(* ===== verification/Tool_Registry.thy ===== *)
theory Tool_Registry
  imports Delegation Workflow_Compile
begin

text \<open>
  The registry of tools and its dispatch boundary (\<open>ricky/tools/registry.py\<close>).  A tool is what it declares
  (\<open>workflow_tool\<close>) with its methods as functions: the parameter model, the permission hooks, the run.
  A run acts on the outside world \<open>'w\<close>.  A tool result with no data has the data null.
\<close>

type_synonym args = "(string \<times> json) list"

record grant_scope =
  gs_params :: args
  gs_label :: string
  gs_unconstrained :: bool
  gs_requires_permission :: bool
  gs_directory :: "(string \<times> string \<times> string) option"

record prepared_payload =
  pp_tool :: string
  pp_summary :: "string option"
  pp_payload :: json

text \<open>
  \<open>rt_params\<close> normalises and validates arguments: the paths it rewrote with the canonical arguments or the
  rendered error.  \<open>rt_result\<close> is the \<open>Result\<close> model.
\<close>

record 'w registered_tool =
  rt_declared :: workflow_tool
  rt_fresh_review :: bool
  rt_bounded :: bool
  rt_params :: "args \<Rightarrow> string list \<times> args checked"
  rt_permission_args :: "(args \<Rightarrow> args) option"
  rt_scope :: "(args \<Rightarrow> grant_scope option) option"
  rt_summary :: "(args \<Rightarrow> string) option"
  rt_prepare :: "(args \<Rightarrow> 'w \<Rightarrow> prepared_payload checked) option"
  rt_run :: "args \<Rightarrow> prepared_payload option \<Rightarrow> ('w, tool_result) action"
  rt_result :: "(json \<Rightarrow> json checked) option"
  rt_idempotency_key :: "(args \<Rightarrow> json) option"

type_synonym 'w tool_registry = "string \<Rightarrow> 'w registered_tool option"

definition error_result :: "string \<Rightarrow> tool_result" where
  "error_result content = plain_result content JNull True None"

definition receipt_of :: "effect_disposition \<Rightarrow> effect_receipt" where
  "receipt_of d = \<lparr>er_disposition = d, er_provider_reference = None, er_attempt_reason = None, er_action_id = None\<rparr>"

section \<open>Arguments\<close>

record prepared_arguments =
  pa_args :: "args option"
  pa_paths :: "string list"
  pa_error :: "tool_result option"

text \<open>The details of a validation error are part of its text only.\<close>

definition rejected :: "string list \<Rightarrow> string \<Rightarrow> string \<Rightarrow> string \<Rightarrow> prepared_arguments" where
  "rejected paths kind name content = \<lparr>pa_args = None, pa_paths = paths, pa_error = Some ((error_result content)
     \<lparr>tr_data := JObj [(''error'', JStr kind), (''tool'', JStr name)]\<rparr>)\<rparr>"

definition prepare_args :: "'w tool_registry \<Rightarrow> string \<Rightarrow> args \<Rightarrow> string option \<Rightarrow> prepared_arguments" where
  "prepare_args reg name args parse_error = (case reg name of
     None \<Rightarrow> rejected [] ''unknown_tool'' name (''Unknown tool: '' @ name @ ''. Choose a tool from the provided catalog.'')
   | Some t \<Rightarrow> (case parse_error of
       Some e \<Rightarrow> rejected [] ''malformed_json'' name (''Malformed arguments for '' @ name @ '': the provider returned '' @ e
         @ ''. Reissue the tool call with one valid JSON object.'')
     | None \<Rightarrow> (case rt_params t args of
         (paths, Inl e) \<Rightarrow> rejected paths ''invalid_arguments'' name e
       | (paths, Inr canonical) \<Rightarrow> \<lparr>pa_args = Some canonical, pa_paths = paths, pa_error = None\<rparr>)))"

definition permission_args :: "'w tool_registry \<Rightarrow> string \<Rightarrow> args \<Rightarrow> args" where
  "permission_args reg name args = (case Option.bind (reg name) rt_permission_args of None \<Rightarrow> args | Some f \<Rightarrow> f args)"

definition permission_scope :: "'w tool_registry \<Rightarrow> string \<Rightarrow> args \<Rightarrow> grant_scope option" where
  "permission_scope reg name args = (case Option.bind (reg name) rt_scope of None \<Rightarrow> None | Some f \<Rightarrow> f args)"

definition permission_summary :: "'w tool_registry \<Rightarrow> string \<Rightarrow> args \<Rightarrow> string option" where
  "permission_summary reg name args = map_option (\<lambda>f. f args) (Option.bind (reg name) rt_summary)"

section \<open>Results\<close>

definition bounded_suffix :: "string \<Rightarrow> nat \<Rightarrow> string \<Rightarrow> string" where
  "bounded_suffix content limit marker =
     (if limit = 0 then []
      else if limit \<le> length marker then drop (length marker - limit) marker
      else take (limit - length marker) content @ marker)"

definition truncation_marker :: string where
  "truncation_marker = CHR 0x0A # ''[truncated]''"

definition truncate_result :: "nat \<Rightarrow> tool_result \<Rightarrow> tool_result" where
  "truncate_result limit r = (if length (tr_content r) \<le> limit then r
     else r\<lparr>tr_content := bounded_suffix (tr_content r) limit truncation_marker, tr_full_chars := Some (length (tr_content r))\<rparr>)"

text \<open>
  \<open>dl_head_chars n\<close> is the part of \<open>n\<close> characters that the head of an excerpt takes, \<open>floor\<close> of the product
  with the floating-point fraction of the settings; as that fraction is at most one, so is the part at most \<open>n\<close>.
\<close>

record dispatch_limits =
  dl_max_result_chars :: nat
  dl_enabled :: bool
  dl_offload_threshold :: nat
  dl_excerpt_chars :: nat
  dl_head_chars :: "nat \<Rightarrow> nat"

text \<open>
  The sink that keeps large results (\<open>ToolArtifactSink\<close>): from call, tool, text and the size of the excerpt to
  a reference, or the type of the exception it raised.
\<close>

type_synonym 'w artifact_sink = "string \<Rightarrow> string \<Rightarrow> string \<Rightarrow> nat \<Rightarrow> 'w \<Rightarrow> 'w \<times> (string + artifact_ref)"

record 'w call_context =
  cx_call_id :: "string option"
  cx_sink :: "'w artifact_sink option"

record text_excerpt =
  ex_head :: string
  ex_tail :: string
  ex_omitted :: nat

definition excerpt :: "string \<Rightarrow> nat \<Rightarrow> (nat \<Rightarrow> nat) \<Rightarrow> text_excerpt" where
  "excerpt content budget head_chars =
     (let n = min (length content) budget; h = head_chars n;
          head = take h content; tail = drop (length content - (n - h)) content
      in \<lparr>ex_head = head, ex_tail = tail, ex_omitted = length content - length head - length tail\<rparr>)"

text \<open>The format \<open>{n:,}\<close>\<close>

fun with_commas :: "nat \<Rightarrow> string" where
  "with_commas n = (if n < 1000 then show_nat n
     else with_commas (n div 1000) @ '','' @ tl (show_nat (1000 + n mod 1000)))"

declare with_commas.simps [simp del]

definition render_offloaded :: "string \<Rightarrow> artifact_ref \<Rightarrow> text_excerpt \<Rightarrow> string" where
  "render_offloaded name ref e =
     ''[tool result offloaded]'' @ CHR 0x0A # ''artifact: '' @ af_id ref @ CHR 0x0A # ''tool: '' @ name
     @ CHR 0x0A # ''full size: '' @ with_commas (af_full_chars ref) @ '' chars'' @ CHR 0x0A # ''sha256: '' @ af_sha256 ref
     @ CHR 0x0A # CHR 0x0A # ''<head excerpt>'' @ CHR 0x0A # ex_head e
     @ CHR 0x0A # ''[omitted '' @ with_commas (ex_omitted e) @ '' chars; use read_tool_artifact]''
     @ CHR 0x0A # ''<tail excerpt>'' @ CHR 0x0A # ex_tail e"

definition lost_marker :: string where
  "lost_marker = CHR 0x0A # ''[non-recoverably truncated]''"

text \<open>A long result is given to the sink and shown as an excerpt; without a sink, or when it raises, it is cut.\<close>

definition bound_result ::
  "dispatch_limits \<Rightarrow> 'w call_context \<Rightarrow> string \<Rightarrow> tool_result \<Rightarrow> 'w \<Rightarrow> 'w \<times> tool_result" where
  "bound_result limits ctx name r w =
     (let content = tr_content r; limit = dl_max_result_chars limits in
      if length content \<le> min (dl_offload_threshold limits) limit then (w, r)
      else case (dl_enabled limits, cx_sink ctx, cx_call_id ctx) of
        (True, Some sink, Some k) \<Rightarrow>
          (let e = excerpt content (dl_excerpt_chars limits) (dl_head_chars limits) in
           case sink k name content (length (ex_head e) + length (ex_tail e)) w of
             (w', Inl exn) \<Rightarrow> (w', r\<lparr>tr_content := bounded_suffix content limit lost_marker,
                tr_full_chars := Some (length content), tr_offload_error := Some exn\<rparr>)
           | (w', Inr ref) \<Rightarrow> (w', r\<lparr>tr_content := render_offloaded name ref e, tr_artifact := Some ref,
                tr_full_chars := Some (length content)\<rparr>))
      | _ \<Rightarrow> (w, truncate_result limit r))"

definition declared_effect :: "workflow_tool \<Rightarrow> tool_effect_kind option" where
  "declared_effect t = (case wt_metadata t of Inr m \<Rightarrow> Some (tm_effect_kind m) | Inl _ \<Rightarrow> None)"

definition validate_tool_result :: "string \<Rightarrow> 'w registered_tool \<Rightarrow> tool_result \<Rightarrow> tool_result" where
  "validate_tool_result name t r =
     (if declared_effect (rt_declared t) = Some External_Effect \<and> tr_receipt r = None
      then r\<lparr>tr_content := tr_content r @ (CHR 0x0A # ''[contract error: '') @ name @ '' returned no external-effect receipt]'',
             tr_is_error := True, tr_receipt := Some (receipt_of In_Doubt)\<rparr>
      else case rt_result t of
        None \<Rightarrow> r
      | Some model \<Rightarrow>
          if tr_is_error r then r
          else if tr_data r = JNull
          then r\<lparr>tr_content := name @ '' returned no structured data for its Result model'', tr_is_error := True\<rparr>
          else case model (tr_data r) of
            Inl e \<Rightarrow> r\<lparr>tr_content := name @ '' returned invalid structured data: '' @ e, tr_is_error := True, tr_data := JNull\<rparr>
          | Inr d \<Rightarrow> r\<lparr>tr_data := d\<rparr>)"

definition finish_result ::
  "dispatch_limits \<Rightarrow> 'w call_context \<Rightarrow> string \<Rightarrow> 'w registered_tool \<Rightarrow> tool_result \<Rightarrow> 'w \<Rightarrow> 'w \<times> tool_result" where
  "finish_result limits ctx name t r w =
     (let v = validate_tool_result name t r in
      if rt_bounded t then (w, v) else bound_result limits ctx name v w)"

definition exn_text :: "py_exn \<Rightarrow> string" where
  "exn_text e = (case e of ValueError m \<Rightarrow> m | TypeError m \<Rightarrow> m | OSError m \<Rightarrow> m | OtherException m \<Rightarrow> m)"

section \<open>Dispatch\<close>

text \<open>A tool that raises has failed; what it did to the world stays.\<close>

definition run_tool ::
  "dispatch_limits \<Rightarrow> 'w call_context \<Rightarrow> string \<Rightarrow> 'w registered_tool \<Rightarrow> args \<Rightarrow> prepared_payload option \<Rightarrow> 'w
    \<Rightarrow> 'w \<times> tool_result" where
  "run_tool limits ctx name t args payload w = (case rt_run t args payload w of (w', r) \<Rightarrow>
     finish_result limits ctx name t (case r of Inl e \<Rightarrow> error_result (name @ '' failed: '' @ exn_text e) | Inr r \<Rightarrow> r) w')"

definition dispatch ::
  "'w tool_registry \<Rightarrow> dispatch_limits \<Rightarrow> 'w call_context \<Rightarrow> string \<Rightarrow> args \<Rightarrow> 'w \<Rightarrow> 'w \<times> tool_result" where
  "dispatch reg limits ctx name args w =
     (let p = prepare_args reg name args None in
      case pa_error p of Some r \<Rightarrow> (w, r)
      | None \<Rightarrow> (case (reg name, pa_args p) of
          (Some t, Some canonical) \<Rightarrow> run_tool limits ctx name t canonical None w
        | _ \<Rightarrow> (w, error_result ''AssertionError'')))"

definition dispatch_prepared ::
  "'w tool_registry \<Rightarrow> dispatch_limits \<Rightarrow> 'w call_context \<Rightarrow> string \<Rightarrow> args \<Rightarrow> prepared_payload \<Rightarrow> 'w \<Rightarrow> 'w \<times> tool_result" where
  "dispatch_prepared reg limits ctx name args payload w =
     (let p = prepare_args reg name args None in
      case pa_error p of Some r \<Rightarrow> (w, r)
      | None \<Rightarrow> (case (reg name, pa_args p) of
          (Some t, Some canonical) \<Rightarrow>
            if rt_prepare t = None then (w, error_result (name @ '' does not support prepared dispatch''))
            else if pp_tool payload \<noteq> name
            then (w, (error_result (''prepared effect belongs to '' @ pp_tool payload @ '', not '' @ name))
              \<lparr>tr_receipt := Some (receipt_of Not_Performed)\<rparr>)
            else run_tool limits ctx name t canonical (Some payload) w
        | _ \<Rightarrow> (w, error_result ''AssertionError'')))"

end
