(* ===== verification/Permissions.thy ===== *)
theory Permissions
  imports Tool_Registry
begin

text \<open>
  The permission engine (\<open>ricky/permissions\<close>, the grants of \<open>ricky/agent/session.py\<close>) and the gate through
  which the loop and the workflow runner pass every tool call (\<open>ricky/agent/tool_dispatch.py\<close>).  The
  interface that answers a request is a function of the request; resolving a path through the file
  system is a function of the path.
\<close>

section \<open>Policies and grants\<close>

datatype permission_decision = Decide_Allow | Decide_Deny | Decide_Ask

record policy_rule =
  pr_tool :: string
  pr_decision :: permission_decision
  pr_params :: args
  pr_reason :: string

record permission_policy =
  po_rules :: "policy_rule list"
  po_read_only :: permission_decision
  po_mutating :: permission_decision
  po_destructive :: permission_decision

record permission_grant =
  pg_tool :: string
  pg_params :: args
  pg_directory :: "(string \<times> string) option"
  pg_label :: "string option"

text \<open>\<open>params.get(key) == value\<close>: a parameter that is not there counts as null.\<close>

definition params_match :: "args \<Rightarrow> args \<Rightarrow> bool" where
  "params_match required params \<longleftrightarrow>
     list_all (\<lambda>(k, v). py_eq (case map_of params k of None \<Rightarrow> JNull | Some w \<Rightarrow> w) v) required"

definition rule_matches :: "string \<Rightarrow> args \<Rightarrow> policy_rule \<Rightarrow> bool" where
  "rule_matches name params r \<longleftrightarrow> pr_tool r = name \<and> params_match (pr_params r) params"

text \<open>A POSIX path: its root, which is empty for a relative path, and its parts.\<close>

type_synonym posix_path = "string \<times> string list"

definition posix_path :: "string \<Rightarrow> posix_path" where
  "posix_path s =
     (let slashes = length (takeWhile (\<lambda>c. c = CHR ''/'') s) in
      (if slashes = 0 then [] else if slashes = 2 then ''//'' else ''/'',
       filter (\<lambda>p. p \<noteq> [] \<and> p \<noteq> ''.'') (split_on (\<lambda>c. c = CHR ''/'') s)))"

definition is_absolute :: "posix_path \<Rightarrow> bool" where
  "is_absolute p \<longleftrightarrow> fst p \<noteq> []"

definition is_relative_to :: "posix_path \<Rightarrow> posix_path \<Rightarrow> bool" where
  "is_relative_to p d \<longleftrightarrow> fst p = fst d \<and> take (length (snd d)) (snd p) = snd d"

type_synonym path_resolver = "posix_path \<Rightarrow> posix_path"

definition canonical_path :: "path_resolver \<Rightarrow> posix_path \<Rightarrow> bool" where
  "canonical_path resolve p \<longleftrightarrow> is_absolute p \<and> ''..'' \<notin> set (snd p) \<and> resolve p = p"

text \<open>The validators of a grant and of a declared scope; a scope has all three directory fields or none.\<close>

definition make_permission_grant :: "path_resolver \<Rightarrow> permission_grant \<Rightarrow> permission_grant checked" where
  "make_permission_grant resolve g =
     andthen (require (case pg_directory g of None \<Rightarrow> True | Some (_, d) \<Rightarrow> canonical_path resolve (posix_path d))
       ''directory permission grant path must be canonical and absolute'') (\<lambda>_. Inr g)"

definition make_grant_scope :: "path_resolver \<Rightarrow> grant_scope \<Rightarrow> grant_scope checked" where
  "make_grant_scope resolve s =
     andthen (require (case gs_directory s of None \<Rightarrow> True | Some (_, d, _) \<Rightarrow> canonical_path resolve (posix_path d))
       ''directory grant path must be canonical and absolute'') (\<lambda>_. Inr s)"

definition grant_matches :: "path_resolver \<Rightarrow> string \<Rightarrow> args \<Rightarrow> permission_grant \<Rightarrow> bool" where
  "grant_matches resolve name params g \<longleftrightarrow> pg_tool g = name \<and> params_match (pg_params g) params
     \<and> (case pg_directory g of
          None \<Rightarrow> True
        | Some (param, directory) \<Rightarrow> (case map_of params param of
            Some (JStr s) \<Rightarrow> canonical_path resolve (posix_path s) \<and> is_relative_to (posix_path s) (posix_path directory)
          | _ \<Rightarrow> False))"

section \<open>The engine\<close>

definition default_decision :: "permission_policy \<Rightarrow> tool_risk \<Rightarrow> permission_decision \<times> string" where
  "default_decision policy risk = (case risk of
     Read_Only \<Rightarrow> (po_read_only policy, ''default for read-only tools'')
   | Mutating \<Rightarrow> (po_mutating policy, ''default for mutating tools'')
   | Destructive \<Rightarrow> (po_destructive policy, ''default for destructive tools''))"

definition engine_decide ::
  "path_resolver \<Rightarrow> permission_policy \<Rightarrow> permission_grant list \<Rightarrow> string \<Rightarrow> tool_risk \<Rightarrow> args \<Rightarrow> grant_scope option
    \<Rightarrow> permission_decision \<times> string" where
  "engine_decide resolve policy grants name risk params scope =
     (let rule = List.find (rule_matches name params) (po_rules policy);
          denied = (case rule of Some r \<Rightarrow> pr_decision r = Decide_Deny | None \<Rightarrow> False)
      in if \<not> denied \<and> list_ex (grant_matches resolve name params) grants then (Decide_Allow, ''allowed by session grant'')
         else case rule of
           Some r \<Rightarrow> (pr_decision r, pr_reason r)
         | None \<Rightarrow>
             if (case scope of Some s \<Rightarrow> gs_requires_permission s | None \<Rightarrow> False)
             then (Decide_Ask, ''host path is outside the active workspace'')
             else default_decision policy risk)"

section \<open>Offered grants\<close>

record grant_option =
  go_id :: string
  go_label :: string

definition candidate_grants :: "string \<Rightarrow> grant_scope \<Rightarrow> (string \<times> string \<times> permission_grant) list" where
  "candidate_grants name s =
     (if gs_params s = [] then []
      else [(''scoped'', gs_label s,
        \<lparr>pg_tool = name, pg_params = gs_params s, pg_directory = None, pg_label = Some (gs_label s)\<rparr>)])
   @ (case gs_directory s of None \<Rightarrow> []
      | Some (param, directory, label) \<Rightarrow> [(''directory'', label,
          \<lparr>pg_tool = name, pg_params = [], pg_directory = Some (param, directory), pg_label = Some label\<rparr>)])
   @ (if \<not> gs_unconstrained s then []
      else let label = ''all '' @ name @ '' (any params)'' in
        [(''tool'', label, \<lparr>pg_tool = name, pg_params = [], pg_directory = None, pg_label = Some label\<rparr>)])"

text \<open>Each candidate passes the validator of grants, so building them can raise.\<close>

definition offer :: "path_resolver \<Rightarrow> string \<times> string \<times> permission_grant \<Rightarrow> (grant_option \<times> permission_grant) checked" where
  "offer resolve = (\<lambda>(i, l, g). andthen (make_permission_grant resolve g) (\<lambda>g. Inr (\<lparr>go_id = i, go_label = l\<rparr>, g)))"

definition build_grant_candidates ::
  "path_resolver \<Rightarrow> string \<Rightarrow> grant_scope option \<Rightarrow> (grant_option \<times> permission_grant) list checked" where
  "build_grant_candidates resolve name scope =
     (case scope of None \<Rightarrow> Inr [] | Some s \<Rightarrow> collect (offer resolve) (candidate_grants name s))"

section \<open>The gate\<close>

record tool_call =
  tc_name :: string
  tc_args :: args
  tc_argument_error :: "string option"

record permission_request =
  rq_tool :: string
  rq_args :: args
  rq_reason :: string
  rq_summary :: "string option"
  rq_offered :: "grant_option list"

datatype response_source = From_User | From_Send_It

record permission_response =
  pn_allow :: bool
  pn_source :: response_source
  pn_grant :: "string option"

datatype rejection_reason = Malformed_Json | Unknown_Tool | Invalid_Arguments

datatype gate_event =
    Call_Requested tool_call
  | Call_Normalized "string list"
  | Call_Rejected rejection_reason bool
  | Permission_Requested permission_request
  | Permission_Decided permission_decision string bool "string option"

datatype gate_decision = Gate_Error tool_result | Gate_Deny | Gate_Allow

record gate_outcome =
  gt_events :: "gate_event list"
  gt_decision :: gate_decision
  gt_args :: "args option"
  gt_remembered :: "permission_grant option"
  gt_prepared :: "prepared_payload option"

text \<open>The parameters of the gate that the session keeps, with the interface that answers.\<close>

record gate_setting =
  ga_resolve :: path_resolver
  ga_policy :: permission_policy
  ga_respond :: "permission_request \<Rightarrow> permission_response"

definition deny_permission :: "permission_request \<Rightarrow> permission_response" where
  "deny_permission rq = \<lparr>pn_allow = False, pn_source = From_User, pn_grant = None\<rparr>"

definition gate_error :: "gate_event list \<Rightarrow> tool_result \<Rightarrow> gate_outcome" where
  "gate_error events r = \<lparr>gt_events = events, gt_decision = Gate_Error r, gt_args = None, gt_remembered = None, gt_prepared = None\<rparr>"

text \<open>The answer to a request: the decision, its reason and the grant to remember.\<close>

definition answer ::
  "permission_response \<Rightarrow> (grant_option \<times> permission_grant) list \<Rightarrow> permission_decision \<times> string \<times> permission_grant option" where
  "answer response candidates =
     (if \<not> pn_allow response then (Decide_Deny, ''denied by user'', None)
      else (Decide_Allow,
        if pn_source response = From_Send_It then ''allowed by chat send-it mode'' else ''allowed by user'',
        if pn_source response = From_User
        then Option.bind (pn_grant response) (\<lambda>i. map_option snd (List.find (\<lambda>(c, _). go_id c = i) candidates))
        else None))"

text \<open>The end of the gate: the decision is recorded and a chosen grant joins those of the session.\<close>

definition conclude ::
  "gate_event list \<Rightarrow> permission_grant list \<Rightarrow> args \<Rightarrow> prepared_payload option
    \<Rightarrow> permission_decision \<times> string \<times> permission_grant option \<Rightarrow> gate_outcome \<times> permission_grant list" where
  "conclude events grants args payload = (\<lambda>(decision, reason, chosen).
     (\<lparr>gt_events = events @ [Permission_Decided decision reason (chosen \<noteq> None) (Option.bind chosen pg_label)],
        gt_decision = (if decision = Decide_Deny then Gate_Deny else Gate_Allow), gt_args = Some args,
        gt_remembered = (if decision = Decide_Deny then None else chosen),
        gt_prepared = (if decision = Decide_Deny then None else payload)\<rparr>,
      case chosen of None \<Rightarrow> grants | Some g \<Rightarrow> grants @ [g]))"

definition execution_candidate :: "args \<Rightarrow> args \<Rightarrow> args" where
  "execution_candidate permitted args = map (\<lambda>(k, v). (k, case map_of permitted k of None \<Rightarrow> v | Some w \<Rightarrow> w)) args"

text \<open>The effect a tool prepares must be its own; a failure is feedback to the model.\<close>

definition prepare_effect ::
  "string \<Rightarrow> 'w registered_tool \<Rightarrow> args \<Rightarrow> 'w \<Rightarrow> prepared_payload option checked" where
  "prepare_effect name t args w = (case rt_prepare t of
     None \<Rightarrow> Inr None
   | Some f \<Rightarrow> andthen (f args w) (\<lambda>p. andthen (require (pp_tool p = name)
       (''prepared effect belongs to '' @ pp_tool p @ '', not '' @ name)) (\<lambda>_. Inr (Some p))))"

definition request_for ::
  "'w tool_registry \<Rightarrow> string \<Rightarrow> args \<Rightarrow> string \<Rightarrow> prepared_payload option \<Rightarrow> grant_option list \<Rightarrow> permission_request" where
  "request_for reg name permitted reason payload offered = \<lparr>rq_tool = name, rq_args = permitted, rq_reason = reason,
     rq_summary = (case Option.bind payload pp_summary of Some s \<Rightarrow> Some s | None \<Rightarrow> permission_summary reg name permitted),
     rq_offered = offered\<rparr>"

text \<open>The part of the gate after the arguments have been accepted.\<close>

definition decide_known_call ::
  "'w tool_registry \<Rightarrow> gate_setting \<Rightarrow> permission_grant list \<Rightarrow> 'w \<Rightarrow> string \<Rightarrow> 'w registered_tool \<Rightarrow> gate_event list
    \<Rightarrow> args \<Rightarrow> args \<Rightarrow> (gate_outcome \<times> permission_grant list) checked" where
  "decide_known_call reg gate grants w name t events permitted args =
     (let scope = permission_scope reg name permitted;
          (decision, reason) = engine_decide (ga_resolve gate) (ga_policy gate) grants name (wt_risk (rt_declared t)) permitted scope
      in if decision = Decide_Deny
         then Inr (conclude events grants args None (Decide_Deny, reason, None))
         else case prepare_effect name t args w of
           Inl e \<Rightarrow> Inr (gate_error (events @ [Permission_Decided Decide_Deny ''effect preparation failed'' False None])
             ((error_result (name @ '' preparation failed: '' @ e))\<lparr>tr_receipt := Some (receipt_of Not_Performed)\<rparr>), grants)
         | Inr payload \<Rightarrow>
             if rt_fresh_review t \<or> decision = Decide_Ask
             then andthen (if rt_fresh_review t then Inr [] else build_grant_candidates (ga_resolve gate) name scope) (\<lambda>candidates.
               let request = request_for reg name permitted
                     (if rt_fresh_review t then ''fresh interactive review required'' else reason) payload (map fst candidates)
               in Inr (conclude (events @ [Permission_Requested request]) grants args payload
                   (answer (ga_respond gate request) candidates)))
             else Inr (conclude events grants args payload (decision, reason, None)))"

definition decide_tool_permission ::
  "'w tool_registry \<Rightarrow> gate_setting \<Rightarrow> permission_grant list \<Rightarrow> 'w \<Rightarrow> tool_call
    \<Rightarrow> (gate_outcome \<times> permission_grant list) checked" where
  "decide_tool_permission reg gate grants w call =
     (let name = tc_name call; malformed = tc_argument_error call \<noteq> None; requested = [Call_Requested call] in
      case reg name of
        None \<Rightarrow> Inr (gate_error (requested @ [Call_Rejected (if malformed then Malformed_Json else Unknown_Tool) False])
          (case tc_argument_error call of
             Some e \<Rightarrow> (error_result (''Malformed tool call: the provider returned '' @ e
               @ ''. Reissue one catalog tool with a valid JSON object.''))
               \<lparr>tr_data := JObj [(''error'', JStr ''malformed_json''), (''tool'', JStr name)]\<rparr>
           | None \<Rightarrow> (case pa_error (prepare_args reg name (tc_args call) None) of Some r \<Rightarrow> r
               | None \<Rightarrow> error_result ''AssertionError'')), grants)
      | Some t \<Rightarrow>
          (let p = prepare_args reg name (tc_args call) (tc_argument_error call);
               events = requested @ (if pa_paths p = [] then [] else [Call_Normalized (pa_paths p)])
           in case (pa_error p, pa_args p) of
             (None, Some args) \<Rightarrow>
               (let permitted = permission_args reg name args;
                    canonical = prepare_args reg name (execution_candidate permitted args) None
                in case (pa_error canonical, pa_args canonical) of
                  (None, Some exec) \<Rightarrow> decide_known_call reg gate grants w name t events permitted exec
                | _ \<Rightarrow> Inl (name @ '' returned permission arguments incompatible with its Params model''))
           | (Some r, _) \<Rightarrow> Inr (gate_error (events @ [Call_Rejected (if malformed then Malformed_Json else Invalid_Arguments)
               (declared_effect (rt_declared t) = Some External_Effect)]) r, grants)
           | (None, None) \<Rightarrow> Inl ''AssertionError''))"

end
