(* ===== verification/Permission_Properties.thy ===== *)
theory Permission_Properties
  imports Permissions
begin

text \<open>What the gate promises: who may allow a call, that a denial is final, and what a remembered grant covers.\<close>

section \<open>Calls that reach the decision\<close>

text \<open>A known tool has accepted the arguments, before and after the permission hook.\<close>

definition accepted_call ::
  "'w tool_registry \<Rightarrow> tool_call \<Rightarrow> 'w registered_tool \<Rightarrow> args \<Rightarrow> args \<Rightarrow> bool" where
  "accepted_call reg call t permitted exec \<longleftrightarrow> reg (tc_name call) = Some t \<and>
     (\<exists>args. tc_argument_error call = None \<and> snd (rt_params t (tc_args call)) = Inr args
        \<and> permitted = permission_args reg (tc_name call) args
        \<and> snd (rt_params t (execution_candidate permitted args)) = Inr exec)"

lemma prepare_args_ok:
  assumes "reg name = Some t"
  shows "pa_error (prepare_args reg name args e) = None \<and> pa_args (prepare_args reg name args e) = Some x
    \<longleftrightarrow> e = None \<and> snd (rt_params t args) = Inr x"
  using assms by (auto simp: prepare_args_def rejected_def split: option.split prod.split sum.split)

lemma prepare_args_cases:
  "(\<exists>r. pa_error (prepare_args reg name args e) = Some r \<and> pa_args (prepare_args reg name args e) = None)
   \<or> (\<exists>x. pa_error (prepare_args reg name args e) = None \<and> pa_args (prepare_args reg name args e) = Some x)"
  by (auto simp: prepare_args_def rejected_def split: option.split prod.split sum.split)

lemma gate_cases:
  assumes "decide_tool_permission reg gate grants w call = Inr (out, grants')"
  obtains (rejected) r where "gt_decision out = Gate_Error r" and "grants' = grants"
      and "\<And>rq. Permission_Requested rq \<notin> set (gt_events out)"
  | (known) t permitted exec events where "accepted_call reg call t permitted exec"
      and "\<And>rq. Permission_Requested rq \<notin> set events"
      and "decide_known_call reg gate grants w (tc_name call) t events permitted exec = Inr (out, grants')"
proof (cases "reg (tc_name call)")
  case None
  with assms show ?thesis by (auto simp: decide_tool_permission_def Let_def gate_error_def intro!: rejected)
next
  case (Some t)
  let ?p = "prepare_args reg (tc_name call) (tc_args call) (tc_argument_error call)"
  from prepare_args_cases [of reg "tc_name call" "tc_args call" "tc_argument_error call"] show ?thesis
  proof (elim disjE exE conjE)
    fix r
    assume "pa_error ?p = Some r" "pa_args ?p = None"
    with assms Some show ?thesis by (auto simp: decide_tool_permission_def Let_def gate_error_def split: if_splits intro!: rejected)
  next
    fix args
    assume p: "pa_error ?p = None" "pa_args ?p = Some args"
    let ?q = "prepare_args reg (tc_name call) (execution_candidate (permission_args reg (tc_name call) args) args) None"
    from prepare_args_cases [of reg "tc_name call" "execution_candidate (permission_args reg (tc_name call) args) args" None]
    show ?thesis
    proof (elim disjE exE conjE)
      fix r
      assume "pa_error ?q = Some r" "pa_args ?q = None"
      with assms Some p show ?thesis by (auto simp: decide_tool_permission_def Let_def)
    next
      fix exec
      assume q: "pa_error ?q = None" "pa_args ?q = Some exec"
      have "accepted_call reg call t (permission_args reg (tc_name call) args) exec"
        using p q prepare_args_ok [of reg, OF Some] unfolding accepted_call_def by (metis Some)
      then show ?thesis using assms Some p q
        by (auto simp: decide_tool_permission_def Let_def split: if_splits intro!: known [of t _ exec])
    qed
  qed
qed

section \<open>The decision\<close>

abbreviation engine_says ::
  "'w tool_registry \<Rightarrow> gate_setting \<Rightarrow> permission_grant list \<Rightarrow> string \<Rightarrow> 'w registered_tool \<Rightarrow> args \<Rightarrow> permission_decision" where
  "engine_says reg gate grants name t permitted \<equiv> fst (engine_decide (ga_resolve gate) (ga_policy gate) grants name
     (wt_risk (rt_declared t)) permitted (permission_scope reg name permitted))"

lemma collect_member: "collect f xs = Inr ys \<Longrightarrow> y \<in> set ys \<Longrightarrow> \<exists>x \<in> set xs. f x = Inr y"
  by (induction xs arbitrary: ys) (auto simp: andthen_Inr)

lemma candidates_within:
  assumes "build_grant_candidates resolve name scope = Inr cs" and "(c, g) \<in> set cs"
  obtains s where "scope = Some s" and "pg_tool g = name"
    and "pg_params g = gs_params s \<and> gs_params s \<noteq> [] \<and> pg_directory g = None
      \<or> pg_params g = [] \<and> pg_directory g \<noteq> None \<and> pg_directory g = map_option (\<lambda>(p, d, _). (p, d)) (gs_directory s)
      \<or> pg_params g = [] \<and> pg_directory g = None \<and> gs_unconstrained s"
proof (cases scope)
  case (Some s)
  with assms(1) have "collect (offer resolve) (candidate_grants name s) = Inr cs" by (simp add: build_grant_candidates_def)
  from collect_member [OF this assms(2)] obtain x
    where x: "x \<in> set (candidate_grants name s)" and made: "offer resolve x = Inr (c, g)" by blast
  from made have "snd (snd x) = g" by (auto simp: offer_def andthen_Inr make_permission_grant_def split: prod.splits)
  with x Some show ?thesis
    by (intro that [of s]; cases "gs_directory s") (auto simp: candidate_grants_def Let_def split: if_splits)
qed (use assms in \<open>simp add: build_grant_candidates_def\<close>)

lemma answer_cases:
  "answer r cs = (Decide_Deny, ''denied by user'', None) \<and> \<not> pn_allow r
   \<or> (\<exists>reason chosen. answer r cs = (Decide_Allow, reason, chosen) \<and> pn_allow r
      \<and> (\<forall>g. chosen = Some g \<longrightarrow> pn_source r = From_User \<and> (\<exists>c. (c, g) \<in> set cs \<and> pn_grant r = Some (go_id c))))"
  by (auto simp: answer_def find_Some_iff bind_eq_Some_conv) (metis nth_mem)

text \<open>Whoever is asked, the outcome is one of a denial, a failed preparation, a permission that stands or an answer.\<close>

lemma known_outcome:
  assumes "decide_known_call reg gate grants w name t events permitted exec = Inr (out, grants')"
  obtains (denied) "engine_says reg gate grants name t permitted = Decide_Deny" and "gt_decision out = Gate_Deny"
      and "grants' = grants" and "set (gt_events out) \<subseteq> set events \<union> {e. \<forall>rq. e \<noteq> Permission_Requested rq}"
  | (failed) r where "engine_says reg gate grants name t permitted \<noteq> Decide_Deny" and "gt_decision out = Gate_Error r"
      and "grants' = grants"
  | (stands) "engine_says reg gate grants name t permitted = Decide_Allow" and "\<not> rt_fresh_review t"
      and "gt_decision out = Gate_Allow" and "gt_args out = Some exec" and "grants' = grants"
  | (asked) request candidates where "engine_says reg gate grants name t permitted \<noteq> Decide_Deny"
      and "Permission_Requested request \<in> set (gt_events out)" and "rq_tool request = name" and "rq_args request = permitted"
      and "rq_offered request = map fst candidates"
      and "rt_fresh_review t \<and> candidates = [] \<or> \<not> rt_fresh_review t \<and> build_grant_candidates (ga_resolve gate) name
        (permission_scope reg name permitted) = Inr candidates"
      and "gt_args out = Some exec"
      and "gt_decision out = (if pn_allow (ga_respond gate request) then Gate_Allow else Gate_Deny)"
      and "grants' = (case snd (snd (answer (ga_respond gate request) candidates)) of None \<Rightarrow> grants | Some g \<Rightarrow> grants @ [g])"
proof -
  obtain d reason where d: "engine_decide (ga_resolve gate) (ga_policy gate) grants name (wt_risk (rt_declared t)) permitted
      (permission_scope reg name permitted) = (d, reason)" by fastforce
  note simps = decide_known_call_def Let_def d conclude_def gate_error_def
  show ?thesis
  proof (cases "d = Decide_Deny")
    case True
    with assms d show ?thesis by (auto simp: simps intro!: denied)
  next
    case False
    show ?thesis
    proof (cases "prepare_effect name t exec w")
      case (Inl e)
      with assms False d show ?thesis by (auto simp: simps intro!: failed)
    next
      case (Inr payload)
      show ?thesis
      proof (cases "rt_fresh_review t \<or> d = Decide_Ask")
        case False
        then have "d = Decide_Allow" "\<not> rt_fresh_review t" using \<open>d \<noteq> Decide_Deny\<close> by (cases d, auto)+
        moreover from this assms Inr have "(out, grants') = conclude events grants exec payload (Decide_Allow, reason, None)"
          by (simp add: decide_known_call_def Let_def d)
        ultimately show ?thesis by (intro stands) (simp_all add: conclude_def d)
      next
        case True
        with assms \<open>d \<noteq> Decide_Deny\<close> Inr obtain candidates where
          c: "(if rt_fresh_review t then Inr [] else build_grant_candidates (ga_resolve gate) name
              (permission_scope reg name permitted)) = Inr candidates"
          and out: "conclude (events @ [Permission_Requested (request_for reg name permitted
              (if rt_fresh_review t then ''fresh interactive review required'' else reason) payload (map fst candidates))])
              grants exec payload (answer (ga_respond gate (request_for reg name permitted
              (if rt_fresh_review t then ''fresh interactive review required'' else reason) payload (map fst candidates)))
              candidates) = (out, grants')"
          by (auto simp: decide_known_call_def Let_def d andthen_Inr)
        define request where "request = request_for reg name permitted
          (if rt_fresh_review t then ''fresh interactive review required'' else reason) payload (map fst candidates)"
        have rq: "rq_tool request = name" "rq_args request = permitted" "rq_offered request = map fst candidates"
          by (simp_all add: request_def request_for_def)
        have "Permission_Requested request \<in> set (gt_events out)" "gt_args out = Some exec"
          "gt_decision out = (if pn_allow (ga_respond gate request) then Gate_Allow else Gate_Deny)"
          "grants' = (case snd (snd (answer (ga_respond gate request) candidates)) of None \<Rightarrow> grants | Some g \<Rightarrow> grants @ [g])"
          using out [folded request_def] answer_cases [of "ga_respond gate request" candidates] by (auto simp: conclude_def)
        then show ?thesis using c rq d \<open>d \<noteq> Decide_Deny\<close> by (intro asked [of request candidates]) (auto split: if_splits)
      qed
    qed
  qed
qed

section \<open>A small registry\<close>

definition note_tool :: "unit registered_tool" where
  "note_tool = \<lparr>rt_declared = \<lparr>wt_risk = Mutating, wt_surface = Inr (), wt_metadata = Inr \<lparr>tm_risk = Mutating,
       tm_capability_id = None, tm_effect_kind = External_Effect, tm_unattended = tool_unattended.Unattended_Allowed,
       tm_state_guard_id = None\<rparr>, wt_has_effect_identity = True, wt_params = [(''to'', True)], wt_result_schema = None,
       wt_idempotent_replay = False, wt_has_key_factory = False, wt_safe_replay = False\<rparr>,
     rt_fresh_review = False, rt_bounded = False, rt_params = (\<lambda>a. ([], Inr a)), rt_permission_args = None,
     rt_scope = Some (\<lambda>a. Some \<lparr>gs_params = [(''to'', JStr ''ann'')], gs_label = ''notes to ann'', gs_unconstrained = False,
       gs_requires_permission = False, gs_directory = None\<rparr>),
     rt_summary = None, rt_prepare = None,
     rt_run = (\<lambda>a p w. (w, Inr (plain_result ''sent'' JNull False None))),
     rt_result = None, rt_idempotency_key = None\<rparr>"

definition note_registry :: "unit tool_registry" where
  "note_registry n = (if n = ''note'' then Some note_tool else None)"

definition note_call :: "string \<Rightarrow> tool_call" where
  "note_call recipient = \<lparr>tc_name = ''note'', tc_args = [(''to'', JStr recipient)], tc_argument_error = None\<rparr>"

definition asking_gate :: "string option \<Rightarrow> gate_setting" where
  "asking_gate choice = \<lparr>ga_resolve = id, ga_policy = \<lparr>po_rules = [\<lparr>pr_tool = ''note'', pr_decision = Decide_Deny,
       pr_params = [(''to'', JStr ''eve'')], pr_reason = ''never''\<rparr>],
       po_read_only = Decide_Allow, po_mutating = Decide_Ask, po_destructive = Decide_Ask\<rparr>,
     ga_respond = (\<lambda>rq. \<lparr>pn_allow = True, pn_source = From_User, pn_grant = choice\<rparr>)\<rparr>"

definition ann_grant :: permission_grant where
  "ann_grant = \<lparr>pg_tool = ''note'', pg_params = [(''to'', JStr ''ann'')], pg_directory = None, pg_label = Some ''notes to ann''\<rparr>"

definition gate_summary :: "(gate_outcome \<times> permission_grant list) checked \<Rightarrow> (gate_decision \<times> permission_grant list) option" where
  "gate_summary r = (case r of Inr (out, gs) \<Rightarrow> Some (gt_decision out, gs) | Inl _ \<Rightarrow> None)"

lemma ann_allowed: "gate_summary (decide_tool_permission note_registry (asking_gate (Some ''scoped'')) [] () (note_call ''ann''))
    = Some (Gate_Allow, [ann_grant])"
  by code_simp

lemma eve_denied: "gate_summary (decide_tool_permission note_registry (asking_gate None) [ann_grant] () (note_call ''eve''))
    = Some (Gate_Deny, [ann_grant])"
  by code_simp

lemma gate_summary_Some: "gate_summary r = Some (d, gs) \<longleftrightarrow> (\<exists>out. r = Inr (out, gs) \<and> gt_decision out = d)"
  by (auto simp: gate_summary_def split: sum.splits)

section \<open>Permissions\<close>

text \<open>What lets a call pass without a question: no denying rule comes first, and something allows it.\<close>

definition standing_permission ::
  "path_resolver \<Rightarrow> permission_policy \<Rightarrow> permission_grant list \<Rightarrow> string \<Rightarrow> tool_risk \<Rightarrow> args \<Rightarrow> grant_scope option \<Rightarrow> bool" where
  "standing_permission resolve policy grants name risk params scope \<longleftrightarrow>
     (case List.find (rule_matches name params) (po_rules policy) of
        Some r \<Rightarrow> pr_decision r \<noteq> Decide_Deny \<and> ((\<exists>g \<in> set grants. grant_matches resolve name params g) \<or> pr_decision r = Decide_Allow)
      | None \<Rightarrow> (\<exists>g \<in> set grants. grant_matches resolve name params g)
          \<or> (\<forall>s. scope = Some s \<longrightarrow> \<not> gs_requires_permission s) \<and> fst (default_decision policy risk) = Decide_Allow)"

lemma engine_allows:
  "fst (engine_decide resolve policy grants name risk params scope) = Decide_Allow
    \<longleftrightarrow> standing_permission resolve policy grants name risk params scope"
  by (auto simp: engine_decide_def standing_permission_def Let_def list_ex_iff split: option.split)

lemma engine_denies:
  "List.find (rule_matches name params) (po_rules policy) = Some r \<Longrightarrow> pr_decision r = Decide_Deny
    \<Longrightarrow> fst (engine_decide resolve policy grants name risk params scope) = Decide_Deny"
  by (simp add: engine_decide_def Let_def)

text \<open>
  C35: The gate lets a call pass only if a registered tool accepts its arguments and either the session
  already permits it, by a grant, by a rule or by the default for its risk, and the tool does not want a fresh
  review, or the interface was shown exactly the tool and the arguments judged by the policy and allowed
  them.  What is executed is what the tool made of those arguments.
\<close>
theorem allowed_call_authorised:
  assumes "decide_tool_permission reg gate grants w call = Inr (out, grants')" and "gt_decision out = Gate_Allow"
  shows "\<exists>t permitted exec. accepted_call reg call t permitted exec \<and> gt_args out = Some exec \<and>
    (\<not> rt_fresh_review t \<and> standing_permission (ga_resolve gate) (ga_policy gate) grants (tc_name call)
        (wt_risk (rt_declared t)) permitted (permission_scope reg (tc_name call) permitted)
     \<or> (\<exists>rq. Permission_Requested rq \<in> set (gt_events out) \<and> rq_tool rq = tc_name call \<and> rq_args rq = permitted
          \<and> pn_allow (ga_respond gate rq)))"
  using assms(1)
proof (cases rule: gate_cases)
  case (known t permitted exec events)
  from known(3) assms(2) show ?thesis
    by (cases rule: known_outcome) (use known(1) in \<open>auto simp: engine_allows split: if_splits\<close>)
qed (use assms(2) in simp)

theorem allowed_call_authorised_witness:
  "\<exists>rq. rq_tool rq = ''note'' \<and> pn_allow (ga_respond (asking_gate (Some ''scoped'')) rq)"
proof -
  from ann_allowed obtain out where
    "decide_tool_permission note_registry (asking_gate (Some ''scoped'')) [] () (note_call ''ann'') = Inr (out, [ann_grant])"
    "gt_decision out = Gate_Allow" by (auto simp: gate_summary_Some)
  from allowed_call_authorised [OF this] show ?thesis
    by (auto simp: asking_gate_def note_call_def permission_request.ext_inject intro: exI [of _ "request_for note_registry ''note'' [] [] None []"]
        simp: request_for_def)
qed

text \<open>
  C36: A denial by the first matching rule is final: whatever the session has granted and whatever the
  interface would answer, the call is denied or rejected, the interface is not asked and no grant is added.
\<close>
theorem denial_by_rule_is_final:
  assumes "decide_tool_permission reg gate grants w call = Inr (out, grants')"
    and "accepted_call reg call t permitted exec"
    and "List.find (rule_matches (tc_name call) permitted) (po_rules (ga_policy gate)) = Some r" and "pr_decision r = Decide_Deny"
  shows "gt_decision out \<noteq> Gate_Allow \<and> grants' = grants \<and> (\<forall>rq. Permission_Requested rq \<notin> set (gt_events out))"
  using assms(1)
proof (cases rule: gate_cases)
  case (known t' permitted' exec' events)
  from known(1) assms(2) have same: "t' = t" "permitted' = permitted" by (auto simp: accepted_call_def)
  from known(3) show ?thesis
  proof (cases rule: known_outcome)
    case denied
    with known(2) show ?thesis by auto
  qed (use engine_denies [OF assms(3,4)] same in auto)
next
  case (rejected r')
  then show ?thesis by simp
qed

theorem denial_by_rule_is_final_witness:
  "\<exists>out. decide_tool_permission note_registry (asking_gate None) [ann_grant] () (note_call ''eve'') = Inr (out, [ann_grant])
    \<and> gt_decision out \<noteq> Gate_Allow"
proof -
  from eve_denied obtain out where
    out: "decide_tool_permission note_registry (asking_gate None) [ann_grant] () (note_call ''eve'') = Inr (out, [ann_grant])"
    by (auto simp: gate_summary_Some)
  have "accepted_call note_registry (note_call ''eve'') note_tool [(''to'', JStr ''eve'')] [(''to'', JStr ''eve'')]"
    by (simp add: accepted_call_def note_registry_def note_call_def note_tool_def permission_args_def execution_candidate_def)
  moreover have "List.find (rule_matches (tc_name (note_call ''eve'')) [(''to'', JStr ''eve'')]) (po_rules (ga_policy (asking_gate None)))
      = Some \<lparr>pr_tool = ''note'', pr_decision = Decide_Deny, pr_params = [(''to'', JStr ''eve'')], pr_reason = ''never''\<rparr>"
    by (simp add: asking_gate_def note_call_def rule_matches_def params_match_def)
  ultimately show ?thesis using denial_by_rule_is_final [OF out] out by fastforce
qed

text \<open>
  C37: The session remembers a grant only if the user, not the send-it mode, chose one that was offered with the
  request, for a tool without fresh review.  The grant is for this tool and within what the tool
  declared: its parameters, its directory, or any call if the tool allows that.
\<close>
theorem remembered_grant_within_scope:
  assumes "decide_tool_permission reg gate grants w call = Inr (out, grants')" and "grants' \<noteq> grants"
  shows "\<exists>t permitted exec s g rq c. accepted_call reg call t permitted exec \<and> \<not> rt_fresh_review t
    \<and> permission_scope reg (tc_name call) permitted = Some s \<and> grants' = grants @ [g] \<and> gt_decision out = Gate_Allow
    \<and> Permission_Requested rq \<in> set (gt_events out) \<and> c \<in> set (rq_offered rq)
    \<and> pn_allow (ga_respond gate rq) \<and> pn_source (ga_respond gate rq) = From_User \<and> pn_grant (ga_respond gate rq) = Some (go_id c)
    \<and> pg_tool g = tc_name call
    \<and> (pg_params g = gs_params s \<and> gs_params s \<noteq> []
      \<or> pg_directory g \<noteq> None \<and> pg_directory g = map_option (\<lambda>(p, d, _). (p, d)) (gs_directory s) \<or> gs_unconstrained s)"
  using assms(1)
proof (cases rule: gate_cases)
  case (known t permitted exec events)
  from known(3) show ?thesis
  proof (cases rule: known_outcome)
    case (asked rq candidates)
    from asked(9) assms(2) obtain g where g: "snd (snd (answer (ga_respond gate rq) candidates)) = Some g" "grants' = grants @ [g]"
      by (auto split: option.splits)
    with answer_cases [of "ga_respond gate rq" candidates] obtain c where c: "(c, g) \<in> set candidates"
      and says: "pn_allow (ga_respond gate rq)" "pn_source (ga_respond gate rq) = From_User" "pn_grant (ga_respond gate rq) = Some (go_id c)"
      by auto
    from c asked(6) have fresh: "\<not> rt_fresh_review t" and offers: "build_grant_candidates (ga_resolve gate) (tc_name call)
        (permission_scope reg (tc_name call) permitted) = Inr candidates" by auto
    from candidates_within [OF offers c] obtain s where "permission_scope reg (tc_name call) permitted = Some s" "pg_tool g = tc_name call"
      "pg_params g = gs_params s \<and> gs_params s \<noteq> []
        \<or> pg_directory g \<noteq> None \<and> pg_directory g = map_option (\<lambda>(p, d, _). (p, d)) (gs_directory s) \<or> gs_unconstrained s"
      by metis
    moreover have "c \<in> set (rq_offered rq)" using asked(5) c by force
    moreover have "gt_decision out = Gate_Allow" using asked(8) says(1) by simp
    ultimately show ?thesis using known(1) fresh g(2) asked(2) says by blast
  qed (use assms(2) in auto)
qed (use assms(2) in simp)

theorem remembered_grant_within_scope_witness:
  "\<exists>s. permission_scope note_registry ''note'' [(''to'', JStr ''ann'')] = Some s \<and> pg_params ann_grant = gs_params s"
proof -
  from ann_allowed obtain out where
    out: "decide_tool_permission note_registry (asking_gate (Some ''scoped'')) [] () (note_call ''ann'') = Inr (out, [ann_grant])"
    by (auto simp: gate_summary_Some)
  have "[ann_grant] \<noteq> []" by simp
  from remembered_grant_within_scope [OF out this] obtain permitted s g where "[ann_grant] = [] @ [g]"
    and "permission_scope note_registry (tc_name (note_call ''ann'')) permitted = Some s"
    and "pg_params g = gs_params s \<or> pg_directory g \<noteq> None \<or> gs_unconstrained s" by blast
  then show ?thesis
    by (auto simp: accepted_call_def note_registry_def note_call_def note_tool_def permission_args_def permission_scope_def
        ann_grant_def split: if_splits)
qed

section \<open>Results\<close>










end
