(* ===== verification/Workflow_Run.thy ===== *)
theory Workflow_Run
  imports Workflow_Compile
begin

text \<open>
  The state of a workflow run (\<open>ricky/workflows/run.py\<close>), what the run store does to it
  (\<open>ricky/workflows/run_store.py\<close>) and how a runner resumes and finishes it (\<open>ricky/agent/workflow.py\<close>).
  Times and token counts are left out.
\<close>

section \<open>Records\<close>

datatype step_status =
    SS_Pending | SS_Ready | SS_Running | SS_Completed | SS_Skipped | SS_Failed | SS_Blocked | SS_Interrupted | SS_In_Doubt

datatype flow_status =
    FS_Pending | FS_Running | FS_Completed | FS_Completed_With_Errors | FS_Failed | FS_Interrupted | FS_In_Doubt | FS_Abandoned

datatype attempt_status = AS_Running | AS_Completed | AS_Failed | AS_Interrupted

datatype effect_status =
    EF_Prepared | EF_Dispatched | EF_Succeeded | EF_Failed | EF_In_Doubt | EF_Would_Dispatch | EF_Reconciled

datatype item_status =
    IS_Pending | IS_Running | IS_Completed | IS_Completed_With_Errors | IS_Failed | IS_Interrupted | IS_Blocked

datatype error_category =
    EC_Reference | EC_Condition | EC_Tool_Error | EC_Permission_Denied | EC_Approval_Denied | EC_Scheduler | EC_Interrupted
  | EC_In_Doubt | EC_Model string

definition terminal_step_statuses :: "step_status list" where
  "terminal_step_statuses = [SS_Completed, SS_Skipped, SS_Failed, SS_Blocked, SS_Interrupted, SS_In_Doubt]"

definition success_step_statuses :: "step_status list" where
  "success_step_statuses = [SS_Completed, SS_Skipped]"

definition is_terminal :: "step_status \<Rightarrow> bool" where
  "is_terminal s \<longleftrightarrow> s \<in> set terminal_step_statuses"

definition is_success :: "step_status \<Rightarrow> bool" where
  "is_success s \<longleftrightarrow> s \<in> set success_step_statuses"

record step_record =
  sr_step_id :: string
  sr_address :: string
  sr_kind :: string
  sr_status :: step_status
  sr_output :: json
  sr_error :: "(error_category \<times> string) option"
  sr_attempts :: "attempt_status list"
  sr_condition :: "bool option"
  sr_blocked_by :: "string list"
  sr_references :: "string list"

type_synonym step_records = "(string \<times> step_record) list"

record item_run =
  ir_foreach :: string
  ir_key :: json
  ir_index :: nat
  ir_source :: json
  ir_status :: item_status
  ir_steps :: step_records
  ir_error :: "(error_category \<times> string) option"

record effect_entry =
  ee_step_id :: string
  ee_address :: string
  ee_tool :: string
  ee_args :: "(string \<times> json) list"
  ee_risk :: tool_risk
  ee_kind :: tool_effect_kind
  ee_status :: effect_status
  ee_key :: "string option"
  ee_safe_replay :: bool
  ee_summary :: "string option"

record workflow_run =
  wr_id :: string
  wr_name :: string
  wr_scope :: profile_scope
  wr_trigger :: json
  wr_fingerprint :: string
  wr_status :: flow_status
  wr_steps :: step_records
  wr_items :: "(string \<times> item_run list) list"
  wr_journal :: "effect_entry list"

definition kind_name :: "step_kind \<Rightarrow> string" where
  "kind_name k = (case k of Tool_Step _ _ _ \<Rightarrow> ''tool'' | Model_Step _ \<Rightarrow> ''model'' | Agent_Step _ _ _ \<Rightarrow> ''agent''
     | Data_Step _ _ \<Rightarrow> ''data'' | Check_Step _ \<Rightarrow> ''check'' | Approval_Step _ _ _ _ _ \<Rightarrow> ''approval''
     | Message_Step _ \<Rightarrow> ''message'' | Foreach_Step _ _ _ _ _ _ _ \<Rightarrow> ''foreach'')"

definition new_record :: "string \<Rightarrow> step \<Rightarrow> step_record" where
  "new_record address s = \<lparr>sr_step_id = st_id s, sr_address = address, sr_kind = kind_name (st_kind s), sr_status = SS_Pending,
     sr_output = JNull, sr_error = None, sr_attempts = [], sr_condition = None, sr_blocked_by = [], sr_references = []\<rparr>"

text \<open>A dictionary by step id: an id keeps its first position and its last record.\<close>

definition step_records_for :: "step list \<Rightarrow> step_records" where
  "step_records_for steps = fold (\<lambda>s recs. AList.update (st_id s) (new_record (st_id s) s) recs) steps []"

section \<open>Finding records and entries\<close>

primrec update_first :: "('a \<Rightarrow> bool) \<Rightarrow> ('a \<Rightarrow> 'a) \<Rightarrow> 'a list \<Rightarrow> 'a list" where
  "update_first p f [] = []"
| "update_first p f (x # xs) = (if p x then f x # xs else x # update_first p f xs)"

definition all_records :: "workflow_run \<Rightarrow> step_record list" where
  "all_records run = map snd (wr_steps run)
     @ concat (map (\<lambda>(_, items). concat (map (\<lambda>i. map snd (ir_steps i)) items)) (wr_items run))"

definition record_for_address :: "workflow_run \<Rightarrow> string \<Rightarrow> step_record option" where
  "record_for_address run a = find_row sr_address a (all_records run)"

definition at_address :: "string \<Rightarrow> string \<times> step_record \<Rightarrow> bool" where
  "at_address a = (\<lambda>(_, r). sr_address r = a)"

definition update_records :: "string \<Rightarrow> (step_record \<Rightarrow> step_record) \<Rightarrow> step_records \<Rightarrow> step_records" where
  "update_records a f = update_first (at_address a) (\<lambda>(k, r). (k, f r))"

text \<open>Assignment to the fields of the record that \<open>record_for_address\<close> finds.\<close>

definition update_record :: "string \<Rightarrow> (step_record \<Rightarrow> step_record) \<Rightarrow> workflow_run \<Rightarrow> workflow_run" where
  "update_record a f run =
     (if list_ex (at_address a) (wr_steps run)
      then run\<lparr>wr_steps := update_records a f (wr_steps run)\<rparr>
      else run\<lparr>wr_items := update_first (\<lambda>(_, items). list_ex (\<lambda>i. list_ex (at_address a) (ir_steps i)) items)
        (\<lambda>(k, items). (k, update_first (\<lambda>i. list_ex (at_address a) (ir_steps i))
          (\<lambda>i. i\<lparr>ir_steps := update_records a f (ir_steps i)\<rparr>) items)) (wr_items run)\<rparr>)"

text \<open>The runner looks for the last entry of an address.\<close>

definition entry_at :: "string \<Rightarrow> effect_entry list \<Rightarrow> effect_entry option" where
  "entry_at a J = find_row ee_address a (rev J)"

definition update_entry :: "string \<Rightarrow> (effect_entry \<Rightarrow> effect_entry) \<Rightarrow> effect_entry list \<Rightarrow> effect_entry list" where
  "update_entry a f J = rev (update_first (\<lambda>e. ee_address e = a) f (rev J))"

section \<open>Resuming\<close>

definition in_doubt_record :: "string \<Rightarrow> step_record \<Rightarrow> step_record" where
  "in_doubt_record message r = r\<lparr>sr_status := SS_In_Doubt, sr_error := Some (EC_In_Doubt, message)\<rparr>"

text \<open>An effect that was dispatched and has no known result puts its step in doubt.\<close>

definition doubtful_addresses :: "effect_entry list \<Rightarrow> string list" where
  "doubtful_addresses J = map ee_address (filter (\<lambda>e. ee_status e = EF_Dispatched) J)"

definition doubt_entry :: "effect_entry \<Rightarrow> effect_entry" where
  "doubt_entry e = (if ee_status e = EF_Dispatched then e\<lparr>ee_status := EF_In_Doubt\<rparr> else e)"

definition doubt_dispatched :: "workflow_run \<Rightarrow> workflow_run checked" where
  "doubt_dispatched run =
     andthen (require (list_all (\<lambda>a. record_for_address run a \<noteq> None) (doubtful_addresses (wr_journal run)))
       ''run has no step record at the address'') (\<lambda>_.
     Inr (fold (\<lambda>a. update_record a (in_doubt_record ''effect dispatch has no known result'')) (doubtful_addresses (wr_journal run))
       (run\<lparr>wr_journal := map doubt_entry (wr_journal run)\<rparr>)))"

definition effect_addresses :: "effect_entry list \<Rightarrow> string list" where
  "effect_addresses J = map ee_address (filter (\<lambda>e. ee_status e \<in> {EF_Dispatched, EF_In_Doubt, EF_Succeeded, EF_Failed}) J)"

definition reset_record :: "string list \<Rightarrow> step_record \<Rightarrow> step_record" where
  "reset_record effects r =
     (if sr_status r \<in> {SS_Ready, SS_Running, SS_Interrupted} \<and> sr_address r \<notin> set effects
      then r\<lparr>sr_status := SS_Pending, sr_error := None\<rparr> else r)"

definition reset_item :: "string list \<Rightarrow> item_run \<Rightarrow> item_run" where
  "reset_item effects i =
     (let i' = i\<lparr>ir_steps := map (\<lambda>(k, r). (k, reset_record effects r)) (ir_steps i)\<rparr> in
      if ir_status i \<in> {IS_Running, IS_Interrupted} then i'\<lparr>ir_status := IS_Pending, ir_error := None\<rparr> else i')"

definition reset_run :: "workflow_run \<Rightarrow> workflow_run" where
  "reset_run run = (let effects = effect_addresses (wr_journal run) in
     run\<lparr>wr_steps := map (\<lambda>(k, r). (k, reset_record effects r)) (wr_steps run),
         wr_items := map (\<lambda>(k, items). (k, map (reset_item effects) items)) (wr_items run)\<rparr>)"

text \<open>The checks and the conversion of \<open>WorkflowRunner.resume\<close>, before the run is saved and run.\<close>

definition resume_run :: "string \<Rightarrow> string \<Rightarrow> profile_scope \<Rightarrow> workflow_run \<Rightarrow> workflow_run checked" where
  "resume_run fingerprint name scope run =
     andthen (require (wr_fingerprint run = fingerprint) ''cannot resume changed workflow graph'') (\<lambda>_.
     andthen (require (wr_name run = name) ''cannot resume workflow'') (\<lambda>_.
     andthen (require (wr_scope run = scope) ''cannot resume workflow under a different profile scope'') (\<lambda>_.
     andthen (doubt_dispatched run) (\<lambda>run. Inr (reset_run run)))))"

definition new_run :: "string \<Rightarrow> compiled_graph \<Rightarrow> profile_scope \<Rightarrow> json \<Rightarrow> workflow_run" where
  "new_run k g scope trigger = \<lparr>wr_id = k, wr_name = wf_name (cw_spec g), wr_scope = scope, wr_trigger = trigger,
     wr_fingerprint = cw_fingerprint g, wr_status = FS_Pending, wr_steps = step_records_for (wf_steps (cw_spec g)),
     wr_items = [], wr_journal = []\<rparr>"

section \<open>Finishing\<close>

text \<open>The status of a run whose graph has been run; \<open>_step_by_id\<close> takes the first step of an id.\<close>

definition final_status :: "step list \<Rightarrow> step_records \<Rightarrow> flow_status" where
  "final_status steps records =
     (let has = (\<lambda>s. \<exists>r \<in> snd ` set records. sr_status r = s) in
      if has SS_In_Doubt then FS_In_Doubt
      else if list_ex (\<lambda>(_, r). sr_status r = SS_Failed
        \<and> map_option st_on_error (find_row st_id (sr_step_id r) steps) = Some Fail_Workflow) records then FS_Failed
      else if has SS_Interrupted then FS_Interrupted
      else if has SS_Failed \<or> has SS_Blocked then FS_Completed_With_Errors
      else FS_Completed)"

text \<open>Whether \<open>run\<close> refuses to schedule anything because something is in doubt.\<close>

definition stopped_in_doubt :: "workflow_run \<Rightarrow> bool" where
  "stopped_in_doubt run \<longleftrightarrow> list_ex (\<lambda>r. sr_status r = SS_In_Doubt) (all_records run)"

section \<open>The store\<close>

text \<open>Loading checks the scope of the reader; the file system is a map from ids to runs.\<close>

definition load_run :: "profile_scope \<Rightarrow> workflow_run option \<Rightarrow> workflow_run checked" where
  "load_run scope stored = (case stored of
     None \<Rightarrow> Inl ''cannot read workflow run''
   | Some run \<Rightarrow> andthen (scope_label (wr_scope run)) (\<lambda>label.
       andthen (require (permits scope label) ''workflow run is outside the active profile scope'') (\<lambda>_. Inr run)))"

definition abandon_run :: "workflow_run \<Rightarrow> workflow_run checked" where
  "abandon_run run =
     andthen (require (wr_status run \<notin> {FS_Completed, FS_Completed_With_Errors}) ''cannot abandon completed workflow run'') (\<lambda>_.
       Inr (run\<lparr>wr_status := FS_Abandoned\<rparr>))"

definition reconciled_entry :: "bool \<Rightarrow> effect_entry \<Rightarrow> effect_entry" where
  "reconciled_entry completed e = e\<lparr>ee_status := if completed then EF_Reconciled else EF_Prepared,
     ee_summary := Some (if completed then ''user confirmed the effect completed'' else ''user confirmed the effect did not complete'')\<rparr>"

definition reconciled_record :: "bool \<Rightarrow> step_record \<Rightarrow> step_record" where
  "reconciled_record completed r =
     (if completed then r\<lparr>sr_status := SS_Completed, sr_output := JObj [(''reconciled'', JBool True)], sr_error := None\<rparr>
      else r\<lparr>sr_status := SS_Pending, sr_output := JNull, sr_error := None\<rparr>)"

definition reconcile_run :: "string \<Rightarrow> bool \<Rightarrow> workflow_run \<Rightarrow> workflow_run checked" where
  "reconcile_run a completed run =
     andthen (require (list_ex (\<lambda>e. ee_address e = a \<and> ee_status e = EF_In_Doubt) (wr_journal run))
       ''run has no in-doubt effect at the address'') (\<lambda>_.
     andthen (require (record_for_address run a \<noteq> None) ''run has no step record at the address'') (\<lambda>_.
       Inr ((update_record a (reconciled_record completed) run)
         \<lparr>wr_journal := update_first (\<lambda>e. ee_address e = a \<and> ee_status e = EF_In_Doubt) (reconciled_entry completed) (wr_journal run),
          wr_status := FS_Pending\<rparr>)))"

end
