(* ===== verification/Workflow_Exec.thy ===== *)
theory Workflow_Exec
  imports Workflow_Run Permissions
begin

text \<open>
  The execution of one step (\<open>ricky/agent/workflow.py\<close>): resolving its inputs, running its kind, keeping the
  journal of effects and the checkpoints, retrying, and turning errors into records.  The state holds
  the run in memory, its last checkpoint, the grants of the session and the outside world.  What the
  surroundings do to a checkpoint or a dispatch (an error, a cancellation, the end of the process, before or
  after it took place) is a list of fates.
\<close>

section \<open>State and environment\<close>

datatype fate = Goes_On | Goes_Wrong bool string | Gets_Cancelled bool | Gets_Killed bool

text \<open>
  \<open>fw_sent\<close> records the dispatches of effects as the outside sees them; the program does not read it.
  \<open>se_replay\<close> says that the journal held the effect as failed when the dispatch was admitted.
\<close>

record sent_effect =
  se_address :: string
  se_tool :: string
  se_args :: args
  se_key :: "string option"
  se_replay :: bool

record 'w flow_world =
  fw_run :: workflow_run
  fw_disk :: "workflow_run option"
  fw_outside :: 'w
  fw_grants :: "permission_grant list"
  fw_sent :: "sent_effect list"
  fw_fates :: "fate list"

datatype flow_error =
    Step_Error string
  | Permission_Error string
  | Model_Failure string string
  | Doubt_Error string
  | Performed_Error string
  | Replay_Error string
  | Flow_Cancelled
  | Flow_Killed

type_synonym ('w, 'a) flow = "('w flow_world, flow_error, 'a) op"

record approval_request =
  aq_step :: string
  aq_mode :: approval_mode
  aq_prompt :: string
  aq_proposal :: json
  aq_collection :: "json list"
  aq_keys :: "json list"

record approval_response =
  an_approved :: bool
  an_selected :: "json list"

text \<open>
  \<open>fe_other\<close> executes model and agent steps and shell checks, which depend on a language model or a
  shell; \<open>fe_lax_int\<close> and \<open>fe_lax_bool\<close> are pydantic's conversions.
\<close>

record 'w flow_env =
  fe_registry :: "'w tool_registry"
  fe_limits :: dispatch_limits
  fe_gate :: gate_setting
  fe_dry_run :: bool
  fe_settings :: workflow_settings
  fe_lax_int :: "json \<Rightarrow> int option"
  fe_lax_bool :: "json \<Rightarrow> bool option"
  fe_approve :: "approval_request \<Rightarrow> approval_response"
  fe_other :: "step \<Rightarrow> json \<Rightarrow> 'w \<Rightarrow> 'w \<times> (flow_error + json)"

definition handle :: "('s, 'e, 'a) op \<Rightarrow> ('e \<Rightarrow> ('s, 'e, 'a) op) \<Rightarrow> ('s, 'e, 'a) op" where
  "handle m h = (\<lambda>s. case m s of (s', Inl e) \<Rightarrow> h e s' | (s', Inr x) \<Rightarrow> (s', Inr x))"

definition step_error :: "'a checked \<Rightarrow> flow_error + 'a" where
  "step_error r = (case r of Inl m \<Rightarrow> Inl (Step_Error m) | Inr x \<Rightarrow> Inr x)"

definition checked_step :: "'a checked \<Rightarrow> ('w, 'a) flow" where
  "checked_step r = lift (step_error r)"

definition on_run :: "(workflow_run \<Rightarrow> workflow_run) \<Rightarrow> ('w, unit) flow" where
  "on_run f = writes (\<lambda>w. w\<lparr>fw_run := f (fw_run w)\<rparr>)"

definition on_record :: "string \<Rightarrow> (step_record \<Rightarrow> step_record) \<Rightarrow> ('w, unit) flow" where
  "on_record a f = on_run (update_record a f)"

definition on_entry :: "string \<Rightarrow> (effect_entry \<Rightarrow> effect_entry) \<Rightarrow> ('w, unit) flow" where
  "on_entry a f = on_run (\<lambda>run. run\<lparr>wr_journal := update_entry a f (wr_journal run)\<rparr>)"

definition next_fate :: "('w, fate) flow" where
  "next_fate = (\<lambda>w. case fw_fates w of [] \<Rightarrow> (w, Inr Goes_On) | f # fs \<Rightarrow> (w\<lparr>fw_fates := fs\<rparr>, Inr f))"

text \<open>An action of the surroundings, done or not, and how it comes back.\<close>

definition fated :: "('w flow_world \<Rightarrow> 'w flow_world \<times> 'a) \<Rightarrow> ('w, 'a) flow" where
  "fated act = bind next_fate (\<lambda>f.
     let done = (\<lambda>b w. if b then fst (act w) else w) in
     case f of
       Goes_On \<Rightarrow> (\<lambda>w. case act w of (w', x) \<Rightarrow> (w', Inr x))
     | Goes_Wrong b m \<Rightarrow> (\<lambda>w. (done b w, Inl (Step_Error m)))
     | Gets_Cancelled b \<Rightarrow> (\<lambda>w. (done b w, Inl Flow_Cancelled))
     | Gets_Killed b \<Rightarrow> (\<lambda>w. (done b w, Inl Flow_Killed)))"

text \<open>\<open>_save\<close>: the checkpoint replaces the last one or leaves it.\<close>

definition save_run :: "('w, unit) flow" where
  "save_run = fated (\<lambda>w. (w\<lparr>fw_disk := Some (fw_run w)\<rparr>, ()))"

section \<open>What a step reads\<close>

definition status_name :: "step_status \<Rightarrow> string" where
  "status_name s = (case s of SS_Pending \<Rightarrow> ''pending'' | SS_Ready \<Rightarrow> ''ready'' | SS_Running \<Rightarrow> ''running''
     | SS_Completed \<Rightarrow> ''completed'' | SS_Skipped \<Rightarrow> ''skipped'' | SS_Failed \<Rightarrow> ''failed'' | SS_Blocked \<Rightarrow> ''blocked''
     | SS_Interrupted \<Rightarrow> ''interrupted'' | SS_In_Doubt \<Rightarrow> ''in_doubt'')"

definition category_name :: "error_category \<Rightarrow> string" where
  "category_name c = (case c of EC_Reference \<Rightarrow> ''reference'' | EC_Condition \<Rightarrow> ''condition'' | EC_Tool_Error \<Rightarrow> ''tool_error''
     | EC_Permission_Denied \<Rightarrow> ''permission_denied'' | EC_Approval_Denied \<Rightarrow> ''approval_denied'' | EC_Scheduler \<Rightarrow> ''scheduler''
     | EC_Interrupted \<Rightarrow> ''interrupted'' | EC_In_Doubt \<Rightarrow> ''in_doubt'' | EC_Model m \<Rightarrow> m)"

definition error_json :: "(error_category \<times> string) option \<Rightarrow> json" where
  "error_json e = (case e of None \<Rightarrow> JNull
     | Some (c, m) \<Rightarrow> JObj [(''category'', JStr (category_name c)), (''message'', JStr m)])"

text \<open>The fields of a record that a compiled reference may read.\<close>

definition record_json :: "step_record \<Rightarrow> json" where
  "record_json r = JObj [(''status'', JStr (status_name (sr_status r))), (''output'', sr_output r), (''error'', error_json (sr_error r))]"

definition records_json :: "step_records \<Rightarrow> json" where
  "records_json recs = JObj (map (\<lambda>(k, r). (k, record_json r)) recs)"

definition run_context :: "workflow_run \<Rightarrow> step_records \<Rightarrow> item_run option \<Rightarrow> json" where
  "run_context run recs item = JObj
     ([(''trigger'', wr_trigger run), (''steps'', records_json (fold (\<lambda>(k, r) m. AList.update k r m) recs (wr_steps run)))]
      @ (case item of None \<Rightarrow> []
         | Some i \<Rightarrow> [(''item'', JObj [(''source'', ir_source i), (''key'', ir_key i), (''index'', JInt (int (ir_index i))),
             (''steps'', records_json recs)])]))"

definition validate_binding_size :: "workflow_settings \<Rightarrow> json \<Rightarrow> unit checked" where
  "validate_binding_size limits v =
     require (json_character_count v \<le> ws_max_binding_chars limits) ''workflow step binding has too many characters''"

definition step_bindings :: "step \<Rightarrow> json \<Rightarrow> json option checked" where
  "step_bindings s context =
     (let resolved = (\<lambda>r. andthen r (\<lambda>v. Inr (Some v)));
          optional = (\<lambda>k e. case e of None \<Rightarrow> Inr [] | Some e \<Rightarrow> andthen (resolve_value e context) (\<lambda>v. Inr [(k, v)])) in
      case st_kind s of
        Tool_Step _ args _ \<Rightarrow> resolved (resolve_mapping args context)
      | Data_Step _ args \<Rightarrow> resolved (resolve_mapping args context)
      | Model_Step m \<Rightarrow> resolved (resolve_mapping (mt_inputs m) context)
      | Agent_Step m _ _ \<Rightarrow> resolved (resolve_mapping (mt_inputs m) context)
      | Approval_Step _ prompt proposal items _ \<Rightarrow>
          andthen (resolve_value prompt context) (\<lambda>p.
          andthen (optional ''proposal'' proposal) (\<lambda>q.
          andthen (optional ''collection'' items) (\<lambda>c. Inr (Some (JObj ((''prompt'', p) # q @ c))))))
      | Message_Step e \<Rightarrow> resolved (resolve_value e context)
      | Foreach_Step items _ _ _ _ _ _ \<Rightarrow> resolved (resolve_value items context)
      | Check_Step _ \<Rightarrow> Inr None)"

definition validate_step_bindings :: "workflow_settings \<Rightarrow> step \<Rightarrow> json \<Rightarrow> unit checked" where
  "validate_step_bindings limits s context = andthen (step_bindings s context) (\<lambda>v.
     case v of None \<Rightarrow> Inr () | Some v \<Rightarrow> validate_binding_size limits v)"

definition runner_expressions :: "step \<Rightarrow> value_expr list" where
  "runner_expressions s = (case st_kind s of
     Tool_Step _ args _ \<Rightarrow> map snd args
   | Data_Step _ args \<Rightarrow> map snd args
   | Model_Step m \<Rightarrow> map snd (mt_inputs m)
   | Agent_Step m _ _ \<Rightarrow> map snd (mt_inputs m)
   | Approval_Step _ prompt proposal items key \<Rightarrow> prompt # List.map_filter id [proposal, items, key]
   | Message_Step e \<Rightarrow> [e]
   | Foreach_Step items key outputs _ _ _ _ \<Rightarrow> items # key # map snd outputs
   | Check_Step _ \<Rightarrow> [])"

section \<open>Approvals\<close>

definition json_scalar :: "json \<Rightarrow> bool" where
  "json_scalar v = (case v of JStr _ \<Rightarrow> True | JInt _ \<Rightarrow> True | JBool _ \<Rightarrow> True | _ \<Rightarrow> False)"

definition with_item :: "json \<Rightarrow> json \<Rightarrow> nat \<Rightarrow> json" where
  "with_item context source i = (case context of
     JObj kvs \<Rightarrow> JObj (AList.update ''item'' (JObj [(''source'', source), (''index'', JInt (int i))]) kvs) | v \<Rightarrow> v)"

text \<open>The key of an item, which must be a scalar and, by Python's equality, not among the keys before it.\<close>

definition item_key :: "workflow_settings \<Rightarrow> value_expr \<Rightarrow> json \<Rightarrow> json list \<Rightarrow> nat \<Rightarrow> json \<Rightarrow> json checked" where
  "item_key limits e context earlier i source =
     andthen (resolve_value e (with_item context source i)) (\<lambda>k.
     andthen (validate_binding_size limits k) (\<lambda>_.
     andthen (require (json_scalar k) ''item key must be a JSON scalar'') (\<lambda>_.
     andthen (require (\<not> list_ex (\<lambda>k'. py_eq k' k) earlier) ''item key is not unique'') (\<lambda>_. Inr k))))"

fun item_keys :: "workflow_settings \<Rightarrow> value_expr \<Rightarrow> json \<Rightarrow> json list \<Rightarrow> nat \<Rightarrow> json list \<Rightarrow> json list checked" where
  "item_keys limits e context earlier i [] = Inr earlier"
| "item_keys limits e context earlier i (source # rest) =
     andthen (item_key limits e context earlier i source) (\<lambda>k. item_keys limits e context (earlier @ [k]) (Suc i) rest)"

definition selection_output :: "json list \<Rightarrow> json list \<Rightarrow> json list \<Rightarrow> json checked" where
  "selection_output items keys selected =
     (let chosen = (\<lambda>k. list_ex (py_eq k) selected) in
      andthen (require (list_all (\<lambda>k. list_ex (py_eq k) keys) selected) ''approval selected unknown key(s)'') (\<lambda>_.
      Inr (JObj [(''approved'', JArr (map snd (filter (\<lambda>(k, _). chosen k) (zip keys items)))),
        (''rejected'', JArr (map snd (filter (\<lambda>(k, _). \<not> chosen k) (zip keys items)))),
        (''selected_keys'', JArr (filter chosen keys))])))"

definition execute_approval ::
  "'w flow_env \<Rightarrow> string \<Rightarrow> approval_mode \<Rightarrow> value_expr \<Rightarrow> value_expr option \<Rightarrow> value_expr option \<Rightarrow> value_expr option \<Rightarrow> json
    \<Rightarrow> flow_error + json" where
  "execute_approval env k mode prompt proposal items key context =
     (andthen (step_error (resolve_value prompt context)) (\<lambda>p. case p of
        JStr p \<Rightarrow>
          (case (mode, proposal, items, key) of
             (Confirm, Some e, _, _) \<Rightarrow>
               andthen (step_error (resolve_value e context)) (\<lambda>v.
               if an_approved (fe_approve env \<lparr>aq_step = k, aq_mode = Confirm, aq_prompt = p, aq_proposal = v, aq_collection = [], aq_keys = []\<rparr>)
               then Inr (JObj [(''approved'', JBool True), (''proposal'', v)])
               else Inl (Permission_Error ''approval denied''))
           | (Select, _, Some e, Some ke) \<Rightarrow>
               andthen (step_error (resolve_value e context)) (\<lambda>v. case v of
                 JArr xs \<Rightarrow>
                   andthen (step_error (item_keys (fe_settings env) ke context [] 0 xs)) (\<lambda>ks.
                   step_error (selection_output xs ks (an_selected (fe_approve env
                     \<lparr>aq_step = k, aq_mode = Select, aq_prompt = p, aq_proposal = JNull, aq_collection = xs, aq_keys = ks\<rparr>))))
               | _ \<Rightarrow> Inl (Step_Error ''select approval collection must resolve to a list''))
           | _ \<Rightarrow> Inl (Step_Error ''AssertionError''))
      | _ \<Rightarrow> Inl (Step_Error ''approval prompt must resolve to a string'')))"

section \<open>Tools and their effects\<close>

definition idempotency_key :: "'w registered_tool \<Rightarrow> args \<Rightarrow> string option" where
  "idempotency_key t args = (case rt_idempotency_key t of None \<Rightarrow> None
     | Some f \<Rightarrow> (case f args of JStr k \<Rightarrow> Some k | _ \<Rightarrow> None))"

definition has_key :: "string option \<Rightarrow> bool" where
  "has_key k \<longleftrightarrow> k \<noteq> None \<and> k \<noteq> Some []"

text \<open>The arguments a call runs with and its prepared effect: the gate, or only the arguments in a dry run.\<close>

definition gated_arguments ::
  "'w flow_env \<Rightarrow> tool_effect_kind \<Rightarrow> string \<Rightarrow> args \<Rightarrow> ('w, args \<times> prepared_payload option) flow" where
  "gated_arguments env kind n args =
     (if fe_dry_run env \<and> kind \<noteq> Effect_None
      then (let p = prepare_args (fe_registry env) n args None in
        case (pa_error p, pa_args p) of
          (None, Some canonical) \<Rightarrow> ret (canonical, None)
        | (Some r, _) \<Rightarrow> raise (Step_Error (tr_content r))
        | _ \<Rightarrow> raise (Step_Error ''AssertionError''))
      else bind (reads (\<lambda>w. decide_tool_permission (fe_registry env) (fe_gate env) (fw_grants w) (fw_outside w)
          \<lparr>tc_name = n, tc_args = args, tc_argument_error = None\<rparr>)) (\<lambda>r.
        bind (checked_step r) (\<lambda>(out, grants).
        bind (writes (\<lambda>w. w\<lparr>fw_grants := grants\<rparr>)) (\<lambda>_.
        case gt_decision out of
          Gate_Error e \<Rightarrow> raise (Step_Error (tr_content e))
        | Gate_Deny \<Rightarrow> raise (Permission_Error (''permission denied for '' @ n))
        | Gate_Allow \<Rightarrow> (case gt_args out of
            Some canonical \<Rightarrow> ret (canonical, gt_prepared out)
          | None \<Rightarrow> raise (Step_Error ''AssertionError''))))))"

text \<open>What an existing journal entry means for another dispatch; the result says whether it is prepared anew.\<close>

definition admit_effect :: "bool \<Rightarrow> effect_entry \<Rightarrow> string \<Rightarrow> args \<Rightarrow> string option \<Rightarrow> flow_error + bool" where
  "admit_effect dry e n args key =
     (if ee_tool e \<noteq> n \<or> \<not> py_eq (JObj (ee_args e)) (JObj args) then Inl (Step_Error ''stored effect does not match the resumed tool dispatch'')
      else case ee_status e of
        EF_Succeeded \<Rightarrow> Inl (Performed_Error (n @ '' already has a performed effect receipt; replay is forbidden''))
      | EF_Dispatched \<Rightarrow> Inl (Doubt_Error (n @ '' may already have become observable; replay is forbidden''))
      | EF_In_Doubt \<Rightarrow> Inl (Doubt_Error (n @ '' may already have become observable; replay is forbidden''))
      | EF_Failed \<Rightarrow> if \<not> ee_safe_replay e \<or> ee_key e \<noteq> key
          then Inl (Replay_Error (n @ '' has no safe replay contract for its failed effect'')) else Inr True
      | EF_Would_Dispatch \<Rightarrow> if \<not> dry then Inl (Replay_Error (n @ '' dry-run evidence cannot authorize a real dispatch''))
          else Inr False
      | _ \<Rightarrow> Inr False)"

definition new_entry ::
  "bool \<Rightarrow> string \<Rightarrow> string \<Rightarrow> string \<Rightarrow> args \<Rightarrow> workflow_tool \<Rightarrow> tool_effect_kind \<Rightarrow> string option \<Rightarrow> effect_entry" where
  "new_entry dry k a n args t kind key = \<lparr>ee_step_id = k, ee_address = a, ee_tool = n, ee_args = args, ee_risk = wt_risk t,
     ee_kind = kind, ee_status = (if dry then EF_Would_Dispatch else EF_Prepared), ee_key = key,
     ee_safe_replay = wt_idempotent_replay t, ee_summary = None\<rparr>"

text \<open>The entry of the address, made and saved if there is none; the result, for the log, is whether it had failed.\<close>

definition journal_effect ::
  "'w flow_env \<Rightarrow> string \<Rightarrow> string \<Rightarrow> string \<Rightarrow> args \<Rightarrow> workflow_tool \<Rightarrow> tool_effect_kind \<Rightarrow> string option \<Rightarrow> ('w, bool) flow" where
  "journal_effect env k a n args t kind key =
     bind (reads (\<lambda>w. entry_at a (wr_journal (fw_run w)))) (\<lambda>e. case e of
       Some e \<Rightarrow> bind (lift (admit_effect (fe_dry_run env) e n args key)) (\<lambda>reset.
         bind (if reset then on_entry a (\<lambda>e. e\<lparr>ee_status := EF_Prepared, ee_summary := None\<rparr>) else ret ()) (\<lambda>_.
         ret (ee_status e = EF_Failed)))
     | None \<Rightarrow> bind (on_run (\<lambda>run. run\<lparr>wr_journal := wr_journal run @ [new_entry (fe_dry_run env) k a n args t kind key]\<rparr>)) (\<lambda>_.
         bind save_run (\<lambda>_. ret False)))"

text \<open>The runner dispatches without a call id, so that it never hands a result to a sink.\<close>

definition runner_call :: "'w call_context" where
  "runner_call = \<lparr>cx_call_id = None, cx_sink = None\<rparr>"

text \<open>The dispatch itself; for an effect, the log of what was sent grows by one.\<close>

definition send_tool ::
  "'w flow_env \<Rightarrow> string \<Rightarrow> args \<Rightarrow> prepared_payload option \<Rightarrow> sent_effect option \<Rightarrow> ('w, tool_result) flow" where
  "send_tool env n args payload sent = fated (\<lambda>w.
     case (case payload of
         None \<Rightarrow> dispatch (fe_registry env) (fe_limits env) runner_call n args (fw_outside w)
       | Some p \<Rightarrow> dispatch_prepared (fe_registry env) (fe_limits env) runner_call n args p (fw_outside w)) of (w', r) \<Rightarrow>
     (w\<lparr>fw_outside := w', fw_sent := fw_sent w @ (case sent of None \<Rightarrow> [] | Some s \<Rightarrow> [s])\<rparr>, r))"

definition settled_status :: "tool_effect_kind \<Rightarrow> tool_result \<Rightarrow> effect_status" where
  "settled_status kind r =
     (let d = map_option er_disposition (tr_receipt r) in
      if kind = External_Effect \<and> d = Some In_Doubt then EF_In_Doubt
      else if kind = External_Effect \<and> d = Some Performed then EF_Succeeded
      else if kind = External_Effect \<and> d = Some Not_Performed then EF_Failed
      else if tr_is_error r then EF_Failed else EF_Succeeded)"

definition settle_effect :: "string \<Rightarrow> string \<Rightarrow> tool_effect_kind \<Rightarrow> tool_result \<Rightarrow> ('w, unit) flow" where
  "settle_effect a n kind r =
     (let d = map_option er_disposition (tr_receipt r) in
      bind (on_entry a (\<lambda>e. e\<lparr>ee_status := settled_status kind r, ee_summary := Some (take 1000 (tr_content r))\<rparr>)) (\<lambda>_.
      bind save_run (\<lambda>_.
      bind (unless (settled_status kind r \<noteq> EF_In_Doubt) (Doubt_Error (tr_content r))) (\<lambda>_.
      bind (unless (\<not> (d = Some Performed \<and> tr_is_error r)) (Performed_Error (tr_content r))) (\<lambda>_.
      unless (d \<noteq> Some Not_Performed)
        (Step_Error (if tr_content r = [] then n @ '' was not performed'' else tr_content r)))))))"

definition tool_output :: "bool \<Rightarrow> tool_result \<Rightarrow> ('w, json) flow" where
  "tool_output expose r = bind (unless (\<not> tr_is_error r) (Step_Error (tr_content r))) (\<lambda>_.
     ret (if expose then tr_data r else JObj [(''ok'', JBool True)]))"

text \<open>The dispatch of an effect between two checkpoints: dispatched before, settled after.\<close>

definition perform_effect ::
  "'w flow_env \<Rightarrow> string \<Rightarrow> string \<Rightarrow> args \<Rightarrow> prepared_payload option \<Rightarrow> tool_effect_kind \<Rightarrow> string option \<Rightarrow> bool \<Rightarrow> bool
    \<Rightarrow> ('w, json) flow" where
  "perform_effect env a n args payload kind key replay expose =
     bind (on_entry a (\<lambda>e. e\<lparr>ee_status := EF_Dispatched\<rparr>)) (\<lambda>_.
     bind save_run (\<lambda>_.
     bind (send_tool env n args payload
       (Some \<lparr>se_address = a, se_tool = n, se_args = args, se_key = key, se_replay = replay\<rparr>)) (\<lambda>r.
     bind (settle_effect a n kind r) (\<lambda>_. tool_output expose r))))"

definition execute_tool ::
  "'w flow_env \<Rightarrow> step \<Rightarrow> string \<Rightarrow> string \<Rightarrow> expr_map \<Rightarrow> bool \<Rightarrow> json \<Rightarrow> ('w, json) flow" where
  "execute_tool env s a n exprs expose context =
     bind (checked_step (resolve_mapping exprs context)) (\<lambda>v.
     bind (some_or (Step_Error ''AssertionError'') (case v of JObj kvs \<Rightarrow> Some kvs | _ \<Rightarrow> None)) (\<lambda>args.
     bind (some_or (Step_Error (''unknown tool: '' @ n)) (fe_registry env n)) (\<lambda>t.
     bind (checked_step (inspect_tool_contract (rt_declared t))) (\<lambda>metadata.
     let kind = tm_effect_kind metadata in
     bind (gated_arguments env kind n args) (\<lambda>(canonical, payload).
     if kind = Effect_None
     then bind (send_tool env n canonical payload None) (tool_output expose)
     else
       let permitted = permission_args (fe_registry env) n canonical; key = idempotency_key t canonical in
       bind (unless (rp_max_attempts (st_retry s) \<le> 1 \<or> has_key key)
         (Step_Error (''effect tool '' @ n @ '' did not produce an idempotency key''))) (\<lambda>_.
       bind (journal_effect env (st_id s) a n permitted (rt_declared t) kind key) (\<lambda>replay.
       if fe_dry_run env
       then ret (JObj [(''would_dispatch'', JBool True), (''tool'', JStr n), (''args'', JObj canonical)])
       else perform_effect env a n canonical payload kind key replay expose)))))))"

section \<open>One step\<close>

definition execute_leaf :: "'w flow_env \<Rightarrow> step \<Rightarrow> string \<Rightarrow> json \<Rightarrow> ('w, json) flow" where
  "execute_leaf env s a context = (case st_kind s of
     Data_Step operator exprs \<Rightarrow>
       checked_step (execute_data_step (fe_lax_int env) (fe_lax_bool env) operator exprs context)
   | Check_Step (Condition_Check c) \<Rightarrow> checked_step (condition_check c context)
   | Message_Step e \<Rightarrow> checked_step (execute_message_step e context)
   | Approval_Step mode prompt proposal items key \<Rightarrow> lift (execute_approval env (st_id s) mode prompt proposal items key context)
   | Tool_Step n exprs expose \<Rightarrow> execute_tool env s a n exprs expose context
   | _ \<Rightarrow> (\<lambda>w. case fe_other env s context (fw_outside w) of (w', r) \<Rightarrow> (w\<lparr>fw_outside := w'\<rparr>, r)))"

definition retries_tool_errors :: "step \<Rightarrow> bool" where
  "retries_tool_errors s \<longleftrightarrow> (case st_kind s of Tool_Step _ _ _ \<Rightarrow> True | _ \<Rightarrow> False) \<and> Retry_Tool_Error \<in> set (rp_on (st_retry s))"

definition add_attempt :: "step_record \<Rightarrow> step_record" where
  "add_attempt r = r\<lparr>sr_attempts := sr_attempts r @ [AS_Running]\<rparr>"

definition set_attempt :: "nat \<Rightarrow> attempt_status \<Rightarrow> step_record \<Rightarrow> step_record" where
  "set_attempt i st r = r\<lparr>sr_attempts := (sr_attempts r)[i := st]\<rparr>"

text \<open>
  \<open>number\<close> is the index of the current attempt and \<open>left\<close> how many more the policy allows.  Only a plain error
  is retried; the result carries the number of the attempt that succeeded.
\<close>

primrec leaf_with_retries :: "nat \<Rightarrow> 'w flow_env \<Rightarrow> step \<Rightarrow> string \<Rightarrow> json \<Rightarrow> nat \<Rightarrow> ('w, json \<times> nat) flow" where
  "leaf_with_retries 0 env s a context number = bind (execute_leaf env s a context) (\<lambda>v. ret (v, number))"
| "leaf_with_retries (Suc left) env s a context number =
     handle (bind (execute_leaf env s a context) (\<lambda>v. ret (v, number))) (\<lambda>e. case e of
       Step_Error m \<Rightarrow>
         if retries_tool_errors s
         then bind (on_record a (\<lambda>r. add_attempt (set_attempt number AS_Failed r))) (\<lambda>_.
              bind save_run (\<lambda>_. leaf_with_retries left env s a context (Suc number)))
         else raise e
     | _ \<Rightarrow> raise e)"

definition fail_record :: "error_category \<Rightarrow> string \<Rightarrow> step_record \<Rightarrow> step_record" where
  "fail_record c m r = r\<lparr>sr_status := SS_Failed, sr_error := Some (c, take 1000 m)\<rparr>"

definition interrupt_record :: "step_record \<Rightarrow> step_record" where
  "interrupt_record r = r\<lparr>sr_status := SS_Interrupted, sr_error := Some (EC_Interrupted, ''step was interrupted'')\<rparr>"

definition start_record :: "step \<Rightarrow> step_record \<Rightarrow> step_record" where
  "start_record s r = add_attempt (r\<lparr>sr_status := SS_Running,
     sr_references := sorted_set (concat (map iter_references (runner_expressions s)))\<rparr>)"

definition complete_record :: "json \<Rightarrow> step_record \<Rightarrow> step_record" where
  "complete_record v r = r\<lparr>sr_status := SS_Completed, sr_output := v, sr_error := None\<rparr>"

text \<open>Substring search of \<open>any(marker in str(exc).lower() ...)\<close>.\<close>

definition contains :: "string \<Rightarrow> string \<Rightarrow> bool" where
  "contains part whole \<longleftrightarrow> list_ex (\<lambda>i. take (length part) (drop i whole) = part) [0..<Suc (length whole)]"

definition plain_category :: "string \<Rightarrow> error_category" where
  "plain_category m = (if list_ex (\<lambda>w. contains w (py_lower m)) [''reference'', ''binding''] then EC_Reference else EC_Tool_Error)"

definition error_kind :: "step \<Rightarrow> flow_error \<Rightarrow> error_category \<times> string" where
  "error_kind s e = (case e of
     Permission_Error m \<Rightarrow> (case st_kind s of Approval_Step _ _ _ _ _ \<Rightarrow> (EC_Approval_Denied, m) | _ \<Rightarrow> (EC_Permission_Denied, m))
   | Model_Failure c m \<Rightarrow> (EC_Model c, m)
   | Step_Error m \<Rightarrow> (plain_category m, m)
   | Performed_Error m \<Rightarrow> (plain_category m, m)
   | Replay_Error m \<Rightarrow> (plain_category m, m)
   | Doubt_Error m \<Rightarrow> (EC_In_Doubt, m)
   | Flow_Cancelled \<Rightarrow> (EC_Interrupted, ''step was interrupted'')
   | Flow_Killed \<Rightarrow> (EC_Interrupted, []))"

text \<open>
  How a step ends that raised.  When a retry raised, the handlers close the attempt with which the execution
  began, since the runner learns the number of the last attempt only from a retry that returns.
\<close>

definition step_failed :: "step \<Rightarrow> string \<Rightarrow> nat \<Rightarrow> flow_error \<Rightarrow> ('w, unit) flow" where
  "step_failed s a number e = (case e of
     Flow_Killed \<Rightarrow> raise e
   | Flow_Cancelled \<Rightarrow> bind (on_record a (\<lambda>r. interrupt_record (set_attempt number AS_Interrupted r))) (\<lambda>_.
       bind save_run (\<lambda>_. raise e))
   | Doubt_Error m \<Rightarrow> bind (on_record a (\<lambda>r. in_doubt_record m (set_attempt number AS_Failed r))) (\<lambda>_. save_run)
   | _ \<Rightarrow> bind (on_record a (\<lambda>r. case error_kind s e of (c, m) \<Rightarrow> fail_record c m (set_attempt number AS_Failed r))) (\<lambda>_.
       save_run))"

definition step_result :: "'w flow_env \<Rightarrow> step \<Rightarrow> string \<Rightarrow> json \<Rightarrow> nat \<Rightarrow> ('w, json \<times> nat) flow" where
  "step_result env s a context number =
     bind (checked_step (validate_step_bindings (fe_settings env) s context)) (\<lambda>_.
       leaf_with_retries (rp_max_attempts (st_retry s) - Suc number) env s a context number)"

text \<open>
  \<open>_execute_record\<close> of a step other than a loop, without fixtures, up to its first checkpoint and after it.
  The first part returns the index of the attempt it opens.  \<open>recs\<close> reads the records of the graph of the
  step from the run, \<open>item\<close> the item of the loop around it.
\<close>

definition begin_record :: "step \<Rightarrow> string \<Rightarrow> ('w, nat) flow" where
  "begin_record s a =
     bind (reads (\<lambda>w. case record_for_address (fw_run w) a of None \<Rightarrow> 0 | Some r \<Rightarrow> length (sr_attempts r))) (\<lambda>number.
     bind (on_record a (start_record s)) (\<lambda>_. bind save_run (\<lambda>_. ret number)))"

definition finish_record ::
  "'w flow_env \<Rightarrow> (workflow_run \<Rightarrow> step_records) \<Rightarrow> (workflow_run \<Rightarrow> item_run option) \<Rightarrow> step \<Rightarrow> string \<Rightarrow> nat \<Rightarrow> ('w, unit) flow" where
  "finish_record env recs item s a number =
     bind (reads (\<lambda>w. run_context (fw_run w) (recs (fw_run w)) (item (fw_run w)))) (\<lambda>context.
     bind (handle (bind (step_result env s a context number) (\<lambda>x. ret (Some x)))
         (\<lambda>e. bind (step_failed s a number e) (\<lambda>_. ret None))) (\<lambda>x. case x of
       None \<Rightarrow> ret ()
     | Some (v, n) \<Rightarrow>
         if ws_max_result_chars (fe_settings env) < json_character_count v
         then step_failed s a n (Step_Error ''step output exceeds the configured result size'')
         else bind (on_record a (\<lambda>r. complete_record v (set_attempt n AS_Completed r))) (\<lambda>_. save_run)))"

definition execute_record ::
  "'w flow_env \<Rightarrow> (workflow_run \<Rightarrow> step_records) \<Rightarrow> (workflow_run \<Rightarrow> item_run option) \<Rightarrow> step \<Rightarrow> string \<Rightarrow> ('w, unit) flow" where
  "execute_record env recs item s a = bind (begin_record s a) (finish_record env recs item s a)"

end
