(* ===== verification/Workflow_Scheduler.thy ===== *)
theory Workflow_Scheduler
  imports Workflow_Exec
begin

text \<open>
  The scheduler of one graph of steps (\<open>_run_graph\<close> of \<open>ricky/agent/workflow.py\<close>): a scan decides the pending
  steps, a launch starts the ready ones within the capacity, and the loop waits for tasks to end.  A task begins
  when it is launched; the rest of its step runs when the relation \<open>schedule_step\<close> picks it, in any order.
  The graph inside a loop is scheduled by the same definitions at another place.
\<close>

section \<open>The records of a graph\<close>

datatype failure_mode = Fails_Run | Fails_Abort | Fails_Collect

record graph_place =
  gp_steps :: "step list"
  gp_prefix :: string
  gp_records :: "workflow_run \<Rightarrow> step_records"
  gp_item :: "workflow_run \<Rightarrow> item_run option"
  gp_failure :: failure_mode

definition step_address :: "graph_place \<Rightarrow> string \<Rightarrow> string" where
  "step_address p k = gp_prefix p @ k"

text \<open>\<open>records[k]\<close>; the record of a step is found by its address.\<close>

definition record_at :: "graph_place \<Rightarrow> workflow_run \<Rightarrow> string \<Rightarrow> step_record option" where
  "record_at p run k = record_for_address run (step_address p k)"

definition status_at :: "graph_place \<Rightarrow> workflow_run \<Rightarrow> string \<Rightarrow> step_status option" where
  "status_at p run k = map_option sr_status (record_at p run k)"

definition block_record :: "string \<Rightarrow> step_record \<Rightarrow> step_record" where
  "block_record m r = r\<lparr>sr_status := SS_Blocked, sr_error := Some (EC_Scheduler, m)\<rparr>"

section \<open>The scan\<close>

definition should_run :: "step \<Rightarrow> json \<Rightarrow> bool checked" where
  "should_run s context = (case st_when s of None \<Rightarrow> Inr True | Some c \<Rightarrow> evaluate_condition c context)"

text \<open>What becomes of a pending step with these dependencies; \<open>None\<close> while it has to wait.\<close>

definition examine :: "step \<Rightarrow> json \<Rightarrow> step_record list \<Rightarrow> (step_record \<Rightarrow> step_record) option" where
  "examine s context deps =
     (let failed = map sr_step_id (filter (\<lambda>d. \<not> is_success (sr_status d)) deps) in
      if \<not> list_all (\<lambda>d. is_terminal (sr_status d)) deps then None
      else if st_policy s = On_Success \<and> failed \<noteq> []
      then Some (\<lambda>r. (block_record ''required dependencies did not succeed'' r)\<lparr>sr_blocked_by := failed\<rparr>)
      else case should_run s context of
        Inl m \<Rightarrow> Some (fail_record EC_Condition m)
      | Inr b \<Rightarrow> Some (\<lambda>r. r\<lparr>sr_condition := Some b, sr_status := if b then SS_Ready else SS_Skipped\<rparr>))"

text \<open>The context holds the records themselves, so a condition sees what the scan did before it.\<close>

definition place_context :: "graph_place \<Rightarrow> workflow_run \<Rightarrow> json" where
  "place_context p run = run_context run (gp_records p run) (gp_item p run)"

definition scan_step :: "graph_place \<Rightarrow> step \<Rightarrow> ('w, bool) flow" where
  "scan_step p s =
     bind (reads (\<lambda>w. record_at p (fw_run w) (st_id s))) (\<lambda>r.
     bind (some_or (Step_Error ''KeyError'') r) (\<lambda>r.
     if sr_status r \<noteq> SS_Pending then ret False
     else bind (reads (\<lambda>w. those (map (record_at p (fw_run w)) (st_needs s)))) (\<lambda>deps.
       bind (some_or (Step_Error ''KeyError'') deps) (\<lambda>deps.
       bind (reads (\<lambda>w. place_context p (fw_run w))) (\<lambda>context.
       case examine s context deps of
         None \<Rightarrow> ret False
       | Some f \<Rightarrow> bind (on_record (step_address p (st_id s)) f) (\<lambda>_. bind save_run (\<lambda>_.
           ret (sr_status (f r) = SS_Failed \<and> st_on_error s = Fail_Workflow))))))))"

primrec scan_steps :: "graph_place \<Rightarrow> step list \<Rightarrow> bool \<Rightarrow> ('w, bool) flow" where
  "scan_steps p [] fatal = ret fatal"
| "scan_steps p (s # rest) fatal = bind (scan_step p s) (\<lambda>b. scan_steps p rest (fatal \<or> b))"

section \<open>The launch\<close>

definition exclusive :: "'w flow_env \<Rightarrow> step \<Rightarrow> bool" where
  "exclusive env s = (case st_kind s of
     Approval_Step _ _ _ _ _ \<Rightarrow> True
   | Tool_Step n _ _ \<Rightarrow> (case fe_registry env n of None \<Rightarrow> False | Some t \<Rightarrow> wt_risk (rt_declared t) \<noteq> Read_Only)
   | _ \<Rightarrow> False)"

definition max_parallel :: "workflow_settings \<Rightarrow> workflow_spec \<Rightarrow> nat" where
  "max_parallel settings spec =
     min (given (wf_max_parallel_steps spec) (ws_max_parallel_steps settings)) (ws_max_parallel_steps settings)"

definition select_steps :: "'w flow_env \<Rightarrow> nat \<Rightarrow> nat \<Rightarrow> step list \<Rightarrow> step list" where
  "select_steps env limit busy ready =
     (if ready = [] \<or> limit \<le> busy then []
      else case find (exclusive env) ready of
        Some s \<Rightarrow> if busy = 0 then [s] else []
      | None \<Rightarrow> take (limit - busy) ready)"

type_synonym task = "step \<times> nat"

definition launch :: "graph_place \<Rightarrow> step list \<Rightarrow> ('w, task list) flow" where
  "launch p = each (\<lambda>s. bind (begin_record s (step_address p (st_id s))) (\<lambda>n. ret (s, n)))"

definition task_body :: "'w flow_env \<Rightarrow> graph_place \<Rightarrow> task \<Rightarrow> ('w, unit) flow" where
  "task_body env p t = (case t of (s, n) \<Rightarrow> finish_record env (gp_records p) (gp_item p) s (step_address p (st_id s)) n)"

section \<open>Stopping\<close>

text \<open>Tasks are cancelled and gathered with their exceptions; \<open>hit\<close> are those that get no further.\<close>

definition end_task :: "'w flow_env \<Rightarrow> graph_place \<Rightarrow> (task \<Rightarrow> bool) \<Rightarrow> task \<Rightarrow> ('w, unit) flow" where
  "end_task env p hit t =
     handle (if hit t then step_failed (fst t) (step_address p (st_id (fst t))) (snd t) Flow_Cancelled else task_body env p t)
       (\<lambda>e. if e = Flow_Killed then raise e else ret ())"

definition stop_step :: "graph_place \<Rightarrow> step \<Rightarrow> ('w, unit) flow" where
  "stop_step p s = bind (reads (\<lambda>w. status_at p (fw_run w) (st_id s))) (\<lambda>st.
     if st \<in> {Some SS_Pending, Some SS_Ready}
     then on_record (step_address p (st_id s)) (block_record ''workflow stopped after step failure'')
     else ret ())"

definition stop_graph :: "'w flow_env \<Rightarrow> graph_place \<Rightarrow> (task \<Rightarrow> bool) \<Rightarrow> task list \<Rightarrow> ('w, unit) flow" where
  "stop_graph env p hit running =
     bind (each (end_task env p hit) running) (\<lambda>_. bind save_run (\<lambda>_.
     bind (each (stop_step p) (gp_steps p)) (\<lambda>_. save_run)))"

section \<open>One turn of the loop\<close>

datatype turn = Turn_Waits | Turn_Ends | Turn_Impossible

definition with_status :: "graph_place \<Rightarrow> (step_status \<Rightarrow> bool) \<Rightarrow> workflow_run \<Rightarrow> step list" where
  "with_status p f run = filter (\<lambda>s. case status_at p run (st_id s) of None \<Rightarrow> False | Some st \<Rightarrow> f st) (gp_steps p)"

definition wait_or_end :: "graph_place \<Rightarrow> task list \<Rightarrow> ('w, turn \<times> task list) flow" where
  "wait_or_end p running =
     (if running \<noteq> [] then ret (Turn_Waits, running)
      else bind (reads (\<lambda>w. with_status p (\<lambda>st. \<not> is_terminal st) (fw_run w))) (\<lambda>unfinished.
        if unfinished = [] then ret (Turn_Ends, [])
        else bind (each (\<lambda>s. on_record (step_address p (st_id s)) (fail_record EC_Scheduler ''impossible pending scheduler state'')) unfinished)
          (\<lambda>_. bind save_run (\<lambda>_. ret (Turn_Impossible, [])))))"

definition scheduler_turn ::
  "'w flow_env \<Rightarrow> nat \<Rightarrow> graph_place \<Rightarrow> (task \<Rightarrow> bool) \<Rightarrow> task list \<Rightarrow> bool \<Rightarrow> ('w, turn \<times> task list) flow" where
  "scheduler_turn env limit p hit running fatal =
     bind (scan_steps p (gp_steps p) fatal) (\<lambda>fatal.
     if fatal then bind (stop_graph env p hit running) (\<lambda>_. ret (Turn_Ends, []))
     else bind (reads (\<lambda>w. with_status p (\<lambda>st. st = SS_Ready) (fw_run w))) (\<lambda>ready.
       bind (launch p (select_steps env limit (length running) ready)) (\<lambda>new. wait_or_end p (running @ new))))"

text \<open>What the end of a task means for the graph; it replaces what another task of the same turn meant.\<close>

definition fatal_after :: "graph_place \<Rightarrow> step \<Rightarrow> workflow_run \<Rightarrow> bool \<Rightarrow> bool" where
  "fatal_after p s run fatal =
     (if status_at p run (st_id s) = Some SS_Failed
      then gp_failure p = Fails_Abort \<or> gp_failure p = Fails_Run \<and> st_on_error s = Fail_Workflow
      else fatal)"

section \<open>The loop\<close>

text \<open>\<open>Crashed\<close>: an exception left \<open>_run_graph\<close>; \<open>Stuck\<close>: it was the scheduler's own.\<close>

datatype phase = Scanning | Waiting | Collecting | Ended | Stuck | Crashed flow_error

record 'w schedule =
  sd_world :: "'w flow_world"
  sd_running :: "task list"
  sd_fatal :: bool
  sd_phase :: phase

definition after_turn :: "'w flow_world \<times> (flow_error + turn \<times> task list) \<Rightarrow> 'w schedule \<Rightarrow> 'w schedule" where
  "after_turn x c = (case x of
     (w, Inl e) \<Rightarrow> c\<lparr>sd_world := w, sd_phase := Crashed e\<rparr>
   | (w, Inr (t, running)) \<Rightarrow> \<lparr>sd_world = w, sd_running = running, sd_fatal = False,
       sd_phase = (case t of Turn_Waits \<Rightarrow> Waiting | Turn_Ends \<Rightarrow> Ended | Turn_Impossible \<Rightarrow> Stuck)\<rparr>)"

definition after_task :: "graph_place \<Rightarrow> task \<Rightarrow> 'w flow_world \<times> (flow_error + unit) \<Rightarrow> 'w schedule \<Rightarrow> 'w schedule" where
  "after_task p t x c = (case x of
     (w, Inl e) \<Rightarrow> c\<lparr>sd_world := w, sd_phase := Crashed e\<rparr>
   | (w, Inr ()) \<Rightarrow> \<lparr>sd_world = w, sd_running = remove1 t (sd_running c), sd_fatal = fatal_after p (fst t) (fw_run w) (sd_fatal c),
       sd_phase = Collecting\<rparr>)"

definition take_turn :: "'w flow_env \<Rightarrow> nat \<Rightarrow> graph_place \<Rightarrow> (task \<Rightarrow> bool) \<Rightarrow> 'w schedule \<Rightarrow> 'w schedule" where
  "take_turn env limit p hit c = after_turn (scheduler_turn env limit p hit (sd_running c) (sd_fatal c) (sd_world c)) c"

definition run_task :: "'w flow_env \<Rightarrow> graph_place \<Rightarrow> task \<Rightarrow> 'w schedule \<Rightarrow> 'w schedule" where
  "run_task env p t c = after_task p t (task_body env p t (sd_world c)) c"

inductive schedule_step :: "'w flow_env \<Rightarrow> nat \<Rightarrow> graph_place \<Rightarrow> 'w schedule \<Rightarrow> 'w schedule \<Rightarrow> bool"
  for env limit p where
  turn: "sd_phase c = Scanning \<Longrightarrow> schedule_step env limit p c (take_turn env limit p hit c)"
| task: "sd_phase c \<in> {Waiting, Collecting} \<Longrightarrow> t \<in> set (sd_running c) \<Longrightarrow> schedule_step env limit p c (run_task env p t c)"
| again: "sd_phase c = Collecting \<Longrightarrow> schedule_step env limit p c (c\<lparr>sd_phase := Scanning\<rparr>)"

definition scheduled :: "'w flow_world \<Rightarrow> 'w schedule" where
  "scheduled w = \<lparr>sd_world = w, sd_running = [], sd_fatal = False, sd_phase = Scanning\<rparr>"

text \<open>The steps of a workflow itself.\<close>

definition top_place :: "step list \<Rightarrow> graph_place" where
  "top_place steps = \<lparr>gp_steps = steps, gp_prefix = [], gp_records = wr_steps, gp_item = (\<lambda>_. None), gp_failure = Fails_Run\<rparr>"

end
