(* ===== verification/Workflow_Loops.thy ===== *)
theory Workflow_Loops
  imports Workflow_Scheduler
begin

text \<open>
  Loops (\<open>_execute_foreach\<close> of \<open>ricky/agent/workflow.py\<close>): how the items of a collection get their runs,
  where the graph of an item is scheduled, and what an item comes to.  The address of a step in an item names
  the loop, the key of the item as JSON and the step.
\<close>

section \<open>Planning the items\<close>

definition item_prefix :: "string \<Rightarrow> json \<Rightarrow> string" where
  "item_prefix fid key = fid @ ''/'' @ json_dumps key @ ''/''"

definition new_item :: "string \<Rightarrow> step list \<Rightarrow> json \<Rightarrow> nat \<Rightarrow> json \<Rightarrow> item_run" where
  "new_item fid body key i source = \<lparr>ir_foreach = fid, ir_key = key, ir_index = i, ir_source = source, ir_status = IS_Pending,
     ir_steps = fold (\<lambda>s recs. AList.update (st_id s) (new_record (item_prefix fid key @ st_id s) s) recs) body [], ir_error = None\<rparr>"

text \<open>An item of an earlier execution is found by its key and keeps its records.\<close>

definition add_item :: "string \<Rightarrow> step list \<Rightarrow> json \<Rightarrow> nat \<Rightarrow> json \<Rightarrow> item_run list \<Rightarrow> item_run list" where
  "add_item fid body key i source items =
     (if list_ex (\<lambda>it. py_eq (ir_key it) key) items then items else items @ [new_item fid body key i source])"

fun plan_items ::
  "workflow_settings \<Rightarrow> string \<Rightarrow> step list \<Rightarrow> value_expr \<Rightarrow> json \<Rightarrow> item_run list \<Rightarrow> json list \<Rightarrow> nat \<Rightarrow> json list
    \<Rightarrow> item_run list \<times> json list checked" where
  "plan_items limits fid body e context items earlier i [] = (items, Inr earlier)"
| "plan_items limits fid body e context items earlier i (source # rest) =
     (case item_key limits e context earlier i source of
        Inl m \<Rightarrow> (items, Inl m)
      | Inr key \<Rightarrow> plan_items limits fid body e context (add_item fid body key i source items) (earlier @ [key]) (Suc i) rest)"

definition items_of :: "string \<Rightarrow> workflow_run \<Rightarrow> item_run list" where
  "items_of fid run = (case map_of (wr_items run) fid of None \<Rightarrow> [] | Some items \<Rightarrow> items)"

definition set_items :: "string \<Rightarrow> item_run list \<Rightarrow> workflow_run \<Rightarrow> workflow_run" where
  "set_items fid items run = run\<lparr>wr_items := AList.update fid items (wr_items run)\<rparr>"

definition foreach_maximum :: "workflow_settings \<Rightarrow> nat option \<Rightarrow> nat" where
  "foreach_maximum limits m = min (given m (ws_max_foreach_items limits)) (ws_max_foreach_items limits)"

definition plan_foreach ::
  "workflow_settings \<Rightarrow> string \<Rightarrow> value_expr \<Rightarrow> value_expr \<Rightarrow> step list \<Rightarrow> nat option \<Rightarrow> json \<Rightarrow> ('w, json list) flow" where
  "plan_foreach limits fid items key body m context =
     bind (checked_step (resolve_value items context)) (\<lambda>v.
     bind (some_or (Step_Error ''foreach collection must resolve to a list'') (case v of JArr xs \<Rightarrow> Some xs | _ \<Rightarrow> None)) (\<lambda>xs.
     bind (unless (length xs \<le> foreach_maximum limits m) (Step_Error ''foreach collection has too many items'')) (\<lambda>_.
     let planned = (\<lambda>run. plan_items limits fid body key context (items_of fid run) [] 0 xs) in
     bind (reads (\<lambda>w. snd (planned (fw_run w)))) (\<lambda>keys.
     bind (on_run (\<lambda>run. set_items fid (fst (planned run)) run)) (\<lambda>_.
     bind (checked_step keys) (\<lambda>keys. bind save_run (\<lambda>_. ret keys)))))))"

section \<open>The graph of an item\<close>

definition find_item :: "string \<Rightarrow> json \<Rightarrow> workflow_run \<Rightarrow> item_run option" where
  "find_item fid key run = find (\<lambda>it. py_eq (ir_key it) key) (items_of fid run)"

definition item_place :: "string \<Rightarrow> json \<Rightarrow> step list \<Rightarrow> item_error_policy \<Rightarrow> graph_place" where
  "item_place fid key body policy = \<lparr>gp_steps = body, gp_prefix = item_prefix fid key,
     gp_records = (\<lambda>run. case find_item fid key run of None \<Rightarrow> [] | Some it \<Rightarrow> ir_steps it), gp_item = find_item fid key,
     gp_failure = (case policy of Item_Abort \<Rightarrow> Fails_Abort | Item_Collect \<Rightarrow> Fails_Collect)\<rparr>"

text \<open>What an item comes to when its graph has been run; a step in doubt is not a failure here.\<close>

definition settle_item :: "item_error_policy \<Rightarrow> item_run \<Rightarrow> item_run" where
  "settle_item policy it =
     (case filter (\<lambda>r. sr_status r \<in> {SS_Failed, SS_Blocked}) (map snd (ir_steps it)) of
        [] \<Rightarrow> it\<lparr>ir_status := IS_Completed\<rparr>
      | r # _ \<Rightarrow> it\<lparr>ir_status := if policy = Item_Collect then IS_Completed_With_Errors else IS_Failed, ir_error := sr_error r\<rparr>)"

end
