(* ===== verification/Workflow_Effects.thy ===== *)
theory Workflow_Effects
  imports Workflow_Exec
begin

text \<open>
  What the execution of a step does to the journal of effects.  A locale states which relations between
  worlds the runner keeps; it is interpreted with the bound on the dispatches of one address and with
  the frame that leaves other addresses alone.
\<close>

section \<open>Records and entries after an update\<close>

lemma update_first_none: "\<not> list_ex p xs \<Longrightarrow> update_first p f xs = xs"
  by (induction xs) auto

lemma update_first_append:
  "update_first p f (xs @ ys) = (if list_ex p xs then update_first p f xs @ ys else xs @ update_first p f ys)"
  by (induction xs) auto

lemma update_first_concat:
  assumes "\<And>x. q x \<longleftrightarrow> list_ex p (g x)" and "\<And>x. q x \<Longrightarrow> g (h x) = update_first p f (g x)"
  shows "concat (map g (update_first q h xs)) = update_first p f (concat (map g xs))"
  using assms by (induction xs) (auto simp: update_first_append)

lemma update_first_map: "(\<And>x. g (h x) = f (g x)) \<Longrightarrow> map g (update_first (\<lambda>x. p (g x)) h xs) = update_first p f (map g xs)"
  by (induction xs) auto

lemma find_update_first:
  assumes "\<And>x. key (f x) = key x"
  shows "find_row key b (update_first (\<lambda>x. key x = a) f xs)
    = (if b = a then map_option f (find_row key a xs) else find_row key b xs)"
  using assms by (induction xs) auto

lemma updated_records: "map snd (update_records a f recs) = update_first (\<lambda>r. sr_address r = a) f (map snd recs)"
  unfolding update_records_def by (induction recs) (auto simp: at_address_def)

lemma any_at_address: "list_ex (at_address a) recs \<longleftrightarrow> list_ex (\<lambda>r. sr_address r = a) (map snd recs)"
  by (induction recs) (auto simp: at_address_def)

abbreviation item_records :: "item_run list \<Rightarrow> step_record list" where
  "item_records items \<equiv> concat (map (\<lambda>i. map snd (ir_steps i)) items)"

lemma any_in_concat: "list_ex p (concat (map g xs)) \<longleftrightarrow> list_ex (\<lambda>x. list_ex p (g x)) xs"
  by (induction xs) auto

lemma all_updated: "all_records (update_record a f run) = update_first (\<lambda>r. sr_address r = a) f (all_records run)"
proof (cases "list_ex (at_address a) (wr_steps run)")
  case True
  then show ?thesis
    by (simp add: update_record_def all_records_def updated_records update_first_append any_at_address)
next
  case False
  have one: "item_records (update_first (\<lambda>i. list_ex (at_address a) (ir_steps i))
      (\<lambda>i. i\<lparr>ir_steps := update_records a f (ir_steps i)\<rparr>) items) = update_first (\<lambda>r. sr_address r = a) f (item_records items)" for items
    by (rule update_first_concat) (simp_all add: any_at_address updated_records)
  have "concat (map (\<lambda>(_, items). item_records items)
      (update_first (\<lambda>(_, items). list_ex (\<lambda>i. list_ex (at_address a) (ir_steps i)) items)
        (\<lambda>(k, items). (k, update_first (\<lambda>i. list_ex (at_address a) (ir_steps i))
          (\<lambda>i. i\<lparr>ir_steps := update_records a f (ir_steps i)\<rparr>) items)) (wr_items run)))
    = update_first (\<lambda>r. sr_address r = a) f (concat (map (\<lambda>(_, items). item_records items) (wr_items run)))"
  proof (rule update_first_concat)
    fix x :: "string \<times> item_run list"
    show "(case x of (_, items) \<Rightarrow> list_ex (\<lambda>i. list_ex (at_address a) (ir_steps i)) items)
      = list_ex (\<lambda>r. sr_address r = a) (case x of (_, items) \<Rightarrow> item_records items)"
      by (cases x) (simp add: any_in_concat any_at_address)
    show "(case case x of (k, items) \<Rightarrow> (k, update_first (\<lambda>i. list_ex (at_address a) (ir_steps i))
          (\<lambda>i. i\<lparr>ir_steps := update_records a f (ir_steps i)\<rparr>) items) of (_, items) \<Rightarrow> item_records items)
      = update_first (\<lambda>r. sr_address r = a) f (case x of (_, items) \<Rightarrow> item_records items)"
      by (cases x) (simp only: prod.case one)
  qed
  then show ?thesis using False
    by (simp add: update_record_def all_records_def update_first_append any_at_address)
qed

lemma record_updated:
  assumes "\<And>r. sr_address (f r) = sr_address r"
  shows "record_for_address (update_record a f run) b
    = (if b = a then map_option f (record_for_address run a) else record_for_address run b)"
  unfolding record_for_address_def all_updated by (rule find_update_first) (rule assms)

lemma update_record_journal [simp]: "wr_journal (update_record a f run) = wr_journal run"
  by (simp add: update_record_def)

lemma all_records_journal [simp]: "all_records (run\<lparr>wr_journal := J\<rparr>) = all_records run"
  by (simp add: all_records_def)

lemma entry_appended: "entry_at b (J @ [e]) = (if ee_address e = b then Some e else entry_at b J)"
  by (simp add: entry_at_def)

lemma entry_updated:
  assumes "\<And>e. ee_address (f e) = ee_address e"
  shows "entry_at b (update_entry a f J) = (if b = a then map_option f (entry_at a J) else entry_at b J)"
  unfolding entry_at_def update_entry_def by (simp add: find_update_first assms)

lemma entry_address: "entry_at a J = Some e \<Longrightarrow> ee_address e = a"
  unfolding entry_at_def by (auto dest: find_row_Some)

section \<open>Relations the runner keeps\<close>

lemma keeps_handle [keeps_intros]: "transp R \<Longrightarrow> keeps R m \<Longrightarrow> (\<And>e. keeps R (h e)) \<Longrightarrow> keeps R (handle m h)"
  unfolding keeps_def handle_def by (auto split: prod.splits sum.splits) (metis fst_conv transpD)+

lemma keeps_flow_errors [keeps_intros]:
  "(\<And>x. keeps R (a x)) \<Longrightarrow> (\<And>x. keeps R (b x)) \<Longrightarrow> (\<And>x y. keeps R (c x y)) \<Longrightarrow> (\<And>x. keeps R (d x)) \<Longrightarrow>
     (\<And>x. keeps R (e x)) \<Longrightarrow> (\<And>x. keeps R (f x)) \<Longrightarrow> keeps R g \<Longrightarrow> keeps R h \<Longrightarrow> keeps R (case_flow_error a b c d e f g h x)"
  by (cases x) simp_all

lemma keeps_reads [keeps_intros]:
  "reflp R \<Longrightarrow> keeps R (reads f)" "reflp R \<Longrightarrow> keeps R (unless b e)" "reflp R \<Longrightarrow> keeps R (lift r)"
  "reflp R \<Longrightarrow> keeps R (some_or e v)" "reflp R \<Longrightarrow> keeps R (checked_step q)"
  by (simp_all add: keeps_def op_defs reflp_def checked_step_def)

text \<open>What one step at the address \<open>a\<close> is made of: its record, checkpoints, tools and whatever runs outside.\<close>

locale runner_relation =
  fixes R :: "'w flow_world \<Rightarrow> 'w flow_world \<Rightarrow> bool" and a :: string and dry :: bool
  assumes order: "reflp R" "transp R"
    and record_step: "(\<And>r. sr_address (f r) = sr_address r) \<Longrightarrow> keeps R (on_record a f)"
    and save_step: "keeps R save_run"
    and outside_step: "R w (w\<lparr>fw_outside := x\<rparr>)"
    and tool_step: "fe_dry_run env = dry \<Longrightarrow> keeps R (execute_tool env s a n exprs expose context)"
begin

lemmas calls = order record_step save_step

lemma keeps_leaf: "fe_dry_run env = dry \<Longrightarrow> keeps R (execute_leaf env s a context)"
proof -
  assume env: "fe_dry_run env = dry"
  have other: "keeps R (\<lambda>w. case fe_other env s context (fw_outside w) of (w', r) \<Rightarrow> (w\<lparr>fw_outside := w'\<rparr>, r))"
    using outside_step by (auto simp: keeps_def split: prod.split)
  show ?thesis
    unfolding execute_leaf_def using other tool_step [OF env] keeps_reads [OF order(1)]
    by (auto split: step_kind.split workflow_check.split)
qed

lemma attempt_addresses [simp]:
  "sr_address (add_attempt r) = sr_address r" "sr_address (set_attempt i st r) = sr_address r"
  "sr_address (start_record s r) = sr_address r" "sr_address (fail_record c m r) = sr_address r"
  "sr_address (interrupt_record r) = sr_address r" "sr_address (complete_record v r) = sr_address r"
  "sr_address (in_doubt_record m r) = sr_address r"
  by (simp_all add: add_attempt_def set_attempt_def start_record_def fail_record_def interrupt_record_def complete_record_def
      in_doubt_record_def)

lemma keeps_retries: "fe_dry_run env = dry \<Longrightarrow> keeps R (leaf_with_retries left env s a context number)"
proof (induction left arbitrary: number)
  case 0
  then show ?case by (simp, intro keeps_intros calls keeps_leaf)
next
  case (Suc left)
  then show ?case by (simp, intro keeps_intros calls keeps_leaf) (simp_all add: Suc)
qed

lemma keeps_failed: "keeps R (step_failed s a number e)"
  unfolding step_failed_def by (intro keeps_intros calls) (auto split: prod.split)

lemma keeps_begin: "keeps R (begin_record s a)"
  unfolding begin_record_def by (intro keeps_intros calls keeps_reads) auto

lemma keeps_finish: "fe_dry_run env = dry \<Longrightarrow> keeps R (finish_record env recs item s a number)"
  unfolding finish_record_def step_result_def
  by (intro keeps_intros calls keeps_reads keeps_retries keeps_failed) auto

lemma keeps_execute: "fe_dry_run env = dry \<Longrightarrow> keeps R (execute_record env recs item s a)"
  unfolding execute_record_def by (intro keeps_intros calls keeps_begin keeps_finish)

end

section \<open>Records of other steps\<close>

definition records_kept :: "string \<Rightarrow> 'w flow_world \<Rightarrow> 'w flow_world \<Rightarrow> bool" where
  "records_kept a w w' \<longleftrightarrow> (\<forall>b. (b \<noteq> a \<longrightarrow> record_for_address (fw_run w') b = record_for_address (fw_run w) b)
     \<and> (record_for_address (fw_run w') b = None \<longleftrightarrow> record_for_address (fw_run w) b = None))"

lemma kept_order: "reflp (records_kept a)" "transp (records_kept a)"
  by (auto simp: records_kept_def reflp_def transp_def)

lemma fst_bind: "fst (bind m f w) = (case m w of (w', Inl e) \<Rightarrow> w' | (w', Inr x) \<Rightarrow> fst (f x w'))"
  by (auto simp: bind_def split: prod.split sum.split)

abbreviation fate_drawn :: "'w flow_world \<Rightarrow> 'w flow_world" where
  "fate_drawn w \<equiv> w\<lparr>fw_fates := tl (fw_fates w)\<rparr>"

lemma next_fate_world: "next_fate w = (fate_drawn w, Inr (case fw_fates w of [] \<Rightarrow> Goes_On | f # fs \<Rightarrow> f))"
  by (cases w) (auto simp: next_fate_def split: list.split)

text \<open>An action of the surroundings either took place or did not.\<close>

lemma fated_world: "fst (fated act w) \<in> {fate_drawn w, fst (act (fate_drawn w))}"
  by (auto simp: fated_def next_fate_world fst_bind split: fate.splits prod.splits list.splits)

lemma fated_keeps:
  assumes "\<And>w. R w (fate_drawn w)" and "\<And>w. R w (fst (act w))" and "transp R"
  shows "keeps R (fated act)"
  unfolding keeps_def
proof
  fix w
  have "R w (fst (act (fate_drawn w)))" using assms by (blast dest: transpD)
  then show "R w (fst (fated act w))" using fated_world [of act w] assms(1) [of w] by auto
qed

abbreviation sent_as :: "sent_effect option \<Rightarrow> sent_effect list" where
  "sent_as sent \<equiv> (case sent of None \<Rightarrow> [] | Some s \<Rightarrow> [s])"

lemma sent_or_not:
  "fst (send_tool env n args payload sent w) = fate_drawn w
   \<or> (\<exists>x. fst (send_tool env n args payload sent w) = (fate_drawn w)\<lparr>fw_outside := x, fw_sent := fw_sent w @ sent_as sent\<rparr>)"
proof -
  let ?act = "\<lambda>w. case (case payload of None \<Rightarrow> dispatch (fe_registry env) (fe_limits env) runner_call n args (fw_outside w)
       | Some p \<Rightarrow> dispatch_prepared (fe_registry env) (fe_limits env) runner_call n args p (fw_outside w)) of (w', r) \<Rightarrow>
     (w\<lparr>fw_outside := w', fw_sent := fw_sent w @ sent_as sent\<rparr>, r)"
  have "\<exists>x. fst (?act w) = w\<lparr>fw_outside := x, fw_sent := fw_sent w @ sent_as sent\<rparr>" for w
    by (auto split: prod.split)
  from this [of "fate_drawn w"] fated_world [of ?act w] show ?thesis
    unfolding send_tool_def by fastforce
qed

lemma keeps_send:
  assumes "\<And>w. R w (fate_drawn w)"
    and "\<And>w x. R w ((fate_drawn w)\<lparr>fw_outside := x, fw_sent := fw_sent w @ sent_as sent\<rparr>)"
  shows "keeps R (send_tool env n args payload sent)"
  unfolding keeps_def
proof
  fix w
  show "R w (fst (send_tool env n args payload sent w))"
    using sent_or_not [of env n args payload sent w] assms by auto
qed

lemma keeps_writes: "(\<And>w. R w (f w)) \<Longrightarrow> keeps R (writes f)"
  by (simp add: keeps_def writes_def)

text \<open>What is not sensitive to the journal, the grants and dispatches is kept by a tool step.\<close>

locale tool_relation =
  fixes R :: "'w flow_world \<Rightarrow> 'w flow_world \<Rightarrow> bool"
  assumes tool_order: "reflp R" "transp R"
    and entry_step: "keeps R (on_entry a f)"
    and journal_step: "keeps R (on_run (\<lambda>run. run\<lparr>wr_journal := J run\<rparr>))"
    and checkpoint_step: "keeps R save_run"
    and grants_step: "keeps R (writes (\<lambda>w. w\<lparr>fw_grants := g\<rparr>) :: ('w, unit) flow)"
    and send_step: "keeps R (send_tool env n args payload sent)"
begin

lemmas tool_calls = tool_order entry_step journal_step checkpoint_step grants_step send_step keeps_reads [OF tool_order(1)]

lemma keeps_settle: "keeps R (settle_effect a n kind r)"
  unfolding settle_effect_def Let_def by (intro keeps_intros tool_calls)

lemma keeps_output: "keeps R (tool_output expose r)"
  unfolding tool_output_def by (intro keeps_intros tool_calls)

lemma keeps_perform: "keeps R (perform_effect env a n args payload kind key replay expose)"
  unfolding perform_effect_def by (intro keeps_intros tool_calls keeps_settle keeps_output)

lemma keeps_journal: "keeps R (journal_effect env k a n args t kind key)"
  unfolding journal_effect_def by (intro keeps_intros tool_calls)

lemma keeps_gated: "keeps R (gated_arguments env kind n args)"
  unfolding gated_arguments_def Let_def by (auto intro!: keeps_intros tool_calls split: option.split gate_decision.split)

lemma keeps_tool: "keeps R (execute_tool env s a n exprs expose context)"
  unfolding execute_tool_def Let_def
  by (intro keeps_intros tool_calls keeps_gated keeps_journal keeps_perform keeps_output)

end

text \<open>Tools leave the records alone.\<close>

abbreviation same_records :: "'w flow_world \<Rightarrow> 'w flow_world \<Rightarrow> bool" where
  "same_records w w' \<equiv> all_records (fw_run w') = all_records (fw_run w)"

lemma same_order: "reflp same_records" "transp same_records"
  by (auto simp: reflp_def transp_def)

interpretation same: tool_relation same_records
  by unfold_locales
    (unfold on_entry_def on_run_def save_run_def, auto intro!: keeps_writes keeps_send fated_keeps same_order)

lemma kept_record: "(\<And>r. sr_address (f r) = sr_address r) \<Longrightarrow> keeps (records_kept a) (on_record a f)"
  unfolding on_record_def on_run_def by (rule keeps_writes) (auto simp: records_kept_def record_updated)

lemma kept_same: "keeps same_records m \<Longrightarrow> keeps (records_kept a) m"
  by (auto simp: keeps_def records_kept_def record_for_address_def)

interpretation others: runner_relation "records_kept a" a dry for a :: string and dry :: bool
  by unfold_locales
    (simp_all add: kept_order kept_record kept_same same.checkpoint_step same.keeps_tool, simp add: records_kept_def)

end
