(* ===== verification/Workflow_Safety.thy ===== *)
theory Workflow_Safety
  imports Workflow_Effects
begin

text \<open>
  The bound on the dispatches of an effect: what the journal in memory and the one in the last checkpoint
  say about what was sent, and that every operation of the runner keeps it so.  \<open>n a\<close> counts how often a user
  has declared that the effect at \<open>a\<close> did not happen.
\<close>

section \<open>The journal and what was sent\<close>

text \<open>Dispatches that do not replay an effect which is known to have failed.\<close>

definition firsts :: "sent_effect list \<Rightarrow> string \<Rightarrow> nat" where
  "firsts sent a = length (filter (\<lambda>s. se_address s = a \<and> \<not> se_replay s) sent)"

definition undispatched :: "effect_entry \<Rightarrow> bool" where
  "undispatched e \<longleftrightarrow> ee_status e \<in> {EF_Prepared, EF_Would_Dispatch}"

definition entry_ok :: "(string \<Rightarrow> nat) \<Rightarrow> sent_effect list \<Rightarrow> workflow_run \<Rightarrow> effect_entry \<Rightarrow> bool" where
  "entry_ok n sent run e \<longleftrightarrow>
     firsts sent (ee_address e) \<le> n (ee_address e) + (if undispatched e then 0 else 1)
     \<and> (undispatched e \<and> n (ee_address e) = 0 \<longrightarrow> ee_address e \<notin> se_address ` set sent)
     \<and> (ee_status e = EF_Reconciled \<longrightarrow> map_option sr_status (record_for_address run (ee_address e)) = Some SS_Completed)"

definition covers :: "effect_entry \<Rightarrow> sent_effect \<Rightarrow> bool" where
  "covers e s \<longleftrightarrow> ee_address e = se_address s \<and> ee_tool e = se_tool s \<and> (se_replay s \<longrightarrow> ee_safe_replay e \<and> ee_key e = se_key s)"

definition journal_ok :: "(string \<Rightarrow> nat) \<Rightarrow> sent_effect list \<Rightarrow> workflow_run \<Rightarrow> bool" where
  "journal_ok n sent run \<longleftrightarrow> distinct (map ee_address (wr_journal run))
     \<and> (\<forall>e \<in> set (wr_journal run). entry_ok n sent run e)
     \<and> (\<forall>s \<in> set sent. \<exists>e \<in> set (wr_journal run). covers e s)"

definition disk_ok :: "(string \<Rightarrow> nat) \<Rightarrow> sent_effect list \<Rightarrow> workflow_run option \<Rightarrow> bool" where
  "disk_ok n sent disk \<longleftrightarrow> (case disk of None \<Rightarrow> sent = [] | Some d \<Rightarrow> journal_ok n sent d)"

definition effects_ok :: "(string \<Rightarrow> nat) \<Rightarrow> 'w flow_world \<Rightarrow> bool" where
  "effects_ok n w \<longleftrightarrow> journal_ok n (fw_sent w) (fw_run w)
     \<and> disk_ok n (fw_sent w) (fw_disk w)"

text \<open>A step that runs has no reconciled effect.\<close>

definition unreconciled :: "string \<Rightarrow> workflow_run \<Rightarrow> bool" where
  "unreconciled a run \<longleftrightarrow> (\<forall>e \<in> set (wr_journal run). ee_address e = a \<longrightarrow> ee_status e \<noteq> EF_Reconciled)"

definition executing_ok :: "(string \<Rightarrow> nat) \<Rightarrow> string \<Rightarrow> 'w flow_world \<Rightarrow> bool" where
  "executing_ok n a w \<longleftrightarrow> effects_ok n w \<and> unreconciled a (fw_run w)"

definition stays_ok :: "(string \<Rightarrow> nat) \<Rightarrow> string \<Rightarrow> 'w flow_world \<Rightarrow> 'w flow_world \<Rightarrow> bool" where
  "stays_ok n a w w' \<longleftrightarrow> (executing_ok n a w \<longrightarrow> executing_ok n a w')"

lemma stays_order: "reflp (stays_ok n a)" "transp (stays_ok n a)"
  by (auto simp: stays_ok_def reflp_def transp_def)

section \<open>Journals with one entry per address\<close>

lemma update_first_key:
  "distinct (map key xs) \<Longrightarrow> update_first (\<lambda>x. key x = a) f xs = map (\<lambda>x. if key x = a then f x else x) xs"
proof (induction xs)
  case (Cons x xs)
  have "key y \<noteq> key x" if "y \<in> set xs" for y using Cons.prems imageI [OF that, of key] by auto
  then have "key x = a \<Longrightarrow> map (\<lambda>x. if key x = a then f x else x) xs = xs" by (intro map_idI) auto
  with Cons show ?case by simp
qed simp

lemma update_entry_map:
  "distinct (map ee_address J) \<Longrightarrow> update_entry a f J = map (\<lambda>e. if ee_address e = a then f e else e) J"
  unfolding update_entry_def by (simp add: update_first_key rev_map [symmetric])

lemma entry_in: "distinct (map ee_address J) \<Longrightarrow> entry_at a J = Some e \<longleftrightarrow> e \<in> set J \<and> ee_address e = a"
  unfolding entry_at_def by (auto dest: find_row_Some simp: find_row_mem rev_map [symmetric])

lemma one_entry:
  "distinct (map ee_address J) \<Longrightarrow> e \<in> set J \<Longrightarrow> e' \<in> set J \<Longrightarrow> ee_address e = ee_address e' \<Longrightarrow> e = e'"
  by (metis find_row_mem option.inject)

lemma entry_none: "entry_at a J = None \<longleftrightarrow> a \<notin> ee_address ` set J"
  by (auto simp: entry_at_def find_row_None)

section \<open>Records\<close>

lemma entry_ok_records: "all_records run' = all_records run \<Longrightarrow> entry_ok n sent run' = entry_ok n sent run"
  by (simp add: entry_ok_def record_for_address_def fun_eq_iff)

lemma entry_ok_journal [simp]: "entry_ok n sent (run\<lparr>wr_journal := J\<rparr>) = entry_ok n sent run"
  by (rule entry_ok_records) simp

text \<open>Only the record of a reconciled effect matters.\<close>

lemma journal_ok_records:
  assumes "journal_ok n sent run" and "wr_journal run' = wr_journal run"
    and "\<And>e. e \<in> set (wr_journal run) \<Longrightarrow> ee_status e = EF_Reconciled \<Longrightarrow>
      map_option sr_status (record_for_address run (ee_address e)) = Some SS_Completed \<Longrightarrow>
      map_option sr_status (record_for_address run' (ee_address e)) = Some SS_Completed"
  shows "journal_ok n sent run'"
  using assms by (auto simp: journal_ok_def entry_ok_def)

lemma stays_record:
  assumes "\<And>r. sr_address (f r) = sr_address r"
  shows "keeps (stays_ok n a) (on_record a f)"
  unfolding on_record_def on_run_def
proof (rule keeps_writes, unfold stays_ok_def, rule impI)
  fix w :: "'w flow_world" assume "executing_ok n a w"
  then have w: "journal_ok n (fw_sent w) (fw_run w)" "unreconciled a (fw_run w)"
      "disk_ok n (fw_sent w) (fw_disk w)"
    by (auto simp: executing_ok_def effects_ok_def)
  have "journal_ok n (fw_sent w) (update_record a f (fw_run w))"
    by (rule journal_ok_records [OF w(1)]) (use w(2) in \<open>auto simp: unreconciled_def record_updated assms\<close>)
  with w show "executing_ok n a (w\<lparr>fw_run := update_record a f (fw_run w)\<rparr>)"
    by (simp add: executing_ok_def effects_ok_def unreconciled_def)
qed

section \<open>Checkpoints and entries\<close>

lemma stays_save: "keeps (stays_ok n a) save_run"
  unfolding save_run_def by (rule fated_keeps [OF _ _ stays_order(2)]) (auto simp: stays_ok_def executing_ok_def effects_ok_def disk_ok_def)

lemma stays_entry:
  assumes st: "st \<in> {EF_Dispatched, EF_Succeeded, EF_Failed, EF_In_Doubt}"
    and f: "\<And>e. ee_status (f e) = st" "\<And>e. ee_address (f e) = ee_address e" "\<And>e. ee_tool (f e) = ee_tool e"
      "\<And>e. ee_key (f e) = ee_key e" "\<And>e. ee_safe_replay (f e) = ee_safe_replay e"
  shows "keeps (stays_ok n a) (on_entry a f)"
  unfolding on_entry_def on_run_def
proof (rule keeps_writes, unfold stays_ok_def, rule impI)
  fix w :: "'w flow_world" assume w: "executing_ok n a w"
  define J J' where "J = wr_journal (fw_run w)" and "J' = update_entry a f J"
  define run where "run = (fw_run w)\<lparr>wr_journal := J'\<rparr>"
  have J': "J' = map (\<lambda>e. if ee_address e = a then f e else e) J"
    using w by (simp add: J'_def update_entry_map J_def executing_ok_def effects_ok_def journal_ok_def)
  have ok: "journal_ok n (fw_sent w) (fw_run w)" "unreconciled a (fw_run w)" using w by (simp_all add: executing_ok_def effects_ok_def)
  have cov: "covers (f e) s = covers e s" for e s by (simp add: covers_def f)
  have "map ee_address J' = map ee_address J" unfolding J' by (simp add: f)
  then have "distinct (map ee_address J')" using ok(1) by (simp add: journal_ok_def J_def)
  moreover have changed: "entry_ok n (fw_sent w) run (if ee_address e = a then f e else e)" if "e \<in> set J" for e
    using ok that st
    by (auto simp: journal_ok_def J_def entry_ok_def f undispatched_def unreconciled_def run_def record_for_address_def split: if_splits)
  moreover have "\<exists>e \<in> set J'. covers e s" if "s \<in> set (fw_sent w)" for s
  proof -
    from ok(1) that obtain e where "e \<in> set J" "covers e s" by (auto simp: journal_ok_def J_def)
    then have "(if ee_address e = a then f e else e) \<in> set J'" "covers (if ee_address e = a then f e else e) s"
      by (simp_all add: J' cov)
    then show ?thesis ..
  qed
  moreover from changed have "\<forall>e \<in> set J'. entry_ok n (fw_sent w) run e" unfolding J' set_map by blast
  ultimately have "journal_ok n (fw_sent w) run" by (simp add: journal_ok_def run_def)
  moreover have "ee_status e' \<noteq> EF_Reconciled" if e': "e' \<in> set J'" "ee_address e' = a" for e'
  proof -
    from e'(1) obtain e where "e' = (if ee_address e = a then f e else e)" unfolding J' set_map by blast
    with e'(2) st show ?thesis by (auto simp: f split: if_splits)
  qed
  then have "unreconciled a run" by (simp add: unreconciled_def run_def)
  ultimately show "executing_ok n a (w\<lparr>fw_run := (fw_run w)\<lparr>wr_journal := update_entry a f (wr_journal (fw_run w))\<rparr>\<rparr>)"
    using w by (simp add: executing_ok_def effects_ok_def run_def J'_def J_def)
qed

section \<open>Dispatches\<close>

text \<open>The entry of \<open>a\<close> is dispatched, and it may be sent: it has not been yet, or it may be replayed.\<close>

definition may_send :: "(string \<Rightarrow> nat) \<Rightarrow> sent_effect \<Rightarrow> 'w flow_world \<Rightarrow> bool" where
  "may_send n s w \<longleftrightarrow> (\<exists>e \<in> set (wr_journal (fw_run w)). ee_status e = EF_Dispatched \<and> covers e s)
     \<and> (\<not> se_replay s \<longrightarrow> firsts (fw_sent w) (se_address s) \<le> n (se_address s))"

lemma firsts_append [simp]:
  "firsts (sent @ [s]) a = firsts sent a + (if se_address s = a \<and> \<not> se_replay s then 1 else 0)"
  by (simp add: firsts_def)

lemma sent_journal_ok:
  assumes ok: "journal_ok n sent run" and e: "e \<in> set (wr_journal run)" "ee_status e = EF_Dispatched" "covers e s"
    and first: "\<not> se_replay s \<longrightarrow> firsts sent (se_address s) \<le> n (se_address s)"
  shows "journal_ok n (sent @ [s]) run"
proof -
  have "entry_ok n (sent @ [s]) run e'" if e': "e' \<in> set (wr_journal run)" for e'
  proof (cases "ee_address e' = se_address s")
    case True
    with ok e e' have "e' = e" by (intro one_entry [of "wr_journal run"]) (auto simp: journal_ok_def covers_def)
    with ok e e' first True show ?thesis by (auto simp: journal_ok_def entry_ok_def undispatched_def)
  next
    case False
    with ok e' show ?thesis by (auto simp: journal_ok_def entry_ok_def)
  qed
  with ok e show ?thesis by (auto simp: journal_ok_def)
qed

lemma sent_executing_ok:
  assumes "executing_ok n a w" and "fw_disk w = Some (fw_run w)" and "may_send n s w"
  shows "executing_ok n a ((fate_drawn w)\<lparr>fw_outside := x, fw_sent := fw_sent w @ [s]\<rparr>)"
  using assms by (auto simp: executing_ok_def effects_ok_def disk_ok_def may_send_def intro: sent_journal_ok)

lemma stays_send_none: "keeps (stays_ok n a) (send_tool env m args payload None)"
  by (rule keeps_send) (auto simp: stays_ok_def executing_ok_def effects_ok_def)

lemma stays_settle: "keeps (stays_ok n a) (settle_effect a m kind r)"
proof -
  have "settled_status kind r \<in> {EF_Dispatched, EF_Succeeded, EF_Failed, EF_In_Doubt}"
    by (simp add: settled_status_def Let_def)
  then have "keeps (stays_ok n a) (on_entry a (\<lambda>e. e\<lparr>ee_status := settled_status kind r, ee_summary := Some (take 1000 (tr_content r))\<rparr>))"
    by (rule stays_entry) simp_all
  then show ?thesis
    unfolding settle_effect_def Let_def by (intro keeps_intros stays_order stays_save keeps_reads [OF stays_order(1)])
qed

lemma stays_output: "keeps (stays_ok n a) (tool_output expose r)"
  unfolding tool_output_def by (intro keeps_intros stays_order keeps_reads [OF stays_order(1)])

text \<open>Once the checkpoint with the dispatched entry is written, the effect may be sent and settled.\<close>

lemma saved_is_run: "save_run w = (w', Inr ()) \<Longrightarrow> w' = (fate_drawn w)\<lparr>fw_disk := Some (fw_run w)\<rparr>"
  by (auto simp: save_run_def fated_def bind_def next_fate_world split: prod.splits list.splits fate.splits)

lemma send_after_save:
  assumes ok: "executing_ok n a w" and may: "may_send n s w" and a: "se_address s = a"
  shows "executing_ok n a (fst (bind save_run (\<lambda>_. bind (send_tool env m args payload (Some s)) (\<lambda>r.
    bind (settle_effect a m kind r) (\<lambda>_. tool_output expose r))) w))"
proof (cases "save_run w")
  case (Pair w1 x)
  have ok1: "executing_ok n a w1" using keeps_run [OF stays_save Pair] ok by (simp add: stays_ok_def)
  show ?thesis
  proof (cases x)
    case (Inl e)
    with ok1 Pair show ?thesis by (simp add: fst_bind)
  next
    case (Inr u)
    with Pair have w1: "w1 = (fate_drawn w)\<lparr>fw_disk := Some (fw_run w)\<rparr>" by (simp add: saved_is_run)
    with may have may1: "fw_disk w1 = Some (fw_run w1)" "may_send n s w1" by (simp_all add: may_send_def)
    let ?w2 = "fst (send_tool env m args payload (Some s) w1)"
    have ok2: "executing_ok n a ?w2"
      using sent_or_not [of env m args payload "Some s" w1] sent_executing_ok [OF ok1 may1] ok1
      by (auto simp: executing_ok_def effects_ok_def)
    have "keeps (stays_ok n a) (bind (settle_effect a m kind r) (\<lambda>_. tool_output expose r))" for r
      by (intro keeps_intros stays_order stays_settle stays_output)
    then have rest: "executing_ok n a (fst (bind (settle_effect a m kind r) (\<lambda>_. tool_output expose r) ?w2))" for r
      using ok2 by (auto simp: keeps_def stays_ok_def)
    show ?thesis
    proof (cases "send_tool env m args payload (Some s) w1")
      case (Pair w2 y)
      with ok2 rest show ?thesis
        unfolding fst_bind [of save_run] \<open>save_run w = (w1, x)\<close> Inr prod.case sum.case fst_bind [of "send_tool env m args payload (Some s)"]
        by (cases y) simp_all
    qed
  qed
qed

section \<open>The journal before a dispatch\<close>

lemma on_entry_twice:
  assumes "\<And>e. ee_address (f e) = ee_address e"
  shows "bind (on_entry a f) (\<lambda>_. bind (on_entry a g) h) = bind (on_entry a (\<lambda>e. g (f e))) h"
proof -
  have "update_first (\<lambda>e. ee_address e = a) g (update_first (\<lambda>e. ee_address e = a) f xs)
      = update_first (\<lambda>e. ee_address e = a) (\<lambda>e. g (f e)) xs" for xs :: "effect_entry list"
    by (induction xs) (auto simp: assms)
  then show ?thesis by (simp add: fun_eq_iff bind_def on_entry_def on_run_def writes_def update_entry_def)
qed

lemma on_entry_bind: "bind (on_entry a f) h w = h () (fst (on_entry a f w))"
  by (simp add: bind_def on_entry_def on_run_def writes_def)

lemma entry_dispatched:
  assumes ok: "executing_ok n a w" and e: "e \<in> set (wr_journal (fw_run w))" "ee_address e = a"
    and f: "\<And>e. ee_status (f e) = EF_Dispatched" "\<And>e. ee_address (f e) = ee_address e" "\<And>e. ee_tool (f e) = ee_tool e"
      "\<And>e. ee_key (f e) = ee_key e" "\<And>e. ee_safe_replay (f e) = ee_safe_replay e"
    and cov: "covers e s" and first: "\<not> se_replay s \<longrightarrow> firsts (fw_sent w) a \<le> n a"
  shows "on_entry a f w = (fst (on_entry a f w), Inr ())" "executing_ok n a (fst (on_entry a f w))"
    "may_send n s (fst (on_entry a f w))"
proof -
  show "on_entry a f w = (fst (on_entry a f w), Inr ())" by (simp add: on_entry_def on_run_def writes_def)
  show "executing_ok n a (fst (on_entry a f w))"
    using keepsD [OF stays_entry [of EF_Dispatched f n a], of w] ok f by (simp add: stays_ok_def)
  have "f e \<in> set (update_entry a f (wr_journal (fw_run w)))"
    using ok e by (force simp: update_entry_map executing_ok_def effects_ok_def journal_ok_def)
  moreover have "covers (f e) s" "se_address s = a" using cov e by (simp_all add: covers_def f)
  ultimately show "may_send n s (fst (on_entry a f w))"
    using f(1) first by (auto simp: may_send_def on_entry_def on_run_def writes_def)
qed

lemma dispatch_entry:
  assumes ok: "executing_ok n a w" and e: "e \<in> set (wr_journal (fw_run w))" "ee_address e = a"
    and f: "\<And>e. ee_status (f e) = EF_Dispatched" "\<And>e. ee_address (f e) = ee_address e" "\<And>e. ee_tool (f e) = ee_tool e"
      "\<And>e. ee_key (f e) = ee_key e" "\<And>e. ee_safe_replay (f e) = ee_safe_replay e"
    and cov: "covers e s" and first: "\<not> se_replay s \<longrightarrow> firsts (fw_sent w) a \<le> n a"
  shows "executing_ok n a (fst (bind (on_entry a f) (\<lambda>_. bind save_run (\<lambda>_. bind (send_tool env m args payload (Some s)) (\<lambda>r.
    bind (settle_effect a m kind r) (\<lambda>_. tool_output expose r)))) w))"
proof -
  note d = entry_dispatched [OF assms]
  have "se_address s = a" using cov e by (simp add: covers_def)
  from send_after_save [OF d(2,3) this] show ?thesis unfolding fst_bind [of "on_entry a f"] by (subst d(1)) simp
qed

lemma new_entry_ok:
  assumes ok: "executing_ok n a w" and none: "entry_at a (wr_journal (fw_run w)) = None"
    and e: "ee_address e = a" "undispatched e"
  shows "executing_ok n a (w\<lparr>fw_run := (fw_run w)\<lparr>wr_journal := wr_journal (fw_run w) @ [e]\<rparr>\<rparr>)"
    and "firsts (fw_sent w) a = 0"
proof -
  have a: "a \<notin> ee_address ` set (wr_journal (fw_run w))" using none by (simp add: entry_none)
  have sent: "\<forall>s \<in> set (fw_sent w). \<exists>e \<in> set (wr_journal (fw_run w)). covers e s"
    using ok by (simp add: executing_ok_def effects_ok_def journal_ok_def)
  have unsent: "a \<notin> se_address ` set (fw_sent w)"
  proof
    assume "a \<in> se_address ` set (fw_sent w)"
    then obtain s where "s \<in> set (fw_sent w)" "se_address s = a" by auto
    with sent obtain e where "e \<in> set (wr_journal (fw_run w))" "ee_address e = a" by (auto simp: covers_def)
    with a show False by auto
  qed
  then have "filter (\<lambda>s. se_address s = a \<and> \<not> se_replay s) (fw_sent w) = []" by (auto simp: filter_empty_conv)
  then show none_sent: "firsts (fw_sent w) a = 0" by (simp add: firsts_def)
  have "entry_ok n (fw_sent w) (fw_run w) e" using e none_sent unsent by (auto simp: entry_ok_def undispatched_def)
  with ok e a show "executing_ok n a (w\<lparr>fw_run := (fw_run w)\<lparr>wr_journal := wr_journal (fw_run w) @ [e]\<rparr>\<rparr>)"
    by (auto simp: executing_ok_def effects_ok_def journal_ok_def unreconciled_def undispatched_def)
qed

text \<open>The journal and the dispatch together.\<close>

abbreviation effect_sent :: "string \<Rightarrow> string \<Rightarrow> args \<Rightarrow> string option \<Rightarrow> bool \<Rightarrow> sent_effect" where
  "effect_sent a m args key replay \<equiv> \<lparr>se_address = a, se_tool = m, se_args = args, se_key = key, se_replay = replay\<rparr>"

lemma stays_effect:
  fixes env :: "'w flow_env"
  assumes "\<not> fe_dry_run env"
  shows "keeps (stays_ok n a) (bind (journal_effect env k a m permitted t kind key)
    (\<lambda>replay. perform_effect env a m args payload kind key replay expose))"
  unfolding keeps_def stays_ok_def
proof (intro allI impI)
  fix w :: "'w flow_world" assume ok: "executing_ok n a w"
  let ?send = "\<lambda>replay. bind save_run (\<lambda>_. bind (send_tool env m args payload (Some (effect_sent a m args key replay)))
    (\<lambda>r. bind (settle_effect a m kind r) (\<lambda>_. tool_output expose r)))"
  show "executing_ok n a (fst (bind (journal_effect env k a m permitted t kind key)
    (\<lambda>replay. perform_effect env a m args payload kind key replay expose) w))"
  proof (cases "entry_at a (wr_journal (fw_run w))")
    case None
    let ?e = "new_entry False k a m permitted t kind key"
    let ?w1 = "w\<lparr>fw_run := (fw_run w)\<lparr>wr_journal := wr_journal (fw_run w) @ [?e]\<rparr>\<rparr>"
    have e: "ee_address ?e = a" "undispatched ?e" by (simp_all add: new_entry_def undispatched_def)
    note w1 = new_entry_ok [OF ok None e]
    show ?thesis
    proof (cases "save_run ?w1")
      case (Pair w2 x)
      have ok2: "executing_ok n a w2" using keeps_run [OF stays_save Pair] w1(1) by (simp add: stays_ok_def)
      show ?thesis
      proof (cases x)
        case (Inl err)
        with ok2 Pair None assms show ?thesis
          by (simp add: journal_effect_def fst_bind bind_def reads_def on_run_def writes_def)
      next
        case (Inr u)
        with Pair have "save_run ?w1 = (w2, Inr ())" by simp
        note w2 = saved_is_run [OF this]
        have "executing_ok n a (fst (perform_effect env a m args payload kind key False expose w2))"
          unfolding perform_effect_def
          by (rule dispatch_entry [OF ok2, of ?e])
            (simp_all add: w2 new_entry_def covers_def w1(2))
        with Pair Inr None assms show ?thesis
          by (simp add: journal_effect_def fst_bind bind_def reads_def on_run_def writes_def ret_def)
      qed
    qed
  next
    case (Some e)
    have e: "e \<in> set (wr_journal (fw_run w))" "ee_address e = a"
      using Some ok by (auto simp: executing_ok_def effects_ok_def journal_ok_def entry_in)
    show ?thesis
    proof (cases "admit_effect False e m permitted key")
      case (Inl err)
      with Some ok assms show ?thesis by (simp add: journal_effect_def fst_bind bind_def reads_def lift_def)
    next
      case (Inr replay)
      then have tool: "ee_tool e = m" by (auto simp: admit_effect_def split: if_splits)
      show ?thesis
      proof (cases replay)
        case True
        with Inr have rep: "ee_safe_replay e" "ee_key e = key" "ee_status e = EF_Failed" by (auto simp: admit_effect_def split: if_splits effect_status.splits)
        have "executing_ok n a (fst (bind (on_entry a (\<lambda>e. e\<lparr>ee_summary := None, ee_status := EF_Dispatched\<rparr>)) (\<lambda>_. ?send True) w))"
          by (rule dispatch_entry [OF ok e]) (simp_all add: covers_def e tool rep)
        then have "executing_ok n a (fst (perform_effect env a m args payload kind key True expose
            (fst (on_entry a (\<lambda>e. e\<lparr>ee_status := EF_Prepared, ee_summary := None\<rparr>) w))))"
          using on_entry_twice [of "\<lambda>e. e\<lparr>ee_status := EF_Prepared, ee_summary := None\<rparr>" a "\<lambda>e. e\<lparr>ee_status := EF_Dispatched\<rparr>" "\<lambda>_. ?send True"]
          by (simp add: on_entry_bind perform_effect_def fun_eq_iff)
        moreover have "journal_effect env k a m permitted t kind key w
            = (fst (on_entry a (\<lambda>e. e\<lparr>ee_status := EF_Prepared, ee_summary := None\<rparr>) w), Inr True)"
          using Some Inr True assms rep(3)
          by (simp add: journal_effect_def bind_def reads_def lift_def ret_def on_entry_def on_run_def writes_def)
        ultimately show ?thesis by (simp add: fst_bind)
      next
        case False
        with Inr ok e have prep: "ee_status e = EF_Prepared"
          by (auto simp: admit_effect_def executing_ok_def unreconciled_def split: if_splits effect_status.splits)
        then have "firsts (fw_sent w) a \<le> n a"
          using ok e by (fastforce simp: executing_ok_def effects_ok_def journal_ok_def entry_ok_def undispatched_def)
        then have "executing_ok n a (fst (perform_effect env a m args payload kind key False expose w))"
          unfolding perform_effect_def by (intro dispatch_entry [OF ok e]) (simp_all add: covers_def e tool)
        then show ?thesis using Some Inr False assms prep
          by (simp add: journal_effect_def fst_bind bind_def reads_def lift_def ret_def)
      qed
    qed
  qed
qed

section \<open>A step as a whole\<close>

lemma stays_gated: "keeps (stays_ok n a) (gated_arguments env kind m args)"
proof -
  have "keeps (stays_ok n a) (writes (\<lambda>w. w\<lparr>fw_grants := g\<rparr>))" for g
    by (rule keeps_writes) (simp add: stays_ok_def executing_ok_def effects_ok_def)
  then show ?thesis
    unfolding gated_arguments_def Let_def
    by (auto intro!: keeps_intros stays_order keeps_reads [OF stays_order(1)] split: option.split gate_decision.split)
qed

lemma stays_tool:
  assumes "fe_dry_run env = False"
  shows "keeps (stays_ok n a) (execute_tool env s a m exprs expose context)"
  unfolding execute_tool_def Let_def assms if_False
  using assms by (intro keeps_intros stays_order stays_gated stays_effect stays_send_none stays_output keeps_reads [OF stays_order(1)])
    simp_all

interpretation effects: runner_relation "stays_ok n a" a False for n :: "string \<Rightarrow> nat" and a :: string
  by unfold_locales
    (simp_all add: stays_order stays_record stays_save stays_tool, simp add: stays_ok_def executing_ok_def effects_ok_def)

end
