(* ===== verification/Workflow_Addresses.thy ===== *)
theory Workflow_Addresses
  imports Workflow_Loops Workflow_Safety
begin

text \<open>
  Why the addresses of steps do not collide: JSON texts of item keys differ for different keys, names
  contain no slash, and an item is only added for a key that no item has.
\<close>

section \<open>JSON texts of scalars\<close>

definition digits_value :: "string \<Rightarrow> nat" where
  "digits_value s = foldl (\<lambda>v c. 10 * v + (of_char c - 48)) 0 s"

lemma digits_value_append: "digits_value (s @ [c]) = 10 * digits_value s + (of_char c - 48)"
  by (simp add: digits_value_def)

lemma digit_code: "d < 10 \<Longrightarrow> of_char (char_of (48 + d :: nat)) = 48 + d"
  by (simp add: of_char_of)

lemma show_nat_value: "digits_value (show_nat n) = n"
proof (induction n rule: show_nat.induct)
  case (1 n)
  show ?case
  proof (cases "n < 10")
    case True
    then show ?thesis by (simp add: show_nat.simps [of n] digits_value_def digit_code del: of_char_of)
  next
    case False
    with 1 show ?thesis by (simp add: show_nat.simps [of n] digits_value_append digit_code del: of_char_of)
  qed
qed

lemma show_nat_inj: "show_nat m = show_nat n \<Longrightarrow> m = n"
  using show_nat_value by metis

lemma show_nat_digits: "c \<in> set (show_nat n) \<Longrightarrow> 48 \<le> code c \<and> code c < 58"
proof (induction n rule: show_nat.induct)
  case (1 n)
  then show ?case
    by (subst (asm) (2) show_nat.simps) (auto simp: code_def digit_code simp del: of_char_of split: if_splits)
qed

lemma show_nat_nonempty [simp]: "show_nat n \<noteq> []"
  by (subst show_nat.simps) simp

lemma show_nat_no_minus: "show_nat n \<noteq> CHR ''-'' # s"
  using show_nat_digits [of "CHR ''-''" n] by (auto simp: code_def)

lemma show_int_inj: "show_int i = show_int j \<Longrightarrow> i = j"
  using show_nat_inj [of "nat i" "nat j"] show_nat_inj [of "nat (- i)" "nat (- j)"] show_nat_no_minus
  by (auto simp: show_int_def split: if_splits) metis+

lemma hex_digit_inj: "m < 16 \<Longrightarrow> n < 16 \<Longrightarrow> hex_digit m = hex_digit n \<Longrightarrow> m = n"
  using arg_cong [of "hex_digit m" "hex_digit n" "of_char :: char \<Rightarrow> nat"]
  by (simp add: hex_digit_def of_char_of split: if_splits)

lemma char_code_inj: "(of_char c :: nat) = of_char d \<Longrightarrow> c = d"
  by simp

lemma hex_code_inj:
  assumes "hex_digit (of_char c div 16) = hex_digit (of_char d div 16)" and "hex_digit (of_char c mod 16) = hex_digit (of_char d mod 16)"
  shows "c = d"
proof -
  have small: "of_char x div 16 < (16 :: nat)" for x :: char by (rule less_mult_imp_div_less) simp
  have "of_char c div 16 = (of_char d div 16 :: nat)" "of_char c mod 16 = (of_char d mod 16 :: nat)"
    using hex_digit_inj [OF small small assms(1)] hex_digit_inj [OF _ _ assms(2)] by simp_all
  then show ?thesis by (metis char_code_inj div_mult_mod_eq)
qed

lemma json_escape_inj: "json_escape c @ s = json_escape d @ t \<Longrightarrow> c = d \<and> s = t"
  by (auto simp: json_escape_def Let_def code_def split: if_splits dest: hex_code_inj intro: char_code_inj)

lemma escape_not_quote: "json_escape c @ s \<noteq> CHR 0x22 # t"
  by (auto simp: json_escape_def Let_def code_def split: if_splits)

lemma json_quote_inj:
  "concat (map json_escape xs) @ CHR 0x22 # s = concat (map json_escape ys) @ CHR 0x22 # t \<Longrightarrow> xs = ys \<and> s = t"
proof (induction xs arbitrary: ys)
  case Nil
  then show ?case using escape_not_quote by (cases ys) (auto dest: sym)
next
  case (Cons x xs)
  note eq = Cons.prems
  show ?case
  proof (cases ys)
    case Nil
    with eq escape_not_quote show ?thesis by auto
  next
    case (Cons y zs)
    with eq have "json_escape x @ concat (map json_escape xs) @ CHR 0x22 # s = json_escape y @ concat (map json_escape zs) @ CHR 0x22 # t"
      by simp
    from json_escape_inj [OF this] Cons.IH [of zs] Cons show ?thesis by simp
  qed
qed

lemma show_int_start: "\<exists>c s. show_int i = c # s \<and> c \<notin> {CHR ''t'', CHR ''f'', CHR 0x22}"
proof (cases "i < 0")
  case False
  obtain c s where c: "show_nat (nat i) = c # s" by (cases "show_nat (nat i)") auto
  with show_nat_digits [of c "nat i"] False show ?thesis by (auto simp: show_int_def code_def)
qed (simp add: show_int_def)

text \<open>The keys of items are scalars; different ones have different texts.\<close>

definition scalar_sort :: "string \<Rightarrow> nat" where
  "scalar_sort s = (case s of [] \<Rightarrow> 0 | c # _ \<Rightarrow> if c = CHR ''t'' then 1 else if c = CHR ''f'' then 2 else if c = CHR 0x22 then 3 else 0)"

lemma scalar_sorts:
  "scalar_sort (json_dumps (JBool b)) = (if b then 1 else 2)" "scalar_sort (json_dumps (JInt i)) = 0"
  "scalar_sort (json_dumps (JStr s)) = 3"
  using show_int_start [of i] by (auto simp: scalar_sort_def json_quote_def)

lemma scalar_kinds: "json_scalar k \<Longrightarrow> scalar_sort (json_dumps k)
    = (case k of JBool b \<Rightarrow> if b then 1 else 2 | JInt _ \<Rightarrow> 0 | JStr _ \<Rightarrow> 3 | _ \<Rightarrow> 4)"
  by (cases k) (simp_all only: scalar_sorts json.case json_scalar_def simp_thms)

lemma scalar_dumps_inj:
  assumes k: "json_scalar k" and k': "json_scalar k'" and eq: "json_dumps k = json_dumps k'"
  shows "k = k'"
proof -
  have kinds: "(case k of JBool b \<Rightarrow> if b then 1 else 2 | JInt _ \<Rightarrow> 0 | JStr _ \<Rightarrow> 3 | _ \<Rightarrow> 4)
      = (case k' of JBool b \<Rightarrow> if b then 1 else 2 | JInt _ \<Rightarrow> 0 | JStr _ \<Rightarrow> 3 | _ \<Rightarrow> (4 :: nat))"
    using scalar_kinds [OF k] scalar_kinds [OF k'] eq by simp
  show ?thesis
  proof (cases k)
    case (JInt i)
    with kinds k' obtain j where "k' = JInt j" by (cases k') (auto simp: json_scalar_def split: if_splits)
    with JInt eq show_int_inj [of i j] show ?thesis by simp
  next
    case (JStr s)
    with kinds k' obtain t where "k' = JStr t" by (cases k') (auto simp: json_scalar_def split: if_splits)
    with JStr eq json_quote_inj [of s "[]" t "[]"] show ?thesis by (simp add: json_quote_def)
  next
    case (JBool b)
    with kinds k' show ?thesis by (cases k') (auto simp: json_scalar_def split: if_splits)
  qed (use k in \<open>simp_all add: json_scalar_def\<close>)
qed

section \<open>Addresses\<close>

lemma split_first: "c \<notin> set xs \<Longrightarrow> c \<notin> set ys \<Longrightarrow> xs @ c # s = ys @ c # t \<Longrightarrow> xs = ys \<and> s = t"
proof (induction xs arbitrary: ys)
  case Nil
  then show ?case by (cases ys) auto
next
  case (Cons x xs)
  then show ?case by (cases ys) auto
qed

lemma split_last:
  assumes "c \<notin> set s" and "c \<notin> set t" and "xs @ c # s = ys @ c # t"
  shows "xs = ys \<and> s = t"
proof -
  from arg_cong [OF assms(3), of rev] have "rev s @ c # rev xs = rev t @ c # rev ys"
    by (simp only: rev_append rev.simps append_assoc append.simps)
  from split_first [OF _ _ this] assms(1,2) have "rev s = rev t \<and> rev xs = rev ys" by simp
  then show ?thesis by simp
qed

abbreviation no_slash :: "string \<Rightarrow> bool" where
  "no_slash s \<equiv> CHR ''/'' \<notin> set s"

lemma item_address_inj:
  assumes "item_prefix fid k @ c = item_prefix fid' k' @ c'" and "no_slash fid" "no_slash fid'" "no_slash c" "no_slash c'"
    and "json_scalar k" "json_scalar k'"
  shows "fid = fid' \<and> k = k' \<and> c = c'"
proof -
  from assms(1) have "fid @ CHR ''/'' # (json_dumps k @ CHR ''/'' # c) = fid' @ CHR ''/'' # (json_dumps k' @ CHR ''/'' # c')"
    by (simp add: item_prefix_def)
  from split_first [OF assms(2,3) this] have "fid = fid'" "json_dumps k @ CHR ''/'' # c = json_dumps k' @ CHR ''/'' # c'" by auto
  with split_last [OF assms(4,5)] scalar_dumps_inj [OF assms(6,7)] show ?thesis by blast
qed

text \<open>What the records of a run are called.\<close>

definition run_shape :: "workflow_run \<Rightarrow> (string \<times> string) list \<times> (string \<times> (json \<times> (string \<times> string) list) list) list" where
  "run_shape run = (map (\<lambda>(k, r). (k, sr_address r)) (wr_steps run),
     map (\<lambda>(k, items). (k, map (\<lambda>i. (ir_key i, map (\<lambda>(c, r). (c, sr_address r)) (ir_steps i))) items)) (wr_items run))"

text \<open>Steps outside loops have plain names; a step of an item has the address of its item.\<close>

definition item_named :: "string \<Rightarrow> item_run \<Rightarrow> bool" where
  "item_named fid it \<longleftrightarrow> json_scalar (ir_key it)
     \<and> (\<forall>(c, r) \<in> set (ir_steps it). no_slash c \<and> sr_address r = item_prefix fid (ir_key it) @ c)"

definition addresses_ok :: "workflow_run \<Rightarrow> bool" where
  "addresses_ok run \<longleftrightarrow> distinct (map fst (wr_items run)) \<and> (\<forall>(k, r) \<in> set (wr_steps run). no_slash (sr_address r))
     \<and> (\<forall>(fid, items) \<in> set (wr_items run). no_slash fid \<and> list_all (item_named fid) items)"

lemma addresses_by_shape:
  "addresses_ok run \<longleftrightarrow> distinct (map fst (snd (run_shape run))) \<and> (\<forall>(k, a) \<in> set (fst (run_shape run)). no_slash a)
     \<and> (\<forall>(fid, items) \<in> set (snd (run_shape run)). no_slash fid \<and> (\<forall>(key, cs) \<in> set items. json_scalar key
         \<and> (\<forall>(c, a) \<in> set cs. no_slash c \<and> a = item_prefix fid key @ c)))"
  by (simp add: addresses_ok_def item_named_def list_all_iff run_shape_def case_prod_beta comp_def)

lemma same_addresses: "run_shape run' = run_shape run \<Longrightarrow> addresses_ok run' = addresses_ok run"
  by (simp add: addresses_by_shape)

lemma map_update_first: "(\<And>x. g (h x) = g x) \<Longrightarrow> map g (update_first p h xs) = map g xs"
  by (induction xs) auto

lemma shape_record:
  assumes "\<And>r. sr_address (f r) = sr_address r"
  shows "run_shape (update_record a f run) = run_shape run"
proof -
  have recs: "map (\<lambda>(c, r). (c, sr_address r)) (update_records a f rs) = map (\<lambda>(c, r). (c, sr_address r)) rs" for rs
    unfolding update_records_def by (rule map_update_first) (auto simp: assms)
  have items: "map (\<lambda>i. (ir_key i, map (\<lambda>(c, r). (c, sr_address r)) (ir_steps i))) (update_first p (\<lambda>i. i\<lparr>ir_steps := update_records a f (ir_steps i)\<rparr>) its)
      = map (\<lambda>i. (ir_key i, map (\<lambda>(c, r). (c, sr_address r)) (ir_steps i))) its" for p its
    by (rule map_update_first) (simp add: recs)
  show ?thesis unfolding run_shape_def update_record_def
    by (auto simp: recs intro!: map_update_first simp: items)
qed

lemma shape_journal [simp]: "run_shape (run\<lparr>wr_journal := J\<rparr>) = run_shape run"
  by (simp add: run_shape_def)

section \<open>New items\<close>

text \<open>Planning only appends items with new keys.\<close>

lemma item_key_scalar: "item_key limits e context earlier i source = Inr key \<Longrightarrow> json_scalar key"
  by (auto simp: item_key_def andthen_Inr require_def split: if_splits)

definition fresh_item :: "string \<Rightarrow> step list \<Rightarrow> item_run list \<Rightarrow> item_run \<Rightarrow> bool" where
  "fresh_item fid body items it \<longleftrightarrow> (\<exists>key i source. it = new_item fid body key i source \<and> json_scalar key
     \<and> \<not> list_ex (\<lambda>it. py_eq (ir_key it) key) items)"

lemma fresh_item_later: "fresh_item fid body (items @ others) it \<Longrightarrow> fresh_item fid body items it"
  by (auto simp: fresh_item_def)

lemma plan_appends:
  "\<exists>news. fst (plan_items limits fid body e context items earlier i xs) = items @ news \<and> (\<forall>it \<in> set news. fresh_item fid body items it)"
proof (induction xs arbitrary: items earlier i)
  case Nil
  then show ?case by (intro exI [of _ "[]"]) simp
next
  case (Cons source rest)
  show ?case
  proof (cases "item_key limits e context earlier i source")
    case (Inl m)
    then show ?thesis by (intro exI [of _ "[]"]) simp
  next
    case (Inr key)
    obtain news where news: "fst (plan_items limits fid body e context (add_item fid body key i source items) (earlier @ [key]) (Suc i) rest)
        = add_item fid body key i source items @ news"
      "\<forall>it \<in> set news. fresh_item fid body (add_item fid body key i source items) it" using Cons by blast
    show ?thesis
    proof (cases "list_ex (\<lambda>it. py_eq (ir_key it) key) items")
      case True
      with Inr news show ?thesis by (auto simp: add_item_def)
    next
      case False
      with item_key_scalar [OF Inr] have "fresh_item fid body items (new_item fid body key i source)" by (auto simp: fresh_item_def)
      moreover from news(2) False have "\<forall>it \<in> set news. fresh_item fid body items it"
        by (auto simp: add_item_def intro: fresh_item_later)
      ultimately have "\<forall>it \<in> set (new_item fid body key i source # news). fresh_item fid body items it" by simp
      with Inr news(1) False show ?thesis by (auto simp: add_item_def)
    qed
  qed
qed

lemma fold_records:
  "(c, r) \<in> set (fold (\<lambda>s recs. AList.update (st_id s) (new_record (g (st_id s)) s) recs) body recs) \<Longrightarrow>
     (c, r) \<in> set recs \<or> (c \<in> st_id ` set body \<and> sr_address r = g c)"
proof (induction body arbitrary: recs)
  case (Cons s body)
  have "(c, r) \<in> set (AList.update k v recs) \<Longrightarrow> (c, r) \<in> set recs \<or> (c = k \<and> r = v)" for k v
    by (induction recs) (auto split: if_splits)
  with Cons show ?case by (force simp: new_record_def)
qed simp

lemma new_item_records:
  "(c, r) \<in> set (ir_steps (new_item fid body key i source)) \<Longrightarrow> c \<in> st_id ` set body \<and> sr_address r = item_prefix fid key @ c"
  using fold_records [of c r "\<lambda>k. item_prefix fid key @ k" body "[]"] by (simp add: new_item_def)

lemma update_records_of_items:
  assumes "items_of fid run = old"
  shows "\<exists>pre post. all_records run = pre @ post \<and> all_records (set_items fid (old @ news) run) = pre @ item_records news @ post"
proof -
  have "\<exists>pre post. concat (map (\<lambda>(_, items). item_records items) al) = pre @ post
      \<and> concat (map (\<lambda>(_, items). item_records items) (AList.update fid (old @ news) al)) = pre @ item_records news @ post"
    if "(case map_of al fid of None \<Rightarrow> [] | Some items \<Rightarrow> items) = old" for al
    using that
  proof (induction al)
    case Nil
    then show ?case by simp
  next
    case (Cons row al)
    show ?case
    proof (cases "fst row = fid")
      case True
      with Cons.prems show ?thesis
        by (intro exI [of _ "item_records old"] exI [of _ "concat (map (\<lambda>(_, items). item_records items) al)"]) (cases row, simp)
    next
      case False
      with Cons obtain pre post where "concat (map (\<lambda>(_, items). item_records items) al) = pre @ post"
        "concat (map (\<lambda>(_, items). item_records items) (AList.update fid (old @ news) al)) = pre @ item_records news @ post"
        by (cases row) auto
      with False show ?thesis
        by (intro exI [of _ "item_records (snd row) @ pre"] exI [of _ post]) (cases row, simp)
    qed
  qed
  from this [of "wr_items run"] assms obtain pre post where
    "concat (map (\<lambda>(_, items). item_records items) (wr_items run)) = pre @ post"
    "concat (map (\<lambda>(_, items). item_records items) (AList.update fid (old @ news) (wr_items run))) = pre @ item_records news @ post"
    by (auto simp: items_of_def)
  then show ?thesis
    by (intro exI [of _ "map snd (wr_steps run) @ pre"] exI [of _ post]) (simp add: all_records_def set_items_def)
qed

lemma py_eq_scalar: "json_scalar k \<Longrightarrow> py_eq k k"
  by (cases k) (simp_all add: json_scalar_def)

lemma item_address_slash: "\<not> no_slash (item_prefix fid key @ c)"
  by (simp add: item_prefix_def)

lemma address_top: "addresses_ok run \<Longrightarrow> r \<in> snd ` set (wr_steps run) \<Longrightarrow> no_slash (sr_address r)"
  unfolding addresses_ok_def by fastforce

lemma address_item:
  assumes "addresses_ok run" and "(fid, items) \<in> set (wr_items run)" and "it \<in> set items" and "(c, r) \<in> set (ir_steps it)"
  shows "no_slash fid" "json_scalar (ir_key it)" "no_slash c" "sr_address r = item_prefix fid (ir_key it) @ c"
  using assms unfolding addresses_ok_def item_named_def list_all_iff by blast+

lemma record_somewhere:
  "r \<in> set (all_records run) \<Longrightarrow> r \<in> snd ` set (wr_steps run)
    \<or> (\<exists>fid items it c. (fid, items) \<in> set (wr_items run) \<and> it \<in> set items \<and> (c, r) \<in> set (ir_steps it))"
  unfolding all_records_def by force

lemma fresh_addresses:
  assumes ok: "addresses_ok run" and names: "no_slash fid" "\<forall>s \<in> set body. no_slash (st_id s)"
    and it: "fresh_item fid body (items_of fid run) it" and r: "r \<in> set (map snd (ir_steps it))" and r': "r' \<in> set (all_records run)"
  shows "sr_address r \<noteq> sr_address r'"
proof
  assume eq: "sr_address r = sr_address r'"
  obtain key i source where new: "it = new_item fid body key i source" and key: "json_scalar key"
    and none: "\<not> list_ex (\<lambda>it. py_eq (ir_key it) key) (items_of fid run)" using it by (auto simp: fresh_item_def)
  from r obtain c where "(c, r) \<in> set (ir_steps it)" by auto
  from new_item_records [OF this [unfolded new]] names have c: "no_slash c" "sr_address r = item_prefix fid key @ c" by auto
  from record_somewhere [OF r'] show False
  proof
    assume "r' \<in> snd ` set (wr_steps run)"
    from address_top [OF ok this] eq c(2) show False by (metis item_address_slash)
  next
    assume "\<exists>fid' items it' c'. (fid', items) \<in> set (wr_items run) \<and> it' \<in> set items \<and> (c', r') \<in> set (ir_steps it')"
    then obtain fid' items it' c' where at: "(fid', items) \<in> set (wr_items run)" "it' \<in> set items" "(c', r') \<in> set (ir_steps it')" by blast
    note a = address_item [OF ok at]
    have "item_prefix fid key @ c = item_prefix fid' (ir_key it') @ c'" using eq c(2) a(4) by simp
    from item_address_inj [OF this names(1) a(1) c(1) a(3) key a(2)] have same: "fid' = fid" "ir_key it' = key" by auto
    have "map_of (wr_items run) fid' = Some items" using ok at(1) by (simp add: addresses_ok_def)
    with same at none py_eq_scalar [OF key] show False by (auto simp: items_of_def list_ex_iff)
  qed
qed

text \<open>Planning a loop leaves every record there is where it was.\<close>

lemma find_row_middle:
  "\<forall>r \<in> set mid. key r \<noteq> b \<Longrightarrow> find_row key b (pre @ mid @ post) = find_row key b (pre @ post)"
  using find_row_None [of key b mid] by (auto simp: find_row_append split: option.split)

lemma planned_records_kept:
  assumes ok: "addresses_ok run" and names: "no_slash fid" "\<forall>s \<in> set body. no_slash (st_id s)"
    and r: "record_for_address run b = Some r"
  shows "record_for_address (set_items fid (fst (plan_items limits fid body e context (items_of fid run) earlier i xs)) run) b = Some r"
proof -
  obtain news where news: "fst (plan_items limits fid body e context (items_of fid run) earlier i xs) = items_of fid run @ news"
    "\<forall>it \<in> set news. fresh_item fid body (items_of fid run) it" using plan_appends by blast
  obtain pre post where parts: "all_records run = pre @ post"
    "all_records (set_items fid (items_of fid run @ news) run) = pre @ item_records news @ post"
    using update_records_of_items [OF refl] by blast
  from r have "r \<in> set (all_records run)" "sr_address r = b" by (auto simp: record_for_address_def dest: find_row_Some)
  with news(2) fresh_addresses [OF ok names] have "\<forall>r' \<in> set (item_records news). sr_address r' \<noteq> b" by fastforce
  from find_row_middle [OF this] r show ?thesis unfolding news(1) record_for_address_def parts by simp
qed

lemma planned_addresses_ok:
  assumes ok: "addresses_ok run" and names: "no_slash fid" "\<forall>s \<in> set body. no_slash (st_id s)"
  shows "addresses_ok (set_items fid (fst (plan_items limits fid body e context (items_of fid run) earlier i xs)) run)"
proof -
  obtain news where news: "fst (plan_items limits fid body e context (items_of fid run) earlier i xs) = items_of fid run @ news"
    "\<forall>it \<in> set news. fresh_item fid body (items_of fid run) it" using plan_appends by blast
  have "list_all (item_named fid) news"
    using news(2) new_item_records names by (fastforce simp: fresh_item_def new_item_def item_named_def list_all_iff)
  moreover have "list_all (item_named fid) (items_of fid run)"
    using ok by (auto simp: items_of_def addresses_ok_def dest: map_of_SomeD split: option.split)
  ultimately have group: "list_all (item_named fid) (items_of fid run @ news)" by simp
  have rows: "row \<in> set (AList.update fid v al) \<Longrightarrow> row \<in> set al \<or> row = (fid, v)" for row v and al :: "(string \<times> item_run list) list"
    by (induction al) (auto split: if_splits)
  show ?thesis
    unfolding news(1) addresses_ok_def set_items_def
  proof (intro conjI)
    show "distinct (map fst (wr_items (run\<lparr>wr_items := AList.update fid (items_of fid run @ news) (wr_items run)\<rparr>)))"
      using ok by (simp add: distinct_update addresses_ok_def)
    show "\<forall>(k, r) \<in> set (wr_steps (run\<lparr>wr_items := AList.update fid (items_of fid run @ news) (wr_items run)\<rparr>)). no_slash (sr_address r)"
      using ok by (simp add: addresses_ok_def)
    show "\<forall>(k, items) \<in> set (wr_items (run\<lparr>wr_items := AList.update fid (items_of fid run @ news) (wr_items run)\<rparr>)).
        no_slash k \<and> list_all (item_named k) items"
      using ok names(1) group rows unfolding addresses_ok_def by fastforce
  qed
qed

end
