(* ===== verification/Workflow_Flow.thy ===== *)
theory Workflow_Flow
  imports Workflow_Addresses
begin

text \<open>
  A run over its whole life: scheduling, execution, loops, crashes between any two operations, resumption
  from the last checkpoint, reconciliation and abandonment, as a step relation on the world and the number
  of times each effect was declared not to have happened.  Every step keeps the bound on dispatches.
\<close>

section \<open>The life of a run\<close>

type_synonym 'w flow_state = "'w flow_world \<times> (string \<Rightarrow> nat)"

definition record_status :: "string \<Rightarrow> 'w flow_world \<Rightarrow> step_status option" where
  "record_status a w = map_option sr_status (record_for_address (fw_run w) a)"

text \<open>
  \<open>progress\<close> stands for the statuses of items and of the run, \<open>outside\<close> for all that happens elsewhere: the
  outside world, the session's grants, and what will become of the next checkpoints and dispatches.
\<close>

inductive flow_step :: "'w flow_env \<Rightarrow> 'w flow_state \<Rightarrow> 'w flow_state \<Rightarrow> bool" for env where
  scan: "flow_step env (w, n) (fst (scan_step p s w), n)"
| begins: "record_status a w = Some SS_Ready \<Longrightarrow> flow_step env (w, n) (fst (begin_record s a w), n)"
| finishes: "record_status a w = Some SS_Running \<Longrightarrow> flow_step env (w, n) (fst (finish_record env recs item s a k w), n)"
| cancel: "record_status a w = Some SS_Running \<Longrightarrow> flow_step env (w, n) (fst (step_failed s a k Flow_Cancelled w), n)"
| stop: "flow_step env (w, n) (fst (stop_step p s w), n)"
| impossible: "record_status a w = Some st \<Longrightarrow> \<not> is_terminal st \<Longrightarrow>
    flow_step env (w, n) (fst (on_record a (fail_record EC_Scheduler m) w), n)"
| interrupt: "record_status a w \<in> {Some SS_Ready, Some SS_Running} \<Longrightarrow> flow_step env (w, n) (fst (on_record a interrupt_record w), n)"
| plan: "is_name fid \<Longrightarrow> \<forall>s \<in> set body. is_name (st_id s) \<Longrightarrow>
    flow_step env (w, n) (fst (plan_foreach limits fid items key body m context w), n)"
| save: "flow_step env (w, n) (fst (save_run w), n)"
| progress: "all_records run = all_records (fw_run w) \<Longrightarrow> wr_journal run = wr_journal (fw_run w) \<Longrightarrow>
    run_shape run = run_shape (fw_run w) \<Longrightarrow> flow_step env (w, n) (w\<lparr>fw_run := run\<rparr>, n)"
| outside: "flow_step env (w, n) (w\<lparr>fw_outside := x, fw_grants := grants, fw_fates := fates\<rparr>, n)"
| resume: "fw_disk w = Some d \<Longrightarrow> resume_run fingerprint name scope d = Inr run \<Longrightarrow> flow_step env (w, n) (w\<lparr>fw_run := run\<rparr>, n)"
| reconcile: "fw_disk w = Some d \<Longrightarrow> reconcile_run a completed d = Inr run \<Longrightarrow>
    flow_step env (w, n) (w\<lparr>fw_run := run, fw_disk := Some run\<rparr>, if completed then n else n(a := Suc (n a)))"
| abandon: "fw_disk w = Some d \<Longrightarrow> abandon_run d = Inr run \<Longrightarrow> flow_step env (w, n) (w\<lparr>fw_run := run, fw_disk := Some run\<rparr>, n)"

definition flow_start :: "'w flow_state \<Rightarrow> bool" where
  "flow_start st \<longleftrightarrow> (case st of (w, n) \<Rightarrow>
     (\<exists>k g scope trigger. fw_run w = new_run k g scope trigger \<and> (\<forall>s \<in> set (wf_steps (cw_spec g)). is_name (st_id s)))
     \<and> fw_disk w = None \<and> fw_sent w = [] \<and> n = (\<lambda>_. 0))"

inductive flow_reached :: "'w flow_env \<Rightarrow> 'w flow_state \<Rightarrow> bool" for env where
  start: "flow_start st \<Longrightarrow> flow_reached env st"
| step: "flow_reached env st \<Longrightarrow> flow_step env st st' \<Longrightarrow> flow_reached env st'"

section \<open>What holds all the time\<close>

definition named_ok :: "'w flow_world \<Rightarrow> bool" where
  "named_ok w \<longleftrightarrow> addresses_ok (fw_run w) \<and> (\<forall>d. fw_disk w = Some d \<longrightarrow> addresses_ok d)"

definition stays_named :: "'w flow_world \<Rightarrow> 'w flow_world \<Rightarrow> bool" where
  "stays_named w w' \<longleftrightarrow> (named_ok w \<longrightarrow> named_ok w')"

lemma named_order: "reflp stays_named" "transp stays_named"
  by (auto simp: stays_named_def reflp_def transp_def)

lemma named_save: "keeps stays_named save_run"
  unfolding save_run_def by (rule fated_keeps [OF _ _ named_order(2)]) (auto simp: stays_named_def named_ok_def)

lemma named_record: "(\<And>r. sr_address (f r) = sr_address r) \<Longrightarrow> keeps stays_named (on_record a f)"
  unfolding on_record_def on_run_def
  by (rule keeps_writes) (auto simp: stays_named_def named_ok_def same_addresses [OF shape_record])

interpretation named: tool_relation stays_named
  by unfold_locales
    (unfold on_entry_def on_run_def, auto intro!: named_order named_save keeps_writes keeps_send simp: stays_named_def named_ok_def same_addresses [OF shape_journal])

interpretation names: runner_relation stays_named a dry for a :: string and dry :: bool
  by unfold_locales (simp_all add: named_order named_record named_save named.keeps_tool, simp add: stays_named_def named_ok_def)

section \<open>Scheduling\<close>

lemma examine_address:
  "examine s context deps = Some f \<Longrightarrow> sr_address (f r) = sr_address r"
  by (auto simp: examine_def Let_def block_record_def fail_record_def split: if_splits sum.splits)

text \<open>A record that is not completed has no reconciled effect.\<close>

lemma executing_unless_completed:
  assumes "effects_ok n w" and "record_status a w \<noteq> Some SS_Completed"
  shows "executing_ok n a w"
  using assms by (auto simp: executing_ok_def unreconciled_def effects_ok_def journal_ok_def entry_ok_def record_status_def)

lemma record_step_ok:
  assumes "effects_ok n w" and "record_status a w \<noteq> Some SS_Completed" and "keeps (stays_ok n a) m"
  shows "effects_ok n (fst (m w))"
  using executing_unless_completed [OF assms(1,2)] keepsD [OF assms(3), of w] by (simp add: stays_ok_def executing_ok_def)

lemma scan_keeps:
  assumes R: "reflp R" "transp R" "keeps R save_run" and f: "\<And>f. (\<And>r. sr_address (f r) = sr_address r) \<Longrightarrow> keeps R (on_record (step_address p (st_id s)) f)"
  shows "keeps R (scan_step p s)"
proof -
  have "keeps R (case examine s ctx deps of None \<Rightarrow> ret False
      | Some f \<Rightarrow> bind (on_record (step_address p (st_id s)) f) (\<lambda>_. bind save_run (\<lambda>_.
          ret (sr_status (f r) = SS_Failed \<and> st_on_error s = Fail_Workflow))))" for ctx deps r
    using R f by (auto split: option.split dest: examine_address intro!: keeps_intros)
  then show ?thesis unfolding scan_step_def by (intro keeps_seq keeps_if keeps_basic keeps_reads R)
qed

lemma scan_idle: "record_status (step_address p (st_id s)) w \<noteq> Some SS_Pending \<Longrightarrow> fst (scan_step p s w) = w"
  by (auto simp: scan_step_def record_status_def record_at_def fst_bind op_defs split: option.split)

lemma scan_ok: "effects_ok n w \<Longrightarrow> effects_ok n (fst (scan_step p s w))"
proof (cases "record_status (step_address p (st_id s)) w = Some SS_Pending")
  case True
  assume "effects_ok n w"
  then show ?thesis
    using True by (auto intro!: record_step_ok [where a = "step_address p (st_id s)"] scan_keeps stays_order stays_save stays_record)
qed (simp add: scan_idle)

lemma stop_keeps:
  assumes "reflp R" and "\<And>m. keeps R (on_record (step_address p (st_id s)) (block_record m))"
  shows "keeps R (stop_step p s)"
  using assms by (auto simp: stop_step_def keeps_def fst_bind op_defs reflp_def)

lemma block_address [simp]: "sr_address (block_record m r) = sr_address r"
  by (simp add: block_record_def)

lemma stop_ok: "effects_ok n w \<Longrightarrow> effects_ok n (fst (stop_step p s w))"
proof (cases "record_status (step_address p (st_id s)) w \<in> {Some SS_Pending, Some SS_Ready}")
  case True
  assume "effects_ok n w"
  then show ?thesis
    using True by (auto intro!: record_step_ok [where a = "step_address p (st_id s)"] stop_keeps stays_order stays_record)
qed (auto simp: stop_step_def fst_bind op_defs record_status_def status_at_def record_at_def)

section \<open>Loops\<close>

lemma name_no_slash: "is_name k \<Longrightarrow> no_slash k"
  by (auto simp: is_name_def ascii_digit_def list_all_iff less_eq_char_def split: list.splits)

definition flow_ok :: "(string \<Rightarrow> nat) \<Rightarrow> 'w flow_world \<Rightarrow> bool" where
  "flow_ok n w \<longleftrightarrow> effects_ok n w \<and> named_ok w"

definition stays_flow :: "(string \<Rightarrow> nat) \<Rightarrow> 'w flow_world \<Rightarrow> 'w flow_world \<Rightarrow> bool" where
  "stays_flow n w w' \<longleftrightarrow> (flow_ok n w \<longrightarrow> flow_ok n w')"

lemma flow_order: "reflp (stays_flow n)" "transp (stays_flow n)"
  by (auto simp: stays_flow_def reflp_def transp_def)

lemma flow_save: "keeps (stays_flow n) save_run"
  unfolding save_run_def
  by (rule fated_keeps [OF _ _ flow_order(2)]) (auto simp: stays_flow_def flow_ok_def effects_ok_def disk_ok_def named_ok_def)

lemma plan_keeps:
  assumes names: "no_slash fid" "\<forall>s \<in> set body. no_slash (st_id s)"
  shows "keeps (stays_flow n) (on_run (\<lambda>run. set_items fid (fst (plan_items limits fid body e context (items_of fid run) earlier i xs)) run))"
  unfolding on_run_def
proof (rule keeps_writes, unfold stays_flow_def, rule impI)
  fix w :: "'w flow_world" assume ok: "flow_ok n w"
  let ?run = "set_items fid (fst (plan_items limits fid body e context (items_of fid (fw_run w)) earlier i xs)) (fw_run w)"
  from ok have a: "addresses_ok (fw_run w)" and j: "journal_ok n (fw_sent w) (fw_run w)" by (simp_all add: flow_ok_def named_ok_def effects_ok_def)
  have "journal_ok n (fw_sent w) ?run"
  proof (rule journal_ok_records [OF j])
    show "wr_journal ?run = wr_journal (fw_run w)" by (simp add: set_items_def)
    fix e assume "map_option sr_status (record_for_address (fw_run w) (ee_address e)) = Some SS_Completed"
    then obtain r where "record_for_address (fw_run w) (ee_address e) = Some r" "sr_status r = SS_Completed" by auto
    with planned_records_kept [OF a names this(1)]
    show "map_option sr_status (record_for_address ?run (ee_address e)) = Some SS_Completed" by simp
  qed
  with ok planned_addresses_ok [OF a names] show "flow_ok n (w\<lparr>fw_run := ?run\<rparr>)"
    by (simp add: flow_ok_def effects_ok_def named_ok_def)
qed

lemma plan_ok:
  assumes "flow_ok n w" and "is_name fid" and "\<forall>s \<in> set body. is_name (st_id s)"
  shows "flow_ok n (fst (plan_foreach limits fid items key body m context w))"
proof -
  have "keeps (stays_flow n) (plan_foreach limits fid items key body m context)"
    unfolding plan_foreach_def Let_def using assms(2,3)
    by (intro keeps_intros flow_order flow_save keeps_reads plan_keeps) (auto simp: name_no_slash)
  from keepsD [OF this] assms(1) show ?thesis by (auto simp: stays_flow_def)
qed

section \<open>Resumption, reconciliation and abandonment\<close>

lemma find_row_map: "(\<And>r. key (f r) = key r) \<Longrightarrow> find_row key b (map f rows) = map_option f (find_row key b rows)"
  by (induction rows) auto

lemma reset_address [simp]: "sr_address (reset_record effects r) = sr_address r"
  by (simp add: reset_record_def)

lemma reset_records: "all_records (reset_run run) = map (reset_record (effect_addresses (wr_journal run))) (all_records run)"
  unfolding all_records_def reset_run_def Let_def
  by (auto simp: map_concat comp_def case_prod_beta reset_item_def Let_def intro!: arg_cong [of _ _ concat])

lemma reset_shape: "run_shape (reset_run run) = run_shape run"
  by (auto simp: run_shape_def reset_run_def Let_def reset_item_def comp_def case_prod_beta)

lemma reset_ok:
  assumes "journal_ok n sent run"
  shows "journal_ok n sent (reset_run run)"
proof (rule journal_ok_records [OF assms])
  show "wr_journal (reset_run run) = wr_journal run" by (simp add: reset_run_def Let_def)
  fix e assume "map_option sr_status (record_for_address run (ee_address e)) = Some SS_Completed"
  then obtain r where r: "record_for_address run (ee_address e) = Some r" "sr_status r = SS_Completed" by auto
  then have "reset_record effects r = r" for effects by (simp add: reset_record_def)
  with r show "map_option sr_status (record_for_address (reset_run run) (ee_address e)) = Some SS_Completed"
    by (simp add: record_for_address_def reset_records find_row_map)
qed

lemma doubt_status: "ee_status (doubt_entry e) = (if ee_status e = EF_Dispatched then EF_In_Doubt else ee_status e)"
  and doubt_fields [simp]: "ee_address (doubt_entry e) = ee_address e" "ee_tool (doubt_entry e) = ee_tool e"
    "ee_key (doubt_entry e) = ee_key e" "ee_safe_replay (doubt_entry e) = ee_safe_replay e"
  by (simp_all add: doubt_entry_def)

lemma doubt_journal_ok:
  assumes "journal_ok n sent run"
  shows "journal_ok n sent (run\<lparr>wr_journal := map doubt_entry (wr_journal run)\<rparr>)"
proof -
  have "entry_ok n sent run (doubt_entry e)" if "entry_ok n sent run e" for e
    using that by (auto simp: entry_ok_def undispatched_def doubt_status)
  moreover have "covers (doubt_entry e) s = covers e s" for e s by (simp add: covers_def)
  ultimately show ?thesis using assms by (auto simp: journal_ok_def comp_def)
qed

lemma doubt_records_ok:
  assumes "journal_ok n sent run"
    and "\<forall>a \<in> set as. \<forall>e \<in> set (wr_journal run). ee_address e = a \<longrightarrow> ee_status e \<noteq> EF_Reconciled"
  shows "journal_ok n sent (fold (\<lambda>a. update_record a (in_doubt_record m)) as run)"
  using assms
proof (induction as arbitrary: run)
  case (Cons a as)
  have addr: "sr_address (in_doubt_record m r) = sr_address r" for r by (simp add: in_doubt_record_def)
  have "journal_ok n sent (update_record a (in_doubt_record m) run)"
    by (rule journal_ok_records [OF Cons.prems(1)]) (use Cons.prems(2) in \<open>auto simp: record_updated addr\<close>)
  from Cons.IH [OF this] Cons.prems(2) show ?case by simp
qed simp

lemma doubt_shape: "run_shape (fold (\<lambda>a. update_record a (in_doubt_record m)) as run) = run_shape run"
  by (induction as arbitrary: run) (simp_all add: shape_record in_doubt_record_def)

lemma resume_ok:
  assumes ok: "journal_ok n sent d" "addresses_ok d" and run: "resume_run fingerprint name scope d = Inr run"
  shows "journal_ok n sent run" "addresses_ok run"
proof -
  define d' where "d' = d\<lparr>wr_journal := map doubt_entry (wr_journal d)\<rparr>"
  define as where "as = doubtful_addresses (wr_journal d)"
  have r: "run = reset_run (fold (\<lambda>a. update_record a (in_doubt_record ''effect dispatch has no known result'')) as d')"
    using run by (auto simp: resume_run_def doubt_dispatched_def andthen_Inr d'_def as_def)
  have "ee_status e' \<noteq> EF_Reconciled" if a: "a \<in> set as" and e': "e' \<in> set (wr_journal d')" "ee_address e' = a" for a e'
  proof -
    from a obtain e where e: "e \<in> set (wr_journal d)" "ee_status e = EF_Dispatched" "ee_address e = a"
      by (auto simp: as_def doubtful_addresses_def)
    from e' obtain e2 where e2: "e2 \<in> set (wr_journal d)" "e' = doubt_entry e2" by (auto simp: d'_def)
    have "ee_address e2 = ee_address e" using e(3) e'(2) e2(2) by simp
    moreover have "distinct (map ee_address (wr_journal d))" using ok(1) by (simp add: journal_ok_def)
    ultimately have "e2 = e" using e(1) e2(1) one_entry by blast
    with e(2) e2(2) show ?thesis by (simp add: doubt_status)
  qed
  then show "journal_ok n sent run"
    unfolding r by (intro reset_ok doubt_records_ok) (use doubt_journal_ok [OF ok(1)] in \<open>auto simp: d'_def\<close>)
  have "run_shape run = run_shape d" unfolding r by (simp add: reset_shape doubt_shape d'_def)
  from same_addresses [OF this] ok(2) show "addresses_ok run" by simp
qed

lemma update_first_one:
  assumes "distinct (map ee_address J)" and "list_ex (\<lambda>e. ee_address e = a \<and> P e) J"
  shows "update_first (\<lambda>e. ee_address e = a \<and> P e) f J = map (\<lambda>e. if ee_address e = a then f e else e) J"
  using assms
proof (induction J)
  case (Cons e J)
  have later: "ee_address x \<noteq> ee_address e" if "x \<in> set J" for x using Cons.prems(1) imageI [OF that, of ee_address] by auto
  show ?case
  proof (cases "ee_address e = a \<and> P e")
    case True
    with later have "map (\<lambda>e. if ee_address e = a then f e else e) J = J" by (intro map_idI) auto
    with True show ?thesis by simp
  next
    case False
    with Cons.prems have rest: "list_ex (\<lambda>e. ee_address e = a \<and> P e) J" by auto
    then obtain x where "x \<in> set J" "ee_address x = a" by (auto simp: list_ex_iff)
    with later [of x] have "ee_address e \<noteq> a" by simp
    with False rest Cons show ?thesis by simp
  qed
qed simp

lemma reconcile_ok:
  assumes ok: "journal_ok n sent d" "addresses_ok d" and run: "reconcile_run a completed d = Inr run"
  shows "journal_ok (if completed then n else n(a := Suc (n a))) sent run" "addresses_ok run"
proof -
  let ?n = "if completed then n else n(a := Suc (n a))"
  define J' where "J' = map (\<lambda>e. if ee_address e = a then reconciled_entry completed e else e) (wr_journal d)"
  from run have doubt: "list_ex (\<lambda>e. ee_address e = a \<and> ee_status e = EF_In_Doubt) (wr_journal d)"
    and rec: "record_for_address d a \<noteq> None"
    and r: "run = (update_record a (reconciled_record completed) d)\<lparr>wr_journal := J', wr_status := FS_Pending\<rparr>"
    using ok(1) update_first_one [of "wr_journal d" a "\<lambda>e. ee_status e = EF_In_Doubt"]
    by (auto simp: reconcile_run_def andthen_Inr require_def J'_def journal_ok_def split: if_splits)
  have addr: "sr_address (reconciled_record completed r) = sr_address r" for r by (simp add: reconciled_record_def)
  have shape: "run_shape run = run_shape d"
    unfolding r using shape_record [of "reconciled_record completed" a d, OF addr] by (simp add: run_shape_def)
  from same_addresses [OF this] ok(2) show "addresses_ok run" by simp
  have recs: "record_for_address run b = (if b = a then map_option (reconciled_record completed) (record_for_address d a) else record_for_address d b)" for b
  proof -
    have "all_records run = all_records (update_record a (reconciled_record completed) d)" unfolding r by (simp add: all_records_def)
    then have "record_for_address run b = record_for_address (update_record a (reconciled_record completed) d) b"
      by (simp add: record_for_address_def)
    then show ?thesis by (simp add: record_updated addr)
  qed
  have entry: "entry_ok ?n sent run (if ee_address e = a then reconciled_entry completed e else e)" if e: "e \<in> set (wr_journal d)" for e
  proof (cases "ee_address e = a")
    case True
    with ok(1) e have "firsts sent a \<le> Suc (n a)" by (auto simp: journal_ok_def entry_ok_def split: if_splits)
    with True rec show ?thesis
      by (auto simp: entry_ok_def reconciled_entry_def undispatched_def recs reconciled_record_def)
  next
    case False
    with ok(1) e show ?thesis by (auto simp: journal_ok_def entry_ok_def recs)
  qed
  have cov: "covers (reconciled_entry completed e) s = covers e s" for e s by (simp add: covers_def reconciled_entry_def)
  have "map ee_address J' = map ee_address (wr_journal d)" by (simp add: J'_def reconciled_entry_def)
  then have "distinct (map ee_address J')" using ok(1) by (simp add: journal_ok_def)
  moreover have "\<forall>e \<in> set J'. entry_ok ?n sent run e" unfolding J'_def set_map using entry by blast
  moreover have "\<exists>e \<in> set J'. covers e s" if s: "s \<in> set sent" for s
  proof -
    from ok(1) s obtain e where "e \<in> set (wr_journal d)" "covers e s" by (auto simp: journal_ok_def)
    then have "(if ee_address e = a then reconciled_entry completed e else e) \<in> set J'"
      "covers (if ee_address e = a then reconciled_entry completed e else e) s" by (simp_all add: J'_def cov)
    then show ?thesis ..
  qed
  ultimately show "journal_ok ?n sent run" by (simp add: journal_ok_def r)
qed

section \<open>Every step\<close>

lemma flow_run_changed:
  assumes "flow_ok n w" and "all_records run = all_records (fw_run w)" and "wr_journal run = wr_journal (fw_run w)"
    and "run_shape run = run_shape (fw_run w)"
  shows "flow_ok n (w\<lparr>fw_run := run\<rparr>)"
  using assms(1) same_addresses [OF assms(4)] journal_ok_records [of n "fw_sent w" "fw_run w" run] assms(2,3)
  by (auto simp: flow_ok_def effects_ok_def named_ok_def record_for_address_def)

lemma flow_record_step:
  assumes "flow_ok n w" and "record_status a w \<noteq> Some SS_Completed" and "keeps (stays_ok n a) m" and "keeps stays_named m"
  shows "flow_ok n (fst (m w))"
  using assms(1) record_step_ok [OF _ assms(2,3)] keepsD [OF assms(4), of w] by (simp add: flow_ok_def stays_named_def)

lemma named_ok_after: "keeps stays_named m \<Longrightarrow> named_ok w \<Longrightarrow> named_ok (fst (m w))"
  using keepsD [of stays_named m w] by (simp add: stays_named_def)

lemma named_scan: "named_ok w \<Longrightarrow> named_ok (fst (scan_step p s w))"
  by (rule named_ok_after [OF scan_keeps]) (simp_all add: named_order named_save named_record)

lemma named_stop: "named_ok w \<Longrightarrow> named_ok (fst (stop_step p s w))"
  by (rule named_ok_after [OF stop_keeps]) (simp_all add: named_order named_record)

lemma flow_step_ok:
  assumes "flow_step env st st'" and "\<not> fe_dry_run env" and "flow_ok (snd st) (fst st)"
  shows "flow_ok (snd st') (fst st')"
  using assms
proof (induction rule: flow_step.induct)
  case (scan w n p s)
  then show ?case by (simp add: flow_ok_def scan_ok named_scan)
next
  case (begins a w n s)
  then show ?case by (auto intro!: flow_record_step [where a = a] effects.keeps_begin names.keeps_begin)
next
  case (finishes a w n recs item s k)
  then show ?case
    by (auto intro!: flow_record_step [where a = a] effects.keeps_finish names.keeps_finish [where dry = False])
next
  case (cancel a w n s k)
  then show ?case by (auto intro!: flow_record_step [where a = a] effects.keeps_failed names.keeps_failed)
next
  case (stop w n p s)
  then show ?case by (simp add: flow_ok_def stop_ok named_stop)
next
  case (impossible a w st n m)
  then show ?case
    by (auto intro!: flow_record_step [where a = a] stays_record named_record
        simp: is_terminal_def terminal_step_statuses_def fail_record_def)
next
  case (interrupt a w n)
  then show ?case
    by (auto intro!: flow_record_step [where a = a] stays_record named_record simp: interrupt_record_def)
next
  case (plan fid body w n limits items key m ctx)
  then show ?case by (simp add: plan_ok)
next
  case (save w n)
  then show ?case using keepsD [OF flow_save, of n w] by (simp add: stays_flow_def)
next
  case (progress run w n)
  then show ?case by (simp add: flow_run_changed)
next
  case (outside w n x grants fates)
  then show ?case by (simp add: flow_ok_def effects_ok_def named_ok_def)
next
  case (resume w d fingerprint name scope run n)
  then show ?case using resume_ok [of n "fw_sent w" d] by (simp add: flow_ok_def effects_ok_def named_ok_def disk_ok_def)
next
  case (reconcile w d a completed run n)
  then show ?case using reconcile_ok [of n "fw_sent w" d a completed run]
    by (simp add: flow_ok_def effects_ok_def named_ok_def disk_ok_def)
next
  case (abandon w d run n)
  then have run: "run = d\<lparr>wr_status := FS_Abandoned\<rparr>" by (auto simp: abandon_run_def andthen_Inr)
  have same: "run_shape run = run_shape d" "all_records run = all_records d" "wr_journal run = wr_journal d"
    by (simp_all add: run run_shape_def all_records_def)
  then have "journal_ok n (fw_sent w) run" "addresses_ok run"
    using abandon same_addresses [OF same(1)] journal_ok_records [of n "fw_sent w" d run]
    by (auto simp: flow_ok_def effects_ok_def named_ok_def disk_ok_def record_for_address_def)
  with abandon show ?case by (simp add: flow_ok_def effects_ok_def named_ok_def disk_ok_def)
qed

lemma new_records: "(k, r) \<in> set (step_records_for steps) \<Longrightarrow> sr_address r \<in> st_id ` set steps"
  using fold_records [of k r "\<lambda>k. k" steps "[]"] by (auto simp: step_records_for_def)

lemma flow_start_ok: "flow_start st \<Longrightarrow> flow_ok (snd st) (fst st)"
  unfolding flow_start_def
proof (cases st, clarsimp)
  fix w :: "'a flow_world" and k scope trigger and g :: compiled_graph
  assume names: "\<forall>s \<in> set (wf_steps (cw_spec g)). is_name (st_id s)" and w: "fw_run w = new_run k g scope trigger"
    "fw_disk w = None" "fw_sent w = []"
  have "no_slash (sr_address r)" if "(k', r) \<in> set (step_records_for (wf_steps (cw_spec g)))" for k' r
    using new_records [OF that] names name_no_slash by auto
  then show "flow_ok (\<lambda>_. 0) w"
    using w by (auto simp: flow_ok_def effects_ok_def named_ok_def journal_ok_def disk_ok_def new_run_def addresses_ok_def)
qed

lemma flow_reached_ok: "flow_reached env st \<Longrightarrow> \<not> fe_dry_run env \<Longrightarrow> flow_ok (snd st) (fst st)"
  by (induction rule: flow_reached.induct) (auto simp: flow_start_ok flow_step_ok)

section \<open>Consequences\<close>

lemma journal_bound: "journal_ok n sent run \<Longrightarrow> firsts sent a \<le> Suc (n a)"
proof (cases "\<exists>s \<in> set sent. se_address s = a")
  case True
  assume "journal_ok n sent run"
  with True obtain e where "entry_ok n sent run e" "ee_address e = a" by (fastforce simp: journal_ok_def covers_def)
  then show ?thesis by (auto simp: entry_ok_def split: if_splits)
next
  case False
  then have "filter (\<lambda>s. se_address s = a \<and> \<not> se_replay s) sent = []" by (auto simp: filter_empty_conv)
  then show ?thesis by (simp add: firsts_def)
qed

lemma record_in_run: "map_option sr_status (record_for_address run a) = Some st \<Longrightarrow> \<exists>r \<in> set (all_records run). sr_status r = st"
  by (auto simp: record_for_address_def dest: find_row_Some)

lemma doubt_records_at:
  "record_for_address (fold (\<lambda>a. update_record a (in_doubt_record m)) as run) b
    = (if b \<in> set as then map_option (in_doubt_record m) (record_for_address run b) else record_for_address run b)"
proof (induction as arbitrary: run)
  case (Cons a as)
  have "sr_address (in_doubt_record m r) = sr_address r" "in_doubt_record m (in_doubt_record m r) = in_doubt_record m r" for r
    by (simp_all add: in_doubt_record_def)
  with Cons show ?case by (auto simp: record_updated option.map_comp comp_def)
qed simp

lemma resumed_in_doubt:
  assumes "resume_run fingerprint name scope d = Inr run" and "e \<in> set (wr_journal d)" and "ee_status e = EF_Dispatched"
  shows "map_option sr_status (record_for_address run (ee_address e)) = Some SS_In_Doubt"
proof -
  have a: "ee_address e \<in> set (doubtful_addresses (wr_journal d))" using assms(2,3) by (auto simp: doubtful_addresses_def)
  let ?d = "fold (\<lambda>a. update_record a (in_doubt_record ''effect dispatch has no known result'')) (doubtful_addresses (wr_journal d))
    (d\<lparr>wr_journal := map doubt_entry (wr_journal d)\<rparr>)"
  from assms(1) a have run: "run = reset_run ?d" and "record_for_address d (ee_address e) \<noteq> None"
    by (auto simp: resume_run_def doubt_dispatched_def andthen_Inr list_all_iff require_def split: if_splits)
  then obtain r where "record_for_address d (ee_address e) = Some r" by auto
  then have r: "record_for_address ?d (ee_address e) = Some (in_doubt_record ''effect dispatch has no known result'' r)"
    using a by (simp add: doubt_records_at) (simp add: record_for_address_def)
  have "reset_record effects (in_doubt_record m r) = in_doubt_record m r" for effects m by (simp add: reset_record_def in_doubt_record_def)
  with r show ?thesis unfolding run by (simp add: record_for_address_def reset_records find_row_map) (simp add: in_doubt_record_def)
qed

lemma resumed_journal:
  assumes "resume_run fingerprint name scope d = Inr run"
  shows "wr_journal run = map doubt_entry (wr_journal d)"
proof -
  have keep: "wr_journal (fold (\<lambda>a. update_record a f) as run) = wr_journal run" for f as run
    by (induction as arbitrary: run) simp_all
  from assms show ?thesis
    by (auto simp: resume_run_def doubt_dispatched_def andthen_Inr reset_run_def Let_def keep split: if_splits)
qed

section \<open>What a tool step sends\<close>

abbreviation same_sent :: "'w flow_world \<Rightarrow> 'w flow_world \<Rightarrow> bool" where
  "same_sent w w' \<equiv> fw_sent w' = fw_sent w"

lemma sent_order: "reflp same_sent" "transp same_sent"
  by (auto simp: reflp_def transp_def)

lemma sent_basic: "keeps same_sent (on_entry a f)" "keeps same_sent save_run" "keeps same_sent (on_run g)"
  "keeps same_sent (writes (\<lambda>w. w\<lparr>fw_grants := g'\<rparr>))" "keeps same_sent (send_tool env n args payload None)"
  by (auto simp: on_entry_def on_run_def save_run_def intro!: keeps_writes keeps_send fated_keeps sent_order)

lemmas sent_calls = sent_order sent_basic keeps_reads [OF sent_order(1)]

lemma sent_by_tool:
  "keeps same_sent (settle_effect a n kind r)" "keeps same_sent (tool_output expose r)"
  "keeps same_sent (journal_effect env k a n args t kind key)" "keeps same_sent (gated_arguments env kind n args)"
  unfolding settle_effect_def tool_output_def journal_effect_def gated_arguments_def Let_def
  by (auto intro!: keeps_intros sent_calls split: option.split gate_decision.split)

lemma gated_ok:
  assumes "gated_arguments env kind n args w = (w', Inr (canonical, payload))" and "\<not> (fe_dry_run env \<and> kind \<noteq> Effect_None)"
  shows "\<exists>out grants. decide_tool_permission (fe_registry env) (fe_gate env) (fw_grants w) (fw_outside w)
      \<lparr>tc_name = n, tc_args = args, tc_argument_error = None\<rparr> = Inr (out, grants)
    \<and> gt_decision out = Gate_Allow \<and> gt_args out = Some canonical"
proof (cases "decide_tool_permission (fe_registry env) (fe_gate env) (fw_grants w) (fw_outside w)
      \<lparr>tc_name = n, tc_args = args, tc_argument_error = None\<rparr>")
  case (Inl m)
  with assms show ?thesis by (simp add: gated_arguments_def checked_step_def step_error_def op_ok)
next
  case (Inr x)
  obtain out grants where x: "x = (out, grants)" by fastforce
  with Inr assms have "(case gt_decision out of
      Gate_Error e \<Rightarrow> raise (Step_Error (tr_content e))
    | Gate_Deny \<Rightarrow> raise (Permission_Error (''permission denied for '' @ n))
    | Gate_Allow \<Rightarrow> (case gt_args out of Some canonical \<Rightarrow> ret (canonical, gt_prepared out) | None \<Rightarrow> raise (Step_Error ''AssertionError'')))
      (w\<lparr>fw_grants := grants\<rparr>) = (w', Inr (canonical, payload))"
    by (simp add: gated_arguments_def checked_step_def step_error_def op_ok)
  then have "gt_decision out = Gate_Allow" "gt_args out = Some canonical"
    by (cases "gt_decision out"; cases "gt_args out"; simp add: op_ok)+
  with Inr x show ?thesis by blast
qed

lemma same_after: "keeps same_sent m \<Longrightarrow> m w = (w', r) \<Longrightarrow> fw_sent w' = fw_sent w"
  by (drule (1) keeps_run)

lemma perform_sends:
  "fw_sent (fst (perform_effect env a n args payload kind key replay expose w)) \<in> {fw_sent w, fw_sent w @ [effect_sent a n args key replay]}"
proof -
  let ?w0 = "fst (on_entry a (\<lambda>e. e\<lparr>ee_status := EF_Dispatched\<rparr>) w)"
  let ?send = "send_tool env n args payload (Some (effect_sent a n args key replay))"
  have w0: "fw_sent ?w0 = fw_sent w" using keepsD [OF sent_basic(1)] by blast
  have rest: "keeps same_sent (bind (settle_effect a n kind r) (\<lambda>_. tool_output expose r))" for r
    by (intro keeps_intros sent_order sent_by_tool)
  obtain w1 x where save: "save_run ?w0 = (w1, x)" by fastforce
  have w1: "fw_sent w1 = fw_sent w" using same_after [OF sent_basic(2) save] w0 by simp
  obtain w2 y where send: "?send w1 = (w2, y)" by fastforce
  have w2: "fw_sent w2 \<in> {fw_sent w, fw_sent w @ [effect_sent a n args key replay]}"
    using sent_or_not [of env n args payload "Some (effect_sent a n args key replay)" w1] send w1 by auto
  have "fw_sent (fst (bind (settle_effect a n kind r) (\<lambda>_. tool_output expose r) w2)) = fw_sent w2" for r
    using keepsD [OF rest] by blast
  with w1 w2 save send show ?thesis
    unfolding perform_effect_def on_entry_bind fst_bind [of save_run] save prod.case
    by (cases x; cases y) (simp_all add: fst_bind [of ?send])
qed

lemma tool_sends:
  assumes "execute_tool env s a m exprs expose context w = (w', r)" and "fw_sent w' \<noteq> fw_sent w"
  shows "\<exists>kvs out grants args key replay. resolve_mapping exprs context = Inr (JObj kvs)
    \<and> decide_tool_permission (fe_registry env) (fe_gate env) (fw_grants w) (fw_outside w)
        \<lparr>tc_name = m, tc_args = kvs, tc_argument_error = None\<rparr> = Inr (out, grants)
    \<and> gt_decision out = Gate_Allow \<and> gt_args out = Some args
    \<and> fw_sent w' = fw_sent w @ [effect_sent a m args key replay]"
proof -
  have w': "fw_sent (fst (execute_tool env s a m exprs expose context w)) \<noteq> fw_sent w" using assms by simp
  then obtain kvs t metadata where kvs: "resolve_mapping exprs context = Inr (JObj kvs)" and t: "fe_registry env m = Some t"
    and metadata: "inspect_tool_contract (rt_declared t) = Inr metadata"
    by (auto simp: execute_tool_def fst_bind checked_step_def step_error_def lift_def some_or_def split: sum.splits json.splits option.splits)
  let ?kind = "tm_effect_kind metadata"
  obtain w1 x where gated: "gated_arguments env ?kind m kvs w = (w1, x)" by fastforce
  have w1: "fw_sent w1 = fw_sent w" by (rule same_after [OF sent_by_tool(4) gated])
  from w' kvs t metadata gated w1 obtain canonical payload where x: "x = Inr (canonical, payload)"
    by (cases x) (auto simp: execute_tool_def fst_bind checked_step_def step_error_def lift_def some_or_def Let_def)
  let ?permitted = "permission_args (fe_registry env) m canonical"
  let ?key = "idempotency_key t canonical"
  obtain w2 y where journal: "journal_effect env (st_id s) a m ?permitted (rt_declared t) ?kind ?key w1 = (w2, y)" by fastforce
  have w2: "fw_sent w2 = fw_sent w" using same_after [OF sent_by_tool(3) journal] w1 by simp
  have none: "fw_sent (fst (bind (send_tool env m canonical payload None) (tool_output expose) w1)) = fw_sent w1"
    using keepsD [of same_sent "bind (send_tool env m canonical payload None) (tool_output expose)" w1]
    by (simp add: keeps_seq sent_order sent_basic sent_by_tool)
  from w' kvs t metadata gated x w1 w2 journal none obtain replay where effect: "?kind \<noteq> Effect_None" "\<not> fe_dry_run env"
    and perform: "fst (execute_tool env s a m exprs expose context w)
      = fst (perform_effect env a m canonical payload ?kind ?key replay expose w2)"
    by (cases y) (auto simp: execute_tool_def fst_bind checked_step_def step_error_def lift_def some_or_def Let_def unless_def ret_def
        raise_def split: if_splits)
  from gated_ok [OF gated [unfolded x]] effect obtain out grants where
    "decide_tool_permission (fe_registry env) (fe_gate env) (fw_grants w) (fw_outside w)
      \<lparr>tc_name = m, tc_args = kvs, tc_argument_error = None\<rparr> = Inr (out, grants)"
    "gt_decision out = Gate_Allow" "gt_args out = Some canonical" by blast
  with kvs assms(1) w' w2 perform perform_sends [of env a m canonical payload ?kind ?key replay expose w2]
  show ?thesis by auto
qed

end
