(* ===== verification/Workflow_Run_Properties.thy ===== *)
theory Workflow_Run_Properties
  imports Workflow_Flow Permission_Properties
begin

text \<open>What a run promises about the effects of its steps.\<close>

section \<open>A run of one step\<close>

definition send_step :: step where
  "send_step = Step ''send'' [] On_Success Fail_Workflow None \<lparr>rp_max_attempts = 1, rp_on = []\<rparr>
     (Tool_Step ''note'' [(''to'', Literal_Expr (JStr ''ann''))] False)"

definition send_spec :: workflow_spec where
  "send_spec = \<lparr>wf_name = ''notes'', wf_args = [], wf_schemas = [], wf_steps = [send_step], wf_max_parallel_steps = None\<rparr>"

definition send_graph :: compiled_graph where
  "send_graph = \<lparr>cw_spec = send_spec, cw_roots = [''send''], cw_order = [''send''], cw_body_roots = [], cw_fingerprint = ''f'',
     cw_tools = \<lparr>tf_result_schemas = [], tf_risks = [], tf_effect_kinds = []\<rparr>\<rparr>"

definition note_settings :: workflow_settings where
  "note_settings = \<lparr>ws_max_parallel_steps = 4, ws_max_parallel_items = 4, ws_max_schema_depth = 12,
     ws_max_foreach_items = 100, ws_model_attempts = 2, ws_agent_iterations = 8, ws_max_binding_chars = 1000,
     ws_max_result_chars = 1000\<rparr>"

definition note_env :: "unit flow_env" where
  "note_env = \<lparr>fe_registry = note_registry, fe_limits = \<lparr>dl_max_result_chars = 1000, dl_enabled = True,
       dl_offload_threshold = 1000, dl_excerpt_chars = 800, dl_head_chars = (\<lambda>n. 7 * n div 10)\<rparr>,
     fe_gate = asking_gate None, fe_dry_run = False, fe_settings = note_settings, fe_lax_int = (\<lambda>_. None),
     fe_lax_bool = (\<lambda>_. None), fe_approve = (\<lambda>_. \<lparr>an_approved = False, an_selected = []\<rparr>),
     fe_other = (\<lambda>_ _ w. (w, Inl (Step_Error ''other'')))\<rparr>"

definition note_start :: "unit flow_world" where
  "note_start = \<lparr>fw_run = new_run ''workflow_1'' send_graph \<lparr>primary = ''user'', profiles = [''user'']\<rparr> (JObj []), fw_disk = None, fw_outside = (), fw_grants = [],
     fw_sent = [], fw_fates = []\<rparr>"

definition note_ready :: "unit flow_world" where
  "note_ready = fst (scan_step (top_place [send_step]) send_step note_start)"

definition note_running :: "unit flow_world" where
  "note_running = fst (begin_record send_step ''send'' note_ready)"

definition note_done :: "unit flow_world" where
  "note_done = fst (finish_record note_env wr_steps (\<lambda>_. None) send_step ''send'' 0 note_running)"

lemma note_reached: "flow_reached note_env (note_done, \<lambda>_. 0)"
proof -
  have "is_name ''send''" by code_simp
  then have "\<forall>s \<in> set (wf_steps (cw_spec send_graph)). is_name (st_id s)" by (simp add: send_graph_def send_spec_def send_step_def)
  then have "flow_start (note_start, \<lambda>_. 0)" by (auto simp: flow_start_def note_start_def)
  then have "flow_reached note_env (note_start, \<lambda>_. 0)" by (rule flow_reached.start)
  then have "flow_reached note_env (note_ready, \<lambda>_. 0)" unfolding note_ready_def by (rule flow_reached.step) (rule flow_step.scan)
  moreover have "record_status ''send'' note_ready = Some SS_Ready" by code_simp
  ultimately have "flow_reached note_env (note_running, \<lambda>_. 0)"
    unfolding note_running_def by (blast intro: flow_reached.step flow_step.begins)
  moreover have "record_status ''send'' note_running = Some SS_Running" by code_simp
  ultimately show ?thesis unfolding note_done_def by (blast intro: flow_reached.step flow_step.finishes)
qed

lemma note_sent: "fw_sent note_done = [effect_sent ''send'' ''note'' [(''to'', JStr ''ann'')] None False]"
  by code_simp

text \<open>The same, but the process ends right after the dispatch.\<close>

definition note_crashed :: "unit flow_world" where
  "note_crashed = fst (finish_record note_env wr_steps (\<lambda>_. None) send_step ''send'' 0
     (note_running\<lparr>fw_fates := [Goes_On, Goes_On, Gets_Killed True]\<rparr>))"

definition note_left :: workflow_run where
  "note_left = (case fw_disk note_crashed of None \<Rightarrow> fw_run note_crashed | Some d \<Rightarrow> d)"

definition note_resumed :: "workflow_run checked" where
  "note_resumed = resume_run ''f'' ''notes'' \<lparr>primary = ''user'', profiles = [''user'']\<rparr> note_left"

lemma note_left_dispatched: "map ee_status (wr_journal note_left) = [EF_Dispatched]" "length (fw_sent note_crashed) = 1"
  by code_simp+

lemma note_resumes: "(case note_resumed of Inr _ \<Rightarrow> True | Inl _ \<Rightarrow> False)"
  by code_simp

section \<open>Dispatches\<close>

text \<open>
  C1: Over the whole life of a run, whatever fails, is cancelled or crashes and however often it is resumed, the
  effect of a step is dispatched at most once, and once more for each time a user declared that it had not
  happened (\<open>n\<close> counts these).  The only other dispatches are admitted while the journal holds the effect as
  failed (\<open>se_replay\<close>); they are of a tool that declared its replay safe and under the idempotency key of the
  journal.
\<close>
theorem effect_sent_at_most_once:
  assumes "flow_reached env (w, n)" and "\<not> fe_dry_run env"
  shows "length (filter (\<lambda>s. se_address s = a \<and> \<not> se_replay s) (fw_sent w)) \<le> Suc (n a)
    \<and> (\<forall>s \<in> set (fw_sent w). se_replay s \<longrightarrow> (\<exists>e \<in> set (wr_journal (fw_run w)).
         ee_address e = se_address s \<and> ee_tool e = se_tool s \<and> ee_safe_replay e \<and> ee_key e = se_key s))"
proof -
  have ok: "journal_ok n (fw_sent w) (fw_run w)"
    using flow_reached_ok [OF assms] by (simp add: flow_ok_def effects_ok_def)
  then have "firsts (fw_sent w) a \<le> Suc (n a)" by (rule journal_bound)
  moreover have "\<exists>e \<in> set (wr_journal (fw_run w)). ee_address e = se_address s \<and> ee_tool e = se_tool s \<and> ee_safe_replay e \<and> ee_key e = se_key s"
    if "s \<in> set (fw_sent w)" "se_replay s" for s using ok that by (fastforce simp: journal_ok_def covers_def)
  ultimately show ?thesis by (simp add: firsts_def)
qed

theorem effect_sent_at_most_once_witness:
  "length (filter (\<lambda>s. se_address s = ''send'' \<and> \<not> se_replay s) (fw_sent note_done)) = 1 \<and> (1 :: nat) \<le> Suc 0"
  using effect_sent_at_most_once [OF note_reached, of "''send''"] by (simp add: note_sent note_env_def)

text \<open>
  C6: An effect is written down before it is dispatched: at any moment, the last checkpoint on disk names every
  effect that was sent, with its tool.  Unless a user has declared that the effect at its address had not
  happened, the checkpoint does not take it for one that is still to be sent.
\<close>
theorem sent_effect_is_on_disk:
  assumes "flow_reached env (w, n)" and "\<not> fe_dry_run env" and "s \<in> set (fw_sent w)"
  shows "\<exists>d e. fw_disk w = Some d \<and> e \<in> set (wr_journal d) \<and> ee_address e = se_address s \<and> ee_tool e = se_tool s
    \<and> (n (se_address s) = 0 \<longrightarrow> ee_status e \<notin> {EF_Prepared, EF_Would_Dispatch})"
proof -
  have "disk_ok n (fw_sent w) (fw_disk w)" using flow_reached_ok [OF assms(1,2)] by (simp add: flow_ok_def effects_ok_def)
  with assms(3) obtain d where d: "fw_disk w = Some d" "journal_ok n (fw_sent w) d" by (auto simp: disk_ok_def split: option.splits)
  with assms(3) obtain e where e: "e \<in> set (wr_journal d)" "covers e s" "entry_ok n (fw_sent w) d e" by (auto simp: journal_ok_def)
  have "\<not> undispatched e" if "n (se_address s) = 0"
    using assms(3) e(2,3) that by (auto simp: entry_ok_def covers_def)
  with d(1) e(1,2) show ?thesis by (auto simp: covers_def undispatched_def)
qed

theorem sent_effect_is_on_disk_witness:
  "\<exists>d e. fw_disk note_done = Some d \<and> e \<in> set (wr_journal d) \<and> ee_address e = ''send'' \<and> ee_status e \<noteq> EF_Prepared"
  using sent_effect_is_on_disk [OF note_reached, of "effect_sent ''send'' ''note'' [(''to'', JStr ''ann'')] None False"]
  by (auto simp: note_sent note_env_def)

text \<open>
  C40: Resuming a run turns every effect that was dispatched and has no known result into one that is in doubt, and
  changes nothing else in its journal entry: its step is in doubt as well, the run will not schedule
  anything, and no entry stays dispatched.
\<close>
theorem resumed_dispatch_is_in_doubt:
  assumes "resume_run fingerprint name scope d = Inr run" and "e \<in> set (wr_journal d)" and "ee_status e = EF_Dispatched"
  shows "e\<lparr>ee_status := EF_In_Doubt\<rparr> \<in> set (wr_journal run)
    \<and> map_option sr_status (record_for_address run (ee_address e)) = Some SS_In_Doubt \<and> stopped_in_doubt run
    \<and> (\<forall>e' \<in> set (wr_journal run). ee_status e' \<noteq> EF_Dispatched)"
proof -
  note journal = resumed_journal [OF assms(1)]
  have "doubt_entry e = e\<lparr>ee_status := EF_In_Doubt\<rparr>" using assms(3) by (simp add: doubt_entry_def)
  then have "e\<lparr>ee_status := EF_In_Doubt\<rparr> \<in> set (wr_journal run)" using assms(2) by (force simp: journal)
  moreover have "\<forall>e' \<in> set (wr_journal run). ee_status e' \<noteq> EF_Dispatched" by (auto simp: journal doubt_entry_def)
  moreover have "stopped_in_doubt run"
    using record_in_run [OF resumed_in_doubt [OF assms]] by (auto simp: stopped_in_doubt_def list_ex_iff)
  ultimately show ?thesis using resumed_in_doubt [OF assms] by blast
qed

theorem resumed_dispatch_is_in_doubt_witness:
  "\<exists>run. note_resumed = Inr run \<and> stopped_in_doubt run \<and> (\<exists>e \<in> set (wr_journal run). ee_status e = EF_In_Doubt)"
proof -
  obtain e where e: "e \<in> set (wr_journal note_left)" "ee_status e = EF_Dispatched"
    using note_left_dispatched(1) by (cases "wr_journal note_left") auto
  obtain run where run: "note_resumed = Inr run" using note_resumes by (auto split: sum.splits)
  from resumed_dispatch_is_in_doubt [OF run [unfolded note_resumed_def] e]
  have "e\<lparr>ee_status := EF_In_Doubt\<rparr> \<in> set (wr_journal run)" "stopped_in_doubt run" by blast+
  with run show ?thesis by (intro exI [of _ run]) (auto intro: bexI [of _ "e\<lparr>ee_status := EF_In_Doubt\<rparr>"])
qed

text \<open>
  C39: A tool step sends an effect only with a permission: the gate decided on exactly the arguments that the
  step's expressions resolve to and allowed the call, and what is sent is the tool with the arguments
  the gate returned.  One execution of the step sends at most one effect.
\<close>
theorem sent_effect_was_permitted:
  assumes "execute_tool env s a m exprs expose context w = (w', r)" and "fw_sent w' \<noteq> fw_sent w"
  shows "\<exists>kvs out grants args key replay. resolve_mapping exprs context = Inr (JObj kvs)
    \<and> decide_tool_permission (fe_registry env) (fe_gate env) (fw_grants w) (fw_outside w)
        \<lparr>tc_name = m, tc_args = kvs, tc_argument_error = None\<rparr> = Inr (out, grants)
    \<and> gt_decision out = Gate_Allow \<and> gt_args out = Some args
    \<and> fw_sent w' = fw_sent w @ [effect_sent a m args key replay]"
  using tool_sends [OF assms] by blast

lemma note_call_sends:
  "fw_sent (fst (execute_tool note_env send_step ''send'' ''note'' [(''to'', Literal_Expr (JStr ''ann''))] False (JObj []) note_start)) \<noteq> []"
  by code_simp

theorem sent_effect_was_permitted_witness:
  "\<exists>kvs out grants. decide_tool_permission note_registry (asking_gate None) [] ()
     \<lparr>tc_name = ''note'', tc_args = kvs, tc_argument_error = None\<rparr> = Inr (out, grants) \<and> gt_decision out = Gate_Allow"
proof -
  let ?x = "execute_tool note_env send_step ''send'' ''note'' [(''to'', Literal_Expr (JStr ''ann''))] False (JObj []) note_start"
  have "fw_sent (fst ?x) \<noteq> fw_sent note_start" using note_call_sends by (simp add: note_start_def)
  from sent_effect_was_permitted [OF prod.collapse [symmetric] this] show ?thesis
    by (auto simp: note_env_def note_start_def)
qed

end
