(* ===== verification/Workflow_Schedule_Spec.thy ===== *)
theory Workflow_Schedule_Spec
  imports Workflow_Flow
begin

text \<open>
  What the parts of the scheduler do to the statuses of a graph: a scan decides pending steps, a launch starts
  ready ones, a task settles its own step.  From this follow the invariant of the loop, its progress and a bound
  on its length.
\<close>

section \<open>Records at a place\<close>

lemma step_address_inj [simp]: "step_address p k = step_address p k' \<longleftrightarrow> k = k'"
  by (simp add: step_address_def)

lemma status_record: "status_at p run k = map_option sr_status (record_at p run k)"
  by (simp add: status_at_def)

lemma record_at_updated:
  assumes "\<And>r. sr_address (f r) = sr_address r"
  shows "record_at p (update_record (step_address p k) f run) k' = (if k' = k then map_option f (record_at p run k) else record_at p run k')"
  unfolding record_at_def by (simp add: record_updated assms)

text \<open>Checkpoints do not touch the run in memory.\<close>

lemma saved_run [simp]: "fw_run (fst (save_run w)) = fw_run w"
  using fated_world [of "\<lambda>w. (w\<lparr>fw_disk := Some (fw_run w)\<rparr>, ())" w] by (auto simp: save_run_def)

lemma save_fst: "save_run w = (w', r) \<Longrightarrow> fw_run w' = fw_run w"
  using saved_run [of w] by simp

lemma on_record_run: "on_record a f w = (w\<lparr>fw_run := update_record a f (fw_run w)\<rparr>, Inr ())"
  by (simp add: on_record_def on_run_def writes_def)

text \<open>An operation on the step \<open>k\<close>: the records of the others stay.\<close>

definition only_step :: "graph_place \<Rightarrow> string \<Rightarrow> 'w flow_world \<Rightarrow> 'w flow_world \<Rightarrow> bool" where
  "only_step p k w w' \<longleftrightarrow> (\<forall>k'. (k' \<noteq> k \<longrightarrow> record_at p (fw_run w') k' = record_at p (fw_run w) k')
     \<and> (record_at p (fw_run w') k' = None \<longleftrightarrow> record_at p (fw_run w) k' = None))"

lemma only_kept: "records_kept (step_address p k) w w' \<Longrightarrow> only_step p k w w'"
  by (simp add: records_kept_def only_step_def record_at_def)

lemma only_status: "only_step p k w w' \<Longrightarrow> k' \<noteq> k \<Longrightarrow> status_at p (fw_run w') k' = status_at p (fw_run w) k'"
  by (simp add: only_step_def status_record)

section \<open>Decisions of the scan\<close>

definition decided :: "step_status set" where
  "decided = {SS_Blocked, SS_Failed, SS_Skipped, SS_Ready}"

lemma examine_status: "examine s ctx deps = Some f \<Longrightarrow> sr_status (f r) \<in> decided"
  by (auto simp: examine_def Let_def block_record_def fail_record_def decided_def split: if_splits sum.splits)

lemma examine_ready:
  "examine s ctx deps = Some f \<Longrightarrow> sr_status (f r) = SS_Ready \<Longrightarrow>
     sr_condition (f r) = Some True \<and> (\<forall>d \<in> set deps. is_terminal (sr_status d) \<and> (st_policy s = On_Success \<longrightarrow> is_success (sr_status d)))"
  by (auto simp: examine_def Let_def block_record_def fail_record_def filter_empty_conv list_all_iff split: if_splits sum.splits)

lemma examine_decides: "examine s ctx deps = None \<longleftrightarrow> \<not> list_all (\<lambda>d. is_terminal (sr_status d)) deps"
  by (auto simp: examine_def Let_def split: sum.split)

lemma those_members:
  "those (map f ks) = Some ds \<Longrightarrow> d \<in> set ds \<Longrightarrow> \<exists>k \<in> set ks. f k = Some d"
  "those (map f ks) = Some ds \<Longrightarrow> k \<in> set ks \<Longrightarrow> \<exists>d \<in> set ds. f k = Some d"
proof (induction ks arbitrary: ds)
  case (Cons k' ks)
  {
    case 1
    with Cons.IH(1) show ?case by (auto split: option.splits)
  next
    case 2
    with Cons.IH(2) show ?case by (auto split: option.splits)
  }
qed simp_all

text \<open>What a scan of one step does.\<close>

definition unchanged :: "graph_place \<Rightarrow> 'w flow_world \<Rightarrow> 'w flow_world \<Rightarrow> bool" where
  "unchanged p w w' \<longleftrightarrow> (\<forall>k. record_at p (fw_run w') k = record_at p (fw_run w) k)"

definition decision :: "graph_place \<Rightarrow> step \<Rightarrow> 'w flow_world \<Rightarrow> 'w flow_world \<Rightarrow> bool" where
  "decision p s w w' \<longleftrightarrow> only_step p (st_id s) w w' \<and> status_at p (fw_run w) (st_id s) = Some SS_Pending
     \<and> (\<exists>r' deps. record_at p (fw_run w') (st_id s) = Some r' \<and> sr_status r' \<in> decided
        \<and> those (map (record_at p (fw_run w)) (st_needs s)) = Some deps
        \<and> (sr_status r' = SS_Ready \<longrightarrow> sr_condition r' = Some True
           \<and> (\<forall>d \<in> set deps. is_terminal (sr_status d) \<and> (st_policy s = On_Success \<longrightarrow> is_success (sr_status d)))))"

lemma scan_step_cases:
  assumes "scan_step p s w = (w', x)"
  shows "unchanged p w w' \<and> (x = Inr b \<longrightarrow> status_at p (fw_run w) (st_id s) = Some SS_Pending
      \<longrightarrow> (\<exists>k \<in> set (st_needs s). \<exists>st. status_at p (fw_run w) k = Some st \<and> \<not> is_terminal st))
    \<or> decision p s w w'"
proof (cases "record_at p (fw_run w) (st_id s)")
  case None
  with assms show ?thesis by (auto simp: scan_step_def op_defs unchanged_def)
next
  case (Some r)
  show ?thesis
  proof (cases "sr_status r = SS_Pending")
    case False
    with Some assms show ?thesis by (auto simp: scan_step_def op_defs unchanged_def status_record)
  next
    case pending: True
    show ?thesis
    proof (cases "those (map (record_at p (fw_run w)) (st_needs s))")
      case None
      with Some pending assms show ?thesis by (auto simp: scan_step_def op_defs unchanged_def)
    next
      case deps: (Some deps)
      show ?thesis
      proof (cases "examine s (place_context p (fw_run w)) deps")
        case None
        with Some pending deps assms have "w' = w" by (simp add: scan_step_def op_defs)
        moreover from None obtain d where "d \<in> set deps" "\<not> is_terminal (sr_status d)" by (auto simp: examine_decides list_all_iff)
        ultimately show ?thesis
          using those_members(1) [OF deps, of d] by (auto simp: unchanged_def status_record)
      next
        case f: (Some f)
        from Some pending deps f assms have "fw_run w' = update_record (step_address p (st_id s)) f (fw_run w)"
          by (auto simp: scan_step_def bind_def reads_def some_or_def on_record_run ret_def dest!: save_fst split: prod.splits sum.splits)
        then have "decision p s w w'"
          using Some pending deps f examine_address [OF f] examine_status [OF f, of r] examine_ready [OF f, of r]
          by (auto simp: decision_def only_step_def record_at_updated status_record)
        then show ?thesis ..
      qed
    qed
  qed
qed

section \<open>The invariant of the loop\<close>

text \<open>Everything a step depends on is done, and well done where its policy asks for that.\<close>

definition dependencies_done :: "graph_place \<Rightarrow> workflow_run \<Rightarrow> step \<Rightarrow> bool" where
  "dependencies_done p run s \<longleftrightarrow> (\<forall>k \<in> set (st_needs s). \<exists>st. status_at p run k = Some st \<and> is_terminal st
     \<and> (st_policy s = On_Success \<longrightarrow> is_success st))"

definition may_start :: "graph_place \<Rightarrow> workflow_run \<Rightarrow> step \<Rightarrow> bool" where
  "may_start p run s \<longleftrightarrow> dependencies_done p run s \<and> Option.bind (record_at p run (st_id s)) sr_condition = Some True"

definition graph_ok :: "graph_place \<Rightarrow> bool" where
  "graph_ok p \<longleftrightarrow> distinct (map st_id (gp_steps p)) \<and> (\<forall>s \<in> set (gp_steps p). set (st_needs s) \<subseteq> st_id ` set (gp_steps p))"

abbreviation running_steps :: "task list \<Rightarrow> step set" where
  "running_steps running \<equiv> fst ` set running"

definition loop_ok :: "graph_place \<Rightarrow> task list \<Rightarrow> 'w flow_world \<Rightarrow> bool" where
  "loop_ok p running w \<longleftrightarrow> distinct (map fst running) \<and> running_steps running \<subseteq> set (gp_steps p)
     \<and> (\<forall>s \<in> set (gp_steps p). record_at p (fw_run w) (st_id s) \<noteq> None
        \<and> (status_at p (fw_run w) (st_id s) = Some SS_Running \<longleftrightarrow> s \<in> running_steps running)
        \<and> (status_at p (fw_run w) (st_id s) \<in> {Some SS_Ready, Some SS_Running} \<longrightarrow> may_start p (fw_run w) s))"

lemma same_id: "graph_ok p \<Longrightarrow> s \<in> set (gp_steps p) \<Longrightarrow> s' \<in> set (gp_steps p) \<Longrightarrow> st_id s = st_id s' \<Longrightarrow> s = s'"
  by (auto simp: graph_ok_def distinct_map dest: inj_onD)

text \<open>A step that is not done yet is nobody's finished dependency.\<close>

lemma done_kept:
  assumes "dependencies_done p run s" and "\<not> (\<exists>st. status_at p run k = Some st \<and> is_terminal st)"
    and "\<And>k'. k' \<noteq> k \<Longrightarrow> status_at p run' k' = status_at p run k'"
  shows "dependencies_done p run' s"
  using assms unfolding dependencies_done_def by metis

text \<open>How an operation on one unfinished step changes the invariant.\<close>

lemma loop_step:
  assumes ok: "graph_ok p" and loop: "loop_ok p running w" and s: "s \<in> set (gp_steps p)" and only: "only_step p (st_id s) w w'"
    and unfinished: "\<not> (\<exists>st. status_at p (fw_run w) (st_id s) = Some st \<and> is_terminal st)"
    and running': "distinct (map fst running')" "running_steps running' \<subseteq> set (gp_steps p)"
      "running_steps running' - {s} = running_steps running - {s}"
    and own: "status_at p (fw_run w') (st_id s) = Some SS_Running \<longleftrightarrow> s \<in> running_steps running'"
      "status_at p (fw_run w') (st_id s) \<in> {Some SS_Ready, Some SS_Running} \<Longrightarrow> may_start p (fw_run w') s"
  shows "loop_ok p running' w'"
  unfolding loop_ok_def
proof (intro conjI ballI)
  fix s' assume s': "s' \<in> set (gp_steps p)"
  with loop have old: "record_at p (fw_run w) (st_id s') \<noteq> None"
    "status_at p (fw_run w) (st_id s') = Some SS_Running \<longleftrightarrow> s' \<in> running_steps running"
    "status_at p (fw_run w) (st_id s') \<in> {Some SS_Ready, Some SS_Running} \<longrightarrow> may_start p (fw_run w) s'"
    by (auto simp: loop_ok_def)
  show "record_at p (fw_run w') (st_id s') \<noteq> None" using old(1) only by (simp add: only_step_def)
  show "status_at p (fw_run w') (st_id s') = Some SS_Running \<longleftrightarrow> s' \<in> running_steps running'"
  proof (cases "s' = s")
    case False
    then have "st_id s' \<noteq> st_id s" using same_id [OF ok s' s] by blast
    moreover from running'(3) have "s' \<in> running_steps running' - {s} \<longleftrightarrow> s' \<in> running_steps running - {s}" by simp
    ultimately show ?thesis using False old(2) only_status [OF only, of "st_id s'"] by simp
  qed (use own(1) in simp)
  show "status_at p (fw_run w') (st_id s') \<in> {Some SS_Ready, Some SS_Running} \<longrightarrow> may_start p (fw_run w') s'"
  proof (cases "s' = s")
    case False
    then have ne: "st_id s' \<noteq> st_id s" using same_id [OF ok s' s] by blast
    show ?thesis
    proof
      assume "status_at p (fw_run w') (st_id s') \<in> {Some SS_Ready, Some SS_Running}"
      with only_status [OF only ne] old(3) have "may_start p (fw_run w) s'" by auto
      then show "may_start p (fw_run w') s'"
        using done_kept [of p "fw_run w" s' "st_id s" "fw_run w'"] unfinished only_status [OF only] only ne
        by (auto simp: may_start_def only_step_def)
    qed
  qed (use own(2) in simp)
qed (use running' in auto)

lemma loop_unchanged: "loop_ok p running w \<Longrightarrow> unchanged p w w' \<Longrightarrow> loop_ok p running w'"
  by (simp add: loop_ok_def unchanged_def may_start_def dependencies_done_def status_record)

section \<open>The scan keeps it\<close>

lemma terminal_statuses: "is_terminal st \<longleftrightarrow> st \<notin> {SS_Pending, SS_Ready, SS_Running}"
  by (cases st) (simp_all add: is_terminal_def terminal_step_statuses_def)

lemma decided_may_start:
  assumes "decision p s w w'" and "status_at p (fw_run w') (st_id s) = Some SS_Ready"
  shows "may_start p (fw_run w') s"
proof -
  from assms(1,2) obtain r' deps where r': "record_at p (fw_run w') (st_id s) = Some r'" "sr_condition r' = Some True"
    and deps: "those (map (record_at p (fw_run w)) (st_needs s)) = Some deps"
    and good: "\<forall>d \<in> set deps. is_terminal (sr_status d) \<and> (st_policy s = On_Success \<longrightarrow> is_success (sr_status d))"
    and only: "only_step p (st_id s) w w'" and pending: "status_at p (fw_run w) (st_id s) = Some SS_Pending"
    by (auto simp: decision_def status_record)
  have "\<exists>st. status_at p (fw_run w') k = Some st \<and> is_terminal st \<and> (st_policy s = On_Success \<longrightarrow> is_success st)"
    if k: "k \<in> set (st_needs s)" for k
  proof -
    from those_members(2) [OF deps k] obtain d where d: "d \<in> set deps" "record_at p (fw_run w) k = Some d" by blast
    with good have "is_terminal (sr_status d)" by blast
    with d pending have "k \<noteq> st_id s" by (auto simp: status_record terminal_statuses)
    with d good only show ?thesis by (auto simp: only_step_def status_record)
  qed
  with r' show ?thesis by (simp add: may_start_def dependencies_done_def)
qed

lemma scan_step_loop:
  assumes ok: "graph_ok p" and loop: "loop_ok p running w" and s: "s \<in> set (gp_steps p)"
  shows "loop_ok p running (fst (scan_step p s w))"
proof (cases "scan_step p s w")
  case (Pair w' x)
  show ?thesis
  proof (cases "decision p s w w'")
    case True
    then have only: "only_step p (st_id s) w w'" and pending: "status_at p (fw_run w) (st_id s) = Some SS_Pending"
      and new: "\<exists>st \<in> decided. status_at p (fw_run w') (st_id s) = Some st" by (auto simp: decision_def status_record)
    have not_running: "s \<notin> running_steps running" using loop s pending by (auto simp: loop_ok_def)
    have "loop_ok p running w'"
    proof (rule loop_step [OF ok loop s only])
      show "\<not> (\<exists>st. status_at p (fw_run w) (st_id s) = Some st \<and> is_terminal st)" using pending by (simp add: terminal_statuses)
      show "status_at p (fw_run w') (st_id s) = Some SS_Running \<longleftrightarrow> s \<in> running_steps running"
        using new not_running by (auto simp: decided_def)
      show "status_at p (fw_run w') (st_id s) \<in> {Some SS_Ready, Some SS_Running} \<Longrightarrow> may_start p (fw_run w') s"
        using decided_may_start [OF True] new by (auto simp: decided_def)
    qed (use loop in \<open>auto simp: loop_ok_def\<close>)
    with Pair show ?thesis by simp
  next
    case False
    with scan_step_cases [OF Pair] Pair loop_unchanged [OF loop] show ?thesis by auto
  qed
qed

lemma scan_loop:
  assumes ok: "graph_ok p" and "loop_ok p running w" and "set xs \<subseteq> set (gp_steps p)"
  shows "loop_ok p running (fst (scan_steps p xs fatal w))"
  using assms(2,3)
proof (induction xs arbitrary: fatal w)
  case Nil
  then show ?case by (simp add: ret_def)
next
  case (Cons s xs)
  from scan_step_loop [OF ok Cons.prems(1), of s] Cons show ?case
    by (auto simp: fst_bind split: prod.split sum.split)
qed

section \<open>Launching and finishing\<close>

lemma start_fields [simp]:
  "sr_status (start_record s r) = SS_Running" "sr_condition (start_record s r) = sr_condition r"
  by (simp_all add: start_record_def add_attempt_def)

lemma begin_run: "fw_run (fst (begin_record s a w)) = update_record a (start_record s) (fw_run w)"
proof -
  have "fw_run (fst (bind save_run (\<lambda>_. ret n) w')) = fw_run w'" for n :: nat and w' :: "'a flow_world"
    by (cases "save_run w'") (auto simp: fst_bind ret_def dest: save_fst split: sum.split)
  then show ?thesis by (simp add: begin_record_def bind_def reads_def on_record_run split: prod.split sum.split)
qed

lemma begin_only: "only_step p (st_id s) w (fst (begin_record s (step_address p (st_id s)) w))"
  by (rule only_kept) (rule keepsD [OF others.keeps_begin])

lemma begin_loop:
  assumes ok: "graph_ok p" and loop: "loop_ok p running w" and s: "s \<in> set (gp_steps p)"
    and ready: "status_at p (fw_run w) (st_id s) = Some SS_Ready"
  shows "loop_ok p (running @ [(s, n)]) (fst (begin_record s (step_address p (st_id s)) w))"
proof (rule loop_step [OF ok loop s begin_only])
  let ?w' = "fst (begin_record s (step_address p (st_id s)) w)"
  have rec: "record_at p (fw_run ?w') (st_id s) = map_option (start_record s) (record_at p (fw_run w) (st_id s))"
    by (simp add: begin_run record_at_updated)
  have fresh: "s \<notin> running_steps running" using loop s ready by (auto simp: loop_ok_def)
  show "\<not> (\<exists>st. status_at p (fw_run w) (st_id s) = Some st \<and> is_terminal st)" using ready by (simp add: terminal_statuses)
  show "distinct (map fst (running @ [(s, n)]))" "running_steps (running @ [(s, n)]) \<subseteq> set (gp_steps p)"
    "running_steps (running @ [(s, n)]) - {s} = running_steps running - {s}"
    using loop s fresh by (auto simp: loop_ok_def)
  show "status_at p (fw_run ?w') (st_id s) = Some SS_Running \<longleftrightarrow> s \<in> running_steps (running @ [(s, n)])"
    using ready rec by (auto simp: status_record)
  have may: "may_start p (fw_run w) s" using loop s ready by (auto simp: loop_ok_def)
  then have "dependencies_done p (fw_run ?w') s"
    using done_kept [of p "fw_run w" s "st_id s" "fw_run ?w'"] ready only_status [OF begin_only] by (auto simp: may_start_def terminal_statuses)
  with may rec show "may_start p (fw_run ?w') s" by (cases "record_at p (fw_run w) (st_id s)") (auto simp: may_start_def)
qed

lemma launch_loop:
  assumes "graph_ok p" and "loop_ok p running w" and "distinct xs"
    and "\<forall>s \<in> set xs. s \<in> set (gp_steps p) \<and> status_at p (fw_run w) (st_id s) = Some SS_Ready"
    and "launch p xs w = (w', Inr new)"
  shows "loop_ok p (running @ new) w' \<and> map fst new = xs"
  using assms(2-)
proof (induction xs arbitrary: running w new)
  case Nil
  then show ?case by (simp add: launch_def ret_def)
next
  case (Cons s xs)
  from Cons.prems(4) obtain w1 n rest where begun: "begin_record s (step_address p (st_id s)) w = (w1, Inr n)"
    and rest: "launch p xs w1 = (w', Inr rest)" and new: "new = (s, n) # rest"
    by (auto simp: launch_def op_ok)
  have s: "s \<in> set (gp_steps p)" "status_at p (fw_run w) (st_id s) = Some SS_Ready" using Cons.prems(3) by auto
  have w1: "w1 = fst (begin_record s (step_address p (st_id s)) w)" using begun by simp
  have loop: "loop_ok p (running @ [(s, n)]) w1" unfolding w1 by (rule begin_loop [OF assms(1) Cons.prems(1) s])
  have "\<forall>s' \<in> set xs. s' \<in> set (gp_steps p) \<and> status_at p (fw_run w1) (st_id s') = Some SS_Ready"
  proof
    fix s' assume s': "s' \<in> set xs"
    then have "s' \<noteq> s" "s' \<in> set (gp_steps p)" "status_at p (fw_run w) (st_id s') = Some SS_Ready" using Cons.prems by auto
    then show "s' \<in> set (gp_steps p) \<and> status_at p (fw_run w1) (st_id s') = Some SS_Ready"
      using same_id [OF assms(1) _ s(1)] only_status [OF begin_only] unfolding w1 by metis
  qed
  with Cons.IH [OF loop _ _ rest] Cons.prems(2) new show ?case by simp
qed

text \<open>A task that returns, or ends with any exception but the end of the process, has settled its step.\<close>

lemma failed_settles:
  assumes "step_failed s a number e w = (w', x)" and "x \<noteq> Inl Flow_Killed" and "record_for_address (fw_run w) a \<noteq> None"
  shows "\<exists>r. record_for_address (fw_run w') a = Some r \<and> is_terminal (sr_status r)"
proof (cases "e = Flow_Killed")
  case True
  with assms show ?thesis by (simp add: step_failed_def op_defs)
next
  case False
  obtain r where r: "record_for_address (fw_run w) a = Some r" using assms(3) by auto
  obtain f where f: "fw_run w' = update_record a f (fw_run w)" and addr: "\<And>r. sr_address (f r) = sr_address r"
    and ended: "\<And>r. is_terminal (sr_status (f r))"
  proof -
    define f where "f = (case e of
       Flow_Cancelled \<Rightarrow> (\<lambda>r. interrupt_record (set_attempt number AS_Interrupted r))
     | Doubt_Error m \<Rightarrow> (\<lambda>r. in_doubt_record m (set_attempt number AS_Failed r))
     | _ \<Rightarrow> (\<lambda>r. case error_kind s e of (c, m) \<Rightarrow> fail_record c m (set_attempt number AS_Failed r)))"
    have "fw_run w' = update_record a f (fw_run w)"
      using assms(1) False
      by (cases e) (auto simp: step_failed_def f_def bind_def on_record_run raise_def dest!: save_fst split: prod.splits sum.splits)
    moreover have "sr_address (f r) = sr_address r \<and> is_terminal (sr_status (f r))" for r
      unfolding f_def using False
      by (cases e) (auto simp: terminal_statuses interrupt_record_def in_doubt_record_def fail_record_def set_attempt_def split: prod.split)
    ultimately show thesis using that by blast
  qed
  with r record_updated [of f a "fw_run w" a] show ?thesis by simp
qed

lemma finish_settles:
  assumes "finish_record env recs item s a number w = (w', x)" and "x \<noteq> Inl Flow_Killed" and "record_for_address (fw_run w) a \<noteq> None"
  shows "\<exists>r. record_for_address (fw_run w') a = Some r \<and> is_terminal (sr_status r)"
proof -
  let ?ctx = "run_context (fw_run w) (recs (fw_run w)) (item (fw_run w))"
  obtain w1 y where result: "step_result env s a ?ctx number w = (w1, y)" by fastforce
  have "keeps (records_kept a) (step_result env s a ?ctx number)"
    unfolding step_result_def by (intro keeps_intros kept_order others.keeps_retries keeps_reads) (auto intro: refl)
  from keeps_run [OF this result] assms(3) have there: "record_for_address (fw_run w1) a \<noteq> None" by (simp add: records_kept_def)
  show ?thesis
  proof (cases y)
    case (Inl e)
    obtain w2 z where failed: "step_failed s a number e w1 = (w2, z)" by fastforce
    with assms(1) result Inl have "w' = w2" "z = Inl Flow_Killed \<Longrightarrow> x = Inl Flow_Killed"
      by (auto simp: finish_record_def bind_def reads_def handle_def ret_def split: sum.splits)
    with failed_settles [OF failed _ there] assms(2) show ?thesis by blast
  next
    case (Inr vn)
    obtain v n where vn: "vn = (v, n)" by fastforce
    show ?thesis
    proof (cases "ws_max_result_chars (fe_settings env) < json_character_count v")
      case True
      with assms(1) result Inr vn have "step_failed s a n (Step_Error ''step output exceeds the configured result size'') w1 = (w', x)"
        by (simp add: finish_record_def bind_def reads_def handle_def ret_def)
      from failed_settles [OF this assms(2) there] show ?thesis .
    next
      case False
      let ?f = "\<lambda>r. complete_record v (set_attempt n AS_Completed r)"
      from False assms(1) result Inr vn have run: "fw_run w' = update_record a ?f (fw_run w1)"
        by (auto simp: finish_record_def bind_def reads_def handle_def ret_def on_record_run dest!: save_fst split: prod.splits sum.splits)
      have "sr_address (?f r) = sr_address r" "is_terminal (sr_status (?f r))" for r
        by (simp_all add: complete_record_def set_attempt_def terminal_statuses)
      with there run record_updated [of ?f a "fw_run w1" a] show ?thesis by auto
    qed
  qed
qed

lemma distinct_map_remove1: "distinct (map f xs) \<Longrightarrow> distinct (map f (remove1 x xs))"
  by (induction xs) (auto dest: notin_set_remove1 set_remove1_subset [THEN subsetD])

lemma remove1_steps:
  "distinct (map fst running) \<Longrightarrow> t \<in> set running \<Longrightarrow> running_steps (remove1 t running) = running_steps running - {fst t}"
  by (induction running) (auto dest: set_remove1_subset [THEN subsetD] simp: image_iff)

lemma task_loop:
  assumes ok: "graph_ok p" and loop: "loop_ok p running w" and t: "t \<in> set running"
    and settled: "\<exists>r. record_at p (fw_run w') (st_id (fst t)) = Some r \<and> is_terminal (sr_status r)"
    and only: "only_step p (st_id (fst t)) w w'"
  shows "loop_ok p (remove1 t running) w'"
proof (rule loop_step [OF ok loop _ only])
  have s: "fst t \<in> set (gp_steps p)" using loop t by (auto simp: loop_ok_def)
  then show "fst t \<in> set (gp_steps p)" .
  have dist: "distinct (map fst running)" using loop by (simp add: loop_ok_def)
  then show "distinct (map fst (remove1 t running))" by (simp add: distinct_map_remove1)
  have one: "running_steps (remove1 t running) = running_steps running - {fst t}" by (rule remove1_steps [OF dist t])
  then show "running_steps (remove1 t running) - {fst t} = running_steps running - {fst t}" by simp
  show "running_steps (remove1 t running) \<subseteq> set (gp_steps p)" using one loop by (auto simp: loop_ok_def)
  have "status_at p (fw_run w) (st_id (fst t)) = Some SS_Running" using loop s t by (auto simp: loop_ok_def)
  then show "\<not> (\<exists>st. status_at p (fw_run w) (st_id (fst t)) = Some st \<and> is_terminal st)" by (simp add: terminal_statuses)
  show "status_at p (fw_run w') (st_id (fst t)) = Some SS_Running \<longleftrightarrow> fst t \<in> running_steps (remove1 t running)"
    using settled one by (auto simp: status_record terminal_statuses)
  show "status_at p (fw_run w') (st_id (fst t)) \<in> {Some SS_Ready, Some SS_Running} \<Longrightarrow> may_start p (fw_run w') (fst t)"
    using settled by (auto simp: status_record terminal_statuses)
qed

lemma body_only: "only_step p (st_id (fst t)) w (fst (task_body env p t w))"
  unfolding task_body_def by (cases t) (simp add: only_kept keepsD [OF others.keeps_finish [OF refl]])

lemma running_record: "loop_ok p running w \<Longrightarrow> t \<in> set running \<Longrightarrow> record_at p (fw_run w) (st_id (fst t)) \<noteq> None"
  unfolding loop_ok_def by blast

lemma body_loop:
  assumes "graph_ok p" and "loop_ok p running w" and "t \<in> set running" and "task_body env p t w = (w', x)" and "x \<noteq> Inl Flow_Killed"
  shows "loop_ok p (remove1 t running) w'"
proof (rule task_loop [OF assms(1-3)])
  show "only_step p (st_id (fst t)) w w'" using body_only [of p t w env] assms(4) by simp
  have "record_for_address (fw_run w) (step_address p (st_id (fst t))) \<noteq> None"
    using running_record [OF assms(2,3)] by (simp add: record_at_def)
  from finish_settles [OF _ assms(5) this] assms(4)
  show "\<exists>r. record_at p (fw_run w') (st_id (fst t)) = Some r \<and> is_terminal (sr_status r)"
    by (auto simp: task_body_def record_at_def split: prod.splits)
qed

section \<open>Stopping\<close>

lemma end_task_loop:
  assumes "graph_ok p" and "loop_ok p (t # running) w" and "end_task env p hit t w = (w', Inr u)"
  shows "loop_ok p running w'"
proof -
  have t: "t \<in> set (t # running)" by simp
  have rec: "record_for_address (fw_run w) (step_address p (st_id (fst t))) \<noteq> None"
    using running_record [OF assms(2) t] by (simp add: record_at_def)
  show ?thesis
  proof (cases "hit t")
    case True
    obtain x where x: "step_failed (fst t) (step_address p (st_id (fst t))) (snd t) Flow_Cancelled w = (w', x)" "x \<noteq> Inl Flow_Killed"
      using assms(3) True
      by (cases "step_failed (fst t) (step_address p (st_id (fst t))) (snd t) Flow_Cancelled w")
        (auto simp: end_task_def handle_def raise_def ret_def split: sum.splits if_splits)
    have "only_step p (st_id (fst t)) w w'"
      using keepsD [OF others.keeps_failed, of "step_address p (st_id (fst t))" w "fst t" "snd t" Flow_Cancelled] x(1) by (auto intro: only_kept)
    moreover have "\<exists>r. record_at p (fw_run w') (st_id (fst t)) = Some r \<and> is_terminal (sr_status r)"
      using failed_settles [OF x rec] by (simp add: record_at_def)
    ultimately show ?thesis using task_loop [OF assms(1,2) t] by simp
  next
    case False
    obtain x where "task_body env p t w = (w', x)" "x \<noteq> Inl Flow_Killed"
      using assms(3) False
      by (cases "task_body env p t w") (auto simp: end_task_def handle_def raise_def ret_def split: sum.splits if_splits)
    from body_loop [OF assms(1,2) t this] show ?thesis by simp
  qed
qed

lemma end_tasks_loop:
  assumes "graph_ok p" and "loop_ok p running w" and "each (end_task env p hit) running w = (w', Inr us)"
  shows "loop_ok p [] w'"
  using assms(2,3)
proof (induction running arbitrary: w us)
  case Nil
  then show ?case by (simp add: ret_def)
next
  case (Cons t running)
  then obtain w1 u us' where "end_task env p hit t w = (w1, Inr u)" "each (end_task env p hit) running w1 = (w', Inr us')"
    by (auto simp: op_ok)
  with end_task_loop [OF assms(1) Cons.prems(1)] Cons.IH show ?case by blast
qed

lemma stop_step_cases:
  "fst (stop_step p s w) = w \<and> status_at p (fw_run w) (st_id s) \<notin> {Some SS_Pending, Some SS_Ready}
   \<or> status_at p (fw_run w) (st_id s) \<in> {Some SS_Pending, Some SS_Ready} \<and> only_step p (st_id s) w (fst (stop_step p s w))
     \<and> status_at p (fw_run (fst (stop_step p s w))) (st_id s) = Some SS_Blocked"
proof (cases "status_at p (fw_run w) (st_id s) \<in> {Some SS_Pending, Some SS_Ready}")
  case True
  let ?f = "block_record ''workflow stopped after step failure''"
  from True have "fw_run (fst (stop_step p s w)) = update_record (step_address p (st_id s)) ?f (fw_run w)"
    by (auto simp: stop_step_def bind_def reads_def on_record_run)
  with True show ?thesis
    using record_at_updated [of ?f p "st_id s" "fw_run w"] by (auto simp: only_step_def status_record block_record_def)
qed (auto simp: stop_step_def bind_def reads_def ret_def)

lemma stop_loop:
  assumes ok: "graph_ok p" and loop: "loop_ok p [] w" and s: "s \<in> set (gp_steps p)"
  shows "loop_ok p [] (fst (stop_step p s w))"
proof (cases "fst (stop_step p s w) = w")
  case False
  with stop_step_cases [of p s w] have cases: "status_at p (fw_run w) (st_id s) \<in> {Some SS_Pending, Some SS_Ready}"
    "only_step p (st_id s) w (fst (stop_step p s w))" "status_at p (fw_run (fst (stop_step p s w))) (st_id s) = Some SS_Blocked" by auto
  show ?thesis by (rule loop_step [OF ok loop s cases(2)]) (use cases in \<open>auto simp: terminal_statuses\<close>)
qed (use loop in simp)

text \<open>No step is pending or ready after the stop, and none was running.\<close>

definition all_done :: "graph_place \<Rightarrow> workflow_run \<Rightarrow> bool" where
  "all_done p run \<longleftrightarrow> (\<forall>s \<in> set (gp_steps p). \<exists>st. status_at p run (st_id s) = Some st \<and> is_terminal st)"

lemma stop_steps_done:
  assumes ok: "graph_ok p" and "loop_ok p [] w" and "set xs \<subseteq> set (gp_steps p)" and "each (stop_step p) xs w = (w', Inr us)"
    and "\<forall>s \<in> set (gp_steps p) - set xs. \<exists>st. status_at p (fw_run w) (st_id s) = Some st \<and> is_terminal st"
  shows "all_done p (fw_run w')"
  using assms(2-)
proof (induction xs arbitrary: w us)
  case Nil
  then show ?case by (simp add: ret_def all_done_def)
next
  case (Cons s xs)
  from Cons.prems(3) obtain w1 us' where w1: "w1 = fst (stop_step p s w)" and rest: "each (stop_step p) xs w1 = (w', Inr us')"
    by (auto simp: op_ok)
  have s: "s \<in> set (gp_steps p)" using Cons.prems(2) by simp
  have old: "record_at p (fw_run w) (st_id s) \<noteq> None" "status_at p (fw_run w) (st_id s) \<noteq> Some SS_Running"
    using Cons.prems(1) s by (auto simp: loop_ok_def)
  have here: "\<exists>st. status_at p (fw_run w1) (st_id s) = Some st \<and> is_terminal st"
    using stop_step_cases [of p s w] old by (auto simp: w1 status_record terminal_statuses)
  have there: "\<exists>st. status_at p (fw_run w1) (st_id s') = Some st \<and> is_terminal st" if s': "s' \<in> set (gp_steps p) - set (s # xs)" for s'
  proof -
    have "st_id s' \<noteq> st_id s" using same_id [OF ok _ s, of s'] s' by auto
    then have "status_at p (fw_run w1) (st_id s') = status_at p (fw_run w) (st_id s')"
      using stop_step_cases [of p s w] by (auto simp: w1 only_status)
    with Cons.prems(4) s' show ?thesis by simp
  qed
  have "loop_ok p [] w1" unfolding w1 by (rule stop_loop [OF ok Cons.prems(1) s])
  from Cons.IH [OF this _ rest] Cons.prems(2) here there show ?case by auto
qed

lemma stop_graph_done:
  assumes "graph_ok p" and "loop_ok p running w" and "stop_graph env p hit running w = (w', Inr u)"
  shows "all_done p (fw_run w')"
proof -
  from assms(3) obtain w1 w2 w3 us vs where ends: "each (end_task env p hit) running w = (w1, Inr us)"
    and save: "save_run w1 = (w2, Inr ())" and stops: "each (stop_step p) (gp_steps p) w2 = (w3, Inr vs)" and last: "save_run w3 = (w', Inr ())"
    by (auto simp: stop_graph_def op_ok)
  have "loop_ok p [] w1" by (rule end_tasks_loop [OF assms(1,2) ends])
  then have "loop_ok p [] w2" by (rule loop_unchanged) (simp add: unchanged_def save_fst [OF save])
  from stop_steps_done [OF assms(1) this order_refl stops] show ?thesis unfolding save_fst [OF last] by simp
qed

section \<open>The launch\<close>

lemma select_some:
  assumes "distinct ready" and "busy \<le> limit"
  shows "set (select_steps env limit busy ready) \<subseteq> set ready" and "distinct (select_steps env limit busy ready)"
    and "busy + length (select_steps env limit busy ready) \<le> limit"
    and "s \<in> set (select_steps env limit busy ready) \<Longrightarrow> exclusive env s \<Longrightarrow> busy = 0 \<and> select_steps env limit busy ready = [s]"
proof -
  have "set (select_steps env limit busy ready) \<subseteq> set ready \<and> distinct (select_steps env limit busy ready)
      \<and> busy + length (select_steps env limit busy ready) \<le> limit
      \<and> (s \<in> set (select_steps env limit busy ready) \<longrightarrow> exclusive env s \<longrightarrow> busy = 0 \<and> select_steps env limit busy ready = [s])"
  proof (cases "find (exclusive env) ready")
    case None
    then have "x \<in> set ready \<Longrightarrow> \<not> exclusive env x" for x by (simp add: find_None_iff)
    with None assms show ?thesis by (auto simp: select_steps_def dest: in_set_takeD)
  next
    case (Some x)
    then have "x \<in> set ready" by (auto simp: find_Some_iff)
    with Some assms show ?thesis by (simp add: select_steps_def)
  qed
  then show "set (select_steps env limit busy ready) \<subseteq> set ready" "distinct (select_steps env limit busy ready)"
    "busy + length (select_steps env limit busy ready) \<le> limit"
    "s \<in> set (select_steps env limit busy ready) \<Longrightarrow> exclusive env s \<Longrightarrow> busy = 0 \<and> select_steps env limit busy ready = [s]"
    by blast+
qed

lemma select_none: "select_steps env limit 0 ready = [] \<Longrightarrow> 0 < limit \<Longrightarrow> ready = []"
  by (auto simp: select_steps_def split: option.splits if_splits)

text \<open>Not more tasks than allowed, and a task that must be alone is alone.\<close>

definition tasks_ok :: "'w flow_env \<Rightarrow> nat \<Rightarrow> task list \<Rightarrow> bool" where
  "tasks_ok env limit running \<longleftrightarrow> length running \<le> limit \<and> (\<forall>t \<in> set running. exclusive env (fst t) \<longrightarrow> running = [t])"

definition shared :: "'w flow_env \<Rightarrow> task list \<Rightarrow> bool" where
  "shared env running \<longleftrightarrow> (\<forall>t \<in> set running. \<not> exclusive env (fst t))"

lemma with_status_mem: "s \<in> set (with_status p f run) \<longleftrightarrow> s \<in> set (gp_steps p) \<and> (\<exists>st. status_at p run (st_id s) = Some st \<and> f st)"
  by (auto simp: with_status_def split: option.splits)

lemma turn_waits:
  assumes ok: "graph_ok p" and loop: "loop_ok p running w" and free: "shared env running" "length running \<le> limit"
    and turn: "scheduler_turn env limit p hit running fatal w = (w', Inr (Turn_Waits, running'))"
  shows "loop_ok p running' w' \<and> running' \<noteq> [] \<and> tasks_ok env limit running'"
proof -
  from turn obtain w1 fatal' ready new where scan: "scan_steps p (gp_steps p) fatal w = (w1, Inr fatal')"
    and ready: "ready = with_status p (\<lambda>st. st = SS_Ready) (fw_run w1)"
    and launch: "launch p (select_steps env limit (length running) ready) w1 = (w', Inr new)" and r: "running' = running @ new" "running' \<noteq> []"
    by (auto simp: scheduler_turn_def wait_or_end_def op_ok split: if_splits)
  have loop1: "loop_ok p running w1" using scan_loop [OF ok loop order_refl, of fatal] scan by simp
  have dist: "distinct ready" using ok by (simp add: ready with_status_def graph_ok_def distinct_map)
  note sel = select_some [OF dist free(2), where env = env]
  have "\<forall>s \<in> set (select_steps env limit (length running) ready). s \<in> set (gp_steps p) \<and> status_at p (fw_run w1) (st_id s) = Some SS_Ready"
    using sel(1) by (auto simp: ready with_status_mem)
  from launch_loop [OF ok loop1 sel(2) this launch] have after: "loop_ok p running' w'"
    and new: "map fst new = select_steps env limit (length running) ready" by (simp_all add: r)
  have "length running' \<le> limit" using sel(3) arg_cong [OF new, of length] by (simp add: r)
  moreover have "running' = [t]" if t: "t \<in> set running'" "exclusive env (fst t)" for t
  proof -
    from t free(1) have "t \<in> set new" by (auto simp: r shared_def)
    with new have "fst t \<in> set (select_steps env limit (length running) ready)" by (metis image_eqI list.set_map)
    from sel(4) [OF this t(2)] new \<open>t \<in> set new\<close> show ?thesis by (cases new) (auto simp: r)
  qed
  ultimately show ?thesis using after r by (simp add: tasks_ok_def)
qed

lemma turn_ends:
  assumes ok: "graph_ok p" and loop: "loop_ok p running w" and free: "shared env running" "length running \<le> limit"
    and turn: "scheduler_turn env limit p hit running fatal w = (w', Inr (Turn_Ends, running'))"
  shows "all_done p (fw_run w')"
proof -
  from turn obtain w1 fatal' where scan: "scan_steps p (gp_steps p) fatal w = (w1, Inr fatal')"
    and rest: "(if fatal' then bind (stop_graph env p hit running) (\<lambda>_. ret (Turn_Ends, []))
      else bind (reads (\<lambda>w. with_status p (\<lambda>st. st = SS_Ready) (fw_run w))) (\<lambda>ready.
        bind (launch p (select_steps env limit (length running) ready)) (\<lambda>new. wait_or_end p (running @ new)))) w1
      = (w', Inr (Turn_Ends, running'))" by (auto simp: scheduler_turn_def op_ok)
  have loop1: "loop_ok p running w1" using scan_loop [OF ok loop order_refl, of fatal] scan by simp
  show ?thesis
  proof (cases fatal')
    case True
    with rest obtain u where "stop_graph env p hit running w1 = (w', Inr u)" by (auto simp: op_ok)
    from stop_graph_done [OF ok loop1 this] show ?thesis .
  next
    case False
    define ready where "ready = with_status p (\<lambda>st. st = SS_Ready) (fw_run w1)"
    from rest False obtain new w2 where launch: "launch p (select_steps env limit (length running) ready) w1 = (w2, Inr new)"
      and wait: "wait_or_end p (running @ new) w2 = (w', Inr (Turn_Ends, running'))" by (auto simp: op_ok ready_def)
    from wait have none: "running @ new = []" "with_status p (\<lambda>st. \<not> is_terminal st) (fw_run w2) = []" "w' = w2"
      by (auto simp: wait_or_end_def op_ok split: if_splits)
    have dist: "distinct ready" using ok by (simp add: ready_def with_status_def graph_ok_def distinct_map)
    have "\<forall>s \<in> set (select_steps env limit (length running) ready). s \<in> set (gp_steps p) \<and> status_at p (fw_run w1) (st_id s) = Some SS_Ready"
      using select_some(1) [OF dist free(2), where env = env] by (auto simp: ready_def with_status_mem)
    from launch_loop [OF ok loop1 select_some(2) [OF dist free(2)] this launch] have "loop_ok p [] w2" using none(1) by simp
    then show ?thesis
      unfolding all_done_def none(3)
    proof (intro ballI)
      fix s assume s: "s \<in> set (gp_steps p)" and loop2: "loop_ok p [] w2"
      then obtain st where st: "status_at p (fw_run w2) (st_id s) = Some st" by (auto simp: loop_ok_def status_record)
      with s none(2) have "is_terminal st" using with_status_mem [of s p "\<lambda>st. \<not> is_terminal st" "fw_run w2"] by auto
      with st show "\<exists>st. status_at p (fw_run w2) (st_id s) = Some st \<and> is_terminal st" by blast
    qed
  qed
qed

section \<open>Progress\<close>

text \<open>Every step is declared after what it needs.\<close>

definition ordered :: "graph_place \<Rightarrow> bool" where
  "ordered p \<longleftrightarrow> (\<forall>i < length (gp_steps p). set (st_needs (gp_steps p ! i)) \<subseteq> st_id ` set (take i (gp_steps p)))"

lemma scan_others:
  "k \<notin> st_id ` set xs \<Longrightarrow> record_at p (fw_run (fst (scan_steps p xs fatal w))) k = record_at p (fw_run w) k"
proof (induction xs arbitrary: fatal w)
  case (Cons s xs)
  obtain w1 x where step: "scan_step p s w = (w1, x)" by fastforce
  have "record_at p (fw_run w1) k = record_at p (fw_run w) k"
    using scan_step_cases [OF step] Cons.prems by (auto simp: unchanged_def decision_def only_step_def)
  with Cons step show ?case by (cases x) (simp_all add: fst_bind)
qed (simp add: ret_def)

lemma scan_leaves:
  assumes "distinct (map st_id (pre @ xs))" and "scan_steps p xs fatal w = (w', Inr b)"
    and "\<forall>i < length xs. set (st_needs (xs ! i)) \<subseteq> st_id ` set (pre @ take i xs)"
    and "s \<in> set xs" and "status_at p (fw_run w') (st_id s) = Some SS_Pending"
  shows "\<exists>k \<in> set (st_needs s). \<exists>st. status_at p (fw_run w') k = Some st \<and> \<not> is_terminal st"
  using assms
proof (induction xs arbitrary: pre fatal w)
  case (Cons s' xs)
  from Cons.prems(2) obtain w1 c where step: "scan_step p s' w = (w1, Inr c)" and rest: "scan_steps p xs (fatal \<or> c) w1 = (w', Inr b)"
    by (auto simp: op_ok)
  have w': "w' = fst (scan_steps p xs (fatal \<or> c) w1)" using rest by simp
  show ?case
  proof (cases "s = s'")
    case True
    have later: "st_id s' \<notin> st_id ` set xs" using Cons.prems(1) by auto
    with Cons.prems(5) True have pending: "status_at p (fw_run w1) (st_id s') = Some SS_Pending"
      using scan_others [of "st_id s'" xs p "fatal \<or> c" w1] by (simp add: w' status_record)
    then have "\<not> decision p s' w w1" by (auto simp: decision_def decided_def status_record)
    with scan_step_cases [OF step, of c] have same: "unchanged p w w1"
      and wait: "status_at p (fw_run w) (st_id s') = Some SS_Pending \<longrightarrow> (\<exists>k \<in> set (st_needs s'). \<exists>st. status_at p (fw_run w) k = Some st \<and> \<not> is_terminal st)"
      by auto
    from same pending have "status_at p (fw_run w) (st_id s') = Some SS_Pending" by (simp add: unchanged_def status_record)
    with wait obtain k st where k: "k \<in> set (st_needs s')" "status_at p (fw_run w) k = Some st" "\<not> is_terminal st" by blast
    have "k \<in> st_id ` set pre" using Cons.prems(3) [rule_format, of 0] k(1) by auto
    then have "k \<notin> st_id ` set xs" using Cons.prems(1) by auto
    then have "status_at p (fw_run w') k = status_at p (fw_run w) k"
      using scan_others [of k xs p "fatal \<or> c" w1] same by (simp add: w' status_record unchanged_def)
    with k True show ?thesis by auto
  next
    case False
    have "\<forall>i < length xs. set (st_needs (xs ! i)) \<subseteq> st_id ` set ((pre @ [s']) @ take i xs)"
    proof (intro allI impI)
      fix i assume "i < length xs"
      with Cons.prems(3) [rule_format, of "Suc i"] show "set (st_needs (xs ! i)) \<subseteq> st_id ` set ((pre @ [s']) @ take i xs)" by simp
    qed
    with Cons.IH [of "pre @ [s']", OF _ rest] Cons.prems False show ?thesis by simp
  qed
qed simp

lemma turn_possible:
  assumes ok: "graph_ok p" and "ordered p" and "0 < limit" and loop: "loop_ok p running w"
    and free: "shared env running" "length running \<le> limit"
  shows "scheduler_turn env limit p hit running fatal w \<noteq> (w', Inr (Turn_Impossible, running'))"
proof
  assume turn: "scheduler_turn env limit p hit running fatal w = (w', Inr (Turn_Impossible, running'))"
  then obtain w1 w2 fatal' ready new where scan: "scan_steps p (gp_steps p) fatal w = (w1, Inr fatal')"
    and ready: "ready = with_status p (\<lambda>st. st = SS_Ready) (fw_run w1)"
    and launch: "launch p (select_steps env limit (length running) ready) w1 = (w2, Inr new)"
    and wait: "wait_or_end p (running @ new) w2 = (w', Inr (Turn_Impossible, running'))"
    by (auto simp: scheduler_turn_def op_ok split: if_splits)
  from wait have none: "running = []" "new = []" and left: "with_status p (\<lambda>st. \<not> is_terminal st) (fw_run w2) \<noteq> []"
    by (auto simp: wait_or_end_def op_ok split: if_splits)
  have loop1: "loop_ok p [] w1" using scan_loop [OF ok loop order_refl, of fatal] scan none by simp
  have dist: "distinct ready" using ok by (simp add: ready with_status_def graph_ok_def distinct_map)
  have "\<forall>s \<in> set (select_steps env limit 0 ready). s \<in> set (gp_steps p) \<and> status_at p (fw_run w1) (st_id s) = Some SS_Ready"
    using select_some(1) [OF dist, where busy = 0 and limit = limit and env = env] by (auto simp: ready with_status_mem)
  from launch_loop [OF ok loop1 select_some(2) [OF dist] this] launch none have sel: "select_steps env limit 0 ready = []" by simp
  then have w2: "w2 = w1" using launch none by (simp add: launch_def ret_def)
  have "ready = []" using select_none [OF sel] assms(3) by simp
  have no_ready: "status_at p (fw_run w1) (st_id s) \<noteq> Some SS_Ready" if "s \<in> set (gp_steps p)" for s
    using \<open>ready = []\<close> that with_status_mem [of s p "\<lambda>st. st = SS_Ready" "fw_run w1"] by (simp add: ready)
  have no_running: "status_at p (fw_run w1) (st_id s) \<noteq> Some SS_Running" if "s \<in> set (gp_steps p)" for s
    using loop1 that by (simp add: loop_ok_def)
  have finished: "i < length (gp_steps p) \<Longrightarrow> st = the (status_at p (fw_run w1) (st_id (gp_steps p ! i))) \<Longrightarrow> is_terminal st" for i st
  proof (induction i arbitrary: st rule: less_induct)
    case (less i)
    let ?s = "gp_steps p ! i"
    have s: "?s \<in> set (gp_steps p)" using less.prems(1) by simp
    have "record_at p (fw_run w1) (st_id ?s) \<noteq> None" using loop1 s unfolding loop_ok_def by blast
    then obtain st' where st': "status_at p (fw_run w1) (st_id ?s) = Some st'" by (auto simp: status_record)
    show ?case
    proof (rule ccontr)
      assume "\<not> is_terminal st"
      with less.prems(2) st' no_ready [OF s] no_running [OF s] have "status_at p (fw_run w1) (st_id ?s) = Some SS_Pending"
        by (auto simp: terminal_statuses)
      moreover have "distinct (map st_id ([] @ gp_steps p))" using ok by (simp add: graph_ok_def)
      moreover have "\<forall>i < length (gp_steps p). set (st_needs (gp_steps p ! i)) \<subseteq> st_id ` set ([] @ take i (gp_steps p))"
        using assms(2) by (simp add: ordered_def)
      ultimately obtain k st where k: "k \<in> set (st_needs ?s)" "status_at p (fw_run w1) k = Some st" "\<not> is_terminal st"
        using scan_leaves [of "[]" "gp_steps p", OF _ scan _ s] by blast
      have "k \<in> st_id ` set (take i (gp_steps p))" using k(1) assms(2) less.prems(1) unfolding ordered_def by blast
      then obtain x where "x \<in> set (take i (gp_steps p))" "k = st_id x" by blast
      then obtain j where j: "j < i" "k = st_id (gp_steps p ! j)" by (auto simp: in_set_conv_nth)
      with less.IH [OF j(1) _ refl] less.prems(1) k show False by simp
    qed
  qed
  from left obtain s st where s: "s \<in> set (gp_steps p)" "status_at p (fw_run w1) (st_id s) = Some st" "\<not> is_terminal st"
    using with_status_mem [of _ p "\<lambda>st. \<not> is_terminal st" "fw_run w2"] by (cases "with_status p (\<lambda>st. \<not> is_terminal st) (fw_run w2)") (force simp: w2)+
  from s(1) obtain i where "i < length (gp_steps p)" "gp_steps p ! i = s" by (auto simp: in_set_conv_nth)
  with finished [of i st] s show False by simp
qed

section \<open>The loop as a whole\<close>

lemma after_turn_cases [simp]:
  "after_turn (w, Inl e) c = c\<lparr>sd_world := w, sd_phase := Crashed e\<rparr>"
  "after_turn (w, Inr (t, running)) c = \<lparr>sd_world = w, sd_running = running, sd_fatal = False,
     sd_phase = (case t of Turn_Waits \<Rightarrow> Waiting | Turn_Ends \<Rightarrow> Ended | Turn_Impossible \<Rightarrow> Stuck)\<rparr>"
  by (simp_all add: after_turn_def)

lemma after_task_cases [simp]:
  "after_task p t (w, Inl e) c = c\<lparr>sd_world := w, sd_phase := Crashed e\<rparr>"
  "after_task p t (w, Inr u) c = \<lparr>sd_world = w, sd_running = remove1 t (sd_running c),
     sd_fatal = fatal_after p (fst t) (fw_run w) (sd_fatal c), sd_phase = Collecting\<rparr>"
  by (simp_all add: after_task_def split: unit.split)

text \<open>How a turn and the end of a task go.\<close>

lemma turn_ways:
  obtains (crash) w' e where "scheduler_turn env limit p hit (sd_running c) (sd_fatal c) (sd_world c) = (w', Inl e)"
      "take_turn env limit p hit c = c\<lparr>sd_world := w', sd_phase := Crashed e\<rparr>"
    | (turn) w' t running' where "scheduler_turn env limit p hit (sd_running c) (sd_fatal c) (sd_world c) = (w', Inr (t, running'))"
      "take_turn env limit p hit c = \<lparr>sd_world = w', sd_running = running', sd_fatal = False,
         sd_phase = (case t of Turn_Waits \<Rightarrow> Waiting | Turn_Ends \<Rightarrow> Ended | Turn_Impossible \<Rightarrow> Stuck)\<rparr>"
proof (cases "scheduler_turn env limit p hit (sd_running c) (sd_fatal c) (sd_world c)")
  case (Pair w' x)
  show thesis
  proof (cases x)
    case (Inr y)
    with Pair turn [of w' "fst y" "snd y"] show thesis by (cases y) (simp add: take_turn_def)
  qed (use Pair crash in \<open>simp add: take_turn_def\<close>)
qed

lemma task_ways:
  obtains (crash) w' e where "task_body env p t (sd_world c) = (w', Inl e)"
      "run_task env p t c = c\<lparr>sd_world := w', sd_phase := Crashed e\<rparr>"
    | (settled) w' u where "task_body env p t (sd_world c) = (w', Inr u)"
      "run_task env p t c = \<lparr>sd_world = w', sd_running = remove1 t (sd_running c),
         sd_fatal = fatal_after p (fst t) (fw_run w') (sd_fatal c), sd_phase = Collecting\<rparr>"
proof (cases "task_body env p t (sd_world c)")
  case (Pair w' x)
  then show thesis by (cases x) (use crash settled in \<open>simp_all add: run_task_def\<close>)
qed

definition schedule_ok :: "'w flow_env \<Rightarrow> nat \<Rightarrow> graph_place \<Rightarrow> 'w schedule \<Rightarrow> bool" where
  "schedule_ok env limit p c \<longleftrightarrow> (case sd_phase c of
     Scanning \<Rightarrow> loop_ok p (sd_running c) (sd_world c) \<and> tasks_ok env limit (sd_running c) \<and> shared env (sd_running c)
   | Collecting \<Rightarrow> loop_ok p (sd_running c) (sd_world c) \<and> tasks_ok env limit (sd_running c) \<and> shared env (sd_running c)
   | Waiting \<Rightarrow> loop_ok p (sd_running c) (sd_world c) \<and> tasks_ok env limit (sd_running c) \<and> sd_running c \<noteq> []
   | Ended \<Rightarrow> all_done p (fw_run (sd_world c))
   | _ \<Rightarrow> True)"

text \<open>A graph that is started, or started again after a resumption: nothing is ready or running.\<close>

definition schedule_start :: "graph_place \<Rightarrow> 'w flow_world \<Rightarrow> bool" where
  "schedule_start p w \<longleftrightarrow> (\<forall>s \<in> set (gp_steps p). \<exists>st. status_at p (fw_run w) (st_id s) = Some st \<and> (st = SS_Pending \<or> is_terminal st))"

lemma start_ok:
  assumes "schedule_start p w"
  shows "schedule_ok env limit p (scheduled w)"
proof -
  have "loop_ok p [] w"
    unfolding loop_ok_def
  proof (intro conjI ballI)
    fix s assume "s \<in> set (gp_steps p)"
    with assms obtain st where st: "status_at p (fw_run w) (st_id s) = Some st" "st = SS_Pending \<or> is_terminal st"
      by (auto simp: schedule_start_def)
    then show "record_at p (fw_run w) (st_id s) \<noteq> None" by (auto simp: status_record)
    from st show "status_at p (fw_run w) (st_id s) = Some SS_Running \<longleftrightarrow> s \<in> running_steps []" by (auto simp: terminal_statuses)
    from st show "status_at p (fw_run w) (st_id s) \<in> {Some SS_Ready, Some SS_Running} \<longrightarrow> may_start p (fw_run w) s"
      by (auto simp: terminal_statuses)
  qed simp_all
  then show ?thesis by (simp add: schedule_ok_def scheduled_def tasks_ok_def shared_def)
qed

lemma turn_ok:
  assumes ok: "graph_ok p" and c: "schedule_ok env limit p c" "sd_phase c = Scanning"
  shows "schedule_ok env limit p (take_turn env limit p hit c)"
proof -
  have loop: "loop_ok p (sd_running c) (sd_world c)" and free: "shared env (sd_running c)" "length (sd_running c) \<le> limit"
    using c by (auto simp: schedule_ok_def tasks_ok_def)
  show ?thesis
  proof (cases rule: turn_ways [of env limit p hit c])
    case (turn w' t running')
    then show ?thesis
      using turn_waits [OF ok loop free, of hit "sd_fatal c" w' running'] turn_ends [OF ok loop free, of hit "sd_fatal c" w' running']
      by (cases t) (simp_all add: schedule_ok_def)
  qed (simp add: schedule_ok_def)
qed

lemma task_ok:
  assumes ok: "graph_ok p" and c: "schedule_ok env limit p c" "sd_phase c \<in> {Waiting, Collecting}" and t: "t \<in> set (sd_running c)"
  shows "schedule_ok env limit p (run_task env p t c)"
proof -
  have loop: "loop_ok p (sd_running c) (sd_world c)" and tasks: "tasks_ok env limit (sd_running c)"
    using c by (auto simp: schedule_ok_def)
  show ?thesis
  proof (cases rule: task_ways [of env p t c])
    case (settled w' u)
    have "loop_ok p (remove1 t (sd_running c)) w'" by (rule body_loop [OF ok loop t settled(1)]) simp
    moreover have alone: "shared env (remove1 t (sd_running c))"
      unfolding shared_def
    proof (intro ballI notI)
      fix t' assume t': "t' \<in> set (remove1 t (sd_running c))" "exclusive env (fst t')"
      then have "sd_running c = [t']" using tasks set_remove1_subset [of t "sd_running c"] by (auto simp: tasks_ok_def)
      with t t' show False by simp
    qed
    moreover have "tasks_ok env limit (remove1 t (sd_running c))"
      using tasks alone length_remove1 [of t "sd_running c"] by (auto simp: tasks_ok_def shared_def split: if_splits)
    ultimately show ?thesis using settled(2) by (simp add: schedule_ok_def)
  qed (simp add: schedule_ok_def)
qed

lemma schedule_step_ok:
  assumes "schedule_step env limit p c c'" and "graph_ok p" and "schedule_ok env limit p c"
  shows "schedule_ok env limit p c'"
  using assms(1)
proof (cases rule: schedule_step.cases)
  case (turn hit)
  with turn_ok [OF assms(2,3)] show ?thesis by simp
next
  case (task t)
  with task_ok [OF assms(2,3)] show ?thesis by simp
next
  case again
  with assms(3) show ?thesis by (simp add: schedule_ok_def)
qed

lemma schedule_reached_ok:
  assumes "(schedule_step env limit p)\<^sup>*\<^sup>* (scheduled w) c" and "graph_ok p" and "schedule_start p w"
  shows "schedule_ok env limit p c"
  using assms(1) by (induction rule: rtranclp_induct) (auto intro: start_ok [OF assms(3)] schedule_step_ok [OF _ assms(2)])

lemma never_stuck:
  assumes "schedule_step env limit p c c'" and "graph_ok p" and "ordered p" and "0 < limit" and "schedule_ok env limit p c"
  shows "sd_phase c' \<noteq> Stuck"
  using assms(1)
proof (cases rule: schedule_step.cases)
  case (turn hit)
  have loop: "loop_ok p (sd_running c) (sd_world c)" "shared env (sd_running c)" "length (sd_running c) \<le> limit"
    using turn(2) assms(5) by (auto simp: schedule_ok_def tasks_ok_def)
  show ?thesis
  proof (cases rule: turn_ways [of env limit p hit c])
    case (turn w' t running')
    then have "t \<noteq> Turn_Impossible" using turn_possible [OF assms(2-4) loop] by blast
    with \<open>c' = _\<close> turn(2) show ?thesis by (cases t) simp_all
  qed (simp add: turn(1))
next
  case (task t)
  then show ?thesis by (cases rule: task_ways [of env p t c]) simp_all
qed simp

section \<open>How long the loop takes\<close>

definition steps_left :: "graph_place \<Rightarrow> workflow_run \<Rightarrow> nat" where
  "steps_left p run = length (with_status p (\<lambda>st. \<not> is_terminal st) run)"

definition keeps_done :: "graph_place \<Rightarrow> 'w flow_world \<Rightarrow> 'w flow_world \<Rightarrow> bool" where
  "keeps_done p w w' \<longleftrightarrow> (\<forall>k st. status_at p (fw_run w) k = Some st \<and> is_terminal st \<longrightarrow> status_at p (fw_run w') k = Some st)
     \<and> (\<forall>k. status_at p (fw_run w) k = None \<longrightarrow> status_at p (fw_run w') k = None)"

lemma keeps_done_trans: "keeps_done p w w1 \<Longrightarrow> keeps_done p w1 w2 \<Longrightarrow> keeps_done p w w2"
  by (simp add: keeps_done_def)

lemma length_filter_implies: "(\<And>x. x \<in> set xs \<Longrightarrow> P x \<Longrightarrow> Q x) \<Longrightarrow> length (filter P xs) \<le> length (filter Q xs)"
  by (induction xs) auto

lemma length_filter_less:
  assumes "\<And>x. x \<in> set xs \<Longrightarrow> P x \<Longrightarrow> Q x" and "x \<in> set xs" and "Q x" and "\<not> P x"
  shows "length (filter P xs) < length (filter Q xs)"
  using assms
proof (induction xs)
  case (Cons y xs)
  have "length (filter P xs) \<le> length (filter Q xs)" by (rule length_filter_implies) (use Cons.prems(1) in auto)
  with Cons show ?case by (cases "x = y") (auto simp: less_Suc_eq_le)
qed simp

lemma keeps_done_left: "keeps_done p w w' \<Longrightarrow> steps_left p (fw_run w') \<le> steps_left p (fw_run w)"
  unfolding steps_left_def with_status_def keeps_done_def
  by (rule length_filter_implies) (auto split: option.splits)

lemma only_done:
  assumes "only_step p k w w'" and "\<not> (\<exists>st. status_at p (fw_run w) k = Some st \<and> is_terminal st)"
  shows "keeps_done p w w'"
  unfolding keeps_done_def
proof (intro conjI allI impI)
  fix k' st assume "status_at p (fw_run w) k' = Some st \<and> is_terminal st"
  with assms show "status_at p (fw_run w') k' = Some st" by (cases "k' = k") (auto simp: only_status [OF assms(1)])
next
  fix k' assume "status_at p (fw_run w) k' = None"
  with assms(1) show "status_at p (fw_run w') k' = None" by (simp add: only_step_def status_record)
qed

lemma scan_done: "keeps_done p w (fst (scan_steps p xs fatal w))"
proof (induction xs arbitrary: fatal w)
  case (Cons s xs)
  obtain w1 x where step: "scan_step p s w = (w1, x)" by fastforce
  have first: "keeps_done p w w1"
    using scan_step_cases [OF step]
  proof
    assume "decision p s w w1"
    then show ?thesis by (intro only_done [of p "st_id s"]) (auto simp: decision_def terminal_statuses)
  qed (auto simp: unchanged_def keeps_done_def status_record)
  show ?case
  proof (cases x)
    case (Inr b)
    from keeps_done_trans [OF first Cons] step Inr show ?thesis by (simp add: fst_bind)
  qed (use first step in \<open>simp add: fst_bind\<close>)
qed (simp add: ret_def keeps_done_def)

lemma launch_done:
  assumes "graph_ok p" and "distinct xs" and "\<forall>s \<in> set xs. s \<in> set (gp_steps p) \<and> status_at p (fw_run w) (st_id s) = Some SS_Ready"
    and "launch p xs w = (w', Inr new)"
  shows "keeps_done p w w'"
  using assms(2-)
proof (induction xs arbitrary: w new)
  case Nil
  then show ?case by (simp add: launch_def ret_def keeps_done_def)
next
  case (Cons s xs)
  from Cons.prems(3) obtain w1 n rest where begun: "begin_record s (step_address p (st_id s)) w = (w1, Inr n)"
    and rest: "launch p xs w1 = (w', Inr rest)" by (auto simp: launch_def op_ok)
  have w1: "w1 = fst (begin_record s (step_address p (st_id s)) w)" using begun by simp
  have first: "keeps_done p w w1"
    unfolding w1 by (rule only_done [OF begin_only]) (use Cons.prems(2) in \<open>simp add: terminal_statuses\<close>)
  have "\<forall>s' \<in> set xs. s' \<in> set (gp_steps p) \<and> status_at p (fw_run w1) (st_id s') = Some SS_Ready"
  proof
    fix s' assume s': "s' \<in> set xs"
    then have "s' \<noteq> s" "s' \<in> set (gp_steps p)" "s \<in> set (gp_steps p)" "status_at p (fw_run w) (st_id s') = Some SS_Ready"
      using Cons.prems by auto
    then show "s' \<in> set (gp_steps p) \<and> status_at p (fw_run w1) (st_id s') = Some SS_Ready"
      using same_id [OF assms(1)] only_status [OF begin_only] unfolding w1 by metis
  qed
  with Cons.IH [OF _ _ rest] Cons.prems(1) keeps_done_trans [OF first] show ?case by simp
qed

text \<open>A potential that every step of the loop lowers.\<close>

definition potential :: "graph_place \<Rightarrow> 'w schedule \<Rightarrow> nat" where
  "potential p c = (let n = 4 * steps_left p (fw_run (sd_world c)) in
     case sd_phase c of Scanning \<Rightarrow> n + 2 | Waiting \<Rightarrow> n + 1 | Collecting \<Rightarrow> n + 3 | _ \<Rightarrow> 0)"

lemma turn_left:
  assumes ok: "graph_ok p" and free: "length running \<le> limit"
    and turn: "scheduler_turn env limit p hit running fatal w = (w', Inr (Turn_Waits, running'))"
  shows "steps_left p (fw_run w') \<le> steps_left p (fw_run w)"
proof -
  from turn obtain w1 fatal' ready new where scan: "scan_steps p (gp_steps p) fatal w = (w1, Inr fatal')"
    and ready: "ready = with_status p (\<lambda>st. st = SS_Ready) (fw_run w1)"
    and launch: "launch p (select_steps env limit (length running) ready) w1 = (w', Inr new)"
    by (auto simp: scheduler_turn_def wait_or_end_def op_ok split: if_splits)
  have first: "keeps_done p w w1" using scan_done [of p w "gp_steps p" fatal] scan by simp
  have dist: "distinct ready" using ok by (simp add: ready with_status_def graph_ok_def distinct_map)
  have "\<forall>s \<in> set (select_steps env limit (length running) ready). s \<in> set (gp_steps p) \<and> status_at p (fw_run w1) (st_id s) = Some SS_Ready"
    using select_some(1) [OF dist free, where env = env] by (auto simp: ready with_status_mem)
  from launch_done [OF ok select_some(2) [OF dist free] this launch] keeps_done_trans [OF first] show ?thesis by (simp add: keeps_done_left)
qed

lemma task_left:
  assumes ok: "graph_ok p" and loop: "loop_ok p running w" and t: "t \<in> set running" and body: "task_body env p t w = (w', Inr u)"
  shows "steps_left p (fw_run w') < steps_left p (fw_run w)"
proof -
  have s: "fst t \<in> set (gp_steps p)" "status_at p (fw_run w) (st_id (fst t)) = Some SS_Running" using loop t by (auto simp: loop_ok_def)
  have only: "only_step p (st_id (fst t)) w w'" using body_only [of p t w env] body by simp
  have kept: "keeps_done p w w'" by (rule only_done [OF only]) (use s in \<open>simp add: terminal_statuses\<close>)
  have rec: "record_for_address (fw_run w) (step_address p (st_id (fst t))) \<noteq> None" using running_record [OF loop t] by (simp add: record_at_def)
  have "finish_record env (gp_records p) (gp_item p) (fst t) (step_address p (st_id (fst t))) (snd t) w = (w', Inr u)"
    using body by (simp add: task_body_def split: prod.splits)
  from finish_settles [OF this _ rec] obtain r where "record_at p (fw_run w') (st_id (fst t)) = Some r" "is_terminal (sr_status r)"
    by (auto simp: record_at_def)
  then have ended: "\<exists>st. status_at p (fw_run w') (st_id (fst t)) = Some st \<and> is_terminal st" by (simp add: status_record)
  show ?thesis
    unfolding steps_left_def with_status_def
  proof (rule length_filter_less [OF _ s(1)])
    show "case status_at p (fw_run w) (st_id (fst t)) of None \<Rightarrow> False | Some st \<Rightarrow> \<not> is_terminal st"
      using s(2) by (simp add: terminal_statuses)
    show "\<not> (case status_at p (fw_run w') (st_id (fst t)) of None \<Rightarrow> False | Some st \<Rightarrow> \<not> is_terminal st)"
      using ended by auto
  qed (use kept in \<open>auto simp: keeps_done_def split: option.splits\<close>)
qed

lemma potential_falls:
  assumes "schedule_step env limit p c c'" and ok: "graph_ok p" and c: "schedule_ok env limit p c"
  shows "potential p c' < potential p c"
  using assms(1)
proof (cases rule: schedule_step.cases)
  case step: (turn hit)
  have free: "length (sd_running c) \<le> limit" using step(2) c by (auto simp: schedule_ok_def tasks_ok_def)
  show ?thesis
  proof (cases rule: turn_ways [of env limit p hit c])
    case (turn w' t running')
    with step turn_left [OF ok free, of env hit "sd_fatal c" "sd_world c" w' running'] show ?thesis
      by (cases t) (simp_all add: potential_def)
  qed (use step in \<open>simp add: potential_def\<close>)
next
  case step: (task t)
  have loop: "loop_ok p (sd_running c) (sd_world c)" using step(2) c by (auto simp: schedule_ok_def)
  show ?thesis
  proof (cases rule: task_ways [of env p t c])
    case (settled w' u)
    have "steps_left p (fw_run w') < steps_left p (fw_run (sd_world c))" by (rule task_left [OF ok loop step(3) settled(1)])
    with step settled(2) show ?thesis by (auto simp: potential_def)
  qed (use step in \<open>auto simp: potential_def\<close>)
next
  case again
  then show ?thesis by (simp add: potential_def)
qed

lemma potential_bound:
  assumes "graph_ok p" and "(schedule_step env limit p ^^ k) c c'" and "schedule_ok env limit p c"
  shows "k + potential p c' \<le> potential p c \<and> schedule_ok env limit p c'"
  using assms(2)
proof (induction k arbitrary: c')
  case 0
  with assms(3) show ?case by simp
next
  case (Suc k)
  then obtain d where d: "(schedule_step env limit p ^^ k) c d" and step: "schedule_step env limit p d c'" by auto
  from Suc.IH [OF d] have "k + potential p d \<le> potential p c" "schedule_ok env limit p d" by auto
  with potential_falls [OF step assms(1)] schedule_step_ok [OF step assms(1)] show ?case by auto
qed

lemma start_potential: "potential p (scheduled w) \<le> 4 * length (gp_steps p) + 2"
  by (simp add: potential_def scheduled_def steps_left_def with_status_def)

end
