(* ===== verification/Workflow_Undisturbed.thy ===== *)
theory Workflow_Undisturbed
  imports Workflow_Schedule_Spec
begin

text \<open>
  A scheduler that nothing disturbs: when checkpoints and dispatches succeed, and neither the process nor a
  step is cancelled or killed, no exception leaves the loop.  \<open>raises_only E m\<close> bounds the exceptions of an
  operation when no fate is left to come.
\<close>

named_theorems raises_intros \<open>bounds on exceptions\<close>

definition raises_only :: "flow_error set \<Rightarrow> ('w, 'a) flow \<Rightarrow> bool" where
  "raises_only E m \<longleftrightarrow> (\<forall>w. fw_fates w = [] \<longrightarrow> fw_fates (fst (m w)) = [] \<and> (\<forall>e. snd (m w) = Inl e \<longrightarrow> e \<in> E))"

lemma raisesD: "raises_only E m \<Longrightarrow> fw_fates w = [] \<Longrightarrow> m w = (w', r) \<Longrightarrow> fw_fates w' = [] \<and> (\<forall>e. r = Inl e \<longrightarrow> e \<in> E)"
  unfolding raises_only_def by force

lemma raisesI: "(\<And>w w' r. fw_fates w = [] \<Longrightarrow> m w = (w', r) \<Longrightarrow> fw_fates w' = [] \<and> (\<forall>e. r = Inl e \<longrightarrow> e \<in> E)) \<Longrightarrow> raises_only E m"
  unfolding raises_only_def by (metis prod.collapse)

lemma raises_returns: "raises_only {} m \<Longrightarrow> fw_fates w = [] \<Longrightarrow> \<exists>w' x. m w = (w', Inr x) \<and> fw_fates w' = []"
  using raisesD [of "{}" m w "fst (m w)" "snd (m w)"] by (cases "snd (m w)") (auto simp: prod_eq_iff)

lemma raises_bind [raises_intros]:
  assumes m: "raises_only E m" and f: "\<And>x. raises_only E (f x)"
  shows "raises_only E (bind m f)"
proof (rule raisesI)
  fix w w' r assume w: "fw_fates w = []" and run: "bind m f w = (w', r)"
  obtain w1 x where step: "m w = (w1, x)" by fastforce
  note ok = raisesD [OF m w step]
  show "fw_fates w' = [] \<and> (\<forall>e. r = Inl e \<longrightarrow> e \<in> E)"
  proof (cases x)
    case (Inl e)
    with run step have "w' = w1" "r = Inl e" by (simp_all add: bind_def)
    with ok Inl show ?thesis by simp
  next
    case (Inr y)
    with run step have "f y w1 = (w', r)" by (simp add: bind_def)
    from raisesD [OF f _ this] ok show ?thesis by simp
  qed
qed

lemma raises_handle [raises_intros]:
  assumes m: "raises_only D m" and h: "\<And>e. e \<in> D \<Longrightarrow> raises_only E (h e)"
  shows "raises_only E (handle m h)"
proof (rule raisesI)
  fix w w' r assume w: "fw_fates w = []" and run: "handle m h w = (w', r)"
  obtain w1 x where step: "m w = (w1, x)" by fastforce
  note ok = raisesD [OF m w step]
  show "fw_fates w' = [] \<and> (\<forall>e. r = Inl e \<longrightarrow> e \<in> E)"
  proof (cases x)
    case (Inl e)
    with run step have "h e w1 = (w', r)" by (simp add: handle_def)
    from raisesD [OF h _ this] ok Inl show ?thesis by simp
  next
    case (Inr y)
    with run step have "w' = w1" "r = Inr y" by (simp_all add: handle_def)
    with ok show ?thesis by simp
  qed
qed

lemma raises_basic [raises_intros]:
  "raises_only E (ret x)" "raises_only E (reads f)" "e \<in> E \<Longrightarrow> raises_only E (raise e)" "(\<not> b \<Longrightarrow> e \<in> E) \<Longrightarrow> raises_only E (unless b e)"
  "(\<And>e. r = Inl e \<Longrightarrow> e \<in> E) \<Longrightarrow> raises_only E (lift r)" "e \<in> E \<Longrightarrow> raises_only E (some_or e v)"
  "(\<And>m. Step_Error m \<in> E) \<Longrightarrow> raises_only E (checked_step q)"
  by (auto simp: raises_only_def op_defs checked_step_def step_error_def split: sum.splits option.splits)

lemma raises_writes: "(\<And>w. fw_fates (f w) = fw_fates w) \<Longrightarrow> raises_only E (writes f)"
  by (simp add: raises_only_def writes_def)

lemma raises_records [raises_intros]:
  "raises_only E (on_run g)" "raises_only E (on_record a f)" "raises_only E (on_entry a h)" "raises_only E (writes (\<lambda>w. w\<lparr>fw_grants := gs\<rparr>))"
  by (auto simp: on_record_def on_entry_def on_run_def intro!: raises_writes)

lemma raises_fated: "(\<And>w. fw_fates (fst (act w)) = fw_fates w) \<Longrightarrow> raises_only E (fated act)"
  by (auto simp: raises_only_def fated_def bind_def next_fate_def split: prod.split) (metis fst_conv)

lemma raises_calls [raises_intros]: "raises_only E save_run" "raises_only E (send_tool env n args payload sent)"
  unfolding save_run_def send_tool_def by (rule raises_fated; auto split: prod.split)+

lemma raises_each [raises_intros]: "(\<And>x. x \<in> set xs \<Longrightarrow> raises_only E (f x)) \<Longrightarrow> raises_only E (each f xs)"
  by (induction xs) (auto intro!: raises_intros)

section \<open>A step\<close>

definition plain_errors :: "flow_error set" where
  "plain_errors = - {Flow_Killed, Flow_Cancelled}"

definition undisturbed_env :: "'w flow_env \<Rightarrow> bool" where
  "undisturbed_env env \<longleftrightarrow> (\<forall>s ctx x e. snd (fe_other env s ctx x) = Inl e \<longrightarrow> e \<in> plain_errors)"

lemma plain_members [simp]:
  "Step_Error m \<in> plain_errors" "Permission_Error m \<in> plain_errors" "Model_Failure c m \<in> plain_errors" "Doubt_Error m \<in> plain_errors"
  "Performed_Error m \<in> plain_errors" "Replay_Error m \<in> plain_errors"
  by (simp_all add: plain_errors_def)

lemma approval_errors: "execute_approval env k mode prompt proposal items key ctx = Inl e \<Longrightarrow> e \<in> plain_errors"
  by (auto simp: execute_approval_def andthen_def step_error_def split: sum.splits json.splits approval_mode.splits option.splits if_splits)

lemma admit_errors: "admit_effect dry x n args key = Inl e \<Longrightarrow> e \<in> plain_errors"
  by (auto simp: admit_effect_def split: if_splits effect_status.splits)

lemma raises_settle: "raises_only plain_errors (settle_effect a n kind r)"
  unfolding settle_effect_def Let_def by (intro raises_intros) auto

lemma raises_output: "raises_only plain_errors (tool_output expose r)"
  unfolding tool_output_def by (intro raises_intros) auto

lemma raises_perform: "raises_only plain_errors (perform_effect env a n args payload kind key replay expose)"
  unfolding perform_effect_def by (intro raises_intros raises_settle raises_output)

lemma raises_journal: "raises_only plain_errors (journal_effect env k a n args t kind key)"
  unfolding journal_effect_def by (auto intro!: raises_intros admit_errors split: option.split)

lemma raises_gated: "raises_only plain_errors (gated_arguments env kind n args)"
  unfolding gated_arguments_def Let_def by (auto intro!: raises_intros split: option.split gate_decision.split)

lemma raises_tool: "raises_only plain_errors (execute_tool env s a n exprs expose ctx)"
  unfolding execute_tool_def Let_def
  by (auto intro!: raises_intros raises_gated raises_journal raises_perform raises_output)

lemma raises_leaf: "undisturbed_env env \<Longrightarrow> raises_only plain_errors (execute_leaf env s a ctx)"
proof -
  assume env: "undisturbed_env env"
  have other: "raises_only plain_errors (\<lambda>w. case fe_other env s ctx (fw_outside w) of (w', r) \<Rightarrow> (w\<lparr>fw_outside := w'\<rparr>, r))"
    using env by (auto simp: raises_only_def undisturbed_env_def split: prod.split) (metis snd_conv)
  show ?thesis
    unfolding execute_leaf_def using other
    by (auto intro!: raises_intros raises_tool dest: approval_errors split: step_kind.split workflow_check.split)
qed

lemma raises_retries: "undisturbed_env env \<Longrightarrow> raises_only plain_errors (leaf_with_retries left env s a ctx number)"
proof (induction left arbitrary: number)
  case 0
  then show ?case by (auto intro!: raises_intros raises_leaf)
next
  case (Suc left)
  then show ?case by (auto intro!: raises_intros raises_leaf split: flow_error.split)
qed

lemma raises_failed: "e \<in> plain_errors \<Longrightarrow> raises_only {} (step_failed s a number e)"
  unfolding step_failed_def by (cases e) (auto intro!: raises_intros simp: plain_errors_def)

lemma raises_finish:
  assumes "undisturbed_env env"
  shows "raises_only {} (finish_record env recs item s a number)"
proof -
  have "raises_only plain_errors (bind (step_result env s a ctx number) (\<lambda>x. ret (Some x)))" for ctx
    unfolding step_result_def using assms by (auto intro!: raises_intros raises_retries)
  then have "raises_only {} (handle (bind (step_result env s a ctx number) (\<lambda>x. ret (Some x)))
      (\<lambda>e. bind (step_failed s a number e) (\<lambda>_. ret None)))" for ctx
    by (rule raises_handle) (intro raises_intros raises_failed)
  then show ?thesis
    unfolding finish_record_def
    by (intro raises_bind raises_basic) (auto intro!: raises_intros raises_failed split: option.split)
qed

section \<open>The loop\<close>

lemma raises_body: "undisturbed_env env \<Longrightarrow> raises_only {} (task_body env p t)"
  unfolding task_body_def by (auto intro: raises_finish split: prod.split)

lemma raises_end_task: "undisturbed_env env \<Longrightarrow> raises_only {} (end_task env p hit t)"
proof -
  assume env: "undisturbed_env env"
  have "raises_only {Flow_Cancelled} (step_failed (fst t) a n Flow_Cancelled)" for a n
    unfolding step_failed_def by (auto intro!: raises_intros)
  moreover have "raises_only {Flow_Cancelled} (task_body env p t)" using raises_body [OF env, of p t] by (auto simp: raises_only_def)
  ultimately show ?thesis
    unfolding end_task_def by (intro raises_handle [where D = "{Flow_Cancelled}"]) (auto intro!: raises_intros)
qed

lemma raises_stop: "undisturbed_env env \<Longrightarrow> raises_only {} (stop_graph env p hit running)"
  unfolding stop_graph_def stop_step_def by (auto intro!: raises_intros raises_end_task)

lemma raises_launch: "raises_only {} (launch p xs)"
  unfolding launch_def begin_record_def by (intro raises_intros)

lemma raises_wait: "raises_only {} (wait_or_end p running)"
  unfolding wait_or_end_def by (auto intro!: raises_intros)

lemma scan_returns:
  assumes "graph_ok p" and "loop_ok p running w" and "s \<in> set (gp_steps p)" and "fw_fates w = []"
  shows "\<exists>w' b. scan_step p s w = (w', Inr b) \<and> fw_fates w' = []"
proof -
  have there: "record_at p (fw_run w) k \<noteq> None" if "k \<in> st_id ` set (gp_steps p)" for k
    using that assms(2) unfolding loop_ok_def by blast
  then obtain r where r: "record_at p (fw_run w) (st_id s) = Some r" using assms(3) by blast
  have needs: "set (st_needs s) \<subseteq> st_id ` set (gp_steps p)" using assms(1,3) by (auto simp: graph_ok_def)
  have "those (map f ks) \<noteq> None" if "\<forall>k \<in> set ks. f k \<noteq> None" for f :: "string \<Rightarrow> step_record option" and ks
    using that by (induction ks) auto
  from this [of "st_needs s" "record_at p (fw_run w)"] needs there
  obtain deps where deps: "those (map (record_at p (fw_run w)) (st_needs s)) = Some deps" by blast
  show ?thesis
  proof (cases "sr_status r = SS_Pending \<and> examine s (place_context p (fw_run w)) deps \<noteq> None")
    case True
    then obtain f where f: "examine s (place_context p (fw_run w)) deps = Some f" by blast
    have "raises_only {} (bind (on_record (step_address p (st_id s)) f) (\<lambda>_. bind save_run (\<lambda>_. ret (sr_status (f r) = SS_Failed \<and> st_on_error s = Fail_Workflow))))"
      by (intro raises_intros)
    from raises_returns [OF this assms(4)] True f r deps show ?thesis
      by (simp add: scan_step_def bind_def reads_def some_or_def)
  next
    case False
    with r deps assms(4) show ?thesis by (auto simp: scan_step_def op_defs)
  qed
qed

lemma scans_return:
  assumes "graph_ok p" and "loop_ok p running w" and "set xs \<subseteq> set (gp_steps p)" and "fw_fates w = []"
  shows "\<exists>w' b. scan_steps p xs fatal w = (w', Inr b) \<and> fw_fates w' = []"
  using assms(2-)
proof (induction xs arbitrary: fatal w)
  case (Cons s xs)
  have "s \<in> set (gp_steps p)" using Cons.prems(2) by simp
  from scan_returns [OF assms(1) Cons.prems(1) this Cons.prems(3)] obtain w1 b where
    first: "scan_step p s w = (w1, Inr b)" "fw_fates w1 = []" by blast
  have "loop_ok p running w1" using scan_step_loop [OF assms(1) Cons.prems(1), of s] Cons.prems(2) first by simp
  from Cons.IH [OF this _ first(2), of "fatal \<or> b"] Cons.prems(2) first show ?case by (auto simp: bind_def)
qed (simp add: ret_def)

lemma turn_returns:
  assumes "graph_ok p" and "loop_ok p running w" and "fw_fates w = []" and "undisturbed_env env"
  shows "\<exists>w' x. scheduler_turn env limit p hit running fatal w = (w', Inr x) \<and> fw_fates w' = []"
proof -
  obtain w1 b where scan: "scan_steps p (gp_steps p) fatal w = (w1, Inr b)" "fw_fates w1 = []"
    using scans_return [OF assms(1,2) order_refl assms(3)] by blast
  have "raises_only {} (if b then bind (stop_graph env p hit running) (\<lambda>_. ret (Turn_Ends, []))
     else bind (reads (\<lambda>w. with_status p (\<lambda>st. st = SS_Ready) (fw_run w))) (\<lambda>ready.
       bind (launch p (select_steps env limit (length running) ready)) (\<lambda>new. wait_or_end p (running @ new))))"
    by (auto intro!: raises_intros raises_stop [OF assms(4)] raises_launch raises_wait)
  from raises_returns [OF this scan(2)] show ?thesis
    unfolding scheduler_turn_def by (simp add: bind_def [of "scan_steps p (gp_steps p) fatal"] scan(1))
qed

text \<open>The phases that an undisturbed loop goes through.\<close>

definition undisturbed :: "'w schedule \<Rightarrow> bool" where
  "undisturbed c \<longleftrightarrow> fw_fates (sd_world c) = [] \<and> (\<nexists>e. sd_phase c = Crashed e)"

lemma undisturbed_step:
  assumes "schedule_step env limit p c c'" and "graph_ok p" and "schedule_ok env limit p c" and "undisturbed_env env" and "undisturbed c"
  shows "undisturbed c'"
  using assms(1)
proof (cases rule: schedule_step.cases)
  case step: (turn hit)
  then have loop: "loop_ok p (sd_running c) (sd_world c)" using assms(3) by (simp add: schedule_ok_def)
  from turn_returns [OF assms(2) loop _ assms(4), of limit hit "sd_fatal c"] assms(5)
  obtain w' x where run: "scheduler_turn env limit p hit (sd_running c) (sd_fatal c) (sd_world c) = (w', Inr x)" "fw_fates w' = []"
    by (auto simp: undisturbed_def)
  show ?thesis
  proof (cases rule: turn_ways [of env limit p hit c])
    case (turn w2 t running')
    with run step show ?thesis by (cases t) (auto simp: undisturbed_def)
  qed (use run in simp)
next
  case step: (task t)
  from raises_returns [OF raises_body [OF assms(4)], of "sd_world c" p t] assms(5)
  obtain w' x where run: "task_body env p t (sd_world c) = (w', Inr x)" "fw_fates w' = []" by (auto simp: undisturbed_def)
  show ?thesis
  proof (cases rule: task_ways [of env p t c])
    case (settled w2 u)
    with run step show ?thesis by (auto simp: undisturbed_def)
  qed (use run in simp)
next
  case again
  with assms(5) show ?thesis by (simp add: undisturbed_def)
qed

lemma undisturbed_reached:
  assumes "(schedule_step env limit p)\<^sup>*\<^sup>* (scheduled w) c" and "graph_ok p" and "schedule_start p w"
    and "undisturbed_env env" and "fw_fates w = []"
  shows "undisturbed c"
  using assms(1)
proof (induction rule: rtranclp_induct)
  case base
  then show ?case using assms(5) by (simp add: undisturbed_def scheduled_def)
next
  case (step c c')
  from undisturbed_step [OF step(2) assms(2) schedule_reached_ok [OF step(1) assms(2,3)] assms(4) step(3)] show ?case .
qed

end
