(* ===== verification/Workflow_Schedule_Properties.thy ===== *)
theory Workflow_Schedule_Properties
  imports Workflow_Undisturbed Workflow_Run_Properties Workflow_Graph_Spec
begin

text \<open>What the scheduler of a graph promises about order, parallelism and its own end.\<close>

inductive_cases schedule_stepE: "schedule_step env limit p c c'"

section \<open>Compiled graphs and fresh runs\<close>

text \<open>A graph that the compiler accepts is one the scheduler can rely on.\<close>

lemma validated_graph_ok:
  assumes "validate_graph label (graph_of steps) = []"
  shows "graph_ok (top_place steps)"
proof -
  from assms have wf: "well_formed_graph (graph_of steps)" by (simp add: accepted_iff)
  then have "distinct (map st_id steps)" by (simp add: well_formed_graph_def graph_of_def comp_def)
  moreover from wf have "known_needs (graph_of steps)" by (simp add: well_formed_graph_def)
  then have "\<forall>s \<in> set steps. set (st_needs s) \<subseteq> st_id ` set steps"
    by (auto simp: known_needs_def graph_of_def image_image)
  ultimately show ?thesis by (simp add: graph_ok_def top_place_def)
qed

lemma records_in_order:
  "distinct (map st_id steps) \<Longrightarrow> step_records_for steps = map (\<lambda>s. (st_id s, new_record (st_id s) s)) steps"
proof (induction steps rule: rev_induct)
  case (snoc s steps)
  have "AList.update k v xs = xs @ [(k, v)]" if "k \<notin> fst ` set xs" for k :: string and v :: step_record and xs
    using that by (induction xs) auto
  with snoc show ?case by (simp add: step_records_for_def image_image)
qed (simp add: step_records_for_def)

lemma new_run_starts:
  assumes "fw_run w = new_run k g scope trigger" and "steps = wf_steps (cw_spec g)" and "distinct (map st_id steps)"
  shows "schedule_start (top_place steps) w"
  unfolding schedule_start_def
proof
  fix s assume "s \<in> set (gp_steps (top_place steps))"
  then have s: "new_record (st_id s) s \<in> set (map (\<lambda>s. new_record (st_id s) s) steps)" by (simp add: top_place_def)
  have "distinct (map sr_address (map (\<lambda>s. new_record (st_id s) s) steps))"
    using assms(3) by (simp add: new_record_def comp_def)
  from find_row_mem [OF this s] have "status_at (top_place steps) (fw_run w) (st_id s) = Some SS_Pending"
    using assms by (simp add: status_at_def record_at_def step_address_def top_place_def record_for_address_def all_records_def
      new_run_def records_in_order comp_def new_record_def)
  then show "\<exists>st. status_at (top_place steps) (fw_run w) (st_id s) = Some st \<and> (st = SS_Pending \<or> is_terminal st)" by blast
qed

lemma fresh_run_ok:
  assumes "fw_run w = new_run k g scope trigger" and "steps = wf_steps (cw_spec g)" and "validate_graph label (graph_of steps) = []"
  shows "graph_ok (top_place steps)" and "schedule_start (top_place steps) w"
proof -
  show "graph_ok (top_place steps)" by (rule validated_graph_ok [OF assms(3)])
  then have "distinct (map st_id steps)" by (simp add: graph_ok_def top_place_def)
  then show "schedule_start (top_place steps) w" by (rule new_run_starts [OF assms(1,2)])
qed

text \<open>The loop goes on until its phase is final.\<close>

lemma loop_goes_on:
  assumes "schedule_ok env limit p c" and "\<nexists>c'. schedule_step env limit p c c'" and "sd_phase c \<noteq> Stuck"
  shows "sd_phase c = Ended \<and> all_done p (fw_run (sd_world c)) \<or> (\<exists>e. sd_phase c = Crashed e)"
proof (cases "sd_phase c")
  case Scanning
  with assms(2) schedule_step.turn show ?thesis by blast
next
  case Waiting
  with assms(1) obtain t where "t \<in> set (sd_running c)" by (cases "sd_running c") (auto simp: schedule_ok_def)
  with assms(2) schedule_step.task Waiting show ?thesis by blast
next
  case Collecting
  with assms(2) schedule_step.again show ?thesis by blast
qed (use assms in \<open>auto simp: schedule_ok_def\<close>)

lemma reached_not_stuck:
  assumes "(schedule_step env limit p)\<^sup>*\<^sup>* (scheduled w) c" and "graph_ok p" and "schedule_start p w" and "ordered p" and "0 < limit"
  shows "sd_phase c \<noteq> Stuck"
  using assms(1)
proof (cases rule: rtranclp.cases)
  case rtrancl_refl
  then show ?thesis by (simp add: scheduled_def)
next
  case (rtrancl_into_rtrancl d)
  from schedule_reached_ok [OF this(1) assms(2,3)] never_stuck [OF this(2) assms(2,4,5)] show ?thesis by simp
qed

section \<open>A run of three steps\<close>

definition say_step :: "string \<Rightarrow> string list \<Rightarrow> condition option \<Rightarrow> step" where
  "say_step k needs cond = Step k needs On_Success Fail_Workflow cond \<lparr>rp_max_attempts = 1, rp_on = []\<rparr>
     (Message_Step (Literal_Expr (JStr k)))"

definition say_steps :: "step list" where
  "say_steps = [say_step ''hello'' [] None, say_step ''there'' [] None, say_step ''bye'' [''hello'', ''there''] None]"

definition say_graph :: "step list \<Rightarrow> compiled_graph" where
  "say_graph steps = send_graph\<lparr>cw_spec := send_spec\<lparr>wf_steps := steps\<rparr>\<rparr>"

definition say_start :: "step list \<Rightarrow> unit flow_world" where
  "say_start steps = note_start\<lparr>fw_run := new_run ''workflow_1'' (say_graph steps) \<lparr>primary = ''user'', profiles = [''user'']\<rparr>
     (JObj [(''go'', JBool False)])\<rparr>"

definition say_turn :: "unit schedule \<Rightarrow> unit schedule" where
  "say_turn c = take_turn note_env 4 (top_place say_steps) (\<lambda>_. False) (c\<lparr>sd_phase := Scanning\<rparr>)"

definition say_task :: "string \<Rightarrow> string list \<Rightarrow> unit schedule \<Rightarrow> unit schedule" where
  "say_task k needs = run_task note_env (top_place say_steps) (say_step k needs None, 0)"

text \<open>The first two steps run at the same time and end in the other order.\<close>

definition say_both :: "unit schedule" where
  "say_both = say_turn (scheduled (say_start say_steps))"

definition say_one :: "unit schedule" where
  "say_one = say_task ''there'' [] say_both"

definition say_two :: "unit schedule" where
  "say_two = say_task ''hello'' [] say_one"

definition say_last :: "unit schedule" where
  "say_last = say_turn say_two"

definition say_all :: "unit schedule" where
  "say_all = say_task ''bye'' [''hello'', ''there''] say_last"

definition say_end :: "unit schedule" where
  "say_end = say_turn say_all"

lemma say_phases:
  "sd_phase say_both = Waiting" "sd_phase say_one = Collecting" "sd_phase say_two = Collecting" "sd_phase say_last = Waiting"
  "sd_phase say_all = Collecting" "sd_phase say_end = Ended"
  by code_simp+

lemma say_running:
  "sd_running say_both = [(say_step ''hello'' [] None, 0), (say_step ''there'' [] None, 0)]"
  "sd_running say_one = [(say_step ''hello'' [] None, 0)]"
  "sd_running say_last = [(say_step ''bye'' [''hello'', ''there''] None, 0)]"
  by code_simp+

abbreviation say_rel :: "unit schedule \<Rightarrow> unit schedule \<Rightarrow> bool" where
  "say_rel \<equiv> schedule_step note_env 4 (top_place say_steps)"

lemma say_turns: "say_rel (c\<lparr>sd_phase := Scanning\<rparr>) (say_turn c)"
  unfolding say_turn_def by (rule schedule_step.turn) simp

lemma say_tasks:
  "sd_phase c \<in> {Waiting, Collecting} \<Longrightarrow> (say_step k needs None, 0) \<in> set (sd_running c) \<Longrightarrow> say_rel c (say_task k needs c)"
  unfolding say_task_def by (rule schedule_step.task)

lemma say_scheduled: "say_rel (scheduled (say_start say_steps)) say_both"
  using say_turns [of "scheduled (say_start say_steps)"] by (simp add: say_both_def scheduled_def)

lemma say_twice:
  assumes "sd_phase c = Collecting" and "say_rel\<^sup>*\<^sup>* a c"
  shows "say_rel\<^sup>*\<^sup>* a (say_turn c)"
proof -
  have "say_rel c (c\<lparr>sd_phase := Scanning\<rparr>)" by (rule schedule_step.again) (rule assms(1))
  with assms(2) have "say_rel\<^sup>*\<^sup>* a (c\<lparr>sd_phase := Scanning\<rparr>)" by (rule rtranclp.rtrancl_into_rtrancl)
  then show ?thesis by (rule rtranclp.rtrancl_into_rtrancl) (rule say_turns)
qed

lemma say_ended: "say_rel\<^sup>*\<^sup>* (scheduled (say_start say_steps)) say_one \<and> say_rel\<^sup>*\<^sup>* (scheduled (say_start say_steps)) say_last
  \<and> say_rel\<^sup>*\<^sup>* (scheduled (say_start say_steps)) say_end"
proof -
  have "say_rel\<^sup>*\<^sup>* (scheduled (say_start say_steps)) say_both" by (rule r_into_rtranclp) (rule say_scheduled)
  then have one: "say_rel\<^sup>*\<^sup>* (scheduled (say_start say_steps)) say_one" unfolding say_one_def
    by (rule rtranclp.rtrancl_into_rtrancl) (rule say_tasks, simp_all add: say_phases say_running)
  then have "say_rel\<^sup>*\<^sup>* (scheduled (say_start say_steps)) say_two" unfolding say_two_def
    by (rule rtranclp.rtrancl_into_rtrancl) (rule say_tasks, simp_all add: say_phases say_running)
  from say_twice [OF say_phases(3) this] have last: "say_rel\<^sup>*\<^sup>* (scheduled (say_start say_steps)) say_last" by (simp add: say_last_def)
  then have "say_rel\<^sup>*\<^sup>* (scheduled (say_start say_steps)) say_all" unfolding say_all_def
    by (rule rtranclp.rtrancl_into_rtrancl) (rule say_tasks, simp_all add: say_phases say_running)
  from say_twice [OF say_phases(5) this] one last show ?thesis by (simp add: say_end_def)
qed

lemma say_accepted: "validate_graph ''workflow'' (graph_of say_steps) = []"
  by code_simp

lemma say_run: "fw_run (say_start steps) = new_run ''workflow_1'' (say_graph steps) \<lparr>primary = ''user'', profiles = [''user'']\<rparr>
    (JObj [(''go'', JBool False)])"
  by (simp add: say_start_def)

lemma say_spec: "steps = wf_steps (cw_spec (say_graph steps))"
  by (simp add: say_graph_def)

lemmas say_ok = fresh_run_ok [OF say_run say_spec say_accepted]

section \<open>Order and parallelism\<close>



text \<open>
  C15: Never do more steps of a graph run at once than its limit allows, and a step that must not run beside
  another one (an approval, or a tool that is not read-only) is the only one that runs.
\<close>
theorem parallel_steps_bounded:
  assumes "(schedule_step env limit p)\<^sup>*\<^sup>* (scheduled w) c" and "graph_ok p" and "schedule_start p w"
    and "sd_phase c \<in> {Scanning, Waiting, Collecting}"
  shows "length (sd_running c) \<le> limit \<and> distinct (map fst (sd_running c))
    \<and> (\<forall>t \<in> set (sd_running c). exclusive env (fst t) \<longrightarrow> sd_running c = [t])"
  using schedule_reached_ok [OF assms(1-3)] assms(4) by (auto simp: schedule_ok_def tasks_ok_def loop_ok_def)

theorem parallel_steps_bounded_witness: "length (sd_running say_one) = 1 \<and> length (sd_running say_one) \<le> 4"
  using parallel_steps_bounded [OF conjunct1 [OF say_ended] say_ok] by (simp add: say_phases say_running)

section \<open>The end\<close>



text \<open>
  C13: A fresh run of a workflow that the compiler accepted and whose steps stand after the steps they need: when the
  loop can go no further, every step has ended, or an exception has left the loop; the scheduler never reports
  its impossible state.  If the run itself is not cancelled, every checkpoint and dispatch succeeds and no model or
  agent step is cancelled or killed, no exception leaves the loop, whatever else fails, so that every step has
  ended.
\<close>
theorem ordered_run_finishes:
  assumes "fw_run w = new_run k g scope trigger" and "steps = wf_steps (cw_spec g)" and "validate_graph label (graph_of steps) = []"
    and "\<forall>i < length steps. set (st_needs (steps ! i)) \<subseteq> st_id ` set (take i steps)" and "0 < limit"
    and "(schedule_step env limit (top_place steps))\<^sup>*\<^sup>* (scheduled w) c" and "\<nexists>c'. schedule_step env limit (top_place steps) c c'"
  shows "((sd_phase c = Ended
        \<and> (\<forall>s \<in> set steps. \<exists>st. status_at (top_place steps) (fw_run (sd_world c)) (st_id s) = Some st \<and> is_terminal st))
      \<or> (\<exists>e. sd_phase c = Crashed e))
    \<and> (fw_fates w = [] \<and> (\<forall>s context x. snd (fe_other env s context x) \<notin> {Inl Flow_Killed, Inl Flow_Cancelled}) \<longrightarrow> sd_phase c = Ended)"
proof -
  note ok = fresh_run_ok [OF assms(1-3)]
  have "ordered (top_place steps)" using assms(4) by (simp add: ordered_def top_place_def)
  from reached_not_stuck [OF assms(6) ok this assms(5)] loop_goes_on [OF schedule_reached_ok [OF assms(6) ok] assms(7)]
  have ends: "(sd_phase c = Ended \<and> all_done (top_place steps) (fw_run (sd_world c))) \<or> (\<exists>e. sd_phase c = Crashed e)" by blast
  moreover have "sd_phase c = Ended"
    if "fw_fates w = []" and other: "\<forall>s context x. snd (fe_other env s context x) \<notin> {Inl Flow_Killed, Inl Flow_Cancelled}"
  proof -
    have "undisturbed_env env" using other unfolding undisturbed_env_def plain_errors_def by fastforce
    from undisturbed_reached [OF assms(6) ok this that(1)] ends show ?thesis by (auto simp: undisturbed_def)
  qed
  ultimately show ?thesis by (auto simp: all_done_def top_place_def)
qed

theorem ordered_run_finishes_witness:
  "sd_phase say_end = Ended
   \<and> (\<exists>st. status_at (top_place say_steps) (fw_run (sd_world say_end)) ''bye'' = Some st \<and> is_terminal st)"
proof -
  have order: "\<forall>i < length say_steps. set (st_needs (say_steps ! i)) \<subseteq> st_id ` set (take i say_steps)"
  proof (intro allI impI)
    fix i assume "i < length say_steps"
    then have "i \<in> {0, 1, 2}" by (auto simp: say_steps_def)
    then show "set (st_needs (say_steps ! i)) \<subseteq> st_id ` set (take i say_steps)" by (auto simp: say_steps_def say_step_def)
  qed
  have last: "\<nexists>c'. say_rel say_end c'" by (auto elim!: schedule_stepE simp: say_phases)
  have limit: "(0 :: nat) < 4" by simp
  from ordered_run_finishes [OF say_run say_spec say_accepted order limit conjunct2 [OF conjunct2 [OF say_ended]] last]
  have "sd_phase say_end = Ended \<and> (\<forall>s \<in> set say_steps. \<exists>st.
      status_at (top_place say_steps) (fw_run (sd_world say_end)) (st_id s) = Some st \<and> is_terminal st)"
    by (auto simp: say_start_def note_start_def note_env_def)
  then show ?thesis by (auto simp: say_steps_def say_step_def)
qed

section \<open>A graph in another order\<close>

definition late_steps :: "step list" where
  "late_steps = [say_step ''bye'' [''hello''] None, say_step ''hello'' [] (Some \<lparr>cd_ref = ''trigger.go'', cd_operator = Op_Is_True, cd_value = JNull\<rparr>)]"

text \<open>
  The compiler accepts a step that stands before the step it needs.  When the condition of the latter is false,
  the scan skips it after it has passed the former, nothing runs, and the scheduler ends the run with its
  impossible state, although both steps could have been settled.
\<close>

lemma misordered_run_is_stuck:
  "validate_graph ''workflow'' (graph_of late_steps) = []
   \<and> (let c = take_turn note_env 4 (top_place late_steps) (\<lambda>_. False) (scheduled (say_start late_steps)) in
      sd_phase c = Stuck
      \<and> map (\<lambda>s. status_at (top_place late_steps) (fw_run (sd_world c)) (st_id s)) late_steps = [Some SS_Failed, Some SS_Skipped])"
  by code_simp

end
